(* ===== verification/Fleece_Prelude.thy ===== *)
theory Fleece_Prelude
  imports Main "HOL-Library.Word" "HOL-Library.Multiset" "HOL-Library.Monad_Syntax"
begin

unbundle bit_operations_syntax

text \<open>
  Shared vocabulary of the development: the machine types of the C sources, C strings,
  bounded first-match search over arrays, the insertion sort the sources write out by hand in
  several places, and the law that makes a byte decoder the inverse of an encoder.  The
  collections declared here gather the facts the component theories pass to the simplifier.
\<close>

named_theorems wire_simps \<open>decoding what an encoder has just written\<close>
named_theorems size_simps \<open>lengths of encodings against the sizing helpers\<close>
named_theorems frame_simps \<open>fields of a state record an operation leaves alone\<close>

section \<open>Machine types\<close>

type_synonym u8 = "8 word"
type_synonym u32 = "32 word"
type_synonym u64 = "64 word"

type_synonym bytes = "u8 list"

text \<open>
  The allocator is host code (\<open>fleece_malloc\<close> and friends are function pointers): whether a
  request for a number of bytes succeeds is an argument of the operations that allocate.
\<close>

type_synonym allocator = "nat \<Rightarrow> bool"

abbreviation UINT64_MAX :: u64 where
  "UINT64_MAX \<equiv> - 1"

abbreviation UINT32_MAX :: u32 where
  "UINT32_MAX \<equiv> - 1"

text \<open>A C string is the list of its characters before the terminating NUL.\<close>

definition cstr :: "bytes \<Rightarrow> bytes" where
  "cstr bs = takeWhile (\<lambda>b. b \<noteq> 0) bs"

definition lit :: "string \<Rightarrow> bytes" where
  "lit s = map of_char s"

lemma cstr_no_nul [simp]: "0 \<notin> set (cstr bs)"
  by (auto simp: cstr_def dest: set_takeWhileD)

lemma cstr_id [simp]: "0 \<notin> set bs \<Longrightarrow> cstr bs = bs"
  by (induction bs) (auto simp: cstr_def)

lemma length_cstr_le: "length (cstr bs) \<le> length bs"
  by (simp add: cstr_def length_takeWhile_le)

section \<open>Arrays searched from the front\<close>

text \<open>The loops \<open>for (i = 0; i < n; i++) if (P a[i]) return i;\<close> of the sources.\<close>

fun index_of :: "('a \<Rightarrow> bool) \<Rightarrow> 'a list \<Rightarrow> nat option" where
  "index_of P [] = None"
| "index_of P (x # xs) = (if P x then Some 0 else map_option Suc (index_of P xs))"

lemma index_of_SomeD:
  "index_of P xs = Some i \<Longrightarrow> i < length xs \<and> P (xs ! i) \<and> (\<forall>j<i. \<not> P (xs ! j))"
proof (induction xs arbitrary: i)
  case Nil
  then show ?case by simp
next
  case (Cons x xs)
  show ?case
  proof (cases "P x")
    case True
    with Cons.prems show ?thesis by simp
  next
    case False
    with Cons.prems obtain j where j: "index_of P xs = Some j" and i: "i = Suc j"
      by auto
    from Cons.IH [OF j] False i show ?thesis
      by (auto simp: nth_Cons split: nat.splits)
  qed
qed

lemma index_of_None_iff: "index_of P xs = None \<longleftrightarrow> (\<forall>x\<in>set xs. \<not> P x)"
  by (induction xs) auto

lemma index_of_None_nth: "index_of P xs = None \<longleftrightarrow> (\<forall>i<length xs. \<not> P (xs ! i))"
  unfolding index_of_None_iff by (metis in_set_conv_nth)

lemma index_of_lt [dest]: "index_of P xs = Some i \<Longrightarrow> i < length xs"
  by (drule index_of_SomeD) simp

lemma index_of_sat: "index_of P xs = Some i \<Longrightarrow> P (xs ! i)"
  by (drule index_of_SomeD) simp

text \<open>Where at most one position satisfies the test, the search finds that position.\<close>

lemma index_of_unique:
  assumes "i < length xs" and "P (xs ! i)"
    and "\<And>j. j < length xs \<Longrightarrow> P (xs ! j) \<Longrightarrow> j = i"
  shows "index_of P xs = Some i"
proof (cases "index_of P xs")
  case None
  with assms(1,2) show ?thesis by (auto simp: index_of_None_nth)
next
  case (Some j)
  then have "j < length xs" and "P (xs ! j)"
    by (auto dest: index_of_sat)
  with assms(3) Some show ?thesis by simp
qed

lemma index_of_cong:
  "length xs = length ys \<Longrightarrow> (\<And>i. i < length xs \<Longrightarrow> P (xs ! i) = Q (ys ! i)) \<Longrightarrow>
   index_of P xs = index_of Q ys"
proof (induction xs ys rule: list_induct2)
  case Nil
  then show ?case by simp
next
  case (Cons x xs y ys)
  have "P x = Q y" using Cons.prems [of 0] by simp
  moreover have "index_of P xs = index_of Q ys"
    using Cons.prems [of "Suc i" for i] by (intro Cons.IH) auto
  ultimately show ?case by simp
qed

lemma nth_update_below: "j < length xs \<Longrightarrow> xs[i := y] ! j = (if i = j then y else xs ! j)"
  by (cases "i = j") simp_all

section \<open>Insertion sort as the sources write it\<close>

text \<open>
  Every hand-written sort of the sources has the same shape: take the next element, shift the
  already sorted prefix right from its end while its elements must come after the new one
  (\<open>gt\<close>), and store the new element in the gap.  \<open>shift_in\<close> is the inner \<open>while\<close>, run on the
  reversed prefix; \<open>insertion_sort\<close> is the outer \<open>for\<close>.
\<close>

fun shift_in :: "('a \<Rightarrow> 'a \<Rightarrow> bool) \<Rightarrow> 'a \<Rightarrow> 'a list \<Rightarrow> 'a list" where
  "shift_in gt x [] = [x]"
| "shift_in gt x (y # ys) = (if gt y x then y # shift_in gt x ys else x # y # ys)"

definition insertion_sort :: "('a \<Rightarrow> 'a \<Rightarrow> bool) \<Rightarrow> 'a list \<Rightarrow> 'a list" where
  "insertion_sort gt xs = rev (foldl (\<lambda>acc x. shift_in gt x acc) [] xs)"

lemma mset_shift_in [simp]: "mset (shift_in gt x ys) = add_mset x (mset ys)"
  by (induction ys) auto

lemma mset_insertion_fold:
  "mset (foldl (\<lambda>acc x. shift_in gt x acc) acc xs) = mset acc + mset xs"
  by (induction xs arbitrary: acc) auto

lemma mset_insertion_sort [simp]: "mset (insertion_sort gt xs) = mset xs"
  by (simp add: insertion_sort_def mset_insertion_fold)

lemma set_insertion_sort [simp]: "set (insertion_sort gt xs) = set xs"
  by (metis mset_insertion_sort set_mset_mset)

lemma length_insertion_sort [simp]: "length (insertion_sort gt xs) = length xs"
  by (metis mset_insertion_sort size_mset)

lemma distinct_insertion_sort [simp]: "distinct (insertion_sort gt xs) = distinct xs"
  by (metis mset_insertion_sort mset_eq_imp_distinct_iff)

text \<open>
  The interface the sort relies on: the shifting test is the strict part of a total preorder.
  A NaN among floating-point keys is exactly what breaks it.
\<close>

locale shift_order =
  fixes gt :: "'a \<Rightarrow> 'a \<Rightarrow> bool"
  assumes gt_asym: "gt x y \<Longrightarrow> \<not> gt y x"
    and not_gt_trans: "\<not> gt x y \<Longrightarrow> \<not> gt y z \<Longrightarrow> \<not> gt x z"
begin

lemma set_shift_in: "set (shift_in gt x ys) = insert x (set ys)"
  by (induction ys) auto

lemma sorted_shift_in:
  "sorted_wrt (\<lambda>a b. \<not> gt b a) ys \<Longrightarrow> sorted_wrt (\<lambda>a b. \<not> gt b a) (shift_in gt x ys)"
proof (induction ys)
  case Nil
  then show ?case by simp
next
  case (Cons y ys)
  then show ?case
    by (auto simp: set_shift_in dest: gt_asym) (use not_gt_trans in blast)
qed

lemma sorted_insertion_fold:
  "sorted_wrt (\<lambda>a b. \<not> gt b a) acc \<Longrightarrow>
   sorted_wrt (\<lambda>a b. \<not> gt b a) (foldl (\<lambda>acc x. shift_in gt x acc) acc xs)"
  by (induction xs arbitrary: acc) (auto intro: sorted_shift_in)

lemma sorted_insertion_sort: "sorted_wrt (\<lambda>a b. \<not> gt a b) (insertion_sort gt xs)"
  by (simp add: insertion_sort_def sorted_wrt_rev sorted_insertion_fold)

end

end
