(* ===== verification/Cbor.thy ===== *)
theory Cbor
  imports Fleece_Prelude
begin

text \<open>
  The CBOR codec of \<open>src/state/fleece_cbor.c\<close> (its integer, string, array and boolean items).
  A writer appends to \<open>buf\<close> at \<open>*pos\<close>: it is modelled by the bytes it appends, so that the
  position is the length written so far.  A reader takes the buffer (whose length is the
  \<open>size\<close> argument) and the position, and returns the decoded values with the new position, or
  \<open>None\<close> for \<open>false\<close>.  Sizes and positions are \<open>size_t\<close> values below the buffer length, so
  natural numbers represent them without wrap-around.
\<close>

section \<open>Sizing\<close>

definition fleece_cbor_uint_size :: "u64 \<Rightarrow> nat" where
  "fleece_cbor_uint_size v =
     (if v < 24 then 1
      else if v \<le> 0xFF then 2
      else if v \<le> 0xFFFF then 3
      else if v \<le> 0xFFFFFFFF then 5
      else 9)"

definition fleece_cbor_bytes_size :: "u32 \<Rightarrow> nat" where
  "fleece_cbor_bytes_size len = fleece_cbor_uint_size (ucast len) + unat len"

definition fleece_cbor_text_size :: "u32 \<Rightarrow> nat" where
  "fleece_cbor_text_size len = fleece_cbor_uint_size (ucast len) + unat len"

definition fleece_cbor_array_header_size :: "u32 \<Rightarrow> nat" where
  "fleece_cbor_array_header_size n = fleece_cbor_uint_size (ucast n)"

section \<open>Encoding\<close>

text \<open>The loop \<open>for (i = n - 1; i >= 0; i--) buf[(*pos)++] = (uint8_t)(v >> (8 * i))\<close>.\<close>

fun be_bytes :: "nat \<Rightarrow> u64 \<Rightarrow> bytes" where
  "be_bytes 0 v = []"
| "be_bytes (Suc i) v = ucast (drop_bit (8 * i) v) # be_bytes i v"

definition fleece_cbor_write_head :: "u8 \<Rightarrow> u64 \<Rightarrow> bytes" where
  "fleece_cbor_write_head major v =
     (let mt = push_bit 5 major in
      if v < 24 then [mt OR ucast v]
      else if v \<le> 0xFF then [mt OR 24, ucast v]
      else if v \<le> 0xFFFF then [mt OR 25, ucast (drop_bit 8 v), ucast v]
      else if v \<le> 0xFFFFFFFF then (mt OR 26) # be_bytes 4 v
      else (mt OR 27) # be_bytes 8 v)"

definition fleece_cbor_write_uint :: "u64 \<Rightarrow> bytes" where
  "fleece_cbor_write_uint v = fleece_cbor_write_head 0 v"

definition fleece_cbor_write_array_header :: "u32 \<Rightarrow> bytes" where
  "fleece_cbor_write_array_header n = fleece_cbor_write_head 4 (ucast n)"

definition fleece_cbor_write_bytes :: "bytes \<Rightarrow> u32 \<Rightarrow> bytes" where
  "fleece_cbor_write_bytes data len =
     fleece_cbor_write_head 2 (ucast len) @ (if len > 0 then take (unat len) data else [])"

definition fleece_cbor_write_text :: "bytes \<Rightarrow> u32 \<Rightarrow> bytes" where
  "fleece_cbor_write_text s len =
     fleece_cbor_write_head 3 (ucast len) @ (if len > 0 then take (unat len) s else [])"

definition fleece_cbor_write_bool :: "bool \<Rightarrow> bytes" where
  "fleece_cbor_write_bool v = [if v then 0xF5 else 0xF4]"

section \<open>Decoding\<close>

text \<open>The accumulation \<open>v = (v << 8) | buf[(*pos)++]\<close> over the next bytes.\<close>

definition be_value :: "bytes \<Rightarrow> u64" where
  "be_value bs = foldl (\<lambda>v b. push_bit 8 v OR ucast b) 0 bs"

definition fleece_cbor_read_head :: "bytes \<Rightarrow> nat \<Rightarrow> (u8 \<times> u64 \<times> nat) option" where
  "fleece_cbor_read_head buf pos =
     (let sz = length buf in
      if pos + 1 > sz then None
      else
        let initial = buf ! pos; pos = pos + 1;
            major = drop_bit 5 initial; info = initial AND 0x1F
        in
        if info < 24 then Some (major, ucast info, pos)
        else if info = 24 then
          (if pos + 1 > sz then None else Some (major, ucast (buf ! pos), pos + 1))
        else if info = 25 then
          (if pos + 2 > sz then None
           else Some (major, push_bit 8 (ucast (buf ! pos)) OR ucast (buf ! (pos + 1)), pos + 2))
        else if info = 26 then
          (if pos + 4 > sz then None
           else Some (major, be_value (take 4 (drop pos buf)), pos + 4))
        else if info = 27 then
          (if pos + 8 > sz then None
           else Some (major, be_value (take 8 (drop pos buf)), pos + 8))
        else None)"

definition fleece_cbor_bounds_ok :: "nat \<Rightarrow> u64 \<Rightarrow> nat \<Rightarrow> bool" where
  "fleece_cbor_bounds_ok pos len sz =
     (if unat len > sz then False else pos \<le> sz - unat len)"

section \<open>Byte strings of words\<close>

lemma length_be_bytes [simp]: "length (be_bytes n v) = n"
  by (induction n) auto

lemma be_fold:
  "foldl (\<lambda>v b. push_bit 8 v OR ucast b) acc (be_bytes n v) =
     push_bit (8 * n) acc OR take_bit (8 * n) v"
proof (induction n arbitrary: acc)
  case 0
  then show ?case by simp
next
  case (Suc n)
  have "push_bit (8 * n) (push_bit 8 acc OR ucast (ucast (drop_bit (8 * n) v) :: u8))
        OR take_bit (8 * n) v
      = push_bit (8 + 8 * n) acc OR take_bit (8 + 8 * n) v"
    by (rule bit_word_eqI) (auto simp: bit_simps add.commute [of 8])
  then show ?case by (simp add: Suc.IH)
qed

lemma be_value_be_bytes: "be_value (be_bytes n v) = take_bit (8 * n) v"
  by (simp add: be_value_def be_fold)

lemma word_below_power: "unat w < 2 ^ n \<Longrightarrow> take_bit n (w :: 'a::len word) = w"
  by (simp add: word_unat_eq_iff unsigned_take_bit_eq take_bit_nat_eq_self_iff)

lemma unat_ucast_small: "unat v < 2 ^ LENGTH('b) \<Longrightarrow> unat (ucast v :: 'b::len word) = unat v"
  by (simp add: unsigned_ucast_eq take_bit_nat_eq_self_iff)

lemma ucast_ucast_small:
  "unat v < 2 ^ LENGTH('b) \<Longrightarrow> ucast (ucast v :: 'b::len word) = (v :: 'a::len word)"
proof -
  assume "unat v < 2 ^ LENGTH('b)"
  moreover have "ucast (ucast v :: 'b word) = take_bit LENGTH('b) v"
    by (intro bit_word_eqI) (auto simp: bit_simps)
  ultimately show ?thesis by (simp add: word_below_power)
qed

text \<open>The two halves of the initial byte of an item head.\<close>

lemma head_major: "m < 8 \<Longrightarrow> x < 32 \<Longrightarrow> drop_bit 5 (push_bit 5 m OR x) = (m :: u8)"
proof -
  assume "m < 8" and "x < 32"
  then have m: "take_bit 3 m = m" and x: "take_bit 5 x = x"
    by (simp_all add: word_below_power word_less_nat_alt)
  have "drop_bit 5 (push_bit 5 (take_bit 3 m) OR take_bit 5 x) = take_bit 3 m"
    by (intro bit_word_eqI) (auto simp: bit_simps)
  then show ?thesis unfolding m x .
qed

lemma head_info: "x < 32 \<Longrightarrow> (push_bit 5 m OR x) AND 0x1F = (x :: u8)"
proof -
  assume "x < 32"
  then have x: "take_bit 5 x = x"
    by (simp add: word_below_power word_less_nat_alt)
  have "(push_bit 5 m OR x) AND 0x1F = take_bit 5 (push_bit 5 m OR x)"
    by (simp add: take_bit_eq_mask mask_eq_exp_minus_1)
  also have "\<dots> = take_bit 5 x"
    by (intro bit_word_eqI) (auto simp: bit_simps)
  finally show ?thesis by (simp add: x)
qed

lemma two_bytes:
  "unat (v :: u64) < 2 ^ 16 \<Longrightarrow>
   push_bit 8 (ucast (ucast (drop_bit 8 v) :: u8)) OR ucast (ucast v :: u8) = v"
proof -
  assume "unat v < 2 ^ 16"
  have "push_bit 8 (ucast (ucast (drop_bit 8 v) :: u8)) OR ucast (ucast v :: u8) = take_bit 16 v"
    by (intro bit_word_eqI) (auto simp: bit_simps)
  then show ?thesis by (simp add: word_below_power [OF \<open>unat v < 2 ^ 16\<close>])
qed

section \<open>An item head is read back as it was written\<close>

lemma write_head_length [size_simps]:
  "length (fleece_cbor_write_head major v) = fleece_cbor_uint_size v"
  by (simp add: fleece_cbor_write_head_def fleece_cbor_uint_size_def Let_def)

lemma write_head_nonempty [simp]: "fleece_cbor_write_head major v \<noteq> []"
  by (simp add: fleece_cbor_write_head_def Let_def)

lemma uint_size_bounds: "1 \<le> fleece_cbor_uint_size v" "fleece_cbor_uint_size v \<le> 9"
  by (simp_all add: fleece_cbor_uint_size_def)

lemma read_write_head [wire_simps]:
  assumes "major < 8"
  shows "fleece_cbor_read_head (pre @ fleece_cbor_write_head major v @ post) (length pre) =
    Some (major, v, length pre + fleece_cbor_uint_size v)"
proof -
  note R = fleece_cbor_read_head_def fleece_cbor_write_head_def fleece_cbor_uint_size_def Let_def nth_append head_major [OF assms] head_info
  consider "v < 24" | "\<not> v < 24" "v \<le> 0xFF" | "\<not> v < 24" "\<not> v \<le> 0xFF" "v \<le> 0xFFFF"
    | "\<not> v < 24" "\<not> v \<le> 0xFF" "\<not> v \<le> 0xFFFF" "v \<le> 0xFFFFFFFF"
    | "\<not> v < 24" "\<not> v \<le> 0xFF" "\<not> v \<le> 0xFFFF" "\<not> v \<le> 0xFFFFFFFF"
    by blast
  then show ?thesis
  proof cases
    case 1
    then have u: "unat v < 24" by (simp add: word_less_nat_alt)
    then have x: "(ucast v :: u8) < 24" by (simp add: word_less_nat_alt unat_ucast_small)
    then have y: "(ucast v :: u8) < 32" by (rule order.strict_trans) simp
    have z: "ucast (ucast v :: u8) = v" using u by (simp add: ucast_ucast_small)
    show ?thesis using 1 x y by (simp add: R z del: drop_bit_or)
  next
    case 2
    then have z: "ucast (ucast v :: u8) = v" by (simp add: ucast_ucast_small word_le_nat_alt)
    show ?thesis using 2 by (simp add: R z del: drop_bit_or)
  next
    case 3
    then have z: "push_bit 8 (ucast (ucast (drop_bit 8 v) :: u8)) OR ucast (ucast v :: u8) = v" by (simp add: two_bytes word_le_nat_alt)
    show ?thesis using 3 by (simp add: R z del: drop_bit_or)
  next
    case 4
    then have "be_value (be_bytes 4 v) = v" by (simp add: be_value_be_bytes word_below_power word_le_nat_alt)
    then show ?thesis using 4 by (simp add: R del: drop_bit_or)
  next
    case 5
    have "be_value (be_bytes 8 v) = v" by (simp add: be_value_be_bytes take_bit_word_beyond_length_eq)
    then show ?thesis using 5 by (simp add: R del: drop_bit_or)
  qed
qed

text \<open>
  The same fact at a position inside a larger buffer: what is left there starts with the
  item.  All frame decoders are composed from this form.
\<close>

lemma read_head_at:
  assumes "drop pos buf = fleece_cbor_write_head major v @ rest" and "major < 8"
  shows "fleece_cbor_read_head buf pos = Some (major, v, pos + fleece_cbor_uint_size v)"
proof -
  have "pos < length buf"
    using assms(1) by (metis append_is_Nil_conv drop_eq_Nil2 linorder_not_less write_head_nonempty)
  then have "length (take pos buf) = pos"
    by simp
  moreover have "buf = take pos buf @ fleece_cbor_write_head major v @ rest"
    by (metis append_take_drop_id assms(1))
  ultimately show ?thesis
    using read_write_head [OF assms(2), of "take pos buf" v rest] by simp
qed

lemma drop_step: "drop pos buf = xs @ rest \<Longrightarrow> drop (pos + length xs) buf = rest"
  by (metis add.commute append_eq_conv_conj drop_drop)

lemma drop_bound:
  assumes "drop pos buf = xs @ rest" and "xs \<noteq> []"
  shows "pos + length xs \<le> length buf"
proof -
  have "length buf - pos = length xs + length rest"
    using arg_cong [OF assms(1), of length] by simp
  moreover have "0 < length xs"
    using assms(2) by simp
  ultimately show ?thesis by linarith
qed

text \<open>The test \<open>!fleece_cbor_read_head(...) || major != m\<close> that precedes every use of a value.\<close>

definition read_major :: "u8 \<Rightarrow> bytes \<Rightarrow> nat \<Rightarrow> (u64 \<times> nat) option" where
  "read_major m buf pos =
     (case fleece_cbor_read_head buf pos of
        None \<Rightarrow> None
      | Some (major, v, pos') \<Rightarrow> if major \<noteq> m then None else Some (v, pos'))"

lemma read_major_at [wire_simps]:
  "drop pos buf = fleece_cbor_write_head m v @ rest \<Longrightarrow> m < 8 \<Longrightarrow>
   read_major m buf pos = Some (v, pos + fleece_cbor_uint_size v)"
  by (simp add: read_major_def read_head_at)

lemma drop_after_head [wire_simps]:
  "drop pos buf = fleece_cbor_write_head m v @ rest \<Longrightarrow>
   drop (pos + fleece_cbor_uint_size v) buf = rest"
  by (drule drop_step) (simp add: write_head_length)

text \<open>A byte or text string: the head, the bounds check, then the slice.\<close>

definition read_string :: "u8 \<Rightarrow> bytes \<Rightarrow> nat \<Rightarrow> (bytes \<times> nat) option" where
  "read_string m buf pos =
     (case read_major m buf pos of
        None \<Rightarrow> None
      | Some (v, pos') \<Rightarrow>
          if \<not> fleece_cbor_bounds_ok pos' v (length buf) then None
          else Some (take (unat v) (drop pos' buf), pos' + unat v))"

lemma write_text_eq:
  "length s = unat len \<Longrightarrow> fleece_cbor_write_text s len = fleece_cbor_write_head 3 (ucast len) @ s"
  by (auto simp: fleece_cbor_write_text_def word_less_nat_alt)

lemma write_bytes_eq:
  "length s = unat len \<Longrightarrow> fleece_cbor_write_bytes s len = fleece_cbor_write_head 2 (ucast len) @ s"
  by (auto simp: fleece_cbor_write_bytes_def word_less_nat_alt)

lemma unat_ucast_32_64 [simp]: "unat (ucast (w :: u32) :: u64) = unat w"
proof -
  have "unat w < 2 ^ 32"
    using unsigned_less [of w] by simp
  then show ?thesis
    by (intro unat_ucast_small) simp
qed

lemma read_string_at:
  assumes "drop pos buf = fleece_cbor_write_head m v @ s @ rest" and "m < 8"
    and "length s = unat v"
  shows "read_string m buf pos = Some (s, pos + fleece_cbor_uint_size v + unat v)"
proof -
  let ?p = "pos + fleece_cbor_uint_size v"
  have d: "drop ?p buf = s @ rest"
    using assms(1) by (rule drop_after_head)
  have "?p \<le> length buf"
    using drop_bound [OF assms(1) write_head_nonempty] by (simp add: write_head_length)
  moreover have "length s \<le> length buf - ?p"
    using d by (metis le_add1 length_append length_drop)
  ultimately have "fleece_cbor_bounds_ok ?p v (length buf)"
    using assms(3) unfolding fleece_cbor_bounds_ok_def by (simp split: if_split) linarith
  then show ?thesis
    using d assms by (simp add: read_string_def read_major_at)
qed

section \<open>Every successful read stays inside the buffer\<close>

lemma word_div_32_lt: "drop_bit 5 (w :: u8) < 8"
proof -
  have "unat w < 256"
    using unsigned_less [of w] by simp
  then show ?thesis
    by (simp add: word_less_nat_alt drop_bit_eq_div unat_div_distrib)
qed

lemma read_head_bounds:
  "fleece_cbor_read_head buf pos = Some (major, v, pos') \<Longrightarrow>
   pos < pos' \<and> pos' \<le> length buf \<and> pos' \<le> pos + 9 \<and> major < 8"
  by (auto simp: fleece_cbor_read_head_def Let_def word_div_32_lt split: if_splits)

lemma read_major_bounds:
  "read_major m buf pos = Some (v, pos') \<Longrightarrow> pos < pos' \<and> pos' \<le> length buf"
  by (auto simp: read_major_def split: option.splits if_splits dest: read_head_bounds)

lemma read_string_bounds:
  "read_string m buf pos = Some (s, pos') \<Longrightarrow>
   pos < pos' \<and> pos' \<le> length buf \<and> length s \<le> length buf"
  by (auto simp: read_string_def fleece_cbor_bounds_ok_def split: option.splits if_splits
      dest!: read_major_bounds)

section \<open>The contract between an item encoder and its decoder\<close>

text \<open>The loop that reads \<open>n\<close> items one after the other and gives up at the first failure.\<close>

fun read_n :: "(bytes \<Rightarrow> nat \<Rightarrow> ('a \<times> nat) option) \<Rightarrow> nat \<Rightarrow> bytes \<Rightarrow> nat \<Rightarrow> ('a list \<times> nat) option" where
  "read_n dec 0 buf pos = Some ([], pos)"
| "read_n dec (Suc n) buf pos =
     (case dec buf pos of
        None \<Rightarrow> None
      | Some (x, pos') \<Rightarrow>
          (case read_n dec n buf pos' of
             None \<Rightarrow> None
           | Some (xs, pos'') \<Rightarrow> Some (x # xs, pos'')))"

locale item_codec =
  fixes enc :: "'a \<Rightarrow> bytes"
    and dec :: "bytes \<Rightarrow> nat \<Rightarrow> ('a \<times> nat) option"
    and ok :: "'a \<Rightarrow> bool"
  assumes dec_at: "ok x \<Longrightarrow> drop pos buf = enc x @ rest \<Longrightarrow>
    dec buf pos = Some (x, pos + length (enc x))"
begin

lemma read_n_at:
  "\<forall>x\<in>set xs. ok x \<Longrightarrow> drop pos buf = concat (map enc xs) @ rest \<Longrightarrow>
   read_n dec (length xs) buf pos = Some (xs, pos + length (concat (map enc xs)))"
proof (induction xs arbitrary: pos)
  case Nil
  then show ?case by simp
next
  case (Cons x xs)
  have at: "drop pos buf = enc x @ (concat (map enc xs) @ rest)"
    using Cons.prems(2) by simp
  have "dec buf pos = Some (x, pos + length (enc x))"
    using Cons.prems(1) at by (intro dec_at) auto
  moreover have "read_n dec (length xs) buf (pos + length (enc x)) =
      Some (xs, pos + length (enc x) + length (concat (map enc xs)))"
    using Cons.prems(1) drop_step [OF at] by (intro Cons.IH) auto
  ultimately show ?case by simp
qed

end

interpretation uint_item: item_codec fleece_cbor_write_uint "read_major 0" "\<lambda>_. True"
  by unfold_locales (simp add: fleece_cbor_write_uint_def read_major_at write_head_length)

text \<open>A text item of the sources: \<open>write_text(buf, pos, s, strlen(s))\<close>.\<close>

definition enc_text :: "bytes \<Rightarrow> bytes" where
  "enc_text s = fleece_cbor_write_text s (of_nat (length s))"

lemma unat_of_nat_32: "n < 2 ^ 32 \<Longrightarrow> unat (of_nat n :: u32) = n"
  by (simp add: unat_of_nat)

lemma enc_text_eq:
  "length s < 2 ^ 32 \<Longrightarrow> enc_text s = fleece_cbor_write_head 3 (ucast (of_nat (length s) :: u32)) @ s"
  by (simp add: enc_text_def write_text_eq unat_of_nat_32)

interpretation text_item: item_codec enc_text "read_string 3" "\<lambda>s. length s < 2 ^ 32"
proof
  fix s :: bytes and pos buf rest
  assume "length s < 2 ^ 32" and "drop pos buf = enc_text s @ rest"
  then show "read_string 3 buf pos = Some (s, pos + length (enc_text s))"
    by (simp add: enc_text_eq read_string_at unat_of_nat_32 write_head_length)
qed

section \<open>Properties of the codec\<close>

text \<open>
  Any item head (major type and 64-bit argument) written by
  \<open>fleece_cbor_write_head\<close> is read back by \<open>fleece_cbor_read_head\<close> with the same major type and
  argument, wherever it stands in a buffer, and the reader stops exactly behind it; the sizing
  helper announces exactly the number of bytes written.
\<close>

theorem cbor_head_roundtrip:
  assumes "major < 8"
  shows "fleece_cbor_read_head (pre @ fleece_cbor_write_head major v @ post) (length pre) =
      Some (major, v, length pre + length (fleece_cbor_write_head major v))
    \<and> length (fleece_cbor_write_head major v) = fleece_cbor_uint_size v"
  by (simp add: read_write_head [OF assms] write_head_length)

theorem cbor_head_roundtrip_witness:
  "(3 :: u8) < 8 \<and>
   fleece_cbor_read_head ([1] @ fleece_cbor_write_head 3 1000 @ [2]) (length [1 :: u8]) =
     Some (3, 1000, 4)"
  using cbor_head_roundtrip [of 3 "[1]" 1000 "[2]"]
  by (simp add: fleece_cbor_uint_size_def)

text \<open>
  A read that succeeds, on any bytes whatsoever, has moved forward by one to nine
  bytes and has not passed the end of the buffer; a string slice lies inside the buffer.
\<close>

theorem cbor_read_in_bounds:
  "(\<forall>major v pos'. fleece_cbor_read_head buf pos = Some (major, v, pos') \<longrightarrow>
      pos < pos' \<and> pos' \<le> pos + 9 \<and> pos' \<le> length buf) \<and>
   (fleece_cbor_bounds_ok p len (length buf) \<longleftrightarrow> p + unat len \<le> length buf)"
  by (auto dest: read_head_bounds simp: fleece_cbor_bounds_ok_def)

theorem cbor_read_in_bounds_witness:
  "fleece_cbor_read_head [0x19, 3, 0xE8] 0 = Some (0, 1000, 3) \<and> (3 :: nat) \<le> length [0x19 :: u8, 3, 0xE8]"
proof -
  have "fleece_cbor_read_head [0x19, 3, 0xE8] 0 = Some (0, 1000, 3)"
    by (simp add: fleece_cbor_read_head_def)
  then show ?thesis
    using cbor_read_in_bounds [of "[0x19, 3, 0xE8]" 0] by blast
qed

end
