(* ===== verification/State_Manager.thy ===== *)
theory State_Manager
  imports Cbor
begin

unbundle bit_operations_syntax

text \<open>
  The last-writer-wins store of \<open>src/state/fleece_state_manager.c\<close>: its tables, the hashes, the
  slot search, the local write and read operations, the merge of a record received from a peer,
  and the peer-liveness table.

  A manager is a record whose \<open>sm_fields\<close> is the calloc'd array (its length is
  \<open>field_capacity\<close>).  Operations return the C return code with the new manager.  An object
  pointer (\<open>manager\<close>, an out-parameter) is taken to be non-NULL; a data or name pointer, whose
  being NULL the code gives a meaning, is an option.  A data pointer comes with its \<open>size\<close>
  argument and stands for the bytes stored there.  The allocator is an argument.
\<close>

section \<open>State\<close>

abbreviation FLEECE_FIELD_NAME_MAX :: nat where "FLEECE_FIELD_NAME_MAX \<equiv> 64"
abbreviation FLEECE_SHARED_OWNER_ID :: u64 where "FLEECE_SHARED_OWNER_ID \<equiv> 0"
abbreviation FLEECE_MAX_TRACKED_PEERS :: nat where "FLEECE_MAX_TRACKED_PEERS \<equiv> 32"
abbreviation FIELD_CAPACITY :: nat where "FIELD_CAPACITY \<equiv> 128"

record FieldEntry =
  fe_key :: u32
  fe_data :: "bytes option"
  fe_size :: u32
  fe_timestamp :: u64
  fe_node_id :: u64
  fe_origin_node_id :: u64
  fe_name :: bytes
  fe_exists :: bool
  fe_is_tombstone :: bool
  fe_last_export_ts :: u64

record PeerSeen =
  ps_node_id :: u64
  ps_last_seen_tick :: u64
  ps_exists :: bool

record FleeceStateManager =
  sm_fields :: "FieldEntry list"
  sm_field_count :: nat
  sm_local_timestamp :: u64
  sm_node_id :: u64
  sm_current_tick :: u64
  sm_last_write_tick :: u64
  sm_peers_seen :: "PeerSeen list"

text \<open>What \<open>calloc\<close> and \<open>memset(f, 0, ...)\<close> leave in a slot.\<close>

definition zero_field :: FieldEntry where
  "zero_field = \<lparr>fe_key = 0, fe_data = None, fe_size = 0, fe_timestamp = 0, fe_node_id = 0,
     fe_origin_node_id = 0, fe_name = [], fe_exists = False, fe_is_tombstone = False,
     fe_last_export_ts = 0\<rparr>"

definition zero_peer :: PeerSeen where
  "zero_peer = \<lparr>ps_node_id = 0, ps_last_seen_tick = 0, ps_exists = False\<rparr>"

abbreviation field_capacity :: "FleeceStateManager \<Rightarrow> nat" where
  "field_capacity m \<equiv> length (sm_fields m)"

text \<open>The bytes behind a possibly NULL pointer.\<close>

definition pointee :: "bytes option \<Rightarrow> bytes" where
  "pointee p = (case p of None \<Rightarrow> [] | Some bs \<Rightarrow> bs)"

section \<open>Hashes\<close>

definition hash_name :: "bytes \<Rightarrow> u32" where
  "hash_name name = foldl (\<lambda>hash b. (hash XOR ucast b) * 16777619) 2166136261 name"

definition fnv64_mix :: "u64 \<Rightarrow> bytes \<Rightarrow> u64" where
  "fnv64_mix h bs = foldl (\<lambda>h b. (h XOR ucast b) * 0x100000001b3) h bs"

definition fnv64_mix_uint :: "u64 \<Rightarrow> u64 \<Rightarrow> u64" where
  "fnv64_mix_uint h v = fnv64_mix h (map (\<lambda>i. ucast (drop_bit (8 * i) v)) [0..<8])"

definition entry_digest :: "FieldEntry \<Rightarrow> u64" where
  "entry_digest f =
     (let h = fnv64_mix 0xcbf29ce484222325 (fe_name f);
          h = fnv64_mix h [0xFF];
          h = fnv64_mix_uint h (fe_origin_node_id f);
          h = fnv64_mix_uint h (fe_timestamp f);
          h = fnv64_mix_uint h (ucast (fe_size f))
      in if fe_size f > 0 then fnv64_mix h (take (unat (fe_size f)) (pointee (fe_data f))) else h)"

text \<open>The two tests of the export, digest and index loops (the sources \<open>continue\<close> when they fail).\<close>

definition named_of :: "u64 \<Rightarrow> FieldEntry \<Rightarrow> bool" where
  "named_of owner f \<longleftrightarrow> fe_exists f \<and> fe_node_id f = owner \<and> fe_name f \<noteq> []"

definition live_named :: "u64 \<Rightarrow> FieldEntry \<Rightarrow> bool" where
  "live_named owner f \<longleftrightarrow>
     fe_exists f \<and> \<not> fe_is_tombstone f \<and> fe_node_id f = owner \<and> fe_name f \<noteq> []"

definition compute_stream_digest :: "FleeceStateManager \<Rightarrow> u64 \<Rightarrow> u64" where
  "compute_stream_digest m owner =
     sum_list (map entry_digest (filter (live_named owner) (sm_fields m)))"

section \<open>Creation\<close>

text \<open>\<open>ok1\<close> and \<open>ok2\<close>: whether the two \<open>fleece_calloc\<close> calls succeed.\<close>

definition fleece_state_manager_create_with_node_id ::
    "bool \<Rightarrow> bool \<Rightarrow> u64 \<Rightarrow> FleeceStateManager option" where
  "fleece_state_manager_create_with_node_id ok1 ok2 node_id =
     (if node_id = FLEECE_SHARED_OWNER_ID then None
      else if \<not> ok1 then None
      else if \<not> ok2 then None
      else Some \<lparr>sm_fields = replicate FIELD_CAPACITY zero_field, sm_field_count = 0,
             sm_local_timestamp = 0, sm_node_id = node_id, sm_current_tick = 0,
             sm_last_write_tick = UINT64_MAX,
             sm_peers_seen = replicate FLEECE_MAX_TRACKED_PEERS zero_peer\<rparr>)"

definition fleece_state_manager_create :: "bool \<Rightarrow> bool \<Rightarrow> FleeceStateManager option" where
  "fleece_state_manager_create ok1 ok2 =
     fleece_state_manager_create_with_node_id ok1 ok2 0x123456789ABCDEF0"

definition fleece_state_manager_get_node_id :: "FleeceStateManager \<Rightarrow> u64" where
  "fleece_state_manager_get_node_id m = sm_node_id m"

section \<open>Peer liveness\<close>

definition touch_peer :: "FleeceStateManager \<Rightarrow> u64 \<Rightarrow> FleeceStateManager" where
  "touch_peer m node_id =
     (if node_id = sm_node_id m then m
      else if node_id = FLEECE_SHARED_OWNER_ID then m
      else case index_of (\<lambda>p. ps_exists p \<and> ps_node_id p = node_id) (sm_peers_seen m) of
        Some i \<Rightarrow> m\<lparr>sm_peers_seen := (sm_peers_seen m)
                     [i := (sm_peers_seen m ! i)\<lparr>ps_last_seen_tick := sm_current_tick m\<rparr>]\<rparr>
      | None \<Rightarrow>
          (case index_of (\<lambda>p. \<not> ps_exists p) (sm_peers_seen m) of
             Some i \<Rightarrow> m\<lparr>sm_peers_seen := (sm_peers_seen m)
                          [i := \<lparr>ps_node_id = node_id, ps_last_seen_tick = sm_current_tick m,
                                 ps_exists = True\<rparr>]\<rparr>
           | None \<Rightarrow> m))"

definition fleece_state_manager_tick :: "FleeceStateManager \<Rightarrow> FleeceStateManager" where
  "fleece_state_manager_tick m = m\<lparr>sm_current_tick := sm_current_tick m + 1\<rparr>"

definition fleece_state_manager_ticks_since_seen :: "FleeceStateManager \<Rightarrow> u64 \<Rightarrow> u64" where
  "fleece_state_manager_ticks_since_seen m node_id =
     (case index_of (\<lambda>p. ps_exists p \<and> ps_node_id p = node_id) (sm_peers_seen m) of
        Some i \<Rightarrow> sm_current_tick m - ps_last_seen_tick (sm_peers_seen m ! i)
      | None \<Rightarrow> UINT64_MAX)"

section \<open>Slots\<close>

definition find_slot_owned :: "FleeceStateManager \<Rightarrow> u32 \<Rightarrow> u64 \<Rightarrow> nat option" where
  "find_slot_owned m key owner =
     index_of (\<lambda>f. fe_exists f \<and> fe_key f = key \<and> fe_node_id f = owner) (sm_fields m)"

definition find_field_owned :: "FleeceStateManager \<Rightarrow> u32 \<Rightarrow> u64 \<Rightarrow> nat option" where
  "find_field_owned m key owner =
     (case find_slot_owned m key owner of
        None \<Rightarrow> None
      | Some i \<Rightarrow> if \<not> fe_is_tombstone (sm_fields m ! i) then Some i else None)"

definition find_field :: "FleeceStateManager \<Rightarrow> u32 \<Rightarrow> nat option" where
  "find_field m key = find_field_owned m key (sm_node_id m)"

text \<open>
  \<open>write_slot\<close> is the tail of \<open>upsert_field\<close>, after the slot has been found or taken: the
  assignments to the slot's fields, the name among them only when one is given
  (\<open>strncpy\<close> of at most 63 characters and the terminator).
\<close>

definition write_slot ::
    "u64 \<Rightarrow> u64 \<Rightarrow> bytes option \<Rightarrow> bytes option \<Rightarrow> u32 \<Rightarrow> u64 \<Rightarrow> bool \<Rightarrow> FieldEntry \<Rightarrow> FieldEntry" where
  "write_slot owner origin name new_data sz ts tomb f =
     f\<lparr>fe_data := new_data,
       fe_size := (if tomb then 0 else sz),
       fe_timestamp := ts,
       fe_node_id := owner,
       fe_origin_node_id := origin,
       fe_is_tombstone := tomb,
       fe_name := (case name of None \<Rightarrow> fe_name f
                   | Some s \<Rightarrow> take (FLEECE_FIELD_NAME_MAX - 1) s)\<rparr>"

definition upsert_field ::
    "allocator \<Rightarrow> FleeceStateManager \<Rightarrow> u32 \<Rightarrow> u64 \<Rightarrow> u64 \<Rightarrow> bytes option \<Rightarrow> bytes option \<Rightarrow> u32 \<Rightarrow>
     u64 \<Rightarrow> bool \<Rightarrow> int \<times> FleeceStateManager" where
  "upsert_field A m key owner origin name data sz ts tomb =
     (if \<not> tomb \<and> \<not> A (unat sz) then (-1, m)
      else
        let new_data = (if tomb then None else Some (take (unat sz) (pointee data))) in
        case find_slot_owned m key owner of
          Some i \<Rightarrow>
            (0, m\<lparr>sm_fields := (sm_fields m)
                   [i := write_slot owner origin name new_data sz ts tomb (sm_fields m ! i)]\<rparr>)
        | None \<Rightarrow>
            if sm_field_count m \<ge> field_capacity m then (-1, m)
            else
              let i = sm_field_count m;
                  f = (sm_fields m ! i)\<lparr>fe_key := key, fe_exists := True, fe_name := []\<rparr>
              in (0, m\<lparr>sm_field_count := sm_field_count m + 1,
                       sm_fields := (sm_fields m)
                         [i := write_slot owner origin name new_data sz ts tomb f]\<rparr>))"

text \<open>\<open>++manager->local_timestamp\<close>; the new value is the timestamp of the write.\<close>

definition bump_clock :: "FleeceStateManager \<Rightarrow> FleeceStateManager" where
  "bump_clock m = m\<lparr>sm_local_timestamp := sm_local_timestamp m + 1\<rparr>"

section \<open>Raw-key operations\<close>

definition fleece_state_manager_set ::
    "allocator \<Rightarrow> FleeceStateManager \<Rightarrow> u32 \<Rightarrow> bytes option \<Rightarrow> u32 \<Rightarrow> int \<times> FleeceStateManager" where
  "fleece_state_manager_set A m key data sz =
     (if data = None \<or> sz = 0 then (-1, m)
      else
        let m' = bump_clock m in
        upsert_field A m' key (sm_node_id m') (sm_node_id m') None data sz (sm_local_timestamp m') False)"

text \<open>The copy of a live slot's value that the two getters hand out; \<open>None\<close> is the code -1.\<close>

definition copy_out :: "allocator \<Rightarrow> FleeceStateManager \<Rightarrow> nat option \<Rightarrow> (bytes \<times> u32) option" where
  "copy_out A m slot =
     (case slot of
        None \<Rightarrow> None
      | Some i \<Rightarrow>
          let f = sm_fields m ! i in
          if \<not> A (unat (fe_size f)) then None
          else Some (take (unat (fe_size f)) (pointee (fe_data f)), fe_size f))"

definition fleece_state_manager_get :: "allocator \<Rightarrow> FleeceStateManager \<Rightarrow> u32 \<Rightarrow> (bytes \<times> u32) option" where
  "fleece_state_manager_get A m key = copy_out A m (find_field m key)"

definition fleece_state_manager_exists :: "FleeceStateManager \<Rightarrow> u32 \<Rightarrow> bool" where
  "fleece_state_manager_exists m key \<longleftrightarrow> find_field m key \<noteq> None"

text \<open>Turning slot \<open>i\<close> into a delete-marker stamped with a fresh clock tick.\<close>

definition entomb :: "FleeceStateManager \<Rightarrow> nat \<Rightarrow> FleeceStateManager" where
  "entomb m i =
     (let m' = bump_clock m in
      m'\<lparr>sm_fields := (sm_fields m')
           [i := (sm_fields m' ! i)\<lparr>fe_data := None, fe_size := 0,
                   fe_timestamp := sm_local_timestamp m', fe_is_tombstone := True\<rparr>]\<rparr>)"

definition fleece_state_manager_remove :: "FleeceStateManager \<Rightarrow> u32 \<Rightarrow> int \<times> FleeceStateManager" where
  "fleece_state_manager_remove m key =
     (case find_field m key of None \<Rightarrow> (-1, m) | Some i \<Rightarrow> (0, entomb m i))"

text \<open>The in-place compaction loop over \<open>read_idx\<close>, with \<open>write_idx\<close> as its second state.\<close>

fun compact_loop :: "nat list \<Rightarrow> FieldEntry list \<Rightarrow> nat \<Rightarrow> FieldEntry list \<times> nat" where
  "compact_loop [] fs write_idx = (fs, write_idx)"
| "compact_loop (read_idx # is) fs write_idx =
     (let f = fs ! read_idx in
      if fe_exists f \<and> (\<not> fe_is_tombstone f \<or> fe_name f \<noteq> []) then
        (if write_idx \<noteq> read_idx
         then compact_loop is ((fs[write_idx := f])[read_idx := zero_field]) (write_idx + 1)
         else compact_loop is fs (write_idx + 1))
      else compact_loop is fs write_idx)"

definition fleece_state_manager_compact :: "FleeceStateManager \<Rightarrow> int \<times> FleeceStateManager" where
  "fleece_state_manager_compact m =
     (let (fs, write_idx) = compact_loop [0..<field_capacity m] (sm_fields m) 0
      in (0, m\<lparr>sm_fields := fs, sm_field_count := write_idx\<rparr>))"

record FleeceFieldVersion =
  fv_timestamp :: u64
  fv_node_id :: u64
  fv_size :: u32

definition fleece_state_manager_get_version :: "FleeceStateManager \<Rightarrow> u32 \<Rightarrow> FleeceFieldVersion option" where
  "fleece_state_manager_get_version m key =
     (case find_field m key of
        None \<Rightarrow> None
      | Some i \<Rightarrow> Some \<lparr>fv_timestamp = fe_timestamp (sm_fields m ! i),
                         fv_node_id = fe_node_id (sm_fields m ! i),
                         fv_size = fe_size (sm_fields m ! i)\<rparr>)"

section \<open>Named fields of the local node\<close>

definition fleece_state_manager_set_named ::
    "allocator \<Rightarrow> FleeceStateManager \<Rightarrow> bytes option \<Rightarrow> bytes option \<Rightarrow> u32 \<Rightarrow> int \<times> FleeceStateManager" where
  "fleece_state_manager_set_named A m name data sz =
     (case name of
        None \<Rightarrow> (-1, m)
      | Some s \<Rightarrow>
          if s = [] \<or> data = None \<or> sz = 0 then (-1, m)
          else
            let m' = bump_clock m in
            upsert_field A m' (hash_name s) (sm_node_id m') (sm_node_id m') (Some s) data sz
              (sm_local_timestamp m') False)"

definition fleece_state_manager_remove_named ::
    "FleeceStateManager \<Rightarrow> bytes option \<Rightarrow> int \<times> FleeceStateManager" where
  "fleece_state_manager_remove_named m name =
     (case name of
        None \<Rightarrow> (-1, m)
      | Some s \<Rightarrow>
          (case find_field_owned m (hash_name s) (sm_node_id m) of
             None \<Rightarrow> (-1, m) | Some i \<Rightarrow> (0, entomb m i)))"

definition fleece_state_manager_get_named ::
    "allocator \<Rightarrow> FleeceStateManager \<Rightarrow> u64 \<Rightarrow> bytes option \<Rightarrow> (bytes \<times> u32) option" where
  "fleece_state_manager_get_named A m owner name =
     (case name of
        None \<Rightarrow> None
      | Some s \<Rightarrow> copy_out A m (find_field_owned m (hash_name s) owner))"

definition fleece_state_manager_exists_named :: "FleeceStateManager \<Rightarrow> u64 \<Rightarrow> bytes option \<Rightarrow> bool" where
  "fleece_state_manager_exists_named m owner name =
     (case name of
        None \<Rightarrow> False
      | Some s \<Rightarrow> find_field_owned m (hash_name s) owner \<noteq> None)"

text \<open>Return code, \<open>*ts_out\<close> and \<open>*origin_out\<close>; a NULL name leaves the outputs unwritten.\<close>

definition fleece_state_manager_get_meta_named ::
    "FleeceStateManager \<Rightarrow> u64 \<Rightarrow> bytes option \<Rightarrow> int \<times> (u64 \<times> u64) option" where
  "fleece_state_manager_get_meta_named m owner name =
     (case name of
        None \<Rightarrow> (-1, None)
      | Some s \<Rightarrow>
          (case find_field_owned m (hash_name s) owner of
             None \<Rightarrow> (-1, Some (0, 0))
           | Some i \<Rightarrow> (0, Some (fe_timestamp (sm_fields m ! i), fe_origin_node_id (sm_fields m ! i)))))"

section \<open>Shared fields\<close>

definition fleece_state_manager_set_shared ::
    "allocator \<Rightarrow> FleeceStateManager \<Rightarrow> bytes option \<Rightarrow> bytes option \<Rightarrow> u32 \<Rightarrow> int \<times> FleeceStateManager" where
  "fleece_state_manager_set_shared A m name data sz =
     (case name of
        None \<Rightarrow> (-1, m)
      | Some s \<Rightarrow>
          if s = [] \<or> data = None \<or> sz = 0 then (-1, m)
          else
            let m' = bump_clock (m\<lparr>sm_last_write_tick := sm_current_tick m\<rparr>) in
            upsert_field A m' (hash_name s) FLEECE_SHARED_OWNER_ID (sm_node_id m') (Some s) data sz
              (sm_local_timestamp m') False)"

definition fleece_state_manager_remove_shared ::
    "FleeceStateManager \<Rightarrow> bytes option \<Rightarrow> int \<times> FleeceStateManager" where
  "fleece_state_manager_remove_shared m name =
     (case name of
        None \<Rightarrow> (-1, m)
      | Some s \<Rightarrow>
          (case find_field_owned m (hash_name s) FLEECE_SHARED_OWNER_ID of
             None \<Rightarrow> (-1, m)
           | Some i \<Rightarrow>
               let m' = (entomb m i)\<lparr>sm_last_write_tick := sm_current_tick m\<rparr> in
               (0, m'\<lparr>sm_fields := (sm_fields m')
                        [i := (sm_fields m' ! i)\<lparr>fe_origin_node_id := sm_node_id m'\<rparr>]\<rparr>)))"

definition fleece_state_manager_set_shared_cas ::
    "allocator \<Rightarrow> FleeceStateManager \<Rightarrow> bytes option \<Rightarrow> bytes option \<Rightarrow> u32 \<Rightarrow> bytes option \<Rightarrow> u32 \<Rightarrow>
     int \<times> FleeceStateManager" where
  "fleece_state_manager_set_shared_cas A m name expected_data expected_size new_data new_size =
     (case name of
        None \<Rightarrow> (-1, m)
      | Some s \<Rightarrow>
          if s = [] \<or> new_data = None \<or> new_size = 0 then (-1, m)
          else
            let current = find_field_owned m (hash_name s) FLEECE_SHARED_OWNER_ID;
                mismatch =
                  (case expected_data of
                     None \<Rightarrow> current \<noteq> None
                   | Some e \<Rightarrow>
                       (case current of
                          None \<Rightarrow> True
                        | Some i \<Rightarrow>
                            fe_size (sm_fields m ! i) \<noteq> expected_size \<or>
                            take (unat expected_size) (pointee (fe_data (sm_fields m ! i)))
                              \<noteq> take (unat expected_size) e))
            in
            if mismatch then (1, m)
            else
              let m' = bump_clock m;
                  (rc, m'') = upsert_field A m' (hash_name s) FLEECE_SHARED_OWNER_ID (sm_node_id m')
                    (Some s) new_data new_size (sm_local_timestamp m') False
              in if rc \<noteq> 0 then (-1, m'')
                 else (0, m''\<lparr>sm_last_write_tick := sm_current_tick m''\<rparr>))"

section \<open>Listings\<close>

fun list_nodes_loop :: "FieldEntry list \<Rightarrow> nat \<Rightarrow> u64 list \<Rightarrow> u64 list" where
  "list_nodes_loop [] max_nodes out = out"
| "list_nodes_loop (f # fs) max_nodes out =
     (if length out \<ge> max_nodes then out
      else if \<not> fe_exists f \<or> fe_is_tombstone f \<or> fe_node_id f = FLEECE_SHARED_OWNER_ID
        then list_nodes_loop fs max_nodes out
      else if fe_node_id f \<in> set out then list_nodes_loop fs max_nodes out
      else list_nodes_loop fs max_nodes (out @ [fe_node_id f]))"

definition fleece_state_manager_list_nodes :: "FleeceStateManager \<Rightarrow> u32 \<Rightarrow> u64 list" where
  "fleece_state_manager_list_nodes m max_nodes =
     (if max_nodes = 0 then [] else list_nodes_loop (sm_fields m) (unat max_nodes) [])"

definition fleece_state_manager_list_heard_peers :: "FleeceStateManager \<Rightarrow> u32 \<Rightarrow> u64 list" where
  "fleece_state_manager_list_heard_peers m max_nodes =
     take (unat max_nodes)
       (map ps_node_id
         (filter (\<lambda>p. ps_exists p \<and> ps_node_id p \<noteq> sm_node_id m \<and>
                       ps_node_id p \<noteq> FLEECE_SHARED_OWNER_ID)
           (sm_peers_seen m)))"

definition fleece_state_manager_list_fields :: "FleeceStateManager \<Rightarrow> u64 \<Rightarrow> u32 \<Rightarrow> bytes list" where
  "fleece_state_manager_list_fields m owner max_names =
     take (unat max_names)
       (map (\<lambda>f. take (FLEECE_FIELD_NAME_MAX - 1) (fe_name f))
         (filter (live_named owner) (sm_fields m)))"

section \<open>Merging records from peers\<close>

text \<open>\<open>local = local > remote ? local : remote\<close>, the logical clock's receive rule.\<close>

definition advance_clock :: "FleeceStateManager \<Rightarrow> u64 \<Rightarrow> FleeceStateManager" where
  "advance_clock m remote =
     m\<lparr>sm_local_timestamp := (if sm_local_timestamp m > remote then sm_local_timestamp m else remote)\<rparr>"

definition fleece_state_manager_merge_named ::
    "allocator \<Rightarrow> FleeceStateManager \<Rightarrow> u64 \<Rightarrow> bytes option \<Rightarrow> bytes option \<Rightarrow> u32 \<Rightarrow> u64 \<Rightarrow> bool \<Rightarrow>
     int \<times> FleeceStateManager" where
  "fleece_state_manager_merge_named A m owner name data sz remote_timestamp tomb =
     (case name of
        None \<Rightarrow> (-1, m)
      | Some s \<Rightarrow>
          if s = [] then (-1, m)
          else if \<not> tomb \<and> (data = None \<or> sz = 0) then (-1, m)
          else if owner = sm_node_id m then (-1, m)
          else
            let m' = advance_clock (touch_peer m owner) remote_timestamp;
                key = hash_name s
            in
            case find_slot_owned m' key owner of
              Some i \<Rightarrow>
                if fe_timestamp (sm_fields m' ! i) \<ge> remote_timestamp then (0, m')
                else upsert_field A m' key owner owner (Some s) data sz remote_timestamp tomb
            | None \<Rightarrow> upsert_field A m' key owner owner (Some s) data sz remote_timestamp tomb)"

definition fleece_state_manager_merge_shared ::
    "allocator \<Rightarrow> FleeceStateManager \<Rightarrow> u64 \<Rightarrow> bytes option \<Rightarrow> bytes option \<Rightarrow> u32 \<Rightarrow> u64 \<Rightarrow> bool \<Rightarrow>
     int \<times> FleeceStateManager" where
  "fleece_state_manager_merge_shared A m origin name data sz remote_timestamp tomb =
     (case name of
        None \<Rightarrow> (-1, m)
      | Some s \<Rightarrow>
          if s = [] then (-1, m)
          else if \<not> tomb \<and> (data = None \<or> sz = 0) then (-1, m)
          else
            let m' = advance_clock m remote_timestamp;
                key = hash_name s;
                put = upsert_field A m' key FLEECE_SHARED_OWNER_ID origin (Some s) data sz
                        remote_timestamp tomb
            in
            case find_slot_owned m' key FLEECE_SHARED_OWNER_ID of
              Some i \<Rightarrow>
                let incumbent = sm_fields m' ! i in
                if fe_timestamp incumbent > remote_timestamp then (0, m')
                else if fe_timestamp incumbent = remote_timestamp \<and>
                        fe_origin_node_id incumbent \<ge> origin then (0, m')
                else put
            | None \<Rightarrow> put)"

section \<open>Clocks\<close>

definition fleece_state_manager_get_local_timestamp :: "FleeceStateManager \<Rightarrow> u64" where
  "fleece_state_manager_get_local_timestamp m = sm_local_timestamp m"

definition fleece_state_manager_ticks_since_last_write :: "FleeceStateManager \<Rightarrow> u64" where
  "fleece_state_manager_ticks_since_last_write m =
     (if sm_last_write_tick m = UINT64_MAX then UINT64_MAX
      else if sm_current_tick m < sm_last_write_tick m then 0
      else sm_current_tick m - sm_last_write_tick m)"

section \<open>High-water marks and digest queries\<close>

definition max_timestamp_for_owner :: "FleeceStateManager \<Rightarrow> u64 \<Rightarrow> u64" where
  "max_timestamp_for_owner m owner =
     foldl (\<lambda>hw f. if \<not> fe_exists f \<or> fe_node_id f \<noteq> owner then hw
                   else if fe_timestamp f > hw then fe_timestamp f else hw) 0 (sm_fields m)"

definition fleece_state_manager_get_self_hw :: "FleeceStateManager \<Rightarrow> u64" where
  "fleece_state_manager_get_self_hw m = max_timestamp_for_owner m (sm_node_id m)"

definition fleece_state_manager_get_shared_hw :: "FleeceStateManager \<Rightarrow> u64" where
  "fleece_state_manager_get_shared_hw m = max_timestamp_for_owner m FLEECE_SHARED_OWNER_ID"

definition fleece_state_manager_get_peer_self_hw :: "FleeceStateManager \<Rightarrow> u64 \<Rightarrow> u64" where
  "fleece_state_manager_get_peer_self_hw m peer_id =
     (if peer_id = FLEECE_SHARED_OWNER_ID then 0 else max_timestamp_for_owner m peer_id)"

definition fleece_state_manager_stream_digest :: "FleeceStateManager \<Rightarrow> u64 \<Rightarrow> u64" where
  "fleece_state_manager_stream_digest m owner = compute_stream_digest m owner"

definition fleece_state_manager_shared_at_least :: "FleeceStateManager \<Rightarrow> u32 \<Rightarrow> u64 \<Rightarrow> int" where
  "fleece_state_manager_shared_at_least m key_hash ts =
     (case find_slot_owned m key_hash FLEECE_SHARED_OWNER_ID of
        None \<Rightarrow> 0
      | Some i \<Rightarrow> if fe_timestamp (sm_fields m ! i) \<ge> ts then 1 else 0)"

end
