(* ===== verification/Store_Invariant.thy ===== *)
theory Store_Invariant
  imports State_Manager
begin

text \<open>
  The representation invariant of the field array and the map it represents.  \<open>sm_inv\<close> says
  that the used slots are exactly the first \<open>field_count\<close> ones, that no (key, owner) pair is
  stored twice, that a live slot owns a non-empty buffer of its recorded size and a delete-marker
  owns none, that names are terminated C strings, and that no stored timestamp is ahead of the
  local clock.  \<open>view\<close> forgets the slots: it is the finite map from (owner, key) to the stored
  version.  Every write is shown to be a single map update on it.
\<close>

section \<open>The invariant\<close>

definition cstring :: "bytes \<Rightarrow> bool" where
  "cstring s \<longleftrightarrow> 0 \<notin> set s"

definition field_ok :: "FieldEntry \<Rightarrow> bool" where
  "field_ok f \<longleftrightarrow>
     (if fe_is_tombstone f then fe_data f = None \<and> fe_size f = 0
      else fe_size f > 0 \<and> (\<exists>d. fe_data f = Some d \<and> length d = unat (fe_size f))) \<and>
     length (fe_name f) < FLEECE_FIELD_NAME_MAX \<and> cstring (fe_name f)"

definition store_inv :: "FieldEntry list \<Rightarrow> nat \<Rightarrow> bool" where
  "store_inv fs n \<longleftrightarrow>
     length fs = FIELD_CAPACITY \<and> n \<le> FIELD_CAPACITY \<and>
     (\<forall>i<FIELD_CAPACITY. fe_exists (fs ! i) \<longleftrightarrow> i < n) \<and>
     (\<forall>i<n. \<forall>j<n. fe_key (fs ! i) = fe_key (fs ! j) \<and> fe_node_id (fs ! i) = fe_node_id (fs ! j) \<longrightarrow> i = j) \<and>
     (\<forall>i<n. field_ok (fs ! i))"

definition clock_inv :: "FleeceStateManager \<Rightarrow> bool" where
  "clock_inv m \<longleftrightarrow>
     (\<forall>i < sm_field_count m. fe_timestamp (sm_fields m ! i) \<le> sm_local_timestamp m)"

definition sm_inv :: "FleeceStateManager \<Rightarrow> bool" where
  "sm_inv m \<longleftrightarrow>
     store_inv (sm_fields m) (sm_field_count m) \<and> clock_inv m \<and>
     sm_node_id m \<noteq> FLEECE_SHARED_OWNER_ID \<and>
     length (sm_peers_seen m) = FLEECE_MAX_TRACKED_PEERS"

lemma sm_invD:
  assumes "sm_inv m"
  shows "length (sm_fields m) = FIELD_CAPACITY"
    and "sm_field_count m \<le> FIELD_CAPACITY"
    and "i < FIELD_CAPACITY \<Longrightarrow> fe_exists (sm_fields m ! i) \<longleftrightarrow> i < sm_field_count m"
    and "i < sm_field_count m \<Longrightarrow> field_ok (sm_fields m ! i)"
    and "i < sm_field_count m \<Longrightarrow> fe_timestamp (sm_fields m ! i) \<le> sm_local_timestamp m"
    and "sm_node_id m \<noteq> FLEECE_SHARED_OWNER_ID"
  using assms by (auto simp: sm_inv_def store_inv_def clock_inv_def)

lemma sm_inv_unique:
  assumes "sm_inv m" and "i < sm_field_count m" and "j < sm_field_count m"
    and "fe_key (sm_fields m ! i) = fe_key (sm_fields m ! j)"
    and "fe_node_id (sm_fields m ! i) = fe_node_id (sm_fields m ! j)"
  shows "i = j"
  using assms unfolding sm_inv_def store_inv_def by blast

lemma create_inv:
  "fleece_state_manager_create_with_node_id ok1 ok2 node_id = Some m \<Longrightarrow> sm_inv m"
  by (auto simp: fleece_state_manager_create_with_node_id_def sm_inv_def store_inv_def clock_inv_def
      zero_field_def split: if_splits)

section \<open>Slot search\<close>

lemma find_slotD:
  assumes "sm_inv m" and "find_slot_owned m key owner = Some i"
  shows "i < sm_field_count m" and "i < FIELD_CAPACITY" and "i < length (sm_fields m)"
    and "fe_key (sm_fields m ! i) = key" and "fe_node_id (sm_fields m ! i) = owner"
    and "fe_exists (sm_fields m ! i)"
proof -
  have "i < length (sm_fields m)" and "fe_exists (sm_fields m ! i)"
    and "fe_key (sm_fields m ! i) = key" and "fe_node_id (sm_fields m ! i) = owner"
    using index_of_SomeD [OF assms(2) [unfolded find_slot_owned_def]] by auto
  moreover from this sm_invD(1,3) [OF assms(1)] have "i < sm_field_count m" and "i < FIELD_CAPACITY"
    by auto
  ultimately show "i < sm_field_count m" and "i < FIELD_CAPACITY" and "i < length (sm_fields m)"
    and "fe_key (sm_fields m ! i) = key" and "fe_node_id (sm_fields m ! i) = owner"
    and "fe_exists (sm_fields m ! i)" by auto
qed

lemma find_slot_eq:
  assumes "sm_inv m" and "i < sm_field_count m"
  shows "find_slot_owned m (fe_key (sm_fields m ! i)) (fe_node_id (sm_fields m ! i)) = Some i"
  unfolding find_slot_owned_def
proof (rule index_of_unique)
  show "i < length (sm_fields m)"
    using assms sm_invD(1,2) by fastforce
  show "fe_exists (sm_fields m ! i) \<and> fe_key (sm_fields m ! i) = fe_key (sm_fields m ! i) \<and>
      fe_node_id (sm_fields m ! i) = fe_node_id (sm_fields m ! i)"
    using assms sm_invD(2,3) by fastforce
  fix j
  assume "j < length (sm_fields m)"
    and "fe_exists (sm_fields m ! j) \<and> fe_key (sm_fields m ! j) = fe_key (sm_fields m ! i) \<and>
      fe_node_id (sm_fields m ! j) = fe_node_id (sm_fields m ! i)"
  then show "j = i"
    using assms sm_invD(1,3) sm_inv_unique by metis
qed

lemma find_slot_Some_iff:
  assumes "sm_inv m"
  shows "find_slot_owned m key owner = Some i \<longleftrightarrow>
    i < sm_field_count m \<and> fe_key (sm_fields m ! i) = key \<and> fe_node_id (sm_fields m ! i) = owner"
  using find_slotD [OF assms] find_slot_eq [OF assms] by blast

section \<open>The map the array represents\<close>

datatype version = Version
  (v_ts: u64) (v_origin: u64) (v_tomb: bool) (v_name: bytes) (v_data: bytes)

definition version_of :: "FieldEntry \<Rightarrow> version" where
  "version_of f = Version (fe_timestamp f) (fe_origin_node_id f) (fe_is_tombstone f) (fe_name f)
     (pointee (fe_data f))"

definition view :: "FleeceStateManager \<Rightarrow> u64 \<times> u32 \<Rightarrow> version option" where
  "view m ok = map_option (\<lambda>i. version_of (sm_fields m ! i)) (find_slot_owned m (snd ok) (fst ok))"

lemma view_Some_iff:
  assumes "sm_inv m"
  shows "view m (owner, key) = Some v \<longleftrightarrow>
    (\<exists>i < sm_field_count m. fe_key (sm_fields m ! i) = key \<and> fe_node_id (sm_fields m ! i) = owner \<and>
      v = version_of (sm_fields m ! i))"
  unfolding view_def by (auto simp: find_slot_Some_iff [OF assms])

text \<open>An existing slot rewritten in place, keeping its key and owner: one map update.\<close>

lemma rewrite_slot:
  assumes inv: "sm_inv m" and slot: "find_slot_owned m key owner = Some i"
    and ok: "field_ok f" and f: "fe_key f = key" "fe_node_id f = owner" "fe_exists f"
    and ts: "fe_timestamp f \<le> sm_local_timestamp m"
  shows "sm_inv (m\<lparr>sm_fields := (sm_fields m)[i := f]\<rparr>)"
    and "view (m\<lparr>sm_fields := (sm_fields m)[i := f]\<rparr>) = (view m)((owner, key) \<mapsto> version_of f)"
proof -
  let ?m = "m\<lparr>sm_fields := (sm_fields m)[i := f]\<rparr>"
  note D = find_slotD [OF inv slot]
  have nth: "(sm_fields m)[i := f] ! j = (if j = i then f else sm_fields m ! j)" for j
    using D(3) by (simp add: nth_list_update)
  have same: "fe_key ((sm_fields m)[i := f] ! j) = fe_key (sm_fields m ! j)"
    "fe_node_id ((sm_fields m)[i := f] ! j) = fe_node_id (sm_fields m ! j)"
    "fe_exists ((sm_fields m)[i := f] ! j) = fe_exists (sm_fields m ! j)" for j
    using D f by (auto simp: nth)
  have "\<forall>j < sm_field_count m. field_ok ((sm_fields m)[i := f] ! j)"
    "\<forall>j < sm_field_count m. fe_timestamp ((sm_fields m)[i := f] ! j) \<le> sm_local_timestamp m"
    using sm_invD(4,5) [OF inv] ok ts by (simp_all add: nth)
  then show inv': "sm_inv ?m"
    using inv by (simp add: sm_inv_def store_inv_def clock_inv_def same)
  have slots: "find_slot_owned ?m k ow = find_slot_owned m k ow" for k ow
    unfolding find_slot_owned_def by (rule index_of_cong) (simp_all add: same)
  show "view ?m = (view m)((owner, key) \<mapsto> version_of f)"
  proof
    fix ok
    show "view ?m ok = ((view m)((owner, key) \<mapsto> version_of f)) ok"
    proof (cases "ok = (owner, key)")
      case True
      then show ?thesis using slot slots D(3) by (simp add: view_def nth)
    next
      case False
      then have "find_slot_owned m (snd ok) (fst ok) \<noteq> Some i"
        using D find_slot_Some_iff [OF inv] by (metis prod.collapse)
      then show ?thesis
        using False by (cases "find_slot_owned m (snd ok) (fst ok)") (auto simp: view_def slots nth)
    qed
  qed
qed

text \<open>A slot taken at the end of the used prefix: one map insertion.\<close>

lemma append_slot:
  assumes inv: "sm_inv m" and slot: "find_slot_owned m key owner = None"
    and room: "sm_field_count m < FIELD_CAPACITY"
    and ok: "field_ok f" and f: "fe_key f = key" "fe_node_id f = owner" "fe_exists f"
    and ts: "fe_timestamp f \<le> sm_local_timestamp m"
  shows "sm_inv (m\<lparr>sm_field_count := sm_field_count m + 1,
                   sm_fields := (sm_fields m)[sm_field_count m := f]\<rparr>)"
    and "view (m\<lparr>sm_field_count := sm_field_count m + 1,
                 sm_fields := (sm_fields m)[sm_field_count m := f]\<rparr>) =
         (view m)((owner, key) \<mapsto> version_of f)"
proof -
  let ?n = "sm_field_count m"
  let ?m = "m\<lparr>sm_field_count := ?n + 1, sm_fields := (sm_fields m)[?n := f]\<rparr>"
  have len: "?n < length (sm_fields m)"
    using sm_invD(1) [OF inv] room by simp
  have nth: "(sm_fields m)[?n := f] ! j = (if j = ?n then f else sm_fields m ! j)" for j
    using len by (simp add: nth_list_update)
  have fresh: "\<not> (fe_key (sm_fields m ! j) = key \<and> fe_node_id (sm_fields m ! j) = owner)"
    if "j < ?n" for j
    using slot find_slot_Some_iff [OF inv, of key owner j] that by auto
  have uniq: "i = j" if "i < Suc ?n" "j < Suc ?n"
    "fe_key ((sm_fields m)[?n := f] ! i) = fe_key ((sm_fields m)[?n := f] ! j)"
    "fe_node_id ((sm_fields m)[?n := f] ! i) = fe_node_id ((sm_fields m)[?n := f] ! j)" for i j
    using that f fresh [of i] fresh [of j] sm_inv_unique [OF inv, of i j]
    by (auto simp: nth less_Suc_eq split: if_splits)
  have "\<forall>i<FIELD_CAPACITY. fe_exists ((sm_fields m)[?n := f] ! i) \<longleftrightarrow> i < Suc ?n"
    "\<forall>i<Suc ?n. field_ok ((sm_fields m)[?n := f] ! i)"
    "\<forall>i<Suc ?n. fe_timestamp ((sm_fields m)[?n := f] ! i) \<le> sm_local_timestamp m"
    using sm_invD(3,4,5) [OF inv] ok ts f by (auto simp: nth less_Suc_eq)
  then show inv': "sm_inv ?m"
    using inv room uniq by (simp add: sm_inv_def store_inv_def clock_inv_def)
  show "view ?m = (view m)((owner, key) \<mapsto> version_of f)"
  proof
    fix p :: "u64 \<times> u32"
    obtain ow k where p: "p = (ow, k)" by (cases p)
    have "view ?m (ow, k) = Some v \<longleftrightarrow> ((view m)((owner, key) \<mapsto> version_of f)) (ow, k) = Some v" for v
      unfolding view_Some_iff [OF inv'] using f fresh view_Some_iff [OF inv, of ow k v]
      by (auto simp: nth less_Suc_eq) (metis less_irrefl_nat)+
    then show "view ?m p = ((view m)((owner, key) \<mapsto> version_of f)) p"
      unfolding p by (metis not_Some_eq)
  qed
qed

end
