(* ===== verification/Store_Ops.thy ===== *)
theory Store_Ops
  imports Store_Invariant
begin

text \<open>
  What each operation of the store does to the map of versions, on every branch: the slot write
  \<open>upsert_field\<close>, the local writes, the delete-marker, compare-and-set, compaction and the
  liveness table.  Every operation keeps the invariant as long as the 64-bit logical clock has
  not run out.
\<close>

section \<open>The slot write\<close>

text \<open>The name a write leaves in the slot, and the version it stores.\<close>

definition stored_name :: "FleeceStateManager \<Rightarrow> u64 \<Rightarrow> u32 \<Rightarrow> bytes option \<Rightarrow> bytes" where
  "stored_name m owner key name =
     (case name of
        Some s \<Rightarrow> take (FLEECE_FIELD_NAME_MAX - 1) s
      | None \<Rightarrow> (case view m (owner, key) of None \<Rightarrow> [] | Some v \<Rightarrow> v_name v))"

definition valid_payload :: "bytes option \<Rightarrow> u32 \<Rightarrow> bool \<Rightarrow> bool" where
  "valid_payload data sz tomb \<longleftrightarrow> tomb \<or> (sz > 0 \<and> unat sz \<le> length (pointee data))"

definition payload :: "bytes option \<Rightarrow> u32 \<Rightarrow> bool \<Rightarrow> bytes" where
  "payload data sz tomb = (if tomb then [] else take (unat sz) (pointee data))"

lemma cstring_take: "cstring s \<Longrightarrow> cstring (take n s)"
  by (auto simp: cstring_def dest: in_set_takeD)

lemma cstring_Nil [simp]: "cstring []"
  by (simp add: cstring_def)

lemma pointee_simps [simp]: "pointee None = []" "pointee (Some d) = d"
  by (simp_all add: pointee_def)

lemma write_slot_sel [simp]:
  "fe_key (write_slot ow og nm d sz ts tomb f) = fe_key f"
  "fe_node_id (write_slot ow og nm d sz ts tomb f) = ow"
  "fe_exists (write_slot ow og nm d sz ts tomb f) = fe_exists f"
  "fe_timestamp (write_slot ow og nm d sz ts tomb f) = ts"
  "fe_is_tombstone (write_slot ow og nm d sz ts tomb f) = tomb"
  "fe_last_export_ts (write_slot ow og nm d sz ts tomb f) = fe_last_export_ts f"
  by (simp_all add: write_slot_def)

lemma write_slot_ok:
  assumes "valid_payload data sz tomb" and "\<And>s. name = Some s \<Longrightarrow> cstring s"
    and "name = None \<Longrightarrow> length (fe_name f) < FLEECE_FIELD_NAME_MAX \<and> cstring (fe_name f)"
  shows "field_ok (write_slot ow og name
           (if tomb then None else Some (take (unat sz) (pointee data))) sz ts tomb f)"
  using assms by (auto simp: field_ok_def write_slot_def valid_payload_def min_def cstring_take
      split: option.splits)

lemma write_slot_version:
  "version_of (write_slot ow og name (if tomb then None else Some (take (unat sz) (pointee data))) sz ts tomb f) =
   Version ts og tomb (case name of None \<Rightarrow> fe_name f | Some s \<Rightarrow> take (FLEECE_FIELD_NAME_MAX - 1) s)
     (payload data sz tomb)"
  by (simp add: version_of_def write_slot_def payload_def split: option.splits)

lemma upsert_frame [frame_simps]:
  "upsert_field A m key ow og name data sz ts tomb = (rc, m') \<Longrightarrow>
   sm_node_id m' = sm_node_id m \<and> sm_local_timestamp m' = sm_local_timestamp m \<and>
   sm_current_tick m' = sm_current_tick m \<and> sm_last_write_tick m' = sm_last_write_tick m \<and>
   sm_peers_seen m' = sm_peers_seen m"
  by (auto simp: upsert_field_def Let_def split: if_splits option.splits)

lemma upsert_rc: "upsert_field A m key ow og name data sz ts tomb = (rc, m') \<Longrightarrow>
   rc = 0 \<or> (rc = -1 \<and> m' = m)"
  by (auto simp: upsert_field_def Let_def split: if_splits option.splits)

lemma view_None_iff: "view m (ow, key) = None \<longleftrightarrow> find_slot_owned m key ow = None"
  by (simp add: view_def)

lemma upsert_ok_iff:
  assumes "sm_inv m"
  shows "fst (upsert_field A m key ow og name data sz ts tomb) = 0 \<longleftrightarrow>
    (tomb \<or> A (unat sz)) \<and> (view m (ow, key) \<noteq> None \<or> sm_field_count m < FIELD_CAPACITY)"
  using sm_invD(1) [OF assms]
  by (auto simp: upsert_field_def Let_def view_None_iff split: option.splits)

lemma upsert_view:
  assumes inv: "sm_inv m"
    and up: "upsert_field A m key ow og name data sz ts tomb = (0, m')"
    and pay: "valid_payload data sz tomb" and nm: "\<And>s. name = Some s \<Longrightarrow> cstring s"
    and ts: "ts \<le> sm_local_timestamp m"
  shows "sm_inv m'"
    and "view m' = (view m)((ow, key) \<mapsto>
           Version ts og tomb (stored_name m ow key name) (payload data sz tomb))"
proof -
  let ?d = "if tomb then None else Some (take (unat sz) (pointee data))"
  have "sm_inv m' \<and> view m' = (view m)((ow, key) \<mapsto>
           Version ts og tomb (stored_name m ow key name) (payload data sz tomb))"
  proof (cases "find_slot_owned m key ow")
    case (Some i)
    note D = find_slotD [OF inv Some]
    let ?f = "write_slot ow og name ?d sz ts tomb (sm_fields m ! i)"
    have m': "m' = m\<lparr>sm_fields := (sm_fields m)[i := ?f]\<rparr>"
      using up Some by (simp add: upsert_field_def Let_def split: if_splits)
    have ok: "field_ok ?f"
      using pay nm sm_invD(4) [OF inv D(1)] by (intro write_slot_ok) (auto simp: field_ok_def)
    have sn: "stored_name m ow key name =
        (case name of None \<Rightarrow> fe_name (sm_fields m ! i) | Some s \<Rightarrow> take (FLEECE_FIELD_NAME_MAX - 1) s)"
      using Some by (simp add: stored_name_def view_def version_of_def split: option.splits)
    show ?thesis
      unfolding m' sn using rewrite_slot [OF inv Some ok] D ts
      by (simp add: write_slot_version)
  next
    case None
    let ?f = "write_slot ow og name ?d sz ts tomb
       ((sm_fields m ! sm_field_count m)\<lparr>fe_key := key, fe_exists := True, fe_name := []\<rparr>)"
    have room: "sm_field_count m < FIELD_CAPACITY"
      and m': "m' = m\<lparr>sm_field_count := sm_field_count m + 1,
                   sm_fields := (sm_fields m)[sm_field_count m := ?f]\<rparr>"
      using up None sm_invD(1) [OF inv] by (simp_all add: upsert_field_def Let_def split: if_splits)
    have ok: "field_ok ?f"
      using pay nm by (intro write_slot_ok) auto
    have sn: "stored_name m ow key name =
        (case name of None \<Rightarrow> [] | Some s \<Rightarrow> take (FLEECE_FIELD_NAME_MAX - 1) s)"
      using None by (simp add: stored_name_def view_def split: option.splits)
    show ?thesis
      unfolding m' sn using append_slot [OF inv None room ok] ts
      by (simp add: write_slot_version cong: option.case_cong)
  qed
  then show "sm_inv m'" and "view m' = (view m)((ow, key) \<mapsto>
           Version ts og tomb (stored_name m ow key name) (payload data sz tomb))" by auto
qed

section \<open>Changes that do not touch the array\<close>

lemma view_cong: "sm_fields m' = sm_fields m \<Longrightarrow> view m' = view m"
  by (rule ext) (simp add: view_def find_slot_owned_def)

lemma sm_inv_cong:
  "sm_inv m \<Longrightarrow> sm_fields m' = sm_fields m \<Longrightarrow> sm_field_count m' = sm_field_count m \<Longrightarrow>
   sm_local_timestamp m \<le> sm_local_timestamp m' \<Longrightarrow> sm_node_id m' = sm_node_id m \<Longrightarrow>
   length (sm_peers_seen m') = length (sm_peers_seen m) \<Longrightarrow> sm_inv m'"
  by (auto simp: sm_inv_def clock_inv_def intro: order.trans)

lemma u64_less_Suc: "w \<noteq> UINT64_MAX \<Longrightarrow> w < w + 1"
  by (metis inc_less_eq_triv_imp not_less)

lemma bump_clock_simps [simp]:
  "sm_fields (bump_clock m) = sm_fields m" "sm_field_count (bump_clock m) = sm_field_count m"
  "sm_node_id (bump_clock m) = sm_node_id m" "sm_current_tick (bump_clock m) = sm_current_tick m"
  "sm_last_write_tick (bump_clock m) = sm_last_write_tick m"
  "sm_peers_seen (bump_clock m) = sm_peers_seen m"
  "sm_local_timestamp (bump_clock m) = sm_local_timestamp m + 1"
  "view (bump_clock m) = view m"
  by (simp_all add: bump_clock_def) (rule view_cong, simp)

lemma bump_clock_inv: "sm_inv m \<Longrightarrow> sm_local_timestamp m \<noteq> UINT64_MAX \<Longrightarrow> sm_inv (bump_clock m)"
  by (rule sm_inv_cong) (auto intro: less_imp_le u64_less_Suc)

lemma stored_name_cong: "view m' = view m \<Longrightarrow> stored_name m' = stored_name m"
  by (intro ext) (simp add: stored_name_def cong: option.case_cong)

lemma advance_clock_simps [simp]:
  "sm_fields (advance_clock m t) = sm_fields m" "sm_field_count (advance_clock m t) = sm_field_count m"
  "sm_node_id (advance_clock m t) = sm_node_id m" "sm_current_tick (advance_clock m t) = sm_current_tick m"
  "sm_last_write_tick (advance_clock m t) = sm_last_write_tick m"
  "sm_peers_seen (advance_clock m t) = sm_peers_seen m"
  "sm_local_timestamp (advance_clock m t) = max (sm_local_timestamp m) t"
  by (auto simp: advance_clock_def max_def)

lemma advance_clock_view [simp]: "view (advance_clock m t) = view m"
  by (rule view_cong) simp

lemma advance_clock_inv: "sm_inv m \<Longrightarrow> sm_inv (advance_clock m t)"
  by (rule sm_inv_cong) simp_all

lemma touch_peer_fields [simp]: "sm_fields (touch_peer m n) = sm_fields m"
  by (simp add: touch_peer_def split: option.splits)

lemma touch_peer_frame [simp]:
  "sm_field_count (touch_peer m n) = sm_field_count m"
  "sm_node_id (touch_peer m n) = sm_node_id m" "sm_current_tick (touch_peer m n) = sm_current_tick m"
  "sm_last_write_tick (touch_peer m n) = sm_last_write_tick m"
  "sm_local_timestamp (touch_peer m n) = sm_local_timestamp m"
  "length (sm_peers_seen (touch_peer m n)) = length (sm_peers_seen m)"
  by (simp_all add: touch_peer_def split: option.splits)

lemma touch_peer_view [simp]: "view (touch_peer m n) = view m"
  by (rule view_cong) simp

lemma touch_peer_inv: "sm_inv m \<Longrightarrow> sm_inv (touch_peer m n)"
  by (rule sm_inv_cong) simp_all

section \<open>Delete-markers\<close>

lemma entomb_frame [simp]:
  "sm_node_id (entomb m i) = sm_node_id m" "sm_field_count (entomb m i) = sm_field_count m"
  "sm_current_tick (entomb m i) = sm_current_tick m"
  "sm_peers_seen (entomb m i) = sm_peers_seen m"
  "sm_local_timestamp (entomb m i) = sm_local_timestamp m + 1"
  by (simp_all add: entomb_def Let_def)

lemma find_slot_cong: "sm_fields m' = sm_fields m \<Longrightarrow> find_slot_owned m' = find_slot_owned m"
  by (intro ext) (simp add: find_slot_owned_def)

lemma entomb_view:
  assumes inv: "sm_inv m" and slot: "find_slot_owned m key owner = Some i"
    and clk: "sm_local_timestamp m \<noteq> UINT64_MAX" and v: "view m (owner, key) = Some v"
  shows "sm_inv (entomb m i)"
    and "view (entomb m i) = (view m)((owner, key) \<mapsto>
           Version (sm_local_timestamp m + 1) (v_origin v) True (v_name v) [])"
proof -
  let ?f = "(sm_fields m ! i)\<lparr>fe_data := None, fe_size := 0,
       fe_timestamp := sm_local_timestamp m + 1, fe_is_tombstone := True\<rparr>"
  note D = find_slotD [OF inv slot]
  have inv': "sm_inv (bump_clock m)"
    using inv clk by (rule bump_clock_inv)
  have slot': "find_slot_owned (bump_clock m) key owner = Some i"
    using slot by (simp add: find_slot_cong [of "bump_clock m" m])
  have ok: "field_ok ?f"
    using sm_invD(4) [OF inv D(1)] by (simp add: field_ok_def)
  have e: "entomb m i = (bump_clock m)\<lparr>sm_fields := (sm_fields (bump_clock m))[i := ?f]\<rparr>"
    by (simp add: entomb_def Let_def)
  have ver: "version_of ?f = Version (sm_local_timestamp m + 1) (v_origin v) True (v_name v) []"
    using v slot by (auto simp: view_def version_of_def)
  have "sm_inv (entomb m i)" and "view (entomb m i) = (view (bump_clock m))((owner, key) \<mapsto> version_of ?f)"
    unfolding e using rewrite_slot [OF inv' slot' ok] D by simp_all
  then show "sm_inv (entomb m i)" and "view (entomb m i) = (view m)((owner, key) \<mapsto>
           Version (sm_local_timestamp m + 1) (v_origin v) True (v_name v) [])"
    by (simp_all add: ver)
qed

section \<open>Local writes\<close>

text \<open>A local write that passes its guards: one fresh clock tick, then the slot write.\<close>

lemma local_write:
  assumes inv: "sm_inv m" and clk: "sm_local_timestamp m \<noteq> UINT64_MAX"
    and pay: "valid_payload data sz False" and nm: "\<And>s. name = Some s \<Longrightarrow> cstring s"
    and up: "upsert_field A (bump_clock m) key ow og name data sz (sm_local_timestamp m + 1) False = (rc, m')"
  shows "sm_inv m'"
    and "rc = 0 \<Longrightarrow> view m' = (view m)((ow, key) \<mapsto>
           Version (sm_local_timestamp m + 1) og False (stored_name m ow key name)
             (take (unat sz) (pointee data)))"
    and "rc \<noteq> 0 \<Longrightarrow> rc = -1 \<and> m' = bump_clock m"
proof -
  have inv': "sm_inv (bump_clock m)"
    using inv clk by (rule bump_clock_inv)
  have sn: "stored_name (bump_clock m) = stored_name m"
    by (rule stored_name_cong) simp
  have *: "sm_inv m' \<and> view m' = (view m)((ow, key) \<mapsto>
           Version (sm_local_timestamp m + 1) og False (stored_name m ow key name)
             (take (unat sz) (pointee data)))" if "rc = 0"
    using upsert_view [OF inv' up [unfolded that] pay nm] by (simp add: sn payload_def)
  show "rc = 0 \<Longrightarrow> view m' = (view m)((ow, key) \<mapsto>
           Version (sm_local_timestamp m + 1) og False (stored_name m ow key name)
             (take (unat sz) (pointee data)))"
    using * by blast
  show "rc \<noteq> 0 \<Longrightarrow> rc = -1 \<and> m' = bump_clock m"
    using upsert_rc [OF up] by auto
  then show "sm_inv m'"
    using * inv' by (cases "rc = 0") auto
qed

text \<open>The slot write depends on nothing but the array, so the quiescence stamp may be set first.\<close>

lemma upsert_last_write:
  "upsert_field A (m\<lparr>sm_last_write_tick := t\<rparr>) key ow og name data sz ts tomb =
   map_prod id (sm_last_write_tick_update (\<lambda>_. t)) (upsert_field A m key ow og name data sz ts tomb)"
  by (simp add: upsert_field_def Let_def find_slot_owned_def split: option.splits)

lemma sm_inv_last_write [simp]: "sm_inv (m\<lparr>sm_last_write_tick := t\<rparr>) = sm_inv m"
  by (simp add: sm_inv_def clock_inv_def)

lemma view_last_write [simp]: "view (m\<lparr>sm_last_write_tick := t\<rparr>) = view m"
  by (rule view_cong) simp

section \<open>Compaction\<close>

text \<open>
  When the slots that are kept, live or named, come first, compaction moves nothing: it only sets the count.
\<close>

lemma compact_loop_id:
  assumes "\<forall>i\<in>set is. fe_exists (fs ! i) \<and> (\<not> fe_is_tombstone (fs ! i) \<or> fe_name (fs ! i) \<noteq> []) \<longleftrightarrow> i < n"
    and "is = [w..<length fs]" and "w \<le> n" and "n \<le> length fs"
  shows "compact_loop is fs w = (fs, n)"
  using assms
proof (induction "is" arbitrary: w)
  case Nil
  then have "length fs \<le> w"
    by (metis le_zero_eq upt_eq_Nil_conv zero_le)
  with Nil show ?case by simp
next
  case (Cons i "is")
  from Cons.prems(2) have i: "i = w" and rest: "is = [Suc w..<length fs]"
    using upt_eq_Cons_conv [of w "length fs" i "is"] by auto
  show ?case
  proof (cases "w < n")
    case True
    with Cons i rest have "compact_loop is fs (Suc w) = (fs, n)"
      by (intro Cons.IH) auto
    with True Cons.prems(1) i show ?thesis by simp
  next
    case False
    then have w: "w = n" using Cons.prems(3) by simp
    have "compact_loop is fs w = (fs, w)"
      if "\<forall>i\<in>set is. \<not> (fe_exists (fs ! i) \<and> (\<not> fe_is_tombstone (fs ! i) \<or> fe_name (fs ! i) \<noteq> []))" for "is" fs w
      using that by (induction "is") auto
    moreover have "\<forall>j\<in>set (i # is). \<not> (fe_exists (fs ! j) \<and> (\<not> fe_is_tombstone (fs ! j) \<or> fe_name (fs ! j) \<noteq> []))"
      using Cons.prems(1) i w rest by auto
    ultimately show ?thesis using w by blast
  qed
qed

lemma compact_kept:
  assumes inv: "sm_inv m" and n: "n \<le> sm_field_count m"
    and kept: "\<forall>i < sm_field_count m. \<not> fe_is_tombstone (sm_fields m ! i) \<or> fe_name (sm_fields m ! i) \<noteq> [] \<longleftrightarrow> i < n"
  shows "fleece_state_manager_compact m = (0, m\<lparr>sm_field_count := n\<rparr>)"
proof -
  have "compact_loop [0..<field_capacity m] (sm_fields m) 0 = (sm_fields m, n)"
  proof (rule compact_loop_id [OF _ refl])
    show "\<forall>i\<in>set [0..<field_capacity m].
        fe_exists (sm_fields m ! i) \<and> (\<not> fe_is_tombstone (sm_fields m ! i) \<or> fe_name (sm_fields m ! i) \<noteq> []) \<longleftrightarrow> i < n"
    proof
      fix i assume "i \<in> set [0..<field_capacity m]"
      then have "fe_exists (sm_fields m ! i) \<longleftrightarrow> i < sm_field_count m" using sm_invD(1,3) [OF inv] by simp
      then show "fe_exists (sm_fields m ! i) \<and> (\<not> fe_is_tombstone (sm_fields m ! i) \<or> fe_name (sm_fields m ! i) \<noteq> []) \<longleftrightarrow> i < n"
        using kept n less_le_trans by blast
    qed
  qed (use n sm_invD(1,2) [OF inv] in simp_all)
  then show ?thesis by (simp add: fleece_state_manager_compact_def)
qed

lemma compact_named:
  assumes "sm_inv m"
    and "\<forall>i < sm_field_count m. \<not> fe_is_tombstone (sm_fields m ! i) \<or> fe_name (sm_fields m ! i) \<noteq> []"
  shows "fleece_state_manager_compact m = (0, m)"
  using compact_kept [OF assms(1), of "sm_field_count m"] assms(2) by simp

end
