(* ===== verification/World_Merge.thy ===== *)
theory World_Merge
  imports Store_Ops "HOL-Library.Product_Lexorder"
begin

text \<open>
  The shared ("world") stream as a replicated last-writer-wins map.  The abstract specification
  is a join on versions ordered by (timestamp, author); \<open>fleece_state_manager_merge_shared\<close>
  refines it.  The interface locale \<open>lww_replica\<close> states what a replica promises on delivery of
  a version and derives that the outcome depends only on the set of versions delivered; it is
  interpreted on the store.  The digest of a stream is shown to be a function of its view.
\<close>

section \<open>The abstract specification\<close>

definition stamp :: "version \<Rightarrow> u64 \<times> u64" where
  "stamp v = (v_ts v, v_origin v)"

definition lww_join :: "version option \<Rightarrow> version \<Rightarrow> version" where
  "lww_join old v = (case old of None \<Rightarrow> v | Some i \<Rightarrow> if stamp v \<le> stamp i then i else v)"

lemma stamp_le_iff:
  "stamp v \<le> stamp i \<longleftrightarrow> v_ts i > v_ts v \<or> (v_ts i = v_ts v \<and> v_origin i \<ge> v_origin v)"
  by (auto simp: stamp_def less_eq_prod_def)

section \<open>Refinement by the merge operations\<close>

lemma merge_payload:
  "tomb \<or> (data \<noteq> None \<and> sz \<noteq> 0) \<Longrightarrow> (\<not> tomb \<Longrightarrow> unat sz \<le> length (pointee data)) \<Longrightarrow>
   valid_payload data sz tomb"
  by (auto simp: valid_payload_def word_neq_0_conv)

lemma view_slot: "find_slot_owned m key ow = Some i \<Longrightarrow> view m (ow, key) = Some (version_of (sm_fields m ! i))"
  by (simp add: view_def)

text \<open>
  Both merges look the field up and either keep the version in it or write the new one; \<open>keeps\<close> is the test they make.
\<close>

lemma merge_put:
  fixes keeps :: "version \<Rightarrow> bool"
  assumes inv: "sm_inv m1" and view: "view m1 = view m" and clk: "ts \<le> sm_local_timestamp m1" and s: "cstring s" and pay: "valid_payload data sz tomb"
    and v: "v = Version ts og tomb (take (FLEECE_FIELD_NAME_MAX - 1) s) (payload data sz tomb)"
    and op: "(case find_slot_owned m1 (hash_name s) ow of None \<Rightarrow> upsert_field A m1 (hash_name s) ow og (Some s) data sz ts tomb
        | Some i \<Rightarrow> if keeps (version_of (sm_fields m1 ! i)) then (0, m1)
                    else upsert_field A m1 (hash_name s) ow og (Some s) data sz ts tomb) = (rc, m')"
  shows "sm_inv m' \<and> (rc = 0 \<longrightarrow> view m' = (view m)((ow, hash_name s) \<mapsto>
      (case view m (ow, hash_name s) of None \<Rightarrow> v | Some w \<Rightarrow> if keeps w then w else v))) \<and> (rc \<noteq> 0 \<longrightarrow> rc = -1 \<and> view m' = view m)"
proof -
  have put: "sm_inv m' \<and> (rc = 0 \<longrightarrow> view m' = (view m)((ow, hash_name s) \<mapsto> v)) \<and> (rc \<noteq> 0 \<longrightarrow> rc = -1 \<and> view m' = view m)"
    if up: "upsert_field A m1 (hash_name s) ow og (Some s) data sz ts tomb = (rc, m')"
    using upsert_rc [OF up] upsert_view [OF inv _ pay, of A "hash_name s" ow og "Some s" ts m'] up inv s clk
    by (auto simp: stored_name_def v view)
  show ?thesis
  proof (cases "find_slot_owned m1 (hash_name s) ow")
    case None
    then have "view m (ow, hash_name s) = None" using view_None_iff [of m1 ow "hash_name s"] by (simp add: view)
    then show ?thesis using put op None by simp
  next
    case (Some i)
    have vi: "view m (ow, hash_name s) = Some (version_of (sm_fields m1 ! i))" using view_slot [OF Some] by (simp add: view)
    show ?thesis
    proof (cases "keeps (version_of (sm_fields m1 ! i))")
      case True
      then have "rc = 0" "m' = m1" using op Some by simp_all
      then show ?thesis using inv vi True by (simp add: view map_upd_triv)
    qed (use put op Some vi in simp)
  qed
qed

lemma merge_shared_view:
  assumes inv: "sm_inv m" and s: "s \<noteq> []" "cstring s"
    and mem: "\<not> tomb \<Longrightarrow> unat sz \<le> length (pointee data)"
    and mg: "fleece_state_manager_merge_shared A m og (Some s) data sz ts tomb = (rc, m')"
  shows "sm_inv m'"
    and "rc = 0 \<Longrightarrow> view m' = (view m)((0, hash_name s) \<mapsto>
           lww_join (view m (0, hash_name s))
             (Version ts og tomb (take (FLEECE_FIELD_NAME_MAX - 1) s) (payload data sz tomb)))"
    and "rc \<noteq> 0 \<Longrightarrow> rc = -1 \<and> view m' = view m"
proof -
  let ?m = "advance_clock m ts"
  let ?v = "Version ts og tomb (take (FLEECE_FIELD_NAME_MAX - 1) s) (payload data sz tomb)"
  have keep: "stamp ?v \<le> stamp (version_of f) \<longleftrightarrow> fe_timestamp f > ts \<or> (fe_timestamp f = ts \<and> fe_origin_node_id f \<ge> og)" for f
    by (simp add: stamp_le_iff version_of_def)
  have "sm_inv m' \<and> (rc = 0 \<longrightarrow> view m' = (view m)((0, hash_name s) \<mapsto> lww_join (view m (0, hash_name s)) ?v)) \<and>
      (rc \<noteq> 0 \<longrightarrow> rc = -1 \<and> view m' = view m)"
  proof (cases "\<not> tomb \<and> (data = None \<or> sz = 0)")
    case True
    with mg inv s show ?thesis by (auto simp: fleece_state_manager_merge_shared_def)
  next
    case False
    then have pay: "valid_payload data sz tomb" using mem by (intro merge_payload) auto
    have "(case find_slot_owned ?m (hash_name s) 0 of None \<Rightarrow> upsert_field A ?m (hash_name s) 0 og (Some s) data sz ts tomb
        | Some i \<Rightarrow> if stamp ?v \<le> stamp (version_of (sm_fields ?m ! i)) then (0, ?m)
                    else upsert_field A ?m (hash_name s) 0 og (Some s) data sz ts tomb) = (rc, m')"
      using mg False s unfolding keep by (auto simp: fleece_state_manager_merge_shared_def Let_def split: option.splits if_splits)
    from merge_put [OF advance_clock_inv [OF inv] _ _ s(2) pay refl this]
    show ?thesis by (simp add: lww_join_def split: option.splits)
  qed
  then show "sm_inv m'" and "rc = 0 \<Longrightarrow> view m' = (view m)((0, hash_name s) \<mapsto> lww_join (view m (0, hash_name s)) ?v)"
    and "rc \<noteq> 0 \<Longrightarrow> rc = -1 \<and> view m' = view m" by blast+
qed

text \<open>The streams of the peers have one writer each; the newer timestamp wins.\<close>

definition newer :: "version option \<Rightarrow> version \<Rightarrow> version" where
  "newer old v = (case old of None \<Rightarrow> v | Some i \<Rightarrow> if v_ts v \<le> v_ts i then i else v)"

lemma merge_named_view:
  assumes inv: "sm_inv m" and s: "s \<noteq> []" "cstring s"
    and mem: "\<not> tomb \<Longrightarrow> unat sz \<le> length (pointee data)"
    and mg: "fleece_state_manager_merge_named A m ow (Some s) data sz ts tomb = (rc, m')"
  shows "sm_inv m'"
    and "rc = 0 \<Longrightarrow> ow \<noteq> sm_node_id m \<and> view m' = (view m)((ow, hash_name s) \<mapsto>
           newer (view m (ow, hash_name s))
             (Version ts ow tomb (take (FLEECE_FIELD_NAME_MAX - 1) s) (payload data sz tomb)))"
    and "rc \<noteq> 0 \<Longrightarrow> rc = -1 \<and> view m' = view m"
proof -
  let ?m = "advance_clock (touch_peer m ow) ts"
  let ?v = "Version ts ow tomb (take (FLEECE_FIELD_NAME_MAX - 1) s) (payload data sz tomb)"
  have inv1: "sm_inv ?m" by (intro advance_clock_inv touch_peer_inv inv)
  have "sm_inv m' \<and> (rc = 0 \<longrightarrow> ow \<noteq> sm_node_id m \<and> view m' = (view m)((ow, hash_name s) \<mapsto> newer (view m (ow, hash_name s)) ?v)) \<and>
      (rc \<noteq> 0 \<longrightarrow> rc = -1 \<and> view m' = view m)"
  proof (cases "(\<not> tomb \<and> (data = None \<or> sz = 0)) \<or> ow = sm_node_id m")
    case True
    with mg inv s show ?thesis by (auto simp: fleece_state_manager_merge_named_def split: if_splits)
  next
    case False
    then have pay: "valid_payload data sz tomb" using mem by (intro merge_payload) auto
    have "(case find_slot_owned ?m (hash_name s) ow of None \<Rightarrow> upsert_field A ?m (hash_name s) ow ow (Some s) data sz ts tomb
        | Some i \<Rightarrow> if ts \<le> v_ts (version_of (sm_fields ?m ! i)) then (0, ?m)
                    else upsert_field A ?m (hash_name s) ow ow (Some s) data sz ts tomb) = (rc, m')"
      using mg False s by (auto simp: fleece_state_manager_merge_named_def version_of_def Let_def split: option.splits if_splits)
    from merge_put [where keeps = "\<lambda>w. ts \<le> v_ts w", OF inv1 _ _ s(2) pay refl this]
    show ?thesis using False by (simp add: newer_def split: option.splits)
  qed
  then show "sm_inv m'" and "rc = 0 \<Longrightarrow> ow \<noteq> sm_node_id m \<and> view m' = (view m)((ow, hash_name s) \<mapsto> newer (view m (ow, hash_name s)) ?v)"
    and "rc \<noteq> 0 \<Longrightarrow> rc = -1 \<and> view m' = view m" by blast+
qed

section \<open>Replicas that deliver versions\<close>

text \<open>Every delivery of a list is accepted (neither the slots nor the allocator run out).\<close>

fun accepts_all :: "('m \<Rightarrow> 'v \<Rightarrow> bool) \<Rightarrow> ('m \<Rightarrow> 'v \<Rightarrow> 'm) \<Rightarrow> 'm \<Rightarrow> 'v list \<Rightarrow> bool" where
  "accepts_all acc deliver m [] = True"
| "accepts_all acc deliver m (v # vs) = (acc m v \<and> accepts_all acc deliver (deliver m v) vs)"

locale lww_replica =
  fixes rank :: "'v \<Rightarrow> 's::linorder"
    and key :: "'v \<Rightarrow> 'k"
    and inv :: "'m \<Rightarrow> bool"
    and lookup :: "'m \<Rightarrow> 'k \<Rightarrow> 'v option"
    and acc :: "'m \<Rightarrow> 'v \<Rightarrow> bool"
    and deliver :: "'m \<Rightarrow> 'v \<Rightarrow> 'm"
  assumes deliver_inv: "inv m \<Longrightarrow> acc m v \<Longrightarrow> inv (deliver m v)"
    and deliver_lookup: "inv m \<Longrightarrow> acc m v \<Longrightarrow>
      lookup (deliver m v) = (lookup m)(key v \<mapsto>
        (case lookup m (key v) of None \<Rightarrow> v | Some i \<Rightarrow> if rank v \<le> rank i then i else v))"
begin

lemma deliver_all_inv:
  "inv m \<Longrightarrow> accepts_all acc deliver m vs \<Longrightarrow> inv (foldl deliver m vs)"
  by (induction vs arbitrary: m) (auto intro: deliver_inv)

text \<open>What a replica holds for a key is a highest-ranked candidate.\<close>

lemma deliver_all_lookup:
  "inv m \<Longrightarrow> accepts_all acc deliver m vs \<Longrightarrow>
   (case lookup (foldl deliver m vs) k of
      None \<Rightarrow> lookup m k = None \<and> (\<forall>w\<in>set vs. key w \<noteq> k)
    | Some v \<Rightarrow> (lookup m k = Some v \<or> (v \<in> set vs \<and> key v = k)) \<and>
        (\<forall>w. lookup m k = Some w \<or> (w \<in> set vs \<and> key w = k) \<longrightarrow> rank w \<le> rank v))"
proof (induction vs arbitrary: m)
  case Nil
  then show ?case by (auto split: option.splits)
next
  case (Cons x xs)
  have acc: "acc m x" "accepts_all acc deliver (deliver m x) xs"
    using Cons.prems by auto
  note IH = Cons.IH [OF deliver_inv [OF Cons.prems(1) acc(1)] acc(2)]
  note step = deliver_lookup [OF Cons.prems(1) acc(1)]
  show ?case
  proof (cases "key x = k")
    case False
    then have "lookup (deliver m x) k = lookup m k"
      using step by simp
    then show ?thesis
      using IH False by (auto split: option.splits)
  next
    case True
    obtain j where j: "lookup (deliver m x) k = Some j" "j = x \<or> lookup m k = Some j"
      "rank x \<le> rank j" "\<And>w. lookup m k = Some w \<Longrightarrow> rank w \<le> rank j"
      using step True by (cases "lookup m k") (auto split: if_splits)
    have "lookup (foldl deliver (deliver m x) xs) k \<noteq> None"
      using IH j(1) by (cases "lookup (foldl deliver (deliver m x) xs) k") simp_all
    then obtain v where r: "lookup (foldl deliver (deliver m x) xs) k = Some v"
      by blast
    have v: "j = v \<or> (v \<in> set xs \<and> key v = k)"
      "\<And>w. w = j \<or> (w \<in> set xs \<and> key w = k) \<Longrightarrow> rank w \<le> rank v"
      using IH by (auto simp: r j(1))
    have "rank w \<le> rank v" if "lookup m k = Some w \<or> (w \<in> set (x # xs) \<and> key w = k)" for w
      using that v(2) [of w] v(2) [of j] j(3) j(4) [of w] by (auto intro: order.trans)
    then show ?thesis
      using r v(1) j(2) True by auto
  qed
qed

text \<open>
  Two replicas that between what they held and what was delivered to them have seen the same
  versions of a key hold the same version, whatever the order and repetition of the deliveries,
  provided two different versions of the key never carry the same rank.
\<close>

lemma deliver_all_converge:
  assumes "inv m1" "accepts_all acc deliver m1 vs1" "inv m2" "accepts_all acc deliver m2 vs2"
    and same: "\<And>v. (lookup m1 k = Some v \<or> (v \<in> set vs1 \<and> key v = k)) \<longleftrightarrow>
      (lookup m2 k = Some v \<or> (v \<in> set vs2 \<and> key v = k))"
    and uniq: "\<And>v w. (lookup m1 k = Some v \<or> (v \<in> set vs1 \<and> key v = k)) \<Longrightarrow>
      (lookup m1 k = Some w \<or> (w \<in> set vs1 \<and> key w = k)) \<Longrightarrow> rank v = rank w \<Longrightarrow> v = w"
  shows "lookup (foldl deliver m1 vs1) k = lookup (foldl deliver m2 vs2) k"
proof -
  let ?r1 = "lookup (foldl deliver m1 vs1) k" and ?r2 = "lookup (foldl deliver m2 vs2) k"
  let ?C = "\<lambda>v. lookup m1 k = Some v \<or> (v \<in> set vs1 \<and> key v = k)"
  have L1: "(?r1 = None \<longrightarrow> (\<forall>w. \<not> ?C w)) \<and> (\<forall>v. ?r1 = Some v \<longrightarrow> ?C v \<and> (\<forall>w. ?C w \<longrightarrow> rank w \<le> rank v))"
    using deliver_all_lookup [OF assms(1,2), of k] by (cases ?r1) simp_all
  let ?D = "\<lambda>v. lookup m2 k = Some v \<or> (v \<in> set vs2 \<and> key v = k)"
  have "(?r2 = None \<longrightarrow> (\<forall>w. \<not> ?D w)) \<and> (\<forall>v. ?r2 = Some v \<longrightarrow> ?D v \<and> (\<forall>w. ?D w \<longrightarrow> rank w \<le> rank v))"
    using deliver_all_lookup [OF assms(3,4), of k] by (cases ?r2) simp_all
  then have L2: "(?r2 = None \<longrightarrow> (\<forall>w. \<not> ?C w)) \<and> (\<forall>v. ?r2 = Some v \<longrightarrow> ?C v \<and> (\<forall>w. ?C w \<longrightarrow> rank w \<le> rank v))"
    unfolding same .
  have "\<exists>w. ?r2 = Some w \<and> w = v" if "?r1 = Some v" for v
  proof -
    have v: "?C v" "\<forall>w. ?C w \<longrightarrow> rank w \<le> rank v" using L1 that by blast+
    then obtain w where r2: "?r2 = Some w" using L2 by fastforce
    then have w: "?C w" "\<forall>v. ?C v \<longrightarrow> rank v \<le> rank w" using L2 by blast+
    have "rank v = rank w" using v w by (intro order.antisym) blast+
    with uniq [OF v(1) w(1)] r2 show ?thesis by simp
  qed
  moreover have "?r2 = None" if "?r1 = None"
    using L1 L2 that by (cases ?r2) blast+
  ultimately show ?thesis
    by (cases ?r1) auto
qed

end

section \<open>The store is such a replica\<close>

text \<open>A version as it stands in a well-formed shared-stream record.\<close>

definition wire_version :: "version \<Rightarrow> bool" where
  "wire_version v \<longleftrightarrow>
     v_name v \<noteq> [] \<and> cstring (v_name v) \<and> length (v_name v) < FLEECE_FIELD_NAME_MAX \<and>
     (if v_tomb v then v_data v = [] else v_data v \<noteq> [] \<and> length (v_data v) < 2 ^ 32)"

definition version_key :: "version \<Rightarrow> u64 \<times> u32" where
  "version_key v = (FLEECE_SHARED_OWNER_ID, hash_name (v_name v))"

definition merge_version :: "allocator \<Rightarrow> FleeceStateManager \<Rightarrow> version \<Rightarrow> int \<times> FleeceStateManager" where
  "merge_version A m v =
     fleece_state_manager_merge_shared A m (v_origin v) (Some (v_name v))
       (if v_tomb v then None else Some (v_data v)) (of_nat (length (v_data v))) (v_ts v) (v_tomb v)"

definition deliver_version :: "allocator \<Rightarrow> FleeceStateManager \<Rightarrow> version \<Rightarrow> FleeceStateManager" where
  "deliver_version A m v = snd (merge_version A m v)"

definition accepts_version :: "allocator \<Rightarrow> FleeceStateManager \<Rightarrow> version \<Rightarrow> bool" where
  "accepts_version A m v \<longleftrightarrow> wire_version v \<and> fst (merge_version A m v) = 0"

lemma deliver_version_view:
  assumes inv: "sm_inv m" and w: "wire_version v"
  shows "sm_inv (deliver_version A m v)"
    and "fst (merge_version A m v) = 0 \<Longrightarrow> view (deliver_version A m v) =
           (view m)(version_key v \<mapsto> lww_join (view m (version_key v)) v)"
    and "fst (merge_version A m v) \<noteq> 0 \<Longrightarrow> view (deliver_version A m v) = view m"
proof -
  let ?d = "if v_tomb v then None else Some (v_data v)" and ?n = "of_nat (length (v_data v)) :: u32"
  have size: "unat ?n = length (v_data v)"
    using w by (auto simp: wire_version_def unat_of_nat_32 split: if_splits)
  have ver: "Version (v_ts v) (v_origin v) (v_tomb v) (take (FLEECE_FIELD_NAME_MAX - 1) (v_name v))
      (payload ?d ?n (v_tomb v)) = v"
    using w size by (cases v) (auto simp: wire_version_def payload_def)
  obtain rc m' where mg: "merge_version A m v = (rc, m')"
    by fastforce
  have "\<not> v_tomb v \<Longrightarrow> unat ?n \<le> length (pointee ?d)"
    by (simp add: size)
  note M = merge_shared_view [OF inv _ _ this mg [unfolded merge_version_def], unfolded ver]
  have s: "v_name v \<noteq> []" "cstring (v_name v)"
    using w by (auto simp: wire_version_def)
  show "sm_inv (deliver_version A m v)"
    using M(1) [OF s] mg by (simp add: deliver_version_def)
  show "fst (merge_version A m v) = 0 \<Longrightarrow> view (deliver_version A m v) =
           (view m)(version_key v \<mapsto> lww_join (view m (version_key v)) v)"
    using M(2) [OF s] mg by (simp add: deliver_version_def version_key_def)
  show "fst (merge_version A m v) \<noteq> 0 \<Longrightarrow> view (deliver_version A m v) = view m"
    using M(3) [OF s] mg by (simp add: deliver_version_def)
qed

interpretation world: lww_replica stamp version_key sm_inv view
    "accepts_version A" "deliver_version A" for A
  by unfold_locales (auto simp: accepts_version_def deliver_version_view lww_join_def)

section \<open>The digest is a function of the view\<close>

definition version_digest :: "version \<Rightarrow> u64" where
  "version_digest v =
     (let h = fnv64_mix 0xcbf29ce484222325 (v_name v);
          h = fnv64_mix h [0xFF];
          h = fnv64_mix_uint h (v_origin v);
          h = fnv64_mix_uint h (v_ts v);
          h = fnv64_mix_uint h (of_nat (length (v_data v)))
      in fnv64_mix h (v_data v))"

lemma fnv64_mix_Nil [simp]: "fnv64_mix h [] = h"
  by (simp add: fnv64_mix_def)

lemma entry_digest_version:
  assumes "field_ok f" and "\<not> fe_is_tombstone f"
  shows "entry_digest f = version_digest (version_of f)"
proof -
  obtain d where d: "fe_data f = Some d" "length d = unat (fe_size f)" and pos: "fe_size f > 0"
    using assms by (auto simp: field_ok_def)
  have "(of_nat (length d) :: u64) = ucast (fe_size f)"
    by (simp add: d(2) unsigned_of_nat)
  then show ?thesis
    using d pos by (simp add: entry_digest_def version_digest_def version_of_def Let_def)
qed

lemma sum_list_filter_nth:
  fixes g :: "'a \<Rightarrow> 'b::comm_monoid_add"
  shows "sum_list (map g (filter P xs)) = (\<Sum>i | i < length xs \<and> P (xs ! i). g (xs ! i))"
proof -
  have "sum_list (map g (filter P xs)) = sum_list (map (\<lambda>x. if P x then g x else 0) xs)"
    by (induction xs) auto
  also have "\<dots> = (\<Sum>i<length xs. if P (xs ! i) then g (xs ! i) else 0)"
    by (simp add: sum_list_sum_nth atLeast0LessThan)
  also have "\<dots> = (\<Sum>i | i < length xs \<and> P (xs ! i). g (xs ! i))"
    by (simp add: sum.inter_filter [symmetric] lessThan_def conj_commute)
  finally show ?thesis .
qed

lemma stream_digest_view:
  assumes inv: "sm_inv m"
  shows "compute_stream_digest m ow =
    (\<Sum>k | \<exists>v. view m (ow, k) = Some v \<and> \<not> v_tomb v \<and> v_name v \<noteq> [].
        version_digest (the (view m (ow, k))))"
proof -
  let ?I = "{i. i < length (sm_fields m) \<and> live_named ow (sm_fields m ! i)}"
  let ?key = "\<lambda>i. fe_key (sm_fields m ! i)"
  have I: "i \<in> ?I \<longleftrightarrow> i < sm_field_count m \<and> live_named ow (sm_fields m ! i)" for i
    using sm_invD(1,2,3) [OF inv] by (auto simp: live_named_def)
  have vw: "view m (ow, ?key i) = Some (version_of (sm_fields m ! i))" if "i \<in> ?I" for i
    using that I view_Some_iff [OF inv] by (auto simp: live_named_def)
  have inj: "inj_on ?key ?I"
    using I sm_inv_unique [OF inv] by (auto simp: inj_on_def live_named_def)
  have img: "?key ` ?I = {k. \<exists>v. view m (ow, k) = Some v \<and> \<not> v_tomb v \<and> v_name v \<noteq> []}"
  proof (intro equalityI subsetI)
    fix k assume "k \<in> {k. \<exists>v. view m (ow, k) = Some v \<and> \<not> v_tomb v \<and> v_name v \<noteq> []}"
    then obtain i where "i < sm_field_count m" "?key i = k" "fe_node_id (sm_fields m ! i) = ow"
      "\<not> fe_is_tombstone (sm_fields m ! i)" "fe_name (sm_fields m ! i) \<noteq> []"
      using view_Some_iff [OF inv] by (auto simp: version_of_def)
    moreover from this have "i \<in> ?I"
      using I sm_invD(1,2,3) [OF inv] by (auto simp: live_named_def)
    ultimately show "k \<in> ?key ` ?I" by blast
  qed (use vw in \<open>auto simp: live_named_def version_of_def\<close>)
  have "compute_stream_digest m ow = (\<Sum>i\<in>?I. entry_digest (sm_fields m ! i))"
    by (simp add: compute_stream_digest_def sum_list_filter_nth)
  also have "\<dots> = (\<Sum>i\<in>?I. version_digest (the (view m (ow, ?key i))))"
    using vw I sm_invD(4) [OF inv] by (intro sum.cong) (auto simp: live_named_def entry_digest_version)
  also have "\<dots> = (\<Sum>k\<in>?key ` ?I. version_digest (the (view m (ow, k))))"
    by (simp add: sum.reindex [OF inj])
  finally show ?thesis unfolding img .
qed

lemma stream_digest_cong:
  "sm_inv m1 \<Longrightarrow> sm_inv m2 \<Longrightarrow> (\<And>k. view m1 (ow, k) = view m2 (ow, k)) \<Longrightarrow>
   compute_stream_digest m1 ow = compute_stream_digest m2 ow"
  by (simp add: stream_digest_view)

end
