(* ===== verification/Swarm.thy ===== *)
theory Swarm
  imports World_Merge
begin

text \<open>
  Nodes that write, delete and exchange shared fields.  A state of the swarm is the store of
  every node together with all versions that ever stood in one of the stores; a step is a local
  operation of one node, or the delivery to a node of any such version (so frames may be lost,
  repeated, reordered and relayed).  Uniqueness of (timestamp, author) pairs is an invariant of
  the reachable states, and strong eventual consistency follows without assuming it.
\<close>

section \<open>Effects of the local operations on the shared stream\<close>

datatype node_op =
    SetShared bytes bytes u32
  | RemoveShared bytes
  | SetSharedCas bytes "bytes option" u32 bytes u32
  | SetNamed bytes bytes u32
  | RemoveNamed bytes
  | Tick

fun run_op :: "allocator \<Rightarrow> node_op \<Rightarrow> FleeceStateManager \<Rightarrow> FleeceStateManager" where
  "run_op A (SetShared s d sz) m = snd (fleece_state_manager_set_shared A m (Some s) (Some d) sz)"
| "run_op A (RemoveShared s) m = snd (fleece_state_manager_remove_shared m (Some s))"
| "run_op A (SetSharedCas s e esz d sz) m =
     snd (fleece_state_manager_set_shared_cas A m (Some s) e esz (Some d) sz)"
| "run_op A (SetNamed s d sz) m = snd (fleece_state_manager_set_named A m (Some s) (Some d) sz)"
| "run_op A (RemoveNamed s) m = snd (fleece_state_manager_remove_named m (Some s))"
| "run_op A Tick m = fleece_state_manager_tick m"

text \<open>Names are C strings that fit the slot; a data pointer points to as many bytes as announced.\<close>

definition name_ok :: "bytes \<Rightarrow> bool" where
  "name_ok s \<longleftrightarrow> cstring s \<and> length s < FLEECE_FIELD_NAME_MAX"

fun op_ok :: "node_op \<Rightarrow> bool" where
  "op_ok (SetShared s d sz) = (name_ok s \<and> unat sz \<le> length d)"
| "op_ok (RemoveShared s) = name_ok s"
| "op_ok (SetSharedCas s e esz d sz) = (name_ok s \<and> unat sz \<le> length d)"
| "op_ok (SetNamed s d sz) = (name_ok s \<and> unat sz \<le> length d)"
| "op_ok (RemoveNamed s) = name_ok s"
| "op_ok Tick = True"

text \<open>
  Every stored shared version is well-formed and stands under the hash of its own name: what the
  wire format needs to carry it.
\<close>

definition shared_ok :: "FleeceStateManager \<Rightarrow> bool" where
  "shared_ok m \<longleftrightarrow> (\<forall>k v. view m (FLEECE_SHARED_OWNER_ID, k) = Some v \<longrightarrow>
     wire_version v \<and> version_key v = (FLEECE_SHARED_OWNER_ID, k))"

text \<open>The possible effects: the shared stream is untouched, or one fresh version authored here.\<close>

definition shared_effect :: "FleeceStateManager \<Rightarrow> FleeceStateManager \<Rightarrow> bool" where
  "shared_effect m m' \<longleftrightarrow>
     sm_inv m' \<and> sm_node_id m' = sm_node_id m \<and> sm_local_timestamp m \<le> sm_local_timestamp m' \<and>
     ((\<forall>k. view m' (FLEECE_SHARED_OWNER_ID, k) = view m (FLEECE_SHARED_OWNER_ID, k)) \<or>
      (\<exists>v. v_ts v = sm_local_timestamp m + 1 \<and> v_origin v = sm_node_id m \<and> wire_version v \<and>
        sm_local_timestamp m' = sm_local_timestamp m + 1 \<and>
        view m' = (view m)(version_key v \<mapsto> v)))"

lemma shared_effect_refl: "sm_inv m \<Longrightarrow> shared_effect m m"
  by (auto simp: shared_effect_def)

lemma clock_le_Suc: "w \<noteq> UINT64_MAX \<Longrightarrow> w \<le> w + 1"
  by (rule less_imp_le) (rule u64_less_Suc)

lemma name_okD: "name_ok s \<Longrightarrow> cstring s \<and> take (FLEECE_FIELD_NAME_MAX - 1) s = s"
  by (simp add: name_ok_def)

lemma payload_length:
  assumes "sz \<noteq> 0" and "unat (sz :: u32) \<le> length d"
  shows "take (unat sz) d \<noteq> []" and "length (take (unat sz) d) < 2 ^ 32"
proof -
  have "unat sz < 2 ^ 32"
    using unsigned_less [of sz] by simp
  then show "length (take (unat sz) d) < 2 ^ 32"
    by simp
  show "take (unat sz) d \<noteq> []"
    using assms by (auto simp: unat_eq_0)
qed

text \<open>A write to the shared stream, successful or not.\<close>

lemma shared_write_effect:
  assumes inv: "sm_inv m" and clk: "sm_local_timestamp m \<noteq> UINT64_MAX"
    and s: "name_ok s" "s \<noteq> []" and d: "sz \<noteq> 0" "unat sz \<le> length d"
    and up: "upsert_field A (bump_clock m) (hash_name s) 0 (sm_node_id m) (Some s) (Some d) sz
       (sm_local_timestamp m + 1) False = (rc, m')"
  shows "shared_effect m m'"
proof -
  let ?v = "Version (sm_local_timestamp m + 1) (sm_node_id m) False s (take (unat sz) d)"
  have pay: "valid_payload (Some d) sz False"
    using d by (simp add: valid_payload_def word_neq_0_conv)
  note W = local_write [OF inv clk pay _ up]
  have nm: "\<And>t. Some s = Some t \<Longrightarrow> cstring t"
    using name_okD [OF s(1)] by simp
  have frame: "sm_node_id m' = sm_node_id m" "sm_local_timestamp m' = sm_local_timestamp m + 1"
    using upsert_frame [OF up] by simp_all
  have "wire_version ?v"
    using s payload_length [OF d] by (simp add: wire_version_def name_ok_def)
  moreover have "version_key ?v = (0, hash_name s)"
    by (simp add: version_key_def)
  ultimately show ?thesis
    using W(1) [OF nm] W(2) [OF nm] W(3) [OF nm] frame clock_le_Suc [OF clk] name_okD [OF s(1)]
    by (cases "rc = 0") (auto simp: shared_effect_def stored_name_def intro!: exI [of _ ?v])
qed

lemma set_shared_effect:
  assumes "sm_inv m" "sm_local_timestamp m \<noteq> UINT64_MAX" "name_ok s" "unat sz \<le> length d"
  shows "shared_effect m (snd (fleece_state_manager_set_shared A m (Some s) (Some d) sz))"
proof (cases "s = [] \<or> sz = 0")
  case True
  with assms show ?thesis
    by (auto simp: fleece_state_manager_set_shared_def intro: shared_effect_refl)
next
  case False
  let ?m = "m\<lparr>sm_last_write_tick := sm_current_tick m\<rparr>"
  obtain rc m' where up: "upsert_field A (bump_clock ?m) (hash_name s) 0 (sm_node_id m) (Some s) (Some d) sz
       (sm_local_timestamp m + 1) False = (rc, m')"
    by fastforce
  have "shared_effect ?m m'"
    using assms False up by (intro shared_write_effect) auto
  moreover have "fleece_state_manager_set_shared A m (Some s) (Some d) sz = (rc, m')"
    using False up by (simp add: fleece_state_manager_set_shared_def Let_def)
  ultimately show ?thesis
    by (simp add: shared_effect_def)
qed

lemma cas_effect:
  assumes "sm_inv m" "sm_local_timestamp m \<noteq> UINT64_MAX" "name_ok s" "unat sz \<le> length d"
  shows "shared_effect m (snd (fleece_state_manager_set_shared_cas A m (Some s) e esz (Some d) sz))"
proof -
  obtain rc m' where up: "upsert_field A (bump_clock m) (hash_name s) 0 (sm_node_id m) (Some s) (Some d) sz
       (sm_local_timestamp m + 1) False = (rc, m')"
    by fastforce
  have "shared_effect m m'" if "s \<noteq> []" "sz \<noteq> 0"
    using assms that up by (intro shared_write_effect) auto
  moreover have "shared_effect m (m'\<lparr>sm_last_write_tick := t\<rparr>)" if "shared_effect m m'" for t
    using that by (simp add: shared_effect_def)
  ultimately show ?thesis
    using up assms(1)
    by (auto simp: fleece_state_manager_set_shared_cas_def Let_def shared_effect_refl
        split: prod.splits option.splits)
qed

text \<open>Deletion: the marker is a new write by the deleter.\<close>

lemma find_field_ownedD:
  "find_field_owned m key ow = Some i \<Longrightarrow>
   find_slot_owned m key ow = Some i \<and> \<not> fe_is_tombstone (sm_fields m ! i)"
  by (auto simp: find_field_owned_def split: option.splits if_splits)

lemma restamp_origin:
  assumes inv: "sm_inv m" and slot: "find_slot_owned m key ow = Some i" and v: "view m (ow, key) = Some v"
  shows "sm_inv (m\<lparr>sm_fields := (sm_fields m)[i := (sm_fields m ! i)\<lparr>fe_origin_node_id := og\<rparr>]\<rparr>)"
    and "view (m\<lparr>sm_fields := (sm_fields m)[i := (sm_fields m ! i)\<lparr>fe_origin_node_id := og\<rparr>]\<rparr>) =
      (view m)((ow, key) \<mapsto> Version (v_ts v) og (v_tomb v) (v_name v) (v_data v))"
proof -
  let ?f = "(sm_fields m ! i)\<lparr>fe_origin_node_id := og\<rparr>"
  note D = find_slotD [OF inv slot]
  have "field_ok ?f" and "fe_timestamp ?f \<le> sm_local_timestamp m"
    using sm_invD(4,5) [OF inv D(1)] by (simp_all add: field_ok_def)
  moreover have "version_of ?f = Version (v_ts v) og (v_tomb v) (v_name v) (v_data v)"
    using v slot by (auto simp: view_def version_of_def)
  ultimately show "sm_inv (m\<lparr>sm_fields := (sm_fields m)[i := ?f]\<rparr>)"
    and "view (m\<lparr>sm_fields := (sm_fields m)[i := ?f]\<rparr>) =
      (view m)((ow, key) \<mapsto> Version (v_ts v) og (v_tomb v) (v_name v) (v_data v))"
    using rewrite_slot [OF inv slot, of ?f] D by simp_all
qed

lemma remove_shared_view:
  assumes inv: "sm_inv m" and clk: "sm_local_timestamp m \<noteq> UINT64_MAX"
    and f: "find_field_owned m (hash_name s) 0 = Some i" and v: "view m (0, hash_name s) = Some v"
    and rm: "fleece_state_manager_remove_shared m (Some s) = (rc, m')"
  shows "rc = 0" and "sm_inv m'" and "sm_node_id m' = sm_node_id m"
    and "sm_local_timestamp m' = sm_local_timestamp m + 1"
    and "view m' = (view m)((0, hash_name s) \<mapsto>
           Version (sm_local_timestamp m + 1) (sm_node_id m) True (v_name v) [])"
proof -
  let ?m1 = "(entomb m i)\<lparr>sm_last_write_tick := sm_current_tick m\<rparr>"
  have slot: "find_slot_owned m (hash_name s) 0 = Some i"
    using find_field_ownedD [OF f] by simp
  note E = entomb_view [OF inv slot clk v]
  have inv1: "sm_inv ?m1" and vw1: "view ?m1 (0, hash_name s) =
      Some (Version (sm_local_timestamp m + 1) (v_origin v) True (v_name v) [])"
    using E by simp_all
  have "find_slot_owned (entomb m i) (hash_name s) 0 = Some i"
    using slot find_slotD [OF inv slot] find_slot_Some_iff [OF E(1)]
    by (simp add: entomb_def Let_def)
  then have slot1: "find_slot_owned ?m1 (hash_name s) 0 = Some i"
    by (simp add: find_slot_cong [of ?m1 "entomb m i"])
  have m': "rc = 0" "m' = ?m1\<lparr>sm_fields := (sm_fields ?m1)
       [i := (sm_fields ?m1 ! i)\<lparr>fe_origin_node_id := sm_node_id m\<rparr>]\<rparr>"
    using rm f by (auto simp: fleece_state_manager_remove_shared_def Let_def)
  note R = restamp_origin [OF inv1 slot1 vw1, of "sm_node_id m", folded m'(2)]
  show "rc = 0" by (rule m'(1))
  show "sm_inv m'" by (rule R(1))
  show "sm_node_id m' = sm_node_id m" "sm_local_timestamp m' = sm_local_timestamp m + 1"
    by (simp_all add: m'(2))
  show "view m' = (view m)((0, hash_name s) \<mapsto>
           Version (sm_local_timestamp m + 1) (sm_node_id m) True (v_name v) [])"
    using R(2) E(2) by simp
qed

lemma remove_shared_effect:
  assumes inv: "sm_inv m" and clk: "sm_local_timestamp m \<noteq> UINT64_MAX" and ok: "shared_ok m"
  shows "shared_effect m (snd (fleece_state_manager_remove_shared m (Some s)))"
proof (cases "find_field_owned m (hash_name s) 0")
  case None
  then show ?thesis
    using inv by (simp add: fleece_state_manager_remove_shared_def shared_effect_refl)
next
  case (Some i)
  obtain v where v: "view m (0, hash_name s) = Some v"
    using find_field_ownedD [OF Some] by (simp add: view_def)
  obtain rc m' where rm: "fleece_state_manager_remove_shared m (Some s) = (rc, m')"
    by fastforce
  let ?v = "Version (sm_local_timestamp m + 1) (sm_node_id m) True (v_name v) []"
  have "wire_version v" and "version_key v = (0, hash_name s)"
    using ok v by (auto simp: shared_ok_def)
  then have "wire_version ?v" and "version_key ?v = (0, hash_name s)"
    by (auto simp: wire_version_def version_key_def)
  then show ?thesis
    using remove_shared_view [OF inv clk Some v rm] clock_le_Suc [OF clk] rm
    by (auto simp: shared_effect_def intro!: exI [of _ ?v])
qed

text \<open>The operations on the node's own fields leave the shared stream alone.\<close>

lemma set_named_effect:
  assumes inv: "sm_inv m" and clk: "sm_local_timestamp m \<noteq> UINT64_MAX"
    and s: "name_ok s" and d: "unat sz \<le> length d"
  shows "shared_effect m (snd (fleece_state_manager_set_named A m (Some s) (Some d) sz))"
proof (cases "s = [] \<or> sz = 0")
  case True
  with inv show ?thesis
    by (auto simp: fleece_state_manager_set_named_def intro: shared_effect_refl)
next
  case False
  obtain rc m' where up: "upsert_field A (bump_clock m) (hash_name s) (sm_node_id m) (sm_node_id m)
      (Some s) (Some d) sz (sm_local_timestamp m + 1) False = (rc, m')"
    by fastforce
  have pay: "valid_payload (Some d) sz False"
    using d False by (simp add: valid_payload_def word_neq_0_conv)
  have nm: "\<And>t. Some s = Some t \<Longrightarrow> cstring t"
    using name_okD [OF s] by simp
  note W = local_write [OF inv clk pay nm up]
  have "fleece_state_manager_set_named A m (Some s) (Some d) sz = (rc, m')"
    using False up by (simp add: fleece_state_manager_set_named_def Let_def)
  then show ?thesis
    using W upsert_frame [OF up] clock_le_Suc [OF clk] sm_invD(6) [OF inv]
    by (cases "rc = 0") (auto simp: shared_effect_def)
qed

lemma remove_named_effect:
  assumes inv: "sm_inv m" and clk: "sm_local_timestamp m \<noteq> UINT64_MAX"
  shows "shared_effect m (snd (fleece_state_manager_remove_named m (Some s)))"
proof (cases "find_field_owned m (hash_name s) (sm_node_id m)")
  case None
  then show ?thesis
    using inv by (simp add: fleece_state_manager_remove_named_def shared_effect_refl)
next
  case (Some i)
  then have slot: "find_slot_owned m (hash_name s) (sm_node_id m) = Some i"
    using find_field_ownedD by blast
  show ?thesis
    using entomb_view [OF inv slot clk view_slot [OF slot]] Some clock_le_Suc [OF clk] sm_invD(6) [OF inv]
    by (auto simp: fleece_state_manager_remove_named_def shared_effect_def)
qed

lemma tick_effect: "sm_inv m \<Longrightarrow> shared_effect m (fleece_state_manager_tick m)"
proof -
  assume inv: "sm_inv m"
  have "view (fleece_state_manager_tick m) = view m"
    by (rule view_cong) (simp add: fleece_state_manager_tick_def)
  moreover have "sm_inv (fleece_state_manager_tick m)"
    by (rule sm_inv_cong [OF inv]) (simp_all add: fleece_state_manager_tick_def)
  ultimately show ?thesis
    by (simp add: shared_effect_def fleece_state_manager_tick_def)
qed

lemmas op_effects = set_shared_effect remove_shared_effect cas_effect set_named_effect
  remove_named_effect tick_effect

lemma run_op_effect:
  "sm_inv m \<Longrightarrow> sm_local_timestamp m \<noteq> UINT64_MAX \<Longrightarrow> shared_ok m \<Longrightarrow> op_ok oper \<Longrightarrow>
   shared_effect m (run_op A oper m)"
  by (cases oper) (auto intro: op_effects)

section \<open>The swarm as a transition system\<close>

record swarm =
  sw_nodes :: "u64 \<Rightarrow> FleeceStateManager option"
  sw_hist :: "version set"

definition shared_versions :: "FleeceStateManager \<Rightarrow> version set" where
  "shared_versions m = {v. \<exists>k. view m (FLEECE_SHARED_OWNER_ID, k) = Some v}"

definition publish :: "swarm \<Rightarrow> u64 \<Rightarrow> FleeceStateManager \<Rightarrow> swarm" where
  "publish s n m = \<lparr>sw_nodes = (sw_nodes s)(n \<mapsto> m), sw_hist = sw_hist s \<union> shared_versions m\<rparr>"

definition swarm_init :: "u64 set \<Rightarrow> swarm" where
  "swarm_init ids =
     \<lparr>sw_nodes = (\<lambda>n. if n \<in> ids then fleece_state_manager_create_with_node_id True True n else None),
      sw_hist = {}\<rparr>"

inductive swarm_step :: "swarm \<Rightarrow> swarm \<Rightarrow> bool" where
  local_op: "sw_nodes s n = Some m \<Longrightarrow> sm_local_timestamp m \<noteq> UINT64_MAX \<Longrightarrow> op_ok oper \<Longrightarrow>
     swarm_step s (publish s n (run_op A oper m))"
| deliver: "sw_nodes s n = Some m \<Longrightarrow> v \<in> sw_hist s \<Longrightarrow>
     swarm_step s (publish s n (deliver_version A m v))"
| hear: "sw_nodes s n = Some m \<Longrightarrow> swarm_step s (publish s n (touch_peer m p))"

inductive swarm_reachable :: "u64 set \<Rightarrow> swarm \<Rightarrow> bool" for ids where
  init: "swarm_reachable ids (swarm_init ids)"
| step: "swarm_reachable ids s \<Longrightarrow> swarm_step s t \<Longrightarrow> swarm_reachable ids t"

inductive_cases swarm_stepE: "swarm_step s t"

definition node_inv :: "version set \<Rightarrow> u64 \<Rightarrow> FleeceStateManager \<Rightarrow> bool" where
  "node_inv H n m \<longleftrightarrow> sm_inv m \<and> sm_node_id m = n \<and> shared_ok m \<and> shared_versions m \<subseteq> H"

definition swarm_inv :: "swarm \<Rightarrow> bool" where
  "swarm_inv s \<longleftrightarrow>
     (\<forall>n m. sw_nodes s n = Some m \<longrightarrow> node_inv (sw_hist s) n m) \<and>
     (\<forall>v\<in>sw_hist s. wire_version v \<and>
        (\<exists>m. sw_nodes s (v_origin v) = Some m \<and> v_ts v \<le> sm_local_timestamp m) \<and> v_ts v \<noteq> 0) \<and>
     (\<forall>v\<in>sw_hist s. \<forall>w\<in>sw_hist s. stamp v = stamp w \<longrightarrow> v = w)"

lemma swarm_invD:
  assumes "swarm_inv s"
  shows "sw_nodes s n = Some m \<Longrightarrow> node_inv (sw_hist s) n m"
    and "v \<in> sw_hist s \<Longrightarrow> wire_version v"
    and "v \<in> sw_hist s \<Longrightarrow> \<exists>m. sw_nodes s (v_origin v) = Some m \<and> v_ts v \<le> sm_local_timestamp m"
    and "v \<in> sw_hist s \<Longrightarrow> w \<in> sw_hist s \<Longrightarrow> stamp v = stamp w \<Longrightarrow> v = w"
    and "v \<in> sw_hist s \<Longrightarrow> v_ts v \<noteq> 0"
  using assms by (auto simp: swarm_inv_def)

lemma swarm_invI:
  assumes "\<And>n m. sw_nodes s n = Some m \<Longrightarrow> node_inv (sw_hist s) n m"
    and "\<And>v. v \<in> sw_hist s \<Longrightarrow> wire_version v"
    and "\<And>v. v \<in> sw_hist s \<Longrightarrow> \<exists>m. sw_nodes s (v_origin v) = Some m \<and> v_ts v \<le> sm_local_timestamp m"
    and "\<And>v w. v \<in> sw_hist s \<Longrightarrow> w \<in> sw_hist s \<Longrightarrow> stamp v = stamp w \<Longrightarrow> v = w"
    and "\<And>v. v \<in> sw_hist s \<Longrightarrow> v_ts v \<noteq> 0"
  shows "swarm_inv s"
  using assms unfolding swarm_inv_def by blast

lemma swarm_init_inv: "swarm_inv (swarm_init ids)"
proof -
  have "node_inv {} n m" if "fleece_state_manager_create_with_node_id True True n = Some m" for n m
  proof -
    have inv: "sm_inv m" and m: "sm_node_id m = n" "sm_field_count m = 0"
      using create_inv [OF that] that
      by (auto simp: fleece_state_manager_create_with_node_id_def split: if_splits)
    have "view m (ow, k) = None" for ow k
      using view_Some_iff [OF inv] m(2) by (metis not_less_zero option.exhaust)
    then show ?thesis
      using inv m by (simp add: node_inv_def shared_ok_def shared_versions_def)
  qed
  then show ?thesis by (simp add: swarm_inv_def swarm_init_def split: if_splits)
qed

text \<open>A step that only rearranges known versions.\<close>

lemma publish_known:
  assumes inv: "swarm_inv s" and m: "sw_nodes s n = Some m"
    and m': "node_inv (sw_hist s) n m'" and clk: "sm_local_timestamp m \<le> sm_local_timestamp m'"
  shows "swarm_inv (publish s n m')"
proof -
  have hist: "sw_hist (publish s n m') = sw_hist s"
    using m' by (auto simp: publish_def node_inv_def)
  have nodes: "sw_nodes (publish s n m') = (sw_nodes s)(n \<mapsto> m')"
    by (simp add: publish_def)
  show ?thesis
    using inv m m' clk unfolding swarm_inv_def hist nodes
    by (auto intro: order.trans)
qed

text \<open>A step that authors one version with a stamp the author has never used.\<close>

lemma publish_adds:
  assumes old: "node_inv (sw_hist s) n m" and upd: "view m' = (view m)(version_key v \<mapsto> v)"
    and m': "sm_inv m'" "sm_node_id m' = n" and wire: "wire_version v"
  shows "sw_hist (publish s n m') = insert v (sw_hist s)" and "node_inv (insert v (sw_hist s)) n m'"
proof -
  have known: "w \<in> sw_hist s" if "view m (0, k) = Some w" for k w
    using old that by (auto simp: node_inv_def shared_versions_def)
  have vw: "view m' (0, k) = (if k = hash_name (v_name v) then Some v else view m (0, k))" for k
    by (simp add: upd version_key_def)
  have sub: "shared_versions m' \<subseteq> insert v (sw_hist s)"
    by (auto simp: shared_versions_def vw split: if_splits intro: known)
  have "v \<in> shared_versions m'"
    by (auto simp: shared_versions_def vw intro: exI [of _ "hash_name (v_name v)"])
  then show "sw_hist (publish s n m') = insert v (sw_hist s)" using sub by (auto simp: publish_def)
  have "shared_ok m'"
    unfolding shared_ok_def using old wire by (simp add: vw node_inv_def shared_ok_def version_key_def)
  then show "node_inv (insert v (sw_hist s)) n m'" using m' sub by (simp add: node_inv_def)
qed

lemma stamp_fresh:
  assumes inv: "swarm_inv s" and m: "sw_nodes s n = Some m" and clk: "sm_local_timestamp m \<noteq> UINT64_MAX"
    and v: "v_ts v = sm_local_timestamp m + 1" "v_origin v = n" and w: "w \<in> sw_hist s"
  shows "stamp w \<noteq> stamp v"
proof
  assume "stamp w = stamp v"
  then have o: "v_origin w = n" and t: "v_ts w = sm_local_timestamp m + 1" using v by (simp_all add: stamp_def)
  have "v_ts w \<le> sm_local_timestamp m" using swarm_invD(3) [OF inv w] m o by auto
  then show False using t u64_less_Suc [OF clk] by (metis leD)
qed

lemma clocks_cover:
  assumes inv: "swarm_inv s" and m: "sw_nodes s n = Some m" and clk: "sm_local_timestamp m \<noteq> UINT64_MAX"
    and m': "sm_local_timestamp m' = sm_local_timestamp m + 1" and v: "v_ts v = sm_local_timestamp m + 1" "v_origin v = n"
    and w: "w \<in> insert v (sw_hist s)"
  shows "\<exists>m2. ((sw_nodes s)(n \<mapsto> m')) (v_origin w) = Some m2 \<and> v_ts w \<le> sm_local_timestamp m2"
proof (cases "v_origin w = n")
  case True
  have "v_ts w \<le> sm_local_timestamp m + 1"
  proof (cases "w = v")
    case False
    then have "v_ts w \<le> sm_local_timestamp m" using w swarm_invD(3) [OF inv, of w] m True by auto
    then show ?thesis using clock_le_Suc [OF clk] by (rule order.trans)
  qed (simp add: v(1))
  then show ?thesis using True m' by simp
next
  case False
  then show ?thesis using w v(2) swarm_invD(3) [OF inv, of w] by auto
qed

lemma publish_fresh:
  assumes inv: "swarm_inv s" and m: "sw_nodes s n = Some m"
    and clk: "sm_local_timestamp m \<noteq> UINT64_MAX"
    and m': "sm_inv m'" "sm_node_id m' = n" "sm_local_timestamp m' = sm_local_timestamp m + 1"
    and v: "v_ts v = sm_local_timestamp m + 1" "v_origin v = n" "wire_version v"
    and upd: "view m' = (view m)(version_key v \<mapsto> v)"
  shows "swarm_inv (publish s n m')"
proof (rule swarm_invI)
  note P = publish_adds [OF swarm_invD(1) [OF inv m] upd m'(1,2) v(3)]
  have nodes: "sw_nodes (publish s n m') = (sw_nodes s)(n \<mapsto> m')" by (simp add: publish_def)
  have others: "node_inv (insert v (sw_hist s)) k m2" if "sw_nodes s k = Some m2" for k m2
    using swarm_invD(1) [OF inv that] by (auto simp: node_inv_def)
  show "node_inv (sw_hist (publish s n m')) k m2" if "sw_nodes (publish s n m') k = Some m2" for k m2
    using that P(2) others unfolding P(1) nodes by (cases "k = n") auto
  show "wire_version w" if "w \<in> sw_hist (publish s n m')" for w
    using that v(3) swarm_invD(2) [OF inv] unfolding P(1) by blast
  show "\<exists>m2. sw_nodes (publish s n m') (v_origin w) = Some m2 \<and> v_ts w \<le> sm_local_timestamp m2"
    if "w \<in> sw_hist (publish s n m')" for w
    using that clocks_cover [OF inv m clk m'(3) v(1,2)] unfolding P(1) nodes by blast
  show "x = y" if "x \<in> sw_hist (publish s n m')" "y \<in> sw_hist (publish s n m')" "stamp x = stamp y" for x y
    using that swarm_invD(4) [OF inv] stamp_fresh [OF inv m clk v(1,2)] unfolding P(1) by (metis insert_iff)
  show "v_ts w \<noteq> 0" if "w \<in> sw_hist (publish s n m')" for w
    using that swarm_invD(5) [OF inv] v(1) u64_less_Suc [OF clk] unfolding P(1)
    by (metis insert_iff word_not_simps(1))
qed

text \<open>Delivery of a known version.\<close>

lemma deliver_version_frame:
  "sm_node_id (deliver_version A m v) = sm_node_id m"
  "sm_local_timestamp m \<le> sm_local_timestamp (deliver_version A m v)"
proof -
  let ?m = "advance_clock m (v_ts v)"
  have up: "sm_node_id m' = sm_node_id m \<and> sm_local_timestamp m' = max (sm_local_timestamp m) (v_ts v)"
    if "upsert_field A ?m key ow og nm data sz ts tomb = (rc, m')" for key ow og nm data sz ts tomb rc m'
    using upsert_frame [OF that] by simp
  have "sm_node_id (deliver_version A m v) = sm_node_id m \<and>
      sm_local_timestamp m \<le> sm_local_timestamp (deliver_version A m v)"
    unfolding deliver_version_def merge_version_def fleece_state_manager_merge_shared_def Let_def
    using up [OF prod.collapse [symmetric]] by (auto split: option.splits)
  then show "sm_node_id (deliver_version A m v) = sm_node_id m"
    "sm_local_timestamp m \<le> sm_local_timestamp (deliver_version A m v)" by blast+
qed

lemma deliver_node_inv:
  assumes inv: "swarm_inv s" and old: "node_inv (sw_hist s) n m" and v: "v \<in> sw_hist s"
  shows "node_inv (sw_hist s) n (deliver_version A m v)"
proof -
  have w: "wire_version v" and mi: "sm_inv m"
    using swarm_invD(2) [OF inv v] old by (simp_all add: node_inv_def)
  note D = deliver_version_view [OF mi w, of A]
  have "node_inv (sw_hist s) n (deliver_version A m v)" if "view (deliver_version A m v) = view m"
    using old D(1) that deliver_version_frame
    by (simp add: node_inv_def shared_ok_def shared_versions_def)
  moreover have "node_inv (sw_hist s) n (deliver_version A m v)" if "view (deliver_version A m v) =
      (view m)(version_key v \<mapsto> lww_join (view m (version_key v)) v)"
    using old D(1) v w deliver_version_frame unfolding node_inv_def shared_ok_def shared_versions_def that
    by (auto simp: version_key_def lww_join_def split: option.splits)
  ultimately show "node_inv (sw_hist s) n (deliver_version A m v)"
    using D(2,3) by (cases "fst (merge_version A m v) = 0") auto
qed

lemma deliver_all_node_inv:
  "swarm_inv s \<Longrightarrow> node_inv (sw_hist s) n m \<Longrightarrow> set vs \<subseteq> sw_hist s \<Longrightarrow>
   node_inv (sw_hist s) n (foldl (deliver_version A) m vs)"
  by (induction vs arbitrary: m) (auto intro: deliver_node_inv)

lemma touch_node_inv: "node_inv H n m \<Longrightarrow> node_inv H n (touch_peer m p)"
  by (simp add: node_inv_def shared_ok_def shared_versions_def touch_peer_inv)

lemma swarm_step_inv:
  assumes "swarm_step s t" and inv: "swarm_inv s"
  shows "swarm_inv t"
  using assms(1)
proof cases
  case (local_op n m oper A)
  have old: "node_inv (sw_hist s) n m"
    using swarm_invD(1) [OF inv local_op(2)] .
  let ?m = "run_op A oper m"
  have eff: "shared_effect m ?m"
    using old local_op by (intro run_op_effect) (simp_all add: node_inv_def)
  consider (same) "\<forall>k. view ?m (0, k) = view m (0, k)"
    | (fresh) v where "v_ts v = sm_local_timestamp m + 1" "v_origin v = sm_node_id m" "wire_version v"
        "sm_local_timestamp ?m = sm_local_timestamp m + 1" "view ?m = (view m)(version_key v \<mapsto> v)"
    using eff by (auto simp: shared_effect_def)
  then show ?thesis
  proof cases
    case same
    then have "node_inv (sw_hist s) n ?m"
      using old eff by (simp add: node_inv_def shared_effect_def shared_ok_def shared_versions_def)
    then show ?thesis
      using publish_known [OF inv local_op(2)] eff local_op(1) by (simp add: shared_effect_def)
  next
    case fresh
    have "sm_inv ?m" "sm_node_id ?m = n" "sm_node_id m = n"
      using eff old by (simp_all add: shared_effect_def node_inv_def)
    with fresh show ?thesis
      using publish_fresh [OF inv local_op(2) local_op(3), of ?m v] local_op(1) by simp
  qed
next
  case (deliver n m v A)
  then show ?thesis
    using publish_known [OF inv deliver(2)] deliver_version_frame(2)
      deliver_node_inv [OF inv swarm_invD(1) [OF inv deliver(2)] deliver(3)] by simp
next
  case (hear n m p)
  then show ?thesis
    using publish_known [OF inv hear(2)] touch_node_inv [OF swarm_invD(1) [OF inv hear(2)]] by simp
qed

lemma swarm_reachable_inv: "swarm_reachable ids s \<Longrightarrow> swarm_inv s"
  by (induction rule: swarm_reachable.induct) (auto intro: swarm_init_inv swarm_step_inv)


section \<open>What holds in every reachable swarm\<close>

lemma shared_view_iff:
  "shared_ok m \<Longrightarrow>
   view m (0, k) = Some v \<longleftrightarrow> v \<in> shared_versions m \<and> version_key v = (0, k)"
  by (auto simp: shared_ok_def shared_versions_def)

lemma accepts_version_inv:
  "sm_inv m \<Longrightarrow> accepts_all (accepts_version A) (deliver_version A) m vs \<Longrightarrow>
   sm_inv (foldl (deliver_version A) m vs)"
  by (rule world.deliver_all_inv)

text \<open>
  C1. Strong eventual consistency.  Take any reachable state of the swarm (any interleaving of
  writes, deletions, compare-and-swaps, and of lost, repeated, reordered or relayed deliveries),
  two of its nodes, and let each accept any sequence of circulating versions such that between
  what they held and what they receive they know the same versions.  Then their shared streams
  are equal field by field, deletion markers included, and so are the digests of the two streams.
\<close>

theorem swarm_converges:
  assumes reach: "swarm_reachable ids s"
    and nodes: "sw_nodes s a = Some ma" "sw_nodes s b = Some mb"
    and known: "set va \<subseteq> sw_hist s" "set vb \<subseteq> sw_hist s"
    and acc: "accepts_all (accepts_version A) (deliver_version A) ma va"
      "accepts_all (accepts_version A) (deliver_version A) mb vb"
    and same: "shared_versions ma \<union> set va = shared_versions mb \<union> set vb"
  shows "(\<forall>k. view (foldl (deliver_version A) ma va) (FLEECE_SHARED_OWNER_ID, k) =
      view (foldl (deliver_version A) mb vb) (FLEECE_SHARED_OWNER_ID, k)) \<and>
    compute_stream_digest (foldl (deliver_version A) ma va) FLEECE_SHARED_OWNER_ID =
      compute_stream_digest (foldl (deliver_version A) mb vb) FLEECE_SHARED_OWNER_ID"
proof -
  have inv: "swarm_inv s" by (rule swarm_reachable_inv [OF reach])
  have na: "node_inv (sw_hist s) a ma" and nb: "node_inv (sw_hist s) b mb"
    using swarm_invD(1) [OF inv] nodes by blast+
  then have ia: "sm_inv ma" "shared_ok ma" "shared_versions ma \<subseteq> sw_hist s"
    and ib: "sm_inv mb" "shared_ok mb"
    by (simp_all add: node_inv_def)
  have cand: "view ma (0, k) = Some v \<or> (v \<in> set va \<and> version_key v = (0, k)) \<longleftrightarrow>
      v \<in> shared_versions ma \<union> set va \<and> version_key v = (0, k)"
    "view mb (0, k) = Some v \<or> (v \<in> set vb \<and> version_key v = (0, k)) \<longleftrightarrow>
      v \<in> shared_versions mb \<union> set vb \<and> version_key v = (0, k)" for k v
    using shared_view_iff [OF ia(2)] shared_view_iff [OF ib(2)] by auto
  have eq: "view (foldl (deliver_version A) ma va) (0, k) = view (foldl (deliver_version A) mb vb) (0, k)" for k
  proof (rule world.deliver_all_converge [OF ia(1) acc(1) ib(1) acc(2)])
    show "view ma (0, k) = Some v \<or> (v \<in> set va \<and> version_key v = (0, k)) \<longleftrightarrow>
      view mb (0, k) = Some v \<or> (v \<in> set vb \<and> version_key v = (0, k))" for v
      unfolding cand same ..
    show "v = w" if "view ma (0, k) = Some v \<or> (v \<in> set va \<and> version_key v = (0, k))"
      "view ma (0, k) = Some w \<or> (w \<in> set va \<and> version_key w = (0, k))" "stamp v = stamp w" for v w
      using that swarm_invD(4) [OF inv, of v w] ia(3) known(1) unfolding cand by blast
  qed
  then show ?thesis
    using stream_digest_cong [OF accepts_version_inv [OF ia(1) acc(1)] accepts_version_inv [OF ib(1) acc(2)]]
    by blast
qed

text \<open>
  C7. In every reachable swarm each store satisfies its invariant (unique (owner, key) slots,
  well-formed payloads, no stamp ahead of the clock) and keeps its own identity, every circulating
  version is well-formed, and no two different versions carry the same (timestamp, author) pair,
  so the last-writer-wins order never has to break a tie between different contents.
\<close>

theorem swarm_stamps_unique:
  assumes "swarm_reachable ids s"
  shows "(\<forall>n m. sw_nodes s n = Some m \<longrightarrow> sm_inv m \<and> sm_node_id m = n \<and> shared_versions m \<subseteq> sw_hist s) \<and>
    (\<forall>v\<in>sw_hist s. wire_version v) \<and>
    (\<forall>v\<in>sw_hist s. \<forall>w\<in>sw_hist s. v_ts v = v_ts w \<and> v_origin v = v_origin w \<longrightarrow> v = w)"
  using swarm_reachable_inv [OF assms] by (auto simp: swarm_inv_def node_inv_def stamp_def)

text \<open>What a step does to one stored version: it stays or a version with a larger stamp replaces it.\<close>

lemma effect_monotone:
  assumes "shared_effect m m'" and "sm_inv m" and clk: "sm_local_timestamp m \<noteq> UINT64_MAX"
    and v: "view m (0, k) = Some v"
  shows "\<exists>w. view m' (0, k) = Some w \<and> (w = v \<or> stamp v < stamp w)"
proof -
  have "v_ts v \<le> sm_local_timestamp m"
    using v view_Some_iff [OF assms(2)] sm_invD(5) [OF assms(2)] by (auto simp: version_of_def)
  then have "v_ts v < sm_local_timestamp m + 1"
    using u64_less_Suc [OF clk] by (rule le_less_trans)
  then show ?thesis
    using assms(1) v by (auto simp: shared_effect_def stamp_def less_prod_def)
qed

lemma deliver_monotone:
  assumes "sm_inv m" "wire_version w" and v: "view m (0, k) = Some v"
  shows "\<exists>w'. view (deliver_version A m w) (0, k) = Some w' \<and> (w' = v \<or> stamp v < stamp w')"
  using deliver_version_view [OF assms(1,2), of A] v
  by (cases "fst (merge_version A m w) = 0") (auto simp: lww_join_def not_le split: if_splits)

text \<open>
  No step of the swarm takes a field back: a version that a node stores for a shared field,
  a value or a deletion marker, is only ever replaced by a version with a larger stamp.  In
  particular a deleted field is not resurrected by a delayed copy of an older value.
\<close>

theorem swarm_no_resurrection:
  assumes reach: "swarm_reachable ids s" and step: "swarm_step s t"
    and m: "sw_nodes s n = Some m" and v: "view m (FLEECE_SHARED_OWNER_ID, k) = Some v"
  shows "\<exists>m' w. sw_nodes t n = Some m' \<and> view m' (FLEECE_SHARED_OWNER_ID, k) = Some w \<and>
    (w = v \<or> stamp v < stamp w)"
proof -
  have inv: "swarm_inv s" by (rule swarm_reachable_inv [OF reach])
  note at = swarm_invD(1) [OF inv]
  show ?thesis
    using step
  proof cases
    case (local_op n' m1 oper A)
    have "node_inv (sw_hist s) n' m1" by (rule at [OF local_op(2)])
    then have "shared_effect m1 (run_op A oper m1)" and "sm_inv m1"
      using local_op by (simp_all add: node_inv_def run_op_effect)
    then show ?thesis
      using effect_monotone [OF _ _ local_op(3)] local_op m v
      by (cases "n = n'") (auto simp: publish_def)
  next
    case (deliver n' m1 w A)
    have "sm_inv m1" and "wire_version w"
      using at [OF deliver(2)] swarm_invD(2) [OF inv deliver(3)] by (simp_all add: node_inv_def)
    then show ?thesis
      using deliver_monotone [of m1 w k v A] deliver m v by (cases "n = n'") (auto simp: publish_def)
  next
    case (hear n' m1 p)
    have "view (touch_peer m1 p) = view m1" by (rule view_cong) simp_all
    then show ?thesis
      using hear m v by (cases "n = n'") (auto simp: publish_def)
  qed
qed

section \<open>A concrete swarm\<close>

text \<open>
  Node 1 writes a field while node 2 writes and then deletes the same field.
\<close>

definition demo_name :: bytes where "demo_name = [112, 111, 115]"

definition demo_node :: "u64 \<Rightarrow> FleeceStateManager" where
  "demo_node n = the (fleece_state_manager_create_with_node_id True True n)"

definition demo_a :: FleeceStateManager where
  "demo_a = run_op (\<lambda>_. True) (SetShared demo_name [7] 1) (demo_node 1)"

definition demo_b :: FleeceStateManager where
  "demo_b = run_op (\<lambda>_. True) (RemoveShared demo_name)
     (run_op (\<lambda>_. True) (SetShared demo_name [9, 9] 2) (demo_node 2))"

lemma create_demo: "n \<noteq> 0 \<Longrightarrow> fleece_state_manager_create_with_node_id True True n = Some (demo_node n)"
  by (simp add: demo_node_def fleece_state_manager_create_with_node_id_def)

lemma demo_node_inv: "n \<noteq> 0 \<Longrightarrow> sm_inv (demo_node n)"
  using create_inv [OF create_demo] by blast

definition demo_swarm :: swarm where
  "demo_swarm = publish (publish (publish (swarm_init {1, 2})
      1 demo_a)
      2 (run_op (\<lambda>_. True) (SetShared demo_name [9, 9] 2) (demo_node 2)))
      2 demo_b"

lemma shared_versions_code:
  assumes inv: "sm_inv m"
  shows "shared_versions m =
    set (map version_of (filter (\<lambda>f. fe_node_id f = 0) (take (sm_field_count m) (sm_fields m))))"
proof -
  have "(\<exists>k. view m (0, k) = Some v) \<longleftrightarrow>
      (\<exists>i < sm_field_count m. fe_node_id (sm_fields m ! i) = 0 \<and> version_of (sm_fields m ! i) = v)" for v
    using view_Some_iff [OF inv] by auto
  moreover have "f \<in> set (take (sm_field_count m) (sm_fields m)) \<longleftrightarrow>
      (\<exists>i < sm_field_count m. sm_fields m ! i = f)" for f
    using sm_invD(1,2) [OF inv] by (auto simp: in_set_conv_nth)
  ultimately show ?thesis
    by (auto simp: shared_versions_def)
qed

definition demo_va :: version where "demo_va = Version 1 1 False demo_name [7]"
definition demo_vb :: version where "demo_vb = Version 2 2 True demo_name []"

lemma demo_reachable: "swarm_reachable {1, 2} demo_swarm"
proof -
  have ok: "op_ok (SetShared demo_name [9, 9] 2)" "op_ok (SetShared demo_name [7] 1)" "op_ok (RemoveShared demo_name)"
    by code_simp+
  have clk: "sm_local_timestamp (demo_node n) \<noteq> UINT64_MAX" if "n \<noteq> 0" for n
    using that
    by (simp add: demo_node_def fleece_state_manager_create_with_node_id_def)
  have clk2: "sm_local_timestamp (run_op (\<lambda>_. True) (SetShared demo_name [9, 9] 2) (demo_node 2)) \<noteq> UINT64_MAX"
    by code_simp
  have i: "swarm_reachable {1, 2} (swarm_init {1, 2})" by (rule init)
  have s1: "swarm_reachable {1, 2} (publish (swarm_init {1, 2}) 1 demo_a)"
    unfolding demo_a_def by (rule step [OF i]) (rule local_op [OF _ _ ok(2)]; simp add: swarm_init_def create_demo clk)
  have s2: "swarm_reachable {1, 2} (publish (publish (swarm_init {1, 2}) 1 demo_a) 
      2 (run_op (\<lambda>_. True) (SetShared demo_name [9, 9] 2) (demo_node 2)))"
    by (rule step [OF s1]) (rule local_op [OF _ _ ok(1)]; simp add: swarm_init_def publish_def create_demo clk)
  show ?thesis unfolding demo_swarm_def demo_b_def
    by (rule step [OF s2]) (rule local_op [OF _ clk2 ok(3)]; simp add: publish_def)
qed
lemma demo_nodes: "sw_nodes demo_swarm 1 = Some demo_a" "sw_nodes demo_swarm 2 = Some demo_b"
  by (simp_all add: demo_swarm_def publish_def)

lemma demo_inv: "sm_inv demo_a" "sm_inv demo_b"
  using swarm_reachable_inv [OF demo_reachable] demo_nodes by (auto simp: swarm_inv_def node_inv_def)

lemma demo_versions: "shared_versions demo_a = {demo_va}" "shared_versions demo_b = {demo_vb}"
  unfolding shared_versions_code [OF demo_inv(1)] shared_versions_code [OF demo_inv(2)]
  by code_simp+

lemma demo_hist: "{demo_va, demo_vb} \<subseteq> sw_hist demo_swarm"
  using demo_versions by (auto simp: demo_swarm_def publish_def)

lemma demo_accepts:
  "accepts_all (accepts_version (\<lambda>_. True)) (deliver_version (\<lambda>_. True)) demo_a [demo_vb]"
  "accepts_all (accepts_version (\<lambda>_. True)) (deliver_version (\<lambda>_. True)) demo_b [demo_va]"
proof -
  have "wire_version demo_va" "wire_version demo_vb"
    by (simp_all add: wire_version_def demo_va_def demo_vb_def demo_name_def cstring_def)
  moreover have "fst (merge_version (\<lambda>_. True) demo_a demo_vb) = 0"
    "fst (merge_version (\<lambda>_. True) demo_b demo_va) = 0"
    by code_simp+
  ultimately show
    "accepts_all (accepts_version (\<lambda>_. True)) (deliver_version (\<lambda>_. True)) demo_a [demo_vb]"
    "accepts_all (accepts_version (\<lambda>_. True)) (deliver_version (\<lambda>_. True)) demo_b [demo_va]"
    by (simp_all add: accepts_version_def)
qed

theorem swarm_converges_witness:
  "(\<forall>k. view (deliver_version (\<lambda>_. True) demo_a demo_vb) (FLEECE_SHARED_OWNER_ID, k) =
      view (deliver_version (\<lambda>_. True) demo_b demo_va) (FLEECE_SHARED_OWNER_ID, k)) \<and>
    compute_stream_digest (deliver_version (\<lambda>_. True) demo_a demo_vb) FLEECE_SHARED_OWNER_ID =
    compute_stream_digest (deliver_version (\<lambda>_. True) demo_b demo_va) FLEECE_SHARED_OWNER_ID"
  using swarm_converges [OF demo_reachable demo_nodes, of "[demo_vb]" "[demo_va]" "\<lambda>_. True"]
    demo_hist demo_accepts demo_versions by (simp add: insert_commute)

theorem swarm_stamps_unique_witness:
  "sm_inv demo_a \<and> sm_inv demo_b \<and> sm_node_id demo_b = 2 \<and> wire_version demo_va \<and> stamp demo_va \<noteq> stamp demo_vb"
proof -
  have "demo_va \<noteq> demo_vb" by (simp add: demo_va_def demo_vb_def)
  then show ?thesis
    using swarm_stamps_unique [OF demo_reachable] demo_nodes demo_hist by (auto simp: stamp_def)
qed

text \<open>The deletion marker of node 2 survives the delivery of node 1's older value.\<close>

theorem swarm_no_resurrection_witness:
  "\<exists>m' w. sw_nodes (publish demo_swarm 2 (deliver_version (\<lambda>_. True) demo_b demo_va)) 2 = Some m' \<and>
    view m' (FLEECE_SHARED_OWNER_ID, hash_name demo_name) = Some w \<and> (w = demo_vb \<or> stamp demo_vb < stamp w)"
  by (rule swarm_no_resurrection [OF demo_reachable deliver [OF demo_nodes(2)] demo_nodes(2)])
    (use demo_hist in simp, code_simp)

end
