(* ===== verification/Store_Claims.thy ===== *)
theory Store_Claims
  imports Swarm
begin

text \<open>
  The functional behaviour of the store's operations on every branch: reads after writes, deletes,
  compare-and-swap, the listings, peer liveness, compaction.
\<close>

section \<open>Reads over the view\<close>

definition live_value :: "FleeceStateManager \<Rightarrow> u64 \<Rightarrow> u32 \<Rightarrow> bytes option" where
  "live_value m ow k =
     (case view m (ow, k) of
        None \<Rightarrow> None
      | Some v \<Rightarrow> if v_tomb v then None else Some (v_data v))"

lemma find_field_owned_view:
  assumes inv: "sm_inv m"
  shows "case find_field_owned m k ow of
      None \<Rightarrow> live_value m ow k = None
    | Some i \<Rightarrow> live_value m ow k = Some (pointee (fe_data (sm_fields m ! i))) \<and>
        length (pointee (fe_data (sm_fields m ! i))) = unat (fe_size (sm_fields m ! i)) \<and>
        fe_size (sm_fields m ! i) \<noteq> 0"
proof (cases "find_slot_owned m k ow")
  case None
  then show ?thesis by (simp add: find_field_owned_def live_value_def view_def)
next
  case (Some i)
  have "field_ok (sm_fields m ! i)"
    using find_slotD(1) [OF inv Some] sm_invD(4) [OF inv] by blast
  then show ?thesis
    using Some by (auto simp: find_field_owned_def live_value_def view_def version_of_def field_ok_def
        pointee_def split: if_splits)
qed

lemma get_named_live:
  assumes inv: "sm_inv m"
  shows "fleece_state_manager_get_named A m ow (Some s) =
    (case live_value m ow (hash_name s) of
       None \<Rightarrow> None
     | Some d \<Rightarrow> if A (length d) then Some (d, of_nat (length d)) else None)"
  using find_field_owned_view [OF inv, of ow "hash_name s"]
  by (auto simp: fleece_state_manager_get_named_def copy_out_def Let_def split: option.splits)

lemma exists_named_live:
  assumes inv: "sm_inv m"
  shows "fleece_state_manager_exists_named m ow (Some s) \<longleftrightarrow> live_value m ow (hash_name s) \<noteq> None"
  using find_field_owned_view [OF inv, of ow "hash_name s"]
  by (auto simp: fleece_state_manager_exists_named_def split: option.splits)

section \<open>Writes\<close>

lemma size_roundtrip: "unat (sz :: u32) \<le> length d \<Longrightarrow> (of_nat (length (take (unat sz) d)) :: u32) = sz"
  by simp

lemma shared_write:
  assumes inv: "sm_inv m" and clk: "sm_local_timestamp m \<noteq> UINT64_MAX"
    and s: "s \<noteq> []" "cstring s" and d: "sz \<noteq> 0" "unat sz \<le> length d"
    and op: "fleece_state_manager_set_shared A m (Some s) (Some d) sz = (rc, m')"
  shows "rc = 0 \<longleftrightarrow> A (unat sz) \<and> (view m (FLEECE_SHARED_OWNER_ID, hash_name s) \<noteq> None \<or> sm_field_count m < FIELD_CAPACITY)"
    and "sm_inv m'"
    and "rc = 0 \<Longrightarrow> view m' = (view m)((FLEECE_SHARED_OWNER_ID, hash_name s) \<mapsto>
        Version (sm_local_timestamp m + 1) (sm_node_id m) False (take (FLEECE_FIELD_NAME_MAX - 1) s) (take (unat sz) d))"
    and "rc \<noteq> 0 \<Longrightarrow> rc = -1 \<and> view m' = view m"
    and "sm_last_write_tick m' = sm_current_tick m"
proof -
  let ?m = "m\<lparr>sm_last_write_tick := sm_current_tick m\<rparr>"
  have inv0: "sm_inv ?m" and clk0: "sm_local_timestamp ?m \<noteq> UINT64_MAX" using inv clk by simp_all
  have up: "upsert_field A (bump_clock ?m) (hash_name s) 0 (sm_node_id ?m) (Some s) (Some d) sz
      (sm_local_timestamp ?m + 1) False = (rc, m')"
    using op s d by (simp add: fleece_state_manager_set_shared_def Let_def)
  have pay: "valid_payload (Some d) sz False" using d by (simp add: valid_payload_def word_neq_0_conv)
  have nm: "\<And>t. Some s = Some t \<Longrightarrow> cstring t" using s by simp
  note W = local_write [OF inv0 clk0 pay nm up]
  show "sm_inv m'" by (rule W(1))
  show "rc = 0 \<Longrightarrow> view m' = (view m)((0, hash_name s) \<mapsto>
        Version (sm_local_timestamp m + 1) (sm_node_id m) False (take (FLEECE_FIELD_NAME_MAX - 1) s) (take (unat sz) d))"
    using W(2) by (simp add: stored_name_def)
  show "rc \<noteq> 0 \<Longrightarrow> rc = -1 \<and> view m' = view m" using W(3) by auto
  show "sm_last_write_tick m' = sm_current_tick m" using upsert_frame [OF up] by simp
  show "rc = 0 \<longleftrightarrow> A (unat sz) \<and> (view m (0, hash_name s) \<noteq> None \<or> sm_field_count m < FIELD_CAPACITY)"
    using upsert_ok_iff [OF bump_clock_inv [OF inv0 clk0], of A "hash_name s" 0 "sm_node_id m" "Some s" "Some d" sz
        "sm_local_timestamp m + 1" False] up by simp
qed

text \<open>
  A write of a shared field is read back.  With a name, data and a non-zero size the
  operation either returns 0 (the getter then hands out exactly the bytes written, and nothing
  else in the store changed) or returns -1 with every field unchanged, and it does so exactly
  when the allocator refuses or the field is new and the array is full.
\<close>

theorem set_shared_get:
  assumes inv: "sm_inv m" and clk: "sm_local_timestamp m \<noteq> UINT64_MAX"
    and s: "s \<noteq> []" "cstring s" and d: "sz \<noteq> 0" "unat sz \<le> length d"
    and op: "fleece_state_manager_set_shared A m (Some s) (Some d) sz = (rc, m')"
  shows "(rc = 0 \<longleftrightarrow> A (unat sz) \<and>
        (view m (FLEECE_SHARED_OWNER_ID, hash_name s) \<noteq> None \<or> sm_field_count m < FIELD_CAPACITY)) \<and>
    (rc = 0 \<longrightarrow>
      fleece_state_manager_get_named A' m' FLEECE_SHARED_OWNER_ID (Some s) =
        (if A' (unat sz) then Some (take (unat sz) d, sz) else None) \<and>
      fleece_state_manager_get_meta_named m' FLEECE_SHARED_OWNER_ID (Some s) =
        (0, Some (sm_local_timestamp m + 1, sm_node_id m)) \<and>
      (\<forall>p. p \<noteq> (FLEECE_SHARED_OWNER_ID, hash_name s) \<longrightarrow> view m' p = view m p)) \<and>
    (rc \<noteq> 0 \<longrightarrow> rc = -1 \<and> view m' = view m) \<and>
    sm_last_write_tick m' = sm_current_tick m"
proof -
  note W = shared_write [OF inv clk s d op]
  have "fleece_state_manager_get_named A' m' 0 (Some s) = (if A' (unat sz) then Some (take (unat sz) d, sz) else None) \<and>
      fleece_state_manager_get_meta_named m' 0 (Some s) = (0, Some (sm_local_timestamp m + 1, sm_node_id m))" if "rc = 0"
  proof -
    note V = W(3) [OF that]
    have live: "live_value m' 0 (hash_name s) = Some (take (unat sz) d)"
      by (simp add: live_value_def V)
    obtain i where i: "find_slot_owned m' (hash_name s) 0 = Some i"
      "fe_timestamp (sm_fields m' ! i) = sm_local_timestamp m + 1"
      "fe_origin_node_id (sm_fields m' ! i) = sm_node_id m" "\<not> fe_is_tombstone (sm_fields m' ! i)"
      using V by (auto simp: view_def version_of_def dest!: fun_cong [where x = "(0, hash_name s)"])
    show ?thesis
      using get_named_live [OF W(2)] live size_roundtrip [OF d(2)] d(2) i
      by (auto simp: min_def fleece_state_manager_get_meta_named_def find_field_owned_def)
  qed
  then show ?thesis using W by auto
qed

text \<open>The comparison of a compare-and-swap is a comparison with the live value.\<close>

lemma cas_mismatch:
  assumes inv: "sm_inv m" and e: "\<And>x. e = Some x \<Longrightarrow> unat esz \<le> length x"
  shows "(case e of None \<Rightarrow> find_field_owned m k ow \<noteq> None | Some x \<Rightarrow> (case find_field_owned m k ow of None \<Rightarrow> True
     | Some i \<Rightarrow> fe_size (sm_fields m ! i) \<noteq> esz \<or>
         take (unat esz) (pointee (fe_data (sm_fields m ! i))) \<noteq> take (unat esz) x))
    \<longleftrightarrow> live_value m ow k \<noteq> map_option (take (unat esz)) e"
proof (cases "find_field_owned m k ow")
  case None
  then show ?thesis using find_field_owned_view [OF inv, of ow k] by (auto split: option.splits)
next
  case (Some i)
  let ?p = "pointee (fe_data (sm_fields m ! i))"
  have live: "live_value m ow k = Some ?p" "length ?p = unat (fe_size (sm_fields m ! i))"
    using find_field_owned_view [OF inv, of ow k] Some by simp_all
  have "(fe_size (sm_fields m ! i) \<noteq> esz \<or> take (unat esz) ?p \<noteq> take (unat esz) x) \<longleftrightarrow> ?p \<noteq> take (unat esz) x"
    if "unat esz \<le> length x" for x
  proof (cases "fe_size (sm_fields m ! i) = esz")
    case False
    then have "length ?p \<noteq> unat esz" using live(2) by (simp add: word_unat_eq_iff)
    then show ?thesis using that False by auto
  qed (use live(2) in simp)
  then show ?thesis using Some live(1) e by (cases e) auto
qed

lemma shared_cas:
  assumes inv: "sm_inv m" and clk: "sm_local_timestamp m \<noteq> UINT64_MAX"
    and s: "s \<noteq> []" "cstring s" and d: "sz \<noteq> 0" "unat sz \<le> length d"
    and e: "\<And>x. e = Some x \<Longrightarrow> unat esz \<le> length x"
    and op: "fleece_state_manager_set_shared_cas A m (Some s) e esz (Some d) sz = (rc, m')"
  shows "sm_inv m'" and "sm_node_id m' = sm_node_id m" and "sm_peers_seen m' = sm_peers_seen m"
    and "sm_current_tick m' = sm_current_tick m"
    and "sm_local_timestamp m' = (if rc = 1 then sm_local_timestamp m else sm_local_timestamp m + 1)"
    and "rc = 1 \<longleftrightarrow> live_value m FLEECE_SHARED_OWNER_ID (hash_name s) \<noteq> map_option (take (unat esz)) e"
    and "rc = 1 \<Longrightarrow> m' = m"
    and "rc = 0 \<longleftrightarrow> rc \<noteq> 1 \<and> A (unat sz) \<and>
      (view m (FLEECE_SHARED_OWNER_ID, hash_name s) \<noteq> None \<or> sm_field_count m < FIELD_CAPACITY)"
    and "rc = 0 \<Longrightarrow> view m' = (view m)((FLEECE_SHARED_OWNER_ID, hash_name s) \<mapsto>
        Version (sm_local_timestamp m + 1) (sm_node_id m) False (take (FLEECE_FIELD_NAME_MAX - 1) s) (take (unat sz) d))"
    and "rc \<noteq> 0 \<Longrightarrow> view m' = view m" and "rc = 0 \<or> rc = 1 \<or> rc = -1"
proof -
  let ?mis = "live_value m 0 (hash_name s) \<noteq> map_option (take (unat esz)) e"
    and ?cur = "find_field_owned m (hash_name s) 0"
  obtain rc1 m1 where up: "upsert_field A (bump_clock m) (hash_name s) 0 (sm_node_id m) (Some s) (Some d) sz
      (sm_local_timestamp m + 1) False = (rc1, m1)" by fastforce
  have "(rc, m') = (if (case e of None \<Rightarrow> ?cur \<noteq> None | Some x \<Rightarrow> (case ?cur of None \<Rightarrow> True
       | Some i \<Rightarrow> fe_size (sm_fields m ! i) \<noteq> esz \<or>
           take (unat esz) (pointee (fe_data (sm_fields m ! i))) \<noteq> take (unat esz) x))
      then (1, m) else if rc1 \<noteq> 0 then (-1, m1) else (0, m1\<lparr>sm_last_write_tick := sm_current_tick m1\<rparr>))"
    using op s d up by (auto simp: fleece_state_manager_set_shared_cas_def Let_def split: option.splits if_splits)
  then have res: "(rc, m') = (if ?mis then (1, m) else if rc1 \<noteq> 0 then (-1, m1)
      else (0, m1\<lparr>sm_last_write_tick := sm_current_tick m1\<rparr>))"
    by (subst (asm) cas_mismatch [OF inv]) (simp_all add: e)
  have pay: "valid_payload (Some d) sz False" using d by (simp add: valid_payload_def word_neq_0_conv)
  have nm: "\<And>t. Some s = Some t \<Longrightarrow> cstring t" using s by simp
  note W = local_write [OF inv clk pay nm up] and F = upsert_frame [OF up]
  have ok: "rc1 = 0 \<longleftrightarrow> A (unat sz) \<and> (view m (0, hash_name s) \<noteq> None \<or> sm_field_count m < FIELD_CAPACITY)"
    using upsert_ok_iff [OF bump_clock_inv [OF inv clk], of A "hash_name s" 0 "sm_node_id m" "Some s" "Some d" sz
        "sm_local_timestamp m + 1" False] up by simp
  show "sm_inv m'" and "sm_node_id m' = sm_node_id m" and "sm_peers_seen m' = sm_peers_seen m"
    and "sm_current_tick m' = sm_current_tick m"
    and "sm_local_timestamp m' = (if rc = 1 then sm_local_timestamp m else sm_local_timestamp m + 1)"
    and "rc = 1 \<longleftrightarrow> ?mis" and "rc = 1 \<Longrightarrow> m' = m"
    and "rc = 0 \<longleftrightarrow> rc \<noteq> 1 \<and> A (unat sz) \<and> (view m (0, hash_name s) \<noteq> None \<or> sm_field_count m < FIELD_CAPACITY)"
    and "rc = 0 \<Longrightarrow> view m' = (view m)((0, hash_name s) \<mapsto>
        Version (sm_local_timestamp m + 1) (sm_node_id m) False (take (FLEECE_FIELD_NAME_MAX - 1) s) (take (unat sz) d))"
    and "rc \<noteq> 0 \<Longrightarrow> view m' = view m" and "rc = 0 \<or> rc = 1 \<or> rc = -1"
    using res W F inv ok by (auto simp: stored_name_def split: if_splits)
qed

text \<open>
  Compare-and-swap.  With a usable name and new value, the operation returns 1 and changes
  nothing exactly when the field's live value differs from the expected one ("absent" being
  expected when no expected value is given); otherwise it either installs the new value under a
  fresh stamp of this node or reports -1 with every field unchanged.
\<close>

theorem set_shared_cas_spec:
  assumes inv: "sm_inv m" and clk: "sm_local_timestamp m \<noteq> UINT64_MAX"
    and s: "s \<noteq> []" "cstring s" and d: "sz \<noteq> 0" "unat sz \<le> length d"
    and e: "\<And>x. e = Some x \<Longrightarrow> unat esz \<le> length x"
    and op: "fleece_state_manager_set_shared_cas A m (Some s) e esz (Some d) sz = (rc, m')"
  shows "(rc = 1 \<longleftrightarrow> live_value m FLEECE_SHARED_OWNER_ID (hash_name s) \<noteq> map_option (take (unat esz)) e) \<and>
    (rc = 1 \<longrightarrow> m' = m) \<and>
    (rc = 0 \<longrightarrow> sm_inv m' \<and>
      view m' = (view m)((FLEECE_SHARED_OWNER_ID, hash_name s) \<mapsto>
        Version (sm_local_timestamp m + 1) (sm_node_id m) False (take (FLEECE_FIELD_NAME_MAX - 1) s) (take (unat sz) d))) \<and>
    (rc \<noteq> 0 \<and> rc \<noteq> 1 \<longrightarrow> rc = -1 \<and> view m' = view m)"
  using shared_cas [OF inv clk s d e op] by auto

text \<open>
  Deletion of a shared field.  If the field is live the operation returns 0, the field no
  longer reads as existing, and a deletion marker under a fresh stamp of the deleter (newer than
  any stamp in the store) takes its place; if it is not live the call returns -1 and changes
  nothing.  No other field changes.
\<close>

theorem remove_shared_spec:
  assumes inv: "sm_inv m" and clk: "sm_local_timestamp m \<noteq> UINT64_MAX"
    and op: "fleece_state_manager_remove_shared m (Some s) = (rc, m')"
  shows "(fleece_state_manager_exists_named m FLEECE_SHARED_OWNER_ID (Some s) \<longrightarrow>
      rc = 0 \<and> sm_inv m' \<and> \<not> fleece_state_manager_exists_named m' FLEECE_SHARED_OWNER_ID (Some s) \<and>
      (\<exists>v. view m' = (view m)((FLEECE_SHARED_OWNER_ID, hash_name s) \<mapsto> v) \<and> v_tomb v \<and>
        v_origin v = sm_node_id m \<and> (\<forall>p w. view m p = Some w \<longrightarrow> v_ts w < v_ts v))) \<and>
    (\<not> fleece_state_manager_exists_named m FLEECE_SHARED_OWNER_ID (Some s) \<longrightarrow> rc = -1 \<and> m' = m)"
proof (cases "find_field_owned m (hash_name s) 0")
  case None
  then show ?thesis
    using op by (auto simp: fleece_state_manager_remove_shared_def fleece_state_manager_exists_named_def)
next
  case (Some i)
  obtain v where v: "view m (0, hash_name s) = Some v"
    using find_field_ownedD [OF Some] by (simp add: view_def)
  note R = remove_shared_view [OF inv clk Some v op]
  have "v_ts w < sm_local_timestamp m + 1" if w: "view m p = Some w" for p w
  proof -
    obtain ow k where p: "p = (ow, k)" by (cases p)
    have "v_ts w \<le> sm_local_timestamp m"
      using w view_Some_iff [OF inv] sm_invD(5) [OF inv] unfolding p by (auto simp: version_of_def)
    then show ?thesis using u64_less_Suc [OF clk] by (rule le_less_trans)
  qed
  moreover have "\<not> fleece_state_manager_exists_named m' 0 (Some s)"
    using R(5) by (simp add: exists_named_live [OF R(2)] live_value_def)
  moreover have "fleece_state_manager_exists_named m 0 (Some s)"
    using Some by (simp add: fleece_state_manager_exists_named_def)
  ultimately show ?thesis
    using R by auto
qed

section \<open>Listings\<close>

definition owner_live :: "FieldEntry \<Rightarrow> bool" where
  "owner_live f \<longleftrightarrow> fe_exists f \<and> \<not> fe_is_tombstone f \<and> fe_node_id f \<noteq> FLEECE_SHARED_OWNER_ID"

lemma list_nodes_loop_set:
  "distinct out \<Longrightarrow> length out \<le> n \<Longrightarrow>
   distinct (list_nodes_loop fs n out) \<and> length (list_nodes_loop fs n out) \<le> n \<and>
   set out \<subseteq> set (list_nodes_loop fs n out) \<and>
   set (list_nodes_loop fs n out) \<subseteq> set out \<union> fe_node_id ` {f \<in> set fs. owner_live f} \<and>
   (length (list_nodes_loop fs n out) < n \<longrightarrow>
     set (list_nodes_loop fs n out) = set out \<union> fe_node_id ` {f \<in> set fs. owner_live f})"
proof (induction fs arbitrary: out)
  case Nil
  then show ?case by simp
next
  case (Cons f fs)
  show ?case
  proof (cases "length out \<ge> n")
    case True
    then show ?thesis using Cons.prems by simp
  next
    case False
    show ?thesis
    proof (cases "\<not> owner_live f \<or> fe_node_id f \<in> set out")
      case True
      then have "list_nodes_loop (f # fs) n out = list_nodes_loop fs n out"
        using False by (auto simp: owner_live_def)
      moreover have "set out \<union> fe_node_id ` {g \<in> set (f # fs). owner_live g} =
          set out \<union> fe_node_id ` {g \<in> set fs. owner_live g}"
        using True by auto
      ultimately show ?thesis using Cons.IH [OF Cons.prems] by simp
    next
      case new: False
      then have run: "list_nodes_loop (f # fs) n out = list_nodes_loop fs n (out @ [fe_node_id f])"
        using False by (auto simp: owner_live_def)
      have sets: "set (out @ [fe_node_id f]) \<union> fe_node_id ` {g \<in> set fs. owner_live g} =
          set out \<union> fe_node_id ` {g \<in> set (f # fs). owner_live g}"
        using new by auto
      have "distinct (out @ [fe_node_id f])" "length (out @ [fe_node_id f]) \<le> n"
        using new False Cons.prems by simp_all
      from Cons.IH [OF this] show ?thesis
        unfolding run sets by simp
    qed
  qed
qed

text \<open>
  Listing the nodes: no duplicates, never the reserved shared id, never more than the caller's
  array holds, only owners of live fields; and when the array is not filled, all of them.
\<close>

theorem list_nodes_spec:
  "let out = fleece_state_manager_list_nodes m n in
   distinct out \<and> length out \<le> unat n \<and> FLEECE_SHARED_OWNER_ID \<notin> set out \<and>
   set out \<subseteq> fe_node_id ` {f \<in> set (sm_fields m). owner_live f} \<and>
   (length out < unat n \<longrightarrow> set out = fe_node_id ` {f \<in> set (sm_fields m). owner_live f})"
proof (cases "n = 0")
  case True
  then show ?thesis by (simp add: fleece_state_manager_list_nodes_def)
next
  case False
  have "0 \<notin> fe_node_id ` {f \<in> set (sm_fields m). owner_live f}"
    by (auto simp: owner_live_def)
  then show ?thesis
    using False list_nodes_loop_set [of "[]" "unat n" "sm_fields m"]
    by (auto simp: fleece_state_manager_list_nodes_def Let_def)
qed


section \<open>Peer liveness\<close>

definition knows_peer :: "FleeceStateManager \<Rightarrow> u64 \<Rightarrow> bool" where
  "knows_peer m p \<longleftrightarrow> (\<exists>q\<in>set (sm_peers_seen m). ps_exists q \<and> ps_node_id q = p)"

lemma index_of_update:
  assumes "index_of P xs = None" and "index_of Q xs = Some i" and "P y"
  shows "index_of P (xs[i := y]) = Some i"
proof (rule index_of_unique)
  show "i < length (xs[i := y])" and "P (xs[i := y] ! i)"
    using assms index_of_SomeD [OF assms(2)] by simp_all
  show "j = i" if "j < length (xs[i := y])" "P (xs[i := y] ! j)" for j
    using that assms(1) by (cases "j = i") (auto simp: index_of_None_nth)
qed

lemma touch_peer_slot:
  assumes p: "p \<noteq> sm_node_id m" "p \<noteq> FLEECE_SHARED_OWNER_ID"
    and room: "knows_peer m p \<or> (\<exists>q\<in>set (sm_peers_seen m). \<not> ps_exists q)"
  shows "\<exists>i. index_of (\<lambda>q. ps_exists q \<and> ps_node_id q = p) (sm_peers_seen (touch_peer m p)) = Some i \<and>
    ps_last_seen_tick (sm_peers_seen (touch_peer m p) ! i) = sm_current_tick m"
proof (cases "index_of (\<lambda>q. ps_exists q \<and> ps_node_id q = p) (sm_peers_seen m)")
  case None
  then obtain i where i: "index_of (\<lambda>q. \<not> ps_exists q) (sm_peers_seen m) = Some i"
    using room unfolding knows_peer_def by (cases "index_of (\<lambda>q. \<not> ps_exists q) (sm_peers_seen m)") (auto simp: index_of_None_iff)
  then show ?thesis
    using p None index_of_update [OF None i, of "\<lparr>ps_node_id = p, ps_last_seen_tick = sm_current_tick m, ps_exists = True\<rparr>"]
    by (auto simp: touch_peer_def)
next
  case (Some i)
  let ?q = "(sm_peers_seen m ! i)\<lparr>ps_last_seen_tick := sm_current_tick m\<rparr>"
  have D: "i < length (sm_peers_seen m)" "ps_exists (sm_peers_seen m ! i)" "ps_node_id (sm_peers_seen m ! i) = p"
    using index_of_SomeD [OF Some] by auto
  have "index_of (\<lambda>q. ps_exists q \<and> ps_node_id q = p) ((sm_peers_seen m)[i := ?q]) = Some i"
    using Some D by (subst index_of_cong [of _ "sm_peers_seen m"]) (auto simp: nth_list_update)
  then show ?thesis
    using p Some D by (auto simp: touch_peer_def)
qed

lemma ticks_peers: "sm_peers_seen ((fleece_state_manager_tick ^^ n) m) = sm_peers_seen m \<and>
    sm_current_tick ((fleece_state_manager_tick ^^ n) m) = sm_current_tick m + of_nat n"
  by (induction n) (simp_all add: fleece_state_manager_tick_def)

text \<open>
  Peer liveness: after hearing from a peer (neither itself nor the reserved id) that it
  already tracks or has a free entry for, the node reports exactly the number of its own ticks
  since then, modulo 2 to the 64th; a peer it never heard is reported at the maximal distance.
\<close>

theorem ticks_since_seen_spec:
  assumes p: "p \<noteq> sm_node_id m" "p \<noteq> FLEECE_SHARED_OWNER_ID"
  shows "(knows_peer m p \<or> (\<exists>q\<in>set (sm_peers_seen m). \<not> ps_exists q) \<longrightarrow>
      fleece_state_manager_ticks_since_seen ((fleece_state_manager_tick ^^ n) (touch_peer m p)) p = of_nat n) \<and>
    (\<not> knows_peer m p \<longrightarrow> fleece_state_manager_ticks_since_seen m p = UINT64_MAX)"
proof -
  have "fleece_state_manager_ticks_since_seen ((fleece_state_manager_tick ^^ n) (touch_peer m p)) p = of_nat n"
    if "knows_peer m p \<or> (\<exists>q\<in>set (sm_peers_seen m). \<not> ps_exists q)"
    using touch_peer_slot [OF p that] ticks_peers [of n "touch_peer m p"]
    by (auto simp: fleece_state_manager_ticks_since_seen_def)
  moreover have "fleece_state_manager_ticks_since_seen m p = UINT64_MAX" if "\<not> knows_peer m p"
  proof -
    have "index_of (\<lambda>q. ps_exists q \<and> ps_node_id q = p) (sm_peers_seen m) = None"
      using that by (auto simp: index_of_None_iff knows_peer_def)
    then show ?thesis by (simp add: fleece_state_manager_ticks_since_seen_def)
  qed
  ultimately show ?thesis by blast
qed

section \<open>Compaction\<close>

text \<open>
  Compaction forgets no deletion that peers could still have to learn about: a store whose
  deletion markers all belong to named fields, the only fields that travel, is left as it is.
\<close>

theorem compact_keeps_named:
  assumes "sm_inv m"
    and "\<forall>ow k v. view m (ow, k) = Some v \<longrightarrow> v_tomb v \<longrightarrow> v_name v \<noteq> []"
  shows "fleece_state_manager_compact m = (0, m)"
proof (rule compact_named [OF assms(1)], intro allI impI)
  fix i
  assume "i < sm_field_count m"
  then have "view m (fe_node_id (sm_fields m ! i), fe_key (sm_fields m ! i)) = Some (version_of (sm_fields m ! i))"
    using view_Some_iff [OF assms(1)] by blast
  then show "\<not> fe_is_tombstone (sm_fields m ! i) \<or> fe_name (sm_fields m ! i) \<noteq> []"
    using assms(2) by (fastforce simp: version_of_def)
qed

text \<open>
  C38. Compaction can lose a later value.  Let the last used slot hold an unnamed deletion marker of the node's own, and let it be the
  only unnamed marker.  Compaction leaves the slot marked as used but does not count it.  A later write of the same raw key goes into that
  slot and is read back, but the next key that is new to the store is given the same slot: its write succeeds and
  the value under the first key is gone.
\<close>

theorem compact_then_write_loses_value:
  assumes inv: "sm_inv m" and last: "sm_field_count m = Suc i"
    and marker: "fe_is_tombstone (sm_fields m ! i)" "fe_name (sm_fields m ! i) = []" "fe_node_id (sm_fields m ! i) = sm_node_id m"
    and others: "\<forall>j<i. \<not> fe_is_tombstone (sm_fields m ! j) \<or> fe_name (sm_fields m ! j) \<noteq> []"
    and k: "k = fe_key (sm_fields m ! i)" and new: "view m (sm_node_id m, k') = None"
    and data: "sz \<noteq> 0" "length d = unat sz" "sz' \<noteq> 0" and A: "\<forall>n. A n"
    and m1: "m1 = snd (fleece_state_manager_compact m)"
    and m2: "fleece_state_manager_set A m1 k (Some d) sz = (rc2, m2)"
    and m3: "fleece_state_manager_set A m2 k' (Some d') sz' = (rc3, m3)"
  shows "rc2 = 0 \<and> fleece_state_manager_get A m2 k = Some (d, sz) \<and> rc3 = 0 \<and> fleece_state_manager_get A m3 k = None"
proof -
  let ?own = "\<lambda>k f. fe_exists f \<and> fe_key f = k \<and> fe_node_id f = sm_node_id m"
  have i: "i < FIELD_CAPACITY" "length (sm_fields m) = FIELD_CAPACITY" using sm_invD(1,2) [OF inv] last by auto
  have slot: "?own k (sm_fields m ! j) \<longleftrightarrow> j = i" if "j < FIELD_CAPACITY" for j
    using sm_invD(3) [OF inv that] sm_invD(3) [OF inv i(1)] sm_inv_unique [OF inv, of j i] marker(3) last by (auto simp: k)
  have no: "\<not> ?own k' (sm_fields m ! j)" if "j < FIELD_CAPACITY" for j
    using new that i(2) by (auto simp: view_def find_slot_owned_def index_of_None_nth split: option.splits)
  then have ne: "k' \<noteq> k" using slot [of i] i(1) by blast
  have c: "m1 = m\<lparr>sm_field_count := i\<rparr>"
    unfolding m1 using compact_kept [OF inv, of i] last marker others by (auto simp: less_Suc_eq)
  define f where "f = write_slot (sm_node_id m) (sm_node_id m) None (Some d) sz (sm_local_timestamp m + 1) False (sm_fields m ! i)"
  have f: "fe_exists f" "fe_key f = k" "fe_node_id f = sm_node_id m" "\<not> fe_is_tombstone f" "fe_data f = Some d" "fe_size f = sz"
    using slot [of i] i by (simp_all add: f_def write_slot_def)
  have "index_of (?own k) (sm_fields m) = Some i" using slot i by (intro index_of_unique) auto
  then have s2: "rc2 = 0" "m2 = (bump_clock m1)\<lparr>sm_fields := (sm_fields m)[i := f]\<rparr>"
    using m2 data A by (auto simp: c f_def fleece_state_manager_set_def upsert_field_def find_slot_owned_def bump_clock_def pointee_def Let_def)
  have "index_of (?own k) ((sm_fields m)[i := f]) = Some i"
    using slot i f by (intro index_of_unique) (auto simp: nth_list_update split: if_splits)
  then have "fleece_state_manager_get A m2 k = Some (d, sz)"
    using s2 f i data A by (simp add: c fleece_state_manager_get_def find_field_def find_field_owned_def find_slot_owned_def copy_out_def
        bump_clock_def pointee_def Let_def)
  moreover have "index_of (?own k') ((sm_fields m)[i := f]) = None"
    using no ne f i by (auto simp: index_of_None_nth nth_list_update)
  then obtain g where s3: "rc3 = 0" "sm_fields m3 = (sm_fields m)[i := g]" "fe_key g = k'" "sm_node_id m3 = sm_node_id m"
    using m3 data A i by (auto simp: s2 c fleece_state_manager_set_def upsert_field_def find_slot_owned_def bump_clock_def write_slot_def Let_def)
  then have "index_of (?own k) (sm_fields m3) = None"
    using slot i ne by (auto simp: index_of_None_nth nth_list_update)
  then have "fleece_state_manager_get A m3 k = None"
    using s3(4) by (simp add: fleece_state_manager_get_def find_field_def find_field_owned_def find_slot_owned_def copy_out_def)
  ultimately show ?thesis using s2(1) s3(1) by blast
qed

text \<open>A node that uses raw keys and has deleted the last one.\<close>

definition compact_demo :: FleeceStateManager where
  "compact_demo =
     (let A = \<lambda>_. True;
          m = demo_node 7;
          m = snd (fleece_state_manager_set A m 1 (Some [1]) 1);
          m = snd (fleece_state_manager_set A m 2 (Some [2]) 1)
      in snd (fleece_state_manager_remove m 2))"

section \<open>Concrete stores\<close>

lemma demo_clock: "sm_local_timestamp demo_a \<noteq> UINT64_MAX" "sm_local_timestamp demo_b \<noteq> UINT64_MAX"
  by code_simp+

theorem set_shared_get_witness:
  "fleece_state_manager_get_named (\<lambda>_. True) (snd (fleece_state_manager_set_shared (\<lambda>_. True) demo_a (Some [98]) (Some [5, 6]) 2))
     FLEECE_SHARED_OWNER_ID (Some [98]) = Some ([5, 6], 2)"
proof -
  have "sm_field_count demo_a < FIELD_CAPACITY" by code_simp
  then show ?thesis
    using set_shared_get [OF demo_inv(1) demo_clock(1), of "[98]" 2 "[5, 6]" "\<lambda>_. True", OF _ _ _ _ prod.collapse [symmetric]]
    by (simp add: cstring_def)
qed

lemma raw_set_inv:
  assumes "sm_inv m" and "sm_local_timestamp m \<noteq> UINT64_MAX" and "length d = unat sz"
  shows "sm_inv (snd (fleece_state_manager_set A m k (Some d) sz))"
proof (cases "sz = 0")
  case False
  then have "valid_payload (Some d) sz False" using assms(3) by (simp add: valid_payload_def pointee_def word_gt_0)
  from local_write(1) [OF assms(1,2) this, of None A k "sm_node_id m" "sm_node_id m"] False show ?thesis
    by (simp add: fleece_state_manager_set_def Let_def prod_eq_iff bump_clock_def)
qed (use assms(1) in \<open>simp add: fleece_state_manager_set_def\<close>)

lemma compact_demo_inv: "sm_inv compact_demo"
proof -
  define m2 where "m2 = snd (fleece_state_manager_set (\<lambda>_. True)
    (snd (fleece_state_manager_set (\<lambda>_. True) (demo_node 7) 1 (Some [1]) 1)) 2 (Some [2]) 1)"
  have m2: "sm_inv m2"
    unfolding m2_def by (intro raw_set_inv demo_node_inv) code_simp+
  have "find_slot_owned m2 2 7 = Some 1" "sm_local_timestamp m2 \<noteq> UINT64_MAX" "view m2 (7, 2) = Some (Version 2 7 False [] [2])"
    "compact_demo = entomb m2 1" unfolding m2_def by code_simp+
  then show ?thesis using entomb_view(1) [OF m2] by metis
qed

theorem compact_then_write_loses_value_witness:
  "\<exists>m2 m3. fleece_state_manager_set (\<lambda>_. True) (snd (fleece_state_manager_compact compact_demo)) 2 (Some [22]) 1 = (0, m2) \<and>
     fleece_state_manager_get (\<lambda>_. True) m2 2 = Some ([22], 1) \<and>
     fleece_state_manager_set (\<lambda>_. True) m2 3 (Some [3]) 1 = (0, m3) \<and> fleece_state_manager_get (\<lambda>_. True) m3 2 = None"
proof -
  have m: "sm_field_count compact_demo = Suc 1" "fe_is_tombstone (sm_fields compact_demo ! 1)" "fe_name (sm_fields compact_demo ! 1) = []"
    "fe_node_id (sm_fields compact_demo ! 1) = sm_node_id compact_demo" "2 = fe_key (sm_fields compact_demo ! 1)"
    "view compact_demo (sm_node_id compact_demo, 3) = None" "\<not> fe_is_tombstone (sm_fields compact_demo ! 0)" by code_simp+
  have others: "\<forall>j<1. \<not> fe_is_tombstone (sm_fields compact_demo ! j) \<or> fe_name (sm_fields compact_demo ! j) \<noteq> []" using m(7) by simp
  show ?thesis
    using compact_then_write_loses_value [OF compact_demo_inv m(1-4) others m(5,6), of 1 "[22]" 1 "\<lambda>_. True",
        OF _ _ _ _ refl prod.collapse [symmetric] prod.collapse [symmetric], where d' = "[3]"]
    by (metis (no_types, lifting) prod.collapse list.size(3,4) One_nat_def add_0 plus_1_eq_Suc unsigned_1 zero_neq_one)
qed

theorem set_shared_cas_spec_witness:
  "fst (fleece_state_manager_set_shared_cas (\<lambda>_. True) demo_a (Some demo_name) (Some [8]) 1 (Some [9]) 1) = 1 \<and>
   fst (fleece_state_manager_set_shared_cas (\<lambda>_. True) demo_a (Some demo_name) (Some [7]) 1 (Some [9]) 1) \<noteq> 1"
proof -
  have v: "live_value demo_a 0 (hash_name demo_name) = Some [7]" and nm: "demo_name \<noteq> []" "cstring demo_name"
    by code_simp+
  show ?thesis
    using set_shared_cas_spec [OF demo_inv(1) demo_clock(1) nm, of 1 "[9]" "Some [8]" 1 "\<lambda>_. True", OF _ _ _ prod.collapse [symmetric]]
      set_shared_cas_spec [OF demo_inv(1) demo_clock(1) nm, of 1 "[9]" "Some [7]" 1 "\<lambda>_. True", OF _ _ _ prod.collapse [symmetric]] v
    by simp
qed

theorem remove_shared_spec_witness:
  "fst (fleece_state_manager_remove_shared demo_a (Some demo_name)) = 0 \<and>
   fst (fleece_state_manager_remove_shared demo_b (Some demo_name)) = -1"
proof -
  have "fleece_state_manager_exists_named demo_a 0 (Some demo_name)"
    "\<not> fleece_state_manager_exists_named demo_b 0 (Some demo_name)"
    by code_simp+
  then show ?thesis
    using remove_shared_spec [OF demo_inv(1) demo_clock(1) prod.collapse [symmetric], of demo_name]
      remove_shared_spec [OF demo_inv(2) demo_clock(2) prod.collapse [symmetric], of demo_name] by blast
qed

theorem list_nodes_spec_witness:
  "set (fleece_state_manager_list_nodes compact_demo 4) =
   fe_node_id ` {f \<in> set (sm_fields compact_demo). owner_live f}"
proof -
  have "length (fleece_state_manager_list_nodes compact_demo 4) = 1" by code_simp
  then show ?thesis
    using list_nodes_spec [of compact_demo 4] by (simp add: Let_def)
qed

theorem ticks_since_seen_spec_witness:
  "fleece_state_manager_ticks_since_seen ((fleece_state_manager_tick ^^ 3) (touch_peer demo_a 2)) 2 = 3"
proof -
  have "\<exists>q\<in>set (sm_peers_seen demo_a). \<not> ps_exists q" "(2 :: u64) \<noteq> sm_node_id demo_a" by code_simp+
  then show ?thesis
    using ticks_since_seen_spec [of 2 demo_a 3] by simp
qed

theorem compact_keeps_named_witness: "fleece_state_manager_compact demo_b = (0, demo_b)"
proof (rule compact_keeps_named [OF demo_inv(2)], intro allI impI)
  fix ow k v
  have "\<forall>f\<in>set (take (sm_field_count demo_b) (sm_fields demo_b)). fe_name f \<noteq> []" by code_simp
  then have nm: "fe_name (sm_fields demo_b ! i) \<noteq> []" if "i < sm_field_count demo_b" for i
    using that sm_invD(1,2) [OF demo_inv(2)] by (metis in_set_conv_nth length_take min_absorb2 nth_take)
  assume "view demo_b (ow, k) = Some v"
  then show "v_name v \<noteq> []"
    using view_Some_iff [OF demo_inv(2)] nm by (auto simp: version_of_def)
qed

end
