(* ===== verification/Gossip.thy ===== *)
theory Gossip
  imports Swarm "HOL-Library.Monad_Syntax"
begin

unbundle bit_operations_syntax

text \<open>
  The gossip (FG) and index (FX) frames of \<open>src/state/fleece_state_manager.c\<close>: the exporters, the
  importer and their helpers.  An exporter returns the bytes it wrote and the \<open>frame_size\<close> it
  reported, or \<open>None\<close> when its single allocation fails; the importer reads a frame of
  \<open>frame_size = length buf\<close> bytes and merges its records one by one.
\<close>

abbreviation FLEECE_GOSSIP_MAGIC0 :: u8 where "FLEECE_GOSSIP_MAGIC0 \<equiv> 0x46"
abbreviation FLEECE_GOSSIP_MAGIC1 :: u8 where "FLEECE_GOSSIP_MAGIC1 \<equiv> 0x47"
abbreviation FLEECE_GOSSIP_VERSION :: u8 where "FLEECE_GOSSIP_VERSION \<equiv> 5"
abbreviation FLEECE_CONTROL_MAGIC0 :: u8 where "FLEECE_CONTROL_MAGIC0 \<equiv> 0x46"
abbreviation FLEECE_CONTROL_MAGIC1 :: u8 where "FLEECE_CONTROL_MAGIC1 \<equiv> 0x58"
abbreviation FLEECE_CONTROL_VERSION :: u8 where "FLEECE_CONTROL_VERSION \<equiv> 2"
abbreviation FLEECE_VALUE_FRAME_BYTE_CAP :: nat where "FLEECE_VALUE_FRAME_BYTE_CAP \<equiv> 320"

type_synonym frame = "bytes \<times> u32"

section \<open>Writing records\<close>

abbreviation u32_strlen :: "bytes \<Rightarrow> u32" where "u32_strlen s \<equiv> of_nat (length s)"

definition record_data_len :: "FieldEntry \<Rightarrow> u32" where
  "record_data_len f = (if fe_is_tombstone f then 0 else fe_size f)"

text \<open>One record as the first pass sizes it and as the second pass writes it.\<close>

definition record_size :: "bool \<Rightarrow> FieldEntry \<Rightarrow> nat" where
  "record_size is_shared f =
     fleece_cbor_array_header_size (if is_shared then 5 else 4)
     + (if is_shared then fleece_cbor_uint_size (fe_origin_node_id f) else 0)
     + 1
     + fleece_cbor_text_size (u32_strlen (fe_name f))
     + fleece_cbor_uint_size (fe_timestamp f)
     + fleece_cbor_bytes_size (record_data_len f)"

definition write_record :: "bool \<Rightarrow> FieldEntry \<Rightarrow> bytes" where
  "write_record is_shared f =
     fleece_cbor_write_array_header (if is_shared then 5 else 4)
     @ (if is_shared then fleece_cbor_write_uint (fe_origin_node_id f) else [])
     @ fleece_cbor_write_bool (fe_is_tombstone f)
     @ fleece_cbor_write_text (fe_name f) (u32_strlen (fe_name f))
     @ fleece_cbor_write_uint (fe_timestamp f)
     @ fleece_cbor_write_bytes (pointee (fe_data f)) (record_data_len f)"

definition write_gossip_header :: "u64 \<Rightarrow> u64 \<Rightarrow> u64 \<Rightarrow> u64 \<Rightarrow> u32 \<Rightarrow> bytes" where
  "write_gossip_header sender owner hw digest n =
     [FLEECE_GOSSIP_MAGIC0, FLEECE_GOSSIP_MAGIC1, FLEECE_GOSSIP_VERSION]
     @ fleece_cbor_write_array_header 5
     @ fleece_cbor_write_uint sender
     @ fleece_cbor_write_uint owner
     @ fleece_cbor_write_uint hw
     @ fleece_cbor_write_uint digest
     @ fleece_cbor_write_array_header n"

section \<open>Unbounded export\<close>

definition stream_hw :: "FleeceStateManager \<Rightarrow> u64 \<Rightarrow> u64" where
  "stream_hw m owner =
     foldl (\<lambda>hw f. if \<not> named_of owner f then hw
                   else if fe_timestamp f > hw then fe_timestamp f else hw) 0 (sm_fields m)"

definition export_selected :: "FleeceStateManager \<Rightarrow> u64 \<Rightarrow> u64 \<Rightarrow> FieldEntry list" where
  "export_selected m owner since =
     filter (\<lambda>f. named_of owner f \<and> \<not> fe_timestamp f \<le> since) (sm_fields m)"

definition export_body_size :: "FleeceStateManager \<Rightarrow> u64 \<Rightarrow> u64 \<Rightarrow> nat" where
  "export_body_size m owner since =
     fleece_cbor_array_header_size 5 + fleece_cbor_uint_size (sm_node_id m)
     + fleece_cbor_uint_size owner
     + fleece_cbor_uint_size (stream_hw m owner)
     + fleece_cbor_uint_size (compute_stream_digest m owner)
     + sum_list (map (record_size (owner = FLEECE_SHARED_OWNER_ID)) (export_selected m owner since))
     + fleece_cbor_array_header_size (of_nat (length (export_selected m owner since)))"

definition export_fields_since :: "allocator \<Rightarrow> FleeceStateManager \<Rightarrow> u64 \<Rightarrow> u64 \<Rightarrow> frame option" where
  "export_fields_since A m owner since =
     (let is_shared = (owner = FLEECE_SHARED_OWNER_ID);
          sel = export_selected m owner since
      in if \<not> A (3 + export_body_size m owner since) then None
         else
           let buf = write_gossip_header (sm_node_id m) owner (stream_hw m owner)
                       (compute_stream_digest m owner) (of_nat (length sel))
                     @ concat (map (write_record is_shared) sel)
           in Some (buf, of_nat (length buf)))"

definition fleece_state_manager_export :: "allocator \<Rightarrow> FleeceStateManager \<Rightarrow> frame option" where
  "fleece_state_manager_export A m = export_fields_since A m (sm_node_id m) 0"

definition fleece_state_manager_export_delta :: "allocator \<Rightarrow> FleeceStateManager \<Rightarrow> u64 \<Rightarrow> frame option" where
  "fleece_state_manager_export_delta A m since = export_fields_since A m (sm_node_id m) since"

definition fleece_state_manager_export_shared :: "allocator \<Rightarrow> FleeceStateManager \<Rightarrow> frame option" where
  "fleece_state_manager_export_shared A m = export_fields_since A m FLEECE_SHARED_OWNER_ID 0"

definition fleece_state_manager_export_shared_delta ::
    "allocator \<Rightarrow> FleeceStateManager \<Rightarrow> u64 \<Rightarrow> frame option" where
  "fleece_state_manager_export_shared_delta A m since =
     export_fields_since A m FLEECE_SHARED_OWNER_ID since"

section \<open>Bounded export\<close>

text \<open>The three parallel arrays \<open>eligible\<close>, \<open>eligible_export_ts\<close>, \<open>eligible_ts\<close> as one list.\<close>

type_synonym eligible = "nat \<times> u64 \<times> u64"

definition eligible_fields :: "FleeceStateManager \<Rightarrow> u64 \<Rightarrow> eligible list" where
  "eligible_fields m since =
     map (\<lambda>i. (i, fe_last_export_ts (sm_fields m ! i), fe_timestamp (sm_fields m ! i)))
       (filter (\<lambda>i. named_of FLEECE_SHARED_OWNER_ID (sm_fields m ! i) \<and>
                    \<not> fe_timestamp (sm_fields m ! i) \<le> since)
         [0..<field_capacity m])"

fun export_later :: "eligible \<Rightarrow> eligible \<Rightarrow> bool" where
  "export_later (i, ets, ts) (j, ets', ts') \<longleftrightarrow> ets > ets' \<or> (ets = ets' \<and> ts > ts')"

definition export_order :: "FleeceStateManager \<Rightarrow> u64 \<Rightarrow> eligible list" where
  "export_order m since = insertion_sort export_later (eligible_fields m since)"

text \<open>
  The packing loop: the array with its refreshed \<open>last_export_ts\<close> marks, the body size, the
  indices taken so far, \<open>max_ts\<close>; its last result is what was left over from \<open>stop_e\<close> on.
\<close>

fun pack_loop ::
    "nat \<Rightarrow> u64 \<Rightarrow> eligible list \<Rightarrow> FieldEntry list \<Rightarrow> nat \<Rightarrow> nat list \<Rightarrow> u64 \<Rightarrow>
     FieldEntry list \<times> nat \<times> nat list \<times> u64 \<times> eligible list" where
  "pack_loop cap now [] fs body taken max_ts = (fs, body, taken, max_ts, [])"
| "pack_loop cap now ((i, ets, ts) # es) fs body taken max_ts =
     (let f = fs ! i; r = record_size True f in
      if length taken > 0 \<and> body + r > cap then (fs, body, taken, max_ts, (i, ets, ts) # es)
      else pack_loop cap now es (fs[i := f\<lparr>fe_last_export_ts := now\<rparr>]) (body + r) (taken @ [i])
             (if fe_timestamp f > max_ts then fe_timestamp f else max_ts))"

definition clamp_watermark :: "eligible list \<Rightarrow> u64 \<Rightarrow> u64" where
  "clamp_watermark leftover max_ts =
     (let leftover_min_ts = foldl (\<lambda>mn (i, ets, ts). if ts < mn then ts else mn) UINT64_MAX leftover
      in if leftover_min_ts \<noteq> UINT64_MAX \<and> leftover_min_ts - 1 < max_ts then leftover_min_ts - 1
         else max_ts)"

definition bounded_header_size :: "FleeceStateManager \<Rightarrow> nat" where
  "bounded_header_size m =
     fleece_cbor_array_header_size 5 + fleece_cbor_uint_size (sm_node_id m)
     + fleece_cbor_uint_size FLEECE_SHARED_OWNER_ID + 9 + 9 + 3"

definition pack_result ::
    "FleeceStateManager \<Rightarrow> u64 \<Rightarrow> nat \<Rightarrow> FieldEntry list \<times> nat \<times> nat list \<times> u64 \<times> eligible list" where
  "pack_result m since cap =
     pack_loop cap (sm_local_timestamp m) (export_order m since) (sm_fields m)
       (bounded_header_size m) [] 0"

text \<open>The frame if the allocation succeeds, \<open>*included_max_ts\<close>, and the manager.\<close>

definition fleece_state_manager_export_shared_delta_bounded ::
    "allocator \<Rightarrow> FleeceStateManager \<Rightarrow> u64 \<Rightarrow> nat \<Rightarrow> frame option \<times> u64 \<times> FleeceStateManager" where
  "fleece_state_manager_export_shared_delta_bounded A m since cap =
     (let (fs, body, taken, max_ts, leftover) = pack_result m since cap;
          m' = m\<lparr>sm_fields := fs\<rparr>;
          included_max_ts = clamp_watermark leftover max_ts
      in if \<not> A (3 + body) then (None, included_max_ts, m')
         else
           let sel = map (\<lambda>i. fs ! i) (filter (\<lambda>i. fe_exists (fs ! i) \<and> i \<in> set taken) [0..<length fs]);
               buf = write_gossip_header (sm_node_id m') FLEECE_SHARED_OWNER_ID
                       (max_timestamp_for_owner m' FLEECE_SHARED_OWNER_ID)
                       (compute_stream_digest m' FLEECE_SHARED_OWNER_ID) (of_nat (length taken))
                     @ concat (map (write_record True) sel)
           in (Some (buf, of_nat (length buf)), included_max_ts, m'))"

definition fleece_state_manager_count_new_shared :: "FleeceStateManager \<Rightarrow> u64 \<Rightarrow> u32" where
  "fleece_state_manager_count_new_shared m since =
     of_nat (length (filter (\<lambda>f. named_of FLEECE_SHARED_OWNER_ID f \<and> \<not> fe_timestamp f \<le> since)
                      (sm_fields m)))"

section \<open>Import\<close>

text \<open>A parsed record: origin, tombstone flag, the copied name, timestamp, data.\<close>

datatype wire_record = WireRecord
  (wr_origin: u64) (wr_tomb: bool) (wr_name: bytes) (wr_ts: u64) (wr_data: bytes)

definition parse_record :: "bool \<Rightarrow> u64 \<Rightarrow> bytes \<Rightarrow> nat \<Rightarrow> (wire_record \<times> nat) option" where
  "parse_record is_shared owner buf pos =
     do {
       (arity, pos) \<leftarrow> read_major 4 buf pos;
       if arity \<noteq> (if is_shared then 5 else 4) then None else
       do {
         (origin, pos) \<leftarrow> (if is_shared then read_major 0 buf pos else Some (owner, pos));
         (b, pos) \<leftarrow> read_major 7 buf pos;
         if b \<noteq> 20 \<and> b \<noteq> 21 then None else
         do {
           (name, pos) \<leftarrow> read_string 3 buf pos;
           (timestamp, pos) \<leftarrow> read_major 0 buf pos;
           (data, pos) \<leftarrow> read_string 2 buf pos;
           Some (WireRecord origin (b = 21) (take (FLEECE_FIELD_NAME_MAX - 1) name) timestamp data, pos)
         }
       }
     }"

text \<open>The merge call at the end of an iteration; \<open>copy_len == 0\<close> skips the record.\<close>

definition merge_record ::
    "allocator \<Rightarrow> FleeceStateManager \<Rightarrow> bool \<Rightarrow> u64 \<Rightarrow> wire_record \<Rightarrow> FleeceStateManager" where
  "merge_record A m is_shared owner r =
     (if wr_name r = [] then m
      else
        let name = cstr (wr_name r);
            data = (if wr_tomb r then None else Some (wr_data r));
            data_len = of_nat (length (wr_data r))
        in if is_shared
           then snd (fleece_state_manager_merge_shared A m (wr_origin r) (Some name) data data_len (wr_ts r) (wr_tomb r))
           else snd (fleece_state_manager_merge_named A m owner (Some name) data data_len (wr_ts r) (wr_tomb r)))"

text \<open>
  The record loop.  It ends because every record consumes input: the announced count, which the
  sender chooses, is no bound worth the name.  \<open>As i\<close> is the allocator as the i-th iteration
  finds it.
\<close>

lemma read_major_ltD: "read_major m buf pos = Some (v, pos') \<Longrightarrow> pos < pos' \<and> pos' \<le> length buf"
  by (rule read_major_bounds)

lemma parse_record_bounds:
  "parse_record sh ow buf pos = Some (r, pos') \<Longrightarrow> pos < pos' \<and> pos' \<le> length buf"
  by (auto simp: parse_record_def Option.bind_eq_Some_conv split: prod.splits if_splits
      dest!: read_major_bounds read_string_bounds)

function import_loop ::
    "(u64 \<Rightarrow> allocator) \<Rightarrow> bool \<Rightarrow> u64 \<Rightarrow> bytes \<Rightarrow> u64 \<Rightarrow> u64 \<Rightarrow> nat \<Rightarrow> FleeceStateManager \<Rightarrow>
     bool \<times> FleeceStateManager" where
  "import_loop As is_shared owner buf n i pos m =
     (if i < n then
        (case parse_record is_shared owner buf pos of
           None \<Rightarrow> (False, m)
         | Some (r, pos') \<Rightarrow>
             import_loop As is_shared owner buf n (i + 1) pos' (merge_record (As i) m is_shared owner r))
      else (True, m))"
  by pat_completeness auto

termination
  by (relation "measure (\<lambda>(As, sh, ow, buf, n, i, pos, m). length buf - pos)")
    (auto dest!: parse_record_bounds)

declare import_loop.simps [simp del]

record import_result =
  ir_rc :: int
  ir_manager :: FleeceStateManager
  ir_sender :: "u64 option"
  ir_behind_self :: "bool option"
  ir_behind_shared :: "bool option"

text \<open>The header up to the digest: sender, owner, digest and the position after it.\<close>

definition parse_gossip_header :: "u64 \<Rightarrow> bytes \<Rightarrow> u64 option \<times> (u64 \<times> u64 \<times> u64 \<times> nat) option" where
  "parse_gossip_header self buf =
     (if length buf < 3 then (None, None)
      else if buf ! 0 \<noteq> FLEECE_GOSSIP_MAGIC0 \<or> buf ! 1 \<noteq> FLEECE_GOSSIP_MAGIC1 \<or>
              buf ! 2 \<noteq> FLEECE_GOSSIP_VERSION then (None, None)
      else
        case do { (arity, pos) \<leftarrow> read_major 4 buf 3;
                  if arity \<noteq> 5 then None else read_major 0 buf pos } of
          None \<Rightarrow> (None, None)
        | Some (sender, pos) \<Rightarrow>
            if sender = self \<or> sender = FLEECE_SHARED_OWNER_ID then (None, None)
            else
              (Some sender,
               do {
                 (owner, pos) \<leftarrow> read_major 0 buf pos;
                 if owner \<noteq> FLEECE_SHARED_OWNER_ID \<and> owner = self then None else
                 do {
                   (hw, pos) \<leftarrow> read_major 0 buf pos;
                   (digest, pos) \<leftarrow> read_major 0 buf pos;
                   Some (sender, owner, digest, pos)
                 }
               }))"

definition import_impl :: "(u64 \<Rightarrow> allocator) \<Rightarrow> FleeceStateManager \<Rightarrow> bytes \<Rightarrow> import_result" where
  "import_impl As m buf =
     (let fail = \<lambda>m s. \<lparr>ir_rc = -1, ir_manager = m, ir_sender = s,
                         ir_behind_self = None, ir_behind_shared = None\<rparr>
      in case parse_gossip_header (sm_node_id m) buf of
        (s, None) \<Rightarrow> fail m s
      | (s, Some (sender, owner, advertised, pos)) \<Rightarrow>
          let m = touch_peer m sender; is_shared = (owner = FLEECE_SHARED_OWNER_ID) in
          case read_major 4 buf pos of
            None \<Rightarrow> fail m s
          | Some (n, pos) \<Rightarrow>
              (case import_loop As is_shared owner buf n 0 pos m of
                 (False, m) \<Rightarrow> fail m s
               | (True, m) \<Rightarrow>
                   let behind = (compute_stream_digest m owner \<noteq> advertised) in
                   \<lparr>ir_rc = 0, ir_manager = m, ir_sender = s,
                    ir_behind_self = Some (\<not> is_shared \<and> behind),
                    ir_behind_shared = Some (is_shared \<and> behind)\<rparr>))"

definition fleece_state_manager_import ::
    "(u64 \<Rightarrow> allocator) \<Rightarrow> FleeceStateManager \<Rightarrow> bytes \<Rightarrow> int \<times> FleeceStateManager" where
  "fleece_state_manager_import As m buf =
     (ir_rc (import_impl As m buf), ir_manager (import_impl As m buf))"

definition fleece_state_manager_import_ex ::
    "(u64 \<Rightarrow> allocator) \<Rightarrow> FleeceStateManager \<Rightarrow> bytes \<Rightarrow>
     int \<times> FleeceStateManager \<times> bool option \<times> bool option" where
  "fleece_state_manager_import_ex As m buf =
     (let r = import_impl As m buf in (ir_rc r, ir_manager r, ir_behind_self r, ir_behind_shared r))"

definition fleece_state_manager_import_from ::
    "(u64 \<Rightarrow> allocator) \<Rightarrow> FleeceStateManager \<Rightarrow> bytes \<Rightarrow> import_result" where
  "fleece_state_manager_import_from As m buf = import_impl As m buf"

section \<open>Control-plane exports\<close>

definition index_entries :: "FleeceStateManager \<Rightarrow> FieldEntry list" where
  "index_entries m = filter (live_named FLEECE_SHARED_OWNER_ID) (sm_fields m)"

definition index_frame_size :: "FleeceStateManager \<Rightarrow> nat" where
  "index_frame_size m =
     (let n = length (index_entries m) in
      3 + fleece_cbor_array_header_size 3 + 1 + fleece_cbor_uint_size (sm_node_id m)
      + fleece_cbor_array_header_size (of_nat n)
      + n * (fleece_cbor_array_header_size 2 + fleece_cbor_uint_size (ucast (UINT32_MAX :: u32))
             + fleece_cbor_uint_size UINT64_MAX))"

definition write_index_entry :: "FieldEntry \<Rightarrow> bytes" where
  "write_index_entry f =
     fleece_cbor_write_array_header 2 @ fleece_cbor_write_uint (ucast (fe_key f))
     @ fleece_cbor_write_uint (fe_timestamp f)"

definition fleece_state_manager_export_shared_index :: "allocator \<Rightarrow> FleeceStateManager \<Rightarrow> frame option" where
  "fleece_state_manager_export_shared_index A m =
     (if \<not> A (index_frame_size m) then None
      else
        let buf = [FLEECE_CONTROL_MAGIC0, FLEECE_CONTROL_MAGIC1, FLEECE_CONTROL_VERSION]
                  @ fleece_cbor_write_array_header 3
                  @ fleece_cbor_write_uint 1
                  @ fleece_cbor_write_uint (sm_node_id m)
                  @ fleece_cbor_write_array_header (of_nat (length (index_entries m)))
                  @ concat (map write_index_entry (index_entries m))
        in Some (buf, of_nat (length buf)))"

text \<open>The selection loop: \<open>hw\<close>, the body size and the records taken (those beyond the cap are
  skipped one by one, so a later smaller record may still fit).\<close>

fun value_loop ::
    "u32 list \<Rightarrow> FieldEntry list \<Rightarrow> u64 \<Rightarrow> nat \<Rightarrow> FieldEntry list \<Rightarrow> u64 \<times> nat \<times> FieldEntry list" where
  "value_loop hashes [] hw body taken = (hw, body, taken)"
| "value_loop hashes (f # fs) hw body taken =
     (if \<not> live_named FLEECE_SHARED_OWNER_ID f then value_loop hashes fs hw body taken
      else
        let hw = (if fe_timestamp f > hw then fe_timestamp f else hw) in
        if fe_key f \<notin> set hashes then value_loop hashes fs hw body taken
        else
          let r = fleece_cbor_array_header_size 5 + fleece_cbor_uint_size (fe_origin_node_id f) + 1
                  + fleece_cbor_text_size (u32_strlen (fe_name f))
                  + fleece_cbor_uint_size (fe_timestamp f) + fleece_cbor_bytes_size (fe_size f)
          in if length taken > 0 \<and> body + r > FLEECE_VALUE_FRAME_BYTE_CAP
             then value_loop hashes fs hw body taken
             else value_loop hashes fs hw (body + r) (taken @ [f]))"

definition write_value_record :: "FieldEntry \<Rightarrow> bytes" where
  "write_value_record f =
     fleece_cbor_write_array_header 5
     @ fleece_cbor_write_uint (fe_origin_node_id f)
     @ fleece_cbor_write_bool False
     @ fleece_cbor_write_text (fe_name f) (u32_strlen (fe_name f))
     @ fleece_cbor_write_uint (fe_timestamp f)
     @ fleece_cbor_write_bytes (pointee (fe_data f)) (fe_size f)"

definition value_selection :: "FleeceStateManager \<Rightarrow> u32 list \<Rightarrow> u64 \<times> nat \<times> FieldEntry list" where
  "value_selection m hashes =
     (let count_size = fleece_cbor_array_header_size (of_nat (length hashes));
          body = fleece_cbor_array_header_size 5 + fleece_cbor_uint_size (sm_node_id m)
                 + fleece_cbor_uint_size FLEECE_SHARED_OWNER_ID + 9
                 + fleece_cbor_uint_size (compute_stream_digest m FLEECE_SHARED_OWNER_ID) + count_size;
          (hw, body, taken) = value_loop hashes (sm_fields m) 0 body []
      in (hw, body - count_size + fleece_cbor_array_header_size (of_nat (length taken)), taken))"

definition fleece_state_manager_export_shared_by_hash ::
    "allocator \<Rightarrow> FleeceStateManager \<Rightarrow> u32 list \<Rightarrow> frame option" where
  "fleece_state_manager_export_shared_by_hash A m hashes =
     (let (hw, body, taken) = value_selection m hashes
      in if \<not> A (3 + body) then None
         else
           let buf = write_gossip_header (sm_node_id m) FLEECE_SHARED_OWNER_ID hw
                       (compute_stream_digest m FLEECE_SHARED_OWNER_ID) (of_nat (length taken))
                     @ concat (map write_value_record taken)
           in Some (buf, of_nat (length buf)))"

end
