(* ===== verification/Gossip_Proofs.thy ===== *)
theory Gossip_Proofs
  imports Gossip
begin

text \<open>
  What the frames carry: the exporters write exactly (or at most) the bytes they allocated, the
  importer recovers every record of an exported frame, and merging a frame is delivering its
  versions one after another to the replicated map.
\<close>

section \<open>Sizes\<close>

lemma write_uint_length [size_simps]: "length (fleece_cbor_write_uint v) = fleece_cbor_uint_size v"
  by (simp add: fleece_cbor_write_uint_def write_head_length)

lemma write_array_header_length [size_simps]:
  "length (fleece_cbor_write_array_header n) = fleece_cbor_array_header_size n"
  by (simp add: fleece_cbor_write_array_header_def fleece_cbor_array_header_size_def write_head_length)

lemma write_bool_length [size_simps]: "length (fleece_cbor_write_bool b) = 1"
  by (simp add: fleece_cbor_write_bool_def)

lemma write_text_length [size_simps]:
  "length s = unat len \<Longrightarrow> length (fleece_cbor_write_text s len) = fleece_cbor_text_size len"
  by (simp add: write_text_eq write_head_length fleece_cbor_text_size_def)

lemma write_bytes_length [size_simps]:
  "unat len \<le> length s \<Longrightarrow> length (fleece_cbor_write_bytes s len) = fleece_cbor_bytes_size len"
  by (auto simp: fleece_cbor_write_bytes_def write_head_length fleece_cbor_bytes_size_def
      word_gt_0 unat_eq_zero)

lemma field_ok_lengths:
  assumes "field_ok f"
  shows "length (fe_name f) = unat (u32_strlen (fe_name f))"
    and "length (pointee (fe_data f)) = unat (fe_size f)"
    and "record_data_len f = fe_size f"
  using assms by (auto simp: field_ok_def pointee_def record_data_len_def unat_of_nat_32 split: if_splits)

lemma write_record_length:
  "field_ok f \<Longrightarrow> length (write_record sh f) = record_size sh f"
  using field_ok_lengths [of f]
  by (auto simp: write_record_def record_size_def size_simps)

lemma header_length:
  "length (write_gossip_header s ow hw d n) =
   3 + fleece_cbor_array_header_size 5 + fleece_cbor_uint_size s + fleece_cbor_uint_size ow
   + fleece_cbor_uint_size hw + fleece_cbor_uint_size d + fleece_cbor_array_header_size n"
  by (simp add: write_gossip_header_def size_simps)

lemma records_length:
  "\<forall>f\<in>set fs. field_ok f \<Longrightarrow> length (concat (map (write_record sh) fs)) = sum_list (map (record_size sh) fs)"
  by (induction fs) (auto simp: write_record_length)

lemma fields_ok: "sm_inv m \<Longrightarrow> f \<in> set (sm_fields m) \<Longrightarrow> fe_exists f \<Longrightarrow> field_ok f"
  using sm_invD(1,3,4) [of m] by (auto simp: in_set_conv_nth)

lemma selected_ok: "sm_inv m \<Longrightarrow> f \<in> set (export_selected m ow since) \<Longrightarrow> field_ok f"
  by (auto simp: export_selected_def named_of_def intro: fields_ok)

lemma export_exact_size:
  assumes "sm_inv m" and "export_fields_since A m ow since = Some (buf, sz)"
  shows "length buf = 3 + export_body_size m ow since" and "A (length buf)"
proof -
  have ok: "\<forall>f\<in>set (export_selected m ow since). field_ok f"
    using selected_ok [OF assms(1)] by blast
  have buf: "A (3 + export_body_size m ow since)" "buf = write_gossip_header (sm_node_id m) ow
      (stream_hw m ow) (compute_stream_digest m ow) (of_nat (length (export_selected m ow since)))
      @ concat (map (write_record (ow = FLEECE_SHARED_OWNER_ID)) (export_selected m ow since))"
    using assms(2) by (simp_all add: export_fields_since_def Let_def split: if_splits)
  show len: "length buf = 3 + export_body_size m ow since"
    by (simp add: buf(2) header_length records_length [OF ok] export_body_size_def)
  show "A (length buf)"
    using buf(1) len by simp
qed

section \<open>Reading back a record\<close>

definition wire_record_of :: "bool \<Rightarrow> u64 \<Rightarrow> FieldEntry \<Rightarrow> wire_record" where
  "wire_record_of sh ow f =
     WireRecord (if sh then fe_origin_node_id f else ow) (fe_is_tombstone f) (fe_name f)
       (fe_timestamp f) (pointee (fe_data f))"

lemma write_bool_head: "fleece_cbor_write_bool b = fleece_cbor_write_head 7 (if b then 21 else 20)"
  by (simp add: fleece_cbor_write_bool_def fleece_cbor_write_head_def)

lemma write_record_heads:
  assumes "field_ok f"
  shows "write_record sh f =
     fleece_cbor_write_head 4 (if sh then 5 else 4)
     @ (if sh then fleece_cbor_write_head 0 (fe_origin_node_id f) else [])
     @ fleece_cbor_write_head 7 (if fe_is_tombstone f then 21 else 20)
     @ fleece_cbor_write_head 3 (ucast (u32_strlen (fe_name f))) @ fe_name f
     @ fleece_cbor_write_head 0 (fe_timestamp f)
     @ fleece_cbor_write_head 2 (ucast (fe_size f)) @ pointee (fe_data f)"
  using field_ok_lengths [OF assms]
  by (simp add: write_record_def write_bool_head write_text_eq write_bytes_eq
      fleece_cbor_write_array_header_def fleece_cbor_write_uint_def)

lemma read_string_step:
  assumes "drop pos buf = fleece_cbor_write_head m v @ s @ rest" and "m < 8" and "length s = unat v"
  shows "read_string m buf pos = Some (s, pos + fleece_cbor_uint_size v + unat v)"
    and "drop (pos + fleece_cbor_uint_size v + unat v) buf = rest"
proof -
  show "read_string m buf pos = Some (s, pos + fleece_cbor_uint_size v + unat v)"
    by (rule read_string_at [OF assms])
  have "drop (pos + fleece_cbor_uint_size v) buf = s @ rest"
    by (rule drop_after_head [OF assms(1)])
  then show "drop (pos + fleece_cbor_uint_size v + unat v) buf = rest"
    using drop_step assms(3) by metis
qed

lemma parse_record_at:
  assumes ok: "field_ok f" and d: "drop pos buf = write_record sh f @ rest"
  shows "parse_record sh ow buf pos = Some (wire_record_of sh ow f, pos + length (write_record sh f))"
proof -
  have len: "length (fe_name f) = unat (ucast (u32_strlen (fe_name f)) :: u64)"
    "length (pointee (fe_data f)) = unat (ucast (fe_size f) :: u64)"
    using field_ok_lengths [OF ok] by simp_all
  have short: "take (FLEECE_FIELD_NAME_MAX - 1) (fe_name f) = fe_name f"
    using ok by (simp add: field_ok_def)
  let ?tail = "fleece_cbor_write_head 7 (if fe_is_tombstone f then 21 else 20)
     @ fleece_cbor_write_head 3 (ucast (u32_strlen (fe_name f))) @ fe_name f
     @ fleece_cbor_write_head 0 (fe_timestamp f)
     @ fleece_cbor_write_head 2 (ucast (fe_size f)) @ pointee (fe_data f) @ rest"
  have d0: "drop pos buf = fleece_cbor_write_head 4 (if sh then 5 else 4)
     @ (if sh then fleece_cbor_write_head 0 (fe_origin_node_id f) else []) @ ?tail"
    using d write_record_heads [OF ok] by simp
  note d1 = drop_after_head [OF d0]
  let ?p2 = "pos + fleece_cbor_uint_size (if sh then 5 else 4)
     + (if sh then fleece_cbor_uint_size (fe_origin_node_id f) else 0)"
  have d2: "drop ?p2 buf = ?tail"
    using d1 drop_after_head [of _ buf 0 "fe_origin_node_id f" ?tail] by (cases sh) simp_all
  note d3 = drop_after_head [OF d2]
  note n = read_string_step [OF d3 _ len(1)]
  note d4 = drop_after_head [OF n(2)]
  note b = read_string_step [OF d4 _ len(2)]
  have o: "(if sh then read_major 0 buf (pos + fleece_cbor_uint_size (if sh then 5 else 4))
      else Some (ow, pos + fleece_cbor_uint_size (if sh then 5 else 4))) =
      Some (if sh then fe_origin_node_id f else ow, ?p2)"
    using read_major_at [of _ buf 0 "fe_origin_node_id f" ?tail] d1 by (cases sh) simp_all
  show ?thesis
    unfolding parse_record_def
    using read_major_at [OF d0] o read_major_at [OF d2] n(1) read_major_at [OF n(2)] b(1) short
      write_record_heads [OF ok] len
    by (simp add: wire_record_of_def write_head_length)
qed


section \<open>Importing an exported frame\<close>

text \<open>The merges the record loop performs, in order.\<close>

fun merge_seq ::
    "(u64 \<Rightarrow> allocator) \<Rightarrow> bool \<Rightarrow> u64 \<Rightarrow> u64 \<Rightarrow> FieldEntry list \<Rightarrow> FleeceStateManager \<Rightarrow> FleeceStateManager" where
  "merge_seq As sh ow i [] m = m"
| "merge_seq As sh ow i (f # fs) m =
     merge_seq As sh ow (i + 1) fs (merge_record (As i) m sh ow (wire_record_of sh ow f))"

lemma import_loop_at:
  "\<forall>f\<in>set fs. field_ok f \<Longrightarrow> drop pos buf = concat (map (write_record sh) fs) @ rest \<Longrightarrow>
   unat i + length fs = unat n \<Longrightarrow>
   import_loop As sh ow buf n i pos m = (True, merge_seq As sh ow i fs m)"
proof (induction fs arbitrary: pos i m)
  case Nil
  then have "\<not> i < n" by (simp add: word_less_nat_alt)
  then show ?case by (simp add: import_loop.simps)
next
  case (Cons f fs)
  have ok: "field_ok f" and d: "drop pos buf = write_record sh f @ concat (map (write_record sh) fs) @ rest"
    using Cons.prems by simp_all
  have lt: "i < n" and i: "unat (i + 1) = Suc (unat i)"
  proof -
    show "i < n" using Cons.prems(3) by (simp add: word_less_nat_alt)
    then have "1 + i \<noteq> 0" by (auto simp: add_eq_0_iff)
    then show "unat (i + 1) = Suc (unat i)" by (simp add: unatSuc add.commute)
  qed
  have "import_loop As sh ow buf n (i + 1) (pos + length (write_record sh f)) m' =
      (True, merge_seq As sh ow (i + 1) fs m')" for m'
    using Cons.prems i drop_step [OF d] by (intro Cons.IH) simp_all
  then show ?case
    using lt parse_record_at [OF ok d] by (simp add: import_loop.simps [of As sh ow buf n i])
qed

lemma parse_header_at:
  assumes buf: "buf = write_gossip_header s ow hw dg n @ rest"
    and s: "s \<noteq> self" "s \<noteq> FLEECE_SHARED_OWNER_ID" and ow: "ow \<noteq> self \<or> ow = FLEECE_SHARED_OWNER_ID"
  shows "\<exists>pos. parse_gossip_header self buf = (Some s, Some (s, ow, dg, pos)) \<and>
    drop pos buf = fleece_cbor_write_head 4 (ucast n) @ rest"
proof -
  let ?h = "[FLEECE_GOSSIP_MAGIC0, FLEECE_GOSSIP_MAGIC1, FLEECE_GOSSIP_VERSION]"
  have d0: "drop 3 buf = fleece_cbor_write_head 4 5 @ fleece_cbor_write_head 0 s @
      fleece_cbor_write_head 0 ow @ fleece_cbor_write_head 0 hw @ fleece_cbor_write_head 0 dg @
      fleece_cbor_write_head 4 (ucast n) @ rest"
    by (simp add: buf write_gossip_header_def fleece_cbor_write_array_header_def fleece_cbor_write_uint_def)
  note d1 = drop_after_head [OF d0]
  note d2 = drop_after_head [OF d1]
  note d3 = drop_after_head [OF d2]
  note d4 = drop_after_head [OF d3]
  note d5 = drop_after_head [OF d4]
  have "\<not> length buf < 3" "buf ! 0 = FLEECE_GOSSIP_MAGIC0" "buf ! 1 = FLEECE_GOSSIP_MAGIC1"
    "buf ! 2 = FLEECE_GOSSIP_VERSION"
    by (simp_all add: buf write_gossip_header_def)
  then have "parse_gossip_header self buf = (Some s, Some (s, ow, dg,
      3 + fleece_cbor_uint_size 5 + fleece_cbor_uint_size s + fleece_cbor_uint_size ow
      + fleece_cbor_uint_size hw + fleece_cbor_uint_size dg))"
    using s ow read_major_at [OF d0] read_major_at [OF d1] read_major_at [OF d2] read_major_at [OF d3]
      read_major_at [OF d4]
    by (auto simp: parse_gossip_header_def)
  with d5 show ?thesis by blast
qed

lemma import_frame:
  assumes buf: "buf = write_gossip_header s ow hw dg (of_nat (length fs)) @ concat (map (write_record (ow = 0)) fs)"
    and ok: "\<forall>f\<in>set fs. field_ok f" and len: "length fs < 2 ^ 32"
    and s: "s \<noteq> sm_node_id r" "s \<noteq> FLEECE_SHARED_OWNER_ID"
    and ow: "ow \<noteq> sm_node_id r \<or> ow = FLEECE_SHARED_OWNER_ID"
  shows "import_impl As r buf =
    (let r' = merge_seq As (ow = 0) ow 0 fs (touch_peer r s);
         behind = (compute_stream_digest r' ow \<noteq> dg)
     in \<lparr>ir_rc = 0, ir_manager = r', ir_sender = Some s,
         ir_behind_self = Some (ow \<noteq> 0 \<and> behind), ir_behind_shared = Some (ow = 0 \<and> behind)\<rparr>)"
proof -
  obtain pos where h: "parse_gossip_header (sm_node_id r) buf = (Some s, Some (s, ow, dg, pos))"
    and d: "drop pos buf = fleece_cbor_write_head 4 (ucast (of_nat (length fs) :: u32)) @
      concat (map (write_record (ow = 0)) fs)"
    using parse_header_at [OF buf s ow] by blast
  have n: "unat (ucast (of_nat (length fs) :: u32) :: u64) = length fs"
    using len by (simp add: unat_of_nat_32)
  have "import_loop As (ow = 0) ow buf (ucast (of_nat (length fs) :: u32)) 0
      (pos + fleece_cbor_uint_size (ucast (of_nat (length fs) :: u32))) m' =
      (True, merge_seq As (ow = 0) ow 0 fs m')" for m'
    using ok n drop_after_head [OF d] by (intro import_loop_at [where rest = "[]"]) simp_all
  then show ?thesis
    using h read_major_at [OF d] by (simp add: import_impl_def Let_def)
qed

lemma selected_length: "sm_inv m \<Longrightarrow> length (export_selected m ow since) \<le> FIELD_CAPACITY"
  using sm_invD(1) [of m] length_filter_le [of _ "sm_fields m"] by (simp add: export_selected_def)

lemma import_export:
  assumes inv: "sm_inv m" and ex: "export_fields_since A m ow since = Some (buf, sz)"
    and s: "sm_node_id m \<noteq> sm_node_id r" and ow: "ow \<noteq> sm_node_id r \<or> ow = FLEECE_SHARED_OWNER_ID"
  shows "import_impl As r buf =
    (let r' = merge_seq As (ow = 0) ow 0 (export_selected m ow since) (touch_peer r (sm_node_id m));
         behind = (compute_stream_digest r' ow \<noteq> compute_stream_digest m ow)
     in \<lparr>ir_rc = 0, ir_manager = r', ir_sender = Some (sm_node_id m),
         ir_behind_self = Some (ow \<noteq> 0 \<and> behind), ir_behind_shared = Some (ow = 0 \<and> behind)\<rparr>)"
proof (rule import_frame)
  show "buf = write_gossip_header (sm_node_id m) ow (stream_hw m ow) (compute_stream_digest m ow)
      (of_nat (length (export_selected m ow since)))
      @ concat (map (write_record (ow = 0)) (export_selected m ow since))"
    using ex by (simp add: export_fields_since_def Let_def split: if_splits)
  show "\<forall>f\<in>set (export_selected m ow since). field_ok f"
    using selected_ok [OF inv] by blast
  show "length (export_selected m ow since) < 2 ^ 32"
    using selected_length [OF inv, of ow since] by simp
qed (use s ow sm_invD(6) [OF inv] in simp_all)


section \<open>Importing arbitrary bytes\<close>

text \<open>
  What no received frame can do, well-formed or not: break the invariant, change the node's
  identity, move the clock back, write into the node's own stream, or take a shared field back.
\<close>

definition safe_change :: "FleeceStateManager \<Rightarrow> FleeceStateManager \<Rightarrow> bool" where
  "safe_change m m' \<longleftrightarrow>
     sm_inv m' \<and> sm_node_id m' = sm_node_id m \<and> sm_local_timestamp m \<le> sm_local_timestamp m' \<and>
     (\<forall>k. view m' (sm_node_id m, k) = view m (sm_node_id m, k)) \<and>
     (\<forall>k v. view m (FLEECE_SHARED_OWNER_ID, k) = Some v \<longrightarrow>
       (\<exists>w. view m' (FLEECE_SHARED_OWNER_ID, k) = Some w \<and> (w = v \<or> stamp v < stamp w)))"

lemma safe_change_refl: "sm_inv m \<Longrightarrow> safe_change m m"
  by (auto simp: safe_change_def)

lemma safe_change_trans: "safe_change m m1 \<Longrightarrow> safe_change m1 m2 \<Longrightarrow> safe_change m m2"
proof -
  assume a: "safe_change m m1" and b: "safe_change m1 m2"
  have "\<exists>w. view m2 (0, k) = Some w \<and> (w = v \<or> stamp v < stamp w)" if v: "view m (0, k) = Some v" for k v
  proof -
    obtain u where u: "view m1 (0, k) = Some u" "u = v \<or> stamp v < stamp u"
      using a v unfolding safe_change_def by blast
    obtain w where "view m2 (0, k) = Some w" "w = u \<or> stamp u < stamp w"
      using b u(1) unfolding safe_change_def by blast
    then show ?thesis using u(2) by auto
  qed
  moreover have "sm_local_timestamp m \<le> sm_local_timestamp m2"
    using a b unfolding safe_change_def by (blast intro: order.trans)
  ultimately show ?thesis
    using a b by (simp add: safe_change_def)
qed

lemma safe_change_touch: "sm_inv m \<Longrightarrow> safe_change m (touch_peer m n)"
  by (auto simp: safe_change_def touch_peer_inv)

lemma merge_frame:
  "sm_node_id (snd (fleece_state_manager_merge_shared A m og nm data sz ts tomb)) = sm_node_id m"
  "sm_node_id (snd (fleece_state_manager_merge_named A m ow nm data sz ts tomb)) = sm_node_id m"
  "sm_local_timestamp m \<le> sm_local_timestamp (snd (fleece_state_manager_merge_shared A m og nm data sz ts tomb))"
  "sm_local_timestamp m \<le> sm_local_timestamp (snd (fleece_state_manager_merge_named A m ow nm data sz ts tomb))"
  using upsert_frame [OF prod.collapse [symmetric]]
  by (auto simp: fleece_state_manager_merge_shared_def fleece_state_manager_merge_named_def Let_def
      split: option.splits)

lemma unat_of_nat_le: "unat (of_nat n :: 'a::len word) \<le> n"
  by (simp add: unat_of_nat)

lemma merge_record_safe:
  assumes inv: "sm_inv m" and ow: "ow \<noteq> sm_node_id m" and sh: "sh \<longleftrightarrow> ow = FLEECE_SHARED_OWNER_ID"
  shows "safe_change m (merge_record A m sh ow r)"
proof (cases "cstr (wr_name r) = []")
  case True
  then show ?thesis
    using safe_change_refl [OF inv]
    by (auto simp: merge_record_def fleece_state_manager_merge_shared_def fleece_state_manager_merge_named_def Let_def)
next
  case name: False
  let ?d = "if wr_tomb r then None else Some (wr_data r)" and ?n = "of_nat (length (wr_data r)) :: u32"
  have cs: "cstring (cstr (wr_name r))" and nonempty: "wr_name r \<noteq> []"
    using name by (auto simp: cstring_def)
  have mem: "\<not> wr_tomb r \<Longrightarrow> unat ?n \<le> length (pointee ?d)"
    by (simp add: pointee_def unat_of_nat_le)
  have self: "sm_node_id m \<noteq> 0" by (rule sm_invD(6) [OF inv])
  show ?thesis
  proof (cases sh)
    case True
    obtain rc m' where mg: "fleece_state_manager_merge_shared A m (wr_origin r) (Some (cstr (wr_name r))) ?d ?n (wr_ts r) (wr_tomb r) = (rc, m')"
      by fastforce
    note M = merge_shared_view [OF inv name cs mem mg]
    have "safe_change m m'"
      using M merge_frame(1) [of A m "wr_origin r" "Some (cstr (wr_name r))" ?d ?n "wr_ts r" "wr_tomb r"]
        merge_frame(3) [of m A "wr_origin r" "Some (cstr (wr_name r))" ?d ?n "wr_ts r" "wr_tomb r"] mg self
      by (cases "rc = 0") (auto simp: safe_change_def lww_join_def not_le split: if_splits)
    then show ?thesis using True nonempty mg by (simp add: merge_record_def Let_def)
  next
    case False
    obtain rc m' where mg: "fleece_state_manager_merge_named A m ow (Some (cstr (wr_name r))) ?d ?n (wr_ts r) (wr_tomb r) = (rc, m')"
      by fastforce
    note M = merge_named_view [OF inv name cs mem mg]
    have "safe_change m m'"
      using M merge_frame(2) [of A m ow "Some (cstr (wr_name r))" ?d ?n "wr_ts r" "wr_tomb r"]
        merge_frame(4) [of m A ow "Some (cstr (wr_name r))" ?d ?n "wr_ts r" "wr_tomb r"] mg self ow sh False
      by (cases "rc = 0") (auto simp: safe_change_def)
    moreover have "merge_record A m sh ow r = m'"
      using False nonempty mg by (simp add: merge_record_def Let_def)
    ultimately show ?thesis by simp
  qed
qed

lemma import_loop_safe:
  "sm_inv m \<Longrightarrow> ow \<noteq> sm_node_id m \<Longrightarrow>
   safe_change m (snd (import_loop As (ow = FLEECE_SHARED_OWNER_ID) ow buf n i pos m))"
proof (induction As "ow = FLEECE_SHARED_OWNER_ID" ow buf n i pos m rule: import_loop.induct)
  case (1 As ow buf n i pos m)
  show ?case
  proof (cases "i < n")
    case False
    then show ?thesis
      using safe_change_refl [OF 1(2)] by (simp add: import_loop.simps [of As _ ow buf n i])
  next
    case lt: True
    show ?thesis
    proof (cases "parse_record (ow = 0) ow buf pos")
      case None
      then show ?thesis
        using safe_change_refl [OF 1(2)] lt by (simp add: import_loop.simps [of As _ ow buf n i])
    next
      case (Some rp)
      obtain r pos' where rp: "rp = (r, pos')" by fastforce
      have step: "safe_change m (merge_record (As i) m (ow = 0) ow r)"
        using 1(2,3) by (intro merge_record_safe) simp_all
      then have "safe_change (merge_record (As i) m (ow = 0) ow r)
          (snd (import_loop As (ow = 0) ow buf n (i + 1) pos' (merge_record (As i) m (ow = 0) ow r)))"
        using 1(1) [OF lt Some rp [symmetric]] 1(3) by (simp add: safe_change_def)
      with step show ?thesis
        using lt Some rp by (simp add: import_loop.simps [of As _ ow buf n i] safe_change_trans)
    qed
  qed
qed

lemma header_owner:
  "parse_gossip_header self buf = (s, Some (sender, ow, dg, pos)) \<Longrightarrow> self \<noteq> FLEECE_SHARED_OWNER_ID \<Longrightarrow>
   ow \<noteq> self \<and> s = Some sender \<and> sender \<noteq> self \<and> sender \<noteq> FLEECE_SHARED_OWNER_ID"
  by (auto simp: parse_gossip_header_def Option.bind_eq_Some_conv split: if_splits option.splits prod.splits)

lemma import_safe:
  assumes inv: "sm_inv m"
  shows "safe_change m (ir_manager (import_impl As m buf))"
proof (cases "snd (parse_gossip_header (sm_node_id m) buf)")
  case None
  then show ?thesis
    using safe_change_refl [OF inv] by (auto simp: import_impl_def split: prod.splits)
next
  case (Some h)
  obtain sender ow dg pos s where h: "parse_gossip_header (sm_node_id m) buf = (s, Some (sender, ow, dg, pos))"
    using Some by (metis prod.collapse)
  have touched: "safe_change m (touch_peer m sender)" by (rule safe_change_touch [OF inv])
  have "ow \<noteq> sm_node_id m" using header_owner [OF h] sm_invD(6) [OF inv] by blast
  then have "safe_change m (snd (import_loop As (ow = 0) ow buf n 0 pos' (touch_peer m sender)))" for n pos'
    using touch_peer_inv [OF inv] by (intro safe_change_trans [OF touched] import_loop_safe) simp_all
  then show ?thesis
    using h touched by (auto simp: import_impl_def Let_def split: option.splits prod.splits bool.splits)
      (metis snd_conv)+
qed

end
