(* ===== verification/Anti_Entropy.thy ===== *)
theory Anti_Entropy
  imports Gossip_Proofs
begin

text \<open>
  Frames over the replicated map: importing a shared frame delivers the versions it carries, and
  a pull in both directions leaves two nodes with the same shared stream and a certificate of it.
\<close>

section \<open>Frames deliver versions\<close>

lemma named_ofD: "f \<in> set (export_selected m ow since) \<Longrightarrow> named_of ow f \<and> since < fe_timestamp f"
  by (auto simp: export_selected_def not_le)

lemma merge_record_version:
  assumes "field_ok f" and "fe_name f \<noteq> []"
  shows "merge_record A m True ow (wire_record_of True ow f) = deliver_version A m (version_of f)"
  using assms
  by (auto simp: merge_record_def wire_record_of_def deliver_version_def merge_version_def version_of_def
      field_ok_def cstring_def Let_def)

lemma merge_seq_versions:
  "\<forall>f\<in>set fs. field_ok f \<and> fe_name f \<noteq> [] \<Longrightarrow>
   merge_seq (\<lambda>_. A) True ow i fs m = foldl (deliver_version A) m (map version_of fs)"
  by (induction fs arbitrary: i m) (auto simp: merge_record_version)

text \<open>A frame of the shared stream, whichever exporter selected its records.\<close>

definition frame_versions :: "FleeceStateManager \<Rightarrow> u64 \<Rightarrow> version list" where
  "frame_versions m since = map version_of (export_selected m FLEECE_SHARED_OWNER_ID since)"

lemma import_shared_export:
  assumes inv: "sm_inv m" and ex: "export_fields_since Ax m FLEECE_SHARED_OWNER_ID since = Some (buf, sz)"
    and s: "sm_node_id m \<noteq> sm_node_id r"
    and r': "r' = foldl (deliver_version A) (touch_peer r (sm_node_id m)) (frame_versions m since)"
  shows "import_impl (\<lambda>_. A) r buf =
    \<lparr>ir_rc = 0, ir_manager = r', ir_sender = Some (sm_node_id m), ir_behind_self = Some False,
     ir_behind_shared = Some (compute_stream_digest r' 0 \<noteq> compute_stream_digest m 0)\<rparr>"
proof -
  have "\<forall>f\<in>set (export_selected m 0 since). field_ok f \<and> fe_name f \<noteq> []"
    using selected_ok [OF inv] named_ofD [of _ m 0 since] by (auto simp: named_of_def)
  note seq = merge_seq_versions [OF this]
  show ?thesis
    using import_export [OF inv ex s, of "\<lambda>_. A"] by (simp add: seq r' frame_versions_def Let_def)
qed

lemma frame_versions_set:
  assumes inv: "sm_inv m" and ok: "shared_ok m"
  shows "set (frame_versions m since) = {v \<in> shared_versions m. since < v_ts v}"
proof -
  have "fe_name (sm_fields m ! i) \<noteq> []" if "i < sm_field_count m" "fe_node_id (sm_fields m ! i) = 0" for i
  proof -
    have "view m (0, fe_key (sm_fields m ! i)) = Some (version_of (sm_fields m ! i))"
      using that view_Some_iff [OF inv] by blast
    then have "wire_version (version_of (sm_fields m ! i))"
      using ok by (auto simp: shared_ok_def)
    then show ?thesis
      by (simp add: wire_version_def version_of_def)
  qed
  moreover have "f \<in> set (sm_fields m) \<and> fe_exists f \<longleftrightarrow> (\<exists>i < sm_field_count m. f = sm_fields m ! i)" for f
    using sm_invD(1,2,3) [OF inv] by (auto simp: in_set_conv_nth intro: less_le_trans)
  ultimately have "f \<in> set (export_selected m 0 since) \<longleftrightarrow>
      (\<exists>i < sm_field_count m. f = sm_fields m ! i \<and> fe_node_id f = 0 \<and> since < fe_timestamp f)" for f
    unfolding export_selected_def named_of_def by (auto simp: not_le)
  then have sel: "set (export_selected m 0 since) = (\<lambda>i. sm_fields m ! i) `
      {i. i < sm_field_count m \<and> fe_node_id (sm_fields m ! i) = 0 \<and> since < fe_timestamp (sm_fields m ! i)}"
    by auto
  have ts: "v_ts (version_of f) = fe_timestamp f" for f
    by (simp add: version_of_def)
  show ?thesis
    by (auto simp: frame_versions_def sel shared_versions_def view_Some_iff [OF inv] ts)
qed

section \<open>Room for a delivery\<close>

lemma merge_version_ok:
  assumes inv: "sm_inv m" and w: "wire_version v" and room: "sm_field_count m < FIELD_CAPACITY"
    and A: "A (length (v_data v))"
  shows "fst (merge_version A m v) = 0"
    and "sm_field_count (deliver_version A m v) \<le> Suc (sm_field_count m)"
proof -
  let ?m = "advance_clock m (v_ts v)"
  have size: "unat (of_nat (length (v_data v)) :: u32) = length (v_data v)"
    "v_tomb v \<or> (of_nat (length (v_data v)) :: u32) \<noteq> 0"
    using w by (auto simp: wire_version_def unat_of_nat_32 unat_eq_0 [symmetric] split: if_splits)
  have up: "fst (upsert_field A ?m key ow og nm data (of_nat (length (v_data v))) ts tomb) = 0"
    for key ow og nm data ts tomb
    using upsert_ok_iff [OF advance_clock_inv [OF inv]] room A size by simp
  have n: "sm_field_count (snd (upsert_field A ?m key ow og nm data sz ts tomb)) \<le> Suc (sm_field_count m)"
    for key ow og nm data sz ts tomb
    by (auto simp: upsert_field_def Let_def split: option.splits)
  show "fst (merge_version A m v) = 0"
    using up w size by (auto simp: merge_version_def fleece_state_manager_merge_shared_def wire_version_def Let_def
        split: option.splits)
  show "sm_field_count (deliver_version A m v) \<le> Suc (sm_field_count m)"
    using n by (auto simp: deliver_version_def merge_version_def fleece_state_manager_merge_shared_def Let_def
        split: option.splits)
qed

lemma accepts_all_room:
  "sm_inv m \<Longrightarrow> \<forall>v\<in>set vs. wire_version v \<and> A (length (v_data v)) \<Longrightarrow>
   sm_field_count m + length vs \<le> FIELD_CAPACITY \<Longrightarrow>
   accepts_all (accepts_version A) (deliver_version A) m vs"
proof (induction vs arbitrary: m)
  case Nil
  then show ?case by simp
next
  case (Cons v vs)
  then show ?case
    using merge_version_ok [of m v A] deliver_version_view(1) [of m v A]
    by (auto simp: accepts_version_def)
qed

section \<open>A pull in both directions\<close>

text \<open>Importing a full frame leaves, field by field, the newest of what the two managers hold.\<close>

lemma pull_view:
  assumes inv: "swarm_inv s" and m: "sm_inv m" and nb: "node_inv (sw_hist s) b mb"
    and acc: "accepts_all (accepts_version A) (deliver_version A) m (frame_versions mb 0)"
    and r: "r = foldl (deliver_version A) m (frame_versions mb 0)"
  shows "case view r (0, k) of None \<Rightarrow> view m (0, k) = None \<and> view mb (0, k) = None
     | Some v \<Rightarrow> (view m (0, k) = Some v \<or> view mb (0, k) = Some v) \<and>
         (\<forall>w. view mb (0, k) = Some w \<longrightarrow> stamp w \<le> stamp v)"
    and "set (frame_versions mb 0) \<subseteq> sw_hist s"
proof -
  have b: "sm_inv mb" "shared_ok mb" "shared_versions mb \<subseteq> sw_hist s" using nb by (simp_all add: node_inv_def)
  have "{v \<in> shared_versions mb. 0 < v_ts v} = shared_versions mb"
    using b(3) swarm_invD(5) [OF inv] by (auto simp: word_neq_0_conv)
  then have f: "set (frame_versions mb 0) = shared_versions mb" using frame_versions_set [OF b(1,2)] by simp
  then show "set (frame_versions mb 0) \<subseteq> sw_hist s" using b(3) by simp
  have "(\<exists>w\<in>shared_versions mb. version_key w = (0, k)) \<or> view mb (0, k) = None"
    "view mb (0, k) = Some w \<longleftrightarrow> w \<in> shared_versions mb \<and> version_key w = (0, k)" for w
    using shared_view_iff [OF b(2), of k] by blast+
  then show "case view r (0, k) of None \<Rightarrow> view m (0, k) = None \<and> view mb (0, k) = None
     | Some v \<Rightarrow> (view m (0, k) = Some v \<or> view mb (0, k) = Some v) \<and>
         (\<forall>w. view mb (0, k) = Some w \<longrightarrow> stamp w \<le> stamp v)"
    using world.deliver_all_lookup [OF m acc, of "(0, k)"] unfolding f r by (auto split: option.splits)
qed

lemma pull_converges:
  assumes inv: "swarm_inv s" and na: "node_inv (sw_hist s) a ma" and nb: "node_inv (sw_hist s) b mb"
    and acc: "accepts_all (accepts_version A) (deliver_version A) ma (frame_versions mb 0)"
    and ra: "ra = foldl (deliver_version A) ma (frame_versions mb 0)"
    and acc': "accepts_all (accepts_version A) (deliver_version A) mb (frame_versions ra 0)"
    and rb: "rb = foldl (deliver_version A) mb (frame_versions ra 0)"
  shows "view ra (0, k) = view rb (0, k)"
proof -
  have m: "sm_inv ma" "sm_inv mb" "shared_versions mb \<subseteq> sw_hist s" using na nb by (simp_all add: node_inv_def)
  note pull_a = pull_view [OF inv m(1) nb acc ra]
  have nra: "node_inv (sw_hist s) a ra" unfolding ra by (rule deliver_all_node_inv [OF inv na pull_a(2)])
  note La = pull_a(1) [of k] and Lb = pull_view(1) [OF inv m(2) nra acc' rb, of k]
  have uniq: "v = w" if "view mb (0, k) = Some v" "view ra (0, k) = Some w" "stamp v = stamp w" for v w
    using that swarm_invD(4) [OF inv, of v w] m(3) nra by (auto simp: shared_versions_def node_inv_def)
  show ?thesis
  proof (cases "view rb (0, k)")
    case None
    then show ?thesis using Lb by simp
  next
    case (Some v)
    show ?thesis
    proof (cases "view ra (0, k) = Some v")
      case False
      then have v: "view mb (0, k) = Some v" using Lb Some by simp
      then obtain w where w: "view ra (0, k) = Some w" using La by (cases "view ra (0, k)") auto
      have "stamp v = stamp w" using La Lb Some v w by (auto intro: order.antisym)
      then show ?thesis using uniq [OF v w] Some w by simp
    qed (simp add: Some)
  qed
qed

text \<open>
  C2. Repair by full exchange.  In any reachable state of the swarm let node \<open>a\<close> import the full
  shared frame exported by node \<open>b\<close>, and let \<open>b\<close> import the full frame \<open>a\<close> then exports.  Let every
  allocation succeed and let each store have a free slot for every record of the frame it imports.  Then both imports succeed and name
  their sender, the two shared streams are equal field by field, and the second import certifies it: the
  "behind" flag that would trigger another repair round is off.
\<close>

theorem full_exchange_converges:
  assumes reach: "swarm_reachable ids s" and ab: "a \<noteq> b"
    and nodes: "sw_nodes s a = Some ma" "sw_nodes s b = Some mb"
    and A: "\<forall>n. A n"
    and eb: "fleece_state_manager_export_shared A mb = Some (fb, zb)"
    and ra: "ra = ir_manager (import_impl (\<lambda>_. A) ma fb)"
    and ea: "fleece_state_manager_export_shared A ra = Some (fa, za)"
    and room: "sm_field_count ma + length (frame_versions mb 0) \<le> FIELD_CAPACITY"
      "sm_field_count mb + length (frame_versions ra 0) \<le> FIELD_CAPACITY"
  shows "ir_rc (import_impl (\<lambda>_. A) ma fb) = 0 \<and> ir_sender (import_impl (\<lambda>_. A) ma fb) = Some b \<and>
    ir_rc (import_impl (\<lambda>_. A) mb fa) = 0 \<and> ir_sender (import_impl (\<lambda>_. A) mb fa) = Some a \<and>
    (\<forall>k. view (ir_manager (import_impl (\<lambda>_. A) mb fa)) (FLEECE_SHARED_OWNER_ID, k) =
         view ra (FLEECE_SHARED_OWNER_ID, k)) \<and>
    ir_behind_shared (import_impl (\<lambda>_. A) mb fa) = Some False"
proof -
  have inv: "swarm_inv s" by (rule swarm_reachable_inv [OF reach])
  have na: "node_inv (sw_hist s) a ma" and nb: "node_inv (sw_hist s) b mb"
    using swarm_invD(1) [OF inv] nodes by blast+
  let ?ta = "touch_peer ma b" and ?tb = "touch_peer mb a"
  have na': "node_inv (sw_hist s) a ?ta" and nb': "node_inv (sw_hist s) b ?tb"
    using na nb by (simp_all add: touch_node_inv)
  have ids: "sm_node_id ma = a" "sm_node_id mb = b" "sm_inv ma" "sm_inv mb"
    using na nb by (simp_all add: node_inv_def)
  have Ib: "import_impl (\<lambda>_. A) ma fb = \<lparr>ir_rc = 0, ir_manager = foldl (deliver_version A) ?ta (frame_versions mb 0),
      ir_sender = Some b, ir_behind_self = Some False, ir_behind_shared = Some (compute_stream_digest
        (foldl (deliver_version A) ?ta (frame_versions mb 0)) 0 \<noteq> compute_stream_digest mb 0)\<rparr>"
    using import_shared_export [OF ids(4) eb [unfolded fleece_state_manager_export_shared_def], of ma _ A] ids ab
    by simp
  then have ra': "ra = foldl (deliver_version A) ?ta (frame_versions mb 0)" using ra by simp
  have wire: "\<forall>v\<in>set (frame_versions m 0). wire_version v \<and> A (length (v_data v))"
    if "node_inv (sw_hist s) n m" for n m
    using that frame_versions_set [of m 0] swarm_invD(2) [OF inv] A by (auto simp: node_inv_def)
  have fv: "frame_versions ?tb since = frame_versions mb since" for since
    by (simp add: frame_versions_def export_selected_def)
  have acc: "accepts_all (accepts_version A) (deliver_version A) ?ta (frame_versions ?tb 0)"
    unfolding fv using na' wire [OF nb] room(1) by (intro accepts_all_room) (simp_all add: node_inv_def)
  have "set (frame_versions mb 0) \<subseteq> sw_hist s"
    using nb frame_versions_set [of mb 0] by (auto simp: node_inv_def)
  then have nra: "node_inv (sw_hist s) a ra"
    unfolding ra' by (intro deliver_all_node_inv [OF inv na'])
  then have ra_id: "sm_node_id ra = a" "sm_inv ra" by (simp_all add: node_inv_def)
  have acc': "accepts_all (accepts_version A) (deliver_version A) ?tb (frame_versions ra 0)"
    using nb' wire [OF nra] room(2) by (intro accepts_all_room) (simp_all add: node_inv_def)
  let ?rb = "foldl (deliver_version A) ?tb (frame_versions ra 0)"
  have Ia: "import_impl (\<lambda>_. A) mb fa = \<lparr>ir_rc = 0, ir_manager = ?rb,
      ir_sender = Some a, ir_behind_self = Some False,
      ir_behind_shared = Some (compute_stream_digest ?rb 0 \<noteq> compute_stream_digest ra 0)\<rparr>"
    using import_shared_export [OF ra_id(2) ea [unfolded fleece_state_manager_export_shared_def], of mb _ A] ids ab ra_id
    by simp
  have eq: "view ra (0, k) = view ?rb (0, k)" for k
    using pull_converges [OF inv na' nb' acc _ acc' refl] by (simp add: ra' fv)
  have "sm_inv ?rb"
    using accepts_version_inv [OF _ acc'] nb' by (simp add: node_inv_def)
  then have "compute_stream_digest ?rb 0 = compute_stream_digest ra 0"
    using ra_id(2) eq by (intro stream_digest_cong) simp_all
  then show ?thesis
    using Ib Ia eq by simp
qed

end
