(* ===== verification/Bounded_Export.thy ===== *)
theory Bounded_Export
  imports Anti_Entropy
begin

text \<open>
  The size-capped export of the shared stream: which records a frame takes, that the watermark it
  reports never passes a record it left out, and that a record which stays eligible is sent after
  a bounded number of frames.
\<close>

section \<open>The packing order\<close>

interpretation export_sort: shift_order export_later
proof
  fix x y z :: eligible
  show "export_later x y \<Longrightarrow> \<not> export_later y x"
    by (cases x; cases y) auto
  show "\<not> export_later x y \<Longrightarrow> \<not> export_later y z \<Longrightarrow> \<not> export_later x z"
    by (cases x; cases y; cases z) (auto simp: not_less)
qed

lemma eligible_iff:
  "(i, ets, ts) \<in> set (eligible_fields m since) \<longleftrightarrow>
   i < field_capacity m \<and> named_of FLEECE_SHARED_OWNER_ID (sm_fields m ! i) \<and>
   since < fe_timestamp (sm_fields m ! i) \<and> ets = fe_last_export_ts (sm_fields m ! i) \<and>
   ts = fe_timestamp (sm_fields m ! i)"
  by (auto simp: eligible_fields_def not_le)

lemma export_order_props:
  "set (export_order m since) = set (eligible_fields m since)"
  "distinct (map fst (export_order m since))"
  "sorted_wrt (\<lambda>a b. \<not> export_later a b) (export_order m since)"
proof -
  show set: "set (export_order m since) = set (eligible_fields m since)"
    by (simp add: export_order_def)
  have "distinct (map fst (eligible_fields m since))"
    by (simp add: eligible_fields_def comp_def)
  then have "inj_on fst (set (export_order m since))" "distinct (export_order m since)"
    by (simp_all add: distinct_map set export_order_def)
  then show "distinct (map fst (export_order m since))"
    by (simp add: distinct_map)
  show "sorted_wrt (\<lambda>a b. \<not> export_later a b) (export_order m since)"
    unfolding export_order_def by (rule export_sort.sorted_insertion_sort)
qed

section \<open>The packing loop\<close>

abbreviation mark :: "u64 \<Rightarrow> FieldEntry \<Rightarrow> FieldEntry" where
  "mark now f \<equiv> f\<lparr>fe_last_export_ts := now\<rparr>"

lemma record_size_mark [simp]: "record_size sh (mark now f) = record_size sh f"
  by (simp add: record_size_def record_data_len_def)

lemma pack_loop_split:
  "pack_loop cap now es fs body taken mx = (fs', body', taken', mx', left) \<Longrightarrow>
   \<forall>e\<in>set es. fst e < length fs \<Longrightarrow>
   \<exists>us. es = us @ left \<and> taken' = taken @ map fst us \<and> (es \<noteq> [] \<and> taken = [] \<longrightarrow> us \<noteq> []) \<and>
     length fs' = length fs \<and>
     (\<forall>i<length fs. fs' ! i = (if i \<in> fst ` set us then mark now (fs ! i) else fs ! i)) \<and>
     body' = body + sum_list (map (\<lambda>u. record_size True (fs ! fst u)) us) \<and>
     (length taken' > max 1 (length taken) \<longrightarrow> body' \<le> cap) \<and>
     mx \<le> mx' \<and> (\<forall>u\<in>set us. fe_timestamp (fs ! fst u) \<le> mx')"
proof (induction es arbitrary: fs body taken mx)
  case Nil
  then show ?case by auto
next
  case (Cons e es)
  obtain i ets ts where e: "e = (i, ets, ts)" by (cases e)
  let ?f = "fs ! i"
  let ?mx = "if fe_timestamp ?f > mx then fe_timestamp ?f else mx"
  show ?case
  proof (cases "length taken > 0 \<and> body + record_size True ?f > cap")
    case True
    then show ?thesis
      using Cons.prems e by (intro exI [of _ "[]"]) (auto simp: Let_def)
  next
    case False
    have run: "pack_loop cap now es (fs[i := mark now ?f]) (body + record_size True ?f) (taken @ [i]) ?mx
        = (fs', body', taken', mx', left)"
      using Cons.prems(1) False by (auto simp: e Let_def)
    have rng: "i < length fs" "\<forall>e\<in>set es. fst e < length (fs[i := mark now ?f])"
      using Cons.prems(2) by (simp_all add: e)
    obtain us where us: "es = us @ left" "taken' = (taken @ [i]) @ map fst us" "length fs' = length fs"
      "\<forall>j<length fs. fs' ! j = (if j \<in> fst ` set us then mark now (fs[i := mark now ?f] ! j) else fs[i := mark now ?f] ! j)"
      "body' = body + record_size True ?f + sum_list (map (\<lambda>u. record_size True (fs[i := mark now ?f] ! fst u)) us)"
      "length taken' > max 1 (length (taken @ [i])) \<longrightarrow> body' \<le> cap" "?mx \<le> mx'"
      "\<forall>u\<in>set us. fe_timestamp (fs[i := mark now ?f] ! fst u) \<le> mx'"
      using Cons.IH [OF run rng(2)] by auto
    have same: "record_size True (fs[i := mark now ?f] ! j) = record_size True (fs ! j)"
      "fe_timestamp (fs[i := mark now ?f] ! j) = fe_timestamp (fs ! j)" for j
      using rng(1) by (cases "j = i"; simp)+
    have "fe_timestamp ?f \<le> mx'" "mx \<le> mx'"
      using us(7) by (auto split: if_splits intro: order.trans)
    moreover have "body' \<le> cap" if "length taken' > max 1 (length taken)"
    proof (cases "us = []")
      case True
      then show ?thesis using that us(2,5) False by auto
    next
      case False
      then show ?thesis using us(2,6) by (cases us) auto
    qed
    ultimately show ?thesis
      using us rng(1) unfolding same
      by (intro exI [of _ "e # us"]) (auto simp: e nth_list_update)
  qed
qed

text \<open>The result of packing: a prefix of the order is taken, the rest is left over.\<close>

lemma export_order_range: "\<forall>e\<in>set (export_order m since). fst e < field_capacity m"
  unfolding export_order_props(1) by (auto simp: eligible_fields_def)

lemma pack_result_split:
  assumes "pack_result m since cap = (fs, body, taken, mx, left)"
  obtains us where "export_order m since = us @ left" "taken = map fst us" "export_order m since \<noteq> [] \<longrightarrow> us \<noteq> []"
    "length fs = field_capacity m"
    "\<And>i. i < field_capacity m \<Longrightarrow>
       fs ! i = (if i \<in> set taken then mark (sm_local_timestamp m) (sm_fields m ! i) else sm_fields m ! i)"
    "body = bounded_header_size m + sum_list (map (\<lambda>i. record_size True (sm_fields m ! i)) taken)"
    "length taken > 1 \<Longrightarrow> body \<le> cap"
    "\<And>i. i \<in> set taken \<Longrightarrow> fe_timestamp (sm_fields m ! i) \<le> mx"
  using pack_loop_split [OF assms [unfolded pack_result_def] export_order_range]
proof (elim exE conjE)
  fix us
  assume us: "export_order m since = us @ left" "taken = [] @ map fst us"
    "export_order m since \<noteq> [] \<and> [] = [] \<longrightarrow> us \<noteq> []" "length fs = field_capacity m"
    "\<forall>i<field_capacity m. fs ! i =
       (if i \<in> fst ` set us then mark (sm_local_timestamp m) (sm_fields m ! i) else sm_fields m ! i)"
    "body = bounded_header_size m + sum_list (map (\<lambda>u. record_size True (sm_fields m ! fst u)) us)"
    "max 1 (length []) < length taken \<longrightarrow> body \<le> cap"
    "\<forall>u\<in>set us. fe_timestamp (sm_fields m ! fst u) \<le> mx"
  have set: "set taken = fst ` set us" by (simp add: us(2))
  show thesis
  proof (rule that [of us])
    show "taken = map fst us" using us(2) by simp
    show "body = bounded_header_size m + sum_list (map (\<lambda>i. record_size True (sm_fields m ! i)) taken)"
      unfolding us(2,6) by (simp add: comp_def)
    show "length taken > 1 \<Longrightarrow> body \<le> cap" using us(7) by simp
    show "fe_timestamp (sm_fields m ! i) \<le> mx" if "i \<in> set taken" for i
      using that us(8) unfolding set by blast
    show "fs ! i = (if i \<in> set taken then mark (sm_local_timestamp m) (sm_fields m ! i) else sm_fields m ! i)"
      if "i < field_capacity m" for i
      using that us(5) unfolding set by blast
    show "export_order m since \<noteq> [] \<longrightarrow> us \<noteq> []" using us(3) by blast
  qed (fact us)+
qed

section \<open>The watermark\<close>

lemma leftover_min:
  "foldl (\<lambda>mn (i, ets, ts). if ts < mn then ts else mn) b left \<le> (b :: u64) \<and>
   (\<forall>(i, ets, ts)\<in>set left. foldl (\<lambda>mn (i, ets, ts). if ts < mn then ts else mn) b left \<le> ts) \<and>
   (foldl (\<lambda>mn (i, ets, ts). if ts < mn then ts else mn) b left = b \<or>
    foldl (\<lambda>mn (i, ets, ts). if ts < mn then ts else mn) b left \<in> snd ` snd ` set (left :: eligible list))"
proof (induction left arbitrary: b)
  case Nil
  then show ?case by simp
next
  case (Cons e left)
  obtain i ets ts where e: "e = (i, ets, ts)" by (cases e)
  show ?case
    using Cons.IH [of "if ts < b then ts else b"] unfolding e
    by (auto simp: not_less split: if_splits intro: order.trans)
qed

lemma word_pred_less: "0 < w \<Longrightarrow> w - 1 < (w :: u64)"
  by (simp add: word_less_nat_alt unat_sub_if_size Suc_le_eq)

lemma word_le_pred: "a < b \<Longrightarrow> a \<le> b - (1 :: u64)"
  by (simp add: word_le_nat_alt word_less_nat_alt unat_sub_if_size)

lemma clamp_watermark_below:
  assumes "(i, ets, ts) \<in> set left" and "ts \<noteq> UINT64_MAX"
    and pos: "\<forall>(i, ets, ts)\<in>set left. since < ts"
  shows "clamp_watermark left mx < ts"
proof -
  let ?mn = "foldl (\<lambda>mn (i, ets, ts). if ts < mn then ts else mn) UINT64_MAX left"
  have mn: "?mn \<le> ts" and mem: "?mn = UINT64_MAX \<or> ?mn \<in> snd ` snd ` set left"
    using leftover_min [of UINT64_MAX left] assms(1) by auto
  have ne: "?mn \<noteq> UINT64_MAX" using mn assms(2) word_order.extremum_uniqueI by metis
  then have "0 < ?mn" using mem pos by (fastforce simp: word_gt_0)
  then have "?mn - 1 < ?mn" by (rule word_pred_less)
  then have "clamp_watermark left mx < ?mn"
    using ne by (auto simp: clamp_watermark_def Let_def not_less)
  then show ?thesis using mn by (rule less_le_trans)
qed

lemma clamp_watermark_above:
  assumes "\<forall>(i, ets, ts)\<in>set left. since < ts" and "since \<le> mx"
  shows "since \<le> clamp_watermark left mx"
proof -
  let ?mn = "foldl (\<lambda>mn (i, ets, ts). if ts < mn then ts else mn) UINT64_MAX left"
  have "?mn = UINT64_MAX \<or> since < ?mn"
    using leftover_min [of UINT64_MAX left] assms(1) by fastforce
  then show ?thesis
    using assms(2) by (auto simp: clamp_watermark_def Let_def word_le_pred)
qed


section \<open>No record is lost\<close>

abbreviation bounded_export ::
    "allocator \<Rightarrow> FleeceStateManager \<Rightarrow> u64 \<Rightarrow> nat \<Rightarrow> frame option \<times> u64 \<times> FleeceStateManager" where
  "bounded_export \<equiv> fleece_state_manager_export_shared_delta_bounded"

definition is_eligible :: "FleeceStateManager \<Rightarrow> u64 \<Rightarrow> nat \<Rightarrow> bool" where
  "is_eligible m since i \<longleftrightarrow>
     i < field_capacity m \<and> named_of FLEECE_SHARED_OWNER_ID (sm_fields m ! i) \<and>
     since < fe_timestamp (sm_fields m ! i)"

definition taken_by :: "FleeceStateManager \<Rightarrow> u64 \<Rightarrow> nat \<Rightarrow> nat list" where
  "taken_by m since cap = fst (snd (snd (pack_result m since cap)))"

lemma order_eligible: "fst ` set (export_order m since) = {i. is_eligible m since i}"
  unfolding export_order_props(1)
  by (auto simp: eligible_fields_def is_eligible_def not_le image_image)

lemma order_since:
  "(i, ets, ts) \<in> set (export_order m since) \<Longrightarrow>
   since < ts \<and> ts = fe_timestamp (sm_fields m ! i) \<and> ets = fe_last_export_ts (sm_fields m ! i)"
  unfolding export_order_props(1) by (auto simp: eligible_iff)

lemma bounded_manager:
  assumes "bounded_export A m since cap = (fr, inc, m')"
    and "pack_result m since cap = (fs, body, taken, mx, left)"
  shows "m' = m\<lparr>sm_fields := fs\<rparr>" and "inc = clamp_watermark left mx" and "taken_by m since cap = taken"
  using assms by (auto simp: fleece_state_manager_export_shared_delta_bounded_def taken_by_def Let_def split: if_splits)

lemma taken_eligible: "set (taken_by m since cap) \<subseteq> {i. is_eligible m since i}"
  "distinct (taken_by m since cap)"
proof -
  obtain fs body taken mx left where p: "pack_result m since cap = (fs, body, taken, mx, left)"
    by (cases "pack_result m since cap")
  obtain us where us: "export_order m since = us @ left" "taken = map fst us"
    using pack_result_split [OF p] .
  have "set taken \<subseteq> fst ` set (export_order m since)" "distinct taken"
    using export_order_props(2) [of m since] by (auto simp: us)
  then show "set (taken_by m since cap) \<subseteq> {i. is_eligible m since i}" "distinct (taken_by m since cap)"
    unfolding order_eligible by (simp_all add: p taken_by_def)
qed

lemma watermark_safe:
  assumes inv: "sm_inv m" and clk: "sm_local_timestamp m \<noteq> UINT64_MAX"
    and ex: "bounded_export A m since cap = (fr, inc, m')"
    and el: "is_eligible m since i" and out: "i \<notin> set (taken_by m since cap)"
  shows "inc < fe_timestamp (sm_fields m ! i)"
proof -
  obtain fs body taken mx left where p: "pack_result m since cap = (fs, body, taken, mx, left)"
    by (cases "pack_result m since cap")
  obtain us where us: "export_order m since = us @ left" "taken = map fst us"
    using pack_result_split [OF p] .
  note B = bounded_manager [OF ex p]
  have "i \<in> fst ` set (export_order m since)" unfolding order_eligible using el by simp
  then have "i \<in> fst ` set left" using out B(3) by (auto simp: us)
  then obtain ets ts where l: "(i, ets, ts) \<in> set left" by force
  have sinces: "\<forall>(i, ets, ts)\<in>set left. since < ts" and ts: "ts = fe_timestamp (sm_fields m ! i)"
    using order_since [of _ _ _ m since] l unfolding us(1) by auto
  have "fe_exists (sm_fields m ! i)" "i < FIELD_CAPACITY"
    using el sm_invD(1) [OF inv] by (auto simp: is_eligible_def named_of_def)
  then have "ts \<le> sm_local_timestamp m"
    unfolding ts using sm_invD(3,5) [OF inv] by blast
  then have "ts \<noteq> UINT64_MAX"
    using clk word_order.extremum_uniqueI by metis
  then show ?thesis
    using clamp_watermark_below [OF l _ sinces] B(2) ts by simp
qed

lemma bounded_fields:
  assumes ex: "bounded_export A m since cap = (fr, inc, m')"
  shows "field_capacity m' = field_capacity m"
    and "\<And>i. i < field_capacity m \<Longrightarrow> sm_fields m' ! i =
      (if i \<in> set (taken_by m since cap) then mark (sm_local_timestamp m) (sm_fields m ! i) else sm_fields m ! i)"
proof -
  obtain fs body taken mx left where p: "pack_result m since cap = (fs, body, taken, mx, left)"
    by (cases "pack_result m since cap")
  note B = bounded_manager [OF ex p]
  have len: "length fs = field_capacity m" and nth: "\<And>i. i < field_capacity m \<Longrightarrow>
      fs ! i = (if i \<in> set taken then mark (sm_local_timestamp m) (sm_fields m ! i) else sm_fields m ! i)"
    using pack_result_split [OF p] by blast+
  have fields: "sm_fields m' = fs" by (simp add: B(1))
  show "field_capacity m' = field_capacity m" unfolding fields by (rule len)
  show "sm_fields m' ! i =
      (if i \<in> set (taken_by m since cap) then mark (sm_local_timestamp m) (sm_fields m ! i) else sm_fields m ! i)"
    if "i < field_capacity m" for i
    unfolding fields B(3) by (rule nth [OF that])
qed


section \<open>Marking a record as exported changes nothing else\<close>

lemma mark_same [simp]:
  "entry_digest (mark t f) = entry_digest f" "live_named ow (mark t f) = live_named ow f"
  "named_of ow (mark t f) = named_of ow f" "version_of (mark t f) = version_of f"
  "field_ok (mark t f) = field_ok f" "write_record sh (mark t f) = write_record sh f"
  "wire_record_of sh ow (mark t f) = wire_record_of sh ow f"
  by (simp_all add: entry_digest_def live_named_def named_of_def version_of_def field_ok_def
      write_record_def record_data_len_def wire_record_of_def Let_def)

lemma marked_fields:
  assumes len: "length fs = field_capacity m"
    and nth: "\<And>i. i < field_capacity m \<Longrightarrow> fs ! i = sm_fields m ! i \<or> (\<exists>t. fs ! i = mark t (sm_fields m ! i))"
  shows "sm_inv m \<Longrightarrow> sm_inv (m\<lparr>sm_fields := fs\<rparr>)" and "view (m\<lparr>sm_fields := fs\<rparr>) = view m"
proof -
  let ?m = "m\<lparr>sm_fields := fs\<rparr>"
  have eq: "fe_key (fs ! i) = fe_key (sm_fields m ! i)" "fe_node_id (fs ! i) = fe_node_id (sm_fields m ! i)"
    "fe_exists (fs ! i) = fe_exists (sm_fields m ! i)" "field_ok (fs ! i) = field_ok (sm_fields m ! i)"
    "fe_timestamp (fs ! i) = fe_timestamp (sm_fields m ! i)" "version_of (fs ! i) = version_of (sm_fields m ! i)"
    if "i < field_capacity m" for i
    using nth [OF that] by auto
  have slots: "find_slot_owned ?m k ow = find_slot_owned m k ow" for k ow
    unfolding find_slot_owned_def using len by (intro index_of_cong) (simp_all add: eq)
  show "view ?m = view m"
  proof
    fix ok
    show "view ?m ok = view m ok"
    proof (cases "find_slot_owned m (snd ok) (fst ok)")
      case None
      then show ?thesis by (simp add: view_def slots)
    next
      case (Some i)
      then have "i < field_capacity m" unfolding find_slot_owned_def by (rule index_of_lt)
      then show ?thesis using Some by (simp add: view_def slots eq)
    qed
  qed
  assume inv: "sm_inv m"
  have cap: "field_capacity m = FIELD_CAPACITY" and n: "sm_field_count m \<le> FIELD_CAPACITY"
    using sm_invD(1,2) [OF inv] by auto
  have "store_inv fs (sm_field_count m)"
    using inv len cap n unfolding sm_inv_def store_inv_def by (simp add: eq)
  moreover have "clock_inv ?m"
    using inv cap n by (simp add: sm_inv_def clock_inv_def eq)
  ultimately show "sm_inv ?m"
    using inv by (simp add: sm_inv_def)
qed

lemma bounded_same:
  assumes "bounded_export A m since cap = (fr, inc, m')"
  shows "sm_inv m \<Longrightarrow> sm_inv m'" and "view m' = view m" and "sm_node_id m' = sm_node_id m"
    and "sm_local_timestamp m' = sm_local_timestamp m" and "sm_field_count m' = sm_field_count m"
proof -
  obtain fs body taken mx left where p: "pack_result m since cap = (fs, body, taken, mx, left)"
    by (cases "pack_result m since cap")
  note B = bounded_manager(1) [OF assms p]
  have len: "length fs = field_capacity m" and nth: "\<And>i. i < field_capacity m \<Longrightarrow>
      fs ! i = (if i \<in> set taken then mark (sm_local_timestamp m) (sm_fields m ! i) else sm_fields m ! i)"
    using pack_result_split [OF p] by blast+
  have "fs ! i = sm_fields m ! i \<or> (\<exists>t. fs ! i = mark t (sm_fields m ! i))" if "i < field_capacity m" for i
    using nth [OF that] by auto
  note M = marked_fields [OF len this]
  show "sm_inv m \<Longrightarrow> sm_inv m'" "view m' = view m" using M by (simp_all add: B)
  show "sm_node_id m' = sm_node_id m" "sm_local_timestamp m' = sm_local_timestamp m"
    "sm_field_count m' = sm_field_count m" by (simp_all add: B)
qed

section \<open>The frame\<close>

definition frame_fields :: "FleeceStateManager \<Rightarrow> u64 \<Rightarrow> nat \<Rightarrow> FieldEntry list" where
  "frame_fields m since cap =
     map (\<lambda>i. sm_fields m ! i) (filter (\<lambda>i. i \<in> set (taken_by m since cap)) [0..<field_capacity m])"

lemma taken_indices:
  "set (filter (\<lambda>i. i \<in> set (taken_by m since cap)) [0..<field_capacity m]) = set (taken_by m since cap)"
  using taken_eligible(1) [of m since cap] by (auto simp: is_eligible_def)

lemma frame_fields_length: "length (frame_fields m since cap) = length (taken_by m since cap)"
  using taken_indices [of m since cap] taken_eligible(2) [of m since cap]
  unfolding frame_fields_def length_map
  by (metis distinct_card distinct_filter distinct_upt)

lemma frame_fields_ok: "sm_inv m \<Longrightarrow> \<forall>f\<in>set (frame_fields m since cap). field_ok f \<and> named_of 0 f"
  using taken_eligible(1) [of m since cap] fields_ok [of m]
  by (auto simp: frame_fields_def is_eligible_def named_of_def)

lemma bounded_frame:
  assumes inv: "sm_inv m" and ex: "bounded_export A m since cap = (Some (buf, sz), inc, m')"
  shows "buf = write_gossip_header (sm_node_id m) FLEECE_SHARED_OWNER_ID
      (max_timestamp_for_owner m' FLEECE_SHARED_OWNER_ID) (compute_stream_digest m FLEECE_SHARED_OWNER_ID)
      (of_nat (length (frame_fields m since cap))) @ concat (map (write_record True) (frame_fields m since cap))"
    and "A (3 + fst (snd (pack_result m since cap)))"
proof -
  obtain fs body taken mx left where p: "pack_result m since cap = (fs, body, taken, mx, left)"
    by (cases "pack_result m since cap")
  note B = bounded_manager [OF ex p]
  have len: "length fs = field_capacity m" and nth: "\<And>i. i < field_capacity m \<Longrightarrow>
      fs ! i = (if i \<in> set taken then mark (sm_local_timestamp m) (sm_fields m ! i) else sm_fields m ! i)"
    using pack_result_split [OF p] by blast+
  have el: "i \<in> set taken \<Longrightarrow> i < field_capacity m \<and> fe_exists (sm_fields m ! i)" for i
    using taken_eligible(1) [of m since cap] unfolding B(3) by (auto simp: is_eligible_def named_of_def)
  let ?is = "filter (\<lambda>i. i \<in> set taken) [0..<field_capacity m]"
  have "filter (\<lambda>i. fe_exists (fs ! i) \<and> i \<in> set taken) [0..<length fs] = ?is"
    unfolding len using el nth by (intro filter_cong) auto
  moreover have "map (write_record True) (map (\<lambda>i. fs ! i) ?is) = map (write_record True) (frame_fields m since cap)"
    using nth by (simp add: frame_fields_def B(3))
  moreover have "compute_stream_digest m' 0 = compute_stream_digest m 0"
    using inv bounded_same(1,2) [OF ex] by (intro stream_digest_cong) simp_all
  ultimately show "buf = write_gossip_header (sm_node_id m) FLEECE_SHARED_OWNER_ID
      (max_timestamp_for_owner m' FLEECE_SHARED_OWNER_ID) (compute_stream_digest m FLEECE_SHARED_OWNER_ID)
      (of_nat (length (frame_fields m since cap))) @ concat (map (write_record True) (frame_fields m since cap))"
    using ex p frame_fields_length [of m since cap]
    by (auto simp: fleece_state_manager_export_shared_delta_bounded_def Let_def B(1,3) split: if_splits)
  show "A (3 + fst (snd (pack_result m since cap)))"
    using ex p by (auto simp: fleece_state_manager_export_shared_delta_bounded_def Let_def split: if_splits)
qed

text \<open>The bytes of a frame of the shared stream that carries the given records.\<close>

definition gossip_bytes :: "u64 \<Rightarrow> u64 \<Rightarrow> u64 \<Rightarrow> FieldEntry list \<Rightarrow> bytes" where
  "gossip_bytes sender hw digest fs =
     write_gossip_header sender FLEECE_SHARED_OWNER_ID hw digest (of_nat (length fs)) @ concat (map (write_record True) fs)"

lemma bounded_carries:
  assumes "sm_inv m" and "bounded_export A m since cap = (Some (buf, sz), inc, m')"
  shows "\<exists>hw digest. buf = gossip_bytes (sm_node_id m) hw digest (frame_fields m since cap)"
  using bounded_frame(1) [OF assms] unfolding gossip_bytes_def by blast

lemma frame_fields_set: "set (frame_fields m since cap) = (\<lambda>i. sm_fields m ! i) ` set (taken_by m since cap)"
  using taken_indices [of m since cap] by (simp add: frame_fields_def)

lemma small_header: "n \<le> FIELD_CAPACITY \<Longrightarrow> fleece_cbor_array_header_size (of_nat n) \<le> 3"
proof -
  assume "n \<le> FIELD_CAPACITY"
  then have "unat (ucast (of_nat n :: u32) :: u64) \<le> 128"
    by (simp add: unat_of_nat_32)
  then have "(ucast (of_nat n :: u32) :: u64) \<le> 0xFFFF"
    by (simp add: word_le_nat_alt)
  then show ?thesis
    by (simp add: fleece_cbor_array_header_size_def fleece_cbor_uint_size_def)
qed

lemma bounded_fits:
  assumes inv: "sm_inv m" and ex: "bounded_export A m since cap = (Some (buf, sz), inc, m')"
  shows "length buf \<le> 3 + fst (snd (pack_result m since cap))"
    and "length (taken_by m since cap) > 1 \<Longrightarrow> length buf \<le> 3 + cap"
proof -
  obtain fs body taken mx left where p: "pack_result m since cap = (fs, body, taken, mx, left)"
    by (cases "pack_result m since cap")
  note B = bounded_manager [OF ex p]
  have body: "body = bounded_header_size m + sum_list (map (\<lambda>i. record_size True (sm_fields m ! i)) taken)"
    and cap: "length taken > 1 \<Longrightarrow> body \<le> cap"
    using pack_result_split [OF p] by blast+
  have "sum_list (map (record_size True) (frame_fields m since cap)) =
      sum_list (map (\<lambda>i. record_size True (sm_fields m ! i)) taken)"
    using taken_indices [of m since cap] taken_eligible(2) [of m since cap] unfolding B(3)
    by (simp add: frame_fields_def comp_def B(3) sum_list_distinct_conv_sum_set)
  moreover have "length (frame_fields m since cap) \<le> FIELD_CAPACITY"
    using sm_invD(1) [OF inv] length_filter_le [of _ "[0..<field_capacity m]"] by (simp add: frame_fields_def)
  moreover have "fleece_cbor_array_header_size (of_nat (length (frame_fields m since cap))) \<le> 3"
    using calculation(2) by (rule small_header)
  ultimately have "length buf \<le> 3 + body"
    using frame_fields_ok [OF inv, of since cap]
      uint_size_bounds(2) [of "max_timestamp_for_owner m' 0"] uint_size_bounds(2) [of "compute_stream_digest m 0"]
    unfolding bounded_frame(1) [OF inv ex] body
    by (simp add: header_length records_length bounded_header_size_def)
  then show "length buf \<le> 3 + fst (snd (pack_result m since cap))"
    and "length (taken_by m since cap) > 1 \<Longrightarrow> length buf \<le> 3 + cap"
    using cap p B(3) by auto
qed


section \<open>Starvation freedom\<close>

text \<open>The slots whose turn comes no later than that of a record last exported at \<open>L\<close>.\<close>

definition due :: "u64 \<Rightarrow> FleeceStateManager \<Rightarrow> nat set" where
  "due L m = {x. x < field_capacity m \<and> fe_last_export_ts (sm_fields m ! x) \<le> L}"

lemma due_finite [simp]: "finite (due L m)"
  by (simp add: due_def)

lemma export_consumes_due:
  assumes ex: "bounded_export A m since cap = (fr, inc, m')"
    and el: "is_eligible m since i" and out: "i \<notin> set (taken_by m since cap)"
    and clk: "fe_last_export_ts (sm_fields m ! i) < sm_local_timestamp m"
  defines "L \<equiv> fe_last_export_ts (sm_fields m ! i)"
  shows "card (due L m') < card (due L m)"
proof -
  obtain fs body taken mx left where p: "pack_result m since cap = (fs, body, taken, mx, left)"
    by (cases "pack_result m since cap")
  obtain us where us: "export_order m since = us @ left" "taken = map fst us"
    "export_order m since \<noteq> [] \<longrightarrow> us \<noteq> []"
    using pack_result_split [OF p] .
  note B = bounded_manager [OF ex p]
  have "i \<in> fst ` set (export_order m since)" unfolding order_eligible using el by simp
  then obtain ets ts where io: "(i, ets, ts) \<in> set (export_order m since)" by force
  have "(i, ets, ts) \<notin> set us"
  proof
    assume "(i, ets, ts) \<in> set us"
    then have "i \<in> set taken" unfolding us(2) by (metis fst_conv image_eqI set_map)
    then show False using out B(3) by simp
  qed
  then have left: "(i, ets, ts) \<in> set left" using io by (simp add: us(1))
  obtain u ue ut where hd: "hd us = (u, ue, ut)" by (cases "hd us")
  have "us \<noteq> []" using us(3) io by (metis empty_iff list.set(1))
  then have mem: "(u, ue, ut) \<in> set us" using hd by (metis list.set_sel(1))
  have "\<forall>x\<in>set us. \<forall>y\<in>set left. \<not> export_later x y"
    using export_order_props(3) [of m since] by (simp add: us(1) sorted_wrt_append)
  then have "\<not> export_later (u, ue, ut) (i, ets, ts)"
    using mem left by blast
  then have "ue \<le> ets" by (simp add: not_less)
  moreover have "ets = L" using order_since [OF io] by (simp add: L_def)
  moreover have "ue = fe_last_export_ts (sm_fields m ! u)"
    using order_since [of u ue ut m since] mem by (simp add: us(1))
  ultimately have ue: "fe_last_export_ts (sm_fields m ! u) \<le> L" by simp
  have u: "u \<in> set (taken_by m since cap)"
    unfolding B(3) us(2) using mem by (metis fst_conv image_eqI set_map)
  then have uc: "u < field_capacity m"
    using taken_eligible(1) [of m since cap] by (auto simp: is_eligible_def)
  have "x \<in> due L m \<and> x \<noteq> u" if x: "x \<in> due L m'" for x
  proof -
    have xc: "x < field_capacity m" and xl: "fe_last_export_ts (sm_fields m' ! x) \<le> L"
      using x bounded_fields(1) [OF ex] by (simp_all add: due_def)
    have "x \<notin> set (taken_by m since cap)"
      using bounded_fields(2) [OF ex xc] xl clk by (auto simp: L_def not_less [symmetric])
    then show ?thesis
      using bounded_fields(2) [OF ex xc] xl xc u by (auto simp: due_def)
  qed
  then have "due L m' \<subseteq> due L m - {u}" by blast
  then have "card (due L m') \<le> card (due L m - {u})" by (intro card_mono) simp_all
  also have "\<dots> < card (due L m)" using ue uc by (intro card_Diff1_less) (simp_all add: due_def)
  finally show ?thesis .
qed

lemma starvation_bound:
  assumes step: "\<And>j. j < n \<Longrightarrow> \<exists>A fr inc m'. bounded_export A (M j) (S j) (C j) = (fr, inc, m') \<and>
      map fe_last_export_ts (sm_fields (M (Suc j))) = map fe_last_export_ts (sm_fields m')"
    and el: "\<And>j. j < n \<Longrightarrow> is_eligible (M j) (S j) i"
    and clk: "\<And>j. j < n \<Longrightarrow> L < sm_local_timestamp (M j)"
    and L: "L = fe_last_export_ts (sm_fields (M 0) ! i)"
    and out: "\<And>j. j < n \<Longrightarrow> i \<notin> set (taken_by (M j) (S j) (C j))"
    and i: "i < field_capacity (M 0)"
  shows "k \<le> n \<Longrightarrow> field_capacity (M k) = field_capacity (M 0) \<and>
    fe_last_export_ts (sm_fields (M k) ! i) = L \<and> card (due L (M k)) + k \<le> card (due L (M 0))"
proof (induction k)
  case 0
  then show ?case by (simp add: L)
next
  case (Suc k)
  then have k: "k < n" and IH: "field_capacity (M k) = field_capacity (M 0)"
    "fe_last_export_ts (sm_fields (M k) ! i) = L" "card (due L (M k)) + k \<le> card (due L (M 0))"
    by simp_all
  obtain A fr inc m' where ex: "bounded_export A (M k) (S k) (C k) = (fr, inc, m')"
    and same: "map fe_last_export_ts (sm_fields (M (Suc k))) = map fe_last_export_ts (sm_fields m')"
    using step [OF k] by blast
  have len: "field_capacity (M (Suc k)) = field_capacity m'" "field_capacity m' = field_capacity (M 0)"
    using map_eq_imp_length_eq [OF same] bounded_fields(1) [OF ex] IH(1) by simp_all
  have nth: "fe_last_export_ts (sm_fields (M (Suc k)) ! x) = fe_last_export_ts (sm_fields m' ! x)"
    if "x < field_capacity (M 0)" for x
    using same that len by (metis nth_map)
  have "fe_last_export_ts (sm_fields m' ! i) = L"
    using bounded_fields(2) [OF ex, of i] IH(1,2) i out [OF k] by simp
  moreover have "card (due L m') < card (due L (M k))"
    using export_consumes_due [OF ex el [OF k] out [OF k]] clk [OF k] IH(2) by simp
  moreover have "due L (M (Suc k)) = due L m'"
    using len nth by (auto simp: due_def)
  ultimately show ?case
    using len nth [OF i] IH(3) by simp
qed

lemma taken_in_time:
  assumes cap: "field_capacity (M 0) = FIELD_CAPACITY"
    and step: "\<forall>j<FIELD_CAPACITY. map fe_last_export_ts (sm_fields (M (Suc j))) =
        map fe_last_export_ts (sm_fields (snd (snd (bounded_export (As j) (M j) (S j) (C j)))))"
    and el: "\<forall>j<FIELD_CAPACITY. is_eligible (M j) (S j) i"
    and clk: "\<forall>j<FIELD_CAPACITY. fe_last_export_ts (sm_fields (M 0) ! i) < sm_local_timestamp (M j)"
  shows "\<exists>j<FIELD_CAPACITY. i \<in> set (taken_by (M j) (S j) (C j))"
proof (rule ccontr)
  assume "\<not> (\<exists>j<FIELD_CAPACITY. i \<in> set (taken_by (M j) (S j) (C j)))"
  then have out: "\<And>j. j < FIELD_CAPACITY \<Longrightarrow> i \<notin> set (taken_by (M j) (S j) (C j))" by blast
  let ?L = "fe_last_export_ts (sm_fields (M 0) ! i)"
  have i: "i < field_capacity (M 0)" using el by (auto simp: is_eligible_def)
  have step': "\<exists>A fr inc m'. bounded_export A (M j) (S j) (C j) = (fr, inc, m') \<and>
      map fe_last_export_ts (sm_fields (M (Suc j))) = map fe_last_export_ts (sm_fields m')"
    if "j < FIELD_CAPACITY" for j
    using step that by (metis prod.collapse)
  have end_: "field_capacity (M FIELD_CAPACITY) = field_capacity (M 0) \<and>
    fe_last_export_ts (sm_fields (M FIELD_CAPACITY) ! i) = ?L \<and>
    card (due ?L (M FIELD_CAPACITY)) + FIELD_CAPACITY \<le> card (due ?L (M 0))"
    by (rule starvation_bound [where n = FIELD_CAPACITY and M = M and S = S and C = C])
      (use step' el clk out i in auto)
  have "card (due ?L (M 0)) \<le> FIELD_CAPACITY"
    using card_mono [of "{..<FIELD_CAPACITY}" "due ?L (M 0)"] cap by (auto simp: due_def)
  then have "card (due ?L (M FIELD_CAPACITY)) = 0"
    using end_ by linarith
  then have "due ?L (M FIELD_CAPACITY) = {}"
    by simp
  moreover have "i \<in> due ?L (M FIELD_CAPACITY)"
    using end_ i by (simp add: due_def)
  ultimately show False by blast
qed

text \<open>
  C5. No starvation in the capped export.  Run 128 successive capped exports, each of which gets the memory for
  its frame, with any caps, any watermarks and arbitrary writes or merges in between (none of which touches a slot's export
  mark), while the shared record in slot \<open>i\<close> stays eligible and the clock is past the tick of its
  last export.  Then at least one of the 128 frames carries the bytes of the record, however often the other
  fields are rewritten.
\<close>

theorem export_no_starvation:
  assumes inv: "\<forall>j<FIELD_CAPACITY. sm_inv (M j)"
    and step: "\<forall>j<FIELD_CAPACITY. map fe_last_export_ts (sm_fields (M (Suc j))) =
        map fe_last_export_ts (sm_fields (snd (snd
          (fleece_state_manager_export_shared_delta_bounded (As j) (M j) (S j) (C j)))))"
    and frames: "\<forall>j<FIELD_CAPACITY. fst (fleece_state_manager_export_shared_delta_bounded (As j) (M j) (S j) (C j)) \<noteq> None"
    and el: "\<forall>j<FIELD_CAPACITY. is_eligible (M j) (S j) i"
    and clk: "\<forall>j<FIELD_CAPACITY. fe_last_export_ts (sm_fields (M 0) ! i) < sm_local_timestamp (M j)"
  shows "\<exists>j<FIELD_CAPACITY. \<exists>sz hw digest fs.
    fst (fleece_state_manager_export_shared_delta_bounded (As j) (M j) (S j) (C j)) =
      Some (gossip_bytes (sm_node_id (M j)) hw digest fs, sz) \<and> sm_fields (M j) ! i \<in> set fs"
proof -
  have "field_capacity (M 0) = FIELD_CAPACITY" using inv by (intro sm_invD(1)) simp
  from taken_in_time [OF this step el clk] obtain j where j: "j < FIELD_CAPACITY" "i \<in> set (taken_by (M j) (S j) (C j))" by blast
  obtain buf sz inc m' where ex: "bounded_export (As j) (M j) (S j) (C j) = (Some (buf, sz), inc, m')"
    using frames j(1) by (metis option.exhaust_sel prod.collapse)
  obtain hw digest where "buf = gossip_bytes (sm_node_id (M j)) hw digest (frame_fields (M j) (S j) (C j))"
    using bounded_carries [OF _ ex] inv j(1) by blast
  moreover have "sm_fields (M j) ! i \<in> set (frame_fields (M j) (S j) (C j))" using j(2) by (simp add: frame_fields_set)
  ultimately show ?thesis using ex j(1) by (intro exI [of _ j]) auto
qed

end
