(* ===== verification/Gossip_Claims.thy ===== *)
theory Gossip_Claims
  imports Bounded_Export
begin

text \<open>
  The control-plane frames (index and value replies) and the properties of the exporters and the
  importer as they are used by the runtime.
\<close>

section \<open>Index and value replies\<close>

lemma write_value_record_live: "live_named ow f \<Longrightarrow> write_value_record f = write_record True f"
  by (simp add: live_named_def write_value_record_def write_record_def record_data_len_def)

lemma value_loop_split:
  "value_loop hashes fs hw body taken = (hw', body', taken') \<Longrightarrow>
   \<exists>us. taken' = taken @ us \<and>
     (\<forall>f\<in>set us. f \<in> set fs \<and> live_named FLEECE_SHARED_OWNER_ID f \<and> fe_key f \<in> set hashes) \<and>
     body' = body + sum_list (map (record_size True) us) \<and> length us \<le> length fs \<and>
     (taken = [] \<and> (\<exists>f\<in>set fs. live_named FLEECE_SHARED_OWNER_ID f \<and> fe_key f \<in> set hashes) \<longrightarrow> us \<noteq> [])"
proof (induction fs arbitrary: hw body taken)
  case Nil
  then show ?case by simp
next
  case (Cons f fs)
  let ?hw = "if live_named 0 f \<and> fe_timestamp f > hw then fe_timestamp f else hw"
  let ?skip = "\<not> live_named 0 f \<or> fe_key f \<notin> set hashes \<or>
      (length taken > 0 \<and> body + record_size True f > FLEECE_VALUE_FRAME_BYTE_CAP)"
  have size: "live_named 0 f \<Longrightarrow> fleece_cbor_array_header_size 5 + fleece_cbor_uint_size (fe_origin_node_id f) + 1
      + fleece_cbor_text_size (u32_strlen (fe_name f)) + fleece_cbor_uint_size (fe_timestamp f)
      + fleece_cbor_bytes_size (fe_size f) = record_size True f"
    by (simp add: live_named_def record_size_def record_data_len_def)
  show ?case
  proof (cases ?skip)
    case True
    then have run: "value_loop hashes fs ?hw body taken = (hw', body', taken')"
      using Cons.prems size by (auto simp: Let_def split: if_splits)
    obtain us where us: "taken' = taken @ us"
      "\<forall>f\<in>set us. f \<in> set fs \<and> live_named 0 f \<and> fe_key f \<in> set hashes"
      "body' = body + sum_list (map (record_size True) us)" "length us \<le> length fs"
      "taken = [] \<and> (\<exists>f\<in>set fs. live_named 0 f \<and> fe_key f \<in> set hashes) \<longrightarrow> us \<noteq> []"
      using Cons.IH [OF run] by auto
    show ?thesis
      by (rule exI [of _ us]) (use us True in auto)
  next
    case False
    then have run: "value_loop hashes fs ?hw (body + record_size True f) (taken @ [f]) = (hw', body', taken')"
      using Cons.prems size by (auto simp: Let_def split: if_splits)
    obtain us where us: "taken' = (taken @ [f]) @ us"
      "\<forall>f\<in>set us. f \<in> set fs \<and> live_named 0 f \<and> fe_key f \<in> set hashes"
      "body' = body + record_size True f + sum_list (map (record_size True) us)" "length us \<le> length fs"
      using Cons.IH [OF run] by auto
    show ?thesis
      by (rule exI [of _ "f # us"]) (use us False in auto)
  qed
qed

lemma value_selection_split:
  assumes "value_selection m hashes = (hw, body, taken)"
  shows "\<forall>f\<in>set taken. f \<in> set (sm_fields m) \<and> live_named FLEECE_SHARED_OWNER_ID f \<and> fe_key f \<in> set hashes"
    and "body = fleece_cbor_array_header_size 5 + fleece_cbor_uint_size (sm_node_id m)
      + fleece_cbor_uint_size FLEECE_SHARED_OWNER_ID + 9
      + fleece_cbor_uint_size (compute_stream_digest m FLEECE_SHARED_OWNER_ID)
      + sum_list (map (record_size True) taken) + fleece_cbor_array_header_size (of_nat (length taken))"
    and "length taken \<le> field_capacity m"
    and "\<exists>f\<in>set (sm_fields m). live_named FLEECE_SHARED_OWNER_ID f \<and> fe_key f \<in> set hashes \<Longrightarrow> taken \<noteq> []"
proof -
  let ?c = "fleece_cbor_array_header_size (of_nat (length hashes))"
  let ?b = "fleece_cbor_array_header_size 5 + fleece_cbor_uint_size (sm_node_id m)
      + fleece_cbor_uint_size FLEECE_SHARED_OWNER_ID + 9
      + fleece_cbor_uint_size (compute_stream_digest m FLEECE_SHARED_OWNER_ID) + ?c"
  obtain b where run: "value_loop hashes (sm_fields m) 0 ?b [] = (hw, b, taken)"
    and body: "body = b - ?c + fleece_cbor_array_header_size (of_nat (length taken))"
    using assms by (auto simp: value_selection_def Let_def split: prod.splits)
  obtain us where us: "taken = us" "\<forall>f\<in>set us. f \<in> set (sm_fields m) \<and> live_named 0 f \<and> fe_key f \<in> set hashes"
    "b = ?b + sum_list (map (record_size True) us)" "length us \<le> field_capacity m"
    "(\<exists>f\<in>set (sm_fields m). live_named 0 f \<and> fe_key f \<in> set hashes) \<longrightarrow> us \<noteq> []"
    using value_loop_split [OF run] by auto
  show "\<forall>f\<in>set taken. f \<in> set (sm_fields m) \<and> live_named FLEECE_SHARED_OWNER_ID f \<and> fe_key f \<in> set hashes"
    "length taken \<le> field_capacity m"
    "\<exists>f\<in>set (sm_fields m). live_named FLEECE_SHARED_OWNER_ID f \<and> fe_key f \<in> set hashes \<Longrightarrow> taken \<noteq> []"
    using us by auto
  show "body = fleece_cbor_array_header_size 5 + fleece_cbor_uint_size (sm_node_id m)
      + fleece_cbor_uint_size FLEECE_SHARED_OWNER_ID + 9
      + fleece_cbor_uint_size (compute_stream_digest m FLEECE_SHARED_OWNER_ID)
      + sum_list (map (record_size True) taken) + fleece_cbor_array_header_size (of_nat (length taken))"
    unfolding body us(3) us(1) by simp
qed

lemma by_hash_frame:
  assumes inv: "sm_inv m" and ex: "fleece_state_manager_export_shared_by_hash A m hashes = Some (buf, sz)"
    and sel: "value_selection m hashes = (hw, body, taken)"
  shows "buf = write_gossip_header (sm_node_id m) 0 hw (compute_stream_digest m 0) (of_nat (length taken))
      @ concat (map (write_record True) taken)"
    and "\<forall>f\<in>set taken. field_ok f \<and> named_of 0 f"
    and "length buf \<le> 3 + body"
proof -
  note V = value_selection_split [OF sel]
  have "map write_value_record taken = map (write_record True) taken"
    using V(1) by (auto intro: write_value_record_live)
  then have eq: "concat (map write_value_record taken) = concat (map (write_record True) taken)" by (rule arg_cong)
  show buf: "buf = write_gossip_header (sm_node_id m) 0 hw (compute_stream_digest m 0) (of_nat (length taken))
      @ concat (map (write_record True) taken)"
    using ex sel by (simp add: fleece_state_manager_export_shared_by_hash_def Let_def eq split: if_splits)
  show ok: "\<forall>f\<in>set taken. field_ok f \<and> named_of 0 f"
    using V(1) fields_ok [OF inv] by (auto simp: live_named_def named_of_def)
  show "length buf \<le> 3 + body"
    using ok uint_size_bounds(2) [of hw] unfolding buf V(2)
    by (simp add: header_length records_length)
qed

lemma index_fits:
  assumes "fleece_state_manager_export_shared_index A m = Some (buf, sz)"
  shows "length buf \<le> index_frame_size m"
proof -
  have key: "fleece_cbor_uint_size (ucast (k :: u32)) \<le> 5" for k
  proof -
    have "unat (ucast k :: u64) < 2 ^ 32" using unsigned_less [of k] by simp
    then have "(ucast k :: u64) \<le> 0xFFFFFFFF" by (simp add: word_le_nat_alt)
    then show ?thesis by (simp add: fleece_cbor_uint_size_def)
  qed
  have one: "length (write_index_entry f) \<le> 15" for f
    using key [of "fe_key f"] uint_size_bounds(2) [of "fe_timestamp f"]
    by (simp add: write_index_entry_def size_simps fleece_cbor_array_header_size_def fleece_cbor_uint_size_def [of 2])
  have "length (concat (map write_index_entry fs)) \<le> length fs * 15" for fs
  proof (induction fs)
    case (Cons f fs)
    then show ?case using one [of f] by simp
  qed simp
  moreover have "fleece_cbor_array_header_size 2 + fleece_cbor_uint_size (ucast (UINT32_MAX :: u32))
      + fleece_cbor_uint_size UINT64_MAX = 15"
    by code_simp
  moreover have "fleece_cbor_uint_size 1 = 1" by (simp add: fleece_cbor_uint_size_def)
  ultimately show ?thesis
    using assms by (auto simp: fleece_state_manager_export_shared_index_def index_frame_size_def Let_def size_simps
        split: if_splits)
qed


text \<open>Importing a value reply.\<close>

lemma by_hash_delivers:
  assumes inv: "sm_inv m" and ex: "fleece_state_manager_export_shared_by_hash Ax m hashes = Some (buf, sz)"
    and s: "sm_node_id m \<noteq> sm_node_id r"
    and asked: "view m (FLEECE_SHARED_OWNER_ID, k) = Some v" "\<not> v_tomb v" "v_name v \<noteq> []" "k \<in> set hashes"
  shows "\<exists>vs. vs \<noteq> [] \<and>
    (\<forall>w\<in>set vs. \<not> v_tomb w \<and> (\<exists>h\<in>set hashes. view m (FLEECE_SHARED_OWNER_ID, h) = Some w)) \<and>
    ir_rc (import_impl (\<lambda>_. A) r buf) = 0 \<and>
    ir_manager (import_impl (\<lambda>_. A) r buf) = foldl (deliver_version A) (touch_peer r (sm_node_id m)) vs"
proof -
  obtain hw body taken where sel: "value_selection m hashes = (hw, body, taken)"
    by (cases "value_selection m hashes")
  note V = value_selection_split [OF sel] and F = by_hash_frame [OF inv ex sel]
  obtain i where i: "i < sm_field_count m" "fe_key (sm_fields m ! i) = k" "fe_node_id (sm_fields m ! i) = 0"
    "v = version_of (sm_fields m ! i)"
    using asked(1) view_Some_iff [OF inv] by blast
  have "i < field_capacity m" "fe_exists (sm_fields m ! i)"
    using i(1) sm_invD(1,2,3) [OF inv] by auto
  then have "sm_fields m ! i \<in> set (sm_fields m)" "live_named 0 (sm_fields m ! i)"
    using i asked(2,3) by (auto simp: live_named_def version_of_def)
  then have ne: "taken \<noteq> []"
    using V(4) i(2) asked(4) by blast
  have stored: "\<not> v_tomb (version_of f) \<and> (\<exists>h\<in>set hashes. view m (0, h) = Some (version_of f))"
    if "f \<in> set taken" for f
  proof -
    have f: "f \<in> set (sm_fields m)" "live_named 0 f" "fe_key f \<in> set hashes" using V(1) that by auto
    then obtain j where j: "j < FIELD_CAPACITY" "f = sm_fields m ! j"
      using sm_invD(1) [OF inv] by (auto simp: in_set_conv_nth)
    then have "view m (0, fe_key f) = Some (version_of f)"
      using f(2) sm_invD(3) [OF inv] view_Some_iff [OF inv] by (auto simp: live_named_def)
    with f show ?thesis by (auto simp: live_named_def version_of_def)
  qed
  have "import_impl (\<lambda>_. A) r buf = (let r' = merge_seq (\<lambda>_. A) True 0 0 taken (touch_peer r (sm_node_id m));
       behind = (compute_stream_digest r' 0 \<noteq> compute_stream_digest m 0)
     in \<lparr>ir_rc = 0, ir_manager = r', ir_sender = Some (sm_node_id m),
         ir_behind_self = Some False, ir_behind_shared = Some behind\<rparr>)"
    using import_frame [of buf "sm_node_id m" 0 hw "compute_stream_digest m 0" taken r] F(1,2) V(3) s
      sm_invD(1,6) [OF inv] by simp
  moreover have "merge_seq (\<lambda>_. A) True 0 0 taken (touch_peer r (sm_node_id m)) =
      foldl (deliver_version A) (touch_peer r (sm_node_id m)) (map version_of taken)"
    using F(2) by (intro merge_seq_versions) (auto simp: named_of_def)
  ultimately show ?thesis
    using ne stored by (intro exI [of _ "map version_of taken"]) (auto simp: Let_def)
qed

text \<open>The watermark of a capped export.\<close>

lemma bounded_watermark:
  assumes inv: "sm_inv m" and clk: "sm_local_timestamp m \<noteq> UINT64_MAX"
    and ex: "fleece_state_manager_export_shared_delta_bounded A m since cap = (Some (buf, sz), inc, m')"
  shows "(\<forall>i. is_eligible m since i \<longrightarrow> i \<in> set (taken_by m since cap) \<or> is_eligible m' inc i) \<and>
    ((\<exists>i. is_eligible m since i) \<longrightarrow> since \<le> inc \<and> taken_by m since cap \<noteq> []) \<and>
    (length (taken_by m since cap) > 1 \<longrightarrow> length buf \<le> 3 + cap)"
proof -
  have stay: "is_eligible m' inc i" if el: "is_eligible m since i" and out: "i \<notin> set (taken_by m since cap)" for i
    using watermark_safe [OF inv clk ex el out] bounded_fields [OF ex] el out by (simp add: is_eligible_def)
  have ahead: "since \<le> inc \<and> taken_by m since cap \<noteq> []" if el: "is_eligible m since i" for i
  proof -
    obtain fs body taken mx left where p: "pack_result m since cap = (fs, body, taken, mx, left)"
      by (cases "pack_result m since cap")
    obtain us where us: "export_order m since = us @ left" "taken = map fst us"
      "export_order m since \<noteq> [] \<longrightarrow> us \<noteq> []"
      using pack_result_split [OF p] .
    have mx: "\<And>i. i \<in> set taken \<Longrightarrow> fe_timestamp (sm_fields m ! i) \<le> mx"
      using pack_result_split [OF p] by blast
    have "i \<in> fst ` set (export_order m since)" unfolding order_eligible using el by simp
    then have ne: "taken \<noteq> []" using us by auto
    have "set taken \<subseteq> {i. is_eligible m since i}"
      using taken_eligible(1) [of m since cap] bounded_manager(3) [OF ex p] by simp
    then have "is_eligible m since (hd taken)"
      using hd_in_set [OF ne] by blast
    then have "since \<le> mx"
      using mx [OF hd_in_set [OF ne]] by (auto simp: is_eligible_def)
    moreover have "\<forall>(i, ets, ts)\<in>set left. since < ts"
      using order_since [of _ _ _ m since] unfolding us(1) by auto
    ultimately show ?thesis
      using clamp_watermark_above bounded_manager(2,3) [OF ex p] ne by simp
  qed
  show ?thesis
    using stay ahead bounded_fits(2) [OF inv ex] by blast
qed

section \<open>Properties\<close>

text \<open>
  C6. A gossip frame survives the wire.  Whatever stream and cutoff the sender exports, a receiver
  that is a different node and not the stream's owner parses the frame completely and performs
  exactly the merges of the exported records, in slot order; it learns the true sender; and it is
  told to be behind on that stream if and only if its digest still differs from the sender's.
\<close>

theorem gossip_roundtrip:
  assumes inv: "sm_inv m" and ex: "export_fields_since A m ow since = Some (buf, sz)"
    and s: "sm_node_id m \<noteq> sm_node_id r" and ow: "ow \<noteq> sm_node_id r"
    and r': "r' = merge_seq As (ow = FLEECE_SHARED_OWNER_ID) ow 0 (export_selected m ow since)
      (touch_peer r (sm_node_id m))"
  shows "import_impl As r buf =
    \<lparr>ir_rc = 0, ir_manager = r', ir_sender = Some (sm_node_id m),
     ir_behind_self = Some (ow \<noteq> FLEECE_SHARED_OWNER_ID \<and> compute_stream_digest r' ow \<noteq> compute_stream_digest m ow),
     ir_behind_shared = Some (ow = FLEECE_SHARED_OWNER_ID \<and> compute_stream_digest r' ow \<noteq> compute_stream_digest m ow)\<rparr>"
  using import_export [OF inv ex s] ow by (simp add: r' Let_def)

text \<open>
  C3. No frame is unsafe.  Importing any bytes whatsoever, under any allocation failures, keeps
  the store's invariant and the node's identity, never moves the clock back, never changes a
  field of the node's own stream, and never replaces a stored shared version by an older one.
\<close>

theorem import_any_bytes_safe:
  assumes inv: "sm_inv m" and m': "m' = ir_manager (import_impl As m buf)"
  shows "sm_inv m' \<and> sm_node_id m' = sm_node_id m \<and> sm_local_timestamp m \<le> sm_local_timestamp m' \<and>
    (\<forall>k. view m' (sm_node_id m, k) = view m (sm_node_id m, k)) \<and>
    (\<forall>k v. view m (FLEECE_SHARED_OWNER_ID, k) = Some v \<longrightarrow>
      (\<exists>w. view m' (FLEECE_SHARED_OWNER_ID, k) = Some w \<and> (w = v \<or> stamp v < stamp w)))"
  using import_safe [OF inv, of As buf] by (simp add: m' safe_change_def)

text \<open>
  C8. No exporter writes past its buffer: the unbounded exporter fills its allocation exactly,
  the capped, value-reply and index exporters stay within theirs.
\<close>

theorem exports_fit_buffers:
  assumes inv: "sm_inv m"
  shows "(\<forall>ow since buf sz. export_fields_since A m ow since = Some (buf, sz) \<longrightarrow>
      length buf = 3 + export_body_size m ow since) \<and>
    (\<forall>since cap buf sz inc m'. fleece_state_manager_export_shared_delta_bounded A m since cap = (Some (buf, sz), inc, m') \<longrightarrow>
      length buf \<le> 3 + fst (snd (pack_result m since cap))) \<and>
    (\<forall>hashes buf sz. fleece_state_manager_export_shared_by_hash A m hashes = Some (buf, sz) \<longrightarrow>
      length buf \<le> 3 + fst (snd (value_selection m hashes))) \<and>
    (\<forall>buf sz. fleece_state_manager_export_shared_index A m = Some (buf, sz) \<longrightarrow>
      length buf \<le> index_frame_size m)"
proof -
  have "length buf \<le> 3 + fst (snd (value_selection m hashes))"
    if "fleece_state_manager_export_shared_by_hash A m hashes = Some (buf, sz)" for hashes buf sz
    using by_hash_frame(3) [OF inv that, of "fst (value_selection m hashes)" "fst (snd (value_selection m hashes))"
        "snd (snd (value_selection m hashes))"] by simp
  then show ?thesis
    using export_exact_size(1) [OF inv] bounded_fits(1) [OF inv] index_fits by blast
qed

lemma nothing_eligible:
  assumes "bounded_export A m since cap = (fr, inc, m')" and "\<not> (\<exists>i. is_eligible m since i)"
  shows "inc = 0" and "frame_fields m since cap = []"
proof -
  have order: "export_order m since = []" using order_eligible [of m since] assms(2) by auto
  then show "inc = 0"
    using assms(1) by (auto simp: fleece_state_manager_export_shared_delta_bounded_def pack_result_def clamp_watermark_def Let_def
        split: if_splits)
  show "frame_fields m since cap = []"
    using taken_eligible(1) [of m since cap] frame_fields_length [of m since cap] assms(2) by auto
qed

text \<open>
  C4. The capped export loses nothing.  Let the clock be below its largest value.  A frame the export returns consists of the records of some eligible slots, those
  past the caller's watermark.  Each eligible record is carried by the frame or still past the watermark the call reports.  If
  some record is eligible then the frame is not empty and the reported watermark is not below the caller's; if none is, the
  frame carries no record and the reported watermark is 0.  A frame that carries more than one record
  respects the cap (plus the three magic bytes).
\<close>

theorem bounded_export_watermark:
  assumes inv: "sm_inv m" and clk: "sm_local_timestamp m \<noteq> UINT64_MAX"
    and ex: "fleece_state_manager_export_shared_delta_bounded A m since cap = (Some (buf, sz), inc, m')"
  shows "\<exists>hw digest fs. buf = gossip_bytes (sm_node_id m) hw digest fs \<and>
    (\<forall>f\<in>set fs. \<exists>i. is_eligible m since i \<and> f = sm_fields m ! i) \<and>
    (\<forall>i. is_eligible m since i \<longrightarrow> sm_fields m ! i \<in> set fs \<or> is_eligible m' inc i) \<and>
    (if \<exists>i. is_eligible m since i then since \<le> inc \<and> fs \<noteq> [] else inc = 0 \<and> fs = []) \<and>
    (length fs > 1 \<longrightarrow> length buf \<le> 3 + cap)"
proof -
  let ?fs = "frame_fields m since cap"
  obtain hw digest where buf: "buf = gossip_bytes (sm_node_id m) hw digest ?fs" using bounded_carries [OF inv ex] by blast
  note W = bounded_watermark [OF inv clk ex]
  have "\<forall>f\<in>set ?fs. \<exists>i. is_eligible m since i \<and> f = sm_fields m ! i"
    using taken_eligible(1) [of m since cap] by (auto simp: frame_fields_set)
  moreover have "\<forall>i. is_eligible m since i \<longrightarrow> sm_fields m ! i \<in> set ?fs \<or> is_eligible m' inc i"
    using W by (auto simp: frame_fields_set)
  moreover have "if \<exists>i. is_eligible m since i then since \<le> inc \<and> ?fs \<noteq> [] else inc = 0 \<and> ?fs = []"
  proof (cases "\<exists>i. is_eligible m since i")
    case True
    then have "since \<le> inc" "taken_by m since cap \<noteq> []" using W by blast+
    then show ?thesis using True frame_fields_length [of m since cap] by auto
  qed (use nothing_eligible [OF ex] in simp)
  moreover have "length ?fs > 1 \<longrightarrow> length buf \<le> 3 + cap" using W by (simp add: frame_fields_length)
  ultimately show ?thesis using buf by (intro exI [of _ hw] exI [of _ digest] exI [of _ ?fs]) simp
qed

text \<open>
  Value replies make progress and carry only what was asked for: if a live shared record
  matches a requested hash, the reply carries at least one record, every record it carries is a
  live record of the sender with a requested hash, and a peer that imports the reply performs
  exactly the deliveries of those versions.
\<close>

theorem value_reply_progress:
  assumes inv: "sm_inv m" and ex: "fleece_state_manager_export_shared_by_hash Ax m hashes = Some (buf, sz)"
    and s: "sm_node_id m \<noteq> sm_node_id r"
    and asked: "view m (FLEECE_SHARED_OWNER_ID, k) = Some v" "\<not> v_tomb v" "v_name v \<noteq> []" "k \<in> set hashes"
  shows "\<exists>vs. vs \<noteq> [] \<and>
    (\<forall>w\<in>set vs. \<not> v_tomb w \<and> (\<exists>h\<in>set hashes. view m (FLEECE_SHARED_OWNER_ID, h) = Some w)) \<and>
    ir_rc (import_impl (\<lambda>_. A) r buf) = 0 \<and>
    ir_manager (import_impl (\<lambda>_. A) r buf) = foldl (deliver_version A) (touch_peer r (sm_node_id m)) vs"
  by (rule by_hash_delivers [OF inv ex s asked])

section \<open>Concrete frames\<close>

abbreviation yes :: allocator where "yes \<equiv> \<lambda>_. True"

definition demo_frame_b :: bytes where
  "demo_frame_b = fst (the (fleece_state_manager_export_shared yes demo_b))"

definition demo_a' :: FleeceStateManager where
  "demo_a' = ir_manager (import_impl (\<lambda>_. yes) demo_a demo_frame_b)"

definition demo_frame_a :: bytes where
  "demo_frame_a = fst (the (fleece_state_manager_export_shared yes demo_a'))"

lemma export_yes: "fleece_state_manager_export_shared yes m =
    Some (fst (the (fleece_state_manager_export_shared yes m)), snd (the (fleece_state_manager_export_shared yes m)))"
  by (simp add: fleece_state_manager_export_shared_def export_fields_since_def Let_def)

lemma demo_room:
  "sm_field_count demo_a + length (frame_versions demo_b 0) \<le> FIELD_CAPACITY"
  "sm_field_count demo_b + length (frame_versions demo_a' 0) \<le> FIELD_CAPACITY"
  by code_simp+

theorem full_exchange_converges_witness:
  "(\<forall>k. view (ir_manager (import_impl (\<lambda>_. yes) demo_b demo_frame_a)) (FLEECE_SHARED_OWNER_ID, k) =
       view demo_a' (FLEECE_SHARED_OWNER_ID, k)) \<and>
   ir_behind_shared (import_impl (\<lambda>_. yes) demo_b demo_frame_a) = Some False \<and>
   ir_sender (import_impl (\<lambda>_. yes) demo_a demo_frame_b) = Some 2"
  using full_exchange_converges [OF demo_reachable _ demo_nodes _ export_yes demo_a'_def [unfolded demo_frame_b_def]
      export_yes demo_room]
  by (simp add: demo_frame_a_def demo_frame_b_def)

theorem gossip_roundtrip_witness:
  "ir_rc (import_impl (\<lambda>_. yes) demo_a demo_frame_b) = 0 \<and>
   ir_behind_shared (import_impl (\<lambda>_. yes) demo_a demo_frame_b) = Some False"
proof -
  have ex: "export_fields_since yes demo_b 0 0 = Some (demo_frame_b, snd (the (fleece_state_manager_export_shared yes demo_b)))"
    using export_yes [of demo_b] by (simp add: fleece_state_manager_export_shared_def demo_frame_b_def)
  have ids: "sm_node_id demo_b \<noteq> sm_node_id demo_a" "0 \<noteq> sm_node_id demo_a" by code_simp+
  have same: "compute_stream_digest (merge_seq (\<lambda>_. yes) True 0 0 (export_selected demo_b 0 0)
      (touch_peer demo_a (sm_node_id demo_b))) 0 = compute_stream_digest demo_b 0"
    by code_simp
  show ?thesis
    using gossip_roundtrip [OF demo_inv(2) ex ids refl, of "\<lambda>_. yes"] same by simp
qed

theorem import_any_bytes_safe_witness:
  "sm_inv demo_a \<and> sm_inv (ir_manager (import_impl (\<lambda>_. yes) demo_a [0x46, 0x47, 5, 0x85, 2, 0, 0, 0, 0x81, 0xFF]))"
  using import_any_bytes_safe [OF demo_inv(1) refl] demo_inv(1) by blast

theorem exports_fit_buffers_witness:
  "length demo_frame_b = 3 + export_body_size demo_b FLEECE_SHARED_OWNER_ID 0"
  using exports_fit_buffers [OF demo_inv(2), of yes] export_yes [of demo_b]
  unfolding fleece_state_manager_export_shared_def demo_frame_b_def by blast

definition demo_two :: FleeceStateManager where
  "demo_two = run_op yes (SetShared [98] [1, 2, 3] 3) demo_a"

lemma demo_two_inv: "sm_inv demo_two" and demo_two_clock: "sm_local_timestamp demo_two = 2"
proof -
  have "shared_effect demo_a demo_two"
    unfolding demo_two_def run_op.simps
    by (rule set_shared_effect [OF demo_inv(1)]) code_simp+
  then show "sm_inv demo_two" by (simp add: shared_effect_def)
  show "sm_local_timestamp demo_two = 2" by code_simp
qed

text \<open>With a cap of 40 bytes the second record waits, and the watermark stays below it.\<close>

lemma demo_bounded:
  "fleece_state_manager_export_shared_delta_bounded yes demo_two 0 40 =
   (Some (the (fst (fleece_state_manager_export_shared_delta_bounded yes demo_two 0 40))), 1,
    snd (snd (fleece_state_manager_export_shared_delta_bounded yes demo_two 0 40)))"
proof -
  have "fst (snd (fleece_state_manager_export_shared_delta_bounded yes demo_two 0 40)) = 1"
    by code_simp
  moreover have "fst (fleece_state_manager_export_shared_delta_bounded yes demo_two 0 40) \<noteq> None"
    by (simp add: fleece_state_manager_export_shared_delta_bounded_def Let_def split: prod.splits)
  ultimately show ?thesis
    by (metis option.exhaust_sel prod.collapse)
qed

theorem bounded_export_watermark_witness:
  "\<exists>hw digest fs. fst (the (fst (fleece_state_manager_export_shared_delta_bounded yes demo_two 0 40))) = gossip_bytes 1 hw digest fs \<and>
     fs \<noteq> [] \<and> (sm_fields demo_two ! 1 \<in> set fs \<or>
       is_eligible (snd (snd (fleece_state_manager_export_shared_delta_bounded yes demo_two 0 40))) 1 1)"
proof -
  let ?ex = "fleece_state_manager_export_shared_delta_bounded yes demo_two 0 40"
  have el: "is_eligible demo_two 0 1" and id: "sm_node_id demo_two = 1" by code_simp+
  have "sm_local_timestamp demo_two \<noteq> UINT64_MAX" by (simp add: demo_two_clock)
  moreover have "?ex = (Some (fst (the (fst ?ex)), snd (the (fst ?ex))), 1, snd (snd ?ex))" using demo_bounded by simp
  ultimately obtain hw digest fs where fs: "fst (the (fst ?ex)) = gossip_bytes (sm_node_id demo_two) hw digest fs"
    "\<forall>i. is_eligible demo_two 0 i \<longrightarrow> sm_fields demo_two ! i \<in> set fs \<or> is_eligible (snd (snd ?ex)) 1 i"
    "if \<exists>i. is_eligible demo_two 0 i then 0 \<le> (1 :: u64) \<and> fs \<noteq> [] else (1 :: u64) = 0 \<and> fs = []"
    using bounded_export_watermark [OF demo_two_inv] by blast
  moreover have "fs \<noteq> []" using fs(3) el by (cases "\<exists>i. is_eligible demo_two 0 i") auto
  ultimately show ?thesis using el id by (intro exI [of _ hw] exI [of _ digest] exI [of _ fs]) simp
qed

theorem value_reply_progress_witness:
  "\<exists>vs. vs \<noteq> [] \<and> ir_manager (import_impl (\<lambda>_. yes) demo_b
      (fst (the (fleece_state_manager_export_shared_by_hash yes demo_two [hash_name [98]])))) =
    foldl (deliver_version yes) (touch_peer demo_b 1) vs"
proof -
  have ex: "fleece_state_manager_export_shared_by_hash yes demo_two [hash_name [98]] =
      Some (fst (the (fleece_state_manager_export_shared_by_hash yes demo_two [hash_name [98]])),
        snd (the (fleece_state_manager_export_shared_by_hash yes demo_two [hash_name [98]])))"
    by (simp add: fleece_state_manager_export_shared_by_hash_def Let_def split: prod.splits)
  have ids: "sm_node_id demo_two \<noteq> sm_node_id demo_b" "sm_node_id demo_two = 1" by code_simp+
  have v: "view demo_two (0, hash_name [98]) = Some (Version 2 1 False [98] [1, 2, 3])" by code_simp
  show ?thesis
    using value_reply_progress [OF demo_two_inv ex ids(1) v, of yes] ids(2) by auto
qed

text \<open>128 exports in a row of a store in which nothing is written any more.\<close>

definition demo_rounds :: "nat \<Rightarrow> FleeceStateManager" where
  "demo_rounds j = ((\<lambda>m. snd (snd (fleece_state_manager_export_shared_delta_bounded yes m 0 40))) ^^ j) demo_two"

lemma demo_rounds_state:
  "is_eligible (demo_rounds j) 0 1 \<and> sm_local_timestamp (demo_rounds j) = 2 \<and> sm_inv (demo_rounds j)"
proof (induction j)
  case 0
  have "is_eligible demo_two 0 1" by code_simp
  then show ?case
    using demo_two_clock demo_two_inv by (simp add: demo_rounds_def)
next
  case (Suc j)
  obtain fr inc m' where ex: "fleece_state_manager_export_shared_delta_bounded yes (demo_rounds j) 0 40 = (fr, inc, m')"
    by (metis prod.collapse)
  then have "demo_rounds (Suc j) = m'" by (simp add: demo_rounds_def)
  then show ?case
    using Suc bounded_fields [OF ex] bounded_same(1,4) [OF ex] by (simp add: is_eligible_def)
qed

theorem export_no_starvation_witness:
  "\<exists>j<FIELD_CAPACITY. \<exists>sz hw digest fs. fst (fleece_state_manager_export_shared_delta_bounded yes (demo_rounds j) 0 40) =
     Some (gossip_bytes (sm_node_id (demo_rounds j)) hw digest fs, sz) \<and> sm_fields (demo_rounds j) ! 1 \<in> set fs"
proof (rule export_no_starvation [where As = "\<lambda>_. yes"])
  show "\<forall>j<FIELD_CAPACITY. fst (fleece_state_manager_export_shared_delta_bounded yes (demo_rounds j) 0 40) \<noteq> None"
    by (simp add: fleece_state_manager_export_shared_delta_bounded_def Let_def split: prod.splits)
  show "\<forall>j<FIELD_CAPACITY. fe_last_export_ts (sm_fields (demo_rounds 0) ! 1) < sm_local_timestamp (demo_rounds j)"
  proof -
    have "fe_last_export_ts (sm_fields (demo_rounds 0) ! 1) < 2" by code_simp
    then show ?thesis using demo_rounds_state by simp
  qed
  show "\<forall>j<FIELD_CAPACITY. map fe_last_export_ts (sm_fields (demo_rounds (Suc j))) =
      map fe_last_export_ts (sm_fields (snd (snd
        (fleece_state_manager_export_shared_delta_bounded yes (demo_rounds j) 0 40))))"
    by (simp add: demo_rounds_def)
qed (use demo_rounds_state in blast)+

end
