(* ===== verification/Platform.thy ===== *)
theory Platform
  imports Fleece_Prelude
begin

text \<open>
  The registry of host functions callable from scripts, \<open>src/platform/fleece_platform.c\<close>: a table
  of 32 entries searched by name.  The functions themselves are host code; what a call does with
  a function pointer and its \<open>user_data\<close> is an argument of \<open>fleece_platform_call\<close>.
\<close>

section \<open>The interface: a bounded registry of names\<close>

text \<open>
  What a client of a registry relies on, with the entries abstracted to a finite map.
\<close>

locale name_registry =
  fixes inv :: "'r \<Rightarrow> bool"
    and lookup :: "'r \<Rightarrow> 'k \<Rightarrow> 'v option"
    and insert_at :: "'r \<Rightarrow> 'k \<Rightarrow> 'v \<Rightarrow> int \<times> 'r"
    and name_fits :: "'k \<Rightarrow> bool"
    and capacity :: nat
  assumes insert_inv: "inv r \<Longrightarrow> name_fits k \<Longrightarrow> inv (snd (insert_at r k v))"
    and insert_lookup: "inv r \<Longrightarrow> name_fits k \<Longrightarrow> fst (insert_at r k v) = 0 \<Longrightarrow>
      lookup (snd (insert_at r k v)) = (lookup r)(k \<mapsto> v)"
    and insert_full: "inv r \<Longrightarrow> name_fits k \<Longrightarrow>
      fst (insert_at r k v) = 0 \<longleftrightarrow> lookup r k \<noteq> None \<or> card (dom (lookup r)) < capacity"
    and finite_dom: "inv r \<Longrightarrow> finite (dom (lookup r))"
begin

text \<open>A batch of registrations: every one succeeds while the distinct names fit.\<close>

lemma insert_all:
  "inv r \<Longrightarrow> (\<forall>(k, v)\<in>set kvs. name_fits k) \<Longrightarrow>
   card (dom (lookup r) \<union> fst ` set kvs) \<le> capacity \<Longrightarrow>
   inv (foldl (\<lambda>r (k, v). snd (insert_at r k v)) r kvs) \<and>
   lookup (foldl (\<lambda>r (k, v). snd (insert_at r k v)) r kvs) = lookup r ++ map_of (rev kvs)"
proof (induction kvs arbitrary: r)
  case Nil
  then show ?case by simp
next
  case (Cons kv kvs)
  obtain k v where kv: "kv = (k, v)" by (cases kv)
  have fits: "name_fits k" using Cons.prems(2) by (simp add: kv)
  have fin: "finite (dom (lookup r))" by (rule finite_dom [OF Cons.prems(1)])
  have "fst (insert_at r k v) = 0"
  proof (cases "lookup r k")
    case None
    have "card (Set.insert k (dom (lookup r))) \<le> card (dom (lookup r) \<union> fst ` set (kv # kvs))"
      using fin by (intro card_mono) (auto simp: kv)
    moreover have "card (Set.insert k (dom (lookup r))) = Suc (card (dom (lookup r)))"
      using fin None by (intro card_insert_disjoint) auto
    ultimately show ?thesis
      using insert_full [OF Cons.prems(1) fits] Cons.prems(3) by simp
  next
    case (Some w)
    then show ?thesis using insert_full [OF Cons.prems(1) fits] by simp
  qed
  then have step: "lookup (snd (insert_at r k v)) = (lookup r)(k \<mapsto> v)" "inv (snd (insert_at r k v))"
    using insert_lookup [OF Cons.prems(1) fits] insert_inv [OF Cons.prems(1) fits] by simp_all
  have "dom (lookup (snd (insert_at r k v))) \<union> fst ` set kvs = dom (lookup r) \<union> fst ` set (kv # kvs)"
    by (auto simp: step(1) kv split: if_splits)
  then have "card (dom (lookup (snd (insert_at r k v))) \<union> fst ` set kvs) \<le> capacity"
    using Cons.prems(3) by simp
  from Cons.IH [OF step(2) _ this] Cons.prems(2) show ?case
    by (simp add: kv step(1)) (simp add: fun_upd_def)
qed

end

section \<open>The table\<close>

abbreviation FLEECE_PLATFORM_MAX_FUNCTIONS :: nat where "FLEECE_PLATFORM_MAX_FUNCTIONS \<equiv> 32"
abbreviation FLEECE_PLATFORM_FUNCTION_NAME_MAX :: nat where "FLEECE_PLATFORM_FUNCTION_NAME_MAX \<equiv> 32"

record ('f, 'u) PlatformEntry =
  pf_name :: bytes
  pf_fn :: "'f option"
  pf_user_data :: "'u option"
  pf_exists :: bool

type_synonym ('f, 'u) FleecePlatform = "('f, 'u) PlatformEntry list"

definition fleece_platform_create :: "bool \<Rightarrow> ('f, 'u) FleecePlatform option" where
  "fleece_platform_create ok =
     (if \<not> ok then None
      else Some (replicate FLEECE_PLATFORM_MAX_FUNCTIONS
        \<lparr>pf_name = [], pf_fn = None, pf_user_data = None, pf_exists = False\<rparr>))"

definition find_slot :: "('f, 'u) FleecePlatform \<Rightarrow> bytes \<Rightarrow> nat option" where
  "find_slot p name = index_of (\<lambda>e. pf_exists e \<and> pf_name e = name) p"

definition fleece_platform_register ::
    "('f, 'u) FleecePlatform \<Rightarrow> bytes option \<Rightarrow> 'f option \<Rightarrow> 'u option \<Rightarrow> int \<times> ('f, 'u) FleecePlatform" where
  "fleece_platform_register p name fn user_data =
     (case (name, fn) of
        (Some s, Some f) \<Rightarrow>
          if s = [] then (-1, p)
          else
            (case (case find_slot p s of Some i \<Rightarrow> Some i | None \<Rightarrow> index_of (\<lambda>e. \<not> pf_exists e) p) of
               None \<Rightarrow> (-1, p)
             | Some i \<Rightarrow> (0, p[i := \<lparr>pf_name = take (FLEECE_PLATFORM_FUNCTION_NAME_MAX - 1) s,
                                     pf_fn = Some f, pf_user_data = user_data, pf_exists = True\<rparr>]))
      | _ \<Rightarrow> (-1, p))"

definition fleece_platform_unregister ::
    "('f, 'u) FleecePlatform \<Rightarrow> bytes option \<Rightarrow> int \<times> ('f, 'u) FleecePlatform" where
  "fleece_platform_unregister p name =
     (case name of
        None \<Rightarrow> (-1, p)
      | Some s \<Rightarrow>
          (case find_slot p s of
             None \<Rightarrow> (-1, p)
           | Some i \<Rightarrow> (0, p[i := (p ! i)\<lparr>pf_exists := False, pf_fn := None, pf_user_data := None\<rparr>])))"

definition fleece_platform_has_function :: "('f, 'u) FleecePlatform \<Rightarrow> bytes option \<Rightarrow> bool" where
  "fleece_platform_has_function p name =
     (case name of None \<Rightarrow> False | Some s \<Rightarrow> find_slot p s \<noteq> None)"

definition fleece_platform_list_functions :: "('f, 'u) FleecePlatform \<Rightarrow> u32 \<Rightarrow> bytes list" where
  "fleece_platform_list_functions p max_names =
     take (unat max_names)
       (map (\<lambda>e. take (FLEECE_PLATFORM_FUNCTION_NAME_MAX - 1) (pf_name e)) (filter pf_exists p))"

text \<open>
  \<open>run\<close> is what the host function does: its code and what it left in \<open>*result_json\<close> and
  \<open>*result_size\<close>, which are NULL and 0 when it starts.  \<open>None\<close> is a return of -1 before any of
  that (the outputs are not written).
\<close>

definition fleece_platform_call ::
    "('f \<Rightarrow> 'u option \<Rightarrow> bytes option \<Rightarrow> u32 \<Rightarrow> int \<times> bytes option \<times> u32) \<Rightarrow> ('f, 'u) FleecePlatform \<Rightarrow>
     bytes option \<Rightarrow> bytes option \<Rightarrow> u32 \<Rightarrow> (int \<times> bytes option \<times> u32) option" where
  "fleece_platform_call run p name args args_size =
     (case name of
        None \<Rightarrow> None
      | Some s \<Rightarrow>
          (case find_slot p s of
             None \<Rightarrow> None
           | Some i \<Rightarrow>
               (case pf_fn (p ! i) of
                  None \<Rightarrow> None
                | Some f \<Rightarrow> Some (run f (pf_user_data (p ! i)) args args_size))))"

section \<open>The table implements the interface\<close>

definition platform_inv :: "('f, 'u) FleecePlatform \<Rightarrow> bool" where
  "platform_inv p \<longleftrightarrow>
     length p = FLEECE_PLATFORM_MAX_FUNCTIONS \<and>
     (\<forall>i<length p. \<forall>j<length p. pf_exists (p ! i) \<and> pf_exists (p ! j) \<and> pf_name (p ! i) = pf_name (p ! j) \<longrightarrow> i = j) \<and>
     (\<forall>e\<in>set p. pf_exists e \<longrightarrow> pf_fn e \<noteq> None \<and> pf_name e \<noteq> [])"

definition platform_lookup :: "('f, 'u) FleecePlatform \<Rightarrow> bytes \<Rightarrow> ('f \<times> 'u option) option" where
  "platform_lookup p name =
     (case find_slot p name of None \<Rightarrow> None | Some i \<Rightarrow> Some (the (pf_fn (p ! i)), pf_user_data (p ! i)))"

definition platform_name_fits :: "bytes \<Rightarrow> bool" where
  "platform_name_fits s \<longleftrightarrow> s \<noteq> [] \<and> length s < FLEECE_PLATFORM_FUNCTION_NAME_MAX"

definition platform_insert ::
    "('f, 'u) FleecePlatform \<Rightarrow> bytes \<Rightarrow> 'f \<times> 'u option \<Rightarrow> int \<times> ('f, 'u) FleecePlatform" where
  "platform_insert p s fu = fleece_platform_register p (Some s) (Some (fst fu)) (snd fu)"

lemma find_slot_iff:
  assumes "platform_inv p"
  shows "find_slot p s = Some i \<longleftrightarrow> i < length p \<and> pf_exists (p ! i) \<and> pf_name (p ! i) = s"
proof
  show "find_slot p s = Some i \<Longrightarrow> i < length p \<and> pf_exists (p ! i) \<and> pf_name (p ! i) = s"
    unfolding find_slot_def by (drule index_of_SomeD) simp
  assume i: "i < length p \<and> pf_exists (p ! i) \<and> pf_name (p ! i) = s"
  then show "find_slot p s = Some i"
    unfolding find_slot_def using assms by (intro index_of_unique) (auto simp: platform_inv_def)
qed

lemma platform_dom:
  assumes "platform_inv p"
  shows "bij_betw (\<lambda>i. pf_name (p ! i)) {i. i < length p \<and> pf_exists (p ! i)} (dom (platform_lookup p))"
proof (rule bij_betwI')
  fix i j
  assume "i \<in> {i. i < length p \<and> pf_exists (p ! i)}" "j \<in> {i. i < length p \<and> pf_exists (p ! i)}"
  then show "(pf_name (p ! i) = pf_name (p ! j)) = (i = j)"
    using assms by (auto simp: platform_inv_def)
next
  fix i
  assume "i \<in> {i. i < length p \<and> pf_exists (p ! i)}"
  then have "find_slot p (pf_name (p ! i)) = Some i" using find_slot_iff [OF assms] by simp
  then show "pf_name (p ! i) \<in> dom (platform_lookup p)"
    by (simp add: platform_lookup_def dom_def)
next
  fix s
  assume "s \<in> dom (platform_lookup p)"
  then obtain i where "find_slot p s = Some i" by (auto simp: platform_lookup_def split: option.splits)
  then show "\<exists>i\<in>{i. i < length p \<and> pf_exists (p ! i)}. s = pf_name (p ! i)"
    using find_slot_iff [OF assms] by auto
qed

text \<open>Writing one slot does not disturb the slots of the other names.\<close>

lemma find_slot_other:
  assumes inv: "platform_inv p" "platform_inv (p[i := e])" and t: "t \<noteq> pf_name e"
    and i: "i < length p" "pf_exists (p ! i) \<Longrightarrow> pf_name (p ! i) \<noteq> t"
  shows "find_slot (p[i := e]) t = find_slot p t"
proof -
  have "find_slot (p[i := e]) t = Some j \<longleftrightarrow> find_slot p t = Some j" for j
    using t i unfolding find_slot_iff [OF inv(1)] find_slot_iff [OF inv(2)] by (cases "j = i") auto
  then show ?thesis by (cases "find_slot p t"; cases "find_slot (p[i := e]) t") auto
qed

text \<open>The entry a registration of a name that fits writes.\<close>

lemma register_entry:
  assumes inv: "platform_inv p" and fits: "platform_name_fits s"
    and i: "find_slot p s = Some i \<or> (find_slot p s = None \<and> i < length p \<and> \<not> pf_exists (p ! i))"
    and p': "p' = p[i := \<lparr>pf_name = s, pf_fn = Some f, pf_user_data = u, pf_exists = True\<rparr>]"
  shows "platform_inv p'" and "platform_lookup p' = (platform_lookup p)(s \<mapsto> (f, u))"
proof -
  have ip: "i < length p" using i find_slot_iff [OF inv] by auto
  have none: "\<not> (pf_exists (p ! j) \<and> pf_name (p ! j) = s)" if "j < length p" "j \<noteq> i" for j
    using i find_slot_iff [OF inv, of s j] find_slot_iff [OF inv, of s i] that by auto
  have nth: "p' ! j = (if j = i then \<lparr>pf_name = s, pf_fn = Some f, pf_user_data = u, pf_exists = True\<rparr> else p ! j)" for j
    using ip by (auto simp: p' nth_list_update)
  have "j = k" if "j < length p" "k < length p" "pf_exists (p' ! j)" "pf_exists (p' ! k)"
    "pf_name (p' ! j) = pf_name (p' ! k)" for j k
    using that none [of j] none [of k] inv by (auto simp: nth platform_inv_def split: if_splits)
  moreover have "pf_fn e \<noteq> None \<and> pf_name e \<noteq> []" if "e \<in> set p'" "pf_exists e" for e
  proof -
    have "e = \<lparr>pf_name = s, pf_fn = Some f, pf_user_data = u, pf_exists = True\<rparr> \<or> e \<in> set p"
      using that(1) set_update_subset_insert unfolding p' by fastforce
    then show ?thesis using that(2) fits inv by (auto simp: platform_inv_def platform_name_fits_def)
  qed
  ultimately show inv': "platform_inv p'" using inv by (auto simp: platform_inv_def p')
  have "find_slot p' s = Some i" using find_slot_iff [OF inv'] ip by (simp add: p')
  moreover have "find_slot p' t = find_slot p t" "find_slot p t \<noteq> Some i" if "t \<noteq> s" for t
    using find_slot_other [OF inv inv' [unfolded p'], of t] i ip that find_slot_iff [OF inv] by (auto simp: p')
  ultimately show "platform_lookup p' = (platform_lookup p)(s \<mapsto> (f, u))"
    by (auto simp: platform_lookup_def fun_eq_iff nth split: option.splits)
qed

lemma platform_insert_cases:
  assumes inv: "platform_inv p" and fits: "platform_name_fits s"
  shows "(fst (platform_insert p s fu) = 0 \<longrightarrow> platform_inv (snd (platform_insert p s fu)) \<and>
      platform_lookup (snd (platform_insert p s fu)) = (platform_lookup p)(s \<mapsto> fu)) \<and>
    (fst (platform_insert p s fu) \<noteq> 0 \<longrightarrow> platform_insert p s fu = (-1, p)) \<and>
    (fst (platform_insert p s fu) = 0 \<longleftrightarrow> platform_lookup p s \<noteq> None \<or> (\<exists>e\<in>set p. \<not> pf_exists e))"
proof -
  have s: "s \<noteq> []" "take (FLEECE_PLATFORM_FUNCTION_NAME_MAX - 1) s = s"
    using fits by (auto simp: platform_name_fits_def)
  show ?thesis
  proof (cases "find_slot p s")
    case (Some i)
    then show ?thesis
      using s register_entry [OF inv fits, of i _ "fst fu" "snd fu"]
      by (auto simp: platform_insert_def fleece_platform_register_def platform_lookup_def)
  next
    case none: None
    show ?thesis
    proof (cases "index_of (\<lambda>e. \<not> pf_exists e) p")
      case None
      then show ?thesis
        using s none index_of_None_iff [of "\<lambda>e. \<not> pf_exists e" p]
        by (simp add: platform_insert_def fleece_platform_register_def platform_lookup_def)
    next
      case (Some i)
      then have "i < length p" "\<not> pf_exists (p ! i)" using index_of_SomeD by fastforce+
      then show ?thesis
        using s none Some register_entry [OF inv fits, of i _ "fst fu" "snd fu"]
        by (auto simp: platform_insert_def fleece_platform_register_def)
    qed
  qed
qed

lemma platform_room:
  assumes inv: "platform_inv p"
  shows "(\<exists>e\<in>set p. \<not> pf_exists e) \<longleftrightarrow> card (dom (platform_lookup p)) < FLEECE_PLATFORM_MAX_FUNCTIONS"
proof -
  have len: "length p = FLEECE_PLATFORM_MAX_FUNCTIONS" using inv by (simp add: platform_inv_def)
  let ?U = "{i. i < length p \<and> pf_exists (p ! i)}"
  have "card (dom (platform_lookup p)) = card ?U"
    using bij_betw_same_card [OF platform_dom [OF inv]] by simp
  moreover have "card ?U < length p \<longleftrightarrow> ?U \<noteq> {..<length p}"
  proof -
    have "?U \<subseteq> {..<length p}" by auto
    then show ?thesis
      using psubset_card_mono [of "{..<length p}" ?U] by (cases "?U = {..<length p}") auto
  qed
  moreover have "?U \<noteq> {..<length p} \<longleftrightarrow> (\<exists>e\<in>set p. \<not> pf_exists e)"
    by (auto simp: set_eq_iff in_set_conv_nth Bex_def)
  ultimately show ?thesis using len by simp
qed

interpretation host_functions: name_registry platform_inv platform_lookup platform_insert platform_name_fits
    FLEECE_PLATFORM_MAX_FUNCTIONS
proof
  fix r :: "('a, 'b) FleecePlatform" and k v
  assume inv: "platform_inv r"
  show "finite (dom (platform_lookup r))"
    using bij_betw_finite [OF platform_dom [OF inv]] by simp
  assume fits: "platform_name_fits k"
  note C = platform_insert_cases [OF inv fits, of v]
  show "platform_inv (snd (platform_insert r k v))"
    using C inv by (cases "fst (platform_insert r k v) = 0") auto
  show "fst (platform_insert r k v) = 0 \<Longrightarrow> platform_lookup (snd (platform_insert r k v)) = (platform_lookup r)(k \<mapsto> v)"
    using C by blast
  show "(fst (platform_insert r k v) = 0) = (platform_lookup r k \<noteq> None \<or> card (dom (platform_lookup r)) < FLEECE_PLATFORM_MAX_FUNCTIONS)"
    using C platform_room [OF inv] by blast
qed


section \<open>Properties\<close>

text \<open>
  Calling what was registered.  Starting from an empty registry, register any list of host
  functions whose names are non-empty, shorter than the name field, and of which at most 32 are
  distinct.  Then a call of a name runs the last function registered under it with its own user
  data and the caller's arguments, a name not in the list is not callable, and the registry
  reports exactly the registered names as present.
\<close>

theorem platform_register_call:
  fixes fns :: "(bytes \<times> ('f \<times> 'u option)) list"
  assumes p0: "fleece_platform_create True = Some p0"
    and fits: "\<forall>(s, fu)\<in>set fns. s \<noteq> [] \<and> length s < FLEECE_PLATFORM_FUNCTION_NAME_MAX"
    and few: "card (fst ` set fns) \<le> FLEECE_PLATFORM_MAX_FUNCTIONS"
    and p: "p = foldl (\<lambda>p (s, fu). snd (fleece_platform_register p (Some s) (Some (fst fu)) (snd fu))) p0 fns"
  shows "fleece_platform_call run p (Some s) args n =
      (case map_of (rev fns) s of None \<Rightarrow> None | Some (f, u) \<Rightarrow> Some (run f u args n)) \<and>
    (fleece_platform_has_function p (Some s) \<longleftrightarrow> s \<in> fst ` set fns)"
proof -
  have inv0: "platform_inv p0" and look0: "platform_lookup p0 = Map.empty"
    using p0 by (auto simp: fleece_platform_create_def platform_inv_def platform_lookup_def find_slot_def
        index_of_None_iff fun_eq_iff split: option.splits if_splits dest: index_of_sat)
  have P: "platform_inv p \<and> platform_lookup p = Map.empty ++ map_of (rev fns)"
    using host_functions.insert_all [OF inv0, of fns] fits few
    by (simp add: look0 p platform_insert_def platform_name_fits_def case_prod_beta)
  have "fleece_platform_call run p (Some s) args n =
      (case platform_lookup p s of None \<Rightarrow> None | Some (f, u) \<Rightarrow> Some (run f u args n))"
  proof (cases "find_slot p s")
    case (Some i)
    then have "pf_fn (p ! i) \<noteq> None"
      using P find_slot_iff [of p s i] by (auto simp: platform_inv_def)
    then show ?thesis using Some by (auto simp: fleece_platform_call_def platform_lookup_def)
  qed (simp add: fleece_platform_call_def platform_lookup_def)
  moreover have "fleece_platform_has_function p (Some s) \<longleftrightarrow> platform_lookup p s \<noteq> None"
    by (auto simp: fleece_platform_has_function_def platform_lookup_def split: option.splits)
  moreover have "map_of (rev fns) s \<noteq> None \<longleftrightarrow> s \<in> fst ` set fns"
    by (simp add: map_of_eq_None_iff)
  ultimately show ?thesis using P by simp
qed

definition demo_run :: "nat \<Rightarrow> nat option \<Rightarrow> bytes option \<Rightarrow> u32 \<Rightarrow> int \<times> bytes option \<times> u32" where
  "demo_run f u args n = (int f, args, n)"

theorem platform_register_call_witness:
  "fleece_platform_call demo_run
     (foldl (\<lambda>p (s, fu). snd (fleece_platform_register p (Some s) (Some (fst fu)) (snd fu)))
       (the (fleece_platform_create True)) [([97], (1, None)), ([98], (2, Some 5)), ([97], (3, None))])
     (Some [97]) (Some [7]) 1 = Some (3, Some [7], 1)"
proof -
  have "fleece_platform_create True = Some (the (fleece_platform_create True :: (nat, nat) FleecePlatform option))"
    by (simp add: fleece_platform_create_def)
  from platform_register_call [OF this, of "[([97], (1, None)), ([98], (2, Some 5)), ([97], (3, None))]", OF _ _ refl, of demo_run "[97]"]
  show ?thesis by (simp add: demo_run_def card_insert_if)
qed

text \<open>
  A name that does not fit the 32-byte field is stored truncated but looked up in full: the
  registration reports success, and yet the function is not callable and not reported present.
\<close>

theorem platform_long_name_lost:
  assumes p0: "fleece_platform_create True = Some p0"
    and long: "length s \<ge> FLEECE_PLATFORM_FUNCTION_NAME_MAX"
  shows "fst (fleece_platform_register p0 (Some s) (Some f) u) = 0 \<and>
    \<not> fleece_platform_has_function (snd (fleece_platform_register p0 (Some s) (Some f) u)) (Some s) \<and>
    fleece_platform_call run (snd (fleece_platform_register p0 (Some s) (Some f) u)) (Some s) args n = None"
proof -
  let ?e = "\<lparr>pf_name = [], pf_fn = None :: 'a option, pf_user_data = None :: 'b option, pf_exists = False\<rparr>"
  let ?f = "\<lparr>pf_name = take 31 s, pf_fn = Some f, pf_user_data = u, pf_exists = True\<rparr>"
  have "replicate 32 ?e = ?e # replicate 31 ?e"
    using replicate_Suc [of 31 ?e] by simp
  then have p: "p0 = ?e # replicate 31 ?e"
    using p0 by (simp add: fleece_platform_create_def)
  have none: "find_slot p0 s = None" by (simp add: p find_slot_def index_of_None_iff)
  have reg: "fleece_platform_register p0 (Some s) (Some f) u = (0, ?f # replicate 31 ?e)"
    using long none by (auto simp: fleece_platform_register_def p)
  have "take 31 s \<noteq> s" using long by (auto dest: arg_cong [of _ _ length])
  then have "find_slot (?f # replicate 31 ?e) s = None"
    by (simp add: find_slot_def index_of_None_iff)
  then show ?thesis
    by (simp add: reg fleece_platform_has_function_def fleece_platform_call_def)
qed

theorem platform_long_name_lost_witness:
  "\<not> fleece_platform_has_function (snd (fleece_platform_register (the (fleece_platform_create True))
      (Some (replicate 40 65)) (Some (1 :: nat)) (None :: nat option))) (Some (replicate 40 65))"
proof -
  have "fleece_platform_create True = Some (the (fleece_platform_create True :: (nat, nat) FleecePlatform option))"
    by (simp add: fleece_platform_create_def)
  from platform_long_name_lost [OF this, of "replicate 40 65"] show ?thesis by simp
qed

end
