(* ===== verification/Comms.thy ===== *)
theory Comms
  imports Fleece_Prelude
begin

text \<open>
  The communication module of \<open>src/comms/fleece_comms.c\<close>.  Its callbacks are host code: the send
  and receive callbacks are observed through the calls made to them (\<open>cm_sends\<close>, \<open>cm_receives\<close>
  record them in order), the poll callback is an argument of \<open>process_input\<close> acting on the
  host's state.
\<close>

record FleeceCommsStats =
  st_packets_sent :: u64
  st_bytes_sent :: u64
  st_packets_received :: u64
  st_bytes_received :: u64
  st_send_failures :: u64
  st_recv_failures :: u64

type_synonym message = "bytes \<times> bytes \<times> u32"

record FleeceComms =
  cm_is_connected :: bool
  cm_is_initialized :: bool
  cm_stats :: FleeceCommsStats
  cm_send_callback :: bool
  cm_receive_callback :: bool
  cm_poll_callback :: bool
  cm_sends :: "message list"
  cm_receives :: "message list"

definition zero_stats :: FleeceCommsStats where
  "zero_stats = \<lparr>st_packets_sent = 0, st_bytes_sent = 0, st_packets_received = 0,
     st_bytes_received = 0, st_send_failures = 0, st_recv_failures = 0\<rparr>"

definition fleece_comms_create :: "bool \<Rightarrow> FleeceComms option" where
  "fleece_comms_create ok =
     (if \<not> ok then None
      else Some \<lparr>cm_is_connected = False, cm_is_initialized = False, cm_stats = zero_stats,
             cm_send_callback = False, cm_receive_callback = False, cm_poll_callback = False,
             cm_sends = [], cm_receives = []\<rparr>)"

definition fleece_comms_process_input :: "('h \<Rightarrow> 'h) \<Rightarrow> FleeceComms \<Rightarrow> 'h \<Rightarrow> 'h" where
  "fleece_comms_process_input poll c h =
     (if \<not> cm_is_initialized c then h
      else if cm_poll_callback c then poll h else h)"

definition fleece_comms_process_output :: "FleeceComms \<Rightarrow> FleeceComms" where
  "fleece_comms_process_output c = c"

definition send_failure :: "FleeceComms \<Rightarrow> FleeceComms" where
  "send_failure c = c\<lparr>cm_stats := (cm_stats c)\<lparr>st_send_failures := st_send_failures (cm_stats c) + 1\<rparr>\<rparr>"

definition recv_failure :: "FleeceComms \<Rightarrow> FleeceComms" where
  "recv_failure c = c\<lparr>cm_stats := (cm_stats c)\<lparr>st_recv_failures := st_recv_failures (cm_stats c) + 1\<rparr>\<rparr>"

definition count_received :: "u32 \<Rightarrow> FleeceComms \<Rightarrow> FleeceComms" where
  "count_received sz c = c\<lparr>cm_stats := (cm_stats c)
     \<lparr>st_packets_received := st_packets_received (cm_stats c) + 1,
      st_bytes_received := st_bytes_received (cm_stats c) + ucast sz\<rparr>\<rparr>"

definition fleece_comms_send ::
    "FleeceComms \<Rightarrow> bytes option \<Rightarrow> bytes option \<Rightarrow> u32 \<Rightarrow> int \<times> FleeceComms" where
  "fleece_comms_send c destination data sz =
     (case (destination, data) of
        (Some dest, Some bs) \<Rightarrow>
          if \<not> cm_is_initialized c \<or> sz = 0 then (-1, send_failure c)
          else
            let c = c\<lparr>cm_stats := (cm_stats c)
                  \<lparr>st_packets_sent := st_packets_sent (cm_stats c) + 1,
                   st_bytes_sent := st_bytes_sent (cm_stats c) + ucast sz\<rparr>\<rparr>
            in (0, if cm_send_callback c
                   then c\<lparr>cm_sends := cm_sends c @ [(dest, take (unat sz) bs, sz)]\<rparr> else c)
      | _ \<Rightarrow> (-1, send_failure c))"

text \<open>
  The receive function as it stands: \<open>*data\<close> and \<open>*size\<close> are set to NULL and 0 just before the
  test for a received message.  The result is the code, the source name written and the data.
\<close>

definition fleece_comms_receive ::
    "FleeceComms \<Rightarrow> int \<times> (bytes \<times> bytes option \<times> u32) option \<times> FleeceComms" where
  "fleece_comms_receive c =
     (if \<not> cm_is_initialized c then (-1, None, recv_failure c)
      else
        let dest = lit ''node_001''; data = None; sz = 0 in
        (0, Some (dest, data, sz),
         case data of
           Some bs \<Rightarrow>
             if cm_receive_callback c \<and> sz > 0
             then count_received sz (c\<lparr>cm_receives := cm_receives c @ [(dest, bs, sz)]\<rparr>)
             else recv_failure c
         | None \<Rightarrow> recv_failure c))"

definition fleece_comms_initialize :: "FleeceComms \<Rightarrow> int \<times> FleeceComms" where
  "fleece_comms_initialize c = (0, c\<lparr>cm_is_initialized := True, cm_is_connected := True\<rparr>)"

definition fleece_comms_close :: "FleeceComms \<Rightarrow> FleeceComms" where
  "fleece_comms_close c =
     (if cm_is_initialized c then c\<lparr>cm_is_initialized := False, cm_is_connected := False\<rparr> else c)"

definition fleece_comms_is_connected :: "FleeceComms \<Rightarrow> bool" where
  "fleece_comms_is_connected c = cm_is_connected c"

definition fleece_comms_set_send_callback :: "FleeceComms \<Rightarrow> bool \<Rightarrow> FleeceComms" where
  "fleece_comms_set_send_callback c cb = c\<lparr>cm_send_callback := cb\<rparr>"

definition fleece_comms_set_receive_callback :: "FleeceComms \<Rightarrow> bool \<Rightarrow> FleeceComms" where
  "fleece_comms_set_receive_callback c cb = c\<lparr>cm_receive_callback := cb\<rparr>"

definition fleece_comms_set_poll_callback :: "FleeceComms \<Rightarrow> bool \<Rightarrow> FleeceComms" where
  "fleece_comms_set_poll_callback c cb = c\<lparr>cm_poll_callback := cb\<rparr>"

definition fleece_comms_get_stats :: "FleeceComms option \<Rightarrow> FleeceCommsStats" where
  "fleece_comms_get_stats c = (case c of None \<Rightarrow> zero_stats | Some c \<Rightarrow> cm_stats c)"

definition fleece_comms_notify_received :: "FleeceComms \<Rightarrow> u32 \<Rightarrow> int \<times> FleeceComms" where
  "fleece_comms_notify_received c sz =
     (if \<not> cm_is_initialized c then (-1, recv_failure c)
      else if sz = 0 then (-1, recv_failure c)
      else (0, count_received sz c))"

section \<open>Accounting\<close>

text \<open>The counters of a run of operations, against the calls made.\<close>

datatype comms_op =
    Send "bytes option" "bytes option" u32
  | Notify u32
  | Receive
  | Init
  | Close

fun comms_step :: "comms_op \<Rightarrow> FleeceComms \<Rightarrow> FleeceComms" where
  "comms_step (Send d b n) c = snd (fleece_comms_send c d b n)"
| "comms_step (Notify n) c = snd (fleece_comms_notify_received c n)"
| "comms_step Receive c = snd (snd (fleece_comms_receive c))"
| "comms_step Init c = snd (fleece_comms_initialize c)"
| "comms_step Close c = fleece_comms_close c"

definition sent_accounted :: "FleeceComms \<Rightarrow> bool" where
  "sent_accounted c \<longleftrightarrow>
     st_packets_sent (cm_stats c) = of_nat (length (cm_sends c)) \<and>
     st_bytes_sent (cm_stats c) = sum_list (map (\<lambda>(d, b, n). ucast n) (cm_sends c)) \<and>
     (\<forall>(d, b, n)\<in>set (cm_sends c). n \<noteq> 0) \<and> cm_receives c = []"

lemma comms_step_accounted:
  "sent_accounted c \<Longrightarrow> cm_send_callback c \<Longrightarrow>
   sent_accounted (comms_step oper c) \<and> cm_send_callback (comms_step oper c)"
  by (cases oper)
    (auto simp: sent_accounted_def fleece_comms_send_def fleece_comms_notify_received_def
      fleece_comms_receive_def fleece_comms_initialize_def fleece_comms_close_def send_failure_def
      recv_failure_def count_received_def Let_def split: option.splits)

lemma comms_run_accounted:
  "sent_accounted c \<Longrightarrow> cm_send_callback c \<Longrightarrow>
   sent_accounted (fold comms_step opers c) \<and> cm_send_callback (fold comms_step opers c)"
  using comms_step_accounted by (induction opers arbitrary: c) auto

text \<open>
  Over any sequence of operations on a freshly created module with a send callback, the
  sent counters are exactly the number of messages handed to the callback and the sum of their
  sizes modulo 2 to the 64th, no empty message is ever handed over, and the receive callback
  never fires: the receive operation itself cannot deliver a message.
\<close>

theorem comms_accounting:
  assumes "fleece_comms_create True = Some c"
  shows "let c' = fold comms_step opers (fleece_comms_set_send_callback c True) in
    st_packets_sent (cm_stats c') = of_nat (length (cm_sends c')) \<and>
    st_bytes_sent (cm_stats c') = sum_list (map (\<lambda>(d, b, n). ucast n) (cm_sends c')) \<and>
    (\<forall>(d, b, n)\<in>set (cm_sends c'). n \<noteq> 0) \<and> cm_receives c' = []"
proof -
  have "sent_accounted (fleece_comms_set_send_callback c True)"
    using assms by (auto simp: fleece_comms_create_def fleece_comms_set_send_callback_def sent_accounted_def zero_stats_def)
  then show ?thesis
    using comms_run_accounted [of "fleece_comms_set_send_callback c True" opers]
    by (simp add: sent_accounted_def Let_def fleece_comms_set_send_callback_def)
qed

theorem comms_accounting_witness:
  "let c' = fold comms_step [Init, Send (Some [1]) (Some [2, 3]) 2, Receive, Close, Send (Some [1]) (Some [4]) 1]
      (fleece_comms_set_send_callback (the (fleece_comms_create True)) True) in
    st_packets_sent (cm_stats c') = of_nat (length (cm_sends c')) \<and> cm_receives c' = [] \<and>
    cm_sends c' = [([1], [2, 3], 2)]"
proof -
  have "fleece_comms_create True = Some (the (fleece_comms_create True))"
    by (simp add: fleece_comms_create_def)
  from comms_accounting [OF this, of "[Init, Send (Some [1]) (Some [2, 3]) 2, Receive, Close, Send (Some [1]) (Some [4]) 1]"]
  have "let c' = fold comms_step [Init, Send (Some [1]) (Some [2, 3]) 2, Receive, Close, Send (Some [1]) (Some [4]) 1]
      (fleece_comms_set_send_callback (the (fleece_comms_create True)) True) in
    st_packets_sent (cm_stats c') = of_nat (length (cm_sends c')) \<and> cm_receives c' = []"
    by (simp add: Let_def)
  moreover have "cm_sends (fold comms_step [Init, Send (Some [1]) (Some [2, 3]) 2, Receive, Close, Send (Some [1]) (Some [4]) 1]
      (fleece_comms_set_send_callback (the (fleece_comms_create True)) True)) = [([1], [2, 3], 2)]"
    by code_simp
  ultimately show ?thesis by (simp add: Let_def)
qed

end
