(* ===== verification/Runtime.thy ===== *)
theory Runtime
  imports Gossip_Claims Comms
begin

unbundle bit_operations_syntax

text \<open>
  The runtime of \<open>src/runtime/fleece_runtime.c\<close>: the per-peer resync bookkeeping, the deferred
  transmit queue, the control-frame (FX) handlers, the gossip import with gap tracking, and the
  main loop.  Host callbacks, the script engine's step and the planner brain act on the runtime
  through functions that are arguments of the loop.  The two cadence variables are static in the
  source and shared by all runtimes of a process; they are the record \<open>runtime_statics\<close>.
  Debug output under \<open>FX_DEBUG\<close> is left out.
\<close>

abbreviation FLEECE_RESYNC_TAG_INDEX_REQ :: u64 where "FLEECE_RESYNC_TAG_INDEX_REQ \<equiv> 0"
abbreviation FLEECE_RESYNC_TAG_INDEX_REPLY :: u64 where "FLEECE_RESYNC_TAG_INDEX_REPLY \<equiv> 1"
abbreviation FLEECE_RESYNC_TAG_VALUE_REQ :: u64 where "FLEECE_RESYNC_TAG_VALUE_REQ \<equiv> 2"
abbreviation FLEECE_RESYNC_PROBE_TICKS :: u64 where "FLEECE_RESYNC_PROBE_TICKS \<equiv> 100"
abbreviation FLEECE_RESYNC_RETRY_TICKS :: u64 where "FLEECE_RESYNC_RETRY_TICKS \<equiv> 8"
abbreviation FLEECE_RESYNC_QUIESCE_TICKS :: u64 where "FLEECE_RESYNC_QUIESCE_TICKS \<equiv> 5"
abbreviation FLEECE_RESYNC_STARTS_PER_TICK :: nat where "FLEECE_RESYNC_STARTS_PER_TICK \<equiv> 2"
abbreviation FLEECE_MAX_RESYNC_TARGETS :: nat where "FLEECE_MAX_RESYNC_TARGETS \<equiv> 32"
abbreviation FLEECE_MAX_PENDING_TX :: nat where "FLEECE_MAX_PENDING_TX \<equiv> 16"
abbreviation FLEECE_MAX_FETCH_KEYS :: nat where "FLEECE_MAX_FETCH_KEYS \<equiv> 64"
abbreviation FLEECE_GOSSIP_FRAME_BYTES :: nat where "FLEECE_GOSSIP_FRAME_BYTES \<equiv> 320"
abbreviation DEST_MAX :: nat where "DEST_MAX \<equiv> 48"

section \<open>State\<close>

record PendingTx =
  tx_dest :: bytes
  tx_data :: "bytes option"
  tx_size :: u32
  tx_ready_tick :: u64
  tx_used :: bool

record ResyncTarget =
  rs_node_id :: u64
  rs_source :: bytes
  rs_last_heard_tick :: u64
  rs_need_shared :: bool
  rs_awaiting_index :: bool
  rs_last_index_req_tick :: u64
  rs_exists :: bool

record FleeceRuntime =
  rt_is_running :: bool
  rt_state_manager :: FleeceStateManager
  rt_comms :: FleeceComms
  rt_shared_gossip_watermark :: u64
  rt_gossip_tick_count :: u32
  rt_goap_brain :: bool
  rt_tick_cb :: bool
  rt_pending_tx :: "PendingTx list"
  rt_pending_tx_dropped :: u32
  rt_resync_targets :: "ResyncTarget list"

record runtime_statics =
  s_gossip_every_ticks :: u32
  s_beacon_every_ticks :: u32

text \<open>\<open>runtime->gossip_tick_count\<close> where it meets the 64-bit tick fields.\<close>

definition now_tick :: "FleeceRuntime \<Rightarrow> u64" where
  "now_tick r = ucast (rt_gossip_tick_count r)"

definition zero_tx :: PendingTx where
  "zero_tx = \<lparr>tx_dest = [], tx_data = None, tx_size = 0, tx_ready_tick = 0, tx_used = False\<rparr>"

definition zero_target :: ResyncTarget where
  "zero_target = \<lparr>rs_node_id = 0, rs_source = [], rs_last_heard_tick = 0, rs_need_shared = False,
     rs_awaiting_index = False, rs_last_index_req_tick = 0, rs_exists = False\<rparr>"

section \<open>Destinations\<close>

text \<open>\<open>snprintf(out, n, "node:%016llx", id)\<close> and \<open>snprintf(out, n, "%s", s)\<close>.\<close>

definition hex_digit :: "u64 \<Rightarrow> u8" where
  "hex_digit d = (if d < 10 then ucast d + 0x30 else ucast d - 10 + 0x61)"

definition hex16 :: "u64 \<Rightarrow> bytes" where
  "hex16 v = map (\<lambda>i. hex_digit (drop_bit (4 * i) v AND 0xF)) (rev [0..<16])"

definition node_dest :: "u64 \<Rightarrow> bytes" where
  "node_dest v = lit ''node:'' @ hex16 v"

definition snprintf_s :: "nat \<Rightarrow> bytes \<Rightarrow> bytes" where
  "snprintf_s n s = take (n - 1) s"

definition target_source :: "u64 \<Rightarrow> bytes" where
  "target_source node_id = (if node_id = 0 then lit ''mesh'' else node_dest node_id)"

definition unicast_dest_for :: "u64 \<Rightarrow> bytes option" where
  "unicast_dest_for origin = (if origin = 0 then None else Some (node_dest origin))"

section \<open>Resync targets\<close>

text \<open>The index of the entry for a node id, created in the first free slot when absent.\<close>

definition resync_target_for_id :: "FleeceRuntime \<Rightarrow> u64 \<Rightarrow> nat option \<times> FleeceRuntime" where
  "resync_target_for_id r node_id =
     (let source = target_source node_id; ts = rt_resync_targets r in
      case index_of (\<lambda>t. rs_exists t \<and> rs_node_id t = node_id \<and> rs_source t = source) ts of
        Some i \<Rightarrow> (Some i, r)
      | None \<Rightarrow>
          (case index_of (\<lambda>t. \<not> rs_exists t) ts of
             Some i \<Rightarrow>
               (Some i, r\<lparr>rt_resync_targets := ts[i := \<lparr>rs_node_id = node_id,
                  rs_source = snprintf_s DEST_MAX source, rs_last_heard_tick = now_tick r,
                  rs_need_shared = False, rs_awaiting_index = False, rs_last_index_req_tick = 0,
                  rs_exists = True\<rparr>]\<rparr>)
           | None \<Rightarrow> (None, r)))"

definition update_target :: "nat \<Rightarrow> (ResyncTarget \<Rightarrow> ResyncTarget) \<Rightarrow> FleeceRuntime \<Rightarrow> FleeceRuntime" where
  "update_target i f r =
     r\<lparr>rt_resync_targets := (rt_resync_targets r)[i := f (rt_resync_targets r ! i)]\<rparr>"

section \<open>The deferred transmit queue\<close>

definition enqueue_tx :: "allocator \<Rightarrow> FleeceRuntime \<Rightarrow> bytes \<Rightarrow> bytes \<Rightarrow> u32 \<Rightarrow> FleeceRuntime" where
  "enqueue_tx A r dest data sz =
     (case index_of (\<lambda>t. \<not> tx_used t) (rt_pending_tx r) of
        Some i \<Rightarrow>
          if \<not> A (unat sz) then r\<lparr>rt_pending_tx := (rt_pending_tx r)[i := (rt_pending_tx r ! i)\<lparr>tx_data := None\<rparr>]\<rparr>
          else r\<lparr>rt_pending_tx := (rt_pending_tx r)
                  [i := \<lparr>tx_dest = snprintf_s DEST_MAX dest, tx_data = Some (take (unat sz) data),
                         tx_size = sz, tx_ready_tick = ucast (rt_gossip_tick_count r + 1),
                         tx_used = True\<rparr>]\<rparr>
      | None \<Rightarrow> r\<lparr>rt_pending_tx_dropped := rt_pending_tx_dropped r + 1\<rparr>)"

definition flush_slot :: "FleeceRuntime \<Rightarrow> nat \<Rightarrow> FleeceRuntime" where
  "flush_slot r i =
     (let t = rt_pending_tx r ! i in
      if \<not> tx_used t \<or> now_tick r < tx_ready_tick t then r
      else r\<lparr>rt_comms := snd (fleece_comms_send (rt_comms r) (Some (tx_dest t)) (tx_data t) (tx_size t)),
             rt_pending_tx := (rt_pending_tx r)[i := t\<lparr>tx_data := None, tx_used := False\<rparr>]\<rparr>)"

definition flush_pending_tx :: "FleeceRuntime \<Rightarrow> FleeceRuntime" where
  "flush_pending_tx r = foldl flush_slot r [0..<FLEECE_MAX_PENDING_TX]"

section \<open>Control frames\<close>

definition control_frame :: "u64 \<Rightarrow> u64 \<Rightarrow> u32 list \<Rightarrow> bytes" where
  "control_frame tag self hashes =
     [FLEECE_CONTROL_MAGIC0, FLEECE_CONTROL_MAGIC1, FLEECE_CONTROL_VERSION]
     @ fleece_cbor_write_array_header 3
     @ fleece_cbor_write_uint tag
     @ fleece_cbor_write_uint self
     @ fleece_cbor_write_array_header (of_nat (length hashes))
     @ concat (map (\<lambda>h. fleece_cbor_write_uint (ucast h)) hashes)"

definition send_control_ex ::
    "allocator \<Rightarrow> FleeceRuntime \<Rightarrow> bytes \<Rightarrow> u64 \<Rightarrow> u32 list \<Rightarrow> bool \<Rightarrow> FleeceRuntime" where
  "send_control_ex A r target tag hashes later =
     (let buf = control_frame tag (fleece_state_manager_get_node_id (rt_state_manager r)) hashes;
          pos = of_nat (length buf)
      in if later then enqueue_tx A r target buf pos
         else r\<lparr>rt_comms := snd (fleece_comms_send (rt_comms r) (Some target) (Some buf) pos)\<rparr>)"

definition send_control :: "allocator \<Rightarrow> FleeceRuntime \<Rightarrow> bytes \<Rightarrow> u64 \<Rightarrow> u32 list \<Rightarrow> FleeceRuntime" where
  "send_control A r target tag hashes = send_control_ex A r target tag hashes False"

text \<open>The diff loop: the keys we lack or hold in an older version, at most 64 of them.\<close>

fun wanted_loop :: "FleeceStateManager \<Rightarrow> (u64 \<times> u64) list \<Rightarrow> u32 list \<Rightarrow> u32 list" where
  "wanted_loop m [] wanted = wanted"
| "wanted_loop m ((h, ts) # ps) wanted =
     (if length wanted \<ge> FLEECE_MAX_FETCH_KEYS then wanted
      else if h > 0xFFFFFFFF then wanted_loop m ps wanted
      else if fleece_state_manager_shared_at_least m (ucast h) ts = 0
        then wanted_loop m ps (wanted @ [ucast h])
      else wanted_loop m ps wanted)"

definition request_missing_keys ::
    "allocator \<Rightarrow> FleeceRuntime \<Rightarrow> u64 \<Rightarrow> (u64 \<times> u64) list \<Rightarrow> bool \<times> FleeceRuntime" where
  "request_missing_keys A r reply_origin pairs =
     (let wanted = wanted_loop (rt_state_manager r) pairs [] in
      if wanted \<noteq> [] then
        let dest = (case unicast_dest_for reply_origin of Some d \<Rightarrow> d | None \<Rightarrow> lit ''mesh'')
        in (True, send_control_ex A r dest FLEECE_RESYNC_TAG_VALUE_REQ wanted True)
      else
        (case resync_target_for_id r reply_origin of
           (Some i, r) \<Rightarrow> (False, update_target i (\<lambda>t. t\<lparr>rs_need_shared := False\<rparr>) r)
         | (None, r) \<Rightarrow> (False, r)))"

text \<open>The two item loops; \<open>None\<close> is the early return on a malformed item.\<close>

function read_hashes :: "bytes \<Rightarrow> u64 \<Rightarrow> u64 \<Rightarrow> nat \<Rightarrow> u32 list \<Rightarrow> u32 list option" where
  "read_hashes buf items i pos acc =
     (if i < items \<and> length acc < FLEECE_MAX_FETCH_KEYS then
        (case read_major 0 buf pos of
           None \<Rightarrow> None
         | Some (v, pos') \<Rightarrow>
             read_hashes buf items (i + 1) pos' (if v \<le> 0xFFFFFFFF then acc @ [ucast v] else acc))
      else Some acc)"
  by pat_completeness auto

termination
  by (relation "measure (\<lambda>(buf, items, i, pos, acc). length buf - pos)") (auto dest!: read_major_bounds)

declare read_hashes.simps [simp del]

definition read_index_entry :: "bytes \<Rightarrow> nat \<Rightarrow> ((u64 \<times> u64) \<times> nat) option" where
  "read_index_entry buf pos =
     do {
       (arity, pos) \<leftarrow> read_major 4 buf pos;
       if arity \<noteq> 2 then None else
       do {
         (h, pos) \<leftarrow> read_major 0 buf pos;
         (ts, pos) \<leftarrow> read_major 0 buf pos;
         Some ((h, ts), pos)
       }
     }"

lemma read_index_entry_bounds:
  "read_index_entry buf pos = Some (e, pos') \<Longrightarrow> pos < pos' \<and> pos' \<le> length buf"
  by (auto simp: read_index_entry_def Option.bind_eq_Some_conv split: prod.splits if_splits
      dest!: read_major_bounds)

function read_index :: "bytes \<Rightarrow> u64 \<Rightarrow> u64 \<Rightarrow> nat \<Rightarrow> (u64 \<times> u64) list \<Rightarrow> (u64 \<times> u64) list option" where
  "read_index buf items i pos acc =
     (if i < items \<and> length acc < FLEECE_MAX_RESYNC_TARGETS * 4 then
        (case read_index_entry buf pos of
           None \<Rightarrow> None
         | Some (e, pos') \<Rightarrow> read_index buf items (i + 1) pos' (acc @ [e]))
      else Some acc)"
  by pat_completeness auto

termination
  by (relation "measure (\<lambda>(buf, items, i, pos, acc). length buf - pos)") (auto dest!: read_index_entry_bounds)

declare read_index.simps [simp del]

text \<open>Tag, origin, number of items and the position of the first item.\<close>

definition parse_fx_header :: "bytes \<Rightarrow> (u64 \<times> u64 \<times> u64 \<times> nat) option" where
  "parse_fx_header buf =
     do {
       (arity, pos) \<leftarrow> read_major 4 buf 3;
       if arity \<noteq> 3 then None else
       do {
         (tag, pos) \<leftarrow> read_major 0 buf pos;
         (origin, pos) \<leftarrow> read_major 0 buf pos;
         (items, pos) \<leftarrow> read_major 4 buf pos;
         Some (tag, origin, items, pos)
       }
     }"

definition reply_frame :: "allocator \<Rightarrow> FleeceRuntime \<Rightarrow> bytes \<Rightarrow> frame option \<Rightarrow> FleeceRuntime" where
  "reply_frame A r dest fr = (case fr of None \<Rightarrow> r | Some (buf, sz) \<Rightarrow> enqueue_tx A r dest buf sz)"

definition handle_fx_frame :: "allocator \<Rightarrow> FleeceRuntime \<Rightarrow> bytes \<Rightarrow> bytes \<Rightarrow> FleeceRuntime" where
  "handle_fx_frame A r data reply_source =
     (case parse_fx_header data of
        None \<Rightarrow> r
      | Some (tag, origin, items, pos) \<Rightarrow>
          let reply_dest = (case unicast_dest_for origin of Some d \<Rightarrow> d | None \<Rightarrow> reply_source) in
          if tag = FLEECE_RESYNC_TAG_INDEX_REQ then
            reply_frame A r reply_dest (fleece_state_manager_export_shared_index A (rt_state_manager r))
          else if tag = FLEECE_RESYNC_TAG_VALUE_REQ then
            (case read_hashes data items 0 pos [] of
               None \<Rightarrow> r
             | Some hashes \<Rightarrow>
                 if hashes = [] then r
                 else reply_frame A r reply_dest
                        (fleece_state_manager_export_shared_by_hash A (rt_state_manager r) hashes))
          else if tag = FLEECE_RESYNC_TAG_INDEX_REPLY then
            (case read_index data items 0 pos [] of
               None \<Rightarrow> r
             | Some pairs \<Rightarrow>
                 (case resync_target_for_id r origin of
                    (Some i, r) \<Rightarrow>
                      snd (request_missing_keys A (update_target i (\<lambda>t. t\<lparr>rs_awaiting_index := False\<rparr>) r) origin pairs)
                  | (None, r) \<Rightarrow> snd (request_missing_keys A r origin pairs)))
          else r)"

section \<open>Inbound frames\<close>

text \<open>The flag update both inbound paths share.\<close>

definition note_report :: "u64 \<Rightarrow> bool \<Rightarrow> ResyncTarget \<Rightarrow> ResyncTarget" where
  "note_report now behind_shared t =
     (let t = t\<lparr>rs_last_heard_tick := now\<rparr> in
      if behind_shared then t\<lparr>rs_need_shared := True\<rparr>
      else if \<not> rs_awaiting_index t then t\<lparr>rs_need_shared := False\<rparr>
      else t)"

definition import_and_track :: "(u64 \<Rightarrow> allocator) \<Rightarrow> FleeceRuntime \<Rightarrow> bytes \<Rightarrow> FleeceRuntime" where
  "import_and_track As r data =
     (let ir = fleece_state_manager_import_from As (rt_state_manager r) data;
          r = r\<lparr>rt_state_manager := ir_manager ir\<rparr>;
          behind_shared = (case ir_behind_shared ir of None \<Rightarrow> False | Some b \<Rightarrow> b);
          sender = (case ir_sender ir of None \<Rightarrow> 0 | Some s \<Rightarrow> s)
      in if ir_rc ir \<noteq> 0 then r
         else case resync_target_for_id r sender of
           (None, r) \<Rightarrow> r
         | (Some i, r) \<Rightarrow> update_target i (note_report (now_tick r) behind_shared) r)"

definition runtime_gossip_receive ::
    "allocator \<Rightarrow> (u64 \<Rightarrow> allocator) \<Rightarrow> FleeceRuntime \<Rightarrow> bytes \<Rightarrow> bytes option \<Rightarrow> FleeceRuntime" where
  "runtime_gossip_receive A As r source data =
     (case data of
        None \<Rightarrow> r
      | Some bs \<Rightarrow>
          if bs = [] then r
          else if length bs \<ge> 3 \<and> bs ! 0 = FLEECE_CONTROL_MAGIC0 \<and> bs ! 1 = FLEECE_CONTROL_MAGIC1 then
            (if bs ! 2 = FLEECE_CONTROL_VERSION then handle_fx_frame A r bs source else r)
          else import_and_track As r bs)"

definition fleece_runtime_on_control_frame :: "allocator \<Rightarrow> FleeceRuntime \<Rightarrow> bytes option \<Rightarrow> FleeceRuntime" where
  "fleece_runtime_on_control_frame A r data =
     (case data of
        None \<Rightarrow> r
      | Some bs \<Rightarrow>
          if length bs < 3 then r
          else if bs ! 0 \<noteq> FLEECE_CONTROL_MAGIC0 \<or> bs ! 1 \<noteq> FLEECE_CONTROL_MAGIC1 then r
          else if bs ! 2 \<noteq> FLEECE_CONTROL_VERSION then r
          else handle_fx_frame A r bs (lit ''mesh''))"

definition fleece_runtime_on_gossip_frame :: "(u64 \<Rightarrow> allocator) \<Rightarrow> FleeceRuntime \<Rightarrow> bytes option \<Rightarrow> FleeceRuntime" where
  "fleece_runtime_on_gossip_frame As r data =
     (case data of None \<Rightarrow> r | Some bs \<Rightarrow> if bs = [] then r else import_and_track As r bs)"

definition fleece_runtime_note_behind_from :: "FleeceRuntime \<Rightarrow> bool \<Rightarrow> u64 \<Rightarrow> FleeceRuntime" where
  "fleece_runtime_note_behind_from r behind_shared sender =
     (case resync_target_for_id r sender of
        (None, r) \<Rightarrow> r
      | (Some i, r) \<Rightarrow> update_target i (note_report (now_tick r) behind_shared) r)"

section \<open>Repair requests\<close>

text \<open>One iteration of the loop over the targets; the number counts the starts of this tick.\<close>

definition resync_target_step :: "allocator \<Rightarrow> FleeceRuntime \<times> nat \<Rightarrow> nat \<Rightarrow> FleeceRuntime \<times> nat" where
  "resync_target_step A = (\<lambda>(r, starts) i.
     let t = rt_resync_targets r ! i in
     if \<not> rs_exists t then (r, starts)
     else
       let (r, starts) =
         (if rs_need_shared t \<and>
             fleece_state_manager_ticks_since_last_write (rt_state_manager r) \<ge> FLEECE_RESYNC_QUIESCE_TICKS \<and>
             starts < FLEECE_RESYNC_STARTS_PER_TICK \<and>
             (\<not> rs_awaiting_index t \<or> now_tick r - rs_last_index_req_tick t \<ge> FLEECE_RESYNC_RETRY_TICKS)
          then (update_target i (\<lambda>t. t\<lparr>rs_awaiting_index := True, rs_last_index_req_tick := now_tick r\<rparr>)
                  (send_control A r (rs_source t) FLEECE_RESYNC_TAG_INDEX_REQ []), starts + 1)
          else (r, starts))
       in if now_tick r - rs_last_heard_tick t \<ge> FLEECE_RESYNC_PROBE_TICKS
          then (update_target i (\<lambda>t. t\<lparr>rs_awaiting_index := True, rs_last_heard_tick := now_tick r\<rparr>)
                  (send_control A r (rs_source t) FLEECE_RESYNC_TAG_INDEX_REQ []), starts)
          else (r, starts))"

definition runtime_send_resync_requests :: "allocator \<Rightarrow> FleeceRuntime \<Rightarrow> FleeceRuntime" where
  "runtime_send_resync_requests A r =
     fst (foldl (resync_target_step A) (flush_pending_tx r, 0) [0..<FLEECE_MAX_RESYNC_TARGETS])"

section \<open>Life cycle\<close>

text \<open>The booleans: whether each of the four allocations succeeds (runtime, comms, script engine,
  platform registry).\<close>

definition runtime_create_internal ::
    "bool \<Rightarrow> bool \<Rightarrow> bool \<Rightarrow> bool \<Rightarrow> FleeceStateManager option \<Rightarrow> FleeceRuntime option" where
  "runtime_create_internal ok ok_comms ok_embedded ok_platform sm =
     (if \<not> ok then None
      else case (sm, fleece_comms_create ok_comms) of
        (Some m, Some c) \<Rightarrow>
          if \<not> ok_embedded \<or> \<not> ok_platform then None
          else Some \<lparr>rt_is_running = False, rt_state_manager = m,
            rt_comms = fleece_comms_set_receive_callback c True,
            rt_shared_gossip_watermark = 0, rt_gossip_tick_count = 0, rt_goap_brain = False,
            rt_tick_cb = False, rt_pending_tx = replicate FLEECE_MAX_PENDING_TX zero_tx,
            rt_pending_tx_dropped = 0,
            rt_resync_targets = replicate FLEECE_MAX_RESYNC_TARGETS zero_target\<rparr>
      | _ \<Rightarrow> None)"

definition fleece_runtime_create :: "bool \<Rightarrow> bool \<Rightarrow> bool \<Rightarrow> bool \<Rightarrow> bool \<Rightarrow> bool \<Rightarrow> FleeceRuntime option" where
  "fleece_runtime_create ok1 ok2 ok ok_comms ok_embedded ok_platform =
     runtime_create_internal ok ok_comms ok_embedded ok_platform (fleece_state_manager_create ok1 ok2)"

definition fleece_runtime_create_with_node_id ::
    "bool \<Rightarrow> bool \<Rightarrow> bool \<Rightarrow> bool \<Rightarrow> bool \<Rightarrow> bool \<Rightarrow> u64 \<Rightarrow> FleeceRuntime option" where
  "fleece_runtime_create_with_node_id ok1 ok2 ok ok_comms ok_embedded ok_platform node_id =
     runtime_create_internal ok ok_comms ok_embedded ok_platform
       (fleece_state_manager_create_with_node_id ok1 ok2 node_id)"

definition fleece_runtime_stop :: "FleeceRuntime \<Rightarrow> FleeceRuntime" where
  "fleece_runtime_stop r = r\<lparr>rt_is_running := False\<rparr>"

text \<open>
  The handler of SIGINT and SIGTERM.  It acts on the runtime that the process's variable \<open>global_runtime\<close> points to: the one created last, or none after
  a runtime was destroyed.  Seen from one runtime this is the runtime itself, another one, or none.
\<close>

datatype global_runtime = NoRuntime | ThisRuntime | OtherRuntime

definition signal_handler :: "global_runtime \<Rightarrow> FleeceRuntime \<Rightarrow> FleeceRuntime" where
  "signal_handler global r =
     (case global of ThisRuntime \<Rightarrow> r\<lparr>rt_is_running := False\<rparr> | NoRuntime \<Rightarrow> r | OtherRuntime \<Rightarrow> r)"

definition fleece_runtime_is_running :: "FleeceRuntime \<Rightarrow> bool" where
  "fleece_runtime_is_running r = rt_is_running r"

definition fleece_runtime_set_gossip_cadence :: "runtime_statics \<Rightarrow> u32 \<Rightarrow> u32 \<Rightarrow> int \<times> runtime_statics" where
  "fleece_runtime_set_gossip_cadence g gossip beacon =
     (if gossip = 0 \<or> beacon = 0 then (-1, g)
      else (0, g\<lparr>s_gossip_every_ticks := gossip, s_beacon_every_ticks := beacon\<rparr>))"

definition fleece_runtime_set_tick_callback :: "FleeceRuntime \<Rightarrow> bool \<Rightarrow> FleeceRuntime" where
  "fleece_runtime_set_tick_callback r cb = r\<lparr>rt_tick_cb := cb\<rparr>"

text \<open>\<open>ok\<close>: whether the brain could be built.\<close>

definition fleece_runtime_set_goap :: "FleeceRuntime \<Rightarrow> bool \<Rightarrow> int \<times> FleeceRuntime" where
  "fleece_runtime_set_goap r ok =
     (if rt_goap_brain r then (-1, r)
      else let r = r\<lparr>rt_goap_brain := ok\<rparr> in (if rt_goap_brain r then 0 else -1, r))"

definition fleece_runtime_replace_goap :: "FleeceRuntime \<Rightarrow> bool \<Rightarrow> int \<times> FleeceRuntime" where
  "fleece_runtime_replace_goap r ok =
     (let r = (if rt_goap_brain r then r\<lparr>rt_goap_brain := False\<rparr> else r);
          r = r\<lparr>rt_goap_brain := ok\<rparr>
      in (if rt_goap_brain r then 0 else -1, r))"

section \<open>The main loop\<close>

text \<open>The gossip phase of a tick: a capped delta when due, else a header-only beacon when due.\<close>

definition gossip_phase :: "runtime_statics \<Rightarrow> allocator \<Rightarrow> FleeceRuntime \<Rightarrow> FleeceRuntime" where
  "gossip_phase g A r =
     (let m = rt_state_manager r;
          gossip_due = (rt_gossip_tick_count r mod s_gossip_every_ticks g = 0);
          beacon_due = ((rt_gossip_tick_count r + ucast (fleece_state_manager_get_node_id m))
                          mod s_beacon_every_ticks g = 0);
          have_new = (fleece_state_manager_count_new_shared m (rt_shared_gossip_watermark r) > 0)
      in if gossip_due \<and> have_new then
           (case fleece_state_manager_export_shared_delta_bounded A m (rt_shared_gossip_watermark r)
                   FLEECE_GOSSIP_FRAME_BYTES of
              (Some (buf, sz), inc, m') \<Rightarrow>
                r\<lparr>rt_state_manager := m',
                  rt_comms := snd (fleece_comms_send (rt_comms r) (Some (lit ''broadcast'')) (Some buf) sz),
                  rt_shared_gossip_watermark := inc\<rparr>
            | (None, inc, m') \<Rightarrow> r\<lparr>rt_state_manager := m'\<rparr>)
         else if beacon_due then
           (case fleece_state_manager_export_shared_delta_bounded A m UINT64_MAX 0 of
              (Some (buf, sz), inc, m') \<Rightarrow>
                r\<lparr>rt_state_manager := m',
                  rt_comms := snd (fleece_comms_send (rt_comms r) (Some (lit ''broadcast'')) (Some buf) sz)\<rparr>
            | (None, inc, m') \<Rightarrow> r\<lparr>rt_state_manager := m'\<rparr>)
         else r)"

text \<open>What the host contributes to one tick.\<close>

record host =
  h_poll :: "FleeceRuntime \<Rightarrow> FleeceRuntime"
  h_tick_cb :: "FleeceRuntime \<Rightarrow> FleeceRuntime"
  h_step :: "FleeceRuntime \<Rightarrow> FleeceRuntime"
  h_brain :: "FleeceRuntime \<Rightarrow> FleeceRuntime"

text \<open>
  Signals may arrive at any time.  \<open>sig k\<close> says whether one arrives during the \<open>k\<close>-th section of a tick and what \<open>global_runtime\<close> points to then.
  The handler only clears the flag, which the code of the runtime reads nowhere but at the head of the loop; so a signal
  during a section has the effect of one at its end.
\<close>

type_synonym signals = "nat \<Rightarrow> global_runtime option"

definition interrupt :: "signals \<Rightarrow> nat \<Rightarrow> FleeceRuntime \<Rightarrow> FleeceRuntime" where
  "interrupt sig k r = (case sig k of None \<Rightarrow> r | Some global \<Rightarrow> signal_handler global r)"

definition host_phase :: "signals \<Rightarrow> host \<Rightarrow> FleeceRuntime \<Rightarrow> FleeceRuntime" where
  "host_phase sig h r =
     (let r = r\<lparr>rt_state_manager := fleece_state_manager_tick (rt_state_manager r)\<rparr>;
          r = interrupt sig 0 r;
          r = fleece_comms_process_input (h_poll h) (rt_comms r) r;
          r = interrupt sig 1 r;
          r = (if rt_tick_cb r then h_tick_cb h r else r);
          r = interrupt sig 2 r;
          r = h_step h r;
          r = interrupt sig 3 r
      in if rt_goap_brain r then h_brain h r else r)"

definition runtime_tick :: "runtime_statics \<Rightarrow> allocator \<Rightarrow> signals \<Rightarrow> host \<Rightarrow> FleeceRuntime \<Rightarrow> FleeceRuntime" where
  "runtime_tick g A sig h r =
     (let r = host_phase sig h r;
          r = interrupt sig 4 r;
          r = gossip_phase g A r;
          r = interrupt sig 5 r;
          r = runtime_send_resync_requests A r;
          r = interrupt sig 6 r;
          r = r\<lparr>rt_gossip_tick_count := rt_gossip_tick_count r + 1\<rparr>;
          r = r\<lparr>rt_comms := fleece_comms_process_output (rt_comms r)\<rparr>
      in interrupt sig 7 r)"

partial_function (option) runtime_loop ::
    "runtime_statics \<Rightarrow> (nat \<Rightarrow> allocator) \<Rightarrow> (nat \<Rightarrow> signals) \<Rightarrow> (nat \<Rightarrow> host) \<Rightarrow> nat \<Rightarrow> FleeceRuntime \<Rightarrow> FleeceRuntime option" where
  "runtime_loop g As sig hs n r =
     (if rt_is_running r then runtime_loop g As sig hs (n + 1) (runtime_tick g (As n) (sig n) (hs n) r) else Some r)"

text \<open>
  \<open>start\<close>: \<open>init\<close> and \<open>destroy\<close> are the script's hooks, \<open>sig0\<close> the signals before and during the first; \<open>None\<close> is a loop that never ends.
  The handlers are installed after the flag is set and stay installed, so a signal during the last hook only clears the flag once more.
\<close>

definition fleece_runtime_start ::
    "runtime_statics \<Rightarrow> (nat \<Rightarrow> allocator) \<Rightarrow> (FleeceRuntime \<Rightarrow> FleeceRuntime) \<Rightarrow> signals \<Rightarrow> (nat \<Rightarrow> signals) \<Rightarrow> (nat \<Rightarrow> host) \<Rightarrow>
     (FleeceRuntime \<Rightarrow> FleeceRuntime) \<Rightarrow> FleeceRuntime \<Rightarrow> (int \<times> FleeceRuntime) option" where
  "fleece_runtime_start g As init sig0 sig hs destroy r =
     (if rt_is_running r then Some (-1, r)
      else
        let r = interrupt sig0 0 (r\<lparr>rt_is_running := True\<rparr>);
            r = interrupt sig0 1 (init r)
        in map_option (\<lambda>r. (0, destroy r)) (runtime_loop g As sig hs 0 r))"

end
