(* ===== verification/Runtime_Proofs.thy ===== *)
theory Runtime_Proofs
  imports Runtime
begin

text \<open>
  The runtime's invariant, what inbound frames can and cannot do, the deferred queue, the repair
  handshake, and the gossip phase of the main loop.
\<close>

section \<open>Destinations identify nodes\<close>

lemma length_hex16 [simp]: "length (hex16 v) = 16"
  by (simp add: hex16_def)

lemma length_target_source: "length (target_source n) \<le> 21"
  by (simp add: target_source_def node_dest_def lit_def)

lemma snprintf_target [simp]: "snprintf_s DEST_MAX (target_source n) = target_source n"
  using length_target_source [of n] by (simp add: snprintf_s_def)

lemma nibble_below: "drop_bit k (v :: u64) AND 0xF \<in> {..<16}"
proof -
  have "drop_bit k v AND 0xF = take_bit 4 (drop_bit k v)"
    by (simp add: take_bit_eq_mask mask_eq_exp_minus_1)
  moreover have "unat (take_bit 4 (drop_bit k v)) < 16"
    using take_bit_nat_less_exp [of 4 "unat (drop_bit k v)"] by (simp add: unsigned_take_bit_eq)
  ultimately show ?thesis
    by (simp add: word_less_nat_alt)
qed

lemma hex_digit_inj: "inj_on hex_digit {..<16}"
proof (rule inj_onI)
  fix a b :: u64
  assume "a \<in> {..<16}" "b \<in> {..<16}" and eq: "hex_digit a = hex_digit b"
  then have "a \<in> set (map of_nat [0..<16])" "b \<in> set (map of_nat [0..<16])"
  proof -
    have "w \<in> set (map of_nat [0..<16])" if "w < 16" for w :: u64
    proof -
      have "unat w < 16" using that by (simp add: word_less_nat_alt)
      moreover have "w = of_nat (unat w)" by simp
      ultimately show ?thesis by (metis atLeastLessThan_iff imageI le0 list.set_map set_upt)
    qed
    then show "a \<in> set (map of_nat [0..<16])" "b \<in> set (map of_nat [0..<16])"
      using \<open>a \<in> {..<16}\<close> \<open>b \<in> {..<16}\<close> by auto
  qed
  moreover have "\<forall>x\<in>set (map of_nat [0..<16]). \<forall>y\<in>set (map of_nat [0..<16]).
      hex_digit x = hex_digit y \<longrightarrow> x = (y :: u64)"
    by code_simp
  ultimately show "a = b" using eq by blast
qed

lemma hex16_inj: "hex16 v = hex16 w \<Longrightarrow> v = w"
proof -
  assume eq: "hex16 v = hex16 w"
  have nib: "drop_bit (4 * i) v AND 0xF = drop_bit (4 * i) w AND 0xF" if "i < 16" for i
  proof -
    have "i \<in> set (rev [0..<16])" using that by simp
    then have "hex_digit (drop_bit (4 * i) v AND 0xF) = hex_digit (drop_bit (4 * i) w AND 0xF)"
      using eq unfolding hex16_def by (simp add: map_eq_conv)
    then show ?thesis
      using hex_digit_inj nibble_below by (metis inj_onD)
  qed
  show "v = w"
  proof (rule bit_word_eqI)
    fix n
    assume "n < LENGTH(64)"
    then have i: "n div 4 < 16" and n: "n = 4 * (n div 4) + n mod 4" and k: "n mod 4 < 4" by simp_all
    have bits: "bit (drop_bit (4 * (n div 4)) x AND 0xF) (n mod 4) = bit x n" for x :: u64
    proof -
      have "drop_bit (4 * (n div 4)) x AND 0xF = take_bit 4 (drop_bit (4 * (n div 4)) x)"
        by (simp add: take_bit_eq_mask mask_eq_exp_minus_1)
      then show ?thesis using n k by (simp add: bit_take_bit_iff bit_drop_bit_eq)
    qed
    show "bit v n = bit w n"
      using bits [of v] bits [of w] nib [OF i] by simp
  qed
qed

lemma target_source_inj: "target_source a = target_source b \<Longrightarrow> a = b"
proof -
  assume eq: "target_source a = target_source b"
  have len: "length (target_source n) = (if n = 0 then 4 else 21)" for n
    by (simp add: target_source_def node_dest_def lit_def)
  have "a = 0 \<longleftrightarrow> b = 0"
    using arg_cong [OF eq, of length] by (simp add: len split: if_splits)
  then show ?thesis
    using eq hex16_inj by (auto simp: target_source_def node_dest_def split: if_splits)
qed

section \<open>The invariant\<close>

definition targets_inv :: "ResyncTarget list \<Rightarrow> bool" where
  "targets_inv ts \<longleftrightarrow>
     length ts = FLEECE_MAX_RESYNC_TARGETS \<and>
     (\<forall>i<length ts. rs_exists (ts ! i) \<longrightarrow> rs_source (ts ! i) = target_source (rs_node_id (ts ! i))) \<and>
     (\<forall>i<length ts. \<forall>j<length ts. rs_exists (ts ! i) \<and> rs_exists (ts ! j) \<and>
        rs_node_id (ts ! i) = rs_node_id (ts ! j) \<longrightarrow> i = j)"

definition tx_ok :: "PendingTx \<Rightarrow> bool" where
  "tx_ok t \<longleftrightarrow> (tx_used t \<longrightarrow> (\<exists>d. tx_data t = Some d \<and> length d = unat (tx_size t)))"

definition rt_inv :: "FleeceRuntime \<Rightarrow> bool" where
  "rt_inv r \<longleftrightarrow>
     sm_inv (rt_state_manager r) \<and> targets_inv (rt_resync_targets r) \<and>
     length (rt_pending_tx r) = FLEECE_MAX_PENDING_TX \<and> (\<forall>t\<in>set (rt_pending_tx r). tx_ok t)"

lemma create_rt_inv:
  assumes "runtime_create_internal ok oc oe op (Some m) = Some r" and "sm_inv m"
  shows "rt_inv r"
proof -
  have "rt_state_manager r = m" "rt_pending_tx r = replicate FLEECE_MAX_PENDING_TX zero_tx"
    "rt_resync_targets r = replicate FLEECE_MAX_RESYNC_TARGETS zero_target"
    using assms(1) by (auto simp: runtime_create_internal_def split: if_splits option.splits)
  then show ?thesis
    using assms(2) by (simp add: rt_inv_def targets_inv_def tx_ok_def zero_tx_def zero_target_def)
qed

lemma targets_invD:
  assumes "targets_inv ts"
  shows "length ts = FLEECE_MAX_RESYNC_TARGETS"
    and "i < length ts \<Longrightarrow> rs_exists (ts ! i) \<Longrightarrow> rs_source (ts ! i) = target_source (rs_node_id (ts ! i))"
    and "i < length ts \<Longrightarrow> j < length ts \<Longrightarrow> rs_exists (ts ! i) \<Longrightarrow> rs_exists (ts ! j) \<Longrightarrow>
      rs_node_id (ts ! i) = rs_node_id (ts ! j) \<Longrightarrow> i = j"
  using assms unfolding targets_inv_def by blast+

lemma targets_invI:
  assumes "length ts = FLEECE_MAX_RESYNC_TARGETS"
    and "\<And>i. i < length ts \<Longrightarrow> rs_exists (ts ! i) \<Longrightarrow> rs_source (ts ! i) = target_source (rs_node_id (ts ! i))"
    and "\<And>i j. i < length ts \<Longrightarrow> j < length ts \<Longrightarrow> rs_exists (ts ! i) \<Longrightarrow> rs_exists (ts ! j) \<Longrightarrow>
      rs_node_id (ts ! i) = rs_node_id (ts ! j) \<Longrightarrow> i = j"
  shows "targets_inv ts"
  using assms unfolding targets_inv_def by blast

lemma targets_inv_cong:
  assumes inv: "targets_inv ts" and len: "length ts' = length ts"
    and same: "\<And>j. j < length ts \<Longrightarrow> rs_node_id (ts' ! j) = rs_node_id (ts ! j)"
      "\<And>j. j < length ts \<Longrightarrow> rs_source (ts' ! j) = rs_source (ts ! j)"
      "\<And>j. j < length ts \<Longrightarrow> rs_exists (ts' ! j) = rs_exists (ts ! j)"
  shows "targets_inv ts'"
proof (rule targets_invI)
  show "length ts' = FLEECE_MAX_RESYNC_TARGETS" using targets_invD(1) [OF inv] len by simp
  show "rs_source (ts' ! i) = target_source (rs_node_id (ts' ! i))" if "i < length ts'" "rs_exists (ts' ! i)" for i
    using that targets_invD(2) [OF inv, of i] same [of i] len by simp
  show "i = j" if "i < length ts'" "j < length ts'" "rs_exists (ts' ! i)" "rs_exists (ts' ! j)"
    "rs_node_id (ts' ! i) = rs_node_id (ts' ! j)" for i j
    using that targets_invD(3) [OF inv, of i j] same [of i] same [of j] len by simp
qed

text \<open>The bookkeeping entry of a peer.\<close>

lemma targets_inv_insert:
  assumes inv: "targets_inv ts" and i: "i < length ts"
    and none: "\<And>j. j < length ts \<Longrightarrow> rs_exists (ts ! j) \<Longrightarrow> rs_node_id (ts ! j) \<noteq> rs_node_id t"
    and t: "rs_source t = target_source (rs_node_id t)"
  shows "targets_inv (ts[i := t])"
proof (rule targets_invI)
  show "length (ts[i := t]) = FLEECE_MAX_RESYNC_TARGETS" using targets_invD(1) [OF inv] by simp
  show "rs_source (ts[i := t] ! j) = target_source (rs_node_id (ts[i := t] ! j))"
    if "j < length (ts[i := t])" "rs_exists (ts[i := t] ! j)" for j
    using that t targets_invD(2) [OF inv, of j] by (cases "j = i") auto
  show "j = k" if "j < length (ts[i := t])" "k < length (ts[i := t])" "rs_exists (ts[i := t] ! j)"
    "rs_exists (ts[i := t] ! k)" "rs_node_id (ts[i := t] ! j) = rs_node_id (ts[i := t] ! k)" for j k
    using that none [of j] none [of k] targets_invD(3) [OF inv, of j k] i
    by (cases "j = i"; cases "k = i") auto
qed

lemma resync_target_cases:
  assumes inv: "targets_inv (rt_resync_targets r)" and res: "resync_target_for_id r n = (res, r')"
  shows "targets_inv (rt_resync_targets r')"
    and "\<And>i. res = Some i \<Longrightarrow> i < FLEECE_MAX_RESYNC_TARGETS \<and> rs_exists (rt_resync_targets r' ! i) \<and>
      rs_node_id (rt_resync_targets r' ! i) = n"
proof -
  let ?ts = "rt_resync_targets r"
  let ?new = "\<lparr>rs_node_id = n, rs_source = target_source n, rs_last_heard_tick = now_tick r,
     rs_need_shared = False, rs_awaiting_index = False, rs_last_index_req_tick = 0, rs_exists = True\<rparr>"
  have len: "length ?ts = FLEECE_MAX_RESYNC_TARGETS" by (rule targets_invD(1) [OF inv])
  have "targets_inv (rt_resync_targets r') \<and>
    (\<forall>i. res = Some i \<longrightarrow> i < FLEECE_MAX_RESYNC_TARGETS \<and> rs_exists (rt_resync_targets r' ! i) \<and>
      rs_node_id (rt_resync_targets r' ! i) = n)"
  proof (cases "index_of (\<lambda>t. rs_exists t \<and> rs_node_id t = n \<and> rs_source t = target_source n) ?ts")
    case (Some i)
    then have "res = Some i" "r' = r" using res by (simp_all add: resync_target_for_id_def Let_def)
    then show ?thesis using inv len index_of_SomeD [OF Some] by simp
  next
    case fresh: None
    show ?thesis
    proof (cases "index_of (\<lambda>t. \<not> rs_exists t) ?ts")
      case None
      then have "res = None" "r' = r" using res fresh by (simp_all add: resync_target_for_id_def Let_def)
      then show ?thesis using inv by simp
    next
      case (Some i)
      have i: "i < length ?ts" using index_of_SomeD [OF Some] by simp
      have r': "rt_resync_targets r' = ?ts[i := ?new]" "res = Some i"
        using res fresh Some by (auto simp: resync_target_for_id_def Let_def)
      have none: "rs_node_id (?ts ! j) \<noteq> n" if "j < length ?ts" "rs_exists (?ts ! j)" for j
        using that fresh targets_invD(2) [OF inv, of j] by (auto simp: index_of_None_nth)
      have "targets_inv (?ts[i := ?new])"
        using targets_inv_insert [OF inv i, of ?new] none by simp
      then show ?thesis using r' i len by simp
    qed
  qed
  then show "targets_inv (rt_resync_targets r')"
    and "\<And>i. res = Some i \<Longrightarrow> i < FLEECE_MAX_RESYNC_TARGETS \<and> rs_exists (rt_resync_targets r' ! i) \<and>
      rs_node_id (rt_resync_targets r' ! i) = n" by blast+
qed

lemma update_target_inv:
  assumes inv: "targets_inv (rt_resync_targets r)"
    and f: "\<And>t. rs_node_id (f t) = rs_node_id t" "\<And>t. rs_source (f t) = rs_source t" "\<And>t. rs_exists (f t) = rs_exists t"
  shows "targets_inv (rt_resync_targets (update_target i f r))"
  unfolding update_target_def
  by (rule targets_inv_cong [OF inv]) (simp_all add: nth_update_below f)

text \<open>What stays untouched when only the targets change.\<close>

definition only_targets :: "FleeceRuntime \<Rightarrow> FleeceRuntime \<Rightarrow> bool" where
  "only_targets r r' \<longleftrightarrow> (\<exists>ts. r' = r\<lparr>rt_resync_targets := ts\<rparr>)"

lemma only_targets_simps:
  "only_targets r r' \<Longrightarrow> rt_state_manager r' = rt_state_manager r \<and> rt_comms r' = rt_comms r \<and>
   rt_pending_tx r' = rt_pending_tx r \<and> rt_shared_gossip_watermark r' = rt_shared_gossip_watermark r \<and>
   rt_gossip_tick_count r' = rt_gossip_tick_count r \<and> rt_is_running r' = rt_is_running r"
  by (auto simp: only_targets_def)

lemma only_targets_refl: "only_targets r r"
  unfolding only_targets_def by (rule exI [of _ "rt_resync_targets r"]) simp

lemma only_targets_for_id: "resync_target_for_id r n = (res, r') \<Longrightarrow> only_targets r r'"
  using only_targets_refl
  by (auto simp: only_targets_def resync_target_for_id_def Let_def split: option.splits)

lemma only_targets_update: "only_targets r (update_target i f r)"
  by (auto simp: only_targets_def update_target_def)

lemma only_targets_trans: "only_targets r r1 \<Longrightarrow> only_targets r1 r2 \<Longrightarrow> only_targets r r2"
  by (auto simp: only_targets_def)

lemma only_targets_inv:
  "rt_inv r \<Longrightarrow> only_targets r r' \<Longrightarrow> targets_inv (rt_resync_targets r') \<Longrightarrow> rt_inv r'"
  using only_targets_simps [of r r'] by (simp add: rt_inv_def)


section \<open>The deferred queue\<close>

text \<open>A reply composed inside an inbound callback: one slot written, or a drop counted.\<close>

definition only_pending :: "FleeceRuntime \<Rightarrow> FleeceRuntime \<Rightarrow> bool" where
  "only_pending r r' \<longleftrightarrow>
     (\<exists>i t d. r' = r\<lparr>rt_pending_tx := (rt_pending_tx r)[i := t], rt_pending_tx_dropped := d\<rparr> \<and>
       (i < length (rt_pending_tx r) \<longrightarrow> \<not> tx_used (rt_pending_tx r ! i) \<or> t = rt_pending_tx r ! i))"

lemma enqueue_only_pending: "only_pending r (enqueue_tx A r dest data sz)"
proof (cases "index_of (\<lambda>t. \<not> tx_used t) (rt_pending_tx r)")
  case None
  then have "enqueue_tx A r dest data sz = r\<lparr>rt_pending_tx := (rt_pending_tx r)[0 := rt_pending_tx r ! 0],
      rt_pending_tx_dropped := rt_pending_tx_dropped r + 1\<rparr>"
    by (simp add: enqueue_tx_def)
  then show ?thesis unfolding only_pending_def by blast
next
  case (Some i)
  then have i: "\<not> tx_used (rt_pending_tx r ! i)" using index_of_sat by fastforce
  obtain t where "enqueue_tx A r dest data sz = r\<lparr>rt_pending_tx := (rt_pending_tx r)[i := t]\<rparr>"
    using Some by (cases "A (unat sz)") (simp_all add: enqueue_tx_def)
  then have "enqueue_tx A r dest data sz = r\<lparr>rt_pending_tx := (rt_pending_tx r)[i := t],
      rt_pending_tx_dropped := rt_pending_tx_dropped r\<rparr>" by simp
  then show ?thesis using i unfolding only_pending_def by blast
qed

lemma only_pending_simps:
  "only_pending r r' \<Longrightarrow> rt_state_manager r' = rt_state_manager r \<and> rt_comms r' = rt_comms r \<and>
   rt_resync_targets r' = rt_resync_targets r \<and> rt_shared_gossip_watermark r' = rt_shared_gossip_watermark r \<and>
   rt_gossip_tick_count r' = rt_gossip_tick_count r \<and> rt_is_running r' = rt_is_running r"
  by (auto simp: only_pending_def)

lemma enqueue_inv:
  assumes inv: "rt_inv r" and len: "unat sz \<le> length data"
  shows "rt_inv (enqueue_tx A r dest data sz)"
proof -
  have upd: "rt_inv (r\<lparr>rt_pending_tx := (rt_pending_tx r)[i := t]\<rparr>)" if "tx_ok t" for i t
    using inv that set_update_subset_insert [of "rt_pending_tx r" i t] unfolding rt_inv_def by auto
  show ?thesis
  proof (cases "index_of (\<lambda>t. \<not> tx_used t) (rt_pending_tx r)")
    case None
    then show ?thesis using inv by (simp add: enqueue_tx_def rt_inv_def)
  next
    case (Some i)
    then have "\<not> tx_used (rt_pending_tx r ! i)" using index_of_sat by fastforce
    then show ?thesis using Some len by (auto simp: enqueue_tx_def tx_ok_def intro!: upd)
  qed
qed

lemma flush_slot_frame:
  "rt_state_manager (flush_slot r i) = rt_state_manager r \<and> rt_resync_targets (flush_slot r i) = rt_resync_targets r \<and>
   rt_shared_gossip_watermark (flush_slot r i) = rt_shared_gossip_watermark r \<and>
   rt_gossip_tick_count (flush_slot r i) = rt_gossip_tick_count r \<and> rt_is_running (flush_slot r i) = rt_is_running r \<and>
   length (rt_pending_tx (flush_slot r i)) = length (rt_pending_tx r) \<and>
   (\<forall>j<length (rt_pending_tx r). j \<noteq> i \<longrightarrow> rt_pending_tx (flush_slot r i) ! j = rt_pending_tx r ! j)"
  by (simp add: flush_slot_def Let_def)

definition tx_ready :: "FleeceRuntime \<Rightarrow> PendingTx \<Rightarrow> bool" where
  "tx_ready r t \<longleftrightarrow> tx_used t \<and> tx_ready_tick t \<le> now_tick r"

definition tx_message :: "PendingTx \<Rightarrow> message" where
  "tx_message t = (tx_dest t, pointee (tx_data t), tx_size t)"

definition can_send :: "FleeceComms \<Rightarrow> bool" where
  "can_send c \<longleftrightarrow> cm_is_initialized c \<and> cm_send_callback c"

lemma send_ok:
  "can_send c \<Longrightarrow> sz \<noteq> 0 \<Longrightarrow> length d = unat sz \<Longrightarrow>
   cm_sends (snd (fleece_comms_send c (Some dest) (Some d) sz)) = cm_sends c @ [(dest, d, sz)] \<and>
   can_send (snd (fleece_comms_send c (Some dest) (Some d) sz))"
  by (simp add: fleece_comms_send_def can_send_def Let_def)

lemma flush_prefix:
  assumes inv: "rt_inv r" and c: "can_send (rt_comms r)"
    and sz: "\<forall>t\<in>set (rt_pending_tx r). tx_used t \<longrightarrow> tx_size t \<noteq> 0"
  shows "n \<le> FLEECE_MAX_PENDING_TX \<Longrightarrow>
    (let r' = foldl flush_slot r [0..<n] in
     cm_sends (rt_comms r') = cm_sends (rt_comms r) @ map tx_message (filter (tx_ready r) (take n (rt_pending_tx r))) \<and>
     can_send (rt_comms r') \<and> length (rt_pending_tx r') = FLEECE_MAX_PENDING_TX \<and> now_tick r' = now_tick r \<and>
     (\<forall>j<FLEECE_MAX_PENDING_TX. rt_pending_tx r' ! j =
       (if j < n \<and> tx_ready r (rt_pending_tx r ! j)
        then (rt_pending_tx r ! j)\<lparr>tx_data := None, tx_used := False\<rparr> else rt_pending_tx r ! j)))"
proof (induction n)
  case 0
  then show ?case using inv c by (simp add: rt_inv_def)
next
  case (Suc n)
  let ?r = "foldl flush_slot r [0..<n]" and ?t = "rt_pending_tx r ! n"
  have n: "n < FLEECE_MAX_PENDING_TX" using Suc.prems by simp
  have len: "length (rt_pending_tx r) = FLEECE_MAX_PENDING_TX" using inv by (simp add: rt_inv_def)
  have IH: "cm_sends (rt_comms ?r) = cm_sends (rt_comms r) @ map tx_message (filter (tx_ready r) (take n (rt_pending_tx r)))"
    "can_send (rt_comms ?r)" "length (rt_pending_tx ?r) = FLEECE_MAX_PENDING_TX" "now_tick ?r = now_tick r"
    "\<And>j. j < FLEECE_MAX_PENDING_TX \<Longrightarrow> rt_pending_tx ?r ! j =
       (if j < n \<and> tx_ready r (rt_pending_tx r ! j)
        then (rt_pending_tx r ! j)\<lparr>tx_data := None, tx_used := False\<rparr> else rt_pending_tx r ! j)"
    using Suc by (simp_all add: Let_def)
  have tn: "rt_pending_tx ?r ! n = ?t" using IH(5) [OF n] by simp
  have step: "foldl flush_slot r [0..<Suc n] = flush_slot ?r n" by simp
  have tk: "take (Suc n) (rt_pending_tx r) = take n (rt_pending_tx r) @ [?t]"
    using n len by (simp add: take_Suc_conv_app_nth)
  show ?case
  proof (cases "tx_ready r ?t")
    case False
    then have "flush_slot ?r n = ?r"
      using tn IH(4) by (auto simp: flush_slot_def tx_ready_def Let_def)
    then show ?thesis
      using IH False by (auto simp: step tk Let_def less_Suc_eq)
  next
    case True
    have mem: "?t \<in> set (rt_pending_tx r)" using n len by simp
    obtain d where d: "tx_data ?t = Some d" "length d = unat (tx_size ?t)"
      using True mem inv by (auto simp: rt_inv_def tx_ok_def tx_ready_def)
    have nz: "tx_size ?t \<noteq> 0" using True mem sz by (auto simp: tx_ready_def)
    have fl: "flush_slot ?r n = ?r\<lparr>rt_comms := snd (fleece_comms_send (rt_comms ?r) (Some (tx_dest ?t)) (Some d) (tx_size ?t)),
        rt_pending_tx := (rt_pending_tx ?r)[n := ?t\<lparr>tx_data := None, tx_used := False\<rparr>]\<rparr>"
      using True tn IH(4) d by (auto simp: flush_slot_def tx_ready_def Let_def)
    have msg: "tx_message ?t = (tx_dest ?t, d, tx_size ?t)" by (simp add: tx_message_def pointee_def d(1))
    have now: "now_tick (flush_slot ?r n) = now_tick r" using IH(4) by (simp add: fl now_tick_def)
    have nth: "rt_pending_tx (flush_slot ?r n) ! j = (if j < Suc n \<and> tx_ready r (rt_pending_tx r ! j)
        then (rt_pending_tx r ! j)\<lparr>tx_data := None, tx_used := False\<rparr> else rt_pending_tx r ! j)"
      if "j < FLEECE_MAX_PENDING_TX" for j
      using that IH(3) IH(5) [OF that] True by (auto simp: fl nth_update_below less_Suc_eq)
    show ?thesis
      using send_ok [OF IH(2) nz d(2), of "tx_dest ?t"] IH(1,3) True now nth
      by (simp add: step tk Let_def fl msg)
  qed
qed


section \<open>Control frames\<close>

lemma reply_frame_props:
  assumes inv: "rt_inv r" and fr: "\<And>buf sz. fr = Some (buf, sz) \<Longrightarrow> unat sz \<le> length buf"
  shows "rt_inv (reply_frame A r dest fr)" and "only_pending r (reply_frame A r dest fr) \<or> reply_frame A r dest fr = r"
  using enqueue_inv [OF inv] enqueue_only_pending fr inv
  by (auto simp: reply_frame_def split: option.splits)

lemma frame_size_le:
  "(if c then None else let b = e in Some (b, of_nat (length b))) = Some (buf, sz) \<Longrightarrow> unat (sz :: u32) \<le> length buf"
  by (auto simp: Let_def unat_of_nat_le split: if_splits)

lemma frame_size_le':
  "(if c then None else Some (e, of_nat (length e))) = Some (buf, sz) \<Longrightarrow> unat (sz :: u32) \<le> length buf"
  by (auto simp: unat_of_nat_le split: if_splits)

lemma export_size_le:
  "fleece_state_manager_export_shared_index A m = Some (buf, sz) \<Longrightarrow> unat sz \<le> length buf"
  "fleece_state_manager_export_shared_by_hash A m hashes = Some (buf, sz) \<Longrightarrow> unat sz \<le> length buf"
proof -
  show "fleece_state_manager_export_shared_index A m = Some (buf, sz) \<Longrightarrow> unat sz \<le> length buf"
    unfolding fleece_state_manager_export_shared_index_def by (rule frame_size_le)
  obtain hw body taken where sel: "value_selection m hashes = (hw, body, taken)"
    by (cases "value_selection m hashes")
  show "fleece_state_manager_export_shared_by_hash A m hashes = Some (buf, sz) \<Longrightarrow> unat sz \<le> length buf"
    unfolding fleece_state_manager_export_shared_by_hash_def sel Let_def prod.case
    by (rule frame_size_le')
qed

lemma send_control_later:
  assumes inv: "rt_inv r"
  shows "rt_inv (send_control_ex A r target tag hashes True)" and "only_pending r (send_control_ex A r target tag hashes True)"
  using enqueue_inv [OF inv] enqueue_only_pending by (simp_all add: send_control_ex_def Let_def unat_of_nat_le)

text \<open>The two ways an inbound control frame can change the runtime, one after the other.\<close>

definition control_effect :: "FleeceRuntime \<Rightarrow> FleeceRuntime \<Rightarrow> bool" where
  "control_effect r r' \<longleftrightarrow> rt_inv r' \<and> (\<exists>r1. only_targets r r1 \<and> (r' = r1 \<or> only_pending r1 r'))"

lemma request_missing_effect:
  assumes inv: "rt_inv r"
  shows "control_effect r (snd (request_missing_keys A r origin pairs))"
proof (cases "wanted_loop (rt_state_manager r) pairs [] = []")
  case False
  obtain dest where "snd (request_missing_keys A r origin pairs) =
      send_control_ex A r dest FLEECE_RESYNC_TAG_VALUE_REQ (wanted_loop (rt_state_manager r) pairs []) True"
    using False by (simp add: request_missing_keys_def Let_def)
  then show ?thesis
    using send_control_later [OF inv] only_targets_refl unfolding control_effect_def by metis
next
  case True
  obtain res r1 where res: "resync_target_for_id r origin = (res, r1)" by fastforce
  have "targets_inv (rt_resync_targets r)" using inv by (simp add: rt_inv_def)
  note T = resync_target_cases [OF this res] and O = only_targets_for_id [OF res]
  let ?r2 = "case res of Some i \<Rightarrow> update_target i (\<lambda>t. t\<lparr>rs_need_shared := False\<rparr>) r1 | None \<Rightarrow> r1"
  have "targets_inv (rt_resync_targets ?r2)" "only_targets r ?r2"
    using T(1) O only_targets_trans [OF O only_targets_update] by (auto intro: update_target_inv split: option.splits)
  then have "control_effect r ?r2"
    using only_targets_inv [OF inv] unfolding control_effect_def by blast
  moreover have "snd (request_missing_keys A r origin pairs) = ?r2"
    using True res by (simp add: request_missing_keys_def Let_def split: option.splits)
  ultimately show ?thesis by simp
qed

lemma control_effect_after_targets:
  "only_targets r r1 \<Longrightarrow> control_effect r1 r2 \<Longrightarrow> control_effect r r2"
  unfolding control_effect_def using only_targets_trans by blast

lemma handle_fx_effect:
  assumes inv: "rt_inv r"
  shows "control_effect r (handle_fx_frame A r data src)"
proof -
  have base: "control_effect r r" using inv only_targets_refl by (auto simp: control_effect_def)
  have reply: "control_effect r (reply_frame A r dest fr)" if "\<And>buf sz. fr = Some (buf, sz) \<Longrightarrow> unat sz \<le> length buf" for dest fr
    using reply_frame_props [OF inv that] only_targets_refl unfolding control_effect_def by metis
  have index: "control_effect r (case resync_target_for_id r origin of
      (Some i, r) \<Rightarrow> snd (request_missing_keys A (update_target i (\<lambda>t. t\<lparr>rs_awaiting_index := False\<rparr>) r) origin pairs)
    | (None, r) \<Rightarrow> snd (request_missing_keys A r origin pairs))" for origin pairs
  proof -
    obtain res r1 where res: "resync_target_for_id r origin = (res, r1)" by fastforce
    have "targets_inv (rt_resync_targets r)" using inv by (simp add: rt_inv_def)
    note T = resync_target_cases [OF this res] and O = only_targets_for_id [OF res]
    let ?r2 = "case res of Some i \<Rightarrow> update_target i (\<lambda>t. t\<lparr>rs_awaiting_index := False\<rparr>) r1 | None \<Rightarrow> r1"
    have "targets_inv (rt_resync_targets ?r2)" and o2: "only_targets r ?r2"
      using T(1) O only_targets_trans [OF O only_targets_update] by (auto intro: update_target_inv split: option.splits)
    then have "rt_inv ?r2" using only_targets_inv [OF inv] by blast
    then have "control_effect r (snd (request_missing_keys A ?r2 origin pairs))"
      by (intro control_effect_after_targets [OF o2] request_missing_effect)
    then show ?thesis using res by (simp split: option.splits)
  qed
  have "control_effect r (reply_frame A r dest (fleece_state_manager_export_shared_index A (rt_state_manager r)))"
    "control_effect r (reply_frame A r dest (fleece_state_manager_export_shared_by_hash A (rt_state_manager r) hashes))"
    for dest hashes
    using export_size_le by (auto intro!: reply)
  then show ?thesis
    unfolding handle_fx_frame_def Let_def using base index by (simp split: option.split)
qed

lemma control_effect_simps:
  "control_effect r r' \<Longrightarrow> rt_state_manager r' = rt_state_manager r \<and> rt_comms r' = rt_comms r \<and>
   rt_shared_gossip_watermark r' = rt_shared_gossip_watermark r \<and> rt_is_running r' = rt_is_running r"
  by (auto simp: control_effect_def dest!: only_targets_simps only_pending_simps)

text \<open>Writing and reading back a control frame.\<close>

lemma control_frame_header:
  assumes "buf = [FLEECE_CONTROL_MAGIC0, FLEECE_CONTROL_MAGIC1, FLEECE_CONTROL_VERSION]
     @ fleece_cbor_write_array_header 3 @ fleece_cbor_write_uint tag @ fleece_cbor_write_uint self
     @ fleece_cbor_write_array_header (of_nat n) @ rest"
    and n: "n < 2 ^ 32"
  shows "\<exists>pos. parse_fx_header buf = Some (tag, self, of_nat n, pos) \<and> drop pos buf = rest"
proof -
  have d0: "drop 3 buf = fleece_cbor_write_head 4 3 @ fleece_cbor_write_head 0 tag @ fleece_cbor_write_head 0 self
      @ fleece_cbor_write_head 4 (ucast (of_nat n :: u32)) @ rest"
    by (simp add: assms(1) fleece_cbor_write_array_header_def fleece_cbor_write_uint_def)
  note d1 = drop_after_head [OF d0]
  note d2 = drop_after_head [OF d1]
  note d3 = drop_after_head [OF d2]
  note d4 = drop_after_head [OF d3]
  have "unat (ucast (of_nat n :: u32) :: u64) = n"
    using n by (simp add: unat_of_nat_32)
  from arg_cong [OF this, of "of_nat :: nat \<Rightarrow> u64"] have eq: "(ucast (of_nat n :: u32) :: u64) = of_nat n"
    by simp
  have "parse_fx_header buf = Some (tag, self, of_nat n, 3 + fleece_cbor_uint_size 3 + fleece_cbor_uint_size tag
      + fleece_cbor_uint_size self + fleece_cbor_uint_size (of_nat n))"
    unfolding parse_fx_header_def
    using read_major_at [OF d0] read_major_at [OF d1] read_major_at [OF d2] read_major_at [OF d3]
    by (simp add: eq)
  then show ?thesis using d4 unfolding eq by blast
qed

lemma u32_in_u64: "(ucast (h :: u32) :: u64) \<le> 0xFFFFFFFF" and u32_u64_u32: "ucast (ucast (h :: u32) :: u64) = h"
proof -
  have lt: "unat (ucast h :: u64) < 2 ^ 32" using unsigned_less [of h] by simp
  then show "(ucast h :: u64) \<le> 0xFFFFFFFF" by (simp add: word_le_nat_alt)
  have "unat (ucast (ucast h :: u64) :: u32) = unat (ucast h :: u64)"
    using lt by (intro unat_ucast_small) simp
  then show "ucast (ucast h :: u64) = h" by (simp add: word_unat_eq_iff)
qed

lemma read_hashes_at:
  "drop pos buf = concat (map (\<lambda>h. fleece_cbor_write_uint (ucast h)) hs) @ rest \<Longrightarrow>
   unat i + length hs = unat n \<Longrightarrow> length acc + length hs \<le> FLEECE_MAX_FETCH_KEYS \<Longrightarrow>
   read_hashes buf n i pos acc = Some (acc @ (hs :: u32 list))"
proof (induction hs arbitrary: pos i acc)
  case Nil
  then have "\<not> i < n" by (simp add: word_less_nat_alt)
  then show ?case by (simp add: read_hashes.simps)
next
  case (Cons h hs)
  have lt: "i < n" using Cons.prems(2) by (simp add: word_less_nat_alt)
  then have "1 + i \<noteq> 0" by (auto simp: add_eq_0_iff)
  then have i: "unat (i + 1) = Suc (unat i)" by (simp add: unatSuc add.commute)
  have d: "drop pos buf = fleece_cbor_write_head 0 (ucast h) @ concat (map (\<lambda>h. fleece_cbor_write_uint (ucast h)) hs) @ rest"
    using Cons.prems(1) by (simp add: fleece_cbor_write_uint_def)
  have "read_hashes buf n (i + 1) (pos + fleece_cbor_uint_size (ucast h)) (acc @ [h]) = Some ((acc @ [h]) @ hs)"
    using Cons.prems i drop_after_head [OF d] by (intro Cons.IH) simp_all
  then show ?case
    using lt Cons.prems(3) read_major_at [OF d] u32_in_u64 [of h] u32_u64_u32 [of h]
    by (simp add: read_hashes.simps [of buf n i])
qed

lemma read_index_at:
  "drop pos buf = concat (map write_index_entry fs) @ rest \<Longrightarrow>
   unat i + length fs = unat n \<Longrightarrow> length acc + length fs \<le> FLEECE_MAX_RESYNC_TARGETS * 4 \<Longrightarrow>
   read_index buf n i pos acc = Some (acc @ map (\<lambda>f. (ucast (fe_key f), fe_timestamp f)) fs)"
proof (induction fs arbitrary: pos i acc)
  case Nil
  then have "\<not> i < n" by (simp add: word_less_nat_alt)
  then show ?case by (simp add: read_index.simps)
next
  case (Cons f fs)
  have lt: "i < n" using Cons.prems(2) by (simp add: word_less_nat_alt)
  then have "1 + i \<noteq> 0" by (auto simp: add_eq_0_iff)
  then have i: "unat (i + 1) = Suc (unat i)" by (simp add: unatSuc add.commute)
  have d0: "drop pos buf = fleece_cbor_write_head 4 2 @ fleece_cbor_write_head 0 (ucast (fe_key f)) @
      fleece_cbor_write_head 0 (fe_timestamp f) @ concat (map write_index_entry fs) @ rest"
    using Cons.prems(1) by (simp add: write_index_entry_def [of f] fleece_cbor_write_uint_def fleece_cbor_write_array_header_def)
  note d1 = drop_after_head [OF d0]
  note d2 = drop_after_head [OF d1]
  note d3 = drop_after_head [OF d2]
  have entry: "read_index_entry buf pos = Some ((ucast (fe_key f), fe_timestamp f),
      pos + fleece_cbor_uint_size 2 + fleece_cbor_uint_size (ucast (fe_key f)) + fleece_cbor_uint_size (fe_timestamp f))"
    using read_major_at [OF d0] read_major_at [OF d1] read_major_at [OF d2] by (simp add: read_index_entry_def)
  have "read_index buf n (i + 1) (pos + fleece_cbor_uint_size 2 + fleece_cbor_uint_size (ucast (fe_key f))
      + fleece_cbor_uint_size (fe_timestamp f)) (acc @ [(ucast (fe_key f), fe_timestamp f)]) =
      Some ((acc @ [(ucast (fe_key f), fe_timestamp f)]) @ map (\<lambda>f. (ucast (fe_key f), fe_timestamp f)) fs)"
    using Cons.prems i d3 by (intro Cons.IH) simp_all
  then show ?case
    using lt Cons.prems(3) entry by (simp add: read_index.simps [of buf n i])
qed

end
