(* ===== verification/Runtime_Claims.thy ===== *)
theory Runtime_Claims
  imports Runtime_Proofs
begin

text \<open>
  Properties of the runtime: inbound frames, the deferred queue, the repair round, the request
  budget, the gossip phase and the main loop.
\<close>

section \<open>Gossip frames\<close>

lemma note_report_simps [simp]:
  "rs_node_id (note_report now b t) = rs_node_id t" "rs_source (note_report now b t) = rs_source t"
  "rs_exists (note_report now b t) = rs_exists t"
  by (simp_all add: note_report_def Let_def)

lemma note_behind_effect:
  assumes inv: "rt_inv r"
  shows "rt_inv (fleece_runtime_note_behind_from r b n)" and "only_targets r (fleece_runtime_note_behind_from r b n)"
proof -
  obtain res r1 where res: "resync_target_for_id r n = (res, r1)" by fastforce
  have "targets_inv (rt_resync_targets r)" using inv by (simp add: rt_inv_def)
  note T = resync_target_cases [OF this res] and O = only_targets_for_id [OF res]
  have r': "fleece_runtime_note_behind_from r b n =
      (case res of None \<Rightarrow> r1 | Some i \<Rightarrow> update_target i (note_report (now_tick r1) b) r1)"
    by (simp add: fleece_runtime_note_behind_from_def res split: option.splits)
  show o: "only_targets r (fleece_runtime_note_behind_from r b n)"
    unfolding r' using O only_targets_trans [OF O only_targets_update] by (simp split: option.splits)
  have "targets_inv (rt_resync_targets (fleece_runtime_note_behind_from r b n))"
    unfolding r' using T(1) by (auto intro: update_target_inv split: option.splits)
  then show "rt_inv (fleece_runtime_note_behind_from r b n)"
    by (rule only_targets_inv [OF inv o])
qed

text \<open>An accepted gossip frame is an import followed by the report of its outcome.\<close>

lemma import_and_track_report:
  "import_and_track As r data =
    (let ir = import_impl As (rt_state_manager r) data;
         r1 = r\<lparr>rt_state_manager := ir_manager ir\<rparr>
     in if ir_rc ir \<noteq> 0 then r1
        else fleece_runtime_note_behind_from r1 (ir_behind_shared ir = Some True) (case ir_sender ir of None \<Rightarrow> 0 | Some s \<Rightarrow> s))"
proof -
  have "(case b of None \<Rightarrow> False | Some b \<Rightarrow> b) = (b = Some True)" for b by (cases b) auto
  then show ?thesis
    by (simp add: import_and_track_def fleece_state_manager_import_from_def fleece_runtime_note_behind_from_def Let_def
        split: prod.splits option.splits)
qed

lemma import_rt_effect:
  assumes inv: "rt_inv r"
  shows "safe_change (rt_state_manager r) (ir_manager (import_impl As (rt_state_manager r) data))"
    and "rt_inv (r\<lparr>rt_state_manager := ir_manager (import_impl As (rt_state_manager r) data)\<rparr>)"
proof -
  have "sm_inv (rt_state_manager r)" using inv by (simp add: rt_inv_def)
  then show safe: "safe_change (rt_state_manager r) (ir_manager (import_impl As (rt_state_manager r) data))" by (rule import_safe)
  then show "rt_inv (r\<lparr>rt_state_manager := ir_manager (import_impl As (rt_state_manager r) data)\<rparr>)"
    using inv by (simp add: rt_inv_def safe_change_def)
qed

lemma import_and_track_effect:
  assumes inv: "rt_inv r"
  shows "rt_inv (import_and_track As r data)"
    and "safe_change (rt_state_manager r) (rt_state_manager (import_and_track As r data))"
    and "rt_comms (import_and_track As r data) = rt_comms r" "rt_pending_tx (import_and_track As r data) = rt_pending_tx r"
    and "rt_shared_gossip_watermark (import_and_track As r data) = rt_shared_gossip_watermark r"
proof -
  note safe = import_rt_effect(1) [OF inv, of As data] and inv1 = import_rt_effect(2) [OF inv, of As data]
  note N = note_behind_effect [OF inv1]
  show "rt_inv (import_and_track As r data)"
    using inv1 N(1) by (simp add: import_and_track_report Let_def)
  show "safe_change (rt_state_manager r) (rt_state_manager (import_and_track As r data))"
    "rt_comms (import_and_track As r data) = rt_comms r" "rt_pending_tx (import_and_track As r data) = rt_pending_tx r"
    "rt_shared_gossip_watermark (import_and_track As r data) = rt_shared_gossip_watermark r"
    using safe only_targets_simps [OF N(2)] by (simp_all add: import_and_track_report Let_def)
qed

text \<open>
  C9. What an inbound frame cannot do.  Any bytes may arrive on the control or the gossip path:
  the runtime's invariant holds afterwards and nothing is transmitted from inside the inbound
  callback.  A control frame never touches the store or the gossip watermark, never disturbs a
  queued transmission, and queues at most one reply; a gossip frame never touches the queue or
  the watermark and changes the store only as a safe import does.
\<close>

theorem inbound_frames_safe:
  assumes inv: "rt_inv r"
    and c: "rc = fleece_runtime_on_control_frame A r (Some bs)"
    and g: "rg = fleece_runtime_on_gossip_frame As r (Some bs)"
  shows "rt_inv rc \<and> rt_state_manager rc = rt_state_manager r \<and> rt_comms rc = rt_comms r \<and>
    rt_shared_gossip_watermark rc = rt_shared_gossip_watermark r \<and>
    (\<exists>i. \<forall>j<FLEECE_MAX_PENDING_TX. (j \<noteq> i \<or> tx_used (rt_pending_tx r ! j)) \<longrightarrow> rt_pending_tx rc ! j = rt_pending_tx r ! j) \<and>
    rt_inv rg \<and> rt_comms rg = rt_comms r \<and> rt_pending_tx rg = rt_pending_tx r \<and>
    rt_shared_gossip_watermark rg = rt_shared_gossip_watermark r \<and>
    safe_change (rt_state_manager r) (rt_state_manager rg)"
proof -
  have base: "control_effect r r" using inv only_targets_refl by (auto simp: control_effect_def)
  have eff: "control_effect r rc"
    using handle_fx_effect [OF inv] base by (simp add: c fleece_runtime_on_control_frame_def)
  then obtain r1 where r1: "only_targets r r1" "rc = r1 \<or> only_pending r1 rc"
    by (auto simp: control_effect_def)
  have same: "rt_pending_tx r1 = rt_pending_tx r" using only_targets_simps [OF r1(1)] by simp
  have len: "length (rt_pending_tx r) = FLEECE_MAX_PENDING_TX" using inv by (simp add: rt_inv_def)
  have "\<exists>i. \<forall>j<FLEECE_MAX_PENDING_TX. (j \<noteq> i \<or> tx_used (rt_pending_tx r ! j)) \<longrightarrow> rt_pending_tx rc ! j = rt_pending_tx r ! j"
    using r1(2)
  proof
    assume "only_pending r1 rc"
    then obtain i t d where "rc = r1\<lparr>rt_pending_tx := (rt_pending_tx r)[i := t], rt_pending_tx_dropped := d\<rparr>"
      "i < length (rt_pending_tx r) \<longrightarrow> \<not> tx_used (rt_pending_tx r ! i) \<or> t = rt_pending_tx r ! i"
      unfolding only_pending_def same by blast
    then show ?thesis using len by (intro exI [of _ i]) (auto simp: nth_update_below)
  qed (simp add: same)
  moreover have "rt_inv rg \<and> rt_comms rg = rt_comms r \<and> rt_pending_tx rg = rt_pending_tx r \<and>
    rt_shared_gossip_watermark rg = rt_shared_gossip_watermark r \<and> safe_change (rt_state_manager r) (rt_state_manager rg)"
    using import_and_track_effect [OF inv] inv safe_change_refl
    by (auto simp: g fleece_runtime_on_gossip_frame_def rt_inv_def)
  ultimately show ?thesis
    using eff control_effect_simps [OF eff] by (simp add: control_effect_def)
qed

text \<open>
  C12. Deferred frames are sent once, in order, and not early.  With an open transport, flushing
  the queue hands to the transport exactly the queued frames whose tick has come, in slot order
  and byte for byte; exactly their slots become free, and the others keep waiting.
\<close>

theorem flush_exactly_once:
  assumes inv: "rt_inv r" and c: "can_send (rt_comms r)"
    and sz: "\<forall>t\<in>set (rt_pending_tx r). tx_used t \<longrightarrow> tx_size t \<noteq> 0"
  shows "cm_sends (rt_comms (flush_pending_tx r)) =
      cm_sends (rt_comms r) @ map tx_message (filter (tx_ready r) (rt_pending_tx r)) \<and>
    (\<forall>j<FLEECE_MAX_PENDING_TX. tx_used (rt_pending_tx (flush_pending_tx r) ! j) \<longleftrightarrow>
      tx_used (rt_pending_tx r ! j) \<and> \<not> tx_ready r (rt_pending_tx r ! j))"
proof -
  have "length (rt_pending_tx r) = FLEECE_MAX_PENDING_TX" using inv by (simp add: rt_inv_def)
  then show ?thesis
    using flush_prefix [OF inv c sz order.refl] by (simp add: flush_pending_tx_def Let_def tx_ready_def)
qed


section \<open>The repair round\<close>

text \<open>What the requester lacks of what the responder advertises: at most 64 keys.\<close>

definition missing_keys :: "FleeceStateManager \<Rightarrow> FleeceStateManager \<Rightarrow> u32 list" where
  "missing_keys ma mb =
     take FLEECE_MAX_FETCH_KEYS (map fe_key
       (filter (\<lambda>f. fleece_state_manager_shared_at_least ma (fe_key f) (fe_timestamp f) = 0) (index_entries mb)))"

lemma wanted_loop_take:
  "wanted_loop m (map (\<lambda>f. (ucast (fe_key f), fe_timestamp f)) fs) acc =
   acc @ take (FLEECE_MAX_FETCH_KEYS - length acc) (map fe_key
       (filter (\<lambda>f. fleece_state_manager_shared_at_least m (fe_key f) (fe_timestamp f) = 0) fs))"
proof (induction fs arbitrary: acc)
  case Nil
  then show ?case by simp
next
  case (Cons f fs)
  have "\<not> (ucast (fe_key f) :: u64) > 0xFFFFFFFF" using u32_in_u64 [of "fe_key f"] by (simp add: not_less)
  then show ?case
    using u32_u64_u32 [of "fe_key f"] Cons.IH by (auto simp: take_Cons' Suc_diff_le)
qed

lemma index_length: "sm_inv m \<Longrightarrow> length (index_entries m) \<le> FIELD_CAPACITY"
  using sm_invD(1) [of m] length_filter_le [of _ "sm_fields m"] by (simp add: index_entries_def)

lemma index_frame_read:
  assumes inv: "sm_inv mb" and ex: "fleece_state_manager_export_shared_index Ax mb = Some (idx, z)"
  shows "\<exists>pos. parse_fx_header idx = Some (1, sm_node_id mb, of_nat (length (index_entries mb)), pos) \<and>
    read_index idx (of_nat (length (index_entries mb))) 0 pos [] =
      Some (map (\<lambda>f. (ucast (fe_key f), fe_timestamp f)) (index_entries mb))"
    and "idx ! 0 = FLEECE_CONTROL_MAGIC0" "idx ! 1 = FLEECE_CONTROL_MAGIC1" "idx ! 2 = FLEECE_CONTROL_VERSION"
    and "\<not> length idx < 3"
proof -
  have idx: "idx = [FLEECE_CONTROL_MAGIC0, FLEECE_CONTROL_MAGIC1, FLEECE_CONTROL_VERSION]
      @ fleece_cbor_write_array_header 3 @ fleece_cbor_write_uint 1 @ fleece_cbor_write_uint (sm_node_id mb)
      @ fleece_cbor_write_array_header (of_nat (length (index_entries mb)))
      @ concat (map write_index_entry (index_entries mb))"
    using ex by (simp add: fleece_state_manager_export_shared_index_def Let_def split: if_splits)
  have n: "length (index_entries mb) \<le> FIELD_CAPACITY" by (rule index_length [OF inv])
  then obtain pos where pos: "parse_fx_header idx = Some (1, sm_node_id mb, of_nat (length (index_entries mb)), pos)"
    "drop pos idx = concat (map write_index_entry (index_entries mb))"
    using control_frame_header [OF idx] by auto
  have "unat (of_nat (length (index_entries mb)) :: u64) = length (index_entries mb)"
    using n by (simp add: unat_of_nat)
  then have "read_index idx (of_nat (length (index_entries mb))) 0 pos [] =
      Some (map (\<lambda>f. (ucast (fe_key f), fe_timestamp f)) (index_entries mb))"
    using read_index_at [of pos idx "index_entries mb" "[]" 0 "of_nat (length (index_entries mb))" "[]"] pos(2) n by simp
  with pos(1) show "\<exists>pos. parse_fx_header idx = Some (1, sm_node_id mb, of_nat (length (index_entries mb)), pos) \<and>
    read_index idx (of_nat (length (index_entries mb))) 0 pos [] =
      Some (map (\<lambda>f. (ucast (fe_key f), fe_timestamp f)) (index_entries mb))" by blast
  show "idx ! 0 = FLEECE_CONTROL_MAGIC0" "idx ! 1 = FLEECE_CONTROL_MAGIC1" "idx ! 2 = FLEECE_CONTROL_VERSION"
    "\<not> length idx < 3" by (simp_all add: idx)
qed

definition queued :: "FleeceRuntime \<Rightarrow> bytes \<Rightarrow> bytes \<Rightarrow> bool" where
  "queued r dest data \<longleftrightarrow>
     (\<exists>t\<in>set (rt_pending_tx r). tx_used t \<and> tx_dest t = dest \<and> tx_data t = Some data)"

lemma enqueue_queued:
  assumes room: "\<exists>t\<in>set (rt_pending_tx r). \<not> tx_used t" and A: "A (length data)"
    and len: "length data < 2 ^ 32" "length dest < DEST_MAX"
  shows "queued (enqueue_tx A r dest data (of_nat (length data))) dest data"
proof -
  obtain i where i: "index_of (\<lambda>t. \<not> tx_used t) (rt_pending_tx r) = Some i"
    using room by (cases "index_of (\<lambda>t. \<not> tx_used t) (rt_pending_tx r)") (auto simp: index_of_None_iff)
  have sz: "unat (of_nat (length data) :: u32) = length data" using len by (simp add: unat_of_nat_32)
  let ?t = "\<lparr>tx_dest = dest, tx_data = Some data, tx_size = of_nat (length data),
      tx_ready_tick = ucast (rt_gossip_tick_count r + 1), tx_used = True\<rparr>"
  have "enqueue_tx A r dest data (of_nat (length data)) = r\<lparr>rt_pending_tx := (rt_pending_tx r)[i := ?t]\<rparr>"
    using i A len sz by (simp add: enqueue_tx_def snprintf_s_def)
  moreover have "?t \<in> set ((rt_pending_tx r)[i := ?t])"
    using index_of_lt [OF i] by (simp add: set_update_memI)
  ultimately show ?thesis unfolding queued_def by (intro bexI [of _ ?t]) simp_all
qed

lemma control_hash_bytes: "n \<le> FLEECE_MAX_FETCH_KEYS \<Longrightarrow> n * 5 \<le> (320 :: nat)"
  by simp

lemma control_frame_length:
  "length hs \<le> FLEECE_MAX_FETCH_KEYS \<Longrightarrow> tag < 24 \<Longrightarrow>
   length (control_frame tag self hs) \<le> 16 + FLEECE_MAX_FETCH_KEYS * 5 + 16"
proof -
  assume len: "length hs \<le> FLEECE_MAX_FETCH_KEYS" and tag: "tag < 24"
  have one: "length (fleece_cbor_write_uint (ucast (h :: u32))) \<le> 5" for h
    using u32_in_u64 [of h] by (simp add: write_uint_length fleece_cbor_uint_size_def)
  have "length (concat (map (\<lambda>h. fleece_cbor_write_uint (ucast h)) hs)) \<le> length hs * 5" for hs :: "u32 list"
  proof (induction hs)
    case (Cons h hs)
    then show ?case using one [of h] by simp
  qed simp
  then have hashes: "length (concat (map (\<lambda>h. fleece_cbor_write_uint (ucast h)) hs)) \<le> 320"
    using len by (meson le_trans mult_le_mono1 control_hash_bytes)
  have "length (fleece_cbor_write_array_header 3) = 1" "length (fleece_cbor_write_uint tag) = 1"
    "length (fleece_cbor_write_uint self) \<le> 9" "length (fleece_cbor_write_array_header (of_nat (length hs))) \<le> 3"
    using tag small_header [of "length hs"] len uint_size_bounds(2) [of self]
    by (simp_all add: size_simps fleece_cbor_array_header_size_def fleece_cbor_uint_size_def [of tag] fleece_cbor_uint_size_def [of 3])
  with hashes show ?thesis by (simp add: control_frame_def)
qed

lemma node_dest_length: "length (node_dest n) = 21"
  by (simp add: node_dest_def lit_def)

lemma handle_index_reply:
  assumes inv: "rt_inv ra" and mb: "sm_inv mb"
    and ex: "fleece_state_manager_export_shared_index Ax mb = Some (idx, z)"
  shows "\<exists>r1. only_targets ra r1 \<and> rt_inv r1 \<and>
    fleece_runtime_on_control_frame A ra (Some idx) = snd (request_missing_keys A r1 (sm_node_id mb)
      (map (\<lambda>f. (ucast (fe_key f), fe_timestamp f)) (index_entries mb)))"
proof -
  note I = index_frame_read [OF mb ex]
  obtain res r0 where res: "resync_target_for_id ra (sm_node_id mb) = (res, r0)" by fastforce
  have "targets_inv (rt_resync_targets ra)" using inv by (simp add: rt_inv_def)
  note T = resync_target_cases [OF this res] and O = only_targets_for_id [OF res]
  let ?r1 = "case res of Some i \<Rightarrow> update_target i (\<lambda>t. t\<lparr>rs_awaiting_index := False\<rparr>) r0 | None \<Rightarrow> r0"
  have t1: "targets_inv (rt_resync_targets ?r1)" and o1: "only_targets ra ?r1"
    using T(1) O only_targets_trans [OF O only_targets_update] by (auto intro: update_target_inv split: option.splits)
  have "fleece_runtime_on_control_frame A ra (Some idx) = handle_fx_frame A ra idx (lit ''mesh'')"
    using I(2-5) by (simp add: fleece_runtime_on_control_frame_def)
  also have "\<dots> = snd (request_missing_keys A ?r1 (sm_node_id mb)
      (map (\<lambda>f. (ucast (fe_key f), fe_timestamp f)) (index_entries mb)))"
    using I(1) res by (auto simp: handle_fx_frame_def split: option.splits)
  finally show ?thesis
    using o1 only_targets_inv [OF inv o1 t1] by blast
qed

text \<open>Clearing the repair flag of a peer clears it in every entry of that peer.\<close>

lemma cleared_flag:
  assumes t1: "targets_inv (rt_resync_targets r1)" and res: "resync_target_for_id r1 n = (res, r2)"
    and r': "r' = (case res of Some i \<Rightarrow> update_target i (\<lambda>t. t\<lparr>rs_need_shared := False\<rparr>) r2 | None \<Rightarrow> r2)"
    and i: "i < FLEECE_MAX_RESYNC_TARGETS" "rs_exists (rt_resync_targets r' ! i)" "rs_node_id (rt_resync_targets r' ! i) = n"
  shows "\<not> rs_need_shared (rt_resync_targets r' ! i)"
proof (cases res)
  case None
  then have "r2 = r1" "\<not> (rs_exists (rt_resync_targets r1 ! i) \<and> rs_node_id (rt_resync_targets r1 ! i) = n)"
    using res targets_invD(1,2) [OF t1] i(1)
    by (auto simp: resync_target_for_id_def Let_def index_of_None_nth split: option.splits)
  then show ?thesis using i None r' by simp
next
  case (Some j)
  note T = resync_target_cases [OF t1 res]
  have len2: "length (rt_resync_targets r2) = FLEECE_MAX_RESYNC_TARGETS" using targets_invD(1) [OF T(1)] .
  have j: "j < FLEECE_MAX_RESYNC_TARGETS" "rs_exists (rt_resync_targets r2 ! j)"
    "rs_node_id (rt_resync_targets r2 ! j) = n" using T(2) [OF Some] by auto
  have nth: "rt_resync_targets r' ! i = (if j = i then (rt_resync_targets r2 ! j)\<lparr>rs_need_shared := False\<rparr>
      else rt_resync_targets r2 ! i)"
    using i(1) len2 by (simp add: r' Some update_target_def nth_update_below)
  show ?thesis
  proof (cases "j = i")
    case False
    then have "rs_exists (rt_resync_targets r2 ! i)" "rs_node_id (rt_resync_targets r2 ! i) = n"
      using i nth by simp_all
    then have "i = j" using targets_invD(3) [OF T(1), of i j] i(1) j len2 by simp
    then show ?thesis using False by simp
  qed (simp add: nth)
qed

text \<open>
  The diff of an index reply is exact.  A requester that receives a responder's index reply
  queues a value request to that responder, alone, for precisely the first 64 advertised keys it
  lacks or holds with an older timestamp; if there are none, it queues nothing and the repair
  flag it keeps for that responder is off.  The request always fits the stack buffer.
\<close>

theorem index_reply_diff:
  assumes inv: "rt_inv ra" and mb: "sm_inv mb"
    and ex: "fleece_state_manager_export_shared_index Ax mb = Some (idx, z)"
    and A: "\<forall>n. A n" and room: "\<exists>t\<in>set (rt_pending_tx ra). \<not> tx_used t"
    and ra': "ra' = fleece_runtime_on_control_frame A ra (Some idx)"
  shows "(missing_keys (rt_state_manager ra) mb \<noteq> [] \<longrightarrow>
      queued ra' (node_dest (sm_node_id mb))
        (control_frame 2 (sm_node_id (rt_state_manager ra)) (missing_keys (rt_state_manager ra) mb))) \<and>
    (missing_keys (rt_state_manager ra) mb = [] \<longrightarrow> rt_pending_tx ra' = rt_pending_tx ra \<and>
      (\<forall>i<FLEECE_MAX_RESYNC_TARGETS. rs_exists (rt_resync_targets ra' ! i) \<and>
        rs_node_id (rt_resync_targets ra' ! i) = sm_node_id mb \<longrightarrow> \<not> rs_need_shared (rt_resync_targets ra' ! i))) \<and>
    length (control_frame 2 (sm_node_id (rt_state_manager ra)) (missing_keys (rt_state_manager ra) mb)) \<le> 352"
proof -
  obtain r1 where r1: "only_targets ra r1" "rt_inv r1" and
    run: "ra' = snd (request_missing_keys A r1 (sm_node_id mb)
      (map (\<lambda>f. (ucast (fe_key f), fe_timestamp f)) (index_entries mb)))"
    using handle_index_reply [OF inv mb ex] ra' by blast
  note S = only_targets_simps [OF r1(1)]
  let ?miss = "missing_keys (rt_state_manager ra) mb"
  let ?cf = "control_frame 2 (sm_node_id (rt_state_manager ra)) ?miss"
  have w: "wanted_loop (rt_state_manager r1) (map (\<lambda>f. (ucast (fe_key f), fe_timestamp f)) (index_entries mb)) [] = ?miss"
    using S by (simp add: wanted_loop_take missing_keys_def)
  have "length ?miss \<le> FLEECE_MAX_FETCH_KEYS" by (simp add: missing_keys_def)
  then have len: "length ?cf \<le> 352" using control_frame_length [of ?miss 2] by simp
  have b: "sm_node_id mb \<noteq> 0" by (rule sm_invD(6) [OF mb])
  have "queued ra' (node_dest (sm_node_id mb)) ?cf" if "?miss \<noteq> []"
  proof -
    have "ra' = enqueue_tx A r1 (node_dest (sm_node_id mb)) ?cf (of_nat (length ?cf))"
      using that w b S by (simp add: run request_missing_keys_def unicast_dest_for_def send_control_ex_def
          fleece_state_manager_get_node_id_def Let_def)
    then show ?thesis
      using enqueue_queued [of r1 A ?cf] room S A len node_dest_length by simp
  qed
  moreover have "rt_pending_tx ra' = rt_pending_tx ra \<and>
      (\<forall>i<FLEECE_MAX_RESYNC_TARGETS. rs_exists (rt_resync_targets ra' ! i) \<and>
        rs_node_id (rt_resync_targets ra' ! i) = sm_node_id mb \<longrightarrow> \<not> rs_need_shared (rt_resync_targets ra' ! i))"
    if none: "?miss = []"
  proof -
    obtain res r2 where res: "resync_target_for_id r1 (sm_node_id mb) = (res, r2)" by fastforce
    have t1: "targets_inv (rt_resync_targets r1)" using r1(2) by (simp add: rt_inv_def)
    have run': "ra' = (case res of Some i \<Rightarrow> update_target i (\<lambda>t. t\<lparr>rs_need_shared := False\<rparr>) r2 | None \<Rightarrow> r2)"
      using none w res by (simp add: run request_missing_keys_def Let_def split: option.splits)
    have "rt_pending_tx ra' = rt_pending_tx ra"
      using only_targets_simps [OF only_targets_for_id [OF res]] S by (simp add: run' update_target_def split: option.splits)
    then show ?thesis using cleared_flag [OF t1 res run'] by blast
  qed
  ultimately show ?thesis using len by blast
qed


text \<open>The responder's side: a value request is answered to its sender alone.\<close>

lemma handle_value_request:
  assumes hs: "hs \<noteq> []" "length hs \<le> FLEECE_MAX_FETCH_KEYS" and a: "a \<noteq> 0"
    and ex: "fleece_state_manager_export_shared_by_hash A (rt_state_manager rb) hs = Some (val, z)"
  shows "fleece_runtime_on_control_frame A rb (Some (control_frame 2 a hs)) = enqueue_tx A rb (node_dest a) val z"
proof -
  let ?cf = "control_frame 2 a hs"
  obtain pos where pos: "parse_fx_header ?cf = Some (2, a, of_nat (length hs), pos)"
    "drop pos ?cf = concat (map (\<lambda>h. fleece_cbor_write_uint (ucast h)) hs)"
    using control_frame_header [of ?cf 2 a "length hs" "concat (map (\<lambda>h. fleece_cbor_write_uint (ucast h)) hs)"] hs(2)
    by (auto simp: control_frame_def)
  have "unat (of_nat (length hs) :: u64) = length hs" using hs(2) by (simp add: unat_of_nat)
  then have "read_hashes ?cf (of_nat (length hs)) 0 pos [] = Some hs"
    using read_hashes_at [of pos ?cf hs "[]" 0 "of_nat (length hs)" "[]"] pos(2) hs(2) by simp
  moreover have "?cf ! 0 = FLEECE_CONTROL_MAGIC0" "?cf ! 1 = FLEECE_CONTROL_MAGIC1" "?cf ! 2 = FLEECE_CONTROL_VERSION"
    "\<not> length ?cf < 3" by (simp_all add: control_frame_def)
  ultimately show ?thesis
    using pos(1) hs(1) a ex
    by (simp add: fleece_runtime_on_control_frame_def handle_fx_frame_def unicast_dest_for_def reply_frame_def)
qed

lemma frame_size_eq:
  "(if c then None else let b = e in Some (b, of_nat (length b))) = Some (buf, sz) \<Longrightarrow> sz = of_nat (length buf)"
  by (auto simp: Let_def split: if_splits)

lemma index_entry_view:
  assumes inv: "sm_inv m" and f: "f \<in> set (index_entries m)"
  shows "view m (0, fe_key f) = Some (version_of f) \<and> \<not> fe_is_tombstone f \<and> fe_name f \<noteq> []"
proof -
  obtain i where i: "i < FIELD_CAPACITY" "f = sm_fields m ! i"
    using f sm_invD(1) [OF inv] by (auto simp: index_entries_def in_set_conv_nth)
  have l: "live_named 0 f" using f by (simp add: index_entries_def)
  then have "view m (0, fe_key f) = Some (version_of f)"
    using i sm_invD(3) [OF inv] view_Some_iff [OF inv] by (auto simp: live_named_def)
  with l show ?thesis by (simp add: live_named_def)
qed

text \<open>
  C10. A repair round makes progress.  Let the responder's index reveal a key the requester lacks
  or holds stale, and let the frames of the round arrive.  Let there be memory on both sides and a free slot in both
  queues of deferred frames, and let the value reply be shorter than 4 GiB.  Then the requester's request for the
  missing keys (the first 64 of them) is
  queued for the responder, the responder's value reply is queued for the requester, and
  importing it succeeds and performs the merges of a non-empty list of versions, each of which is the
  responder's live version of a requested key.  The reply may leave out requested keys for want of room; these are left to a later round.
\<close>

theorem repair_round_progress:
  assumes ra: "rt_inv ra" and rb: "rt_inv rb" and A: "\<forall>n. A n"
    and ids: "sm_node_id (rt_state_manager ra) \<noteq> sm_node_id (rt_state_manager rb)"
    and room: "\<exists>t\<in>set (rt_pending_tx ra). \<not> tx_used t" "\<exists>t\<in>set (rt_pending_tx rb). \<not> tx_used t"
    and ex: "fleece_state_manager_export_shared_index A (rt_state_manager rb) = Some (idx, z)"
    and miss: "missing_keys (rt_state_manager ra) (rt_state_manager rb) \<noteq> []"
    and req: "req = control_frame 2 (sm_node_id (rt_state_manager ra)) (missing_keys (rt_state_manager ra) (rt_state_manager rb))"
    and val: "fleece_state_manager_export_shared_by_hash A (rt_state_manager rb)
      (missing_keys (rt_state_manager ra) (rt_state_manager rb)) = Some (val, zv)" "length val < 2 ^ 32"
  shows "queued (fleece_runtime_on_control_frame A ra (Some idx)) (node_dest (sm_node_id (rt_state_manager rb))) req \<and>
    queued (fleece_runtime_on_control_frame A rb (Some req)) (node_dest (sm_node_id (rt_state_manager ra))) val \<and>
    (\<exists>vs. vs \<noteq> [] \<and>
      (\<forall>w\<in>set vs. \<exists>k\<in>set (missing_keys (rt_state_manager ra) (rt_state_manager rb)).
        view (rt_state_manager rb) (FLEECE_SHARED_OWNER_ID, k) = Some w \<and> \<not> v_tomb w) \<and>
      ir_rc (import_impl (\<lambda>_. A) (rt_state_manager ra) val) = 0 \<and>
      ir_manager (import_impl (\<lambda>_. A) (rt_state_manager ra) val) =
        foldl (deliver_version A) (touch_peer (rt_state_manager ra) (sm_node_id (rt_state_manager rb))) vs)"
proof -
  let ?ma = "rt_state_manager ra" and ?mb = "rt_state_manager rb"
  let ?hs = "missing_keys ?ma ?mb"
  have ia: "sm_inv ?ma" and ib: "sm_inv ?mb" using ra rb by (simp_all add: rt_inv_def)
  obtain r1 where r1: "only_targets ra r1" "rt_inv r1" and
    run: "fleece_runtime_on_control_frame A ra (Some idx) = snd (request_missing_keys A r1 (sm_node_id ?mb)
      (map (\<lambda>f. (ucast (fe_key f), fe_timestamp f)) (index_entries ?mb)))"
    using handle_index_reply [OF ra ib ex] by blast
  note S = only_targets_simps [OF r1(1)]
  have w: "wanted_loop (rt_state_manager r1) (map (\<lambda>f. (ucast (fe_key f), fe_timestamp f)) (index_entries ?mb)) [] = ?hs"
    using S by (simp add: wanted_loop_take missing_keys_def)
  have hs: "length ?hs \<le> FLEECE_MAX_FETCH_KEYS" by (simp add: missing_keys_def)
  have len: "length req \<le> 352" using control_frame_length [OF hs, of 2] by (simp add: req)
  have a0: "sm_node_id ?ma \<noteq> 0" and b0: "sm_node_id ?mb \<noteq> 0" using sm_invD(6) ia ib by blast+
  have "fleece_runtime_on_control_frame A ra (Some idx) = enqueue_tx A r1 (node_dest (sm_node_id ?mb)) req (of_nat (length req))"
    using miss w b0 S by (simp add: run req request_missing_keys_def unicast_dest_for_def send_control_ex_def
        fleece_state_manager_get_node_id_def Let_def)
  then have q1: "queued (fleece_runtime_on_control_frame A ra (Some idx)) (node_dest (sm_node_id ?mb)) req"
    using enqueue_queued [of r1 A req] room(1) S A len node_dest_length by simp
  obtain hw body taken where sel: "value_selection ?mb ?hs = (hw, body, taken)" by (cases "value_selection ?mb ?hs")
  have "zv = of_nat (length val)"
    using val(1) sel by (simp add: fleece_state_manager_export_shared_by_hash_def frame_size_eq)
  then have q2: "queued (fleece_runtime_on_control_frame A rb (Some req)) (node_dest (sm_node_id ?ma)) val"
    using handle_value_request [OF miss hs a0 val(1)] enqueue_queued [of rb A val] room(2) A val(2) node_dest_length
    by (simp add: req)
  obtain k where k: "k \<in> set ?hs" using miss by (cases ?hs) auto
  then obtain f where f: "f \<in> set (index_entries ?mb)" "fe_key f = k"
    unfolding missing_keys_def by (auto dest!: in_set_takeD)
  have "view ?mb (0, k) = Some (version_of f)" "\<not> v_tomb (version_of f)" "v_name (version_of f) \<noteq> []"
    using index_entry_view [OF ib f(1)] f(2) by (simp_all add: version_of_def)
  then obtain vs where "vs \<noteq> []" "\<forall>w\<in>set vs. \<not> v_tomb w \<and> (\<exists>h\<in>set ?hs. view ?mb (0, h) = Some w)"
    "ir_rc (import_impl (\<lambda>_. A) ?ma val) = 0"
    "ir_manager (import_impl (\<lambda>_. A) ?ma val) = foldl (deliver_version A) (touch_peer ?ma (sm_node_id ?mb)) vs"
    using by_hash_delivers [OF ib val(1), of ?ma k "version_of f" A] ids k by metis
  then show ?thesis using q1 q2 by blast
qed

section \<open>The request budget of a tick\<close>

definition probe_due :: "FleeceRuntime \<Rightarrow> nat \<Rightarrow> bool" where
  "probe_due r i \<longleftrightarrow> rs_exists (rt_resync_targets r ! i) \<and>
     now_tick r - rs_last_heard_tick (rt_resync_targets r ! i) \<ge> FLEECE_RESYNC_PROBE_TICKS"

text \<open>An immediate send of an index request.\<close>

lemma send_control_now:
  assumes "can_send (rt_comms r)"
  shows "cm_sends (rt_comms (send_control A r dest 0 [])) = cm_sends (rt_comms r) @
      [(dest, control_frame 0 (sm_node_id (rt_state_manager r)) [], of_nat (length (control_frame 0 (sm_node_id (rt_state_manager r)) [])))]"
    and "can_send (rt_comms (send_control A r dest 0 []))"
    and "send_control A r dest 0 [] = r\<lparr>rt_comms := rt_comms (send_control A r dest 0 [])\<rparr>"
proof -
  let ?b = "control_frame 0 (sm_node_id (rt_state_manager r)) []"
  have "length ?b \<le> 352" using control_frame_length [of "[]" 0] by simp
  then have len: "unat (of_nat (length ?b) :: u32) = length ?b" by (simp add: unat_of_nat_32)
  have "0 < length ?b" by (simp add: control_frame_def)
  then have "(of_nat (length ?b) :: u32) \<noteq> 0" using len by (metis less_irrefl unsigned_0)
  then show "cm_sends (rt_comms (send_control A r dest 0 [])) = cm_sends (rt_comms r) @
      [(dest, ?b, of_nat (length ?b))]"
    and "can_send (rt_comms (send_control A r dest 0 []))"
    and "send_control A r dest 0 [] = r\<lparr>rt_comms := rt_comms (send_control A r dest 0 [])\<rparr>"
    using send_ok [OF assms _ len [symmetric], of dest]
    by (simp_all add: send_control_def send_control_ex_def fleece_state_manager_get_node_id_def Let_def del: of_nat_add)
qed

definition repair_due :: "FleeceRuntime \<Rightarrow> nat \<Rightarrow> bool" where
  "repair_due r i \<longleftrightarrow> rs_exists (rt_resync_targets r ! i) \<and> rs_need_shared (rt_resync_targets r ! i) \<and>
     fleece_state_manager_ticks_since_last_write (rt_state_manager r) \<ge> FLEECE_RESYNC_QUIESCE_TICKS \<and>
     (\<not> rs_awaiting_index (rt_resync_targets r ! i) \<or>
      now_tick r - rs_last_index_req_tick (rt_resync_targets r ! i) \<ge> FLEECE_RESYNC_RETRY_TICKS)"

definition index_request :: "FleeceRuntime \<Rightarrow> nat \<Rightarrow> message" where
  "index_request r i =
     (let buf = control_frame 0 (sm_node_id (rt_state_manager r)) []
      in (rs_source (rt_resync_targets r ! i), buf, of_nat (length buf)))"

text \<open>Of the runtime, a step of the loop changes the transport and its own target only.\<close>

definition same_but :: "nat set \<Rightarrow> FleeceRuntime \<Rightarrow> FleeceRuntime \<Rightarrow> bool" where
  "same_but I r r' \<longleftrightarrow> (\<exists>c ts. r' = r\<lparr>rt_comms := c, rt_resync_targets := ts\<rparr> \<and>
     length ts = length (rt_resync_targets r) \<and>
     (\<forall>j<length ts. (j \<notin> I \<longrightarrow> ts ! j = rt_resync_targets r ! j) \<and> rs_node_id (ts ! j) = rs_node_id (rt_resync_targets r ! j) \<and>
        rs_source (ts ! j) = rs_source (rt_resync_targets r ! j) \<and> rs_exists (ts ! j) = rs_exists (rt_resync_targets r ! j)))"

lemma same_but_refl: "same_but I r r"
  unfolding same_but_def by (intro exI [of _ "rt_comms r"] exI [of _ "rt_resync_targets r"]) simp

lemma same_but_trans: "same_but I r r1 \<Longrightarrow> same_but J r1 r2 \<Longrightarrow> same_but (I \<union> J) r r2"
  unfolding same_but_def
  by (elim exE conjE, rule_tac x = ca in exI, rule_tac x = tsa in exI) simp

lemma same_but_send: "same_but I r (r\<lparr>rt_comms := c\<rparr>)"
  unfolding same_but_def by (intro exI [of _ c] exI [of _ "rt_resync_targets r"]) simp

lemma same_but_update:
  assumes "\<And>t. rs_node_id (f t) = rs_node_id t" "\<And>t. rs_source (f t) = rs_source t" "\<And>t. rs_exists (f t) = rs_exists t"
  shows "same_but {i} r (update_target i f r)"
  unfolding same_but_def update_target_def
  by (intro exI [of _ "rt_comms r"] exI [of _ "(rt_resync_targets r)[i := f (rt_resync_targets r ! i)]"])
     (simp add: nth_update_below assms)

lemma same_but_inv: "rt_inv r \<Longrightarrow> same_but I r r' \<Longrightarrow> rt_inv r'"
  unfolding rt_inv_def same_but_def using targets_inv_cong [of "rt_resync_targets r"] by auto

lemma same_but_due:
  assumes "same_but I r r'" and "j \<notin> I" and "j < length (rt_resync_targets r)"
  shows "repair_due r' j = repair_due r j" "probe_due r' j = probe_due r j"
  using assms by (auto simp: same_but_def repair_due_def probe_due_def now_tick_def)

lemma same_but_request:
  assumes "same_but I r r'" and "j < length (rt_resync_targets r)"
  shows "index_request r' j = index_request r j"
  using assms by (auto simp: same_but_def index_request_def)

lemma send_request:
  assumes c: "can_send (rt_comms r)" and src: "dest = rs_source (rt_resync_targets r ! i)"
    and f: "\<And>t. rs_node_id (f t) = rs_node_id t" "\<And>t. rs_source (f t) = rs_source t" "\<And>t. rs_exists (f t) = rs_exists t"
    and r': "r' = update_target i f (send_control A r dest 0 [])"
  shows "same_but {i} r r'" "can_send (rt_comms r')"
    "cm_sends (rt_comms r') = cm_sends (rt_comms r) @ [index_request r i]"
proof -
  let ?s = "send_control A r dest 0 []"
  note S = send_control_now [OF c, of A dest]
  have "same_but {} r ?s" by (subst S(3)) (rule same_but_send)
  then show "same_but {i} r r'"
    using same_but_trans [of "{}" r ?s "{i}" r'] same_but_update [OF f, of i ?s] by (simp add: r')
  show "can_send (rt_comms r')" using S(2) by (simp add: r' update_target_def)
  show "cm_sends (rt_comms r') = cm_sends (rt_comms r) @ [index_request r i]"
    using S(1) by (simp add: r' update_target_def index_request_def src Let_def)
qed

lemma resync_step:
  assumes c: "can_send (rt_comms r)" and i: "i < length (rt_resync_targets r)" and st: "starts \<le> FLEECE_RESYNC_STARTS_PER_TICK"
    and step: "resync_target_step A (r, starts) i = (r', starts')"
  shows "same_but {i} r r' \<and> can_send (rt_comms r') \<and> starts \<le> starts' \<and> starts' \<le> FLEECE_RESYNC_STARTS_PER_TICK \<and>
    (\<exists>k. cm_sends (rt_comms r') = cm_sends (rt_comms r) @ replicate k (index_request r i) \<and>
      k = starts' - starts + (if probe_due r i then 1 else 0) \<and>
      (starts < starts' \<longrightarrow> repair_due r i) \<and>
      (repair_due r i \<longrightarrow> starts' = min (starts + 1) FLEECE_RESYNC_STARTS_PER_TICK))"
proof (cases "rs_exists (rt_resync_targets r ! i)")
  case False
  then have "r' = r" "starts' = starts" using step by (simp_all add: resync_target_step_def)
  then show ?thesis
    using c st False same_but_refl by (simp add: repair_due_def probe_due_def)
next
  case True
  let ?t = "rt_resync_targets r ! i"
  let ?go = "repair_due r i \<and> starts < FLEECE_RESYNC_STARTS_PER_TICK"
  let ?f = "\<lambda>t. t\<lparr>rs_awaiting_index := True, rs_last_index_req_tick := now_tick r\<rparr>"
  define r1 where "r1 = (if ?go then update_target i ?f (send_control A r (rs_source ?t) 0 []) else r)"
  note R = send_request [OF c refl, where f = ?f, simplified]
  have r1: "same_but {i} r r1" "can_send (rt_comms r1)"
    "cm_sends (rt_comms r1) = cm_sends (rt_comms r) @ replicate (if ?go then 1 else 0) (index_request r i)"
    using R c same_but_refl by (auto simp: r1_def)
  have upd: "now_tick (update_target i f (send_control A r d 0 [])) = now_tick r" for f d
    by (subst send_control_now(3) [OF c]) (simp add: update_target_def now_tick_def)
  have now: "now_tick r1 = now_tick r" by (simp add: r1_def upd)
  have s': "starts' = (if ?go then starts + 1 else starts)"
    and r': "r' = (if probe_due r i then
        update_target i (\<lambda>t. t\<lparr>rs_awaiting_index := True, rs_last_heard_tick := now_tick r\<rparr>) (send_control A r1 (rs_source ?t) 0 [])
      else r1)"
    using step True now unfolding r1_def
    by (auto simp: resync_target_step_def repair_due_def probe_due_def upd Let_def split: if_splits)
  have src: "rs_source ?t = rs_source (rt_resync_targets r1 ! i)" using r1(1) i by (auto simp: same_but_def)
  note P = send_request [OF r1(2) src, where f = "\<lambda>t. t\<lparr>rs_awaiting_index := True, rs_last_heard_tick := now_tick r\<rparr>", simplified]
  have "same_but {i} r r' \<and> can_send (rt_comms r') \<and> cm_sends (rt_comms r') =
      cm_sends (rt_comms r1) @ replicate (if probe_due r i then 1 else 0) (index_request r i)"
    using P r1 same_but_trans [OF r1(1) P(1)] same_but_request [OF r1(1) i] by (simp add: r')
  then show ?thesis
    using st by (auto simp: s' r1(3) simp flip: replicate_add)
qed

definition due_count :: "(nat \<Rightarrow> bool) \<Rightarrow> nat \<Rightarrow> nat" where
  "due_count P n = length (filter P [0..<n])"

lemma due_count_Suc [simp]: "due_count P 0 = 0" "due_count P (Suc n) = due_count P n + (if P n then 1 else 0)"
  by (simp_all add: due_count_def)

lemma resync_prefix:
  assumes c: "can_send (rt_comms r)" and len: "length (rt_resync_targets r) = FLEECE_MAX_RESYNC_TARGETS"
  shows "n \<le> FLEECE_MAX_RESYNC_TARGETS \<Longrightarrow> foldl (resync_target_step A) (r, 0) [0..<n] = (r', starts) \<Longrightarrow>
    same_but {..<n} r r' \<and> can_send (rt_comms r') \<and> starts = min (due_count (repair_due r) n) FLEECE_RESYNC_STARTS_PER_TICK \<and>
    (\<exists>reqs. cm_sends (rt_comms r') = cm_sends (rt_comms r) @ reqs \<and> length reqs = starts + due_count (probe_due r) n \<and>
      (\<forall>q\<in>set reqs. \<exists>i<n. (repair_due r i \<or> probe_due r i) \<and> q = index_request r i))"
proof (induction n arbitrary: r' starts)
  case 0
  then show ?case using c same_but_refl by simp
next
  case (Suc n)
  obtain r1 s1 where r1: "foldl (resync_target_step A) (r, 0) [0..<n] = (r1, s1)" by fastforce
  obtain reqs where IH: "same_but {..<n} r r1" "can_send (rt_comms r1)" "s1 = min (due_count (repair_due r) n) FLEECE_RESYNC_STARTS_PER_TICK"
    "cm_sends (rt_comms r1) = cm_sends (rt_comms r) @ reqs" "length reqs = s1 + due_count (probe_due r) n"
    "\<forall>q\<in>set reqs. \<exists>i<n. (repair_due r i \<or> probe_due r i) \<and> q = index_request r i"
    using Suc.IH [OF _ r1] Suc.prems(1) by auto
  have n: "n < length (rt_resync_targets r)" using Suc.prems(1) len by simp
  have n1: "n < length (rt_resync_targets r1)" using IH(1) n by (auto simp: same_but_def)
  have step: "resync_target_step A (r1, s1) n = (r', starts)" using Suc.prems(2) r1 by simp
  obtain k where k: "same_but {n} r1 r'" "can_send (rt_comms r')" "s1 \<le> starts" "starts \<le> FLEECE_RESYNC_STARTS_PER_TICK"
    "cm_sends (rt_comms r') = cm_sends (rt_comms r1) @ replicate k (index_request r1 n)"
    "k = starts - s1 + (if probe_due r1 n then 1 else 0)" "s1 < starts \<longrightarrow> repair_due r1 n"
    "repair_due r1 n \<longrightarrow> starts = min (s1 + 1) FLEECE_RESYNC_STARTS_PER_TICK"
    using resync_step [OF IH(2) n1 _ step] IH(3) by auto
  note D = same_but_due [OF IH(1) _ n, simplified] and Q = same_but_request [OF IH(1) n]
  have "same_but {..<Suc n} r r'" using same_but_trans [OF IH(1) k(1)] by (simp add: lessThan_Suc)
  moreover have "starts = min (due_count (repair_due r) (Suc n)) FLEECE_RESYNC_STARTS_PER_TICK"
    using k(3,4,7,8) IH(3) D by auto
  moreover have "length (reqs @ replicate k (index_request r n)) = starts + due_count (probe_due r) (Suc n)"
    using k(3,6) IH(5) D by simp
  moreover have "\<forall>q\<in>set (reqs @ replicate k (index_request r n)). \<exists>i<Suc n. (repair_due r i \<or> probe_due r i) \<and> q = index_request r i"
    using IH(6) k(6,7) D by (fastforce simp: less_Suc_eq split: if_splits)
  ultimately show ?case
    using k(2,5) IH(4) Q by (intro conjI exI [of _ "reqs @ replicate k (index_request r n)"]) simp_all
qed

lemma flush_frame:
  "rt_state_manager (flush_pending_tx r) = rt_state_manager r \<and>
   rt_resync_targets (flush_pending_tx r) = rt_resync_targets r \<and> now_tick (flush_pending_tx r) = now_tick r \<and>
   rt_shared_gossip_watermark (flush_pending_tx r) = rt_shared_gossip_watermark r \<and>
   (can_send (rt_comms (flush_pending_tx r)) \<longleftrightarrow> can_send (rt_comms r)) \<and> (rt_inv r \<longrightarrow> rt_inv (flush_pending_tx r))"
proof -
  have step: "can_send (rt_comms (flush_slot r i)) = can_send (rt_comms r)" "rt_inv r \<Longrightarrow> rt_inv (flush_slot r i)" for r i
    by (auto simp: flush_slot_def fleece_comms_send_def send_failure_def can_send_def rt_inv_def tx_ok_def Let_def
        dest!: set_update_subset_insert [THEN subsetD] split: option.splits)
  have "rt_state_manager (foldl flush_slot r is) = rt_state_manager r \<and>
     rt_resync_targets (foldl flush_slot r is) = rt_resync_targets r \<and> now_tick (foldl flush_slot r is) = now_tick r \<and>
     rt_shared_gossip_watermark (foldl flush_slot r is) = rt_shared_gossip_watermark r \<and>
     (can_send (rt_comms (foldl flush_slot r is)) \<longleftrightarrow> can_send (rt_comms r)) \<and> (rt_inv r \<longrightarrow> rt_inv (foldl flush_slot r is))" for "is"
    by (induction "is" arbitrary: r) (use flush_slot_frame step in \<open>auto simp: now_tick_def\<close>)
  then show ?thesis by (simp add: flush_pending_tx_def)
qed

text \<open>
  The request budget of a tick.  After the deferred frames, a tick sends one index request to
  each of the first two peers that are known to hold something we miss (with a quiet store and
  no request outstanding that is younger than eight ticks), plus one to every peer not heard for
  a hundred ticks: exactly that many, each addressed to such a peer.  The store, the queue and
  the watermark are untouched and the invariant is kept.
\<close>

theorem resync_request_budget:
  assumes inv: "rt_inv r" and c: "can_send (rt_comms r)" and r': "r' = runtime_send_resync_requests A r"
  shows "\<exists>reqs. cm_sends (rt_comms r') = cm_sends (rt_comms (flush_pending_tx r)) @ reqs \<and>
    length reqs = min (due_count (repair_due r) FLEECE_MAX_RESYNC_TARGETS) FLEECE_RESYNC_STARTS_PER_TICK +
      due_count (probe_due r) FLEECE_MAX_RESYNC_TARGETS \<and>
    (\<forall>q\<in>set reqs. \<exists>i<FLEECE_MAX_RESYNC_TARGETS. (repair_due r i \<or> probe_due r i) \<and> q = index_request r i) \<and>
    rt_inv r' \<and> rt_state_manager r' = rt_state_manager r \<and> rt_pending_tx r' = rt_pending_tx (flush_pending_tx r) \<and>
    rt_shared_gossip_watermark r' = rt_shared_gossip_watermark r"
proof -
  let ?r = "flush_pending_tx r"
  note F = flush_frame [of r]
  have len: "length (rt_resync_targets ?r) = FLEECE_MAX_RESYNC_TARGETS"
    using F inv targets_invD(1) by (simp add: rt_inv_def)
  have same: "repair_due ?r = repair_due r" "probe_due ?r = probe_due r" "index_request ?r = index_request r"
    using F by (auto simp: repair_due_def probe_due_def index_request_def fun_eq_iff)
  obtain starts where run: "foldl (resync_target_step A) (?r, 0) [0..<FLEECE_MAX_RESYNC_TARGETS] = (r', starts)"
    by (metis r' runtime_send_resync_requests_def prod.collapse)
  have "can_send (rt_comms ?r)" using F c by simp
  note P = resync_prefix [OF this len order.refl run, unfolded same]
  have "rt_inv r'" using P same_but_inv [of ?r] F inv by blast
  moreover have "rt_state_manager r' = rt_state_manager r \<and> rt_pending_tx r' = rt_pending_tx ?r \<and>
    rt_shared_gossip_watermark r' = rt_shared_gossip_watermark r"
    using P F by (auto simp: same_but_def)
  ultimately show ?thesis using P by blast
qed

section \<open>The gossip phase\<close>

lemma new_shared_iff:
  assumes inv: "sm_inv m"
  shows "fleece_state_manager_count_new_shared m since > 0 \<longleftrightarrow> (\<exists>i. is_eligible m since i)"
proof -
  let ?P = "\<lambda>f. named_of FLEECE_SHARED_OWNER_ID f \<and> \<not> fe_timestamp f \<le> since"
  have "length (filter ?P (sm_fields m)) \<le> FIELD_CAPACITY"
    using sm_invD(1) [OF inv] length_filter_le [of ?P "sm_fields m"] by simp
  then have "unat (fleece_state_manager_count_new_shared m since) = length (filter ?P (sm_fields m))"
    by (simp add: fleece_state_manager_count_new_shared_def unat_of_nat_32)
  then have "fleece_state_manager_count_new_shared m since > 0 \<longleftrightarrow> filter ?P (sm_fields m) \<noteq> []"
    by (simp add: word_less_nat_alt)
  also have "\<dots> \<longleftrightarrow> (\<exists>i. is_eligible m since i)"
    by (auto simp: is_eligible_def filter_empty_conv not_le in_set_conv_nth Bex_def)
  finally show ?thesis .
qed

lemma export_size: "bounded_export A m since cap = (Some (buf, sz), inc, m') \<Longrightarrow> sz = of_nat (length buf)"
  by (auto simp: fleece_state_manager_export_shared_delta_bounded_def Let_def split: prod.splits if_splits)

lemma exported_nonempty: "sm_inv m \<Longrightarrow> bounded_export A m since cap = (Some (buf, sz), inc, m') \<Longrightarrow> 0 < length buf"
  by (drule (1) bounded_frame(1)) (simp add: write_gossip_header_def)

lemma with_store_inv: "rt_inv r \<Longrightarrow> sm_inv m \<Longrightarrow> rt_inv (r\<lparr>rt_state_manager := m, rt_comms := c\<rparr>)"
  by (simp add: rt_inv_def)

lemma broadcast_ok:
  assumes inv: "sm_inv m" and ex: "bounded_export A m since cap = (Some (buf, sz), inc, m')" and len: "length buf < 2 ^ 32"
    and c: "can_send c"
  shows "cm_sends (snd (fleece_comms_send c (Some dest) (Some buf) sz)) = cm_sends c @ [(dest, buf, sz)]"
proof -
  have sz: "unat sz = length buf" using export_size [OF ex] len by (simp add: unat_of_nat_32)
  then have "sz \<noteq> 0" using exported_nonempty [OF inv ex] by auto
  then show ?thesis using send_ok [OF c _ sz [symmetric], of dest] by simp
qed


lemma bounded_export_total: "\<forall>n. A n \<Longrightarrow> \<exists>buf sz inc m'. bounded_export A m since cap = (Some (buf, sz), inc, m')"
  by (cases "pack_result m since cap") (simp add: fleece_state_manager_export_shared_delta_bounded_def Let_def)

lemma beacon_selects_nothing: "frame_fields m UINT64_MAX cap = []" "taken_by m UINT64_MAX cap = []"
proof -
  have "\<not> is_eligible m UINT64_MAX i" for i
    using word_order.extremum [of "fe_timestamp (sm_fields m ! i)"] by (simp add: is_eligible_def not_less)
  then show "taken_by m UINT64_MAX cap = []" using taken_eligible(1) [of m UINT64_MAX cap] by auto
  then show "frame_fields m UINT64_MAX cap = []" by (simp add: frame_fields_def)
qed

text \<open>What the table says of a peer after one of its frames was reported.\<close>

lemma note_behind_recorded:
  assumes inv: "rt_inv r" and room: "\<exists>t\<in>set (rt_resync_targets r). \<not> rs_exists t \<or> rs_node_id t = n"
    and r': "r' = fleece_runtime_note_behind_from r b n"
  shows "\<exists>i<FLEECE_MAX_RESYNC_TARGETS. let t = rt_resync_targets r' ! i in rs_exists t \<and> rs_node_id t = n \<and>
    rs_last_heard_tick t = now_tick r \<and> (b \<longrightarrow> rs_need_shared t) \<and> (\<not> b \<and> \<not> rs_awaiting_index t \<longrightarrow> \<not> rs_need_shared t)"
proof -
  obtain res r1 where res: "resync_target_for_id r n = (res, r1)" by fastforce
  have t0: "targets_inv (rt_resync_targets r)" using inv by (simp add: rt_inv_def)
  note T = resync_target_cases [OF t0 res] and O = only_targets_simps [OF only_targets_for_id [OF res]]
  note len = targets_invD(1) [OF t0] targets_invD(1) [OF T(1)]
  obtain j where j: "j < length (rt_resync_targets r)"
    "\<not> rs_exists (rt_resync_targets r ! j) \<or> rs_node_id (rt_resync_targets r ! j) = n"
    using room by (auto simp: in_set_conv_nth)
  have "res \<noteq> None"
  proof
    assume "res = None"
    then have "index_of (\<lambda>t. rs_exists t \<and> rs_node_id t = n \<and> rs_source t = target_source n) (rt_resync_targets r) = None"
      "index_of (\<lambda>t. \<not> rs_exists t) (rt_resync_targets r) = None"
      using res by (auto simp: resync_target_for_id_def Let_def split: option.splits)
    then show False
      using j targets_invD(2) [OF t0 j(1)] nth_mem [OF j(1)] by (auto simp: index_of_None_iff)
  qed
  then obtain i where i: "res = Some i" by blast
  have "i < FLEECE_MAX_RESYNC_TARGETS" "rs_exists (rt_resync_targets r1 ! i)" "rs_node_id (rt_resync_targets r1 ! i) = n"
    using T(2) [OF i] by auto
  moreover have "rt_resync_targets r' ! i = note_report (now_tick r) b (rt_resync_targets r1 ! i)"
    using calculation len O by (simp add: r' fleece_runtime_note_behind_from_def res i update_target_def now_tick_def)
  ultimately show ?thesis
    by (intro exI [of _ i]) (simp add: note_report_def Let_def)
qed

text \<open>
  Beacons make divergence visible.  When a beacon is due and there is nothing new to gossip,
  the runtime broadcasts one frame without records.  A peer that receives it keeps every stored
  version, notes that it heard the sender, and flags the sender for repair exactly when their
  shared streams have different digests, unless an index request to the sender is outstanding,
  in which case a set flag stays.
\<close>

theorem beacon_flags_divergence:
  assumes inv: "rt_inv r" "rt_inv rp" and c: "can_send (rt_comms r)"
    and beacon: "(rt_gossip_tick_count r + ucast (sm_node_id (rt_state_manager r))) mod s_beacon_every_ticks g = 0"
    and quiet: "\<not> (\<exists>i. is_eligible (rt_state_manager r) (rt_shared_gossip_watermark r) i)"
    and A: "\<forall>n. A n" and peer: "sm_node_id (rt_state_manager rp) \<noteq> sm_node_id (rt_state_manager r)"
    and room: "\<exists>t\<in>set (rt_resync_targets rp). \<not> rs_exists t \<or> rs_node_id t = sm_node_id (rt_state_manager r)"
    and r': "r' = gossip_phase g A r"
  shows "\<exists>buf sz. cm_sends (rt_comms r') = cm_sends (rt_comms r) @ [(lit ''broadcast'', buf, sz)] \<and>
    rt_inv r' \<and> rt_shared_gossip_watermark r' = rt_shared_gossip_watermark r \<and>
    (let rp' = fleece_runtime_on_gossip_frame As rp (Some buf);
         differ = (compute_stream_digest (rt_state_manager rp) FLEECE_SHARED_OWNER_ID \<noteq>
                   compute_stream_digest (rt_state_manager r) FLEECE_SHARED_OWNER_ID)
     in view (rt_state_manager rp') = view (rt_state_manager rp) \<and>
        (\<exists>i<FLEECE_MAX_RESYNC_TARGETS. let t = rt_resync_targets rp' ! i in
           rs_exists t \<and> rs_node_id t = sm_node_id (rt_state_manager r) \<and> rs_last_heard_tick t = now_tick rp \<and>
           (differ \<longrightarrow> rs_need_shared t) \<and> (\<not> differ \<and> \<not> rs_awaiting_index t \<longrightarrow> \<not> rs_need_shared t)))"
proof -
  let ?m = "rt_state_manager r" and ?p = "rt_state_manager rp"
  have sm: "sm_inv ?m" and sp: "sm_inv ?p" using inv by (simp_all add: rt_inv_def)
  obtain buf sz ts m' where ex: "fleece_state_manager_export_shared_delta_bounded A ?m UINT64_MAX 0 = (Some (buf, sz), ts, m')"
    using bounded_export_total [OF A] by blast
  have "\<not> fleece_state_manager_count_new_shared ?m (rt_shared_gossip_watermark r) > 0"
    using new_shared_iff [OF sm] quiet by blast
  then have run: "r' = r\<lparr>rt_state_manager := m',
      rt_comms := snd (fleece_comms_send (rt_comms r) (Some (lit ''broadcast'')) (Some buf) sz)\<rparr>"
    using beacon ex by (simp add: r' gossip_phase_def fleece_state_manager_get_node_id_def Let_def)
  have buf: "buf = write_gossip_header (sm_node_id ?m) 0 (max_timestamp_for_owner m' 0) (compute_stream_digest ?m 0) (of_nat (length ([] :: FieldEntry list)))
      @ concat (map (write_record (0 = (0 :: u64))) [])"
    using bounded_frame(1) [OF sm ex] by (simp add: beacon_selects_nothing)
  have len: "length buf < 2 ^ 32"
    using uint_size_bounds(2) [of "sm_node_id ?m"] uint_size_bounds(2) [of "max_timestamp_for_owner m' 0"]
      uint_size_bounds(2) [of "compute_stream_digest ?m 0"]
    unfolding buf by (simp add: header_length fleece_cbor_array_header_size_def fleece_cbor_uint_size_def [of 0]
        fleece_cbor_uint_size_def [of 5])
  let ?ir = "import_impl As ?p buf"
  have ir: "ir_rc ?ir = 0" "ir_manager ?ir = touch_peer ?p (sm_node_id ?m)" "ir_sender ?ir = Some (sm_node_id ?m)"
    "ir_behind_shared ?ir = Some (compute_stream_digest (touch_peer ?p (sm_node_id ?m)) 0 \<noteq> compute_stream_digest ?m 0)"
    using import_frame [OF buf, of ?p As] peer sm_invD(6) [OF sm] by (simp_all add: Let_def merge_seq.simps)
  let ?r1 = "rp\<lparr>rt_state_manager := touch_peer ?p (sm_node_id ?m)\<rparr>"
  define differ where "differ = (compute_stream_digest ?p 0 \<noteq> compute_stream_digest ?m 0)"
  have dg: "compute_stream_digest (touch_peer ?p (sm_node_id ?m)) 0 = compute_stream_digest ?p 0"
    using sp touch_peer_inv [OF sp] by (intro stream_digest_cong) simp_all
  have rp': "fleece_runtime_on_gossip_frame As rp (Some buf) = fleece_runtime_note_behind_from ?r1 differ (sm_node_id ?m)"
    using ir dg exported_nonempty [OF sm ex]
    by (simp add: fleece_runtime_on_gossip_frame_def import_and_track_report Let_def differ_def)
  have i1: "rt_inv ?r1" using inv(2) touch_peer_inv [OF sp] by (simp add: rt_inv_def)
  have room': "\<exists>t\<in>set (rt_resync_targets ?r1). \<not> rs_exists t \<or> rs_node_id t = sm_node_id ?m" using room by simp
  have now: "now_tick ?r1 = now_tick rp" by (simp add: now_tick_def)
  note N = note_behind_recorded [OF i1 room' rp', unfolded now]
  have kept: "view (rt_state_manager (fleece_runtime_on_gossip_frame As rp (Some buf))) = view ?p"
    using only_targets_simps [OF note_behind_effect(2) [OF i1, of differ "sm_node_id ?m"]] by (simp add: rp')
  have "cm_sends (rt_comms r') = cm_sends (rt_comms r) @ [(lit ''broadcast'', buf, sz)]"
    "rt_inv r'" "rt_shared_gossip_watermark r' = rt_shared_gossip_watermark r"
    using broadcast_ok [OF sm ex len c, of "lit ''broadcast''"] inv(1) bounded_same(1) [OF ex sm]
    by (simp_all add: run rt_inv_def)
  then show ?thesis
    using N kept unfolding differ_def Let_def by blast
qed

end
