(* ===== verification/Runtime_Loop.thy ===== *)
theory Runtime_Loop
  imports Runtime_Claims
begin

text \<open>
  The main loop of the runtime, and the runtime's properties at concrete nodes.
\<close>

section \<open>The main loop\<close>

text \<open>The state after a number of ticks.\<close>

primrec runtime_ticks ::
    "runtime_statics \<Rightarrow> (nat \<Rightarrow> allocator) \<Rightarrow> (nat \<Rightarrow> signals) \<Rightarrow> (nat \<Rightarrow> host) \<Rightarrow> nat \<Rightarrow> FleeceRuntime \<Rightarrow> FleeceRuntime" where
  "runtime_ticks g As sig hs 0 r = r"
| "runtime_ticks g As sig hs (Suc n) r = runtime_tick g (As n) (sig n) (hs n) (runtime_ticks g As sig hs n r)"

lemma interrupt_running: "rt_is_running (interrupt sig k r) \<longleftrightarrow> rt_is_running r \<and> sig k \<noteq> Some ThisRuntime"
  by (auto simp: interrupt_def signal_handler_def split: option.splits global_runtime.splits)

lemma interrupt_inv [simp]: "rt_inv (interrupt sig k r) = rt_inv r"
  by (simp add: interrupt_def signal_handler_def rt_inv_def split: option.splits global_runtime.splits)

lemma gossip_running: "rt_is_running (gossip_phase g A r) = rt_is_running r"
  by (simp add: gossip_phase_def Let_def split: prod.splits option.splits)

lemma resync_running: "rt_is_running (runtime_send_resync_requests A r) = rt_is_running r"
proof -
  have step: "rt_is_running (fst (resync_target_step A s i)) = rt_is_running (fst s)" for s i
    by (cases s) (simp add: resync_target_step_def update_target_def send_control_def send_control_ex_def Let_def split: prod.splits)
  have "rt_is_running (fst (foldl (resync_target_step A) s is)) = rt_is_running (fst s)" for s "is"
    by (induction "is" arbitrary: s) (simp_all add: step)
  moreover have "rt_is_running (foldl flush_slot r is) = rt_is_running r" for r "is"
    by (induction "is" arbitrary: r) (simp_all add: flush_slot_frame)
  ultimately show ?thesis by (simp add: runtime_send_resync_requests_def flush_pending_tx_def)
qed

lemma tick_running:
  "rt_is_running (runtime_tick g A sig h r) \<longleftrightarrow> rt_is_running (host_phase sig h r) \<and> (\<forall>k\<in>{4..7}. sig k \<noteq> Some ThisRuntime)"
proof -
  have "rt_is_running (runtime_tick g A sig h r) \<longleftrightarrow> rt_is_running (host_phase sig h r) \<and>
      sig 4 \<noteq> Some ThisRuntime \<and> sig 5 \<noteq> Some ThisRuntime \<and> sig 6 \<noteq> Some ThisRuntime \<and> sig 7 \<noteq> Some ThisRuntime"
    by (simp add: runtime_tick_def Let_def interrupt_running gossip_running resync_running)
  moreover have "{4..7} = {4, 5, 6, 7 :: nat}" by auto
  ultimately show ?thesis by simp
qed

text \<open>
  The flag is read and written by none of the runtime's own phases, so a signal that arrives while one of them runs has the same effect as one
  that arrives after it.
\<close>

lemma gossip_signal: "gossip_phase g A (r\<lparr>rt_is_running := b\<rparr>) = (gossip_phase g A r)\<lparr>rt_is_running := b\<rparr>"
  by (simp add: gossip_phase_def Let_def split: prod.splits option.splits)

lemma resync_signal:
  "runtime_send_resync_requests A (r\<lparr>rt_is_running := b\<rparr>) = (runtime_send_resync_requests A r)\<lparr>rt_is_running := b\<rparr>"
proof -
  have slot: "flush_slot (r\<lparr>rt_is_running := b\<rparr>) i = (flush_slot r i)\<lparr>rt_is_running := b\<rparr>" for r i
    by (simp add: flush_slot_def now_tick_def Let_def split: prod.splits)
  have "foldl flush_slot (r\<lparr>rt_is_running := b\<rparr>) is = (foldl flush_slot r is)\<lparr>rt_is_running := b\<rparr>" for r "is"
    by (induction "is" arbitrary: r) (simp_all add: slot)
  then have flush: "flush_pending_tx (r\<lparr>rt_is_running := b\<rparr>) = (flush_pending_tx r)\<lparr>rt_is_running := b\<rparr>" for r
    by (simp add: flush_pending_tx_def)
  let ?up = "\<lambda>(r, n). (r\<lparr>rt_is_running := b\<rparr>, n :: nat)"
  have step: "resync_target_step A (?up s) i = ?up (resync_target_step A s i)" for s i
    by (cases s) (auto simp: resync_target_step_def update_target_def now_tick_def send_control_def send_control_ex_def Let_def)
  have "foldl (resync_target_step A) (?up s) is = ?up (foldl (resync_target_step A) s is)" for s "is"
    by (induction "is" arbitrary: s) (simp_all only: foldl.simps step)
  from this [of "(flush_pending_tx r, 0)"] show ?thesis
    by (simp add: runtime_send_resync_requests_def flush split: prod.splits)
qed
text \<open>Where the host's code never sets the flag, a signal that finds it clears it for good.\<close>

definition never_restarts :: "host \<Rightarrow> bool" where
  "never_restarts h \<longleftrightarrow> (\<forall>f\<in>{h_poll h, h_tick_cb h, h_step h, h_brain h}. \<forall>r. rt_is_running (f r) \<longrightarrow> rt_is_running r)"

lemma host_running:
  assumes h: "never_restarts h" and run: "rt_is_running (host_phase sig h r)"
  shows "\<forall>k<4. sig k \<noteq> Some ThisRuntime"
proof -
  have hook: "rt_is_running (h_poll h r) \<Longrightarrow> rt_is_running r" "rt_is_running (h_tick_cb h r) \<Longrightarrow> rt_is_running r"
    "rt_is_running (h_step h r) \<Longrightarrow> rt_is_running r" "rt_is_running (h_brain h r) \<Longrightarrow> rt_is_running r" for r
    using h unfolding never_restarts_def by blast+
  define r0 where "r0 = interrupt sig 0 (r\<lparr>rt_state_manager := fleece_state_manager_tick (rt_state_manager r)\<rparr>)"
  define r1 where "r1 = interrupt sig 1 (fleece_comms_process_input (h_poll h) (rt_comms r0) r0)"
  define r2 where "r2 = interrupt sig 2 (if rt_tick_cb r1 then h_tick_cb h r1 else r1)"
  define r3 where "r3 = interrupt sig 3 (h_step h r2)"
  have "host_phase sig h r = (if rt_goap_brain r3 then h_brain h r3 else r3)"
    by (simp add: host_phase_def r0_def r1_def r2_def r3_def Let_def)
  then have "rt_is_running r3" using run hook(4) [of r3] by (simp split: if_splits)
  then have r2: "rt_is_running r2" "sig 3 \<noteq> Some ThisRuntime" using hook(3) [of r2] by (simp_all add: r3_def interrupt_running)
  then have r1: "rt_is_running r1" "sig 2 \<noteq> Some ThisRuntime" using hook(2) [of r1] by (simp_all add: r2_def interrupt_running split: if_splits)
  then have "rt_is_running r0" "sig 1 \<noteq> Some ThisRuntime"
    using hook(1) [of r0] by (simp_all add: r1_def interrupt_running fleece_comms_process_input_def split: if_splits)
  then have "sig 0 \<noteq> Some ThisRuntime" by (simp add: r0_def interrupt_running)
  moreover have "k = 0 \<or> k = 1 \<or> k = 2 \<or> k = 3" if "k < 4" for k :: nat using that by linarith
  ultimately show ?thesis using r2(2) r1(2) \<open>sig 1 \<noteq> Some ThisRuntime\<close> by metis
qed

lemma signal_stops_tick:
  assumes h: "never_restarts h" and k: "k < 8" "sig k = Some ThisRuntime"
  shows "\<not> rt_is_running (runtime_tick g A sig h r)"
proof
  assume "rt_is_running (runtime_tick g A sig h r)"
  then have "rt_is_running (host_phase sig h r)" "\<forall>k\<in>{4..7}. sig k \<noteq> Some ThisRuntime" using tick_running by blast+
  then have "k \<notin> {4..7}" "\<not> k < 4" using host_running [OF h] k(2) by blast+
  then show False using k(1) by auto
qed

lemma loop_runs:
  assumes "\<forall>n<N. rt_is_running (runtime_ticks g As sig hs n r)" and "k \<le> N"
  shows "runtime_loop g As sig hs 0 r = runtime_loop g As sig hs k (runtime_ticks g As sig hs k r)"
  using assms(2)
proof (induction k)
  case (Suc k)
  then show ?case using assms(1) by (simp add: runtime_loop.simps [of g As sig hs k])
qed simp

lemma loop_result:
  "runtime_loop g As sig hs k r = Some y \<Longrightarrow>
   \<forall>r0. r = runtime_ticks g As sig hs k r0 \<longrightarrow>
     (\<exists>n. \<not> rt_is_running (runtime_ticks g As sig hs n r0) \<and> y = runtime_ticks g As sig hs n r0)"
proof (erule runtime_loop.raw_induct [rotated])
  fix loop g As sig hs k r y
  assume IH: "\<And>g As sig hs k r y. loop g As sig hs k r = Some y \<Longrightarrow> \<forall>r0. r = runtime_ticks g As sig hs k r0 \<longrightarrow>
      (\<exists>n. \<not> rt_is_running (runtime_ticks g As sig hs n r0) \<and> y = runtime_ticks g As sig hs n r0)"
    and body: "(if rt_is_running r then loop g As sig hs (k + 1) (runtime_tick g (As k) (sig k) (hs k) r) else Some r) = Some y"
  show "\<forall>r0. r = runtime_ticks g As sig hs k r0 \<longrightarrow>
      (\<exists>n. \<not> rt_is_running (runtime_ticks g As sig hs n r0) \<and> y = runtime_ticks g As sig hs n r0)"
  proof (intro allI impI)
    fix r0 assume r: "r = runtime_ticks g As sig hs k r0"
    show "\<exists>n. \<not> rt_is_running (runtime_ticks g As sig hs n r0) \<and> y = runtime_ticks g As sig hs n r0"
    proof (cases "rt_is_running r")
      case True
      then have "loop g As sig hs (k + 1) (runtime_tick g (As k) (sig k) (hs k) r) = Some y" using body by simp
      from IH [OF this] show ?thesis by (simp add: r)
    next
      case False
      then show ?thesis using body r by (intro exI [of _ k]) simp
    qed
  qed
qed

lemma loop_ends:
  assumes "\<forall>n<N. rt_is_running (runtime_ticks g As sig hs n s)" and "\<not> rt_is_running (runtime_ticks g As sig hs N s)"
  shows "runtime_loop g As sig hs 0 s = Some (runtime_ticks g As sig hs N s)"
  using loop_runs [OF assms(1) order.refl] assms(2) by (simp add: runtime_loop.simps [of g As sig hs N])

text \<open>
  C13. What starting the runtime does.  A running runtime refuses to start again.  Otherwise the
  loop returns after the first tick at whose end the runtime is stopped, having completed that
  tick, and then runs the script's destroy hook; it returns in no other case.  A tick ends stopped exactly when
  its host code (the poll callback, the tick callback, the script step, the brain) left the runtime stopped or a signal found it afterwards; a signal
  that finds it at any point of a tick makes \<open>start\<close> return after that tick at the latest, provided host code does not set the flag again.
\<close>

theorem runtime_start_outcome:
  assumes s: "s = interrupt sig0 1 (init (interrupt sig0 0 (r\<lparr>rt_is_running := True\<rparr>)))"
  shows "(rt_is_running r \<longrightarrow> fleece_runtime_start g As init sig0 sig hs destroy r = Some (-1, r)) \<and>
    (\<not> rt_is_running r \<longrightarrow>
      (\<forall>N. (\<forall>n<N. rt_is_running (runtime_ticks g As sig hs n s)) \<and> \<not> rt_is_running (runtime_ticks g As sig hs N s) \<longrightarrow>
         fleece_runtime_start g As init sig0 sig hs destroy r = Some (0, destroy (runtime_ticks g As sig hs N s))) \<and>
      ((\<forall>n. rt_is_running (runtime_ticks g As sig hs n s)) \<longrightarrow> fleece_runtime_start g As init sig0 sig hs destroy r = None) \<and>
      (\<forall>n k. never_restarts (hs n) \<and> k < 8 \<and> sig n k = Some ThisRuntime \<longrightarrow>
         (\<exists>N\<le>Suc n. fleece_runtime_start g As init sig0 sig hs destroy r = Some (0, destroy (runtime_ticks g As sig hs N s))))) \<and>
    (\<forall>n. rt_is_running (runtime_ticks g As sig hs (Suc n) s) \<longleftrightarrow>
       rt_is_running (host_phase (sig n) (hs n) (runtime_ticks g As sig hs n s)) \<and> (\<forall>k\<in>{4..7}. sig n k \<noteq> Some ThisRuntime))"
proof -
  have start: "fleece_runtime_start g As init sig0 sig hs destroy r =
      (if rt_is_running r then Some (-1, r) else map_option (\<lambda>r. (0, destroy r)) (runtime_loop g As sig hs 0 s))"
    by (simp add: fleece_runtime_start_def s Let_def)
  have never: "runtime_loop g As sig hs 0 s = None" if "\<forall>n. rt_is_running (runtime_ticks g As sig hs n s)"
    using loop_result [of g As sig hs 0 s] that by (cases "runtime_loop g As sig hs 0 s") auto
  have stopped: "\<exists>N\<le>Suc n. runtime_loop g As sig hs 0 s = Some (runtime_ticks g As sig hs N s)"
    if "never_restarts (hs n)" "k < 8" "sig n k = Some ThisRuntime" for n k
  proof -
    let ?N = "LEAST N. \<not> rt_is_running (runtime_ticks g As sig hs N s)"
    have off: "\<not> rt_is_running (runtime_ticks g As sig hs (Suc n) s)" using signal_stops_tick [where sig = "sig n", OF that] by simp
    have "\<not> rt_is_running (runtime_ticks g As sig hs ?N s)" using off by (rule LeastI)
    moreover have "\<forall>m<?N. rt_is_running (runtime_ticks g As sig hs m s)" using not_less_Least by blast
    ultimately have "runtime_loop g As sig hs 0 s = Some (runtime_ticks g As sig hs ?N s)" by (intro loop_ends)
    moreover have "?N \<le> Suc n" using off by (rule Least_le)
    ultimately show ?thesis by blast
  qed
  have tick: "rt_is_running (runtime_ticks g As sig hs (Suc n) s) \<longleftrightarrow>
      rt_is_running (host_phase (sig n) (hs n) (runtime_ticks g As sig hs n s)) \<and> (\<forall>k\<in>{4..7}. sig n k \<noteq> Some ThisRuntime)" for n
    by (simp only: runtime_ticks.simps tick_running)
  show ?thesis
    unfolding start using loop_ends [of _ g As sig hs s] never stopped tick by (simp del: runtime_ticks.simps(2)) (metis option.map(2))
qed

section \<open>The invariant across a run\<close>

lemma resync_step_same:
  "same_but I r r1 \<Longrightarrow> same_but (I \<union> {i}) r (fst (resync_target_step A (r1, n) i))"
proof -
  assume r1: "same_but I r r1"
  have send: "same_but {i} x (update_target i f (send_control A x d 0 []))"
    if "\<And>t. rs_node_id (f t) = rs_node_id t" "\<And>t. rs_source (f t) = rs_source t" "\<And>t. rs_exists (f t) = rs_exists t" for x f d
    using same_but_trans [OF same_but_send [of "{}" x] same_but_update [OF that, of i]]
    by (simp add: send_control_def send_control_ex_def Let_def)
  have twice: "same_but {i} x z" if "same_but {i} x y" "same_but {i} y z" for x y z
    using same_but_trans [OF that] by simp
  have "same_but {i} r1 (fst (resync_target_step A (r1, n) i))"
    using same_but_refl by (auto simp: resync_target_step_def Let_def intro: send twice [OF send send])
  then show ?thesis by (rule same_but_trans [OF r1])
qed

lemma resync_requests_inv:
  assumes inv: "rt_inv r"
  shows "rt_inv (runtime_send_resync_requests A r)"
proof -
  have "\<exists>I. same_but I (flush_pending_tx r) (fst (foldl (resync_target_step A) s is))"
    if "same_but I (flush_pending_tx r) (fst s)" for s I "is"
    using that
  proof (induction "is" arbitrary: s I)
    case (Cons i "is")
    then show ?case using resync_step_same [of I "flush_pending_tx r" "fst s" i A "snd s"] by simp
  qed auto
  from this [of UNIV "(flush_pending_tx r, 0)" "[0..<FLEECE_MAX_RESYNC_TARGETS]"]
  obtain I where "same_but I (flush_pending_tx r) (runtime_send_resync_requests A r)"
    using same_but_refl by (auto simp: runtime_send_resync_requests_def)
  moreover have "rt_inv (flush_pending_tx r)" using flush_frame [of r] inv by blast
  ultimately show ?thesis using same_but_inv by blast
qed

lemma gossip_phase_inv:
  assumes inv: "rt_inv r"
  shows "rt_inv (gossip_phase g A r)"
proof -
  have "sm_inv m'" if "bounded_export A (rt_state_manager r) since cap = (fr, inc, m')" for since cap fr inc m'
    using bounded_same(1) [OF that] inv by (simp add: rt_inv_def)
  then show ?thesis
    using inv by (auto simp: gossip_phase_def rt_inv_def Let_def split: prod.splits option.splits)
qed

lemma host_phase_inv:
  assumes inv: "rt_inv r" and h: "\<And>r. rt_inv r \<Longrightarrow> rt_inv (h_poll h r)" "\<And>r. rt_inv r \<Longrightarrow> rt_inv (h_tick_cb h r)"
    "\<And>r. rt_inv r \<Longrightarrow> rt_inv (h_step h r)" "\<And>r. rt_inv r \<Longrightarrow> rt_inv (h_brain h r)"
  shows "rt_inv (host_phase sig h r)"
proof -
  have "sm_inv (fleece_state_manager_tick m)" if "sm_inv m" for m
    using that by (simp add: fleece_state_manager_tick_def sm_inv_def store_inv_def clock_inv_def)
  then have "rt_inv (r\<lparr>rt_state_manager := fleece_state_manager_tick (rt_state_manager r)\<rparr>)"
    using inv by (simp add: rt_inv_def)
  then show ?thesis
    using h by (simp add: host_phase_def fleece_comms_process_input_def Let_def)
qed

text \<open>
  A run keeps the runtime consistent.  If the host's callbacks and the script's hooks keep the
  runtime's invariant (as the inbound frame handlers do), then so does every tick, for every
  pattern of allocation failures, and a run that returns leaves a consistent runtime behind.
\<close>

theorem runtime_run_invariant:
  assumes inv: "rt_inv r" and init: "\<forall>r. rt_inv r \<longrightarrow> rt_inv (init r)" and destroy: "\<forall>r. rt_inv r \<longrightarrow> rt_inv (destroy r)"
    and hosts: "\<forall>n r. rt_inv r \<longrightarrow> rt_inv (h_poll (hs n) r) \<and> rt_inv (h_tick_cb (hs n) r) \<and>
      rt_inv (h_step (hs n) r) \<and> rt_inv (h_brain (hs n) r)"
    and s: "s = interrupt sig0 1 (init (interrupt sig0 0 (r\<lparr>rt_is_running := True\<rparr>)))"
  shows "rt_inv (runtime_ticks g As sig hs n s) \<and>
    (\<forall>rc r'. fleece_runtime_start g As init sig0 sig hs destroy r = Some (rc, r') \<longrightarrow> rt_inv r')"
proof -
  have "rt_inv (r\<lparr>rt_is_running := True\<rparr>)" using inv by (simp add: rt_inv_def)
  then have s_inv: "rt_inv s" using init by (simp add: s)
  have ticks: "rt_inv (runtime_ticks g As sig hs n s)" for n
  proof (induction n)
    case (Suc n)
    let ?h = "host_phase (sig n) (hs n) (runtime_ticks g As sig hs n s)"
    have "rt_inv ?h" using hosts Suc by (intro host_phase_inv) auto
    then have "rt_inv (runtime_send_resync_requests (As n) (interrupt (sig n) 5 (gossip_phase g (As n) (interrupt (sig n) 4 ?h))))"
      by (intro resync_requests_inv) (simp add: gossip_phase_inv)
    then have "rt_inv (interrupt (sig n) 6 (runtime_send_resync_requests (As n) (interrupt (sig n) 5 (gossip_phase g (As n) (interrupt (sig n) 4 ?h)))))"
      by simp
    moreover have "rt_inv (r\<lparr>rt_gossip_tick_count := c, rt_comms := x\<rparr>) = rt_inv r" for r c x by (simp add: rt_inv_def)
    ultimately show ?case by (simp add: runtime_tick_def Let_def)
  qed (use s_inv in simp)
  have "rt_inv r'" if "fleece_runtime_start g As init sig0 sig hs destroy r = Some (rc, r')" for rc r'
    using that inv destroy ticks loop_result [of g As sig hs 0 s]
    by (auto simp: fleece_runtime_start_def s Let_def split: if_splits)
  then show ?thesis using ticks by blast
qed

section \<open>Concrete runtimes\<close>

text \<open>A freshly created runtime around a given store, with an open transport.\<close>

definition demo_rt :: "FleeceStateManager \<Rightarrow> FleeceRuntime" where
  "demo_rt m = (let r = the (runtime_create_internal True True True True (Some m))
     in r\<lparr>rt_comms := fleece_comms_set_send_callback (snd (fleece_comms_initialize (rt_comms r))) True\<rparr>)"

lemma demo_rt_simps:
  "rt_state_manager (demo_rt m) = m" "rt_pending_tx (demo_rt m) = replicate FLEECE_MAX_PENDING_TX zero_tx"
  "rt_resync_targets (demo_rt m) = replicate FLEECE_MAX_RESYNC_TARGETS zero_target" "can_send (rt_comms (demo_rt m))"
  "rt_gossip_tick_count (demo_rt m) = 0" "rt_shared_gossip_watermark (demo_rt m) = 0" "cm_sends (rt_comms (demo_rt m)) = []"
  "rt_is_running (demo_rt m) = False"
  by (simp_all add: demo_rt_def runtime_create_internal_def fleece_comms_create_def fleece_comms_initialize_def
      fleece_comms_set_send_callback_def fleece_comms_set_receive_callback_def can_send_def)

lemma demo_rt_inv: "sm_inv m \<Longrightarrow> rt_inv (demo_rt m)"
  by (simp add: rt_inv_def targets_inv_def tx_ok_def zero_tx_def zero_target_def demo_rt_simps)

lemma demo_rt_room:
  "\<exists>t\<in>set (rt_pending_tx (demo_rt m)). \<not> tx_used t" "\<exists>t\<in>set (rt_resync_targets (demo_rt m)). \<not> rs_exists t"
  by (simp_all add: demo_rt_simps zero_tx_def zero_target_def)

theorem inbound_frames_safe_witness:
  "rt_inv (fleece_runtime_on_control_frame yes (demo_rt demo_a) (Some (control_frame 0 2 [])))"
  using inbound_frames_safe [OF demo_rt_inv [OF demo_inv(1)] refl refl] by blast

definition demo_queue :: FleeceRuntime where
  "demo_queue = (fleece_runtime_on_control_frame yes (demo_rt demo_a) (Some (control_frame 0 2 [])))\<lparr>rt_gossip_tick_count := 1\<rparr>"

theorem flush_exactly_once_witness:
  "length (cm_sends (rt_comms (flush_pending_tx demo_queue))) = 1"
proof -
  have "rt_inv (fleece_runtime_on_control_frame yes (demo_rt demo_a) (Some (control_frame 0 2 [])))"
    using handle_fx_effect [OF demo_rt_inv [OF demo_inv(1)]] demo_rt_inv [OF demo_inv(1)]
    by (simp add: fleece_runtime_on_control_frame_def control_effect_def)
  then have inv: "rt_inv demo_queue" by (simp add: demo_queue_def rt_inv_def)
  have c: "can_send (rt_comms demo_queue)" by code_simp
  have sz: "\<forall>t\<in>set (rt_pending_tx demo_queue). tx_used t \<longrightarrow> tx_size t \<noteq> 0" by code_simp
  have "length (filter (tx_ready demo_queue) (rt_pending_tx demo_queue)) = 1" "cm_sends (rt_comms demo_queue) = []" by code_simp+
  then show ?thesis using flush_exactly_once [OF inv c sz] by simp
qed

lemma demo_index: "fleece_state_manager_export_shared_index yes m =
    Some (fst (the (fleece_state_manager_export_shared_index yes m)), snd (the (fleece_state_manager_export_shared_index yes m)))"
  by (simp add: fleece_state_manager_export_shared_index_def Let_def)

lemma demo_by_hash: "fleece_state_manager_export_shared_by_hash yes m hs =
    Some (fst (the (fleece_state_manager_export_shared_by_hash yes m hs)), snd (the (fleece_state_manager_export_shared_by_hash yes m hs)))"
  by (simp add: fleece_state_manager_export_shared_by_hash_def Let_def split: prod.splits)

lemma demo_missing: "missing_keys demo_b demo_two = [hash_name [98]]"
  by code_simp

theorem index_reply_diff_witness:
  "queued (fleece_runtime_on_control_frame yes (demo_rt demo_b)
      (Some (fst (the (fleece_state_manager_export_shared_index yes demo_two)))))
    (node_dest 1) (control_frame 2 2 [hash_name [98]])"
proof -
  have ids: "sm_node_id demo_b = 2" "sm_node_id demo_two = 1" by code_simp+
  show ?thesis
    using index_reply_diff [OF demo_rt_inv [OF demo_inv(2)] demo_two_inv demo_index _ demo_rt_room(1) refl]
    by (simp add: demo_rt_simps demo_missing ids)
qed

theorem repair_round_progress_witness:
  "\<exists>vs. vs \<noteq> [] \<and> ir_manager (import_impl (\<lambda>_. yes) demo_b
      (fst (the (fleece_state_manager_export_shared_by_hash yes demo_two [hash_name [98]])))) =
    foldl (deliver_version yes) (touch_peer demo_b 1) vs"
proof -
  have ids: "sm_node_id demo_b = 2" "sm_node_id demo_two = 1" by code_simp+
  have len: "length (fst (the (fleece_state_manager_export_shared_by_hash yes demo_two [hash_name [98]]))) < 100"
    by code_simp
  note R = repair_round_progress [OF demo_rt_inv [OF demo_inv(2)] demo_rt_inv [OF demo_two_inv] _ _ demo_rt_room(1) demo_rt_room(1)
      demo_index _ refl demo_by_hash, unfolded demo_rt_simps demo_missing ids]
  show ?thesis using R len by fastforce
qed

text \<open>A node that was told that node 2 is ahead of it.\<close>

definition demo_behind :: FleeceRuntime where
  "demo_behind = fleece_runtime_note_behind_from (demo_rt (demo_node 1)) True 2"

theorem resync_request_budget_witness:
  "\<exists>reqs. cm_sends (rt_comms (runtime_send_resync_requests yes demo_behind)) =
      cm_sends (rt_comms (flush_pending_tx demo_behind)) @ reqs \<and> length reqs = 1"
proof -
  have inv: "rt_inv demo_behind"
    unfolding demo_behind_def by (rule note_behind_effect(1) [OF demo_rt_inv [OF demo_node_inv]]) simp
  have c: "can_send (rt_comms demo_behind)" by code_simp
  have "due_count (repair_due demo_behind) FLEECE_MAX_RESYNC_TARGETS = 1" "due_count (probe_due demo_behind) FLEECE_MAX_RESYNC_TARGETS = 0"
    by code_simp+
  then show ?thesis using resync_request_budget [OF inv c refl, of yes] by auto
qed

definition demo_statics :: runtime_statics where
  "demo_statics = \<lparr>s_gossip_every_ticks = 4, s_beacon_every_ticks = 1\<rparr>"



theorem beacon_flags_divergence_witness:
  "length (cm_sends (rt_comms (gossip_phase demo_statics yes (demo_rt (demo_node 1))))) = 1"
proof -
  have beacon: "(rt_gossip_tick_count (demo_rt (demo_node 1)) + ucast (sm_node_id (rt_state_manager (demo_rt (demo_node 1)))))
      mod s_beacon_every_ticks demo_statics = 0" by code_simp
  have "\<not> fleece_state_manager_count_new_shared (demo_node 1) 0 > 0" by code_simp
  then have quiet: "\<not> (\<exists>i. is_eligible (rt_state_manager (demo_rt (demo_node 1))) (rt_shared_gossip_watermark (demo_rt (demo_node 1))) i)"
    using new_shared_iff [OF demo_node_inv, of 1 0] by (simp add: demo_rt_simps)
  have ids: "sm_node_id (rt_state_manager (demo_rt demo_b)) \<noteq> sm_node_id (rt_state_manager (demo_rt (demo_node 1)))" by code_simp
  have room: "\<exists>t\<in>set (rt_resync_targets (demo_rt demo_b)). \<not> rs_exists t \<or>
      rs_node_id t = sm_node_id (rt_state_manager (demo_rt (demo_node 1)))"
    using demo_rt_room(2) by blast
  have i1: "rt_inv (demo_rt (demo_node 1))" by (rule demo_rt_inv [OF demo_node_inv]) simp
  show ?thesis
    using beacon_flags_divergence [OF i1 demo_rt_inv [OF demo_inv(2)] demo_rt_simps(4) beacon quiet _ ids room refl, where A = yes and As = "\<lambda>_. yes"]
    by (auto simp: demo_rt_simps)
qed

text \<open>A host that does nothing, and a signal that arrives while the third tick sends its frames.\<close>

definition demo_host :: "nat \<Rightarrow> host" where
  "demo_host n = \<lparr>h_poll = \<lambda>r. r, h_tick_cb = \<lambda>r. r, h_step = \<lambda>r. r, h_brain = \<lambda>r. r\<rparr>"

definition demo_signal :: "nat \<Rightarrow> signals" where
  "demo_signal n k = (if n = 2 \<and> k = 5 then Some ThisRuntime else None)"

theorem runtime_start_outcome_witness:
  "fleece_runtime_start demo_statics (\<lambda>_. yes) (\<lambda>r. r) (\<lambda>_. None) demo_signal demo_host (\<lambda>r. r) (demo_rt (demo_node 1)) =
    Some (0, runtime_ticks demo_statics (\<lambda>_. yes) demo_signal demo_host 3 ((demo_rt (demo_node 1))\<lparr>rt_is_running := True\<rparr>))"
proof -
  let ?s = "(demo_rt (demo_node 1))\<lparr>rt_is_running := True\<rparr>"
  have host: "rt_is_running (host_phase (demo_signal n) (demo_host n) r) = rt_is_running r" for n r
    by (simp add: host_phase_def demo_host_def demo_signal_def interrupt_def fleece_comms_process_input_def Let_def)
  have sig: "(\<forall>k\<in>{4..7}. demo_signal n k \<noteq> Some ThisRuntime) \<longleftrightarrow> n \<noteq> 2" for n
    by (auto simp: demo_signal_def intro!: bexI [of _ 5])
  have run: "rt_is_running (runtime_ticks demo_statics (\<lambda>_. yes) demo_signal demo_host n ?s) = (n < 3)" for n
    by (induction n) (auto simp: tick_running host sig)
  have "?s = interrupt (\<lambda>_. None) 1 ((\<lambda>r. r) (interrupt (\<lambda>_. None) 0 ?s))" by (simp add: interrupt_def)
  from runtime_start_outcome [where init = "\<lambda>r. r" and r = "demo_rt (demo_node 1)" and ?sig0.0 = "\<lambda>_. None", OF this,
      of demo_statics "\<lambda>_. yes" demo_signal demo_host "\<lambda>r. r"] run show ?thesis
    by (simp add: demo_rt_simps)
qed

theorem runtime_run_invariant_witness:
  "rt_inv (runtime_ticks demo_statics (\<lambda>_. yes) demo_signal demo_host 3 ((demo_rt (demo_node 1))\<lparr>rt_is_running := True\<rparr>))"
proof -
  have i1: "rt_inv (demo_rt (demo_node 1))" by (rule demo_rt_inv [OF demo_node_inv]) simp
  have h: "\<forall>n r. rt_inv r \<longrightarrow> rt_inv (h_poll (demo_host n) r) \<and> rt_inv (h_tick_cb (demo_host n) r) \<and>
      rt_inv (h_step (demo_host n) r) \<and> rt_inv (h_brain (demo_host n) r)"
    by (simp add: demo_host_def)
  have "(demo_rt (demo_node 1))\<lparr>rt_is_running := True\<rparr> =
      interrupt (\<lambda>_. None) 1 ((\<lambda>r. r) (interrupt (\<lambda>_. None) 0 ((demo_rt (demo_node 1))\<lparr>rt_is_running := True\<rparr>)))"
    by (simp add: interrupt_def)
  from runtime_run_invariant [where init = "\<lambda>r. r" and r = "demo_rt (demo_node 1)" and ?sig0.0 = "\<lambda>_. None", OF i1 _ _ h this, of "\<lambda>r. r"]
  show ?thesis by blast
qed

end
