(* ===== verification/Double.thy ===== *)
theory Double
  imports Cbor
begin

unbundle bit_operations_syntax

text \<open>
  The type \<open>double\<close> of the C sources: IEEE 754 binary64, with values represented by their bit
  patterns (the sources copy doubles to and from \<open>uint64_t\<close> byte for byte).  Comparisons,
  conversions and the four operations are executable: an operation is computed exactly on
  fractions of integers and rounded once, to nearest and ties to even.  A result that is not a
  number is the default quiet NaN.  The text conversion \<open>strtod\<close> of the C library and the
  numeric CBOR items of \<open>src/state/fleece_cbor.c\<close> follow.
\<close>

type_synonym double = u64

section \<open>Bit patterns\<close>

definition d_neg :: "double \<Rightarrow> bool" where
  "d_neg d = bit d 63"

definition d_mag :: "double \<Rightarrow> int" where
  "d_mag d = uint (take_bit 63 d)"

abbreviation d_inf_mag :: int where "d_inf_mag \<equiv> 0x7FF0000000000000"

definition d_of :: "bool \<Rightarrow> int \<Rightarrow> double" where
  "d_of neg m = (if neg then 0x8000000000000000 else 0) OR word_of_int m"

definition d_nan :: double where "d_nan = 0x7FF8000000000000"

definition is_nan :: "double \<Rightarrow> bool" where
  "is_nan d = (d_mag d > d_inf_mag)"

definition is_inf :: "double \<Rightarrow> bool" where
  "is_inf d = (d_mag d = d_inf_mag)"

definition is_zero :: "double \<Rightarrow> bool" where
  "is_zero d = (d_mag d = 0)"

text \<open>The magnitude of a finite number as a fraction: significand times a power of two.\<close>

definition d_expo :: "double \<Rightarrow> int" where
  "d_expo d = d_mag d div 0x10000000000000"

definition d_num :: "double \<Rightarrow> int" where
  "d_num d =
     (let e = d_expo d; f = d_mag d mod 0x10000000000000 in
      (if d_neg d then -1 else 1) *
      (if e = 0 then f else if e \<le> 1075 then f + 0x10000000000000 else (f + 0x10000000000000) * 2 ^ nat (e - 1075)))"

definition d_den :: "double \<Rightarrow> int" where
  "d_den d =
     (let e = d_expo d in if e = 0 then 2 ^ 1074 else if e \<le> 1075 then 2 ^ nat (1075 - e) else 1)"

section \<open>Comparison\<close>

text \<open>
  For numbers other than NaN the order of the values is the order of the magnitudes, taken with
  their sign; both zeros have the key 0.
\<close>

definition d_key :: "double \<Rightarrow> int" where
  "d_key d = (if d_neg d then - d_mag d else d_mag d)"

definition d_less :: "double \<Rightarrow> double \<Rightarrow> bool" where
  "d_less a b = (\<not> is_nan a \<and> \<not> is_nan b \<and> d_key a < d_key b)"

definition d_le :: "double \<Rightarrow> double \<Rightarrow> bool" where
  "d_le a b = (\<not> is_nan a \<and> \<not> is_nan b \<and> d_key a \<le> d_key b)"

definition d_eq :: "double \<Rightarrow> double \<Rightarrow> bool" where
  "d_eq a b = (\<not> is_nan a \<and> \<not> is_nan b \<and> d_key a = d_key b)"

section \<open>Rounding\<close>

function ilog2 :: "int \<Rightarrow> int" where
  "ilog2 n = (if n \<le> 1 then 0 else 1 + ilog2 (n div 2))"
  by pat_completeness auto

termination by (relation "measure nat") auto

declare ilog2.simps [simp del]

text \<open>The double nearest to the fraction \<open>n / d\<close> (both positive), ties to even; overflow gives infinity.\<close>

definition d_round :: "bool \<Rightarrow> int \<Rightarrow> int \<Rightarrow> double" where
  "d_round neg n d =
     (let k = ilog2 n - ilog2 d;
          below = (if k \<ge> 0 then n < d * 2 ^ nat k else n * 2 ^ nat (- k) < d);
          q = max ((if below then k - 1 else k) - 52) (-1074);
          (num, den) = (if q \<ge> 0 then (n, d * 2 ^ nat q) else (n * 2 ^ nat (- q), d));
          m = num div den; r = num mod den;
          m = (if 2 * r > den \<or> (2 * r = den \<and> odd m) then m + 1 else m)
      in d_of neg (min ((q + 1074) * 0x10000000000000 + m) d_inf_mag))"

text \<open>An exact result; \<open>zero_neg\<close> is the sign of the result when it is exactly zero.\<close>

definition d_exact :: "bool \<Rightarrow> int \<Rightarrow> int \<Rightarrow> double" where
  "d_exact zero_neg n d = (if n = 0 then d_of zero_neg 0 else d_round (n < 0) \<bar>n\<bar> d)"

section \<open>Arithmetic\<close>

text \<open>Adding a zero to another number is exact; an exact sum of opposite numbers is \<open>+0\<close>.\<close>

definition d_add :: "double \<Rightarrow> double \<Rightarrow> double" where
  "d_add a b =
     (if is_nan a \<or> is_nan b then d_nan
      else if is_inf a then (if is_inf b \<and> d_neg a \<noteq> d_neg b then d_nan else a)
      else if is_inf b then b
      else if is_zero a then (if is_zero b then d_of (d_neg a \<and> d_neg b) 0 else b)
      else if is_zero b then a
      else d_exact False (d_num a * d_den b + d_num b * d_den a) (d_den a * d_den b))"

definition d_minus :: "double \<Rightarrow> double" where
  "d_minus a = a XOR 0x8000000000000000"

definition d_sub :: "double \<Rightarrow> double \<Rightarrow> double" where
  "d_sub a b = d_add a (d_minus b)"

definition d_mul :: "double \<Rightarrow> double \<Rightarrow> double" where
  "d_mul a b =
     (let neg = (d_neg a \<noteq> d_neg b) in
      if is_nan a \<or> is_nan b then d_nan
      else if is_inf a \<or> is_inf b then (if is_zero a \<or> is_zero b then d_nan else d_of neg d_inf_mag)
      else d_exact neg (d_num a * d_num b) (d_den a * d_den b))"

definition d_div :: "double \<Rightarrow> double \<Rightarrow> double" where
  "d_div a b =
     (let neg = (d_neg a \<noteq> d_neg b) in
      if is_nan a \<or> is_nan b then d_nan
      else if is_inf a then (if is_inf b then d_nan else d_of neg d_inf_mag)
      else if is_inf b then d_of neg 0
      else if is_zero b then (if is_zero a then d_nan else d_of neg d_inf_mag)
      else d_exact neg (d_num a * d_den b * sgn (d_num b)) (d_den a * \<bar>d_num b\<bar>))"

text \<open>Conversions to and from 64-bit integers; the argument of the second is in range.\<close>

definition d_of_u64 :: "u64 \<Rightarrow> double" where
  "d_of_u64 v = d_exact False (uint v) 1"

definition u64_of_d :: "double \<Rightarrow> u64" where
  "u64_of_d d = word_of_int (d_num d div d_den d)"

abbreviation d_zero :: double where "d_zero \<equiv> 0"
abbreviation d_one :: double where "d_one \<equiv> 0x3FF0000000000000"
abbreviation d_two64 :: double where "d_two64 \<equiv> 0x43F0000000000000"

section \<open>Reading a number from text\<close>

text \<open>
  The function \<open>strtod\<close> of the C library in the C locale, on the characters of a string: leading
  white space, an optional sign, then infinity, NaN, a hexadecimal or a decimal number.  The
  result is the value with the characters left over, or \<open>None\<close> where nothing is converted.
\<close>

definition is_space :: "u8 \<Rightarrow> bool" where
  "is_space b = (b = 32 \<or> (9 \<le> b \<and> b \<le> 13))"

definition lower :: "u8 \<Rightarrow> u8" where
  "lower b = (if 65 \<le> b \<and> b \<le> 90 then b + 32 else b)"

definition dec_digit :: "u8 \<Rightarrow> bool" where
  "dec_digit b = (48 \<le> b \<and> b \<le> 57)"

definition hex_char :: "u8 \<Rightarrow> bool" where
  "hex_char b = (dec_digit b \<or> (97 \<le> lower b \<and> lower b \<le> 102))"

definition digit_val :: "u8 \<Rightarrow> int" where
  "digit_val b = (if dec_digit b then uint b - 48 else uint (lower b) - 87)"

definition digits_val :: "int \<Rightarrow> bytes \<Rightarrow> int" where
  "digits_val base ds = foldl (\<lambda>a d. a * base + digit_val d) 0 ds"

definition starts_ci :: "string \<Rightarrow> bytes \<Rightarrow> bool" where
  "starts_ci w s = (map lower (take (length w) s) = lit w)"

definition scan_sign :: "bytes \<Rightarrow> bool \<times> bytes" where
  "scan_sign s = (case s of b # t \<Rightarrow> if b = 45 then (True, t) else if b = 43 then (False, t) else (False, s)
                  | [] \<Rightarrow> (False, s))"

text \<open>Digits, an optional point, digits; \<open>None\<close> if there is no digit at all.\<close>

definition scan_mantissa :: "(u8 \<Rightarrow> bool) \<Rightarrow> bytes \<Rightarrow> (bytes \<times> bytes \<times> bytes) option" where
  "scan_mantissa P s =
     (let ds = takeWhile P s; t = dropWhile P s;
          (fs, t) = (case t of b # u \<Rightarrow> if b = 46 then (takeWhile P u, dropWhile P u) else ([], t) | [] \<Rightarrow> ([], t))
      in if ds = [] \<and> fs = [] then None else Some (ds, fs, t))"

definition scan_exponent :: "u8 \<Rightarrow> bytes \<Rightarrow> int \<times> bytes" where
  "scan_exponent mark s =
     (case s of
        [] \<Rightarrow> (0, s)
      | b # t \<Rightarrow>
          if lower b \<noteq> mark then (0, s)
          else let (neg, u) = scan_sign t; ds = takeWhile dec_digit u
               in if ds = [] then (0, s)
                  else ((if neg then -1 else 1) * digits_val 10 ds, dropWhile dec_digit u))"

definition scaled :: "bool \<Rightarrow> int \<Rightarrow> int \<Rightarrow> int \<Rightarrow> double" where
  "scaled neg m base e =
     (let m = (if neg then - m else m)
      in if e \<ge> 0 then d_exact neg (m * base ^ nat e) 1 else d_exact neg m (base ^ nat (- e)))"

definition scan_nan :: "bytes \<Rightarrow> bytes" where
  "scan_nan s =
     (case s of
        [] \<Rightarrow> s
      | b # t \<Rightarrow>
          let u = dropWhile (\<lambda>c. dec_digit c \<or> (97 \<le> lower c \<and> lower c \<le> 122) \<or> c = 95) t
          in if b = 40 \<and> u \<noteq> [] \<and> hd u = 41 then tl u else s)"

definition strtod :: "bytes \<Rightarrow> (double \<times> bytes) option" where
  "strtod str =
     (let (neg, s) = scan_sign (dropWhile is_space str) in
      if starts_ci ''infinity'' s then Some (d_of neg d_inf_mag, drop 8 s)
      else if starts_ci ''inf'' s then Some (d_of neg d_inf_mag, drop 3 s)
      else if starts_ci ''nan'' s then Some (d_nan, scan_nan (drop 3 s))
      else
        case (if starts_ci ''0x'' s then scan_mantissa hex_char (drop 2 s) else None) of
          Some (ds, fs, t) \<Rightarrow>
            let (e, t) = scan_exponent 112 t
            in Some (scaled neg (digits_val 16 (ds @ fs)) 2 (e - 4 * int (length fs)), t)
        | None \<Rightarrow>
            (case scan_mantissa dec_digit s of
               None \<Rightarrow> None
             | Some (ds, fs, t) \<Rightarrow>
                 let (e, t) = scan_exponent 101 t
                 in Some (scaled neg (digits_val 10 (ds @ fs)) 10 (e - int (length fs)), t)))"

section \<open>Numbers as CBOR items\<close>

text \<open>A non-negative integral number is written as an unsigned integer, any other as a float.\<close>

definition num_is_uint :: "double \<Rightarrow> bool" where
  "num_is_uint v = (d_le d_zero v \<and> d_less v d_two64 \<and> d_eq v (d_of_u64 (u64_of_d v)))"

definition fleece_cbor_num_size :: "double \<Rightarrow> nat" where
  "fleece_cbor_num_size v = (if num_is_uint v then fleece_cbor_uint_size (u64_of_d v) else 9)"

definition fleece_cbor_write_num :: "double \<Rightarrow> bytes" where
  "fleece_cbor_write_num v = (if num_is_uint v then fleece_cbor_write_uint (u64_of_d v) else 0xFB # be_bytes 8 v)"

definition fleece_cbor_read_num :: "bytes \<Rightarrow> nat \<Rightarrow> (double \<times> nat) option" where
  "fleece_cbor_read_num buf pos =
     (if pos \<ge> length buf then None
      else
        case fleece_cbor_read_head buf pos of
          None \<Rightarrow> None
        | Some (major, value, pos') \<Rightarrow>
            if major = 0 then Some (d_of_u64 value, pos')
            else if buf ! pos = 0xFB then Some (value, pos')
            else None)"

end
