(* ===== verification/Double_Proofs.thy ===== *)
theory Double_Proofs
  imports Double
begin

unbundle bit_operations_syntax

text \<open>
  Facts on doubles: bit patterns against magnitudes, the comparison against the values it
  compares, and the numeric CBOR items.
\<close>

section \<open>Bit patterns\<close>

lemma d_mag_bounds: "0 \<le> d_mag d" "d_mag d < 2 ^ 63"
proof -
  have "uint (take_bit 63 d) < 2 ^ 63"
    using take_bit_int_less_exp [of 63 "uint d"] by (simp add: unsigned_take_bit_eq)
  then show "d_mag d < 2 ^ 63" "0 \<le> d_mag d" by (simp_all add: d_mag_def)
qed

lemma d_bits_eq: "d_neg a = d_neg b \<Longrightarrow> d_mag a = d_mag b \<Longrightarrow> a = b"
proof (rule bit_word_eqI)
  fix n assume sign: "d_neg a = d_neg b" and "d_mag a = d_mag b" and n: "n < LENGTH(64)"
  then have "take_bit 63 a = take_bit 63 b" by (simp add: d_mag_def word_uint_eq_iff)
  then have "bit (take_bit 63 a) n = bit (take_bit 63 b) n" by simp
  then show "bit a n = bit b n"
    using sign n by (cases "n = 63") (auto simp: d_neg_def bit_simps)
qed

lemma d_eq_bits: "d_eq a b \<Longrightarrow> a = b \<or> is_zero a \<and> is_zero b"
proof -
  assume eq: "d_eq a b"
  have "is_zero a \<and> is_zero b \<or> d_neg a = d_neg b \<and> d_mag a = d_mag b"
    using eq d_mag_bounds(1) [of a] d_mag_bounds(1) [of b]
    by (auto simp: d_eq_def d_key_def is_zero_def split: if_splits)
  then show ?thesis using d_bits_eq by blast
qed

lemma zero_patterns: "is_zero d \<Longrightarrow> d = 0 \<or> d = 0x8000000000000000"
proof -
  assume "is_zero d"
  then have m: "d_mag d = 0" by (simp add: is_zero_def)
  have "d_mag 0 = 0" "d_mag 0x8000000000000000 = 0" "\<not> d_neg 0" "d_neg 0x8000000000000000" by code_simp+
  then show ?thesis using d_bits_eq [of d] m by (cases "d_neg d") auto
qed

section \<open>The order of the values\<close>

text \<open>The value of a magnitude in units of the smallest positive number.\<close>

definition mag_units :: "int \<Rightarrow> int" where
  "mag_units m = (let e = m div 0x10000000000000; f = m mod 0x10000000000000 in
     if e = 0 then f else (f + 0x10000000000000) * 2 ^ nat (e - 1))"

lemma mag_units_at:
  "0 \<le> f \<Longrightarrow> f < 0x10000000000000 \<Longrightarrow>
   mag_units (e * 0x10000000000000 + f) = (if e = 0 then f else (f + 0x10000000000000) * 2 ^ nat (e - 1))"
  by (simp add: mag_units_def Let_def)

lemma mag_units_step: "0 \<le> m \<Longrightarrow> mag_units m < mag_units (m + 1)"
proof -
  assume m: "0 \<le> m"
  define e f where "e = m div 0x10000000000000" and "f = m mod (0x10000000000000 :: int)"
  have mef: "m = e * 0x10000000000000 + f" and f: "0 \<le> f" "f < 0x10000000000000" and e: "0 \<le> e"
    using m by (simp_all add: e_def f_def)
  show ?thesis
  proof (cases "f + 1 < 0x10000000000000")
    case True
    then show ?thesis using f mag_units_at [of f e] mag_units_at [of "f + 1" e] by (simp add: mef add.assoc)
  next
    case False
    then have "f = 0x10000000000000 - 1" using f by simp
    moreover from this have "m + 1 = (e + 1) * 0x10000000000000 + 0" by (simp add: mef algebra_simps)
    moreover have "nat e = Suc (nat (e - 1))" if "e \<noteq> 0" using that e by simp
    ultimately show ?thesis
      using e mag_units_at [of f e] mag_units_at [of 0 "e + 1"] by (auto simp: mef add.commute)
  qed
qed

lemma mag_units_mono: "0 \<le> m \<Longrightarrow> m < m' \<Longrightarrow> mag_units m < mag_units m'"
proof (induction "nat (m' - m)" arbitrary: m')
  case 0
  then show ?case by simp
next
  case (Suc n)
  show ?case
  proof (cases "m' = m + 1")
    case True
    then show ?thesis using mag_units_step Suc.prems by simp
  next
    case False
    then have "mag_units m < mag_units (m' - 1)" using Suc by simp
    also have "\<dots> < mag_units m'" using mag_units_step [of "m' - 1"] Suc.prems False by simp
    finally show ?thesis .
  qed
qed

lemma d_value_units: "d_num d * 2 ^ 1074 = (if d_neg d then -1 else 1) * mag_units (d_mag d) * d_den d"
proof -
  define e where "e = d_mag d div 0x10000000000000"
  have e: "0 \<le> e" using d_mag_bounds(1) [of d] by (simp add: e_def)
  have small: "(2 :: int) ^ 1074 = 2 ^ nat (e - 1) * 2 ^ nat (1075 - e)" if "e \<noteq> 0" "e \<le> 1075"
  proof -
    have "nat (e - 1) + nat (1075 - e) = 1074" using that e by simp
    then show ?thesis by (metis power_add)
  qed
  have big: "(2 :: int) ^ nat (e - 1075) * 2 ^ 1074 = 2 ^ nat (e - 1)" if "\<not> e \<le> 1075"
  proof -
    have "nat (e - 1) = nat (e - 1075) + 1074" using that by simp
    then show ?thesis by (metis power_add)
  qed
  consider "e = 0" | "e \<noteq> 0" "e \<le> 1075" | "\<not> e \<le> 1075" by blast
  then show ?thesis
  proof cases
    case 1
    then show ?thesis
      using e_def by (simp add: d_num_def d_den_def mag_units_def d_expo_def Let_def del: power_numeral)
  next
    case 2
    then show ?thesis
      unfolding small [OF 2] using e_def by (simp add: d_num_def d_den_def mag_units_def d_expo_def Let_def)
  next
    case 3
    then show ?thesis
      using e_def big [OF 3] by (simp add: d_num_def d_den_def mag_units_def d_expo_def Let_def mult.assoc del: power_numeral)
  qed
qed

lemma d_den_pos: "0 < d_den d"
  by (simp add: d_den_def Let_def)

lemma d_key_value: "d_key a < d_key b \<longleftrightarrow> d_num a * d_den b < d_num b * d_den a"
proof -
  define u where "u d = (if d_neg d then -1 else 1) * mag_units (d_mag d)" for d
  have nn: "0 \<le> mag_units m" if "0 \<le> m" for m using that by (simp add: mag_units_def Let_def)
  have z: "mag_units 0 = 0" by (simp add: mag_units_def)
  have pos: "0 < mag_units m \<longleftrightarrow> 0 < m" if "0 \<le> m" for m using mag_units_mono [of 0 m] that z by (cases "m = 0") auto
  have mono: "mag_units m < mag_units m' \<longleftrightarrow> m < m'" if "0 \<le> m" "0 \<le> m'" for m m'
    using that mag_units_mono [of m m'] mag_units_mono [of m' m] by (cases m m' rule: linorder_cases) auto
  have "d_key a < d_key b \<longleftrightarrow> u a < u b"
  proof (cases "d_mag a = 0 \<or> d_mag b = 0")
    case True
    then show ?thesis
      using d_mag_bounds(1) [of a] d_mag_bounds(1) [of b] nn [of "d_mag a"] nn [of "d_mag b"] pos [of "d_mag a"] pos [of "d_mag b"] z
      by (auto simp: d_key_def u_def)
  next
    case False
    then show ?thesis
      using d_mag_bounds(1) [of a] d_mag_bounds(1) [of b] mono pos [of "d_mag a"] pos [of "d_mag b"]
      by (auto simp: d_key_def u_def)
  qed
  also have "\<dots> \<longleftrightarrow> u a * d_den a * d_den b < u b * d_den b * d_den a"
    using d_den_pos [of a] d_den_pos [of b] by (simp add: mult.assoc mult.commute [of "d_den a"])
  also have "\<dots> \<longleftrightarrow> d_num a * d_den b * 2 ^ 1074 < d_num b * d_den a * 2 ^ 1074"
    unfolding u_def d_value_units [symmetric] by (simp add: mult_ac)
  also have "\<dots> \<longleftrightarrow> d_num a * d_den b < d_num b * d_den a" by simp
  finally show ?thesis .
qed

text \<open>On finite numbers, \<open>a < b\<close> compares the fractions they stand for.\<close>

lemma d_less_value:
  "\<not> is_nan a \<Longrightarrow> \<not> is_nan b \<Longrightarrow> d_less a b \<longleftrightarrow> d_num a * d_den b < d_num b * d_den a"
  by (simp add: d_less_def d_key_value)

section \<open>Numbers other than NaN are totally preordered\<close>

lemma d_less_le: "\<not> is_nan a \<Longrightarrow> \<not> is_nan b \<Longrightarrow> d_less a b \<longleftrightarrow> \<not> d_le b a"
  by (auto simp: d_less_def d_le_def)

lemma d_le_trans: "d_le a b \<Longrightarrow> d_le b c \<Longrightarrow> d_le a c"
  by (auto simp: d_le_def)

lemma d_le_refl: "\<not> is_nan a \<Longrightarrow> d_le a a"
  by (simp add: d_le_def)

lemma d_le_total: "\<not> is_nan a \<Longrightarrow> \<not> is_nan b \<Longrightarrow> d_le a b \<or> d_le b a"
  by (auto simp: d_le_def)

section \<open>Numeric items\<close>

abbreviation d_minus_zero :: double where "d_minus_zero \<equiv> 0x8000000000000000"

lemma write_num_length [size_simps]: "length (fleece_cbor_write_num v) = fleece_cbor_num_size v"
  by (simp add: fleece_cbor_write_num_def fleece_cbor_num_size_def fleece_cbor_write_uint_def write_head_length)

lemma num_size_bound: "1 \<le> fleece_cbor_num_size v" "fleece_cbor_num_size v \<le> 9"
  using uint_size_bounds by (simp_all add: fleece_cbor_num_size_def)

lemma num_uint_back: "num_is_uint v \<Longrightarrow> v \<noteq> d_minus_zero \<Longrightarrow> d_of_u64 (u64_of_d v) = v"
proof -
  assume v: "num_is_uint v" "v \<noteq> d_minus_zero"
  then have "v = d_of_u64 (u64_of_d v) \<or> is_zero v"
    using d_eq_bits by (auto simp: num_is_uint_def)
  moreover have "d_of_u64 (u64_of_d 0) = 0" by code_simp
  ultimately show ?thesis using v(2) zero_patterns [of v] by auto
qed

lemma float_head:
  assumes d: "drop pos buf = 0xFB # be_bytes 8 v @ rest"
  shows "fleece_cbor_read_head buf pos = Some (7, v, pos + 9)"
proof -
  have "length (drop pos buf) \<ge> 9" by (simp add: d)
  then have len: "pos + 9 \<le> length buf" by simp
  have at: "buf ! pos = 0xFB" using d len by (metis nth_via_drop)
  have "drop (pos + 1) buf = be_bytes 8 v @ rest" using d by (metis Suc_eq_plus1 drop_Suc list.sel(3) tl_drop)
  then have "be_value (take 8 (drop (pos + 1) buf)) = v" by (simp add: be_value_be_bytes take_bit_word_eq_self)
  moreover have "drop_bit 5 (0xFB :: u8) = 7" "(0xFB :: u8) AND 0x1F = 27" by code_simp+
  ultimately show ?thesis using len at by (simp add: fleece_cbor_read_head_def Let_def)
qed

interpretation num_item: item_codec fleece_cbor_write_num fleece_cbor_read_num "\<lambda>v. v \<noteq> d_minus_zero"
proof
  fix v :: double and pos buf rest
  assume v: "v \<noteq> d_minus_zero" and d: "drop pos buf = fleece_cbor_write_num v @ rest"
  have pos: "\<not> length buf \<le> pos"
    using d num_size_bound(1) [of v] write_num_length [of v] by (metis append_is_Nil_conv drop_eq_Nil2 list.size(3) not_one_le_zero)
  show "fleece_cbor_read_num buf pos = Some (v, pos + length (fleece_cbor_write_num v))"
  proof (cases "num_is_uint v")
    case True
    then have "drop pos buf = fleece_cbor_write_head 0 (u64_of_d v) @ rest"
      using d by (simp add: fleece_cbor_write_num_def fleece_cbor_write_uint_def)
    then have "fleece_cbor_read_head buf pos = Some (0, u64_of_d v, pos + fleece_cbor_uint_size (u64_of_d v))"
      using read_head_at by simp
    then show ?thesis
      using True v pos num_uint_back by (simp add: fleece_cbor_read_num_def write_num_length fleece_cbor_num_size_def)
  next
    case False
    then have d': "drop pos buf = 0xFB # be_bytes 8 v @ rest" using d by (simp add: fleece_cbor_write_num_def)
    moreover have "buf ! pos = 0xFB" using d' by (rule nth_via_drop)
    ultimately show ?thesis
      using False pos float_head [OF d'] by (simp add: fleece_cbor_read_num_def write_num_length fleece_cbor_num_size_def)
  qed
qed

lemma read_num_bounds: "fleece_cbor_read_num buf pos = Some (v, pos') \<Longrightarrow> pos < pos' \<and> pos' \<le> length buf"
  using read_head_bounds by (fastforce simp: fleece_cbor_read_num_def split: if_splits option.splits)

end
