(* ===== verification/Goap_Blackboard.thy ===== *)
theory Goap_Blackboard
  imports Double_Proofs
begin

text \<open>
  The blackboard of the planner, \<open>src/planner/fleece_planner.c\<close>: an ordered array of named JSON
  fields with set, get, delete and clone, and the state key by which the search recognises a
  state it has seen.  The first \<open>count\<close> elements of the C array are the list of fields; counts
  and capacities are natural numbers (the 32-bit counters would wrap beyond two thousand million
  fields).  The small string and array helpers of the planner stand first.
\<close>

abbreviation FLEECE_GOAP_NAME_MAX :: nat where "FLEECE_GOAP_NAME_MAX \<equiv> 64"
abbreviation FLEECE_GOAP_SOURCE_MAX :: nat where "FLEECE_GOAP_SOURCE_MAX \<equiv> 2048"
abbreviation FLEECE_GOAP_NOTE_MAX :: nat where "FLEECE_GOAP_NOTE_MAX \<equiv> 128"
abbreviation sizeof_field :: nat where "sizeof_field \<equiv> 80"
abbreviation sizeof_ptr :: nat where "sizeof_ptr \<equiv> 8"

section \<open>Helpers\<close>

text \<open>The return code with what the destination holds afterwards; \<open>None\<close> is a NULL source.\<close>

definition copy_str :: "nat \<Rightarrow> bytes option \<Rightarrow> int \<times> bytes" where
  "copy_str dst_sz src =
     (case src of
        None \<Rightarrow> (0, [])
      | Some s \<Rightarrow> if length s \<ge> dst_sz then (-1, []) else (0, s))"

definition dup_str :: "allocator \<Rightarrow> bytes option \<Rightarrow> bytes option" where
  "dup_str A src =
     (let s = (case src of None \<Rightarrow> [] | Some s \<Rightarrow> s) in if A (length s + 1) then Some s else None)"

function grow_cap :: "nat \<Rightarrow> nat \<Rightarrow> nat" where
  "grow_cap new_cap needed = (if 0 < new_cap \<and> new_cap < needed then grow_cap (new_cap * 2) needed else new_cap)"
  by pat_completeness auto

termination by (relation "measure (\<lambda>(c, n). n - c)") auto

declare grow_cap.simps [simp del]

text \<open>The capacity afterwards, \<open>None\<close> where the reallocation fails.\<close>

definition ensure_cap :: "allocator \<Rightarrow> nat \<Rightarrow> nat \<Rightarrow> nat \<Rightarrow> nat option" where
  "ensure_cap A cap needed elem_size =
     (if needed \<le> cap then Some cap
      else let new_cap = grow_cap (if cap \<noteq> 0 then cap else 4) needed
           in if A (new_cap * elem_size) then Some new_cap else None)"

definition json_to_double :: "bytes option \<Rightarrow> double option" where
  "json_to_double json =
     (case json of
        None \<Rightarrow> None
      | Some js \<Rightarrow>
          if js = [] \<or> length js \<ge> 64 then None
          else case strtod (cstr js) of
            None \<Rightarrow> None
          | Some (v, rest) \<Rightarrow> if rest \<noteq> [] then None else Some v)"

section \<open>The blackboard\<close>

record FleeceGoapField =
  gf_name :: bytes
  gf_data :: "bytes option"
  gf_size :: u32
  gf_is_shared :: bool

record FleeceGoapBlackboard =
  bb_fields :: "FleeceGoapField list"
  bb_cap :: nat

definition bb_empty :: FleeceGoapBlackboard where
  "bb_empty = \<lparr>bb_fields = [], bb_cap = 0\<rparr>"

definition fleece_goap_bb_index :: "FleeceGoapBlackboard \<Rightarrow> bytes \<Rightarrow> nat option" where
  "fleece_goap_bb_index bb name = index_of (\<lambda>f. gf_name f = name) (bb_fields bb)"

text \<open>The data pointer and the size written through \<open>size\<close>.\<close>

definition fleece_goap_bb_get :: "FleeceGoapBlackboard \<Rightarrow> bytes \<Rightarrow> bytes option \<times> u32" where
  "fleece_goap_bb_get bb name =
     (case fleece_goap_bb_index bb name of
        None \<Rightarrow> (None, 0)
      | Some i \<Rightarrow> (gf_data (bb_fields bb ! i), gf_size (bb_fields bb ! i)))"

text \<open>
  A new field is appended before its value is copied: when that allocation fails the field stays
  behind without a value.
\<close>

definition bb_store :: "allocator \<Rightarrow> FleeceGoapBlackboard \<Rightarrow> nat \<Rightarrow> bytes \<Rightarrow> u32 \<Rightarrow> bool \<Rightarrow> int \<times> FleeceGoapBlackboard" where
  "bb_store A bb i data sz is_shared =
     (if \<not> A (unat sz) then (-1, bb)
      else (0, bb\<lparr>bb_fields := (bb_fields bb)
             [i := (bb_fields bb ! i)\<lparr>gf_data := Some (take (unat sz) data), gf_size := sz, gf_is_shared := is_shared\<rparr>]\<rparr>))"

definition fleece_goap_bb_set ::
    "allocator \<Rightarrow> FleeceGoapBlackboard \<Rightarrow> bytes option \<Rightarrow> bytes option \<Rightarrow> u32 \<Rightarrow> bool \<Rightarrow> int \<times> FleeceGoapBlackboard" where
  "fleece_goap_bb_set A bb name data sz is_shared =
     (case (name, data) of
        (Some nm, Some bs) \<Rightarrow>
          if sz = 0 then (-1, bb)
          else
            (case fleece_goap_bb_index bb nm of
               Some i \<Rightarrow> bb_store A bb i bs sz is_shared
             | None \<Rightarrow>
                 (case ensure_cap A (bb_cap bb) (length (bb_fields bb) + 1) sizeof_field of
                    None \<Rightarrow> (-1, bb)
                  | Some cap \<Rightarrow>
                      let (rc, stored) = copy_str FLEECE_GOAP_NAME_MAX (Some nm); bb = bb\<lparr>bb_cap := cap\<rparr> in
                      if rc \<noteq> 0 then (-1, bb)
                      else bb_store A
                             (bb\<lparr>bb_fields := bb_fields bb @
                                [\<lparr>gf_name = stored, gf_data = None, gf_size = 0, gf_is_shared = is_shared\<rparr>]\<rparr>)
                             (length (bb_fields bb)) bs sz is_shared))
      | _ \<Rightarrow> (-1, bb))"

definition fleece_goap_bb_delete :: "FleeceGoapBlackboard \<Rightarrow> bytes option \<Rightarrow> int \<times> FleeceGoapBlackboard" where
  "fleece_goap_bb_delete bb name =
     (case name of
        None \<Rightarrow> (-1, bb)
      | Some nm \<Rightarrow>
          (case fleece_goap_bb_index bb nm of
             None \<Rightarrow> (0, bb)
           | Some i \<Rightarrow> (0, bb\<lparr>bb_fields := take i (bb_fields bb) @ drop (i + 1) (bb_fields bb)\<rparr>)))"

definition fleece_goap_bb_release :: "FleeceGoapBlackboard \<Rightarrow> FleeceGoapBlackboard" where
  "fleece_goap_bb_release bb = bb_empty"

fun clone_loop :: "allocator \<Rightarrow> FleeceGoapField list \<Rightarrow> FleeceGoapBlackboard \<Rightarrow> int \<times> FleeceGoapBlackboard" where
  "clone_loop A [] dst = (0, dst)"
| "clone_loop A (f # fs) dst =
     (let (rc, dst') = fleece_goap_bb_set A dst (Some (gf_name f)) (gf_data f) (gf_size f) (gf_is_shared f) in
      if rc \<noteq> 0 then (-1, fleece_goap_bb_release dst') else clone_loop A fs dst')"

definition fleece_goap_bb_clone :: "allocator \<Rightarrow> FleeceGoapBlackboard \<Rightarrow> int \<times> FleeceGoapBlackboard" where
  "fleece_goap_bb_clone A src = clone_loop A (bb_fields src) bb_empty"

section \<open>State keys\<close>

text \<open>\<open>strcmp(a, b) > 0\<close>.\<close>

fun strcmp_gt :: "bytes \<Rightarrow> bytes \<Rightarrow> bool" where
  "strcmp_gt [] ys = False"
| "strcmp_gt (x # xs) [] = True"
| "strcmp_gt (x # xs) (y # ys) = (x > y \<or> (x = y \<and> strcmp_gt xs ys))"

definition name_after :: "FleeceGoapField \<Rightarrow> FleeceGoapField \<Rightarrow> bool" where
  "name_after a b = strcmp_gt (gf_name a) (gf_name b)"

definition gf_bytes :: "FleeceGoapField \<Rightarrow> bytes" where
  "gf_bytes f = (case gf_data f of None \<Rightarrow> [] | Some d \<Rightarrow> take (unat (gf_size f)) d)"

definition key_part :: "FleeceGoapField \<Rightarrow> bytes" where
  "key_part f = [if gf_is_shared f then 0x77 else 0x73, 0x3A] @ gf_name f @ [0x1F] @ gf_bytes f"

definition make_state_key :: "allocator \<Rightarrow> FleeceGoapBlackboard \<Rightarrow> (bytes \<times> u32) option" where
  "make_state_key A bb =
     (if \<not> A ((if bb_fields bb = [] then 1 else length (bb_fields bb)) * sizeof_ptr) then None
      else
        let sorted = insertion_sort name_after (bb_fields bb);
            total = sum_list (map (\<lambda>f. 2 + length (gf_name f) + 1 + unat (gf_size f)) sorted)
        in if \<not> A (if total \<noteq> 0 then total else 1) then None
           else let buf = concat (map key_part sorted) in Some (buf, of_nat (length buf)))"

end
