(* ===== verification/Goap_State.thy ===== *)
theory Goap_State
  imports Goap_Blackboard
begin

text \<open>
  Properties of the blackboard: it is a finite map from names to values, under its invariant, and
  the state key of a blackboard determines that map.
\<close>

section \<open>The interface: named values\<close>

text \<open>
  What the users of a blackboard rely on: a successful set is an update of the map, and nothing
  else is.  \<open>fits\<close> are the names the store accepts.
\<close>

locale field_map =
  fixes inv :: "'s \<Rightarrow> bool"
    and view :: "'s \<Rightarrow> 'k \<Rightarrow> 'v option"
    and set_to :: "'s \<Rightarrow> 'k \<Rightarrow> 'v \<Rightarrow> int \<times> 's"
    and fits :: "'k \<Rightarrow> 'v \<Rightarrow> bool"
  assumes set_inv: "inv s \<Longrightarrow> fits k v \<Longrightarrow> inv (snd (set_to s k v))"
    and set_view: "inv s \<Longrightarrow> fits k v \<Longrightarrow> fst (set_to s k v) = 0 \<Longrightarrow> view (snd (set_to s k v)) = (view s)(k \<mapsto> v)"
    and set_other: "inv s \<Longrightarrow> fits k v \<Longrightarrow> j \<noteq> k \<Longrightarrow> view (snd (set_to s k v)) j = view s j"
begin

lemma set_all:
  "inv s \<Longrightarrow> (\<forall>(k, v)\<in>set kvs. fits k v) \<Longrightarrow>
   (\<forall>(k, v)\<in>set kvs. \<forall>s. inv s \<longrightarrow> fst (set_to s k v) = 0) \<Longrightarrow>
   inv (foldl (\<lambda>s (k, v). snd (set_to s k v)) s kvs) \<and>
   view (foldl (\<lambda>s (k, v). snd (set_to s k v)) s kvs) = view s ++ map_of (rev kvs)"
proof (induction kvs arbitrary: s)
  case (Cons kv kvs)
  obtain k v where kv: "kv = (k, v)" by (cases kv)
  have fits: "fits k v" and rc: "fst (set_to s k v) = 0" using Cons.prems by (simp_all add: kv)
  note S = set_inv [OF Cons.prems(1) fits] set_view [OF Cons.prems(1) fits rc]
  from Cons.IH [OF S(1)] Cons.prems(2,3) show ?case
    by (simp add: kv S(2)) (simp add: fun_upd_def)
qed simp

end

section \<open>Invariant and abstraction\<close>

definition gf_ok :: "FleeceGoapField \<Rightarrow> bool" where
  "gf_ok f \<longleftrightarrow> length (gf_name f) < FLEECE_GOAP_NAME_MAX \<and>
     (case gf_data f of None \<Rightarrow> gf_size f = 0 | Some d \<Rightarrow> length d = unat (gf_size f) \<and> gf_size f \<noteq> 0)"

definition bb_ok :: "FleeceGoapBlackboard \<Rightarrow> bool" where
  "bb_ok bb \<longleftrightarrow> distinct (map gf_name (bb_fields bb)) \<and> (\<forall>f\<in>set (bb_fields bb). gf_ok f)"

definition gf_entry :: "FleeceGoapField \<Rightarrow> bytes \<times> bytes \<times> bool" where
  "gf_entry f = (gf_name f, gf_bytes f, gf_is_shared f)"

definition bb_view :: "FleeceGoapBlackboard \<Rightarrow> bytes \<Rightarrow> (bytes \<times> bool) option" where
  "bb_view bb = map_of (map gf_entry (bb_fields bb))"

lemma fst_gf_entry [simp]: "fst \<circ> gf_entry = gf_name"
  by (simp add: gf_entry_def fun_eq_iff)

lemma gf_bytes_ok: "gf_ok f \<Longrightarrow> gf_bytes f = (case gf_data f of None \<Rightarrow> [] | Some d \<Rightarrow> d)"
  by (auto simp: gf_ok_def gf_bytes_def split: option.splits)

lemma bb_index_Some:
  assumes "bb_ok bb"
  shows "fleece_goap_bb_index bb n = Some i \<longleftrightarrow> i < length (bb_fields bb) \<and> gf_name (bb_fields bb ! i) = n"
proof
  show "fleece_goap_bb_index bb n = Some i \<Longrightarrow> i < length (bb_fields bb) \<and> gf_name (bb_fields bb ! i) = n"
    unfolding fleece_goap_bb_index_def by (drule index_of_SomeD) simp
  assume "i < length (bb_fields bb) \<and> gf_name (bb_fields bb ! i) = n"
  then show "fleece_goap_bb_index bb n = Some i"
    unfolding fleece_goap_bb_index_def using assms
    by (intro index_of_unique) (auto simp: bb_ok_def distinct_conv_nth)
qed

lemma bb_index_None: "fleece_goap_bb_index bb n = None \<longleftrightarrow> n \<notin> gf_name ` set (bb_fields bb)"
  by (auto simp: fleece_goap_bb_index_def index_of_None_iff)

lemma bb_view_None: "bb_view bb n = None \<longleftrightarrow> fleece_goap_bb_index bb n = None"
  unfolding bb_index_None bb_view_def map_of_eq_None_iff by (simp add: image_image gf_entry_def)

lemma bb_view_nth:
  assumes "bb_ok bb" and "i < length (bb_fields bb)"
  shows "bb_view bb (gf_name (bb_fields bb ! i)) = Some (gf_bytes (bb_fields bb ! i), gf_is_shared (bb_fields bb ! i))"
  unfolding bb_view_def using assms
  by (intro map_of_is_SomeI) (auto simp: bb_ok_def gf_entry_def comp_def intro!: image_eqI [OF _ nth_mem])

lemma bb_get_view:
  assumes "bb_ok bb"
  shows "bb_view bb n = Some (d, sh) \<Longrightarrow> d \<noteq> [] \<Longrightarrow> fleece_goap_bb_get bb n = (Some d, of_nat (length d))"
    and "bb_view bb n = None \<Longrightarrow> fleece_goap_bb_get bb n = (None, 0)"
proof -
  show "fleece_goap_bb_get bb n = (None, 0)" if "bb_view bb n = None"
    using that by (simp add: bb_view_None fleece_goap_bb_get_def)
  assume v: "bb_view bb n = Some (d, sh)" and d: "d \<noteq> []"
  then obtain i where i: "fleece_goap_bb_index bb n = Some i" using bb_view_None [of bb n] by fastforce
  then have "i < length (bb_fields bb)" "gf_name (bb_fields bb ! i) = n" using bb_index_Some [OF assms] by auto
  then have "gf_bytes (bb_fields bb ! i) = d" "gf_ok (bb_fields bb ! i)"
    using bb_view_nth [OF assms] v assms by (fastforce simp: bb_ok_def)+
  then show "fleece_goap_bb_get bb n = (Some d, of_nat (length d))"
    using i d gf_bytes_ok by (auto simp: fleece_goap_bb_get_def gf_ok_def split: option.splits)
qed

section \<open>Set and delete\<close>

lemma bb_replace:
  assumes ok: "bb_ok bb" and i: "i < length (bb_fields bb)"
    and f: "gf_ok f" "gf_name f = gf_name (bb_fields bb ! i)"
    and bb': "bb' = bb\<lparr>bb_fields := (bb_fields bb)[i := f]\<rparr>"
  shows "bb_ok bb'" and "bb_view bb' = (bb_view bb)(gf_name f \<mapsto> (gf_bytes f, gf_is_shared f))"
proof -
  have names: "map gf_name (bb_fields bb') = map gf_name (bb_fields bb)"
    using f(2) by (simp add: bb' map_update list_update_same_conv i)
  show ok': "bb_ok bb'"
    using ok f(1) names by (auto simp: bb_ok_def bb' dest!: set_update_subset_insert [THEN subsetD])
  show "bb_view bb' = (bb_view bb)(gf_name f \<mapsto> (gf_bytes f, gf_is_shared f))"
  proof
    fix n
    show "bb_view bb' n = ((bb_view bb)(gf_name f \<mapsto> (gf_bytes f, gf_is_shared f))) n"
    proof (cases "fleece_goap_bb_index bb n")
      case None
      then have n: "n \<notin> gf_name ` set (bb_fields bb)" by (simp add: bb_index_None)
      have "gf_name ` set (bb_fields bb') = gf_name ` set (bb_fields bb)" using names by (metis list.set_map)
      moreover have "gf_name f \<in> gf_name ` set (bb_fields bb)" unfolding f(2) using i by (intro imageI nth_mem)
      ultimately have "bb_view bb n = None" "bb_view bb' n = None" "n \<noteq> gf_name f"
        using n by (auto simp only: bb_view_None bb_index_None)
      then show ?thesis by simp
    next
      case (Some j)
      then have j: "j < length (bb_fields bb)" "gf_name (bb_fields bb ! j) = n" using bb_index_Some [OF ok] by auto
      have nth: "bb_fields bb' ! j = (if i = j then f else bb_fields bb ! j)" using j(1) by (simp add: bb' nth_update_below)
      have name: "gf_name (bb_fields bb' ! j) = n" using j(2) f(2) by (simp add: nth)
      have len: "j < length (bb_fields bb')" using j by (simp add: bb')
      have dis: "n = gf_name f \<longleftrightarrow> i = j"
        unfolding f(2) j(2) [symmetric] using nth_eq_iff_index_eq [of "map gf_name (bb_fields bb)" j i] i j(1) ok
        by (auto simp: bb_ok_def)
      show ?thesis
        using bb_view_nth [OF ok' len, unfolded name] bb_view_nth [OF ok j(1), unfolded j(2)] dis
        by (auto simp: nth)
    qed
  qed
qed

lemma bb_append:
  assumes ok: "bb_ok bb" and new: "fleece_goap_bb_index bb (gf_name f) = None" and f: "gf_ok f"
    and bb': "bb' = bb\<lparr>bb_cap := c, bb_fields := bb_fields bb @ [f]\<rparr>"
  shows "bb_ok bb'" and "bb_view bb' = (bb_view bb)(gf_name f \<mapsto> (gf_bytes f, gf_is_shared f))"
proof -
  show "bb_ok bb'" using assms by (auto simp: bb_ok_def bb_index_None)
  have "gf_name f \<notin> dom (map_of (map gf_entry (bb_fields bb)))" using new bb_view_None [of bb] by (simp add: bb_view_def domIff)
  then show "bb_view bb' = (bb_view bb)(gf_name f \<mapsto> (gf_bytes f, gf_is_shared f))"
    by (auto simp: bb_view_def bb' gf_entry_def map_add_def fun_eq_iff split: option.splits)
qed

text \<open>Setting a name the blackboard does not have: it gets a field, or only room for one.\<close>

lemma bb_set_new:
  assumes ok: "bb_ok bb" and sz: "sz \<noteq> 0" "length d = unat sz" and new: "fleece_goap_bb_index bb n = None"
    and set: "fleece_goap_bb_set A bb (Some n) (Some d) sz sh = (rc, bb')"
  shows "bb_ok bb' \<and> (rc = 0 \<longrightarrow> bb_view bb' = (bb_view bb)(n \<mapsto> (d, sh))) \<and>
    (rc \<noteq> 0 \<longrightarrow> bb_view bb' = bb_view bb \<or> bb_view bb n = None \<and> bb_view bb' = (bb_view bb)(n \<mapsto> ([], sh))) \<and>
    ((\<forall>k. A k) \<longrightarrow> length n < FLEECE_GOAP_NAME_MAX \<or> bb_view bb n \<noteq> None \<longrightarrow> rc = 0)"
proof (cases "ensure_cap A (bb_cap bb) (length (bb_fields bb) + 1) sizeof_field")
  case None
  then show ?thesis using set new sz ok by (auto simp: fleece_goap_bb_set_def ensure_cap_def Let_def split: if_splits)
next
  case (Some c)
  show ?thesis
  proof (cases "length n < FLEECE_GOAP_NAME_MAX")
    case False
    then have "rc = -1" "bb' = bb\<lparr>bb_cap := c\<rparr>"
      using set new Some sz by (auto simp: fleece_goap_bb_set_def copy_str_def)
    then show ?thesis using ok False new bb_view_None [of bb n] by (auto simp: bb_ok_def bb_view_def)
  next
    case True
    let ?e = "\<lparr>gf_name = n, gf_data = None, gf_size = 0, gf_is_shared = sh\<rparr>"
    let ?f = "\<lparr>gf_name = n, gf_data = Some d, gf_size = sz, gf_is_shared = sh\<rparr>"
    let ?g = "\<lambda>f. bb\<lparr>bb_cap := c, bb_fields := bb_fields bb @ [f]\<rparr>"
    have ok2: "gf_ok ?e" "gf_ok ?f" "gf_bytes ?e = []" "gf_bytes ?f = d"
      using True sz by (simp_all add: gf_ok_def gf_bytes_def)
    have "(rc, bb') = (if A (unat sz) then (0, ?g ?f) else (-1, ?g ?e))"
      using set new Some sz True by (simp add: fleece_goap_bb_set_def copy_str_def bb_store_def Let_def split: if_splits)
    then show ?thesis
      using bb_append [OF ok _ ok2(1) refl] bb_append [OF ok _ ok2(2) refl] new ok2(3,4) bb_view_None [of bb n]
      by (auto split: if_splits)
  qed
qed

lemma bb_set_cases:
  assumes ok: "bb_ok bb" and sz: "sz \<noteq> 0" "length d = unat sz"
    and set: "fleece_goap_bb_set A bb (Some n) (Some d) sz sh = (rc, bb')"
  shows "bb_ok bb'" and "rc = 0 \<longrightarrow> bb_view bb' = (bb_view bb)(n \<mapsto> (d, sh))"
    and "rc \<noteq> 0 \<longrightarrow> bb_view bb' = bb_view bb \<or> bb_view bb n = None \<and> bb_view bb' = (bb_view bb)(n \<mapsto> ([], sh))"
    and "(\<forall>k. A k) \<longrightarrow> length n < FLEECE_GOAP_NAME_MAX \<or> bb_view bb n \<noteq> None \<longrightarrow> rc = 0"
proof -
  have "bb_ok bb' \<and> (rc = 0 \<longrightarrow> bb_view bb' = (bb_view bb)(n \<mapsto> (d, sh))) \<and>
    (rc \<noteq> 0 \<longrightarrow> bb_view bb' = bb_view bb \<or> bb_view bb n = None \<and> bb_view bb' = (bb_view bb)(n \<mapsto> ([], sh))) \<and>
    ((\<forall>k. A k) \<longrightarrow> length n < FLEECE_GOAP_NAME_MAX \<or> bb_view bb n \<noteq> None \<longrightarrow> rc = 0)"
  proof (cases "fleece_goap_bb_index bb n")
    case (Some i)
    then have i: "i < length (bb_fields bb)" "gf_name (bb_fields bb ! i) = n" using bb_index_Some [OF ok] by auto
    let ?f = "(bb_fields bb ! i)\<lparr>gf_data := Some d, gf_size := sz, gf_is_shared := sh\<rparr>"
    have f: "gf_ok ?f" "gf_name ?f = gf_name (bb_fields bb ! i)" "gf_bytes ?f = d"
      using ok i sz by (auto simp: bb_ok_def gf_ok_def gf_bytes_def)
    show ?thesis
      using set Some sz bb_replace [OF ok i(1) f(1,2) refl] f(3) i(2) ok
      by (auto simp: fleece_goap_bb_set_def bb_store_def split: if_splits)
  qed (rule bb_set_new [OF ok sz _ set])
  then show "bb_ok bb'" and "rc = 0 \<longrightarrow> bb_view bb' = (bb_view bb)(n \<mapsto> (d, sh))"
    and "rc \<noteq> 0 \<longrightarrow> bb_view bb' = bb_view bb \<or> bb_view bb n = None \<and> bb_view bb' = (bb_view bb)(n \<mapsto> ([], sh))"
    and "(\<forall>k. A k) \<longrightarrow> length n < FLEECE_GOAP_NAME_MAX \<or> bb_view bb n \<noteq> None \<longrightarrow> rc = 0"
    by blast+
qed

definition bb_put :: "allocator \<Rightarrow> FleeceGoapBlackboard \<Rightarrow> bytes \<Rightarrow> bytes \<times> bool \<Rightarrow> int \<times> FleeceGoapBlackboard" where
  "bb_put A bb n v = fleece_goap_bb_set A bb (Some n) (Some (fst v)) (of_nat (length (fst v))) (snd v)"

definition bb_value :: "bytes \<Rightarrow> bytes \<times> bool \<Rightarrow> bool" where
  "bb_value n v \<longleftrightarrow> fst v \<noteq> [] \<and> length (fst v) < 2 ^ 32"

lemma bb_value_size:
  "bb_value n v \<Longrightarrow> (of_nat (length (fst v)) :: u32) \<noteq> 0 \<and> length (fst v) = unat (of_nat (length (fst v)) :: u32)"
proof -
  assume v: "bb_value n v"
  then have u: "unat (of_nat (length (fst v)) :: u32) = length (fst v)" by (simp add: bb_value_def unat_of_nat_32)
  then have "unat (of_nat (length (fst v)) :: u32) \<noteq> 0" using v by (simp add: bb_value_def)
  then show ?thesis using u by auto
qed

interpretation blackboard: field_map bb_ok bb_view "bb_put A" bb_value for A
proof
  fix s k v j
  assume ok: "bb_ok s" and v: "bb_value k v"
  obtain rc s' where put: "bb_put A s k v = (rc, s')" by fastforce
  note C = bb_set_cases [OF ok bb_value_size [OF v, THEN conjunct1] bb_value_size [OF v, THEN conjunct2] put [unfolded bb_put_def]]
  show "bb_ok (snd (bb_put A s k v))" using C(1) by (simp add: put)
  show "fst (bb_put A s k v) = 0 \<Longrightarrow> bb_view (snd (bb_put A s k v)) = (bb_view s)(k \<mapsto> v)"
    using C(2) by (simp add: put)
  show "j \<noteq> k \<Longrightarrow> bb_view (snd (bb_put A s k v)) j = bb_view s j"
    using C(2,3) by (cases "rc = 0") (auto simp: put)
qed

lemma map_of_filter_neq: "map_of (filter (\<lambda>(k, v). k \<noteq> n) xs) = (map_of xs)(n := None)"
  by (induction xs) (auto simp: fun_eq_iff)

lemma filter_Cons_neq: "gf_name x = n \<Longrightarrow> filter (\<lambda>f. gf_name f \<noteq> n) (x # xs) = filter (\<lambda>f. gf_name f \<noteq> n) xs"
  by simp

lemma bb_delete_view:
  assumes ok: "bb_ok bb"
  shows "bb_ok (snd (fleece_goap_bb_delete bb (Some n)))"
    and "bb_view (snd (fleece_goap_bb_delete bb (Some n))) = (bb_view bb)(n := None)"
    and "fst (fleece_goap_bb_delete bb (Some n)) = 0"
proof -
  let ?fs = "bb_fields bb" and ?bb = "snd (fleece_goap_bb_delete bb (Some n))"
  have fs': "bb_fields ?bb = filter (\<lambda>f. gf_name f \<noteq> n) ?fs"
  proof (cases "fleece_goap_bb_index bb n")
    case None
    then show ?thesis using bb_index_None [of bb n] by (auto simp: fleece_goap_bb_delete_def intro!: filter_True [symmetric])
  next
    case (Some i)
    then have i: "i < length ?fs" "gf_name (?fs ! i) = n" using bb_index_Some [OF ok] by auto
    have ne: "gf_name (?fs ! j) \<noteq> n" if "j < length ?fs" "j \<noteq> i" for j
      using bb_index_Some [OF ok, of n j] Some that by simp
    have "filter (\<lambda>f. gf_name f \<noteq> n) (take i ?fs) = take i ?fs" "filter (\<lambda>f. gf_name f \<noteq> n) (drop (Suc i) ?fs) = drop (Suc i) ?fs"
      unfolding filter_id_conv
    proof -
      show "\<forall>f\<in>set (take i ?fs). gf_name f \<noteq> n"
      proof
        fix f assume "f \<in> set (take i ?fs)"
        then obtain k where "k < i" "f = ?fs ! k" by (auto simp: in_set_conv_nth)
        then show "gf_name f \<noteq> n" using ne [of k] i(1) by simp
      qed
      show "\<forall>f\<in>set (drop (Suc i) ?fs). gf_name f \<noteq> n"
      proof
        fix f assume "f \<in> set (drop (Suc i) ?fs)"
        then obtain k where "k < length ?fs - Suc i" "f = ?fs ! (Suc i + k)" by (auto simp: in_set_conv_nth)
        then show "gf_name f \<noteq> n" using ne [of "Suc i + k"] by simp
      qed
    qed
    moreover have "?fs = take i ?fs @ ?fs ! i # drop (Suc i) ?fs" using i by (simp add: id_take_nth_drop)
    ultimately have "filter (\<lambda>f. gf_name f \<noteq> n) ?fs = take i ?fs @ drop (Suc i) ?fs"
      using i(2) by (metis filter_Cons_neq filter_append)
    then show ?thesis using Some by (simp add: fleece_goap_bb_delete_def)
  qed
  show "bb_ok ?bb" using ok by (auto simp: bb_ok_def fs' distinct_map_filter)
  have "map gf_entry (filter (\<lambda>f. gf_name f \<noteq> n) ?fs) = filter (\<lambda>(k, v). k \<noteq> n) (map gf_entry ?fs)"
    by (simp add: filter_map comp_def gf_entry_def)
  then show "bb_view ?bb = (bb_view bb)(n := None)"
    by (simp add: bb_view_def fs' map_of_filter_neq)
  show "fst (fleece_goap_bb_delete bb (Some n)) = 0"
    by (simp add: fleece_goap_bb_delete_def split: option.splits)
qed

section \<open>Clone\<close>

lemma ensure_cap_total: "\<forall>k. A k \<Longrightarrow> \<exists>c. ensure_cap A cap needed sz = Some c"
  by (simp add: ensure_cap_def Let_def)

lemma clone_loop_exact:
  "\<forall>k. A k \<Longrightarrow> distinct (map gf_name (bb_fields dst @ fs)) \<Longrightarrow> (\<forall>f\<in>set fs. gf_ok f \<and> gf_data f \<noteq> None) \<Longrightarrow>
   \<exists>c. clone_loop A fs dst = (0, \<lparr>bb_fields = bb_fields dst @ fs, bb_cap = c\<rparr>)"
proof (induction fs arbitrary: dst)
  case Nil
  then show ?case by (intro exI [of _ "bb_cap dst"]) simp
next
  case (Cons f fs)
  obtain d where d: "gf_data f = Some d" "length d = unat (gf_size f)" "gf_size f \<noteq> 0" "length (gf_name f) < FLEECE_GOAP_NAME_MAX"
    using Cons.prems(3) by (auto simp: gf_ok_def)
  have "fleece_goap_bb_index dst (gf_name f) = None" using Cons.prems(2) by (auto simp: bb_index_None)
  moreover obtain c where "ensure_cap A (bb_cap dst) (length (bb_fields dst) + 1) sizeof_field = Some c"
    using ensure_cap_total [OF Cons.prems(1)] by blast
  ultimately have set: "fleece_goap_bb_set A dst (Some (gf_name f)) (gf_data f) (gf_size f) (gf_is_shared f) =
      (0, dst\<lparr>bb_cap := c, bb_fields := bb_fields dst @ [f]\<rparr>)"
    using d Cons.prems(1) by (simp add: fleece_goap_bb_set_def copy_str_def bb_store_def Let_def)
  let ?d = "dst\<lparr>bb_cap := c, bb_fields := bb_fields dst @ [f]\<rparr>"
  have "\<exists>c'. clone_loop A fs ?d = (0, \<lparr>bb_fields = bb_fields ?d @ fs, bb_cap = c'\<rparr>)"
    using Cons.prems(2,3) by (intro Cons.IH [OF Cons.prems(1)]) auto
  then show ?case by (simp add: set)
qed

text \<open>
  A blackboard is a map.  A set that returns 0 makes the value readable under its name and
  changes nothing else; a set that fails leaves every other name alone, and the name itself too
  except that a new name may stay behind without a value when only its value could not be
  allocated.  With memory available, every name shorter than 64 bytes can be set.  Deletion
  removes exactly the name.  A clone of a blackboard whose fields all have values has the same
  fields in the same order.
\<close>

theorem blackboard_laws:
  assumes ok: "bb_ok bb" and d: "d \<noteq> []" "length d < 2 ^ 32"
    and set: "fleece_goap_bb_set A bb (Some n) (Some d) (of_nat (length d)) sh = (rc, bb')"
  shows "bb_ok bb' \<and> (\<forall>m. m \<noteq> n \<longrightarrow> bb_view bb' m = bb_view bb m) \<and>
    (rc = 0 \<longrightarrow> bb_view bb' n = Some (d, sh) \<and> fleece_goap_bb_get bb' n = (Some d, of_nat (length d))) \<and>
    (rc \<noteq> 0 \<longrightarrow> bb_view bb' n = bb_view bb n \<or> bb_view bb n = None \<and> bb_view bb' n = Some ([], sh)) \<and>
    ((\<forall>k. A k) \<and> length n < FLEECE_GOAP_NAME_MAX \<longrightarrow> rc = 0) \<and>
    bb_view (snd (fleece_goap_bb_delete bb' (Some n))) = (bb_view bb)(n := None) \<and>
    ((\<forall>k. A k) \<and> (\<forall>f\<in>set (bb_fields bb). gf_data f \<noteq> None) \<longrightarrow>
      fst (fleece_goap_bb_clone A bb) = 0 \<and> bb_fields (snd (fleece_goap_bb_clone A bb)) = bb_fields bb)"
proof -
  have v: "bb_value n (d, sh)" using d by (simp add: bb_value_def)
  have put: "bb_put A bb n (d, sh) = (rc, bb')" using set by (simp add: bb_put_def)
  have ok': "bb_ok bb'" using blackboard.set_inv [OF ok v, of A] by (simp add: put)
  have other: "\<forall>m. m \<noteq> n \<longrightarrow> bb_view bb' m = bb_view bb m" using blackboard.set_other [OF ok v, of _ A] by (simp add: put)
  have new: "rc = 0 \<Longrightarrow> bb_view bb' n = Some (d, sh)" using blackboard.set_view [OF ok v, of A] by (simp add: put)
  have get: "rc = 0 \<Longrightarrow> fleece_goap_bb_get bb' n = (Some d, of_nat (length d))" using bb_get_view(1) [OF ok' new] d by simp
  have "(of_nat (length d) :: u32) \<noteq> 0" "length d = unat (of_nat (length d) :: u32)" using bb_value_size [OF v] by simp_all
  note C = bb_set_cases(3,4) [OF ok this set]
  have "bb_view (snd (fleece_goap_bb_delete bb' (Some n))) = (bb_view bb)(n := None)"
    using bb_delete_view(2) [OF ok'] other by auto
  moreover have "fst (fleece_goap_bb_clone A bb) = 0 \<and> bb_fields (snd (fleece_goap_bb_clone A bb)) = bb_fields bb"
    if "\<forall>k. A k" "\<forall>f\<in>set (bb_fields bb). gf_data f \<noteq> None"
    using clone_loop_exact [OF that(1), of bb_empty "bb_fields bb"] ok that(2)
    by (auto simp: fleece_goap_bb_clone_def bb_ok_def bb_empty_def)
  ultimately show ?thesis using ok' other new get C by fastforce
qed

definition demo_bb :: FleeceGoapBlackboard where
  "demo_bb = snd (fleece_goap_bb_set (\<lambda>_. True) bb_empty (Some (lit ''battery'')) (Some (lit ''80'')) 2 False)"

theorem blackboard_laws_witness:
  "fleece_goap_bb_get (snd (fleece_goap_bb_set (\<lambda>_. True) demo_bb (Some (lit ''at'')) (Some (lit ''1'')) 1 True)) (lit ''at'') =
    (Some (lit ''1''), 1)"
proof -
  have ok: "bb_ok demo_bb" by code_simp
  have len: "length (lit ''1'') = 1" "lit ''1'' \<noteq> []" by (simp_all add: lit_def)
  obtain rc bb' where set: "fleece_goap_bb_set (\<lambda>_. True) demo_bb (Some (lit ''at'')) (Some (lit ''1'')) (of_nat (length (lit ''1''))) True = (rc, bb')"
    by fastforce
  have "length (lit ''at'') < FLEECE_GOAP_NAME_MAX" by (simp add: lit_def)
  then show ?thesis using blackboard_laws [OF ok len(2) _ set] set len by auto
qed

section \<open>State keys\<close>

lemma strcmp_irrefl: "\<not> strcmp_gt xs xs"
  by (induction xs) auto

lemma strcmp_asym: "strcmp_gt xs ys \<Longrightarrow> \<not> strcmp_gt ys xs"
  by (induction xs ys rule: strcmp_gt.induct) auto

lemma strcmp_total: "\<not> strcmp_gt xs ys \<Longrightarrow> \<not> strcmp_gt ys xs \<Longrightarrow> xs = ys"
proof (induction xs ys rule: strcmp_gt.induct)
  case (1 ys)
  then show ?case by (cases ys) auto
next
  case (3 x xs y ys)
  then show ?case by (cases x y rule: linorder_cases) auto
qed auto

lemma strcmp_not_trans: "\<not> strcmp_gt xs ys \<Longrightarrow> \<not> strcmp_gt ys zs \<Longrightarrow> \<not> strcmp_gt xs zs"
proof (induction xs ys arbitrary: zs rule: strcmp_gt.induct)
  case (3 x xs y ys)
  then show ?case by (cases zs) (auto simp: not_less)
qed auto

interpretation key_sort: shift_order name_after
  by unfold_locales (auto simp: name_after_def dest: strcmp_asym strcmp_not_trans)

text \<open>A list sorted strictly is determined by its elements.\<close>

lemma sorted_wrt_unique:
  "sorted_wrt R xs \<Longrightarrow> sorted_wrt R ys \<Longrightarrow> set xs = set ys \<Longrightarrow> (\<And>a b. R a b \<Longrightarrow> \<not> R b a) \<Longrightarrow> xs = ys"
proof (induction xs arbitrary: ys)
  case (Cons x xs)
  then obtain y ys' where ys: "ys = y # ys'" by (cases ys) auto
  have "x = y"
  proof (rule ccontr)
    assume "x \<noteq> y"
    then have "x \<in> set ys'" "y \<in> set xs" using Cons.prems(3) ys by auto
    then show False using Cons.prems(1,2,4) ys by auto
  qed
  moreover have "x \<notin> set xs" "y \<notin> set ys'" using Cons.prems(1,2,4) ys by auto
  ultimately have "set xs = set ys'" using Cons.prems(3) ys by auto
  then show ?case using Cons ys \<open>x = y\<close> by simp
qed simp

definition entry_before :: "bytes \<times> bytes \<times> bool \<Rightarrow> bytes \<times> bytes \<times> bool \<Rightarrow> bool" where
  "entry_before a b = strcmp_gt (fst b) (fst a)"

lemma sorted_entries:
  assumes "bb_ok bb"
  shows "sorted_wrt entry_before (map gf_entry (insertion_sort name_after (bb_fields bb)))"
    and "set (map gf_entry (insertion_sort name_after (bb_fields bb))) = set (map gf_entry (bb_fields bb))"
proof -
  let ?s = "insertion_sort name_after (bb_fields bb)"
  have "mset (map gf_name ?s) = mset (map gf_name (bb_fields bb))" by simp
  then have dis: "distinct (map gf_name ?s)" using assms by (metis bb_ok_def mset_eq_imp_distinct_iff)
  have "sorted_wrt (\<lambda>a b. \<not> name_after a b) ?s" by (rule key_sort.sorted_insertion_sort)
  then have srt: "\<not> strcmp_gt (gf_name (?s ! i)) (gf_name (?s ! j))" if "i < j" "j < length ?s" for i j
    using that unfolding sorted_wrt_iff_nth_less name_after_def by blast
  have "strcmp_gt (gf_name (?s ! j)) (gf_name (?s ! i))" if "i < j" "j < length ?s" for i j
  proof -
    have "gf_name (?s ! i) \<noteq> gf_name (?s ! j)"
      using nth_eq_iff_index_eq [OF dis, of i j] that by simp
    then show ?thesis using strcmp_total srt [OF that] by blast
  qed
  then show "sorted_wrt entry_before (map gf_entry ?s)"
    unfolding sorted_wrt_iff_nth_less by (simp add: entry_before_def gf_entry_def)
  show "set (map gf_entry ?s) = set (map gf_entry (bb_fields bb))" by simp
qed

text \<open>Names without a colon, and neither names nor values with the separator byte.\<close>

definition clean_entry :: "bytes \<times> bytes \<times> bool \<Rightarrow> bool" where
  "clean_entry e \<longleftrightarrow> 0x3A \<notin> set (fst e) \<and> 0x1F \<notin> set (fst e) \<and> 0x1F \<notin> set (fst (snd e))"

definition entry_part :: "bytes \<times> bytes \<times> bool \<Rightarrow> bytes" where
  "entry_part e = [if snd (snd e) then 0x77 else 0x73, 0x3A] @ fst e @ [0x1F] @ fst (snd e)"

lemma key_part_entry: "key_part f = entry_part (gf_entry f)"
  by (simp add: key_part_def entry_part_def gf_entry_def)

lemma split_first: "xs @ z # ys = xs' @ z # ys' \<Longrightarrow> z \<notin> set xs \<Longrightarrow> z \<notin> set xs' \<Longrightarrow> xs = xs' \<and> ys = ys'"
proof (induction xs arbitrary: xs')
  case Nil
  then show ?case by (cases xs') auto
next
  case (Cons x xs)
  then obtain w ws where "xs' = w # ws" by (cases xs') auto
  then show ?case using Cons by auto
qed

lemma split_last: "xs @ z # ys = xs' @ z # ys' \<Longrightarrow> z \<notin> set ys \<Longrightarrow> z \<notin> set ys' \<Longrightarrow> xs = xs' \<and> ys = ys'"
  using split_first [of "rev ys" z "rev xs" "rev ys'" "rev xs'"] by (metis append.assoc append_Cons append_Nil rev.simps(2) rev_append rev_rev_ident set_rev)

lemma entries_unique:
  "\<forall>e\<in>set es \<union> set es'. clean_entry e \<Longrightarrow> 0x1F \<notin> set v \<Longrightarrow> 0x1F \<notin> set v' \<Longrightarrow>
   v @ concat (map entry_part es) = v' @ concat (map entry_part es') \<Longrightarrow> v = v' \<and> es = es'"
proof (induction es arbitrary: es' v v')
  case Nil
  then show ?case by (cases es') (auto simp: entry_part_def)
next
  case (Cons e es)
  then obtain e' fs where es': "es' = e' # fs" by (cases es') (auto simp: entry_part_def)
  obtain n d s where e: "e = (n, d, s)" by (cases e)
  obtain n' d' s' where e': "e' = (n', d', s')" by (cases e')
  let ?c = "\<lambda>s. if s then 0x77 else (0x73 :: u8)"
  have c: "0x3A \<notin> set n" "0x1F \<notin> set n" "0x1F \<notin> set d" "0x3A \<notin> set n'" "0x1F \<notin> set n'" "0x1F \<notin> set d'"
    using Cons.prems(1) by (auto simp: es' e e' clean_entry_def)
  have "(v @ [?c s, 0x3A] @ n) @ 0x1F # (d @ concat (map entry_part es)) =
      (v' @ [?c s', 0x3A] @ n') @ 0x1F # (d' @ concat (map entry_part fs))"
    using Cons.prems(4) by (simp add: es' e e' entry_part_def [of "(n, d, s)"] entry_part_def [of "(n', d', s')"])
  from split_first [OF this] have l: "v @ [?c s, 0x3A] @ n = v' @ [?c s', 0x3A] @ n'"
    and r: "d @ concat (map entry_part es) = d' @ concat (map entry_part fs)"
    using c Cons.prems(2,3) by auto
  have "(v @ [?c s]) @ 0x3A # n = (v' @ [?c s']) @ 0x3A # n'" using l by simp
  from split_last [OF this] have "v @ [?c s] = v' @ [?c s']" "n = n'" using c by auto
  then have "v = v'" "n = n'" "s = s'" by (auto split: if_splits)
  moreover have "d = d' \<and> es = fs" using Cons.IH [OF _ c(3,6) r] Cons.prems(1) by (auto simp: es')
  ultimately show ?case by (simp add: es' e e')
qed

lemma state_key_bytes:
  assumes "make_state_key A bb = Some k"
  shows "fst k = concat (map entry_part (map gf_entry (insertion_sort name_after (bb_fields bb))))"
    and "snd k = of_nat (length (fst k))"
proof -
  have "key_part = entry_part \<circ> gf_entry" by (simp add: fun_eq_iff key_part_entry)
  moreover obtain buf where "buf = concat (map key_part (insertion_sort name_after (bb_fields bb)))" "k = (buf, of_nat (length buf))"
    using assms by (simp add: make_state_key_def Let_def split: if_split_asm)
  ultimately show "fst k = concat (map entry_part (map gf_entry (insertion_sort name_after (bb_fields bb))))"
    "snd k = of_nat (length (fst k))" by simp_all
qed

text \<open>
  The state key is canonical.  For two blackboards whose names contain neither a colon nor the
  separator byte and whose values do not contain the separator (JSON text never does), the keys
  are equal exactly when both hold the same fields with the same values and namespaces, in
  whatever order the fields were written.
\<close>

theorem state_key_canonical:
  assumes ok: "bb_ok a" "bb_ok b" and clean: "\<forall>f\<in>set (bb_fields a) \<union> set (bb_fields b). clean_entry (gf_entry f)"
    and keys: "make_state_key A a = Some ka" "make_state_key A b = Some kb"
  shows "ka = kb \<longleftrightarrow> bb_view a = bb_view b"
proof -
  let ?es = "\<lambda>bb. map gf_entry (insertion_sort name_after (bb_fields bb))"
  have k: "fst ka = concat (map entry_part (?es a))" "fst kb = concat (map entry_part (?es b))"
    "snd ka = of_nat (length (fst ka))" "snd kb = of_nat (length (fst kb))"
    using state_key_bytes [OF keys(1)] state_key_bytes [OF keys(2)] by blast+
  have "ka = kb \<longleftrightarrow> fst ka = fst kb" using k(3,4) by (metis prod.expand)
  also have "\<dots> \<longleftrightarrow> ?es a = ?es b"
  proof
    assume "fst ka = fst kb"
    then show "?es a = ?es b" using entries_unique [of "?es a" "?es b" "[]" "[]"] clean unfolding k by auto
  qed (simp only: k)
  also have "\<dots> \<longleftrightarrow> set (map gf_entry (bb_fields a)) = set (map gf_entry (bb_fields b))"
    using sorted_entries [OF ok(1)] sorted_entries [OF ok(2)] sorted_wrt_unique [of entry_before "?es a" "?es b"] strcmp_asym
    by (metis entry_before_def)
  also have "\<dots> \<longleftrightarrow> bb_view a = bb_view b"
    unfolding bb_view_def using ok by (intro map_of_inject_set [symmetric]) (simp_all add: bb_ok_def)
  finally show ?thesis .
qed

definition demo_bb2 :: "bool \<Rightarrow> FleeceGoapBlackboard" where
  "demo_bb2 swap =
     (let put = (\<lambda>n v bb. snd (fleece_goap_bb_set (\<lambda>_. True) bb (Some n) (Some v) (of_nat (length v)) False));
          one = put (lit ''battery'') (lit ''80''); two = put (lit ''at'') (lit ''1'')
      in if swap then one (two bb_empty) else two (one bb_empty))"

theorem state_key_canonical_witness: "bb_view (demo_bb2 False) = bb_view (demo_bb2 True)"
proof -
  have ok: "bb_ok (demo_bb2 False)" "bb_ok (demo_bb2 True)" by code_simp+
  have clean: "\<forall>f\<in>set (bb_fields (demo_bb2 False)) \<union> set (bb_fields (demo_bb2 True)). clean_entry (gf_entry f)" by code_simp
  have "make_state_key (\<lambda>_. True) (demo_bb2 False) = make_state_key (\<lambda>_. True) (demo_bb2 True)" by code_simp
  moreover obtain k where "make_state_key (\<lambda>_. True) (demo_bb2 True) = Some k" by (simp add: make_state_key_def Let_def)
  ultimately show ?thesis using state_key_canonical [OF ok clean, of "\<lambda>_. True" k k] by simp
qed

end
