(* ===== verification/Goap_Search.thy ===== *)
theory Goap_Search
  imports Goap_State
begin

text \<open>
  The containers of the planner's search in \<open>src/planner/fleece_planner.c\<close>: the open-addressing
  hash set of visited state keys and the array heap ordered by \<open>f\<close>.  Each implements an abstract
  container: a bounded set of keys, and a priority queue.
\<close>

section \<open>The visited set\<close>

record VisitedEntry =
  ve_hash :: u64
  ve_key :: bytes
  ve_key_len :: u32
  ve_used :: bool

record VisitedSet =
  vs_slots :: "VisitedEntry list"
  vs_cap :: u32
  vs_count :: u32

definition fnv1a64 :: "bytes \<Rightarrow> u64" where
  "fnv1a64 data = foldl (\<lambda>h b. (h XOR ucast b) * 1099511628211) 1469598103934665603 data"

abbreviation sizeof_ventry :: nat where "sizeof_ventry \<equiv> 24"

definition zero_ventry :: VisitedEntry where
  "zero_ventry = \<lparr>ve_hash = 0, ve_key = [], ve_key_len = 0, ve_used = False\<rparr>"

definition visited_init :: "allocator \<Rightarrow> u32 \<Rightarrow> VisitedSet option" where
  "visited_init A max_nodes =
     (let cap = max_nodes * 2 + 1 in
      if \<not> A (unat cap * sizeof_ventry) then None
      else Some \<lparr>vs_slots = replicate (unat cap) zero_ventry, vs_cap = cap, vs_count = 0\<rparr>)"

text \<open>The probe loop; \<open>n\<close> is the number of probes left, \<open>slot\<close> is
  \<open>slot + probe\<close> in 32 bits.\<close>

fun visited_probe :: "VisitedSet \<Rightarrow> u64 \<Rightarrow> bytes \<Rightarrow> u32 \<Rightarrow> u32 \<Rightarrow> nat \<Rightarrow> bool \<times> VisitedSet" where
  "visited_probe vs h key key_len slot 0 = (False, vs)"
| "visited_probe vs h key key_len slot (Suc n) =
     (let i = unat (slot mod vs_cap vs); e = vs_slots vs ! i in
      if \<not> ve_used e then
        (True, vs\<lparr>vs_slots := (vs_slots vs)[i := \<lparr>ve_hash = h, ve_key = key, ve_key_len = key_len, ve_used = True\<rparr>],
                  vs_count := vs_count vs + 1\<rparr>)
      else if ve_hash e = h \<and> ve_key_len e = key_len \<and> take (unat key_len) (ve_key e) = take (unat key_len) key
        then (False, vs)
      else visited_probe vs h key key_len (slot + 1) n)"

definition visited_add :: "VisitedSet \<Rightarrow> bytes \<Rightarrow> u32 \<Rightarrow> bool \<times> VisitedSet" where
  "visited_add vs key key_len =
     (let h = fnv1a64 (take (unat key_len) key)
      in visited_probe vs h key key_len (ucast (h mod ucast (vs_cap vs))) (unat (vs_cap vs)))"

section \<open>The heap\<close>

record HeapEntry =
  he_f :: double
  he_idx :: nat

record Heap =
  hp_items :: "HeapEntry list"
  hp_cap :: nat

abbreviation sizeof_hentry :: nat where "sizeof_hentry \<equiv> 16"

text \<open>
  The two sift loops move a hole through the array: they return the array with the entries moved
  and the final position of the hole.
\<close>

function sift_up :: "HeapEntry list \<Rightarrow> nat \<Rightarrow> double \<Rightarrow> HeapEntry list \<times> nat" where
  "sift_up items i f =
     (if i > 0 then
        let parent = (i - 1) div 2 in
        if d_le (he_f (items ! parent)) f then (items, i)
        else sift_up (items[i := items ! parent]) parent f
      else (items, i))"
  by pat_completeness auto

termination by (relation "measure (\<lambda>(items, i, f). i)") auto

declare sift_up.simps [simp del]

definition heap_push :: "allocator \<Rightarrow> Heap \<Rightarrow> nat \<Rightarrow> double \<Rightarrow> int \<times> Heap" where
  "heap_push A hp idx f =
     (let full = (length (hp_items hp) = hp_cap hp);
          new_cap = (if \<not> full then hp_cap hp else if hp_cap hp \<noteq> 0 then hp_cap hp * 2 else 16)
      in if full \<and> \<not> A (new_cap * sizeof_hentry) then (-1, hp)
         else
           let e = \<lparr>he_f = f, he_idx = idx\<rparr>;
               (items, i) = sift_up (hp_items hp @ [e]) (length (hp_items hp)) f
           in (0, \<lparr>hp_items = items[i := e], hp_cap = new_cap\<rparr>))"

function sift_down :: "HeapEntry list \<Rightarrow> nat \<Rightarrow> double \<Rightarrow> HeapEntry list \<times> nat" where
  "sift_down items i f =
     (if i * 2 + 1 < length items then
        let l = i * 2 + 1; r = l + 1;
            m = (if r < length items \<and> d_less (he_f (items ! r)) (he_f (items ! l)) then r else l)
        in if d_le f (he_f (items ! m)) then (items, i)
           else sift_down (items[i := items ! m]) m f
      else (items, i))"
  by pat_completeness auto

termination by (relation "measure (\<lambda>(items, i, f). length items - i)") (auto simp: Let_def)

declare sift_down.simps [simp del]

definition heap_pop :: "Heap \<Rightarrow> (nat \<times> Heap) option" where
  "heap_pop hp =
     (case hp_items hp of
        [] \<Rightarrow> None
      | first # _ \<Rightarrow>
          let final = last (hp_items hp);
              (items, i) = sift_down (butlast (hp_items hp)) 0 (he_f final)
          in Some (he_idx first, hp\<lparr>hp_items := items[i := final]\<rparr>))"

section \<open>The interface of a priority queue\<close>

text \<open>Taking out elements one after the other.\<close>

fun drain :: "('q \<Rightarrow> ('e \<times> 'q) option) \<Rightarrow> nat \<Rightarrow> 'q \<Rightarrow> 'e list" where
  "drain pop 0 q = []"
| "drain pop (Suc n) q = (case pop q of None \<Rightarrow> [] | Some (e, q') \<Rightarrow> e # drain pop n q')"

locale min_queue =
  fixes inv :: "'q \<Rightarrow> bool"
    and elems :: "'q \<Rightarrow> 'e multiset"
    and push :: "'q \<Rightarrow> 'e \<Rightarrow> 'q"
    and pop :: "'q \<Rightarrow> ('e \<times> 'q) option"
    and le :: "'e \<Rightarrow> 'e \<Rightarrow> bool"
    and valid :: "'e \<Rightarrow> bool"
  assumes push_inv: "inv q \<Longrightarrow> valid e \<Longrightarrow> inv (push q e)"
    and push_elems: "inv q \<Longrightarrow> valid e \<Longrightarrow> elems (push q e) = add_mset e (elems q)"
    and pop_None: "inv q \<Longrightarrow> pop q = None \<longleftrightarrow> elems q = {#}"
    and pop_inv: "inv q \<Longrightarrow> pop q = Some (e, q') \<Longrightarrow> inv q'"
    and pop_elems: "inv q \<Longrightarrow> pop q = Some (e, q') \<Longrightarrow> elems q = add_mset e (elems q')"
    and pop_min: "inv q \<Longrightarrow> pop q = Some (e, q') \<Longrightarrow> x \<in># elems q \<Longrightarrow> le e x"
begin

lemma push_all:
  "inv q \<Longrightarrow> (\<forall>e\<in>set es. valid e) \<Longrightarrow> inv (foldl push q es) \<and> elems (foldl push q es) = elems q + mset es"
  by (induction es arbitrary: q) (auto simp: push_inv push_elems)

lemma drain_all:
  "inv q \<Longrightarrow> n = size (elems q) \<Longrightarrow> mset (drain pop n q) = elems q \<and> sorted_wrt le (drain pop n q)"
proof (induction n arbitrary: q)
  case 0
  then show ?case by simp
next
  case (Suc n)
  then have "pop q \<noteq> None" using pop_None by auto
  then obtain e q' where p: "pop q = Some (e, q')" by auto
  have el: "elems q = add_mset e (elems q')" by (rule pop_elems [OF Suc.prems(1) p])
  have IH: "mset (drain pop n q') = elems q' \<and> sorted_wrt le (drain pop n q')"
    using Suc.IH [OF pop_inv [OF Suc.prems(1) p]] Suc.prems(2) el by simp
  moreover have "\<forall>x\<in>set (drain pop n q'). le e x"
    using IH el pop_min [OF Suc.prems(1) p] by (metis set_mset_mset union_iff add_mset_add_single)
  ultimately show ?case by (simp add: p el)
qed

text \<open>Pushing a batch into an empty queue and draining it sorts the batch.\<close>

lemma push_drain:
  assumes "inv q" and "elems q = {#}" and "\<forall>e\<in>set es. valid e"
  shows "mset (drain pop (length es) (foldl push q es)) = mset es \<and> sorted_wrt le (drain pop (length es) (foldl push q es))"
  using push_all [OF assms(1,3)] assms(2) drain_all [of "foldl push q es"] by simp

end

section \<open>The heap is a priority queue\<close>

abbreviation par :: "nat \<Rightarrow> nat" where "par i \<equiv> (i - 1) div 2"

definition he_le :: "HeapEntry \<Rightarrow> HeapEntry \<Rightarrow> bool" where
  "he_le a b = d_le (he_f a) (he_f b)"

definition he_valid :: "HeapEntry \<Rightarrow> bool" where
  "he_valid e = (\<not> is_nan (he_f e))"

definition is_heap :: "HeapEntry list \<Rightarrow> bool" where
  "is_heap xs \<longleftrightarrow> (\<forall>e\<in>set xs. he_valid e) \<and> (\<forall>j. 0 < j \<and> j < length xs \<longrightarrow> he_le (xs ! par j) (xs ! j))"

lemma he_le_trans: "he_le a b \<Longrightarrow> he_le b c \<Longrightarrow> he_le a c"
  by (auto simp: he_le_def dest: d_le_trans)

lemma he_le_total: "he_valid a \<Longrightarrow> he_valid b \<Longrightarrow> \<not> he_le a b \<Longrightarrow> he_le b a"
  using d_le_total by (auto simp: he_le_def he_valid_def)

lemma heap_root:
  assumes "is_heap xs" and "i < length xs"
  shows "he_le (xs ! 0) (xs ! i)"
  using assms(2)
proof (induction i rule: less_induct)
  case (less i)
  show ?case
  proof (cases "i = 0")
    case True
    then show ?thesis using assms(1) less.prems by (auto simp: is_heap_def he_le_def he_valid_def intro!: d_le_refl)
  next
    case False
    then have "he_le (xs ! 0) (xs ! par i)" using less by simp
    moreover have "he_le (xs ! par i) (xs ! i)" using assms(1) less.prems False by (simp add: is_heap_def)
    ultimately show ?thesis by (rule he_le_trans)
  qed
qed

text \<open>The array with the entry \<open>e\<close> in the hole \<open>i\<close>, a heap but for the way up.\<close>

definition up_inv :: "HeapEntry list \<Rightarrow> nat \<Rightarrow> HeapEntry \<Rightarrow> bool" where
  "up_inv items i e \<longleftrightarrow> i < length items \<and> (\<forall>x\<in>set (items[i := e]). he_valid x) \<and>
     (\<forall>j. 0 < j \<and> j < length items \<and> j \<noteq> i \<longrightarrow> he_le (items[i := e] ! par j) (items[i := e] ! j)) \<and>
     (\<forall>j. 0 < j \<and> j < length items \<and> par j = i \<and> 0 < i \<longrightarrow> he_le (items ! par i) (items ! j))"

lemma mset_move: "i < length xs \<Longrightarrow> p < length xs \<Longrightarrow> i \<noteq> p \<Longrightarrow> mset (xs[i := xs ! p, p := e]) = mset (xs[i := e])"
proof -
  assume "i < length xs" "p < length xs" "i \<noteq> p"
  then have "xs[i := xs ! p, p := e] = (xs[i := e])[i := xs[i := e] ! p, p := xs[i := e] ! i]" by simp
  then show ?thesis
    using \<open>i < length xs\<close> \<open>p < length xs\<close> by (metis length_list_update mset_swap)
qed

lemma par_less: "0 < j \<Longrightarrow> par j < j"
  by simp

text \<open>
  One step up: the parent \<open>p\<close> of the hole \<open>i\<close> moves into it.  Every other entry is still not below its parent, and the
  children of the new hole are not below the parent of the new hole.
\<close>

lemma up_step_edge:
  assumes heap: "\<And>j q. 0 < j \<Longrightarrow> j < length items \<Longrightarrow> j \<noteq> i \<Longrightarrow> q = par j \<Longrightarrow> he_le (items[i := e] ! q) (items[i := e] ! j)"
    and kids: "\<And>j. 0 < j \<Longrightarrow> j < length items \<Longrightarrow> i = par j \<Longrightarrow> he_le (items ! p) (items ! j)"
    and len: "i < length items" "p < i" "p = par i" and le: "he_le e (items ! p)"
    and j: "0 < j" "j < length items" "j \<noteq> p" "q = par j" "q < j"
  shows "he_le (items[i := items ! p, p := e] ! q) (items[i := items ! p, p := e] ! j)"
proof -
  have y: "items[i := items ! p, p := e] ! k = (if k = p then e else if k = i then items ! p else items ! k)"
    and x: "items[i := e] ! k = (if k = i then e else items ! k)" if "k < length items" for k
    using that len(1,2) by (simp_all add: nth_list_update)
  have q: "q < length items" using j by simp
  note J = y [OF j(2)] y [OF q] x [OF j(2)] x [OF q]
  consider "j = i" | "j \<noteq> i" "q = i" | "j \<noteq> i" "q = p" | "j \<noteq> i" "q \<noteq> i" "q \<noteq> p" by blast
  then show ?thesis
  proof cases
    case 1
    then have "q = p" using j(4) len(3) by simp
    then show ?thesis using J le 1 j(3) by simp
  next
    case 2
    then have "he_le (items ! p) (items ! j)" using kids [OF j(1,2)] j(4) by blast
    then show ?thesis using J 2 j(3) len(2) by simp
  next
    case 3
    then have "he_le (items ! p) (items ! j)" using heap [OF j(1,2) _ j(4)] J len(2) by simp
    from he_le_trans [OF le this] show ?thesis using 3 J j(3) by simp
  next
    case 4
    then show ?thesis using heap [OF j(1,2) _ j(4)] J j(3) by simp
  qed
qed

lemma up_step_skip:
  assumes heap: "\<And>j q. 0 < j \<Longrightarrow> j < length items \<Longrightarrow> j \<noteq> i \<Longrightarrow> q = par j \<Longrightarrow> he_le (items[i := e] ! q) (items[i := e] ! j)"
    and len: "i < length items" "p < i" and j: "0 < j" "j < length items" "p = par j" "0 < p" "pp = par p" "pp < p"
  shows "he_le (items[i := items ! p] ! pp) (items[i := items ! p] ! j)"
proof -
  have p: "p < length items" using len by simp
  have up: "he_le (items ! pp) (items ! p)" using heap [OF j(4) p _ j(5)] j(6) len by (simp add: nth_list_update)
  show ?thesis
  proof (cases "j = i")
    case True
    then show ?thesis using up j(6) len by simp
  next
    case False
    then have "he_le (items ! p) (items ! j)" using heap [OF j(1,2) False j(3)] len p j(2) by (simp add: nth_list_update)
    from he_le_trans [OF up this] show ?thesis using False j(6) len by simp
  qed
qed

lemma up_step:
  assumes up: "up_inv items i e" and i: "0 < i" and no: "\<not> he_le (items ! par i) e"
  shows "up_inv (items[i := items ! par i]) (par i) e"
proof -
  define p where "p = par i"
  let ?x = "items[i := e]" and ?y = "items[i := items ! p, p := e]"
  have len: "i < length items" "p < i" "p < length items" and val: "\<forall>x\<in>set ?x. he_valid x" and no': "\<not> he_le (items ! p) e"
    using up i no by (auto simp: up_inv_def p_def)
  have heap: "he_le (?x ! q) (?x ! j)" if "0 < j" "j < length items" "j \<noteq> i" "q = par j" for j q
    using up that unfolding up_inv_def by blast
  have kids: "he_le (items ! p) (items ! j)" if "0 < j" "j < length items" "i = par j" for j
    using up that i unfolding up_inv_def p_def by metis
  have ve: "he_valid e" "he_valid (items ! p)"
    using val len set_update_memI [OF len(1)] nth_mem [of p ?x] by auto
  have le: "he_le e (items ! p)" using he_le_total [OF ve(2,1) no'] .
  have "mset ?y = mset ?x" using len by (intro mset_move) simp_all
  then have vy: "\<forall>e'\<in>set ?y. he_valid e'" using val mset_eq_setD [of ?y ?x] by simp
  have "up_inv (items[i := items ! p]) p e"
    unfolding up_inv_def length_list_update
  proof (intro conjI allI impI)
    fix j assume j: "0 < j \<and> j < length items \<and> j \<noteq> p"
    show "he_le (?y ! par j) (?y ! j)" by (rule up_step_edge [OF heap kids len(1,2) p_def le _ _ _ refl par_less]) (use j in simp_all)
  next
    fix j assume j: "0 < j \<and> j < length items \<and> par j = p \<and> 0 < p"
    show "he_le (items[i := items ! p] ! par p) (items[i := items ! p] ! j)"
      by (rule up_step_skip [OF heap len(1,2) _ _ _ _ refl par_less]) (use j in blast)+
  qed (use len(3) vy in blast)+
  then show ?thesis unfolding p_def .
qed

lemma sift_up_heap:
  "up_inv items i e \<Longrightarrow> sift_up items i (he_f e) = (items', i') \<Longrightarrow>
   is_heap (items'[i' := e]) \<and> mset (items'[i' := e]) = mset (items[i := e])"
proof (induction items i "he_f e" arbitrary: items' i' rule: sift_up.induct)
  case (1 items i)
  show ?case
  proof (cases "0 < i \<and> \<not> he_le (items ! par i) e")
    case True
    then have "sift_up (items[i := items ! par i]) (par i) (he_f e) = (items', i')"
      using 1(3) by (simp add: sift_up.simps [of items] he_le_def Let_def)
    then have "is_heap (items'[i' := e]) \<and> mset (items'[i' := e]) = mset (items[i := items ! par i, par i := e])"
      using 1(1) [OF _ refl] up_step [OF 1(2)] True by (simp add: he_le_def)
    moreover have "mset (items[i := items ! par i, par i := e]) = mset (items[i := e])"
      using True 1(2) by (intro mset_move) (auto simp: up_inv_def)
    ultimately show ?thesis by simp
  next
    case False
    then have r: "items' = items" "i' = i" using 1(3) by (auto simp: sift_up.simps [of items] he_le_def Let_def split: if_splits)
    have "he_le (items[i := e] ! par j) (items[i := e] ! j)" if "0 < j" "j < length items" for j
    proof (cases "j = i")
      case True
      then show ?thesis using False that by (simp add: nth_list_update)
    next
      case False
      then show ?thesis using 1(2) that by (simp add: up_inv_def)
    qed
    then show ?thesis using 1(2) by (simp add: r is_heap_def up_inv_def)
  qed
qed

text \<open>The array with the entry \<open>e\<close> in the hole \<open>i\<close>, a heap but for the way down.\<close>

definition down_inv :: "HeapEntry list \<Rightarrow> nat \<Rightarrow> HeapEntry \<Rightarrow> bool" where
  "down_inv items i e \<longleftrightarrow> i < length items \<and> (\<forall>x\<in>set (items[i := e]). he_valid x) \<and>
     (\<forall>j. 0 < j \<and> j < length items \<and> par j \<noteq> i \<longrightarrow> he_le (items[i := e] ! par j) (items[i := e] ! j)) \<and>
     (\<forall>j. 0 < j \<and> j < length items \<and> par j = i \<and> 0 < i \<longrightarrow> he_le (items ! par i) (items ! j))"

lemma children: "0 < j \<Longrightarrow> i = par j \<Longrightarrow> j = i * 2 + 1 \<or> j = i * 2 + 2"
  by (auto elim: oddE evenE simp: odd_two_times_div_two_succ)

definition min_child :: "HeapEntry list \<Rightarrow> nat \<Rightarrow> nat" where
  "min_child items i = (if i * 2 + 2 < length items \<and> d_less (he_f (items ! (i * 2 + 2))) (he_f (items ! (i * 2 + 1)))
     then i * 2 + 2 else i * 2 + 1)"

lemma d_less_imp_le: "d_less a b \<Longrightarrow> d_le a b"
  by (simp add: d_less_def d_le_def)

lemma min_child_props:
  assumes "i * 2 + 1 < length items" and val: "\<forall>j<length items. j \<noteq> i \<longrightarrow> he_valid (items ! j)"
  shows "i < min_child items i" "min_child items i < length items" "i = par (min_child items i)"
    and "0 < j \<Longrightarrow> j < length items \<Longrightarrow> i = par j \<Longrightarrow> he_le (items ! min_child items i) (items ! j)"
proof -
  show "i < min_child items i" "min_child items i < length items" "i = par (min_child items i)"
    using assms(1) by (auto simp: min_child_def)
  assume j: "0 < j" "j < length items" "i = par j"
  have jj: "j = i * 2 + 1 \<or> j = i * 2 + 2" using children j by blast
  have vl: "he_valid (items ! (i * 2 + 1))" using val assms(1) by simp
  have vj: "he_valid (items ! j)" using val j(2) jj by auto
  show "he_le (items ! min_child items i) (items ! j)"
    using jj vl vj j(2) d_less_imp_le d_le_refl
    by (auto simp: min_child_def he_le_def he_valid_def d_less_le)
qed

text \<open>One step down: the smaller child \<open>m\<close> of the hole \<open>i\<close> moves into it.\<close>

lemma down_step_edge:
  assumes heap: "\<And>j q. 0 < j \<Longrightarrow> j < length items \<Longrightarrow> q \<noteq> i \<Longrightarrow> q = par j \<Longrightarrow> he_le (items[i := e] ! q) (items[i := e] ! j)"
    and above: "\<And>j p. 0 < j \<Longrightarrow> j < length items \<Longrightarrow> i = par j \<Longrightarrow> 0 < i \<Longrightarrow> p = par i \<Longrightarrow> he_le (items ! p) (items ! j)"
    and kids: "\<And>j. 0 < j \<Longrightarrow> j < length items \<Longrightarrow> i = par j \<Longrightarrow> he_le (items ! m) (items ! j)"
    and m: "i < m" "m < length items" "i = par m" and le: "he_le (items ! m) e"
    and j: "0 < j" "j < length items" "q \<noteq> m" "q = par j" "q < j"
  shows "he_le (items[i := items ! m, m := e] ! q) (items[i := items ! m, m := e] ! j)"
proof -
  have y: "items[i := items ! m, m := e] ! k = (if k = m then e else if k = i then items ! m else items ! k)"
    and x: "items[i := e] ! k = (if k = i then e else items ! k)" if "k < length items" for k
    using that m(1,2) by (simp_all add: nth_list_update)
  have q: "q < length items" using j by simp
  note J = y [OF j(2)] y [OF q] x [OF j(2)] x [OF q]
  consider "j = m" | "j \<noteq> m" "q = i" | "j = i" "q \<noteq> i" | "j \<noteq> m" "j \<noteq> i" "q \<noteq> i" by blast
  then show ?thesis
  proof cases
    case 1
    then have "q = i" using m(3) j(4) by simp
    then show ?thesis using 1 J le m(1) by simp
  next
    case 2
    then have "he_le (items ! m) (items ! j)" using kids [OF j(1,2)] j(4) by blast
    then show ?thesis using 2 J j(3,5) by simp
  next
    case 3
    then have "he_le (items ! q) (items ! m)" using above [OF _ m(2,3)] j m(1) by simp
    then show ?thesis using 3 J j(3) m(1) by simp
  next
    case 4
    then show ?thesis using heap [OF j(1,2) _ j(4)] J j(3) by simp
  qed
qed

lemma down_step:
  assumes down: "down_inv items i e" and l: "i * 2 + 1 < length items" and m: "m = min_child items i" and no: "\<not> he_le e (items ! m)"
  shows "down_inv (items[i := items ! m]) m e"
proof -
  let ?x = "items[i := e]" and ?y = "items[i := items ! m, m := e]"
  have len: "i < length items" and val: "\<forall>x\<in>set ?x. he_valid x" using down by (auto simp: down_inv_def)
  have heap: "he_le (?x ! q) (?x ! j)" if "0 < j" "j < length items" "q \<noteq> i" "q = par j" for j q
    using down that unfolding down_inv_def by blast
  have above: "he_le (items ! p) (items ! j)" if "0 < j" "j < length items" "i = par j" "0 < i" "p = par i" for j p
    using down that unfolding down_inv_def by metis
  have "he_valid (items ! j)" if "j < length items" "j \<noteq> i" for j using that val nth_mem [of j ?x] by simp
  then have vals: "\<forall>j<length items. j \<noteq> i \<longrightarrow> he_valid (items ! j)" by blast
  have ve: "he_valid e" using val set_update_memI [OF len] by blast
  note M = min_child_props [OF l vals, folded m]
  have le: "he_le (items ! m) e" using he_le_total [OF ve _ no] vals M(1,2) by simp
  have two: "he_le (items[i := items ! m] ! p) (items[i := items ! m] ! j)"
    if j: "0 < j" "j < length items" "m = par j" "m < j" "p = par m" for j p
  proof -
    have "p = i" using M(3) j(5) by simp
    moreover have "he_le (items ! m) (items ! j)" using heap [OF j(1,2) _ j(3)] M(1,2) j(2,4) by (simp add: nth_list_update)
    ultimately show ?thesis using len j(4) M(1) by simp
  qed
  have "mset ?y = mset ?x" using len M(1,2) by (intro mset_move) simp_all
  then have vy: "\<forall>e'\<in>set ?y. he_valid e'" using val mset_eq_setD [of ?y ?x] by simp
  show ?thesis
    unfolding down_inv_def length_list_update
  proof (intro conjI allI impI)
    fix j assume j: "0 < j \<and> j < length items \<and> par j \<noteq> m"
    show "he_le (?y ! par j) (?y ! j)" by (rule down_step_edge [OF heap above M(4,1,2,3) le _ _ _ refl par_less]) (use j in blast)+
  next
    fix j assume j: "0 < j \<and> j < length items \<and> par j = m \<and> 0 < m"
    show "he_le (items[i := items ! m] ! par m) (items[i := items ! m] ! j)"
      by (rule two [OF _ _ _ _ refl]) (use j par_less [of j] in blast)+
  qed (use M(2) vy in blast)+
qed

lemma sift_down_heap:
  "down_inv items i e \<Longrightarrow> sift_down items i (he_f e) = (items', i') \<Longrightarrow>
   is_heap (items'[i' := e]) \<and> mset (items'[i' := e]) = mset (items[i := e])"
proof (induction "length items - i" arbitrary: items i items' i' rule: less_induct)
  case (less items i)
  let ?m = "min_child items i"
  have unf: "sift_down items i (he_f e) = (if i * 2 + 1 < length items \<and> \<not> he_le e (items ! ?m)
      then sift_down (items[i := items ! ?m]) ?m (he_f e) else (items, i))"
    by (simp add: sift_down.simps [of items] min_child_def he_le_def Let_def)
  have vals: "\<forall>j<length items. j \<noteq> i \<longrightarrow> he_valid (items ! j)"
  proof (intro allI impI)
    fix j assume "j < length items" "j \<noteq> i"
    then show "he_valid (items ! j)" using less.prems(1) nth_mem [of j "items[i := e]"] by (simp add: down_inv_def)
  qed
  show ?case
  proof (cases "i * 2 + 1 < length items \<and> \<not> he_le e (items ! ?m)")
    case True
    then have step: "sift_down (items[i := items ! ?m]) ?m (he_f e) = (items', i')" using less.prems(2) unf by simp
    have d: "down_inv (items[i := items ! ?m]) ?m e" using down_step [OF less.prems(1) _ refl] True by blast
    have "is_heap (items'[i' := e]) \<and> mset (items'[i' := e]) = mset (items[i := items ! ?m, ?m := e])"
      using True min_child_props(1,2) [OF _ vals] by (intro less.hyps [OF _ d step]) fastforce
    moreover have "mset (items[i := items ! ?m, ?m := e]) = mset (items[i := e])"
      using less.prems(1) min_child_props(1,2) [OF _ vals] True by (intro mset_move) (auto simp: down_inv_def)
    ultimately show ?thesis by simp
  next
    case False
    then have r: "items' = items" "i' = i" using less.prems(2) unf by auto
    have "he_le (items[i := e] ! q) (items[i := e] ! j)" if j: "0 < j" "j < length items" "q = par j" "q < j" for j q
    proof (cases "q = i")
      case True
      then have l: "i * 2 + 1 < length items" using children [OF j(1)] j by fastforce
      then have "he_le e (items ! ?m)" using False by blast
      moreover have "he_le (items ! ?m) (items ! j)" using min_child_props(4) [OF l vals j(1,2)] True j(3) by blast
      ultimately have "he_le e (items ! j)" by (rule he_le_trans)
      then show ?thesis using True j by (simp add: nth_list_update)
    next
      case False
      then show ?thesis using less.prems(1) j unfolding down_inv_def by blast
    qed
    then show ?thesis using less.prems(1) par_less unfolding r is_heap_def down_inv_def length_list_update by blast
  qed
qed

end
