(* ===== verification/Goap_Containers.thy ===== *)
theory Goap_Containers
  imports Goap_Search
begin

text \<open>
  The heap implements the priority queue interface, and the visited set implements a bounded set.
\<close>

section \<open>The heap\<close>

definition heap_empty :: Heap where
  "heap_empty = \<lparr>hp_items = [], hp_cap = 0\<rparr>"

definition heap_put :: "allocator \<Rightarrow> Heap \<Rightarrow> HeapEntry \<Rightarrow> Heap" where
  "heap_put A hp e = snd (heap_push A hp (he_idx e) (he_f e))"

definition heap_take :: "Heap \<Rightarrow> (HeapEntry \<times> Heap) option" where
  "heap_take hp = (case heap_pop hp of None \<Rightarrow> None | Some (_, hp') \<Rightarrow> Some (hd (hp_items hp), hp'))"

lemma is_heap_snoc_up: "is_heap xs \<Longrightarrow> he_valid e \<Longrightarrow> up_inv (xs @ [e]) (length xs) e"
  unfolding up_inv_def is_heap_def
proof (intro conjI allI impI)
  assume h: "(\<forall>e\<in>set xs. he_valid e) \<and> (\<forall>j. 0 < j \<and> j < length xs \<longrightarrow> he_le (xs ! par j) (xs ! j))" and e: "he_valid e"
  show "length xs < length (xs @ [e])" by simp
  show "\<forall>x\<in>set ((xs @ [e])[length xs := e]). he_valid x" using h e by simp
  fix j assume j: "0 < j \<and> j < length (xs @ [e]) \<and> j \<noteq> length xs"
  then have "par j < length xs" "j < length xs" by auto
  then show "he_le ((xs @ [e])[length xs := e] ! par j) ((xs @ [e])[length xs := e] ! j)"
    using h j by (simp add: nth_append)
next
  fix j assume "0 < j \<and> j < length (xs @ [e]) \<and> par j = length xs \<and> 0 < length xs"
  then have "j < Suc (length xs)" "length xs < j" using par_less [of j] by auto
  then show "he_le ((xs @ [e]) ! par (length xs)) ((xs @ [e]) ! j)" by simp
qed

lemma heap_push_ok:
  assumes h: "is_heap (hp_items hp)" and f: "\<not> is_nan f" and p: "heap_push A hp idx f = (rc, hp')"
  shows "(rc = 0 \<longrightarrow> is_heap (hp_items hp') \<and> mset (hp_items hp') = add_mset \<lparr>he_f = f, he_idx = idx\<rparr> (mset (hp_items hp))) \<and>
    (rc \<noteq> 0 \<longrightarrow> hp' = hp) \<and> ((\<forall>k. A k) \<longrightarrow> rc = 0)"
proof -
  let ?e = "\<lparr>he_f = f, he_idx = idx\<rparr>"
  obtain items i where s: "sift_up (hp_items hp @ [?e]) (length (hp_items hp)) f = (items, i)" by fastforce
  have "up_inv (hp_items hp @ [?e]) (length (hp_items hp)) ?e" using h f by (intro is_heap_snoc_up) (simp_all add: he_valid_def)
  from sift_up_heap [OF this] s have "is_heap (items[i := ?e])" "mset (items[i := ?e]) = add_mset ?e (mset (hp_items hp))" by simp_all
  then show ?thesis using p s by (auto simp: heap_push_def Let_def split: if_splits)
qed

lemma heap_pop_ok:
  assumes h: "is_heap (hp_items hp)" and p: "heap_pop hp = Some (idx, hp')"
  shows "is_heap (hp_items hp')" and "hp_items hp \<noteq> []" "idx = he_idx (hd (hp_items hp))"
    and "mset (hp_items hp) = add_mset (hd (hp_items hp)) (mset (hp_items hp'))"
    and "x \<in> set (hp_items hp) \<Longrightarrow> he_le (hd (hp_items hp)) x"
proof -
  let ?xs = "hp_items hp"
  show ne: "?xs \<noteq> []" "idx = he_idx (hd ?xs)" using p by (auto simp: heap_pop_def Let_def split: list.splits prod.splits)
  show "he_le (hd ?xs) x" if "x \<in> set ?xs" for x
    using that heap_root [OF h] ne(1) by (auto simp: in_set_conv_nth hd_conv_nth)
  let ?b = "butlast ?xs" and ?e = "last ?xs"
  obtain items i where s: "sift_down ?b 0 (he_f ?e) = (items, i)" by fastforce
  have hp': "hp_items hp' = items[i := ?e]" using p s by (auto simp: heap_pop_def split: list.splits)
  have val: "\<forall>x\<in>set ?xs. he_valid x" using h by (simp add: is_heap_def)
  have "is_heap (items[i := ?e]) \<and> mset (items[i := ?e]) = mset (?b[0 := ?e])"
  proof (cases "?b = []")
    case True
    then show ?thesis using s by (simp add: sift_down.simps is_heap_def)
  next
    case False
    have "down_inv ?b 0 ?e"
      unfolding down_inv_def
    proof (intro conjI allI impI)
      show "0 < length ?b" using False by (rule length_greater_0_conv [THEN iffD2])
      show "\<forall>x\<in>set (?b[0 := ?e]). he_valid x"
        using val ne(1) by (auto dest!: set_update_subset_insert [THEN subsetD] in_set_butlastD)
      fix j assume j: "0 < j \<and> j < length ?b \<and> par j \<noteq> 0"
      then have "j < length ?xs" "par j < length ?b" by auto
      then have "he_le (?xs ! par j) (?xs ! j)" "?b ! j = ?xs ! j" "?b ! par j = ?xs ! par j"
        using h j by (auto simp: is_heap_def nth_butlast)
      then show "he_le (?b[0 := ?e] ! par j) (?b[0 := ?e] ! j)" using j by simp
    qed simp
    then show ?thesis using sift_down_heap s by blast
  qed
  then show "is_heap (hp_items hp')" and "mset ?xs = add_mset (hd ?xs) (mset (hp_items hp'))"
  proof -
    assume hm: "is_heap (items[i := ?e]) \<and> mset (items[i := ?e]) = mset (?b[0 := ?e])"
    then show "is_heap (hp_items hp')" by (simp add: hp')
    have xs: "mset ?xs = add_mset ?e (mset ?b)" using ne(1) by (metis append_butlast_last_id mset.simps(1,2) mset_append union_mset_add_mset_right add.right_neutral)
    show "mset ?xs = add_mset (hd ?xs) (mset (hp_items hp'))"
    proof (cases "?b")
      case Nil
      then have "?xs = [?e]" using ne(1) by (metis append_butlast_last_id append_Nil)
      then show ?thesis using hm Nil by (metis hp' list.sel(1) list_update_nonempty mset.simps(1) xs)
    next
      case (Cons b bs)
      then have "hd ?xs = b" by (metis butlast.simps(2) hd_Cons_tl list.sel(1) butlast.simps(1) list.distinct(1))
      then show ?thesis using xs hm hp' Cons by simp
    qed
  qed
qed

interpretation search_heap: min_queue "\<lambda>hp. is_heap (hp_items hp)" "\<lambda>hp. mset (hp_items hp)" "heap_put (\<lambda>_. True)" heap_take he_le he_valid
proof
  fix q :: Heap and e x q'
  assume h: "is_heap (hp_items q)"
  show "is_heap (hp_items (heap_put (\<lambda>_. True) q e))" "mset (hp_items (heap_put (\<lambda>_. True) q e)) = add_mset e (mset (hp_items q))"
    if "he_valid e"
  proof -
    obtain rc q1 where p: "heap_push (\<lambda>_. True) q (he_idx e) (he_f e) = (rc, q1)" by fastforce
    have "\<not> is_nan (he_f e)" using that by (simp add: he_valid_def)
    note P = heap_push_ok [OF h this p]
    show "is_heap (hp_items (heap_put (\<lambda>_. True) q e))" "mset (hp_items (heap_put (\<lambda>_. True) q e)) = add_mset e (mset (hp_items q))"
      using P by (simp_all add: heap_put_def p)
  qed
  show "(heap_take q = None) = (mset (hp_items q) = {#})"
  proof (cases "hp_items q")
    case Nil
    then show ?thesis by (simp add: heap_take_def heap_pop_def)
  next
    case (Cons y ys)
    obtain items i where "sift_down (butlast (hp_items q)) 0 (he_f (last (hp_items q))) = (items, i)" by fastforce
    then show ?thesis using Cons by (simp add: heap_take_def heap_pop_def Let_def)
  qed
  assume "heap_take q = Some (e, q')"
  then obtain i where p: "heap_pop q = Some (i, q')" and e: "e = hd (hp_items q)" by (auto simp: heap_take_def split: option.splits)
  show "is_heap (hp_items q')" "mset (hp_items q) = add_mset e (mset (hp_items q'))" using heap_pop_ok(1,4) [OF h p] e by simp_all
  show "x \<in># mset (hp_items q) \<Longrightarrow> he_le e x" using heap_pop_ok(5) [OF h p] e by simp
qed

lemma drain_pop: "drain heap_pop n hp = map he_idx (drain heap_take n hp)"
proof (induction n arbitrary: hp)
  case (Suc n)
  have "he_idx (hd (hp_items hp)) = i" if "heap_pop hp = Some (i, hp')" for i hp'
    using that by (auto simp: heap_pop_def Let_def split: list.splits prod.splits)
  then show ?case using Suc by (auto simp: heap_take_def split: option.splits)
qed simp

text \<open>The calls a search makes on its heap, with the allocator each push meets.\<close>

datatype heap_op = Push allocator nat double | Pop

fun heap_run :: "heap_op list \<Rightarrow> Heap \<Rightarrow> Heap" where
  "heap_run [] hp = hp"
| "heap_run (Push A idx f # ops) hp = heap_run ops (snd (heap_push A hp idx f))"
| "heap_run (Pop # ops) hp = heap_run ops (case heap_pop hp of None \<Rightarrow> hp | Some (_, hp') \<Rightarrow> hp')"

lemma heap_run_ok:
  "is_heap (hp_items hp) \<Longrightarrow> \<forall>A idx f. Push A idx f \<in> set ops \<longrightarrow> \<not> is_nan f \<Longrightarrow> is_heap (hp_items (heap_run ops hp))"
proof (induction ops hp rule: heap_run.induct)
  case (2 A idx f ops hp)
  obtain rc hp' where p: "heap_push A hp idx f = (rc, hp')" by fastforce
  have "is_heap (hp_items hp')" using heap_push_ok [OF 2(2) _ p] 2(2,3) by (cases "rc = 0") auto
  then show ?case using 2(1,3) p by simp
next
  case (3 ops hp)
  then show ?case using heap_pop_ok(1) [OF 3(2)] by (auto split: option.splits)
qed simp

lemma heap_pop_None: "heap_pop hp = None \<longleftrightarrow> hp_items hp = []"
  by (auto simp: heap_pop_def Let_def split: list.splits prod.splits)

text \<open>
  C37. The search heap is a priority queue.  Take the heap after any sequence of pushes and pops from an empty one, with pushes
  that may fail for want of memory, as long as no cost pushed is NaN.  A further push of a cost that is a number adds exactly its entry when it
  succeeds, which it does when there is memory, and leaves the heap as it was when it fails.  A pop fails exactly on the empty heap; else it
  removes one entry, returns its index, and no entry has a smaller cost.  Popping until the heap is empty
  yields all entries in order of non-decreasing cost.
\<close>

theorem heap_pops_in_order:
  assumes num: "\<forall>A idx f. Push A idx f \<in> set ops \<longrightarrow> \<not> is_nan f" and hp: "hp = heap_run ops heap_empty"
  shows "(\<forall>A idx f. \<not> is_nan f \<longrightarrow> (case heap_push A hp idx f of (rc, hp') \<Rightarrow>
      (rc = 0 \<longrightarrow> mset (hp_items hp') = add_mset \<lparr>he_f = f, he_idx = idx\<rparr> (mset (hp_items hp))) \<and>
      (rc \<noteq> 0 \<longrightarrow> hp' = hp) \<and> ((\<forall>k. A k) \<longrightarrow> rc = 0))) \<and>
    (case heap_pop hp of
       None \<Rightarrow> hp_items hp = []
     | Some (idx, hp') \<Rightarrow> \<exists>e. he_idx e = idx \<and> mset (hp_items hp) = add_mset e (mset (hp_items hp')) \<and>
         (\<forall>x\<in>set (hp_items hp). d_le (he_f e) (he_f x))) \<and>
    (\<exists>es. mset es = mset (hp_items hp) \<and> sorted_wrt (\<lambda>a b. d_le (he_f a) (he_f b)) es \<and>
      drain heap_pop (length (hp_items hp)) hp = map he_idx es)"
proof (intro conjI)
  have h: "is_heap (hp_items hp)" unfolding hp by (rule heap_run_ok [OF _ num]) (simp add: heap_empty_def is_heap_def)
  show "\<forall>A idx f. \<not> is_nan f \<longrightarrow> (case heap_push A hp idx f of (rc, hp') \<Rightarrow>
      (rc = 0 \<longrightarrow> mset (hp_items hp') = add_mset \<lparr>he_f = f, he_idx = idx\<rparr> (mset (hp_items hp))) \<and>
      (rc \<noteq> 0 \<longrightarrow> hp' = hp) \<and> ((\<forall>k. A k) \<longrightarrow> rc = 0))"
    using heap_push_ok [OF h] by (auto split: prod.splits)
  show "case heap_pop hp of
       None \<Rightarrow> hp_items hp = []
     | Some (idx, hp') \<Rightarrow> \<exists>e. he_idx e = idx \<and> mset (hp_items hp) = add_mset e (mset (hp_items hp')) \<and>
         (\<forall>x\<in>set (hp_items hp). d_le (he_f e) (he_f x))"
  proof (cases "heap_pop hp")
    case None
    then show ?thesis using heap_pop_None [of hp] by simp
  next
    case (Some p)
    then obtain idx hp' where p: "heap_pop hp = Some (idx, hp')" by (cases p) simp
    then show ?thesis using heap_pop_ok [OF h p] by (auto simp: he_le_def intro!: exI [of _ "hd (hp_items hp)"])
  qed
  have "mset (drain heap_take (length (hp_items hp)) hp) = mset (hp_items hp) \<and> sorted_wrt he_le (drain heap_take (length (hp_items hp)) hp)"
    using search_heap.drain_all [OF h] by simp
  then show "\<exists>es. mset es = mset (hp_items hp) \<and> sorted_wrt (\<lambda>a b. d_le (he_f a) (he_f b)) es \<and>
      drain heap_pop (length (hp_items hp)) hp = map he_idx es"
    using drain_pop [of "length (hp_items hp)" hp] unfolding he_le_def [abs_def] by blast
qed

abbreviation demo_heap_ops :: "heap_op list" where
  "demo_heap_ops \<equiv> [Push (\<lambda>_. True) 7 d_one, Push (\<lambda>_. False) 5 d_one, Push (\<lambda>_. True) 9 d_zero, Pop, Push (\<lambda>_. True) 8 d_zero]"

theorem heap_pops_in_order_witness:
  "\<exists>es :: HeapEntry list. sorted_wrt (\<lambda>a b. d_le (he_f a) (he_f b)) es \<and> drain heap_pop 3 (heap_run demo_heap_ops heap_empty) = map he_idx es"
proof -
  have "\<not> is_nan d_one" "\<not> is_nan d_zero" by code_simp+
  then have num: "\<forall>A idx f. Push A idx f \<in> set demo_heap_ops \<longrightarrow> \<not> is_nan f" by auto
  have "length (hp_items (heap_run demo_heap_ops heap_empty)) = 3" by code_simp
  moreover obtain es :: "HeapEntry list" where "sorted_wrt (\<lambda>a b. d_le (he_f a) (he_f b)) es"
    "drain heap_pop (length (hp_items (heap_run demo_heap_ops heap_empty))) (heap_run demo_heap_ops heap_empty) = map he_idx es"
    using heap_pops_in_order [OF num refl] by blast
  ultimately show ?thesis by (intro exI [of _ es]) simp
qed

section \<open>The visited set\<close>

text \<open>The interface: a set with a bound, whose insertion says whether the element was new.\<close>

locale bounded_set =
  fixes inv :: "'s \<Rightarrow> bool"
    and elements :: "'s \<Rightarrow> 'k set"
    and full :: "'s \<Rightarrow> bool"
    and add :: "'s \<Rightarrow> 'k \<Rightarrow> bool \<times> 's"
    and valid :: "'k \<Rightarrow> bool"
  assumes add_inv: "inv s \<Longrightarrow> valid k \<Longrightarrow> inv (snd (add s k))"
    and add_new: "inv s \<Longrightarrow> valid k \<Longrightarrow> fst (add s k) \<longleftrightarrow> k \<notin> elements s \<and> \<not> full s"
    and add_elements: "inv s \<Longrightarrow> valid k \<Longrightarrow> fst (add s k) \<Longrightarrow> elements (snd (add s k)) = insert k (elements s)"
    and add_same: "inv s \<Longrightarrow> valid k \<Longrightarrow> \<not> fst (add s k) \<Longrightarrow> snd (add s k) = s"
begin

lemma full_stays:
  "inv s \<Longrightarrow> full s \<Longrightarrow> (\<forall>k\<in>set ks. valid k) \<Longrightarrow> foldl (\<lambda>s k. snd (add s k)) s ks = s"
  by (induction ks) (simp_all add: add_new add_same)

lemma add_all:
  "inv s \<Longrightarrow> (\<forall>k\<in>set ks. valid k) \<Longrightarrow> s' = foldl (\<lambda>s k. snd (add s k)) s ks \<Longrightarrow>
   inv s' \<and> elements s \<subseteq> elements s' \<and> elements s' \<subseteq> elements s \<union> set ks \<and> (\<not> full s' \<longrightarrow> elements s' = elements s \<union> set ks)"
proof (induction ks arbitrary: s)
  case (Cons k ks)
  let ?s1 = "snd (add s k)"
  have v: "valid k" "\<forall>k\<in>set ks. valid k" using Cons.prems(2) by simp_all
  have s': "s' = foldl (\<lambda>s k. snd (add s k)) ?s1 ks" using Cons.prems(3) by simp
  note IH = Cons.IH [OF add_inv [OF Cons.prems(1) v(1)] v(2) s']
  show ?case
  proof (cases "fst (add s k)")
    case True
    then show ?thesis using IH add_elements [OF Cons.prems(1) v(1)] by auto
  next
    case False
    then have same: "?s1 = s" and seen: "k \<in> elements s \<or> full s"
      using add_same [OF Cons.prems(1) v(1)] add_new [OF Cons.prems(1) v(1)] by blast+
    have "full s'" if "full s" using full_stays [OF Cons.prems(1) that v(2)] s' same that by simp
    then show ?thesis using IH seen unfolding same by auto
  qed
qed simp

text \<open>What was reported as new is never reported as new again.\<close>

lemma add_once:
  assumes "inv s" and "valid k" and "fst (add s k)" and "\<forall>k\<in>set ks. valid k"
  shows "\<not> fst (add (foldl (\<lambda>s k. snd (add s k)) (snd (add s k)) ks) k)"
proof -
  have "k \<in> elements (snd (add s k))" using assms(1-3) add_elements by simp
  then have "k \<in> elements (foldl (\<lambda>s k. snd (add s k)) (snd (add s k)) ks)" "inv (foldl (\<lambda>s k. snd (add s k)) (snd (add s k)) ks)"
    using add_all [OF add_inv [OF assms(1,2)] assms(4) refl] by auto
  then show ?thesis using add_new assms(2) by blast
qed

end

definition vs_home :: "VisitedSet \<Rightarrow> u64 \<Rightarrow> nat" where
  "vs_home vs h = unat h mod unat (vs_cap vs)"

definition vs_keys :: "VisitedSet \<Rightarrow> bytes set" where
  "vs_keys vs = ve_key ` {e\<in>set (vs_slots vs). ve_used e}"

definition vs_full :: "VisitedSet \<Rightarrow> bool" where
  "vs_full vs = (\<forall>e\<in>set (vs_slots vs). ve_used e)"

definition key_ok :: "bytes \<Rightarrow> bool" where
  "key_ok k \<longleftrightarrow> length k < 2 ^ 32"

definition vs_inv :: "VisitedSet \<Rightarrow> bool" where
  "vs_inv vs \<longleftrightarrow> length (vs_slots vs) = unat (vs_cap vs) \<and> 0 < unat (vs_cap vs) \<and> 2 * unat (vs_cap vs) < 2 ^ 32 \<and>
     (\<forall>e\<in>set (vs_slots vs). ve_used e \<longrightarrow>
        key_ok (ve_key e) \<and> ve_hash e = fnv1a64 (ve_key e) \<and> ve_key_len e = of_nat (length (ve_key e))) \<and>
     (\<forall>i<unat (vs_cap vs). ve_used (vs_slots vs ! i) \<longrightarrow>
        (\<exists>dist<unat (vs_cap vs). i = (vs_home vs (ve_hash (vs_slots vs ! i)) + dist) mod unat (vs_cap vs) \<and>
          (\<forall>d<dist. ve_used (vs_slots vs ! ((vs_home vs (ve_hash (vs_slots vs ! i)) + d) mod unat (vs_cap vs))))))"

lemma same_key:
  assumes "key_ok k" and "key_ok (ve_key e)" and "ve_key_len e = of_nat (length (ve_key e))" and "ve_hash e = fnv1a64 (ve_key e)"
  shows "ve_hash e = fnv1a64 k \<and> ve_key_len e = of_nat (length k) \<and>
      take (unat (of_nat (length k) :: u32)) (ve_key e) = take (unat (of_nat (length k) :: u32)) k \<longleftrightarrow> ve_key e = k"
proof -
  have "unat (of_nat (length k) :: u32) = length k" "unat (of_nat (length (ve_key e)) :: u32) = length (ve_key e)"
    using assms by (simp_all add: key_ok_def unat_of_nat_32)
  moreover have "(of_nat (length (ve_key e)) :: u32) = of_nat (length k) \<longleftrightarrow> length (ve_key e) = length k"
    using calculation by metis
  ultimately show ?thesis using assms by auto
qed

definition new_entry :: "bytes \<Rightarrow> VisitedEntry" where
  "new_entry k = \<lparr>ve_hash = fnv1a64 k, ve_key = k, ve_key_len = of_nat (length k), ve_used = True\<rparr>"

text \<open>The outcome of the probe loop: the key was found, every slot is taken, or the first free slot is filled.\<close>

definition probe_outcome :: "VisitedSet \<Rightarrow> bytes \<Rightarrow> nat \<Rightarrow> bool \<times> VisitedSet \<Rightarrow> bool" where
  "probe_outcome vs k home res \<longleftrightarrow>
     (res = (False, vs) \<and> (k \<in> vs_keys vs \<or> vs_full vs)) \<or>
     (\<exists>d<unat (vs_cap vs). (\<forall>d'<d. ve_used (vs_slots vs ! ((home + d') mod unat (vs_cap vs)))) \<and>
        \<not> ve_used (vs_slots vs ! ((home + d) mod unat (vs_cap vs))) \<and> k \<notin> vs_keys vs \<and>
        res = (True, vs\<lparr>vs_slots := (vs_slots vs)[(home + d) mod unat (vs_cap vs) := new_entry k], vs_count := vs_count vs + 1\<rparr>))"

lemma vs_invD:
  assumes "vs_inv vs"
  shows "length (vs_slots vs) = unat (vs_cap vs)" "0 < unat (vs_cap vs)" "2 * unat (vs_cap vs) < 2 ^ 32"
    and "e \<in> set (vs_slots vs) \<Longrightarrow> ve_used e \<Longrightarrow> key_ok (ve_key e)"
    and "e \<in> set (vs_slots vs) \<Longrightarrow> ve_used e \<Longrightarrow> ve_hash e = fnv1a64 (ve_key e)"
    and "e \<in> set (vs_slots vs) \<Longrightarrow> ve_used e \<Longrightarrow> ve_key_len e = of_nat (length (ve_key e))"
  using assms unfolding vs_inv_def by blast+

lemma vs_chain:
  "vs_inv vs \<Longrightarrow> i < unat (vs_cap vs) \<Longrightarrow> ve_used (vs_slots vs ! i) \<Longrightarrow>
   \<exists>dist<unat (vs_cap vs). i = (vs_home vs (ve_hash (vs_slots vs ! i)) + dist) mod unat (vs_cap vs) \<and>
     (\<forall>d<dist. ve_used (vs_slots vs ! ((vs_home vs (ve_hash (vs_slots vs ! i)) + d) mod unat (vs_cap vs))))"
  unfolding vs_inv_def by blast

lemma key_not_before_gap:
  assumes inv: "vs_inv vs" and home: "home = vs_home vs (fnv1a64 k)"
    and before: "\<forall>d'<d. ve_used (vs_slots vs ! ((home + d') mod unat (vs_cap vs))) \<and> ve_key (vs_slots vs ! ((home + d') mod unat (vs_cap vs))) \<noteq> k"
    and gap: "\<not> ve_used (vs_slots vs ! ((home + d) mod unat (vs_cap vs)))"
  shows "k \<notin> vs_keys vs"
proof
  assume "k \<in> vs_keys vs"
  then obtain i where i: "i < unat (vs_cap vs)" "ve_used (vs_slots vs ! i)" "ve_key (vs_slots vs ! i) = k"
    using vs_invD(1) [OF inv] by (auto simp: vs_keys_def in_set_conv_nth)
  have "vs_slots vs ! i \<in> set (vs_slots vs)" using i(1) vs_invD(1) [OF inv] by simp
  then have h: "ve_hash (vs_slots vs ! i) = fnv1a64 k" using i(2,3) vs_invD(5) [OF inv] by blast
  obtain dist where dist: "dist < unat (vs_cap vs)" "i = (home + dist) mod unat (vs_cap vs)"
    "\<forall>d<dist. ve_used (vs_slots vs ! ((home + d) mod unat (vs_cap vs)))"
    using vs_chain [OF inv i(1,2)] unfolding home h by blast
  consider "dist < d" | "dist = d" | "d < dist" by linarith
  then show False
  proof cases
    case 1
    then show False using before i(3) dist(2) by blast
  next
    case 2
    then show False using gap i(2) dist(2) by blast
  next
    case 3
    then show False using gap dist(3) by blast
  qed
qed

lemma mod_reaches: "i < c \<Longrightarrow> home < c \<Longrightarrow> \<exists>d<c. (home + d) mod c = (i :: nat)"
proof (cases "home \<le> i")
  case True
  assume "i < c" "home < c"
  then show ?thesis using True by (intro exI [of _ "i - home"]) simp
next
  case False
  assume "i < c" "home < c"
  moreover have "home + (i + c - home) = i + c" using False calculation by simp
  ultimately show ?thesis using False by (intro exI [of _ "i + c - home"]) simp
qed

text \<open>A probe sequence as long as the table has seen every slot.\<close>

lemma probe_exhausted:
  assumes "vs_inv vs" and "home < unat (vs_cap vs)"
    and "\<forall>d<unat (vs_cap vs). ve_used (vs_slots vs ! ((home + d) mod unat (vs_cap vs)))"
  shows "vs_full vs"
  unfolding vs_full_def
proof
  fix e assume "e \<in> set (vs_slots vs)"
  then obtain i where i: "i < unat (vs_cap vs)" "e = vs_slots vs ! i"
    using vs_invD(1) [OF assms(1)] by (auto simp: in_set_conv_nth)
  obtain d where "d < unat (vs_cap vs)" "(home + d) mod unat (vs_cap vs) = i"
    using mod_reaches [OF i(1) assms(2)] by blast
  then show "ve_used e" using assms(3) i(2) by blast
qed

text \<open>One step of the probe: a free slot takes the key, a slot with the key ends it, any other slot passes it on.\<close>

lemma probe_slot:
  assumes inv: "vs_inv vs" and k: "key_ok k" and home: "home < unat (vs_cap vs)" and d: "d < unat (vs_cap vs)"
    and i: "i = (home + d) mod unat (vs_cap vs)"
  shows "visited_probe vs (fnv1a64 k) k (of_nat (length k)) (of_nat (home + d)) (Suc n) =
    (if \<not> ve_used (vs_slots vs ! i) then (True, vs\<lparr>vs_slots := (vs_slots vs)[i := new_entry k], vs_count := vs_count vs + 1\<rparr>)
     else if ve_key (vs_slots vs ! i) = k then (False, vs)
     else visited_probe vs (fnv1a64 k) k (of_nat (length k)) (of_nat (home + Suc d)) n)"
proof -
  note c = vs_invD(1-3) [OF inv]
  have w: "unat ((of_nat (home + d) :: u32) mod vs_cap vs) = i"
    using home d c(3) by (simp add: i unat_mod_distrib unat_of_nat_32 del: of_nat_add)
  have e: "vs_slots vs ! i \<in> set (vs_slots vs)" using c(1,2) by (simp add: i)
  have "ve_used (vs_slots vs ! i) \<Longrightarrow>
      (ve_hash (vs_slots vs ! i) = fnv1a64 k \<and> ve_key_len (vs_slots vs ! i) = of_nat (length k) \<and>
        take (unat (of_nat (length k) :: u32)) (ve_key (vs_slots vs ! i)) = take (unat (of_nat (length k) :: u32)) k) =
      (ve_key (vs_slots vs ! i) = k)"
    using same_key [OF k] vs_invD(4-6) [OF inv e] by blast
  moreover have "(of_nat (home + d) :: u32) + 1 = of_nat (home + Suc d)" by simp
  ultimately show ?thesis
    by (simp add: w new_entry_def Let_def del: of_nat_add of_nat_Suc add_Suc_right)
qed

lemma probe_loop:
  assumes inv: "vs_inv vs" and k: "key_ok k" and home: "home = vs_home vs (fnv1a64 k)"
  shows "n + d = unat (vs_cap vs) \<Longrightarrow>
    \<forall>d'<d. ve_used (vs_slots vs ! ((home + d') mod unat (vs_cap vs))) \<and> ve_key (vs_slots vs ! ((home + d') mod unat (vs_cap vs))) \<noteq> k \<Longrightarrow>
    probe_outcome vs k home (visited_probe vs (fnv1a64 k) k (of_nat (length k)) (of_nat (home + d)) n)"
proof (induction n arbitrary: d)
  case 0
  then have "vs_full vs" using vs_invD(2) [OF inv] by (intro probe_exhausted [OF inv, of home]) (auto simp: home vs_home_def)
  then show ?case by (simp add: probe_outcome_def)
next
  case (Suc n)
  let ?c = "unat (vs_cap vs)"
  let ?e = "vs_slots vs ! ((home + d) mod ?c)"
  have c: "0 < ?c" "length (vs_slots vs) = ?c" and d: "d < ?c" using vs_invD(1,2) [OF inv] Suc.prems(1) by auto
  have "home < ?c" using c by (simp add: home vs_home_def)
  note step = probe_slot [OF inv k this d refl, of n]
  consider "\<not> ve_used ?e" | "ve_used ?e" "ve_key ?e = k" | "ve_used ?e" "ve_key ?e \<noteq> k" by blast
  then show ?case
  proof cases
    case 1
    moreover have "k \<notin> vs_keys vs" using key_not_before_gap [OF inv home Suc.prems(2)] 1 by simp
    ultimately show ?thesis using d Suc.prems(2) step unfolding probe_outcome_def by auto
  next
    case 2
    then have "k \<in> vs_keys vs" using c by (auto simp: vs_keys_def intro!: image_eqI [of _ _ ?e])
    then show ?thesis using 2 step by (simp add: probe_outcome_def)
  next
    case 3
    then have "probe_outcome vs k home (visited_probe vs (fnv1a64 k) k (of_nat (length k)) (of_nat (home + Suc d)) n)"
      using Suc.prems by (intro Suc.IH) (auto simp: less_Suc_eq)
    then show ?thesis using 3 step by simp
  qed
qed

lemma visited_add_outcome:
  assumes inv: "vs_inv vs" and k: "key_ok k"
  shows "probe_outcome vs k (vs_home vs (fnv1a64 k)) (visited_add vs k (of_nat (length k)))"
proof -
  let ?h = "fnv1a64 k"
  have "take (unat (of_nat (length k) :: u32)) k = k" using k by (simp add: key_ok_def unat_of_nat_32)
  moreover have "(ucast (?h mod ucast (vs_cap vs)) :: u32) = of_nat (vs_home vs ?h)"
  proof -
    have "unat (?h mod ucast (vs_cap vs)) = vs_home vs ?h" by (simp add: unat_mod_distrib vs_home_def)
    moreover have "(ucast x :: u32) = of_nat (unat x)" for x :: u64 by simp
    ultimately show ?thesis by metis
  qed
  ultimately show ?thesis
    using probe_loop [OF inv k refl, of "unat (vs_cap vs)" 0] by (simp add: visited_add_def Let_def)
qed

text \<open>Overwriting an element outside a subset adds to the subset and takes nothing from it.\<close>

lemma Collect_set_update:
  assumes "i < length xs" and "\<not> P (xs ! i)" and "P x"
  shows "{e\<in>set (xs[i := x]). P e} = insert x {e\<in>set xs. P e}"
proof (intro set_eqI iffI)
  fix e assume "e \<in> {e\<in>set (xs[i := x]). P e}"
  then show "e \<in> insert x {e\<in>set xs. P e}" using set_update_subset_insert [of xs i x] by auto
next
  fix e assume e: "e \<in> insert x {e\<in>set xs. P e}"
  have "e \<in> set (xs[i := x])" if "e \<in> set xs" "P e"
  proof -
    obtain j where j: "j < length xs" "e = xs ! j" using \<open>e \<in> set xs\<close> by (auto simp: in_set_conv_nth)
    then have "i \<noteq> j" using assms(2) \<open>P e\<close> by blast
    then have "xs[i := x] ! j = e" "j < length (xs[i := x])" using j by simp_all
    then show ?thesis using nth_mem by blast
  qed
  then show "e \<in> {e\<in>set (xs[i := x]). P e}" using e assms by (auto simp: set_update_memI)
qed

text \<open>A chain only asks for used slots, so filling a slot keeps the chain of every other one.\<close>

lemma vs_chain_mono:
  assumes inv: "vs_inv vs" and j: "j < unat (vs_cap vs)" "ve_used (vs_slots vs ! j)"
    and mono: "\<And>i. i < unat (vs_cap vs) \<Longrightarrow> ve_used (vs_slots vs ! i) \<Longrightarrow> ve_used (slots ! i)"
  shows "\<exists>dist<unat (vs_cap vs). j = (vs_home vs (ve_hash (vs_slots vs ! j)) + dist) mod unat (vs_cap vs) \<and>
    (\<forall>d<dist. ve_used (slots ! ((vs_home vs (ve_hash (vs_slots vs ! j)) + d) mod unat (vs_cap vs))))"
proof -
  obtain dist where "dist < unat (vs_cap vs)" "j = (vs_home vs (ve_hash (vs_slots vs ! j)) + dist) mod unat (vs_cap vs)"
    "\<forall>d<dist. ve_used (vs_slots vs ! ((vs_home vs (ve_hash (vs_slots vs ! j)) + d) mod unat (vs_cap vs)))"
    using vs_chain [OF inv j] by auto
  then show ?thesis using mono vs_invD(2) [OF inv] by (intro exI [of _ dist]) simp
qed

text \<open>Filling the first free slot of a key's chain keeps every chain.\<close>

lemma vs_inv_insert:
  assumes inv: "vs_inv vs" and k: "key_ok k" and d: "d < unat (vs_cap vs)"
    and before: "\<forall>d'<d. ve_used (vs_slots vs ! ((vs_home vs (fnv1a64 k) + d') mod unat (vs_cap vs)))"
    and gap: "\<not> ve_used (vs_slots vs ! ((vs_home vs (fnv1a64 k) + d) mod unat (vs_cap vs)))"
    and vs': "vs' = vs\<lparr>vs_slots := (vs_slots vs)[(vs_home vs (fnv1a64 k) + d) mod unat (vs_cap vs) := new_entry k], vs_count := n\<rparr>"
  shows "vs_inv vs'" and "vs_keys vs' = insert k (vs_keys vs)"
proof -
  define c where "c = unat (vs_cap vs)"
  define i where "i = (vs_home vs (fnv1a64 k) + d) mod c"
  note D = vs_invD(1-3) [OF inv, folded c_def]
  have i: "i < c" using D by (simp add: i_def)
  have sl: "vs_slots vs' = (vs_slots vs)[i := new_entry k]" "vs_cap vs' = vs_cap vs" by (simp_all add: vs' i_def c_def)
  have home: "vs_home vs' = vs_home vs" by (simp add: vs_home_def sl fun_eq_iff)
  have nth: "vs_slots vs' ! j = (if i = j then new_entry k else vs_slots vs ! j)" if "j < c" for j
    using that D(1) by (simp add: sl nth_update_below)
  have mono: "ve_used (vs_slots vs ! j) \<Longrightarrow> j < c \<Longrightarrow> ve_used (vs_slots vs' ! j)" for j
    using nth [of j] by (simp add: new_entry_def)
  have chain: "\<exists>dist<c. j = (vs_home vs (ve_hash (vs_slots vs' ! j)) + dist) mod c \<and>
      (\<forall>d<dist. ve_used (vs_slots vs' ! ((vs_home vs (ve_hash (vs_slots vs' ! j)) + d) mod c)))"
    if j: "j < c" "ve_used (vs_slots vs' ! j)" for j
  proof (cases "i = j")
    case True
    then have "ve_hash (vs_slots vs' ! j) = fnv1a64 k" using nth [OF j(1)] by (simp add: new_entry_def)
    moreover have "ve_used (vs_slots vs' ! ((vs_home vs (fnv1a64 k) + d') mod c))" if "d' < d" for d'
      using before that D(2) by (intro mono) (simp_all add: c_def)
    ultimately show ?thesis using d True by (intro exI [of _ d]) (simp add: i_def c_def)
  next
    case False
    then have same: "vs_slots vs' ! j = vs_slots vs ! j" using nth [OF j(1)] by simp
    show ?thesis unfolding same by (rule vs_chain_mono [OF inv, folded c_def]) (use j same mono in simp_all)
  qed
  have ent: "key_ok (ve_key e) \<and> ve_hash e = fnv1a64 (ve_key e) \<and> ve_key_len e = of_nat (length (ve_key e))"
    if "e \<in> set (vs_slots vs')" "ve_used e" for e
  proof (cases "e = new_entry k")
    case False
    then have "e \<in> set (vs_slots vs)" using that(1) set_update_subset_insert [of "vs_slots vs" i "new_entry k"] by (auto simp: sl)
    then show ?thesis using vs_invD(4-6) [OF inv _ that(2)] by blast
  qed (simp add: new_entry_def k)
  show "vs_inv vs'"
    unfolding vs_inv_def sl(2) home c_def [symmetric] using D ent chain by (simp add: sl(1))
  have "{e\<in>set (vs_slots vs'). ve_used e} = insert (new_entry k) {e\<in>set (vs_slots vs). ve_used e}"
    unfolding sl(1) using i D(1) gap by (intro Collect_set_update) (simp_all add: i_def c_def new_entry_def)
  then show "vs_keys vs' = insert k (vs_keys vs)" by (simp add: vs_keys_def) (simp add: new_entry_def)
qed

definition visited_put :: "VisitedSet \<Rightarrow> bytes \<Rightarrow> bool \<times> VisitedSet" where
  "visited_put vs k = visited_add vs k (of_nat (length k))"

interpretation visited: bounded_set vs_inv vs_keys vs_full visited_put key_ok
proof
  fix s k
  assume inv: "vs_inv s" and k: "key_ok k"
  note P = visited_add_outcome [OF inv k, folded visited_put_def, unfolded probe_outcome_def]
  consider "visited_put s k = (False, s)" "k \<in> vs_keys s \<or> vs_full s"
    | d where "d < unat (vs_cap s)" "\<forall>d'<d. ve_used (vs_slots s ! ((vs_home s (fnv1a64 k) + d') mod unat (vs_cap s)))"
      "\<not> ve_used (vs_slots s ! ((vs_home s (fnv1a64 k) + d) mod unat (vs_cap s)))" "k \<notin> vs_keys s"
      "visited_put s k = (True, s\<lparr>vs_slots := (vs_slots s)[(vs_home s (fnv1a64 k) + d) mod unat (vs_cap s) := new_entry k], vs_count := vs_count s + 1\<rparr>)"
    using P by blast
  then have "vs_inv (snd (visited_put s k)) \<and> fst (visited_put s k) = (k \<notin> vs_keys s \<and> \<not> vs_full s) \<and>
    (fst (visited_put s k) \<longrightarrow> vs_keys (snd (visited_put s k)) = insert k (vs_keys s)) \<and>
    (\<not> fst (visited_put s k) \<longrightarrow> snd (visited_put s k) = s)"
  proof cases
    case 1
    then show ?thesis using inv by auto
  next
    case (2 d)
    have "(vs_home s (fnv1a64 k) + d) mod unat (vs_cap s) < length (vs_slots s)" using vs_invD(1,2) [OF inv] by simp
    then have "\<not> vs_full s" using 2(3) nth_mem by (auto simp: vs_full_def)
    then show ?thesis using vs_inv_insert [OF inv k 2(1-3) refl] 2(4,5) by simp
  qed
  then show "vs_inv (snd (visited_put s k))" "fst (visited_put s k) = (k \<notin> vs_keys s \<and> \<not> vs_full s)"
    "fst (visited_put s k) \<Longrightarrow> vs_keys (snd (visited_put s k)) = insert k (vs_keys s)"
    "\<not> fst (visited_put s k) \<Longrightarrow> snd (visited_put s k) = s" by blast+
qed

lemma visited_init_inv:
  assumes "visited_init A n = Some vs" and "unat n < 2 ^ 30"
  shows "vs_inv vs" "vs_keys vs = {}" "vs_cap vs = n * 2 + 1"
proof -
  have "unat (n * 2 + 1) = unat n * 2 + 1"
    using assms(2) by (simp add: unat_word_ariths)
  then have c: "length (vs_slots vs) = unat (vs_cap vs)" "0 < unat (vs_cap vs)" "2 * unat (vs_cap vs) < 2 ^ 32"
    and free: "\<forall>e\<in>set (vs_slots vs). \<not> ve_used e" and cap: "vs_cap vs = n * 2 + 1"
    using assms by (auto simp: visited_init_def Let_def zero_ventry_def split: if_splits)
  have "\<not> ve_used (vs_slots vs ! i)" if "i < unat (vs_cap vs)" for i using free that c(1) by simp
  then show "vs_inv vs" "vs_keys vs = {}" using c free by (simp_all add: vs_inv_def vs_keys_def)
  show "vs_cap vs = n * 2 + 1" by (rule cap)
qed

text \<open>
  The hash set of visited states is a set.  Starting from a fresh table for up to \<open>2 ^ 30\<close>
  nodes, after any sequence of insertions an insertion returns true exactly when its key was
  never inserted and a slot is free, and then precisely this key is added; a key reported as new
  is never reported as new again.  Probing, hash collisions and wrap-around do not matter.
\<close>

theorem visited_set_spec:
  assumes init: "visited_init A n = Some vs0" and n: "unat n < 2 ^ 30"
    and ks: "\<forall>k\<in>set ks. length k < 2 ^ 32" and k: "length k < 2 ^ 32"
    and vs: "vs = foldl (\<lambda>vs k. snd (visited_add vs k (of_nat (length k)))) vs0 ks"
  shows "(fst (visited_add vs k (of_nat (length k))) \<longleftrightarrow> k \<notin> vs_keys vs \<and> \<not> vs_full vs) \<and>
    vs_keys (snd (visited_add vs k (of_nat (length k)))) =
      (if fst (visited_add vs k (of_nat (length k))) then insert k (vs_keys vs) else vs_keys vs) \<and>
    vs_keys vs \<subseteq> set ks \<and> (\<not> vs_full vs \<longrightarrow> vs_keys vs = set ks) \<and>
    (fst (visited_add vs0 k (of_nat (length k))) \<longrightarrow>
      \<not> fst (visited_add (foldl (\<lambda>vs k. snd (visited_add vs k (of_nat (length k)))) (snd (visited_add vs0 k (of_nat (length k)))) ks)
          k (of_nat (length k))))"
proof -
  note I = visited_init_inv [OF init n]
  have ks': "\<forall>k\<in>set ks. key_ok k" and k': "key_ok k" using ks k by (simp_all add: key_ok_def)
  have put: "visited_add vs k (of_nat (length k)) = visited_put vs k" for vs k by (simp add: visited_put_def)
  have vs': "vs = foldl (\<lambda>vs k. snd (visited_put vs k)) vs0 ks" by (simp add: vs put)
  note V = visited.add_all [OF I(1) ks' vs']
  have inv: "vs_inv vs" using V by blast
  have "fst (visited_put vs k) \<longleftrightarrow> k \<notin> vs_keys vs \<and> \<not> vs_full vs"
    "vs_keys (snd (visited_put vs k)) = (if fst (visited_put vs k) then insert k (vs_keys vs) else vs_keys vs)"
    using visited.add_new [OF inv k'] visited.add_elements [OF inv k'] visited.add_same [OF inv k'] by auto
  moreover have "fst (visited_put vs0 k) \<longrightarrow> \<not> fst (visited_put (foldl (\<lambda>vs k. snd (visited_put vs k)) (snd (visited_put vs0 k)) ks) k)"
    using visited.add_once [OF I(1) k' _ ks'] by blast
  ultimately show ?thesis using V I(2) by (simp add: put)
qed

theorem visited_set_spec_witness:
  "fst (visited_add (snd (visited_add (the (visited_init (\<lambda>_. True) 4)) [1, 2] 2)) [3] 1) \<and>
   \<not> fst (visited_add (snd (visited_add (the (visited_init (\<lambda>_. True) 4)) [1, 2] 2)) [1, 2] 2)"
proof -
  have init: "visited_init (\<lambda>_. True) 4 = Some (the (visited_init (\<lambda>_. True) 4))" by (simp add: visited_init_def Let_def)
  let ?vs = "snd (visited_add (the (visited_init (\<lambda>_. True) 4)) [1, 2] 2)"
  have f: "\<not> vs_full ?vs" by code_simp
  have "fst (visited_add ?vs [3] 1)" "\<not> fst (visited_add ?vs [1, 2] 2)"
    using visited_set_spec [OF init _ _ _ refl, of "[[1, 2]]" "[3]"] visited_set_spec [OF init _ _ _ refl, of "[[1, 2]]" "[1, 2]"] f by simp_all
  then show ?thesis by blast
qed

end
