(* ===== verification/Goap_Tables.thy ===== *)
theory Goap_Tables
  imports Goap_Containers
begin

text \<open>
  The tables of the planner, \<open>src/planner/fleece_planner.c\<close>: actions, goals, utility curves and
  missions, their registration, the getters over them, and goal selection by utility.  As for
  the blackboard, an array with its count is a list, object pointers are non-NULL, a string
  pointer the code may find NULL is an option, and an index that is \<open>UINT32_MAX\<close> for ``absent'' is
  \<open>None\<close>.  Sizes of structures are those of a 64-bit target.
\<close>

section \<open>Records\<close>

record FleeceGoapPoint =
  pt_x :: double
  pt_y :: double

record GoapAction =
  ac_id :: bytes
  ac_name :: bytes
  ac_cost :: bytes
  ac_exec :: bytes
  ac_dest :: bytes
  ac_dur :: double
  ac_pre :: "bytes list"
  ac_eff :: "bytes list"

record GoapGoal =
  go_id :: bytes
  go_name :: bytes
  go_expr :: bytes
  go_priority :: double
  go_curve_id :: bytes

record GoapUtility =
  ut_id :: bytes
  ut_name :: bytes
  ut_dim :: bytes
  ut_x_min :: double
  ut_x_max :: double
  ut_points :: "FleeceGoapPoint list"

record GoapMission =
  mi_id :: bytes
  mi_name :: bytes
  mi_goal_ids :: "bytes list"
  mi_note :: bytes

record FleeceGoap =
  ga_name :: bytes
  ga_actions :: "GoapAction list"
  ga_action_cap :: nat
  ga_goals :: "GoapGoal list"
  ga_goal_cap :: nat
  ga_utilities :: "GoapUtility list"
  ga_utility_cap :: nat
  ga_missions :: "GoapMission list"
  ga_mission_cap :: nat
  ga_max_iters :: u32
  ga_max_nodes :: u32
  ga_max_plan_depth :: u32

text \<open>What a caller registers: string pointers and arrays that may be NULL.\<close>

record FleeceGoapActionDef =
  ad_id :: "bytes option"
  ad_name :: "bytes option"
  ad_cost :: "bytes option"
  ad_dest :: "bytes option"
  ad_dur :: double
  ad_exec :: "bytes option"
  ad_pre :: "bytes option list option"
  ad_eff :: "bytes option list option"

record FleeceGoapGoalDef =
  gd_id :: "bytes option"
  gd_name :: "bytes option"
  gd_expr :: "bytes option"
  gd_priority :: double
  gd_curve_id :: "bytes option"

record FleeceGoapUtilityDef =
  ud_id :: "bytes option"
  ud_name :: "bytes option"
  ud_dim :: "bytes option"
  ud_x_min :: double
  ud_x_max :: double
  ud_points :: "FleeceGoapPoint list option"

record FleeceGoapMissionDef =
  md_id :: "bytes option"
  md_name :: "bytes option"
  md_goal_ids :: "bytes option list option"
  md_note :: "bytes option"

abbreviation sizeof_action :: nat where "sizeof_action \<equiv> 4328"
abbreviation sizeof_goal :: nat where "sizeof_goal \<equiv> 2248"
abbreviation sizeof_utility :: nat where "sizeof_utility \<equiv> 224"
abbreviation sizeof_mission :: nat where "sizeof_mission \<equiv> 272"
abbreviation sizeof_point :: nat where "sizeof_point \<equiv> 16"
abbreviation sizeof_goap :: nat where "sizeof_goap \<equiv> 144"

section \<open>Lifecycle\<close>

definition goap_zero :: FleeceGoap where
  "goap_zero = \<lparr>ga_name = [], ga_actions = [], ga_action_cap = 0, ga_goals = [], ga_goal_cap = 0,
     ga_utilities = [], ga_utility_cap = 0, ga_missions = [], ga_mission_cap = 0,
     ga_max_iters = 0, ga_max_nodes = 0, ga_max_plan_depth = 0\<rparr>"

definition fleece_goap_create :: "allocator \<Rightarrow> FleeceGoap option" where
  "fleece_goap_create A =
     (if \<not> A sizeof_goap then None
      else Some (goap_zero\<lparr>ga_max_iters := 2048, ga_max_nodes := 512, ga_max_plan_depth := 8\<rparr>))"

definition fleece_goap_reset :: "FleeceGoap \<Rightarrow> FleeceGoap" where
  "fleece_goap_reset goap = goap\<lparr>ga_actions := [], ga_action_cap := 0, ga_goals := [], ga_goal_cap := 0,
     ga_utilities := [], ga_utility_cap := 0, ga_missions := [], ga_mission_cap := 0, ga_name := []\<rparr>"

definition fleece_goap_name :: "FleeceGoap \<Rightarrow> bytes" where
  "fleece_goap_name goap = ga_name goap"

text \<open>A name that does not fit clears the stored one.\<close>

definition fleece_goap_set_name :: "FleeceGoap \<Rightarrow> bytes option \<Rightarrow> int \<times> FleeceGoap" where
  "fleece_goap_set_name goap name =
     (let (rc, stored) = copy_str FLEECE_GOAP_NAME_MAX name in (rc, goap\<lparr>ga_name := stored\<rparr>))"

definition fleece_goap_set_max_iters :: "FleeceGoap \<Rightarrow> u32 \<Rightarrow> FleeceGoap" where
  "fleece_goap_set_max_iters goap n = (if n > 0 then goap\<lparr>ga_max_iters := n\<rparr> else goap)"

definition fleece_goap_set_max_nodes :: "FleeceGoap \<Rightarrow> u32 \<Rightarrow> FleeceGoap" where
  "fleece_goap_set_max_nodes goap n = (if n > 0 then goap\<lparr>ga_max_nodes := n\<rparr> else goap)"

definition fleece_goap_set_max_plan_depth :: "FleeceGoap \<Rightarrow> u32 \<Rightarrow> FleeceGoap" where
  "fleece_goap_set_max_plan_depth goap n = (if n > 0 then goap\<lparr>ga_max_plan_depth := n\<rparr> else goap)"

text \<open>The sum is taken in 32 bits.\<close>

definition strings_mem :: "bytes list \<Rightarrow> nat" where
  "strings_mem ss = length ss * sizeof_ptr + sum_list (map (\<lambda>s. length s + 1) ss)"

definition fleece_goap_get_mem_usage :: "FleeceGoap \<Rightarrow> u32" where
  "fleece_goap_get_mem_usage goap =
     of_nat (sizeof_goap
       + ga_action_cap goap * sizeof_action
       + sum_list (map (\<lambda>a. strings_mem (ac_pre a) + strings_mem (ac_eff a)) (ga_actions goap))
       + ga_goal_cap goap * sizeof_goal
       + ga_utility_cap goap * sizeof_utility
       + sum_list (map (\<lambda>u. length (ut_points u) * sizeof_point) (ga_utilities goap))
       + ga_mission_cap goap * sizeof_mission
       + sum_list (map (\<lambda>m. strings_mem (mi_goal_ids m)) (ga_missions goap)))"

section \<open>Registration\<close>

text \<open>A fixed-size string field: \<open>None\<close> where the string does not fit.\<close>

definition copy_field :: "nat \<Rightarrow> bytes option \<Rightarrow> bytes option" where
  "copy_field sz src = (let (rc, stored) = copy_str sz src in if rc \<noteq> 0 then None else Some stored)"

fun dup_strings :: "allocator \<Rightarrow> bytes option list \<Rightarrow> bytes list option" where
  "dup_strings A [] = Some []"
| "dup_strings A (s # ss) =
     (case dup_str A s of
        None \<Rightarrow> None
      | Some d \<Rightarrow> (case dup_strings A ss of None \<Rightarrow> None | Some ds \<Rightarrow> Some (d # ds)))"

definition dup_array :: "allocator \<Rightarrow> bytes option list option \<Rightarrow> bytes list option" where
  "dup_array A arr =
     (case arr of
        None \<Rightarrow> Some []
      | Some ss \<Rightarrow>
          if ss = [] then Some []
          else if \<not> A (length ss * sizeof_ptr) then None
          else dup_strings A ss)"

definition fill_action :: "allocator \<Rightarrow> FleeceGoapActionDef \<Rightarrow> GoapAction option" where
  "fill_action A def = do {
     i \<leftarrow> copy_field FLEECE_GOAP_NAME_MAX (ad_id def);
     n \<leftarrow> copy_field FLEECE_GOAP_NAME_MAX (ad_name def);
     c \<leftarrow> copy_field FLEECE_GOAP_SOURCE_MAX (ad_cost def);
     x \<leftarrow> copy_field FLEECE_GOAP_SOURCE_MAX (ad_exec def);
     d \<leftarrow> copy_field FLEECE_GOAP_NAME_MAX (ad_dest def);
     pre \<leftarrow> dup_array A (ad_pre def);
     eff \<leftarrow> dup_array A (ad_eff def);
     Some \<lparr>ac_id = i, ac_name = n, ac_cost = c, ac_exec = x, ac_dest = d, ac_dur = ad_dur def, ac_pre = pre, ac_eff = eff\<rparr>
   }"

definition fill_goal :: "FleeceGoapGoalDef \<Rightarrow> GoapGoal option" where
  "fill_goal def = do {
     i \<leftarrow> copy_field FLEECE_GOAP_NAME_MAX (gd_id def);
     n \<leftarrow> copy_field FLEECE_GOAP_NAME_MAX (gd_name def);
     e \<leftarrow> copy_field FLEECE_GOAP_SOURCE_MAX (gd_expr def);
     c \<leftarrow> copy_field FLEECE_GOAP_NAME_MAX (gd_curve_id def);
     Some \<lparr>go_id = i, go_name = n, go_expr = e, go_priority = gd_priority def, go_curve_id = c\<rparr>
   }"

definition x_after :: "FleeceGoapPoint \<Rightarrow> FleeceGoapPoint \<Rightarrow> bool" where
  "x_after p q = d_less (pt_x q) (pt_x p)"

definition fill_points :: "allocator \<Rightarrow> FleeceGoapPoint list option \<Rightarrow> FleeceGoapPoint list option" where
  "fill_points A pts =
     (case pts of
        None \<Rightarrow> Some []
      | Some ps \<Rightarrow>
          if ps = [] then Some []
          else if \<not> A (length ps * sizeof_point) then None
          else Some (insertion_sort x_after ps))"

definition fill_utility :: "allocator \<Rightarrow> FleeceGoapUtilityDef \<Rightarrow> GoapUtility option" where
  "fill_utility A def = do {
     i \<leftarrow> copy_field FLEECE_GOAP_NAME_MAX (ud_id def);
     n \<leftarrow> copy_field FLEECE_GOAP_NAME_MAX (ud_name def);
     d \<leftarrow> copy_field FLEECE_GOAP_NAME_MAX (ud_dim def);
     pts \<leftarrow> fill_points A (ud_points def);
     Some \<lparr>ut_id = i, ut_name = n, ut_dim = d, ut_x_min = ud_x_min def, ut_x_max = ud_x_max def, ut_points = pts\<rparr>
   }"

definition fill_mission :: "allocator \<Rightarrow> FleeceGoapMissionDef \<Rightarrow> GoapMission option" where
  "fill_mission A def = do {
     i \<leftarrow> copy_field FLEECE_GOAP_NAME_MAX (md_id def);
     n \<leftarrow> copy_field FLEECE_GOAP_NAME_MAX (md_name def);
     t \<leftarrow> copy_field FLEECE_GOAP_NOTE_MAX (md_note def);
     ids \<leftarrow> dup_array A (md_goal_ids def);
     Some \<lparr>mi_id = i, mi_name = n, mi_goal_ids = ids, mi_note = t\<rparr>
   }"

text \<open>A registration that fails after the table has been grown keeps the larger capacity.\<close>

definition fleece_goap_add_action :: "allocator \<Rightarrow> FleeceGoap \<Rightarrow> FleeceGoapActionDef \<Rightarrow> int \<times> FleeceGoap" where
  "fleece_goap_add_action A goap def =
     (if ad_id def = None then (-1, goap)
      else case ensure_cap A (ga_action_cap goap) (length (ga_actions goap) + 1) sizeof_action of
        None \<Rightarrow> (-1, goap)
      | Some cap \<Rightarrow>
          (case fill_action A def of
             None \<Rightarrow> (-1, goap\<lparr>ga_action_cap := cap\<rparr>)
           | Some a \<Rightarrow> (0, goap\<lparr>ga_action_cap := cap, ga_actions := ga_actions goap @ [a]\<rparr>)))"

definition fleece_goap_add_goal :: "allocator \<Rightarrow> FleeceGoap \<Rightarrow> FleeceGoapGoalDef \<Rightarrow> int \<times> FleeceGoap" where
  "fleece_goap_add_goal A goap def =
     (if gd_id def = None then (-1, goap)
      else case ensure_cap A (ga_goal_cap goap) (length (ga_goals goap) + 1) sizeof_goal of
        None \<Rightarrow> (-1, goap)
      | Some cap \<Rightarrow>
          (case fill_goal def of
             None \<Rightarrow> (-1, goap\<lparr>ga_goal_cap := cap\<rparr>)
           | Some g \<Rightarrow> (0, goap\<lparr>ga_goal_cap := cap, ga_goals := ga_goals goap @ [g]\<rparr>)))"

definition fleece_goap_add_utility :: "allocator \<Rightarrow> FleeceGoap \<Rightarrow> FleeceGoapUtilityDef \<Rightarrow> int \<times> FleeceGoap" where
  "fleece_goap_add_utility A goap def =
     (if ud_id def = None then (-1, goap)
      else case ensure_cap A (ga_utility_cap goap) (length (ga_utilities goap) + 1) sizeof_utility of
        None \<Rightarrow> (-1, goap)
      | Some cap \<Rightarrow>
          (case fill_utility A def of
             None \<Rightarrow> (-1, goap\<lparr>ga_utility_cap := cap\<rparr>)
           | Some u \<Rightarrow> (0, goap\<lparr>ga_utility_cap := cap, ga_utilities := ga_utilities goap @ [u]\<rparr>)))"

definition fleece_goap_add_mission :: "allocator \<Rightarrow> FleeceGoap \<Rightarrow> FleeceGoapMissionDef \<Rightarrow> int \<times> FleeceGoap" where
  "fleece_goap_add_mission A goap def =
     (if md_id def = None then (-1, goap)
      else case ensure_cap A (ga_mission_cap goap) (length (ga_missions goap) + 1) sizeof_mission of
        None \<Rightarrow> (-1, goap)
      | Some cap \<Rightarrow>
          (case fill_mission A def of
             None \<Rightarrow> (-1, goap\<lparr>ga_mission_cap := cap\<rparr>)
           | Some m \<Rightarrow> (0, goap\<lparr>ga_mission_cap := cap, ga_missions := ga_missions goap @ [m]\<rparr>)))"

section \<open>Getters\<close>

text \<open>\<open>None\<close> is the NULL of an index out of range.\<close>

definition row_at :: "'a list \<Rightarrow> nat \<Rightarrow> 'a option" where
  "row_at rows i = (if i < length rows then Some (rows ! i) else None)"

definition fleece_goap_action_count :: "FleeceGoap \<Rightarrow> nat" where
  "fleece_goap_action_count goap = length (ga_actions goap)"

definition fleece_goap_action_id :: "FleeceGoap \<Rightarrow> nat \<Rightarrow> bytes option" where
  "fleece_goap_action_id goap idx = map_option ac_id (row_at (ga_actions goap) idx)"

definition fleece_goap_action_name :: "FleeceGoap \<Rightarrow> nat \<Rightarrow> bytes option" where
  "fleece_goap_action_name goap idx = map_option ac_name (row_at (ga_actions goap) idx)"

definition fleece_goap_action_pre_count :: "FleeceGoap \<Rightarrow> nat \<Rightarrow> nat" where
  "fleece_goap_action_pre_count goap idx = (case row_at (ga_actions goap) idx of None \<Rightarrow> 0 | Some r \<Rightarrow> length (ac_pre r))"

definition fleece_goap_action_pre :: "FleeceGoap \<Rightarrow> nat \<Rightarrow> nat \<Rightarrow> bytes option" where
  "fleece_goap_action_pre goap idx i = (case row_at (ga_actions goap) idx of None \<Rightarrow> None | Some r \<Rightarrow> row_at (ac_pre r) i)"

definition fleece_goap_action_eff_count :: "FleeceGoap \<Rightarrow> nat \<Rightarrow> nat" where
  "fleece_goap_action_eff_count goap idx = (case row_at (ga_actions goap) idx of None \<Rightarrow> 0 | Some r \<Rightarrow> length (ac_eff r))"

definition fleece_goap_action_eff :: "FleeceGoap \<Rightarrow> nat \<Rightarrow> nat \<Rightarrow> bytes option" where
  "fleece_goap_action_eff goap idx i = (case row_at (ga_actions goap) idx of None \<Rightarrow> None | Some r \<Rightarrow> row_at (ac_eff r) i)"

definition fleece_goap_action_cost_source :: "FleeceGoap \<Rightarrow> nat \<Rightarrow> bytes option" where
  "fleece_goap_action_cost_source goap idx = map_option ac_cost (row_at (ga_actions goap) idx)"

definition fleece_goap_action_exec :: "FleeceGoap \<Rightarrow> nat \<Rightarrow> bytes option" where
  "fleece_goap_action_exec goap idx = map_option ac_exec (row_at (ga_actions goap) idx)"

definition fleece_goap_action_dest :: "FleeceGoap \<Rightarrow> nat \<Rightarrow> bytes option" where
  "fleece_goap_action_dest goap idx = map_option ac_dest (row_at (ga_actions goap) idx)"

definition fleece_goap_action_dur :: "FleeceGoap \<Rightarrow> nat \<Rightarrow> double" where
  "fleece_goap_action_dur goap idx = (case row_at (ga_actions goap) idx of None \<Rightarrow> d_zero | Some r \<Rightarrow> ac_dur r)"

definition fleece_goap_goal_count :: "FleeceGoap \<Rightarrow> nat" where
  "fleece_goap_goal_count goap = length (ga_goals goap)"

definition fleece_goap_goal_id :: "FleeceGoap \<Rightarrow> nat \<Rightarrow> bytes option" where
  "fleece_goap_goal_id goap idx = map_option go_id (row_at (ga_goals goap) idx)"

definition fleece_goap_goal_name :: "FleeceGoap \<Rightarrow> nat \<Rightarrow> bytes option" where
  "fleece_goap_goal_name goap idx = map_option go_name (row_at (ga_goals goap) idx)"

definition fleece_goap_goal_expr :: "FleeceGoap \<Rightarrow> nat \<Rightarrow> bytes option" where
  "fleece_goap_goal_expr goap idx = map_option go_expr (row_at (ga_goals goap) idx)"

definition fleece_goap_goal_priority :: "FleeceGoap \<Rightarrow> nat \<Rightarrow> double" where
  "fleece_goap_goal_priority goap idx = (case row_at (ga_goals goap) idx of None \<Rightarrow> d_zero | Some r \<Rightarrow> go_priority r)"

definition fleece_goap_goal_curve_id :: "FleeceGoap \<Rightarrow> nat \<Rightarrow> bytes option" where
  "fleece_goap_goal_curve_id goap idx = map_option go_curve_id (row_at (ga_goals goap) idx)"

definition fleece_goap_find_action :: "FleeceGoap \<Rightarrow> bytes option \<Rightarrow> nat option" where
  "fleece_goap_find_action goap i = (case i of None \<Rightarrow> None | Some s \<Rightarrow> index_of (\<lambda>r. ac_id r = s) (ga_actions goap))"

definition fleece_goap_find_goal :: "FleeceGoap \<Rightarrow> bytes option \<Rightarrow> nat option" where
  "fleece_goap_find_goal goap i = (case i of None \<Rightarrow> None | Some s \<Rightarrow> index_of (\<lambda>r. go_id r = s) (ga_goals goap))"

definition fleece_goap_utility_count :: "FleeceGoap \<Rightarrow> nat" where
  "fleece_goap_utility_count goap = length (ga_utilities goap)"

definition fleece_goap_utility_id :: "FleeceGoap \<Rightarrow> nat \<Rightarrow> bytes option" where
  "fleece_goap_utility_id goap idx = map_option ut_id (row_at (ga_utilities goap) idx)"

definition fleece_goap_utility_name :: "FleeceGoap \<Rightarrow> nat \<Rightarrow> bytes option" where
  "fleece_goap_utility_name goap idx = map_option ut_name (row_at (ga_utilities goap) idx)"

definition fleece_goap_utility_dim :: "FleeceGoap \<Rightarrow> nat \<Rightarrow> bytes option" where
  "fleece_goap_utility_dim goap idx = map_option ut_dim (row_at (ga_utilities goap) idx)"

definition fleece_goap_utility_x_min :: "FleeceGoap \<Rightarrow> nat \<Rightarrow> double" where
  "fleece_goap_utility_x_min goap idx = (case row_at (ga_utilities goap) idx of None \<Rightarrow> d_zero | Some r \<Rightarrow> ut_x_min r)"

definition fleece_goap_utility_x_max :: "FleeceGoap \<Rightarrow> nat \<Rightarrow> double" where
  "fleece_goap_utility_x_max goap idx = (case row_at (ga_utilities goap) idx of None \<Rightarrow> d_zero | Some r \<Rightarrow> ut_x_max r)"

definition fleece_goap_utility_point_count :: "FleeceGoap \<Rightarrow> nat \<Rightarrow> nat" where
  "fleece_goap_utility_point_count goap idx = (case row_at (ga_utilities goap) idx of None \<Rightarrow> 0 | Some r \<Rightarrow> length (ut_points r))"

definition fleece_goap_utility_point :: "FleeceGoap \<Rightarrow> nat \<Rightarrow> nat \<Rightarrow> FleeceGoapPoint" where
  "fleece_goap_utility_point goap idx i =
     (case row_at (ga_utilities goap) idx of
        None \<Rightarrow> \<lparr>pt_x = d_zero, pt_y = d_zero\<rparr>
      | Some u \<Rightarrow> (case row_at (ut_points u) i of None \<Rightarrow> \<lparr>pt_x = d_zero, pt_y = d_zero\<rparr> | Some p \<Rightarrow> p))"

definition fleece_goap_find_utility :: "FleeceGoap \<Rightarrow> bytes option \<Rightarrow> nat option" where
  "fleece_goap_find_utility goap i = (case i of None \<Rightarrow> None | Some s \<Rightarrow> index_of (\<lambda>r. ut_id r = s) (ga_utilities goap))"

definition fleece_goap_mission_count :: "FleeceGoap \<Rightarrow> nat" where
  "fleece_goap_mission_count goap = length (ga_missions goap)"

definition fleece_goap_mission_id :: "FleeceGoap \<Rightarrow> nat \<Rightarrow> bytes option" where
  "fleece_goap_mission_id goap idx = map_option mi_id (row_at (ga_missions goap) idx)"

definition fleece_goap_mission_name :: "FleeceGoap \<Rightarrow> nat \<Rightarrow> bytes option" where
  "fleece_goap_mission_name goap idx = map_option mi_name (row_at (ga_missions goap) idx)"

definition fleece_goap_mission_goal_count :: "FleeceGoap \<Rightarrow> nat \<Rightarrow> nat" where
  "fleece_goap_mission_goal_count goap idx = (case row_at (ga_missions goap) idx of None \<Rightarrow> 0 | Some r \<Rightarrow> length (mi_goal_ids r))"

definition fleece_goap_mission_goal_id :: "FleeceGoap \<Rightarrow> nat \<Rightarrow> nat \<Rightarrow> bytes option" where
  "fleece_goap_mission_goal_id goap idx i = (case row_at (ga_missions goap) idx of None \<Rightarrow> None | Some r \<Rightarrow> row_at (mi_goal_ids r) i)"

definition fleece_goap_mission_note :: "FleeceGoap \<Rightarrow> nat \<Rightarrow> bytes option" where
  "fleece_goap_mission_note goap idx = map_option mi_note (row_at (ga_missions goap) idx)"

section \<open>Evaluation callbacks\<close>

text \<open>
  The host evaluates conditions, effects and costs of actions and goals on a blackboard.  A
  callback is a function of the index, the blackboard and the initial content of its output
  parameter; it returns the code and what the output parameter holds afterwards.  The pointers
  may be NULL.
\<close>

record FleeceGoapEval =
  ev_action_pre :: "(nat \<Rightarrow> FleeceGoapBlackboard \<Rightarrow> bool \<Rightarrow> int \<times> bool) option"
  ev_action_apply :: "(nat \<Rightarrow> FleeceGoapBlackboard \<Rightarrow> FleeceGoapBlackboard \<Rightarrow> int \<times> FleeceGoapBlackboard) option"
  ev_goal_satisfied :: "(nat \<Rightarrow> FleeceGoapBlackboard \<Rightarrow> bool \<Rightarrow> int \<times> bool) option"
  ev_action_cost :: "(nat \<Rightarrow> FleeceGoapBlackboard \<Rightarrow> double \<Rightarrow> int \<times> double) option"

section \<open>Goal selection\<close>

fun curve_segment :: "FleeceGoapPoint list \<Rightarrow> double \<Rightarrow> double" where
  "curve_segment (a # b # pts) v =
     (if d_le (pt_x a) v \<and> d_le v (pt_x b) then
        let w = d_sub (pt_x b) (pt_x a);
            k = d_div (d_sub v (pt_x a)) (if \<not> d_eq w d_zero then w else d_one)
        in d_add (pt_y a) (d_mul (d_sub (pt_y b) (pt_y a)) k)
      else curve_segment (b # pts) v)"
| "curve_segment _ v = d_zero"

definition curve_score :: "GoapUtility \<Rightarrow> double \<Rightarrow> double" where
  "curve_score u v =
     (let pts = ut_points u in
      if pts = [] then d_zero
      else if d_le v (pt_x (hd pts)) then pt_y (hd pts)
      else if d_le (pt_x (last pts)) v then pt_y (last pts)
      else curve_segment pts v)"

definition first_y :: "GoapUtility \<Rightarrow> double" where
  "first_y u = (if ut_points u \<noteq> [] then pt_y (hd (ut_points u)) else d_one)"

definition fleece_goap_goal_utility :: "FleeceGoap \<Rightarrow> nat \<Rightarrow> FleeceGoapBlackboard \<Rightarrow> double" where
  "fleece_goap_goal_utility goap goal_idx bb =
     (if goal_idx \<ge> length (ga_goals goap) then d_zero
      else
        let g = ga_goals goap ! goal_idx;
            u = (if go_curve_id g \<noteq> []
                 then map_option (\<lambda>i. ga_utilities goap ! i) (index_of (\<lambda>u. ut_id u = go_curve_id g) (ga_utilities goap))
                 else None);
            score =
              (case u of
                 None \<Rightarrow> d_one
               | Some u \<Rightarrow>
                   if ut_dim u \<noteq> [] then
                     (case fleece_goap_bb_get bb (ut_dim u) of
                        (Some f, fsize) \<Rightarrow>
                          (case json_to_double (Some (take (unat fsize) f)) of
                             Some v \<Rightarrow> curve_score u v
                           | None \<Rightarrow> d_zero)
                      | (None, _) \<Rightarrow> first_y u)
                   else first_y u)
        in d_mul score (go_priority g))"

text \<open>The return code and \<open>*out\<close>.\<close>

definition fleece_goap_goal_satisfied ::
    "FleeceGoap \<Rightarrow> nat \<Rightarrow> FleeceGoapBlackboard \<Rightarrow> FleeceGoapEval \<Rightarrow> int \<times> bool" where
  "fleece_goap_goal_satisfied goap goal_idx bb eval =
     (case ev_goal_satisfied eval of
        None \<Rightarrow> (-1, False)
      | Some sat \<Rightarrow> if goal_idx \<ge> length (ga_goals goap) then (-1, False) else sat goal_idx bb False)"

text \<open>A goal is open when its evaluation succeeds and says it does not hold.\<close>

definition goal_open :: "(nat \<Rightarrow> FleeceGoapBlackboard \<Rightarrow> bool \<Rightarrow> int \<times> bool) \<Rightarrow> FleeceGoapBlackboard \<Rightarrow> nat \<Rightarrow> bool" where
  "goal_open sat bb g = (case sat g bb False of (rc, s) \<Rightarrow> rc = 0 \<and> \<not> s)"

fun select_loop :: "(nat \<Rightarrow> bool) \<Rightarrow> (nat \<Rightarrow> double) \<Rightarrow> nat list \<Rightarrow> nat option \<Rightarrow> double \<Rightarrow> nat option" where
  "select_loop opn score [] best best_score = best"
| "select_loop opn score (g # gs) best best_score =
     (if \<not> opn g then select_loop opn score gs best best_score
      else if d_less best_score (score g) then select_loop opn score gs (Some g) (score g)
      else select_loop opn score gs best best_score)"

text \<open>\<open>None\<close> is the result -1.\<close>

definition fleece_goap_select_goal ::
    "FleeceGoap \<Rightarrow> FleeceGoapBlackboard \<Rightarrow> FleeceGoapEval \<Rightarrow> double \<Rightarrow> nat option" where
  "fleece_goap_select_goal goap bb eval threshold =
     (case ev_goal_satisfied eval of
        None \<Rightarrow> None
      | Some sat \<Rightarrow>
          select_loop (goal_open sat bb) (\<lambda>g. fleece_goap_goal_utility goap g bb)
            [0..<length (ga_goals goap)] None threshold)"

text \<open>The first \<open>cap\<close> eligible goals in registration order are collected, and only these are ranked.\<close>

definition fleece_goap_rank_goals ::
    "FleeceGoap \<Rightarrow> FleeceGoapBlackboard \<Rightarrow> FleeceGoapEval \<Rightarrow> double \<Rightarrow> nat \<Rightarrow> nat list" where
  "fleece_goap_rank_goals goap bb eval threshold cap =
     (case ev_goal_satisfied eval of
        None \<Rightarrow> []
      | Some sat \<Rightarrow>
          let score = (\<lambda>g. fleece_goap_goal_utility goap g bb);
              picked = take cap (filter (\<lambda>g. goal_open sat bb g \<and> \<not> d_le (score g) threshold) [0..<length (ga_goals goap)])
          in insertion_sort (\<lambda>a b. d_less (score a) (score b)) picked)"

end
