(* ===== verification/Goap_Plan.thy ===== *)
theory Goap_Plan
  imports Goap_Tables
begin

text \<open>
  The A* search of \<open>src/planner/fleece_planner.c\<close>: \<open>fleece_goap_plan\<close> with its nodes, its goal
  test, the expansion of a node by every applicable action, the budgets on iterations, nodes and
  depth, the reconstruction of the plan through the parent indices, and the getters of a plan.
  The blackboards of nodes are values, since nothing shares them.
\<close>

section \<open>Nodes and plans\<close>

record SearchNode =
  sn_bb :: FleeceGoapBlackboard
  sn_parent :: "nat option"
  sn_action_idx :: "nat option"
  sn_depth :: nat
  sn_g :: double
  sn_f :: double

record NodeList =
  nl_items :: "SearchNode list"
  nl_cap :: nat

abbreviation sizeof_node :: nat where "sizeof_node \<equiv> 48"
abbreviation sizeof_plan :: nat where "sizeof_plan \<equiv> 32"

definition nodes_push :: "allocator \<Rightarrow> NodeList \<Rightarrow> SearchNode \<Rightarrow> NodeList option" where
  "nodes_push A nl node =
     (case ensure_cap A (nl_cap nl) (length (nl_items nl) + 1) sizeof_node of
        None \<Rightarrow> None
      | Some cap \<Rightarrow> Some \<lparr>nl_items = nl_items nl @ [node], nl_cap = cap\<rparr>)"

text \<open>
  The array of identifiers a plan owns.  When an allocation fails while it is filled, the plan is
  returned with no array, or with a pointer to one that has been freed, and with length 0.
\<close>

datatype action_ids = NullIds | FreedIds | Ids "bytes list"

record FleeceGoapPlan =
  pl_action_ids :: action_ids
  pl_length :: nat
  pl_total_cost :: double
  pl_iters :: nat

section \<open>Goals and costs\<close>

definition goal_holds :: "FleeceGoapEval \<Rightarrow> FleeceGoapBlackboard \<Rightarrow> nat \<Rightarrow> bool" where
  "goal_holds eval bb t =
     (case ev_goal_satisfied eval of None \<Rightarrow> False | Some sat \<Rightarrow> (case sat t bb False of (rc, s) \<Rightarrow> rc = 0 \<and> s))"

definition goals_met :: "nat list \<Rightarrow> FleeceGoapBlackboard \<Rightarrow> FleeceGoapEval \<Rightarrow> bool" where
  "goals_met targets bb eval = (ev_goal_satisfied eval \<noteq> None \<and> (\<forall>t\<in>set targets. goal_holds eval bb t))"

definition count_unsatisfied :: "nat list \<Rightarrow> FleeceGoapBlackboard \<Rightarrow> FleeceGoapEval \<Rightarrow> nat" where
  "count_unsatisfied targets bb eval =
     (if ev_goal_satisfied eval = None then length targets
      else length (filter (\<lambda>t. \<not> goal_holds eval bb t) targets))"

definition action_cost_for :: "FleeceGoap \<Rightarrow> nat \<Rightarrow> FleeceGoapBlackboard \<Rightarrow> FleeceGoapEval \<Rightarrow> double" where
  "action_cost_for goap a bb eval =
     (if ac_cost (ga_actions goap ! a) = [] then d_one
      else
        case ev_action_cost eval of
          None \<Rightarrow> d_one
        | Some cost \<Rightarrow> (case cost a bb d_one of (rc, c) \<Rightarrow> if rc = 0 \<and> \<not> d_less c d_zero then c else d_one))"

definition action_pre_ok :: "FleeceGoapEval \<Rightarrow> nat \<Rightarrow> FleeceGoapBlackboard \<Rightarrow> bool" where
  "action_pre_ok eval a bb =
     (case ev_action_pre eval of None \<Rightarrow> False | Some pre \<Rightarrow> (case pre a bb True of (rc, ok) \<Rightarrow> rc = 0 \<and> ok))"

definition action_result :: "FleeceGoapEval \<Rightarrow> nat \<Rightarrow> FleeceGoapBlackboard \<Rightarrow> FleeceGoapBlackboard option" where
  "action_result eval a bb =
     (case ev_action_apply eval of
        None \<Rightarrow> None
      | Some app \<Rightarrow> (case app a bb bb_empty of (rc, dst) \<Rightarrow> if rc \<noteq> 0 then None else Some dst))"

section \<open>The search\<close>

record search =
  sr_nodes :: NodeList
  sr_heap :: Heap
  sr_visited :: VisitedSet

text \<open>
  The loop over the actions of one node; \<open>None\<close> is the jump to the end of the function on a
  failed allocation.  A failed \<open>heap_push\<close> is ignored, as in the source.
\<close>

fun expand_actions ::
    "allocator \<Rightarrow> FleeceGoap \<Rightarrow> FleeceGoapEval \<Rightarrow> nat list \<Rightarrow> nat \<Rightarrow> nat list \<Rightarrow> search \<Rightarrow> search option" where
  "expand_actions A goap eval targets node_idx [] sr = Some sr"
| "expand_actions A goap eval targets node_idx (a # as) sr =
     (let node = nl_items (sr_nodes sr) ! node_idx in
      if \<not> action_pre_ok eval a (sn_bb node) then expand_actions A goap eval targets node_idx as sr
      else
        let c = action_cost_for goap a (sn_bb node) eval in
        case action_result eval a (sn_bb node) of
          None \<Rightarrow> expand_actions A goap eval targets node_idx as sr
        | Some dst \<Rightarrow>
            (case make_state_key A dst of
               None \<Rightarrow> None
             | Some (key, key_len) \<Rightarrow>
                 (case visited_add (sr_visited sr) key key_len of
                    (False, vs) \<Rightarrow> expand_actions A goap eval targets node_idx as (sr\<lparr>sr_visited := vs\<rparr>)
                  | (True, vs) \<Rightarrow>
                      let sr = sr\<lparr>sr_visited := vs\<rparr>;
                          g = d_add (sn_g node) c;
                          f = d_add g (d_of_u64 (of_nat (count_unsatisfied targets dst eval)));
                          child = \<lparr>sn_bb = dst, sn_parent = Some node_idx, sn_action_idx = Some a,
                                   sn_depth = sn_depth node + 1, sn_g = g, sn_f = f\<rparr>
                      in if sn_depth child > unat (ga_max_plan_depth goap)
                         then expand_actions A goap eval targets node_idx as sr
                         else
                           (case nodes_push A (sr_nodes sr) child of
                              None \<Rightarrow> None
                            | Some nodes \<Rightarrow>
                                let heap = snd (heap_push A (sr_heap sr) (length (nl_items nodes) - 1) f)
                                in expand_actions A goap eval targets node_idx as
                                     (sr\<lparr>sr_nodes := nodes, sr_heap := heap\<rparr>)))))"

text \<open>The walk from a node to the root; \<open>None\<close> when the fuel does not reach the root.\<close>

fun walk_parents :: "SearchNode list \<Rightarrow> nat \<Rightarrow> nat option \<Rightarrow> nat option list option" where
  "walk_parents nodes fuel None = Some []"
| "walk_parents nodes 0 (Some cur) = None"
| "walk_parents nodes (Suc fuel) (Some cur) =
     map_option (\<lambda>rest. sn_action_idx (nodes ! cur) # rest) (walk_parents nodes fuel (sn_parent (nodes ! cur)))"

definition fill_ids :: "allocator \<Rightarrow> FleeceGoap \<Rightarrow> nat option list \<Rightarrow> FleeceGoapPlan \<Rightarrow> FleeceGoapPlan" where
  "fill_ids A goap rev_actions plan =
     (let n_actions = length rev_actions - 1 in
      if \<not> A (length rev_actions * 4) then plan
      else if \<not> A ((if n_actions \<noteq> 0 then n_actions else 1) * sizeof_ptr) then plan\<lparr>pl_action_ids := NullIds\<rparr>
      else
        case dup_strings A (map (\<lambda>ai. Some (ac_id (ga_actions goap ! the ai))) (tl (rev rev_actions))) of
          None \<Rightarrow> plan\<lparr>pl_action_ids := FreedIds\<rparr>
        | Some ids \<Rightarrow> plan\<lparr>pl_action_ids := Ids ids, pl_length := n_actions\<rparr>)"

text \<open>The plan for a node that meets the goals; the outer \<open>None\<close> is an endless walk.\<close>

definition build_plan :: "allocator \<Rightarrow> FleeceGoap \<Rightarrow> SearchNode list \<Rightarrow> nat \<Rightarrow> nat \<Rightarrow> FleeceGoapPlan option option" where
  "build_plan A goap nodes node_idx iters =
     (if \<not> A sizeof_plan then Some None
      else
        case walk_parents nodes (length nodes) (Some node_idx) of
          None \<Rightarrow> None
        | Some rev_actions \<Rightarrow>
            Some (Some (fill_ids A goap rev_actions
              \<lparr>pl_action_ids = NullIds, pl_length = 0, pl_total_cost = sn_g (nodes ! node_idx), pl_iters = iters\<rparr>)))"

text \<open>The main loop; \<open>left\<close> is \<open>max_iters - iters\<close>.\<close>

fun search_loop ::
    "allocator \<Rightarrow> FleeceGoap \<Rightarrow> FleeceGoapEval \<Rightarrow> nat list \<Rightarrow> nat \<Rightarrow> nat \<Rightarrow> search \<Rightarrow> FleeceGoapPlan option option" where
  "search_loop A goap eval targets iters 0 sr = Some None"
| "search_loop A goap eval targets iters (Suc left) sr =
     (if length (nl_items (sr_nodes sr)) > unat (ga_max_nodes goap) then Some None
      else
        case heap_pop (sr_heap sr) of
          None \<Rightarrow> Some None
        | Some (node_idx, heap) \<Rightarrow>
            let sr = sr\<lparr>sr_heap := heap\<rparr>; nodes = nl_items (sr_nodes sr) in
            if goals_met targets (sn_bb (nodes ! node_idx)) eval
            then build_plan A goap nodes node_idx (iters + 1)
            else
              (case expand_actions A goap eval targets node_idx [0..<length (ga_actions goap)] sr of
                 None \<Rightarrow> Some None
               | Some sr' \<Rightarrow> search_loop A goap eval targets (iters + 1) left sr'))"

fun resolve_goals :: "FleeceGoap \<Rightarrow> bytes option list \<Rightarrow> nat list option" where
  "resolve_goals goap [] = Some []"
| "resolve_goals goap (i # is) =
     (case fleece_goap_find_goal goap i of
        None \<Rightarrow> None
      | Some t \<Rightarrow> (case resolve_goals goap is of None \<Rightarrow> None | Some ts \<Rightarrow> Some (t # ts)))"

definition plan_targets :: "allocator \<Rightarrow> FleeceGoap \<Rightarrow> bytes option list option \<Rightarrow> nat list option" where
  "plan_targets A goap goal_ids =
     (let n = length (ga_goals goap) in
      case goal_ids of
        Some (i # is) \<Rightarrow> if \<not> A (length (i # is) * 4) then None else resolve_goals goap (i # is)
      | _ \<Rightarrow> if n > 0 \<and> \<not> A (n * 4) then None else Some [0..<n])"

definition search_start ::
    "allocator \<Rightarrow> FleeceGoap \<Rightarrow> FleeceGoapBlackboard \<Rightarrow> nat list \<Rightarrow> FleeceGoapEval \<Rightarrow> search option" where
  "search_start A goap start targets eval =
     (case visited_init A (ga_max_nodes goap) of
        None \<Rightarrow> None
      | Some vs \<Rightarrow>
          let (rc, bb) = fleece_goap_bb_clone A start in
          if rc \<noteq> 0 then None
          else
            let f = d_of_u64 (of_nat (count_unsatisfied targets bb eval));
                root = \<lparr>sn_bb = bb, sn_parent = None, sn_action_idx = None, sn_depth = 0, sn_g = d_zero, sn_f = f\<rparr> in
            case nodes_push A \<lparr>nl_items = [], nl_cap = 0\<rparr> root of
              None \<Rightarrow> None
            | Some nodes \<Rightarrow>
                (case make_state_key A bb of
                   None \<Rightarrow> None
                 | Some (key, key_len) \<Rightarrow>
                     Some \<lparr>sr_nodes = nodes, sr_heap = snd (heap_push A heap_empty 0 f),
                           sr_visited = snd (visited_add vs key key_len)\<rparr>))"

text \<open>The inner option is the returned pointer; the outer one is \<open>None\<close> for a call that does not return.\<close>

definition fleece_goap_plan ::
    "allocator \<Rightarrow> FleeceGoap \<Rightarrow> FleeceGoapBlackboard \<Rightarrow> bytes option list option \<Rightarrow> FleeceGoapEval \<Rightarrow>
     FleeceGoapPlan option option" where
  "fleece_goap_plan A goap start goal_ids eval =
     (if ev_action_pre eval = None \<or> ev_action_apply eval = None \<or> ev_goal_satisfied eval = None then Some None
      else
        case plan_targets A goap goal_ids of
          None \<Rightarrow> Some None
        | Some targets \<Rightarrow>
            (case search_start A goap start targets eval of
               None \<Rightarrow> Some None
             | Some sr \<Rightarrow> search_loop A goap eval targets 0 (unat (ga_max_iters goap)) sr))"

section \<open>Getters of a plan\<close>

text \<open>Reading through a missing or freed array is never done: such a plan has length 0.\<close>

definition fleece_goap_plan_length :: "FleeceGoapPlan option \<Rightarrow> nat" where
  "fleece_goap_plan_length plan = (case plan of None \<Rightarrow> 0 | Some p \<Rightarrow> pl_length p)"

definition fleece_goap_plan_action_id :: "FleeceGoapPlan option \<Rightarrow> nat \<Rightarrow> bytes option" where
  "fleece_goap_plan_action_id plan i =
     (case plan of
        None \<Rightarrow> None
      | Some p \<Rightarrow>
          if i \<ge> pl_length p then None
          else (case pl_action_ids p of Ids ids \<Rightarrow> row_at ids i | _ \<Rightarrow> None))"

definition fleece_goap_plan_cost :: "FleeceGoapPlan option \<Rightarrow> double" where
  "fleece_goap_plan_cost plan = (case plan of None \<Rightarrow> d_zero | Some p \<Rightarrow> pl_total_cost p)"

definition fleece_goap_plan_iters :: "FleeceGoapPlan option \<Rightarrow> nat" where
  "fleece_goap_plan_iters plan = (case plan of None \<Rightarrow> 0 | Some p \<Rightarrow> pl_iters p)"

text \<open>Releasing a plan; \<open>None\<close> is a second release of an array that has already been freed.\<close>

definition fleece_goap_plan_destroy :: "FleeceGoapPlan option \<Rightarrow> unit option" where
  "fleece_goap_plan_destroy plan =
     (case plan of
        None \<Rightarrow> Some ()
      | Some p \<Rightarrow> (case pl_action_ids p of FreedIds \<Rightarrow> None | _ \<Rightarrow> Some ()))"

end
