(* ===== verification/Goap_Plan_Claims.thy ===== *)
theory Goap_Plan_Claims
  imports Goap_Plan
begin

text \<open>
  What the search of the planner guarantees.  The list of nodes is a forest of recorded steps:
  every node but the root names an earlier parent and an action whose precondition held there,
  whose effect produced its blackboard and whose cost is in its \<open>g\<close>.  Hence a returned plan can
  be executed, from the starting blackboard, to a state that meets the goals.
\<close>

section \<open>Executing a sequence of actions\<close>

text \<open>The reference: actions run one after the other by the same callbacks, adding up the cost.\<close>

fun run_actions ::
    "FleeceGoap \<Rightarrow> FleeceGoapEval \<Rightarrow> FleeceGoapBlackboard \<times> double \<Rightarrow> nat list \<Rightarrow> (FleeceGoapBlackboard \<times> double) option" where
  "run_actions goap eval st [] = Some st"
| "run_actions goap eval (bb, g) (a # as) =
     (if a < length (ga_actions goap) \<and> action_pre_ok eval a bb then
        (case action_result eval a bb of
           None \<Rightarrow> None
         | Some bb' \<Rightarrow> run_actions goap eval (bb', d_add g (action_cost_for goap a bb eval)) as)
      else None)"

lemma run_actions_append:
  "run_actions goap eval st (as @ bs) = Option.bind (run_actions goap eval st as) (\<lambda>st'. run_actions goap eval st' bs)"
  by (induction goap eval st as rule: run_actions.induct) (auto split: option.splits)

section \<open>Nodes record executable steps\<close>

definition node_step :: "FleeceGoap \<Rightarrow> FleeceGoapEval \<Rightarrow> FleeceGoapBlackboard \<Rightarrow> SearchNode list \<Rightarrow> nat \<Rightarrow> bool" where
  "node_step goap eval root ns i =
     (case sn_parent (ns ! i) of
        None \<Rightarrow> sn_action_idx (ns ! i) = None \<and> sn_bb (ns ! i) = root \<and> sn_g (ns ! i) = d_zero \<and> sn_depth (ns ! i) = 0
      | Some p \<Rightarrow> p < i \<and> (\<exists>a. sn_action_idx (ns ! i) = Some a \<and>
          run_actions goap eval (sn_bb (ns ! p), sn_g (ns ! p)) [a] = Some (sn_bb (ns ! i), sn_g (ns ! i)) \<and>
          sn_depth (ns ! i) = sn_depth (ns ! p) + 1 \<and> sn_depth (ns ! i) \<le> unat (ga_max_plan_depth goap)))"

definition nodes_inv :: "FleeceGoap \<Rightarrow> FleeceGoapEval \<Rightarrow> FleeceGoapBlackboard \<Rightarrow> SearchNode list \<Rightarrow> bool" where
  "nodes_inv goap eval root ns = (\<forall>i<length ns. node_step goap eval root ns i)"

lemma node_step_append:
  "i < length ns \<Longrightarrow> node_step goap eval root (ns @ ms) i = node_step goap eval root ns i"
  by (auto simp: node_step_def nth_append split: option.splits)

lemma nodes_inv_snoc:
  "nodes_inv goap eval root ns \<Longrightarrow> node_step goap eval root (ns @ [n]) (length ns) \<Longrightarrow> nodes_inv goap eval root (ns @ [n])"
  by (auto simp: nodes_inv_def less_Suc_eq node_step_append)

text \<open>The walk reaches the root, and read backwards it is an execution that ends in the node.\<close>

lemma walk_runs:
  assumes inv: "nodes_inv goap eval root ns"
  shows "i < length ns \<Longrightarrow> i < fuel \<Longrightarrow>
    \<exists>acts. walk_parents ns fuel (Some i) = Some (rev (None # map Some acts)) \<and>
      run_actions goap eval (root, d_zero) acts = Some (sn_bb (ns ! i), sn_g (ns ! i)) \<and>
      length acts = sn_depth (ns ! i) \<and> length acts \<le> unat (ga_max_plan_depth goap)"
proof (induction i arbitrary: fuel rule: less_induct)
  case (less i)
  obtain n where fuel: "fuel = Suc n" using less.prems by (cases fuel) auto
  have st: "node_step goap eval root ns i" using inv less.prems by (simp add: nodes_inv_def)
  show ?case
  proof (cases "sn_parent (ns ! i)")
    case None
    then show ?thesis using st fuel by (intro exI [of _ "[]"]) (simp add: node_step_def)
  next
    case (Some p)
    then obtain a where p: "p < i" and a: "sn_action_idx (ns ! i) = Some a"
      and run: "run_actions goap eval (sn_bb (ns ! p), sn_g (ns ! p)) [a] = Some (sn_bb (ns ! i), sn_g (ns ! i))"
      and depth: "sn_depth (ns ! i) = sn_depth (ns ! p) + 1" "sn_depth (ns ! i) \<le> unat (ga_max_plan_depth goap)"
      using st by (auto simp: node_step_def)
    from less.IH [of p n] p less.prems fuel obtain acts where
      w: "walk_parents ns n (Some p) = Some (rev (None # map Some acts))"
      and r: "run_actions goap eval (root, d_zero) acts = Some (sn_bb (ns ! p), sn_g (ns ! p))" and l: "length acts = sn_depth (ns ! p)"
      by auto
    show ?thesis
      using w r l a run depth fuel Some by (intro exI [of _ "acts @ [a]"]) (simp add: run_actions_append)
  qed
qed

section \<open>The heap holds indices of nodes\<close>

lemma sift_up_set: "sift_up items i f = (items', i') \<Longrightarrow> i < length items \<Longrightarrow> set items' \<subseteq> set items"
proof (induction i arbitrary: items rule: less_induct)
  case (less i)
  define p where "p = (i - 1) div 2"
  show ?case
  proof (cases "0 < i \<and> \<not> d_le (he_f (items ! p)) f")
    case True
    then have p: "p < i" by (auto simp: p_def)
    have "sift_up (items[i := items ! p]) p f = (items', i')"
      using less.prems(1) True by (simp add: sift_up.simps [of items i] p_def Let_def)
    from less.IH [OF p this] less.prems(2) p have "set items' \<subseteq> set (items[i := items ! p])" by simp
    also have "\<dots> \<subseteq> set items" using less.prems(2) p by (intro set_update_subsetI) auto
    finally show ?thesis .
  next
    case False
    then show ?thesis using less.prems(1) by (auto simp: sift_up.simps [of items i] p_def split: if_splits)
  qed
qed

lemma sift_down_set: "sift_down items i f = (items', i') \<Longrightarrow> set items' \<subseteq> set items"
proof (induction "length items - i" arbitrary: items i rule: less_induct)
  case less
  let ?m = "min_child items i"
  have unf: "sift_down items i f = (if i * 2 + 1 < length items \<and> \<not> d_le f (he_f (items ! ?m))
      then sift_down (items[i := items ! ?m]) ?m f else (items, i))"
    by (simp add: sift_down.simps [of items] min_child_def Let_def)
  show ?case
  proof (cases "i * 2 + 1 < length items \<and> \<not> d_le f (he_f (items ! ?m))")
    case True
    then have m: "i < ?m" "?m < length items" by (auto simp: min_child_def)
    have "sift_down (items[i := items ! ?m]) ?m f = (items', i')" using less.prems unf True by simp
    with less.hyps [of "items[i := items ! ?m]" ?m] m have "set items' \<subseteq> set (items[i := items ! ?m])" by simp
    also have "\<dots> \<subseteq> set items" using m by (intro set_update_subsetI) auto
    finally show ?thesis .
  next
    case False
    then have "sift_down items i f = (items, i)" using unf by (simp only: if_False)
    then show ?thesis using less.prems by simp
  qed
qed

lemma heap_push_set: "set (hp_items (snd (heap_push A hp idx f))) \<subseteq> insert \<lparr>he_f = f, he_idx = idx\<rparr> (set (hp_items hp))"
proof -
  let ?e = "\<lparr>he_f = f, he_idx = idx\<rparr>"
  obtain items i where s: "sift_up (hp_items hp @ [?e]) (length (hp_items hp)) f = (items, i)" by fastforce
  then have "set items \<subseteq> insert ?e (set (hp_items hp))" using sift_up_set [OF s] by simp
  then show ?thesis
    using s set_update_subset_insert [of items i ?e] by (auto simp: heap_push_def Let_def)
qed

lemma heap_pop_set:
  assumes "heap_pop hp = Some (idx, hp')"
  shows "(\<exists>e\<in>set (hp_items hp). idx = he_idx e) \<and> set (hp_items hp') \<subseteq> set (hp_items hp)"
proof (cases "hp_items hp")
  case (Cons first xs)
  let ?b = "butlast (hp_items hp)" and ?e = "last (hp_items hp)"
  obtain items i where s: "sift_down ?b 0 (he_f ?e) = (items, i)" by fastforce
  have "set items \<subseteq> set (hp_items hp)" using sift_down_set [OF s] by (auto dest: in_set_butlastD)
  moreover have "?e \<in> set (hp_items hp)" using Cons by simp
  ultimately show ?thesis
    using assms s Cons set_update_subset_insert [of items i ?e] by (auto simp: heap_pop_def)
qed (use assms in \<open>simp add: heap_pop_def\<close>)

section \<open>The search keeps the records\<close>

definition search_inv :: "FleeceGoap \<Rightarrow> FleeceGoapEval \<Rightarrow> FleeceGoapBlackboard \<Rightarrow> search \<Rightarrow> bool" where
  "search_inv goap eval root sr = (nodes_inv goap eval root (nl_items (sr_nodes sr)) \<and>
     (\<forall>e\<in>set (hp_items (sr_heap sr)). he_idx e < length (nl_items (sr_nodes sr))))"

lemma nodes_push_SomeD: "nodes_push A nl n = Some nl' \<Longrightarrow> nl_items nl' = nl_items nl @ [n]"
  by (auto simp: nodes_push_def split: option.splits)

lemma expand_inv:
  assumes "search_inv goap eval root sr" and "node_idx < length (nl_items (sr_nodes sr))"
    and "\<forall>a\<in>set as. a < length (ga_actions goap)"
    and "expand_actions A goap eval targets node_idx as sr = Some sr'"
  shows "search_inv goap eval root sr'"
  using assms
proof (induction as arbitrary: sr)
  case (Cons a as)
  let ?node = "nl_items (sr_nodes sr) ! node_idx"
  note IH = Cons.IH
  show ?case
  proof (cases "action_pre_ok eval a (sn_bb ?node)")
    case False
    then show ?thesis using Cons by simp
  next
    case pre: True
    show ?thesis
    proof (cases "action_result eval a (sn_bb ?node)")
      case None
      then show ?thesis using Cons pre by simp
    next
      case (Some dst)
      then obtain key len where key: "make_state_key A dst = Some (key, len)" using Cons.prems pre by (auto simp: Let_def split: option.splits)
      obtain fresh vs where vs: "visited_add (sr_visited sr) key len = (fresh, vs)" by fastforce
      let ?sr = "sr\<lparr>sr_visited := vs\<rparr>"
      have sr1: "search_inv goap eval root ?sr" using Cons.prems(1) by (simp add: search_inv_def)
      define g where "g = d_add (sn_g ?node) (action_cost_for goap a (sn_bb ?node) eval)"
      define f where "f = d_add g (d_of_u64 (of_nat (count_unsatisfied targets dst eval)))"
      define child where "child = \<lparr>sn_bb = dst, sn_parent = Some node_idx, sn_action_idx = Some a, sn_depth = sn_depth ?node + 1, sn_g = g, sn_f = f\<rparr>"
      show ?thesis
      proof (cases "fresh \<and> sn_depth ?node + 1 \<le> unat (ga_max_plan_depth goap)")
        case False
        then have "expand_actions A goap eval targets node_idx as ?sr = Some sr'"
          using Cons.prems(4) pre Some key vs by (auto simp: Let_def split: bool.splits)
        from IH [OF sr1 _ _ this] Cons.prems show ?thesis by simp
      next
        case True
        then obtain nodes where push: "nodes_push A (sr_nodes sr) child = Some nodes"
          and rest: "expand_actions A goap eval targets node_idx as
            (?sr\<lparr>sr_nodes := nodes, sr_heap := snd (heap_push A (sr_heap sr) (length (nl_items nodes) - 1) f)\<rparr>) = Some sr'"
          using Cons.prems(4) pre Some key vs unfolding child_def f_def g_def by (auto simp: Let_def split: option.splits)
        note items = nodes_push_SomeD [OF push]
        have "node_step goap eval root (nl_items (sr_nodes sr) @ [child]) (length (nl_items (sr_nodes sr)))"
          using Cons.prems(2,3) True pre Some by (simp add: node_step_def child_def g_def nth_append)
        then have "search_inv goap eval root (?sr\<lparr>sr_nodes := nodes, sr_heap := snd (heap_push A (sr_heap sr) (length (nl_items nodes) - 1) f)\<rparr>)"
          using Cons.prems(1) heap_push_set [of A "sr_heap sr" "length (nl_items nodes) - 1" f]
          by (fastforce simp: search_inv_def items nodes_inv_snoc)
        from IH [OF this _ _ rest] Cons.prems items show ?thesis by simp
      qed
    qed
  qed
qed simp

lemma start_inv:
  assumes "search_start A goap start targets eval = Some sr"
  obtains bb where "fleece_goap_bb_clone A start = (0, bb)" "search_inv goap eval bb sr"
proof -
  obtain bb nodes f where c: "fleece_goap_bb_clone A start = (0, bb)"
    and n: "nl_items nodes = [\<lparr>sn_bb = bb, sn_parent = None, sn_action_idx = None, sn_depth = 0, sn_g = d_zero, sn_f = f\<rparr>]"
    and sr: "sr_nodes sr = nodes" "sr_heap sr = snd (heap_push A heap_empty 0 f)"
    using assms by (auto simp: search_start_def Let_def split: option.splits prod.splits if_splits dest!: nodes_push_SomeD)
  have "nodes_inv goap eval bb (nl_items nodes)" by (simp add: n nodes_inv_def node_step_def)
  moreover have "\<forall>e\<in>set (hp_items (sr_heap sr)). he_idx e < length (nl_items nodes)"
    using heap_push_set [of A heap_empty 0 f] by (auto simp: sr n heap_empty_def)
  ultimately show ?thesis using that [OF c] by (simp add: search_inv_def sr)
qed

section \<open>Building the plan\<close>

lemma dup_strings_ids: "dup_strings A (map Some ss) = Some ds \<Longrightarrow> ds = ss"
  by (induction ss arbitrary: ds) (auto simp: dup_str_def Let_def split: option.splits if_splits)

lemma dup_strings_total: "\<forall>k. A k \<Longrightarrow> dup_strings A ss \<noteq> None"
  by (induction ss) (auto simp: dup_str_def Let_def split: option.splits)

text \<open>What is known of a plan: an execution of at most the allowed depth explains it.\<close>

definition plan_explained ::
    "allocator \<Rightarrow> FleeceGoap \<Rightarrow> FleeceGoapEval \<Rightarrow> FleeceGoapBlackboard \<Rightarrow> nat list \<Rightarrow> FleeceGoapPlan \<Rightarrow> bool" where
  "plan_explained A goap eval bb0 targets plan =
     (\<exists>acts bb. run_actions goap eval (bb0, d_zero) acts = Some (bb, pl_total_cost plan) \<and> goals_met targets bb eval \<and>
        length acts \<le> unat (ga_max_plan_depth goap) \<and>
        (pl_action_ids plan = Ids (map (\<lambda>a. ac_id (ga_actions goap ! a)) acts) \<and> pl_length plan = length acts \<or>
         pl_action_ids plan \<in> {NullIds, FreedIds} \<and> pl_length plan = 0 \<and> \<not> (\<forall>k. A k)))"

lemma build_plan_explained:
  assumes inv: "nodes_inv goap eval bb0 ns" and i: "i < length ns" and met: "goals_met targets (sn_bb (ns ! i)) eval"
  shows "\<exists>r. build_plan A goap ns i it = Some r \<and> (\<forall>plan. r = Some plan \<longrightarrow> plan_explained A goap eval bb0 targets plan \<and> pl_iters plan = it)"
proof -
  from walk_runs [OF inv i i] obtain acts where
    w: "walk_parents ns (length ns) (Some i) = Some (rev (None # map Some acts))"
    and run: "run_actions goap eval (bb0, d_zero) acts = Some (sn_bb (ns ! i), sn_g (ns ! i))"
    and depth: "length acts \<le> unat (ga_max_plan_depth goap)" by blast
  let ?ids = "map (\<lambda>a. ac_id (ga_actions goap ! a)) acts"
  let ?blank = "\<lparr>pl_action_ids = NullIds, pl_length = 0, pl_total_cost = sn_g (ns ! i), pl_iters = it\<rparr>"
  define p where "p = fill_ids A goap (rev (None # map Some acts)) ?blank"
  have names: "map (\<lambda>ai. Some (ac_id (ga_actions goap ! the ai))) (tl (rev (rev (None # map Some acts)))) = map Some ?ids"
    by simp
  have "plan_explained A goap eval bb0 targets p \<and> pl_iters p = it"
  proof (cases "dup_strings A (map Some ?ids)")
    case None
    moreover have "\<not> (\<forall>k. A k)" using None dup_strings_total by blast
    ultimately show ?thesis
      using run depth met unfolding plan_explained_def p_def fill_ids_def names by (auto simp: Let_def)
  next
    case (Some ds)
    then show ?thesis
      using run depth met dup_strings_ids [OF Some] unfolding plan_explained_def p_def fill_ids_def names by (auto simp: Let_def)
  qed
  then show ?thesis using w by (auto simp: build_plan_def p_def)
qed

lemma search_explained:
  assumes "search_inv goap eval bb0 sr"
  shows "\<exists>r. search_loop A goap eval targets it left sr = Some r \<and>
    (\<forall>plan. r = Some plan \<longrightarrow> plan_explained A goap eval bb0 targets plan \<and> it < pl_iters plan \<and> pl_iters plan \<le> it + left)"
  using assms
proof (induction left arbitrary: it sr)
  case (Suc left)
  show ?case
  proof (cases "length (nl_items (sr_nodes sr)) > unat (ga_max_nodes goap) \<or> heap_pop (sr_heap sr) = None")
    case True
    then show ?thesis by auto
  next
    case False
    then obtain i hp where pop: "heap_pop (sr_heap sr) = Some (i, hp)" by auto
    let ?ns = "nl_items (sr_nodes sr)"
    let ?sr = "sr\<lparr>sr_heap := hp\<rparr>"
    have i: "i < length ?ns" and inv: "search_inv goap eval bb0 ?sr"
      using heap_pop_set [OF pop] Suc.prems by (auto simp: search_inv_def)
    show ?thesis
    proof (cases "goals_met targets (sn_bb (?ns ! i)) eval")
      case True
      have "nodes_inv goap eval bb0 ?ns" using Suc.prems by (simp add: search_inv_def)
      from build_plan_explained [OF this i True, of A "it + 1"] False pop True show ?thesis by (auto simp: Let_def)
    next
      case notmet: False
      show ?thesis
      proof (cases "expand_actions A goap eval targets i [0..<length (ga_actions goap)] ?sr")
        case None
        then show ?thesis using False pop notmet by (auto simp: Let_def)
      next
        case (Some sr')
        have "search_inv goap eval bb0 sr'" using expand_inv [OF inv _ _ Some] i by simp
        from Suc.IH [OF this, of "it + 1"] False pop notmet Some show ?thesis by (fastforce simp: Let_def)
      qed
    qed
  qed
qed simp

section \<open>Claims\<close>

lemma clone_same:
  "\<forall>k. A k \<Longrightarrow> bb_ok bb \<Longrightarrow> \<forall>f\<in>set (bb_fields bb). gf_data f \<noteq> None \<Longrightarrow>
   fleece_goap_bb_clone A bb = (rc, bb') \<Longrightarrow> rc = 0 \<and> bb_fields bb' = bb_fields bb"
  using clone_loop_exact [of A bb_empty "bb_fields bb"] by (auto simp: fleece_goap_bb_clone_def bb_ok_def bb_empty_def)

text \<open>A search whose root meets the goals stops there.\<close>

lemma plan_at_root:
  assumes A: "\<forall>k. A k" and ev: "ev_action_pre eval \<noteq> None" "ev_action_apply eval \<noteq> None" "ev_goal_satisfied eval \<noteq> None"
    and t: "plan_targets A goap goal_ids = Some targets" and c: "fleece_goap_bb_clone A start = (0, bb)"
    and met: "goals_met targets bb eval" and budget: "0 < ga_max_iters goap" "0 < ga_max_nodes goap"
  shows "fleece_goap_plan A goap start goal_ids eval =
    Some (Some \<lparr>pl_action_ids = Ids [], pl_length = 0, pl_total_cost = d_zero, pl_iters = 1\<rparr>)"
proof -
  have "(\<forall>t\<in>set targets. goal_holds eval bb t)" using met by (simp add: goals_met_def)
  then have "filter (\<lambda>t. \<not> goal_holds eval bb t) targets = []" by (simp add: filter_empty_conv)
  then have cnt: "count_unsatisfied targets bb eval = 0" by (simp add: count_unsatisfied_def ev)
  obtain n where n: "unat (ga_max_iters goap) = Suc n" using budget by (cases "unat (ga_max_iters goap)") (auto simp: unat_eq_0)
  have nodes: "1 \<le> unat (ga_max_nodes goap)" using budget by (simp add: Suc_le_eq unat_gt_0)
  obtain vs where "visited_init A (ga_max_nodes goap) = Some vs" using A by (simp add: visited_init_def Let_def)
  moreover obtain key where "make_state_key A bb = Some key" using A by (simp add: make_state_key_def Let_def)
  ultimately show ?thesis
    using A ev t c met n nodes cnt
    by (auto simp: fleece_goap_plan_def search_start_def nodes_push_def ensure_cap_def heap_push_def heap_empty_def sift_up.simps
        heap_pop_def sift_down.simps build_plan_def fill_ids_def Let_def split: prod.splits option.splits)
qed

lemma plan_after_start:
  assumes ev: "ev_action_pre eval \<noteq> None" "ev_action_apply eval \<noteq> None" "ev_goal_satisfied eval \<noteq> None"
    and t: "plan_targets A goap goal_ids = Some targets" and sr: "search_start A goap start targets eval = Some sr"
  shows "\<exists>bb0 r. fleece_goap_bb_clone A start = (0, bb0) \<and> fleece_goap_plan A goap start goal_ids eval = Some r \<and>
    (\<forall>plan. r = Some plan \<longrightarrow> plan_explained A goap eval bb0 targets plan \<and> 0 < pl_iters plan \<and> pl_iters plan \<le> unat (ga_max_iters goap))"
proof -
  obtain bb0 where c: "fleece_goap_bb_clone A start = (0, bb0)" and inv: "search_inv goap eval bb0 sr" using start_inv [OF sr] .
  show ?thesis
    using search_explained [OF inv, of A targets 0 "unat (ga_max_iters goap)"] c by (simp add: fleece_goap_plan_def ev t sr)
qed

lemma plan_returns: "\<exists>r. fleece_goap_plan A goap start goal_ids eval = Some r"
  using plan_after_start [of eval A goap goal_ids] by (fastforce simp: fleece_goap_plan_def split: option.splits)

lemma plan_found:
  assumes p: "fleece_goap_plan A goap start goal_ids eval = Some (Some plan)"
  shows "\<exists>targets bb0. plan_targets A goap goal_ids = Some targets \<and> fleece_goap_bb_clone A start = (0, bb0) \<and>
    plan_explained A goap eval bb0 targets plan \<and> 0 < pl_iters plan \<and> pl_iters plan \<le> unat (ga_max_iters goap)"
proof -
  obtain targets sr where "ev_action_pre eval \<noteq> None" "ev_action_apply eval \<noteq> None" "ev_goal_satisfied eval \<noteq> None"
    and t: "plan_targets A goap goal_ids = Some targets" and "search_start A goap start targets eval = Some sr"
    using p by (auto simp: fleece_goap_plan_def split: if_splits option.splits)
  from plan_after_start [OF this] p t show ?thesis by auto
qed

text \<open>
  C26. A call of \<open>fleece_goap_plan\<close> always returns, whatever the callbacks compute and whichever
  allocations fail.  A plan it returns is sound: starting from the clone of the caller's
  blackboard, its actions can be executed one after the other (each precondition holds where the
  action is taken, each effect applies), the state reached satisfies every targeted goal, the
  total cost is the sum of the costs along the way, the identifiers are those of the actions, and
  there are at most \<open>max_plan_depth\<close> of them, found within \<open>max_iters\<close> iterations.  Only when
  an allocation failed can the identifiers be missing, and then the length is 0.  With memory
  available the clone equals the caller's blackboard, and goals that already hold give the empty
  plan.
\<close>

theorem plan_sound:
  "(\<exists>r. fleece_goap_plan A goap start goal_ids eval = Some r) \<and>
   (\<forall>plan. fleece_goap_plan A goap start goal_ids eval = Some (Some plan) \<longrightarrow>
      (\<exists>targets bb0. plan_targets A goap goal_ids = Some targets \<and> fleece_goap_bb_clone A start = (0, bb0) \<and>
         ((\<forall>k. A k) \<and> bb_ok start \<and> (\<forall>f\<in>set (bb_fields start). gf_data f \<noteq> None) \<longrightarrow> bb_fields bb0 = bb_fields start) \<and>
         plan_explained A goap eval bb0 targets plan \<and> 0 < pl_iters plan \<and> pl_iters plan \<le> unat (ga_max_iters goap))) \<and>
   (\<forall>targets bb. (\<forall>k. A k) \<and> ev_action_pre eval \<noteq> None \<and> ev_action_apply eval \<noteq> None \<and> ev_goal_satisfied eval \<noteq> None \<and>
      plan_targets A goap goal_ids = Some targets \<and> fleece_goap_bb_clone A start = (0, bb) \<and> goals_met targets bb eval \<and>
      0 < ga_max_iters goap \<and> 0 < ga_max_nodes goap \<longrightarrow>
      fleece_goap_plan A goap start goal_ids eval =
        Some (Some \<lparr>pl_action_ids = Ids [], pl_length = 0, pl_total_cost = d_zero, pl_iters = 1\<rparr>))"
proof (intro conjI allI impI)
  show "\<exists>r. fleece_goap_plan A goap start goal_ids eval = Some r" by (rule plan_returns)
next
  fix plan assume "fleece_goap_plan A goap start goal_ids eval = Some (Some plan)"
  from plan_found [OF this] obtain targets bb0 where f: "plan_targets A goap goal_ids = Some targets"
    "fleece_goap_bb_clone A start = (0, bb0)" "plan_explained A goap eval bb0 targets plan \<and> 0 < pl_iters plan \<and> pl_iters plan \<le> unat (ga_max_iters goap)"
    by blast
  show "\<exists>targets bb0. plan_targets A goap goal_ids = Some targets \<and> fleece_goap_bb_clone A start = (0, bb0) \<and>
      ((\<forall>k. A k) \<and> bb_ok start \<and> (\<forall>f\<in>set (bb_fields start). gf_data f \<noteq> None) \<longrightarrow> bb_fields bb0 = bb_fields start) \<and>
      plan_explained A goap eval bb0 targets plan \<and> 0 < pl_iters plan \<and> pl_iters plan \<le> unat (ga_max_iters goap)"
    using f clone_same [OF _ _ _ f(2)] by (intro exI [of _ targets] exI [of _ bb0]) blast
qed (elim conjE, rule plan_at_root)

text \<open>
  The example: a field \<open>s\<close> moves through five actions.  The goal state 9 is reached by the free
  moves \<open>a, b, c\<close> and by the two moves \<open>d, e\<close>, the first of which costs 5.
\<close>

definition demo_at :: "u8 \<Rightarrow> FleeceGoapBlackboard" where
  "demo_at c = \<lparr>bb_fields = [\<lparr>gf_name = [0x73], gf_data = Some [c], gf_size = 1, gf_is_shared = False\<rparr>], bb_cap = 4\<rparr>"

definition demo_moves :: "(u8 \<times> u8 \<times> double) list" where
  "demo_moves = [(0, 1, 0), (1, 2, 0), (2, 9, 0), (0, 3, 0x4014000000000000), (3, 9, 0)]"

definition demo_action :: "nat \<Rightarrow> GoapAction" where
  "demo_action i = \<lparr>ac_id = [of_nat i + 0x61], ac_name = [], ac_cost = [0x63], ac_exec = [], ac_dest = [], ac_dur = 0, ac_pre = [], ac_eff = []\<rparr>"

definition demo_goap :: "u32 \<Rightarrow> FleeceGoap" where
  "demo_goap depth = goap_zero\<lparr>ga_actions := map demo_action [0..<5], ga_goals := [\<lparr>go_id = [0x67], go_name = [], go_expr = [], go_priority = d_one, go_curve_id = []\<rparr>],
     ga_max_iters := 64, ga_max_nodes := 8, ga_max_plan_depth := depth\<rparr>"

definition demo_is :: "FleeceGoapBlackboard \<Rightarrow> u8 \<Rightarrow> bool" where
  "demo_is bb c = (fst (fleece_goap_bb_get bb [0x73]) = Some [c])"

definition demo_eval :: FleeceGoapEval where
  "demo_eval = \<lparr>ev_action_pre = Some (\<lambda>a bb _. (0, demo_is bb (fst (demo_moves ! a)))),
     ev_action_apply = Some (\<lambda>a bb _. (0, demo_at (fst (snd (demo_moves ! a))))),
     ev_goal_satisfied = Some (\<lambda>g bb _. (0, demo_is bb 9)),
     ev_action_cost = Some (\<lambda>a bb _. (0, snd (snd (demo_moves ! a))))\<rparr>"

theorem plan_sound_witness:
  "\<exists>acts bb. run_actions (demo_goap 3) demo_eval (demo_at 0, d_zero) acts = Some (bb, d_zero) \<and> goals_met [0] bb demo_eval \<and>
     length acts \<le> 3 \<and> map (\<lambda>a. ac_id (ga_actions (demo_goap 3) ! a)) acts = [[0x61], [0x62], [0x63]]"
proof -
  have plan: "fleece_goap_plan (\<lambda>_. True) (demo_goap 3) (demo_at 0) None demo_eval =
      Some (Some \<lparr>pl_action_ids = Ids [[0x61], [0x62], [0x63]], pl_length = 3, pl_total_cost = 0, pl_iters = 4\<rparr>)" by code_simp
  have t: "plan_targets (\<lambda>_. True) (demo_goap 3) None = Some [0]" and c: "fleece_goap_bb_clone (\<lambda>_. True) (demo_at 0) = (0, demo_at 0)"
    and d: "unat (ga_max_plan_depth (demo_goap 3)) = 3" by code_simp+
  from plan_sound [of "\<lambda>_. True" "demo_goap 3" "demo_at 0" None demo_eval] plan t c d show ?thesis by (fastforce simp: plan_explained_def)
qed

text \<open>
  A plan within the budget can be missed.  The visited set marks a state as seen before the
  depth limit is tested: here the state 9 is first produced at depth 3, beyond the limit of 2, and
  dropped, so the later path \<open>d, e\<close> of length 2 to the same state is not taken and the search
  reports that there is no plan, with most of its iterations and half of its nodes unused.
\<close>

theorem plan_missed_within_depth:
  "fleece_goap_plan (\<lambda>_. True) (demo_goap 2) (demo_at 0) None demo_eval = Some None \<and>
   run_actions (demo_goap 2) demo_eval (demo_at 0, d_zero) [3, 4] = Some (demo_at 9, 0x4014000000000000) \<and>
   goals_met [0] (demo_at 9) demo_eval \<and> plan_targets (\<lambda>_. True) (demo_goap 2) None = Some [0] \<and>
   length [3 :: nat, 4] \<le> unat (ga_max_plan_depth (demo_goap 2))"
proof (intro conjI)
  show "fleece_goap_plan (\<lambda>_. True) (demo_goap 2) (demo_at 0) None demo_eval = Some None" by code_simp
  show "run_actions (demo_goap 2) demo_eval (demo_at 0, d_zero) [3, 4] = Some (demo_at 9, 0x4014000000000000)" by code_simp
  show "goals_met [0] (demo_at 9) demo_eval" by code_simp
  show "plan_targets (\<lambda>_. True) (demo_goap 2) None = Some [0]" by code_simp
  show "length [3 :: nat, 4] \<le> unat (ga_max_plan_depth (demo_goap 2))" by code_simp
qed

text \<open>
  When duplicating an action identifier fails, the function does not return NULL but a plan
  that looks like the empty plan of goals already met: length 0, although the goals do not hold in
  the starting state.  Its array of identifiers has been freed, and releasing the plan frees it a
  second time.
\<close>

theorem plan_oom_double_free:
  "\<exists>plan. fleece_goap_plan (\<lambda>k. k \<noteq> 2) (demo_goap 3) (demo_at 0) None demo_eval = Some (Some plan) \<and>
     fleece_goap_plan_length (Some plan) = 0 \<and> \<not> goals_met [0] (demo_at 0) demo_eval \<and>
     fleece_goap_plan_destroy (Some plan) = None"
proof -
  have "fleece_goap_plan (\<lambda>k. k \<noteq> 2) (demo_goap 3) (demo_at 0) None demo_eval =
      Some (Some \<lparr>pl_action_ids = FreedIds, pl_length = 0, pl_total_cost = 0, pl_iters = 4\<rparr>)" by code_simp
  moreover have "\<not> goals_met [0] (demo_at 0) demo_eval" by code_simp
  ultimately show ?thesis by (simp add: fleece_goap_plan_length_def fleece_goap_plan_destroy_def)
qed

end
