(* ===== verification/Goap_Selection.thy ===== *)
theory Goap_Selection
  imports Goap_Tables
begin

text \<open>
  Goal selection: \<open>fleece_goap_rank_goals\<close> sorts by utility, and \<open>fleece_goap_select_goal\<close>
  returns the goal the ranking puts first.
\<close>

section \<open>Keeping the best\<close>

context shift_order
begin

lemma last_shift_in:
  "sorted_wrt (\<lambda>a b. \<not> gt b a) ys \<Longrightarrow> ys \<noteq> [] \<Longrightarrow> last (shift_in gt x ys) = (if gt (last ys) x then x else last ys)"
proof (induction ys)
  case (Cons y ys)
  have ne: "shift_in gt x ys \<noteq> []" by (metis mset_shift_in empty_not_add_mset mset.simps(1))
  show ?case
  proof (cases "ys = []")
    case True
    then show ?thesis by simp
  next
    case False
    then have "\<not> gt (last ys) y" using Cons.prems by simp
    then have "gt (last ys) x \<Longrightarrow> gt y x" using not_gt_trans by blast
    then show ?thesis using Cons False ne by auto
  qed
qed simp

end

lemma by_score: "\<forall>g. \<not> is_nan (s g) \<Longrightarrow> shift_order (\<lambda>a b. d_less (s a) (s b))"
  by unfold_locales (auto simp: d_less_def)

text \<open>The loop of the selection runs in step with the sort: its best goal is the last of the reversed prefix.\<close>

lemma select_with_best:
  assumes s: "\<forall>g. \<not> is_nan (s g)" "\<not> is_nan thr"
  shows "sorted_wrt (\<lambda>a b. \<not> d_less (s b) (s a)) acc \<Longrightarrow> acc \<noteq> [] \<Longrightarrow> d_less thr (s (last acc)) \<Longrightarrow>
    select_loop opn s gs (Some (last acc)) (s (last acc)) =
      Some (last (foldl (\<lambda>acc x. shift_in (\<lambda>a b. d_less (s a) (s b)) x acc) acc (filter (\<lambda>g. opn g \<and> \<not> d_le (s g) thr) gs)))"
proof (induction gs arbitrary: acc)
  case (Cons g gs)
  let ?gt = "\<lambda>a b. d_less (s a) (s b)"
  show ?case
  proof (cases "opn g \<and> \<not> d_le (s g) thr")
    case True
    define acc' where "acc' = shift_in ?gt g acc"
    have "sorted_wrt (\<lambda>a b. \<not> d_less (s b) (s a)) acc'"
      unfolding acc'_def by (rule shift_order.sorted_shift_in [OF by_score [OF s(1)] Cons.prems(1)])
    moreover have "last acc' = (if d_less (s (last acc)) (s g) then g else last acc)"
      unfolding acc'_def by (rule shift_order.last_shift_in [OF by_score [OF s(1)] Cons.prems(1,2)])
    moreover have "acc' \<noteq> []" unfolding acc'_def by (metis mset_shift_in empty_not_add_mset mset.simps(1))
    moreover have "d_less thr (s g)" using True s by (simp add: d_less_le)
    ultimately show ?thesis
      using Cons.IH [of acc'] Cons.prems True by (auto simp: acc'_def split: if_splits)
  next
    case False
    then have "opn g \<Longrightarrow> \<not> d_less (s (last acc)) (s g)"
      using Cons.prems(3) s by (auto simp: d_less_def d_le_def)
    then show ?thesis using Cons False by auto
  qed
qed simp

lemma select_from_none:
  assumes s: "\<forall>g. \<not> is_nan (s g)" "\<not> is_nan thr"
  shows "select_loop opn s gs None thr =
    (case insertion_sort (\<lambda>a b. d_less (s a) (s b)) (filter (\<lambda>g. opn g \<and> \<not> d_le (s g) thr) gs) of [] \<Rightarrow> None | g # _ \<Rightarrow> Some g)"
proof (induction gs)
  case (Cons g gs)
  show ?case
  proof (cases "opn g \<and> \<not> d_le (s g) thr")
    case True
    let ?r = "foldl (\<lambda>acc x. shift_in (\<lambda>a b. d_less (s a) (s b)) x acc) [g] (filter (\<lambda>g. opn g \<and> \<not> d_le (s g) thr) gs)"
    have "d_less thr (s g)" using True s by (simp add: d_less_le)
    then have "select_loop opn s (g # gs) None thr = Some (last ?r)"
      using select_with_best [OF s, of "[g]"] True by simp
    moreover have "mset ?r \<noteq> {#}" by (simp add: mset_insertion_fold)
    then have "rev ?r = last ?r # tl (rev ?r)" by (simp add: hd_rev [symmetric])
    then have "(case rev ?r of [] \<Rightarrow> None | g # _ \<Rightarrow> Some g) = Some (last ?r)" by (rule ssubst) simp
    moreover have "insertion_sort (\<lambda>a b. d_less (s a) (s b)) (filter (\<lambda>g. opn g \<and> \<not> d_le (s g) thr) (g # gs)) = rev ?r"
      using True by (simp add: insertion_sort_def)
    ultimately show ?thesis by simp
  next
    case False
    then show ?thesis using Cons s by (auto simp: d_less_le)
  qed
qed (simp add: insertion_sort_def)

text \<open>
  Where no utility is NaN, ranking writes the first \<open>cap\<close> open goals above the threshold, in
  registration order, each once, and sorts them by descending utility; when the array has room
  for every goal, all open goals above the threshold are ranked, and \<open>fleece_goap_select_goal\<close>
  returns the goal ranked first (the earliest registered among equals), or -1 exactly when the
  ranking is empty.
\<close>

theorem rank_goals_spec:
  assumes num: "\<forall>g<length (ga_goals goap). \<not> is_nan (fleece_goap_goal_utility goap g bb)" and thr: "\<not> is_nan thr"
    and sat: "ev_goal_satisfied eval = Some sat"
    and ranked: "ranked = fleece_goap_rank_goals goap bb eval thr cap"
    and pool: "pool = filter (\<lambda>g. goal_open sat bb g \<and> d_less thr (fleece_goap_goal_utility goap g bb)) [0..<length (ga_goals goap)]"
  shows "mset ranked = mset (take cap pool) \<and> distinct ranked \<and>
    sorted_wrt (\<lambda>a b. d_le (fleece_goap_goal_utility goap b bb) (fleece_goap_goal_utility goap a bb)) ranked \<and>
    (length (ga_goals goap) \<le> cap \<longrightarrow> mset ranked = mset pool \<and>
      fleece_goap_select_goal goap bb eval thr = (case ranked of [] \<Rightarrow> None | g # _ \<Rightarrow> Some g))"
proof -
  let ?s = "\<lambda>g. fleece_goap_goal_utility goap g bb"
  have s: "\<forall>g. \<not> is_nan (?s g)"
  proof
    show "\<not> is_nan (?s g)" for g
      using num by (cases "g < length (ga_goals goap)") (auto simp: fleece_goap_goal_utility_def is_nan_def d_mag_def)
  qed
  have pool': "pool = filter (\<lambda>g. goal_open sat bb g \<and> \<not> d_le (?s g) thr) [0..<length (ga_goals goap)]"
    unfolding pool using s thr by (simp add: d_less_le)
  have r: "ranked = insertion_sort (\<lambda>a b. d_less (?s a) (?s b)) (take cap pool)"
    unfolding ranked pool' by (simp add: fleece_goap_rank_goals_def sat)
  have "sorted_wrt (\<lambda>a b. d_le (?s b) (?s a)) ranked"
    using shift_order.sorted_insertion_sort [OF by_score [OF s], of "take cap pool"] s by (simp add: r d_less_le)
  moreover have "distinct ranked" by (simp add: r pool)
  moreover have "take cap pool = pool" if "length (ga_goals goap) \<le> cap"
  proof -
    have "length pool \<le> length (ga_goals goap)" unfolding pool by (rule order_trans [OF length_filter_le]) simp
    then show ?thesis using that by simp
  qed
  moreover have "fleece_goap_select_goal goap bb eval thr = (case ranked of [] \<Rightarrow> None | g # _ \<Rightarrow> Some g)" if "take cap pool = pool"
    using select_from_none [OF s thr] that by (simp add: fleece_goap_select_goal_def sat r pool')
  ultimately show ?thesis by (simp add: r)
qed

text \<open>Three goals of priorities 1, 2 and 2, the last of which is the first to be open.\<close>

definition demo_goal :: "double \<Rightarrow> GoapGoal" where
  "demo_goal p = \<lparr>go_id = [], go_name = [], go_expr = [], go_priority = p, go_curve_id = []\<rparr>"

definition demo_goals :: FleeceGoap where
  "demo_goals = goap_zero\<lparr>ga_goals := [demo_goal 0x3FF0000000000000, demo_goal 0x4000000000000000, demo_goal 0x4000000000000000]\<rparr>"

definition demo_open :: "nat \<Rightarrow> FleeceGoapBlackboard \<Rightarrow> bool \<Rightarrow> int \<times> bool" where
  "demo_open g bb out = (0, g = 1)"

definition demo_select :: FleeceGoapEval where
  "demo_select = \<lparr>ev_action_pre = None, ev_action_apply = None, ev_goal_satisfied = Some demo_open, ev_action_cost = None\<rparr>"

theorem rank_goals_spec_witness:
  "fleece_goap_select_goal demo_goals bb_empty demo_select d_zero =
     (case fleece_goap_rank_goals demo_goals bb_empty demo_select d_zero 3 of [] \<Rightarrow> None | g # _ \<Rightarrow> Some g) \<and>
   fleece_goap_rank_goals demo_goals bb_empty demo_select d_zero 3 = [2, 0]"
proof -
  have "\<forall>g\<in>set [0..<length (ga_goals demo_goals)]. \<not> is_nan (fleece_goap_goal_utility demo_goals g bb_empty)" by code_simp
  then have num: "\<forall>g<length (ga_goals demo_goals). \<not> is_nan (fleece_goap_goal_utility demo_goals g bb_empty)" by simp
  have len: "length (ga_goals demo_goals) \<le> 3" and thr: "\<not> is_nan d_zero" by code_simp+
  have sat: "ev_goal_satisfied demo_select = Some demo_open" by (simp add: demo_select_def)
  have "fleece_goap_rank_goals demo_goals bb_empty demo_select d_zero 3 = [2, 0]" by code_simp
  then show ?thesis using rank_goals_spec [OF num thr sat refl refl, of 3] len by simp
qed

end
