(* ===== verification/Goap_Blob.thy ===== *)
theory Goap_Blob
  imports Goap_Tables
begin

text \<open>
  The plan blob of \<open>src/planner/fleece_planner.c\<close>: the tables written as a CBOR document behind
  three magic bytes, and the parser that fills the tables from one.  A position in the blob is a
  natural number; the blob is shorter than \<open>2^32\<close> bytes, so the counters of parsed elements do not
  wrap.
\<close>

section \<open>Writing\<close>

definition text_size :: "bytes \<Rightarrow> nat" where
  "text_size s = fleece_cbor_text_size (of_nat (length s))"

definition write_text :: "bytes \<Rightarrow> bytes" where
  "write_text s = fleece_cbor_write_text s (of_nat (length s))"

abbreviation array_size :: "'a list \<Rightarrow> nat" where
  "array_size xs \<equiv> fleece_cbor_array_header_size (of_nat (length xs))"

abbreviation array_head :: "'a list \<Rightarrow> bytes" where
  "array_head xs \<equiv> fleece_cbor_write_array_header (of_nat (length xs))"

definition texts_size :: "bytes list \<Rightarrow> nat" where
  "texts_size ss = array_size ss + sum_list (map text_size ss)"

definition write_texts :: "bytes list \<Rightarrow> bytes" where
  "write_texts ss = array_head ss @ concat (map write_text ss)"

definition action_size :: "GoapAction \<Rightarrow> nat" where
  "action_size a = fleece_cbor_array_header_size 8
     + text_size (ac_id a) + text_size (ac_name a) + text_size (ac_cost a) + text_size (ac_dest a)
     + fleece_cbor_num_size (ac_dur a) + text_size (ac_exec a) + texts_size (ac_pre a) + texts_size (ac_eff a)"

definition goal_size :: "GoapGoal \<Rightarrow> nat" where
  "goal_size g = fleece_cbor_array_header_size 5
     + text_size (go_id g) + text_size (go_name g) + text_size (go_expr g)
     + fleece_cbor_num_size (go_priority g) + text_size (go_curve_id g)"

definition point_size :: "FleeceGoapPoint \<Rightarrow> nat" where
  "point_size p = fleece_cbor_array_header_size 2 + fleece_cbor_num_size (pt_x p) + fleece_cbor_num_size (pt_y p)"

definition utility_size :: "GoapUtility \<Rightarrow> nat" where
  "utility_size u = fleece_cbor_array_header_size 7
     + text_size (ut_id u) + text_size (ut_name u) + text_size (ut_dim u)
     + fleece_cbor_num_size (ut_x_min u) + fleece_cbor_num_size (ut_x_max u)
     + array_size (ut_points u) + sum_list (map point_size (ut_points u))"

definition mission_size :: "GoapMission \<Rightarrow> nat" where
  "mission_size m = fleece_cbor_array_header_size 4
     + text_size (mi_id m) + text_size (mi_name m) + texts_size (mi_goal_ids m) + text_size (mi_note m)"

definition serialize_body_size :: "FleeceGoap \<Rightarrow> nat" where
  "serialize_body_size g = fleece_cbor_array_header_size 5 + text_size (ga_name g)
     + array_size (ga_actions g) + sum_list (map action_size (ga_actions g))
     + array_size (ga_goals g) + sum_list (map goal_size (ga_goals g))
     + array_size (ga_utilities g) + sum_list (map utility_size (ga_utilities g))
     + array_size (ga_missions g) + sum_list (map mission_size (ga_missions g))"

definition write_action :: "GoapAction \<Rightarrow> bytes" where
  "write_action a = fleece_cbor_write_array_header 8
     @ write_text (ac_id a) @ write_text (ac_name a) @ write_text (ac_cost a) @ write_text (ac_dest a)
     @ fleece_cbor_write_num (ac_dur a) @ write_text (ac_exec a) @ write_texts (ac_pre a) @ write_texts (ac_eff a)"

definition write_goal :: "GoapGoal \<Rightarrow> bytes" where
  "write_goal g = fleece_cbor_write_array_header 5
     @ write_text (go_id g) @ write_text (go_name g) @ write_text (go_expr g)
     @ fleece_cbor_write_num (go_priority g) @ write_text (go_curve_id g)"

definition write_point :: "FleeceGoapPoint \<Rightarrow> bytes" where
  "write_point p = fleece_cbor_write_array_header 2 @ fleece_cbor_write_num (pt_x p) @ fleece_cbor_write_num (pt_y p)"

definition write_utility :: "GoapUtility \<Rightarrow> bytes" where
  "write_utility u = fleece_cbor_write_array_header 7
     @ write_text (ut_id u) @ write_text (ut_name u) @ write_text (ut_dim u)
     @ fleece_cbor_write_num (ut_x_min u) @ fleece_cbor_write_num (ut_x_max u)
     @ array_head (ut_points u) @ concat (map write_point (ut_points u))"

definition write_mission :: "GoapMission \<Rightarrow> bytes" where
  "write_mission m = fleece_cbor_write_array_header 4
     @ write_text (mi_id m) @ write_text (mi_name m) @ write_texts (mi_goal_ids m) @ write_text (mi_note m)"

definition serialize_body :: "FleeceGoap \<Rightarrow> bytes" where
  "serialize_body g = fleece_cbor_write_array_header 5 @ write_text (ga_name g)
     @ array_head (ga_actions g) @ concat (map write_action (ga_actions g))
     @ array_head (ga_goals g) @ concat (map write_goal (ga_goals g))
     @ array_head (ga_utilities g) @ concat (map write_utility (ga_utilities g))
     @ array_head (ga_missions g) @ concat (map write_mission (ga_missions g))"

text \<open>The bytes, with the size of the buffer allocated for them and \<open>*blob_size\<close>.\<close>

definition fleece_goap_serialize :: "allocator \<Rightarrow> FleeceGoap \<Rightarrow> (bytes \<times> nat \<times> u32) option" where
  "fleece_goap_serialize A goap =
     (let room = 3 + serialize_body_size goap in
      if \<not> A room then None
      else let buf = [0x46, 0x50, 2] @ serialize_body goap in Some (buf, room, of_nat (length buf)))"

section \<open>Reading\<close>

definition read_text :: "bytes \<Rightarrow> nat \<Rightarrow> nat \<Rightarrow> (bytes \<times> nat) option" where
  "read_text buf pos out_max =
     (case read_string 3 buf pos of
        None \<Rightarrow> None
      | Some (s, pos') \<Rightarrow> Some (cstr (take (out_max - 1) s), pos'))"

definition read_text_dyn :: "allocator \<Rightarrow> bytes \<Rightarrow> nat \<Rightarrow> (bytes \<times> nat) option" where
  "read_text_dyn A buf pos =
     (case read_string 3 buf pos of
        None \<Rightarrow> None
      | Some (s, pos') \<Rightarrow> if A (length s + 1) then Some (cstr s, pos') else None)"

text \<open>An array head that must announce \<open>n\<close> elements.\<close>

definition expect_array :: "u64 \<Rightarrow> bytes \<Rightarrow> nat \<Rightarrow> nat option" where
  "expect_array n buf pos =
     (case read_major 4 buf pos of None \<Rightarrow> None | Some (v, pos') \<Rightarrow> if v \<noteq> n then None else Some pos')"

definition read_texts :: "allocator \<Rightarrow> bytes \<Rightarrow> nat \<Rightarrow> (bytes option list option \<times> nat) option" where
  "read_texts A buf pos =
     (case read_major 4 buf pos of
        None \<Rightarrow> None
      | Some (v, pos) \<Rightarrow>
          if v = 0 then Some (None, pos)
          else if \<not> A (unat v * sizeof_ptr) then None
          else map_option (\<lambda>(ss, pos). (Some (map Some ss), pos)) (read_n (read_text_dyn A) (unat v) buf pos))"

definition read_action :: "allocator \<Rightarrow> bytes \<Rightarrow> nat \<Rightarrow> (FleeceGoapActionDef \<times> nat) option" where
  "read_action A buf pos = do {
     pos \<leftarrow> expect_array 8 buf pos;
     (s1, pos) \<leftarrow> read_text_dyn A buf pos;
     (s2, pos) \<leftarrow> read_text_dyn A buf pos;
     (s3, pos) \<leftarrow> read_text_dyn A buf pos;
     (s4, pos) \<leftarrow> read_text_dyn A buf pos;
     (dur, pos) \<leftarrow> fleece_cbor_read_num buf pos;
     (s5, pos) \<leftarrow> read_text_dyn A buf pos;
     (pre, pos) \<leftarrow> read_texts A buf pos;
     (eff, pos) \<leftarrow> read_texts A buf pos;
     Some (\<lparr>ad_id = Some s1, ad_name = Some s2, ad_cost = Some s3, ad_dest = Some s4, ad_dur = dur,
            ad_exec = Some s5, ad_pre = pre, ad_eff = eff\<rparr>, pos)
   }"

definition read_goal :: "allocator \<Rightarrow> bytes \<Rightarrow> nat \<Rightarrow> (FleeceGoapGoalDef \<times> nat) option" where
  "read_goal A buf pos = do {
     pos \<leftarrow> expect_array 5 buf pos;
     (s1, pos) \<leftarrow> read_text_dyn A buf pos;
     (s2, pos) \<leftarrow> read_text_dyn A buf pos;
     (s3, pos) \<leftarrow> read_text_dyn A buf pos;
     (priority, pos) \<leftarrow> fleece_cbor_read_num buf pos;
     (s4, pos) \<leftarrow> read_text_dyn A buf pos;
     Some (\<lparr>gd_id = Some s1, gd_name = Some s2, gd_expr = Some s3, gd_priority = priority, gd_curve_id = Some s4\<rparr>, pos)
   }"

definition read_mission :: "allocator \<Rightarrow> bytes \<Rightarrow> nat \<Rightarrow> (FleeceGoapMissionDef \<times> nat) option" where
  "read_mission A buf pos = do {
     pos \<leftarrow> expect_array 4 buf pos;
     (s1, pos) \<leftarrow> read_text_dyn A buf pos;
     (s2, pos) \<leftarrow> read_text_dyn A buf pos;
     (gids, pos) \<leftarrow> read_texts A buf pos;
     (s3, pos) \<leftarrow> read_text_dyn A buf pos;
     Some (\<lparr>md_id = Some s1, md_name = Some s2, md_goal_ids = gids, md_note = Some s3\<rparr>, pos)
   }"

text \<open>
  The points of a curve are read into a buffer of \<open>n_pts * 16\<close> bytes, a product taken in 64 bits:
  it can wrap, and then the loop writes past the end of the buffer.  Such a write is the outcome
  \<open>Overrun\<close>, after which nothing is known of the program.
\<close>

datatype 'a parse = Parsed 'a nat | Bad | Overrun

fun read_points_loop :: "nat \<Rightarrow> nat \<Rightarrow> bytes \<Rightarrow> nat \<Rightarrow> FleeceGoapPoint list parse" where
  "read_points_loop 0 room buf pos = Parsed [] pos"
| "read_points_loop (Suc n) room buf pos =
     (case Option.bind (expect_array 2 buf pos) (fleece_cbor_read_num buf) of
        None \<Rightarrow> Bad
      | Some (x, pos) \<Rightarrow>
          if room < 8 then Overrun
          else
            (case fleece_cbor_read_num buf pos of
               None \<Rightarrow> Bad
             | Some (y, pos) \<Rightarrow>
                 if room < 16 then Overrun
                 else
                   (case read_points_loop n (room - 16) buf pos of
                      Parsed ps pos \<Rightarrow> Parsed (\<lparr>pt_x = x, pt_y = y\<rparr> # ps) pos
                    | Bad \<Rightarrow> Bad
                    | Overrun \<Rightarrow> Overrun)))"

definition read_points :: "allocator \<Rightarrow> bytes \<Rightarrow> nat \<Rightarrow> FleeceGoapPoint list option parse" where
  "read_points A buf pos =
     (case read_major 4 buf pos of
        None \<Rightarrow> Bad
      | Some (n_pts, pos) \<Rightarrow>
          if n_pts = 0 then Parsed None pos
          else
            let room = unat (n_pts * 16) in
            if \<not> A room then Bad
            else
              (case read_points_loop (unat n_pts) room buf pos of
                 Parsed ps pos \<Rightarrow> Parsed (Some ps) pos
               | Bad \<Rightarrow> Bad
               | Overrun \<Rightarrow> Overrun))"

definition read_utility :: "allocator \<Rightarrow> bytes \<Rightarrow> nat \<Rightarrow> FleeceGoapUtilityDef parse" where
  "read_utility A buf pos =
     (case do {
        pos \<leftarrow> expect_array 7 buf pos;
        (s1, pos) \<leftarrow> read_text_dyn A buf pos;
        (s2, pos) \<leftarrow> read_text_dyn A buf pos;
        (s3, pos) \<leftarrow> read_text_dyn A buf pos;
        (x_min, pos) \<leftarrow> fleece_cbor_read_num buf pos;
        (x_max, pos) \<leftarrow> fleece_cbor_read_num buf pos;
        Some (\<lparr>ud_id = Some s1, ud_name = Some s2, ud_dim = Some s3, ud_x_min = x_min, ud_x_max = x_max, ud_points = None\<rparr>, pos)
      } of
        None \<Rightarrow> Bad
      | Some (def, pos) \<Rightarrow>
          (case read_points A buf pos of
             Parsed pts pos \<Rightarrow> Parsed (def\<lparr>ud_points := pts\<rparr>) pos
           | Bad \<Rightarrow> Bad
           | Overrun \<Rightarrow> Overrun))"

definition parse_of :: "('a \<times> nat) option \<Rightarrow> 'a parse" where
  "parse_of r = (case r of None \<Rightarrow> Bad | Some (x, pos) \<Rightarrow> Parsed x pos)"

text \<open>One table: an array head, then its rows, each registered as soon as it is read.\<close>

datatype load = Done nat | Stop | Wild

fun load_rows ::
    "(bytes \<Rightarrow> nat \<Rightarrow> 'd parse) \<Rightarrow> (FleeceGoap \<Rightarrow> 'd \<Rightarrow> int \<times> FleeceGoap) \<Rightarrow> nat \<Rightarrow> bytes \<Rightarrow> nat \<Rightarrow> FleeceGoap \<Rightarrow>
     load \<times> FleeceGoap" where
  "load_rows read add 0 buf pos goap = (Done pos, goap)"
| "load_rows read add (Suc n) buf pos goap =
     (case read buf pos of
        Parsed def pos \<Rightarrow>
          (case add goap def of (rc, goap) \<Rightarrow> if rc \<noteq> 0 then (Stop, goap) else load_rows read add n buf pos goap)
      | Bad \<Rightarrow> (Stop, goap)
      | Overrun \<Rightarrow> (Wild, goap))"

definition load_table ::
    "(bytes \<Rightarrow> nat \<Rightarrow> 'd parse) \<Rightarrow> (FleeceGoap \<Rightarrow> 'd \<Rightarrow> int \<times> FleeceGoap) \<Rightarrow> bytes \<Rightarrow> load \<times> FleeceGoap \<Rightarrow> load \<times> FleeceGoap" where
  "load_table read add buf st =
     (case st of
        (Done pos, goap) \<Rightarrow>
          (case read_major 4 buf pos of
             None \<Rightarrow> (Stop, goap)
           | Some (n, pos) \<Rightarrow> load_rows read add (unat n) buf pos goap)
      | _ \<Rightarrow> st)"

definition load_tables :: "allocator \<Rightarrow> bytes \<Rightarrow> load \<times> FleeceGoap \<Rightarrow> load \<times> FleeceGoap" where
  "load_tables A blob st =
     load_table (\<lambda>buf pos. parse_of (read_mission A buf pos)) (fleece_goap_add_mission A) blob
       (load_table (read_utility A) (fleece_goap_add_utility A) blob
         (load_table (\<lambda>buf pos. parse_of (read_goal A buf pos)) (fleece_goap_add_goal A) blob
           (load_table (\<lambda>buf pos. parse_of (read_action A buf pos)) (fleece_goap_add_action A) blob st)))"

text \<open>The return code with the tables; \<open>None\<close> is a write past the end of a buffer.\<close>

definition fleece_goap_deserialize :: "allocator \<Rightarrow> FleeceGoap \<Rightarrow> bytes \<Rightarrow> int option \<times> FleeceGoap" where
  "fleece_goap_deserialize A goap blob =
     (if take 3 blob \<noteq> [0x46, 0x50, 2] then (Some (-1), goap)
      else
        case expect_array 5 blob 3 of
          None \<Rightarrow> (Some (-1), goap)
        | Some pos \<Rightarrow>
            let goap = fleece_goap_reset goap in
            (case read_text blob pos FLEECE_GOAP_NAME_MAX of
               None \<Rightarrow> (Some (-1), goap)
             | Some (name, pos) \<Rightarrow>
                 (case load_tables A blob (Done pos, goap\<lparr>ga_name := name\<rparr>) of
                    (Done _, goap) \<Rightarrow> (Some 0, goap)
                  | (Stop, goap) \<Rightarrow> (Some (-1), goap)
                  | (Wild, goap) \<Rightarrow> (None, goap))))"

end
