(* ===== verification/Goap_Blob_Proofs.thy ===== *)
theory Goap_Blob_Proofs
  imports Goap_Blob
begin

text \<open>
  The plan blob: sizes against bytes, the codecs of its items, and the contract of one table of the
  document, which the four tables implement and from which the round trip follows.
\<close>

abbreviation mem :: allocator where "mem \<equiv> \<lambda>_. True"

section \<open>Sizes\<close>

lemma blob_text_length [size_simps]: "length (write_text s) = text_size s"
proof -
  have "unat (of_nat (length s) :: u32) \<le> length s" by (simp add: unat_of_nat)
  then show ?thesis
    by (auto simp: write_text_def text_size_def fleece_cbor_write_text_def fleece_cbor_text_size_def write_head_length word_gt_0)
qed

lemma array_header_length [size_simps]: "length (fleece_cbor_write_array_header n) = fleece_cbor_array_header_size n"
  by (simp add: fleece_cbor_write_array_header_def fleece_cbor_array_header_size_def write_head_length)

lemma concat_length: "(\<And>x. length (w x) = sz x) \<Longrightarrow> length (concat (map w xs)) = sum_list (map sz xs)"
  by (induction xs) simp_all

lemma write_texts_length [size_simps]: "length (write_texts ss) = texts_size ss"
  by (simp add: write_texts_def texts_size_def array_header_length concat_length [of write_text text_size] blob_text_length)

lemma write_action_length [size_simps]: "length (write_action a) = action_size a"
  by (simp add: write_action_def action_size_def size_simps)

lemma write_goal_length [size_simps]: "length (write_goal g) = goal_size g"
  by (simp add: write_goal_def goal_size_def size_simps)

lemma write_point_length [size_simps]: "length (write_point p) = point_size p"
  by (simp add: write_point_def point_size_def size_simps)

lemma write_utility_length [size_simps]: "length (write_utility u) = utility_size u"
  by (simp add: write_utility_def utility_size_def size_simps concat_length [of write_point point_size])

lemma write_mission_length [size_simps]: "length (write_mission m) = mission_size m"
  by (simp add: write_mission_def mission_size_def size_simps)

lemma serialize_body_length: "length (serialize_body g) = serialize_body_size g"
  by (simp add: serialize_body_def serialize_body_size_def size_simps concat_length [of write_action action_size]
      concat_length [of write_goal goal_size] concat_length [of write_utility utility_size] concat_length [of write_mission mission_size])

section \<open>Items\<close>

text \<open>What a decoder needs at a position: the encoded item, then the rest of the blob.\<close>

context item_codec
begin

lemma step: "ok x \<Longrightarrow> drop pos buf = enc x @ rest \<Longrightarrow>
   dec buf pos = Some (x, pos + length (enc x)) \<and> drop (pos + length (enc x)) buf = rest"
  by (simp add: dec_at drop_step)

end

definition text_ok :: "bytes \<Rightarrow> bool" where
  "text_ok s \<longleftrightarrow> length s < 2 ^ 32 \<and> 0 \<notin> set s"

interpretation dyn_text: item_codec write_text "read_text_dyn mem" text_ok
proof
  fix s pos buf rest assume s: "text_ok s" and d: "drop pos buf = write_text s @ rest"
  have e: "write_text s = enc_text s" by (simp add: write_text_def enc_text_def)
  have "read_string 3 buf pos = Some (s, pos + length (enc_text s))"
    using text_item.dec_at [of s pos buf rest] s d by (simp add: text_ok_def e)
  then show "read_text_dyn mem buf pos = Some (s, pos + length (write_text s))"
    using s by (simp add: read_text_dyn_def e text_ok_def)
qed

lemma array_at:
  assumes "drop pos buf = fleece_cbor_write_array_header n @ rest"
  shows "read_major 4 buf pos = Some (ucast n, pos + length (fleece_cbor_write_array_header n))"
    and "expect_array (ucast n) buf pos = Some (pos + length (fleece_cbor_write_array_header n))"
    and "drop (pos + length (fleece_cbor_write_array_header n)) buf = rest"
proof -
  show "drop (pos + length (fleece_cbor_write_array_header n)) buf = rest" using assms by (rule drop_step)
  show "read_major 4 buf pos = Some (ucast n, pos + length (fleece_cbor_write_array_header n))"
    using assms read_major_at [of pos buf 4 "ucast n" rest] by (simp add: fleece_cbor_write_array_header_def write_head_length)
  then show "expect_array (ucast n) buf pos = Some (pos + length (fleece_cbor_write_array_header n))"
    by (simp add: expect_array_def)
qed

lemma counted: "length xs < 2 ^ 32 \<Longrightarrow> unat (ucast (of_nat (length xs) :: u32) :: u64) = length xs"
  by (simp add: unat_of_nat_32)

lemma counted_0: "length xs < 2 ^ 32 \<Longrightarrow> (ucast (of_nat (length xs) :: u32) :: u64) = 0 \<longleftrightarrow> xs = []"
  by (metis counted length_0_conv unat_eq_0 list.size(3))

definition texts_ok :: "bytes list \<Rightarrow> bool" where
  "texts_ok ss \<longleftrightarrow> length ss < 2 ^ 32 \<and> (\<forall>s\<in>set ss. text_ok s)"

definition text_array :: "bytes list \<Rightarrow> bytes option list option" where
  "text_array ss = (if ss = [] then None else Some (map Some ss))"

lemma texts_at:
  assumes ok: "texts_ok ss" and d: "drop pos buf = write_texts ss @ rest"
  shows "read_texts mem buf pos = Some (text_array ss, pos + length (write_texts ss)) \<and> drop (pos + length (write_texts ss)) buf = rest"
proof -
  have d': "drop pos buf = array_head ss @ (concat (map write_text ss) @ rest)" using d by (simp add: write_texts_def)
  note h = array_at [OF d']
  have n: "length ss < 2 ^ 32" and all: "\<forall>s\<in>set ss. text_ok s" using ok by (simp_all add: texts_ok_def)
  have "read_texts mem buf pos = Some (text_array ss, pos + length (write_texts ss))"
  proof (cases "ss = []")
    case True
    then show ?thesis using h(1) by (simp add: read_texts_def text_array_def write_texts_def)
  next
    case False
    then have z: "(ucast (of_nat (length ss) :: u32) :: u64) \<noteq> 0" using counted_0 [OF n] by simp
    show ?thesis
      using h(1) z dyn_text.read_n_at [OF all h(3)] False
      by (simp add: read_texts_def text_array_def write_texts_def unat_of_nat_32 [OF n] add.assoc)
  qed
  then show ?thesis using drop_step [OF d] by simp
qed

lemma dup_strings_all: "dup_strings mem (map Some ss) = Some ss"
  by (induction ss) (simp_all add: dup_str_def)

lemma dup_text_array: "dup_array mem (text_array ss) = Some ss"
  by (simp add: dup_array_def text_array_def dup_strings_all)

lemma copy_field_fits: "length s < sz \<Longrightarrow> copy_field sz (Some s) = Some s"
  by (simp add: copy_field_def copy_str_def)

section \<open>The contract of a table\<close>

text \<open>
  A row that was written is read back as a definition whose registration appends that row to its
  table and leaves the rest of the planner as it was.
\<close>

locale blob_table =
  fixes put_row :: "'r \<Rightarrow> bytes"
    and read :: "bytes \<Rightarrow> nat \<Rightarrow> 'd parse"
    and add :: "FleeceGoap \<Rightarrow> 'd \<Rightarrow> int \<times> FleeceGoap"
    and rows :: "FleeceGoap \<Rightarrow> 'r list"
    and rest_of :: "FleeceGoap \<Rightarrow> 'k"
    and ok :: "'r \<Rightarrow> bool"
  assumes row_back: "ok r \<Longrightarrow> drop pos buf = put_row r @ rest \<Longrightarrow>
    \<exists>def g'. read buf pos = Parsed def (pos + length (put_row r)) \<and> add g def = (0, g') \<and> rows g' = rows g @ [r] \<and> rest_of g' = rest_of g"
begin

lemma rows_back:
  "\<forall>r\<in>set rs. ok r \<Longrightarrow> drop pos buf = concat (map put_row rs) @ rest \<Longrightarrow>
   \<exists>g'. load_rows read add (length rs) buf pos g = (Done (pos + length (concat (map put_row rs))), g') \<and>
     rows g' = rows g @ rs \<and> rest_of g' = rest_of g"
proof (induction rs arbitrary: pos g)
  case (Cons r rs)
  have d: "drop pos buf = put_row r @ (concat (map put_row rs) @ rest)" using Cons.prems(2) by simp
  from row_back [OF _ d, of g] Cons.prems(1) obtain def g' where
    r: "read buf pos = Parsed def (pos + length (put_row r))" "add g def = (0, g')" "rows g' = rows g @ [r]" "rest_of g' = rest_of g"
    by auto
  from Cons.IH [OF _ drop_step [OF d], of g'] Cons.prems(1) r show ?case by (auto simp: add.assoc)
qed simp

lemma table_back:
  assumes "\<forall>r\<in>set rs. ok r" and n: "length rs < 2 ^ 32" and d: "drop pos buf = array_head rs @ concat (map put_row rs) @ rest"
  shows "\<exists>g' pos'. load_table read add buf (Done pos, g) = (Done pos', g') \<and> drop pos' buf = rest \<and>
    rows g' = rows g @ rs \<and> rest_of g' = rest_of g"
proof -
  note h = array_at [OF d]
  from rows_back [OF assms(1) h(3), of g] drop_step [OF h(3)] show ?thesis
    by (auto simp: load_table_def h(1) unat_of_nat_32 [OF n])
qed

end

section \<open>The four tables\<close>

definition action_ok :: "GoapAction \<Rightarrow> bool" where
  "action_ok a \<longleftrightarrow> 0 \<notin> set (ac_id a @ ac_name a @ ac_cost a @ ac_exec a @ ac_dest a) \<and>
     length (ac_id a) < 64 \<and> length (ac_name a) < 64 \<and> length (ac_cost a) < 2048 \<and> length (ac_exec a) < 2048 \<and> length (ac_dest a) < 64 \<and>
     (\<forall>s\<in>set (ac_pre a @ ac_eff a). 0 \<notin> set s)"

definition goal_ok :: "GoapGoal \<Rightarrow> bool" where
  "goal_ok g \<longleftrightarrow> 0 \<notin> set (go_id g @ go_name g @ go_expr g @ go_curve_id g) \<and>
     length (go_id g) < 64 \<and> length (go_name g) < 64 \<and> length (go_expr g) < 2048 \<and> length (go_curve_id g) < 64"

definition utility_ok :: "GoapUtility \<Rightarrow> bool" where
  "utility_ok u \<longleftrightarrow> 0 \<notin> set (ut_id u @ ut_name u @ ut_dim u) \<and>
     length (ut_id u) < 64 \<and> length (ut_name u) < 64 \<and> length (ut_dim u) < 64 \<and>
     successively (\<lambda>p q. \<not> x_after p q) (ut_points u)"

definition mission_ok :: "GoapMission \<Rightarrow> bool" where
  "mission_ok m \<longleftrightarrow> 0 \<notin> set (mi_id m @ mi_name m @ mi_note m) \<and>
     length (mi_id m) < 64 \<and> length (mi_name m) < 64 \<and> length (mi_note m) < 128 \<and> (\<forall>s\<in>set (mi_goal_ids m). 0 \<notin> set s)"

text \<open>
  What the format can carry besides: numbers other than \<open>-0.0\<close>, and counts and lengths below \<open>2^32\<close>.
\<close>

definition short :: "'a list \<Rightarrow> bool" where
  "short xs \<longleftrightarrow> length xs < 2 ^ 32"

definition action_fits :: "GoapAction \<Rightarrow> bool" where
  "action_fits a \<longleftrightarrow> action_ok a \<and> ac_dur a \<noteq> d_minus_zero \<and> short (ac_pre a) \<and> short (ac_eff a) \<and> (\<forall>s\<in>set (ac_pre a @ ac_eff a). short s)"

definition goal_fits :: "GoapGoal \<Rightarrow> bool" where
  "goal_fits g \<longleftrightarrow> goal_ok g \<and> go_priority g \<noteq> d_minus_zero"

definition utility_fits :: "GoapUtility \<Rightarrow> bool" where
  "utility_fits u \<longleftrightarrow> utility_ok u \<and> ut_x_min u \<noteq> d_minus_zero \<and> ut_x_max u \<noteq> d_minus_zero \<and> short (ut_points u) \<and>
     (\<forall>p\<in>set (ut_points u). pt_x p \<noteq> d_minus_zero \<and> pt_y p \<noteq> d_minus_zero)"

definition mission_fits :: "GoapMission \<Rightarrow> bool" where
  "mission_fits m \<longleftrightarrow> mission_ok m \<and> short (mi_goal_ids m) \<and> (\<forall>s\<in>set (mi_goal_ids m). short s)"

lemma action_fitsD:
  assumes "action_fits a"
  shows "text_ok (ac_id a)" "text_ok (ac_name a)" "text_ok (ac_cost a)" "text_ok (ac_dest a)" "text_ok (ac_exec a)"
    "texts_ok (ac_pre a)" "texts_ok (ac_eff a)" "ac_dur a \<noteq> d_minus_zero"
  using assms by (auto simp: action_fits_def action_ok_def text_ok_def texts_ok_def short_def)

lemma goal_fitsD:
  assumes "goal_fits g"
  shows "text_ok (go_id g)" "text_ok (go_name g)" "text_ok (go_expr g)" "text_ok (go_curve_id g)" "go_priority g \<noteq> d_minus_zero"
  using assms by (auto simp: goal_fits_def goal_ok_def text_ok_def)

lemma utility_fitsD:
  assumes "utility_fits u"
  shows "text_ok (ut_id u)" "text_ok (ut_name u)" "text_ok (ut_dim u)" "ut_x_min u \<noteq> d_minus_zero" "ut_x_max u \<noteq> d_minus_zero"
    "length (ut_points u) < 2 ^ 32" "\<forall>p\<in>set (ut_points u). pt_x p \<noteq> d_minus_zero \<and> pt_y p \<noteq> d_minus_zero"
  using assms by (auto simp: utility_fits_def utility_ok_def text_ok_def short_def)

lemma mission_fitsD:
  assumes "mission_fits m"
  shows "text_ok (mi_id m)" "text_ok (mi_name m)" "text_ok (mi_note m)" "texts_ok (mi_goal_ids m)"
  using assms by (auto simp: mission_fits_def mission_ok_def text_ok_def texts_ok_def short_def)

lemma ensure_cap_all: "\<exists>c. ensure_cap mem cap n sz = Some c"
  by (simp add: ensure_cap_def Let_def)

subsection \<open>Actions\<close>

definition action_def :: "GoapAction \<Rightarrow> FleeceGoapActionDef" where
  "action_def a = \<lparr>ad_id = Some (ac_id a), ad_name = Some (ac_name a), ad_cost = Some (ac_cost a), ad_dest = Some (ac_dest a),
     ad_dur = ac_dur a, ad_exec = Some (ac_exec a), ad_pre = text_array (ac_pre a), ad_eff = text_array (ac_eff a)\<rparr>"

lemma read_action_at:
  assumes ok: "action_fits a" and d: "drop pos buf = write_action a @ rest"
  shows "read_action mem buf pos = Some (action_def a, pos + length (write_action a))"
proof -
  note F = action_fitsD [OF ok]
  note d0 = d [unfolded write_action_def append.assoc]
  note h = array_at [OF d0]
  note t1 = dyn_text.step [OF F(1) h(3)]
  note t2 = dyn_text.step [OF F(2) t1 [THEN conjunct2]]
  note t3 = dyn_text.step [OF F(3) t2 [THEN conjunct2]]
  note t4 = dyn_text.step [OF F(4) t3 [THEN conjunct2]]
  note nu = num_item.step [OF F(8) t4 [THEN conjunct2]]
  note t5 = dyn_text.step [OF F(5) nu [THEN conjunct2]]
  note p = texts_at [OF F(6) t5 [THEN conjunct2]]
  note e = texts_at [OF F(7) p [THEN conjunct2]]
  show ?thesis
    using h(2) by (simp add: read_action_def action_def_def write_action_def t1 t2 t3 t4 nu t5 p e)
qed

definition rest_actions :: "FleeceGoap \<Rightarrow> FleeceGoap" where
  "rest_actions g = g\<lparr>ga_actions := [], ga_action_cap := 0\<rparr>"

lemma add_action_back:
  assumes "action_fits a"
  shows "\<exists>g'. fleece_goap_add_action mem g (action_def a) = (0, g') \<and> ga_actions g' = ga_actions g @ [a] \<and> rest_actions g' = rest_actions g"
proof -
  have "fill_action mem (action_def a) = Some a"
    using assms by (simp add: fill_action_def action_def_def copy_field_fits dup_text_array action_fits_def action_ok_def)
  then show ?thesis
    using ensure_cap_all [of "ga_action_cap g" "length (ga_actions g) + 1" sizeof_action]
    by (auto simp: fleece_goap_add_action_def action_def_def rest_actions_def)
qed

interpretation actions: blob_table write_action "\<lambda>buf pos. parse_of (read_action mem buf pos)" "fleece_goap_add_action mem" ga_actions rest_actions action_fits
proof
  fix r pos buf rest g assume r: "action_fits r" and d: "drop pos buf = write_action r @ rest"
  show "\<exists>def g'. parse_of (read_action mem buf pos) = Parsed def (pos + length (write_action r)) \<and>
      fleece_goap_add_action mem g def = (0, g') \<and> ga_actions g' = ga_actions g @ [r] \<and> rest_actions g' = rest_actions g"
    using add_action_back [OF r, of g] by (simp add: read_action_at [OF r d] parse_of_def)
qed

subsection \<open>Goals\<close>

definition goal_def :: "GoapGoal \<Rightarrow> FleeceGoapGoalDef" where
  "goal_def g = \<lparr>gd_id = Some (go_id g), gd_name = Some (go_name g), gd_expr = Some (go_expr g),
     gd_priority = go_priority g, gd_curve_id = Some (go_curve_id g)\<rparr>"

lemma read_goal_at:
  assumes ok: "goal_fits g" and d: "drop pos buf = write_goal g @ rest"
  shows "read_goal mem buf pos = Some (goal_def g, pos + length (write_goal g))"
proof -
  note F = goal_fitsD [OF ok]
  note d0 = d [unfolded write_goal_def append.assoc]
  note h = array_at [OF d0]
  note t1 = dyn_text.step [OF F(1) h(3)]
  note t2 = dyn_text.step [OF F(2) t1 [THEN conjunct2]]
  note t3 = dyn_text.step [OF F(3) t2 [THEN conjunct2]]
  note nu = num_item.step [OF F(5) t3 [THEN conjunct2]]
  note t4 = dyn_text.step [OF F(4) nu [THEN conjunct2]]
  show ?thesis
    using h(2) by (simp add: read_goal_def goal_def_def write_goal_def t1 t2 t3 t4 nu)
qed

definition rest_goals :: "FleeceGoap \<Rightarrow> FleeceGoap" where
  "rest_goals g = g\<lparr>ga_goals := [], ga_goal_cap := 0\<rparr>"

lemma add_goal_back:
  assumes "goal_fits r"
  shows "\<exists>g'. fleece_goap_add_goal mem g (goal_def r) = (0, g') \<and> ga_goals g' = ga_goals g @ [r] \<and> rest_goals g' = rest_goals g"
proof -
  have "fill_goal (goal_def r) = Some r"
    using assms by (simp add: fill_goal_def goal_def_def copy_field_fits goal_fits_def goal_ok_def)
  then show ?thesis
    using ensure_cap_all [of "ga_goal_cap g" "length (ga_goals g) + 1" sizeof_goal]
    by (auto simp: fleece_goap_add_goal_def goal_def_def rest_goals_def)
qed

interpretation goals: blob_table write_goal "\<lambda>buf pos. parse_of (read_goal mem buf pos)" "fleece_goap_add_goal mem" ga_goals rest_goals goal_fits
proof
  fix r pos buf rest g assume r: "goal_fits r" and d: "drop pos buf = write_goal r @ rest"
  show "\<exists>def g'. parse_of (read_goal mem buf pos) = Parsed def (pos + length (write_goal r)) \<and>
      fleece_goap_add_goal mem g def = (0, g') \<and> ga_goals g' = ga_goals g @ [r] \<and> rest_goals g' = rest_goals g"
    using add_goal_back [OF r, of g] by (simp add: read_goal_at [OF r d] parse_of_def)
qed

subsection \<open>Missions\<close>

definition mission_def :: "GoapMission \<Rightarrow> FleeceGoapMissionDef" where
  "mission_def m = \<lparr>md_id = Some (mi_id m), md_name = Some (mi_name m), md_goal_ids = text_array (mi_goal_ids m), md_note = Some (mi_note m)\<rparr>"

lemma read_mission_at:
  assumes ok: "mission_fits m" and d: "drop pos buf = write_mission m @ rest"
  shows "read_mission mem buf pos = Some (mission_def m, pos + length (write_mission m))"
proof -
  note F = mission_fitsD [OF ok]
  note d0 = d [unfolded write_mission_def append.assoc]
  note h = array_at [OF d0]
  note t1 = dyn_text.step [OF F(1) h(3)]
  note t2 = dyn_text.step [OF F(2) t1 [THEN conjunct2]]
  note gs = texts_at [OF F(4) t2 [THEN conjunct2]]
  note t3 = dyn_text.step [OF F(3) gs [THEN conjunct2]]
  show ?thesis
    using h(2) by (simp add: read_mission_def mission_def_def write_mission_def t1 t2 t3 gs)
qed

definition rest_missions :: "FleeceGoap \<Rightarrow> FleeceGoap" where
  "rest_missions g = g\<lparr>ga_missions := [], ga_mission_cap := 0\<rparr>"

lemma add_mission_back:
  assumes "mission_fits r"
  shows "\<exists>g'. fleece_goap_add_mission mem g (mission_def r) = (0, g') \<and> ga_missions g' = ga_missions g @ [r] \<and> rest_missions g' = rest_missions g"
proof -
  have "fill_mission mem (mission_def r) = Some r"
    using assms by (simp add: fill_mission_def mission_def_def copy_field_fits dup_text_array mission_fits_def mission_ok_def)
  then show ?thesis
    using ensure_cap_all [of "ga_mission_cap g" "length (ga_missions g) + 1" sizeof_mission]
    by (auto simp: fleece_goap_add_mission_def mission_def_def rest_missions_def)
qed

interpretation missions: blob_table write_mission "\<lambda>buf pos. parse_of (read_mission mem buf pos)" "fleece_goap_add_mission mem" ga_missions rest_missions mission_fits
proof
  fix r pos buf rest g assume r: "mission_fits r" and d: "drop pos buf = write_mission r @ rest"
  show "\<exists>def g'. parse_of (read_mission mem buf pos) = Parsed def (pos + length (write_mission r)) \<and>
      fleece_goap_add_mission mem g def = (0, g') \<and> ga_missions g' = ga_missions g @ [r] \<and> rest_missions g' = rest_missions g"
    using add_mission_back [OF r, of g] by (simp add: read_mission_at [OF r d] parse_of_def)
qed

subsection \<open>Utility curves\<close>

text \<open>
  The sort of the points leaves a list alone whose neighbours are in order, and its result is such
  a list; neither needs the points to be comparable.
\<close>

lemma shift_fold_id:
  "successively (\<lambda>a b. \<not> gt a b) (rev acc @ xs) \<Longrightarrow> foldl (\<lambda>acc x. shift_in gt x acc) acc xs = rev xs @ acc"
proof (induction xs arbitrary: acc)
  case (Cons x xs)
  have "shift_in gt x acc = x # acc"
    using Cons.prems by (cases acc) (auto simp: successively_append_iff)
  then show ?case using Cons by simp
qed simp

lemma insertion_sort_id: "successively (\<lambda>a b. \<not> gt a b) xs \<Longrightarrow> insertion_sort gt xs = xs"
  using shift_fold_id [of gt "[]" xs] by (simp add: insertion_sort_def)

lemma shift_in_neighbours:
  "(\<And>a b. gt a b \<Longrightarrow> \<not> gt b a) \<Longrightarrow> successively (\<lambda>a b. \<not> gt b a) ys \<Longrightarrow> successively (\<lambda>a b. \<not> gt b a) (shift_in gt x ys)"
proof (induction ys)
  case (Cons y ys)
  have "hd (shift_in gt x ys) = x \<or> hd (shift_in gt x ys) = hd ys" "shift_in gt x ys \<noteq> []"
    by (cases ys; simp)+
  moreover have "ys = [] \<Longrightarrow> shift_in gt x ys = [x]" by simp
  ultimately show ?case using Cons by (cases ys) (auto simp: successively_Cons)
qed simp

lemma insertion_sort_neighbours:
  assumes "\<And>a b. gt a b \<Longrightarrow> \<not> gt b a"
  shows "successively (\<lambda>a b. \<not> gt a b) (insertion_sort gt xs)"
proof -
  have "successively (\<lambda>a b. \<not> gt b a) (foldl (\<lambda>acc x. shift_in gt x acc) acc xs)" if "successively (\<lambda>a b. \<not> gt b a) acc" for acc
    using that by (induction xs arbitrary: acc) (simp_all add: shift_in_neighbours assms)
  then show ?thesis by (simp add: insertion_sort_def successively_rev)
qed

lemma points_at:
  "\<forall>p\<in>set ps. pt_x p \<noteq> d_minus_zero \<and> pt_y p \<noteq> d_minus_zero \<Longrightarrow> drop pos buf = concat (map write_point ps) @ rest \<Longrightarrow>
   read_points_loop (length ps) (16 * length ps) buf pos = Parsed ps (pos + length (concat (map write_point ps)))"
proof (induction ps arbitrary: pos)
  case (Cons p ps)
  have d: "drop pos buf = fleece_cbor_write_array_header 2 @ fleece_cbor_write_num (pt_x p) @ fleece_cbor_write_num (pt_y p) @ (concat (map write_point ps) @ rest)"
    using Cons.prems(2) by (simp add: write_point_def [of p])
  have x: "pt_x p \<noteq> d_minus_zero" and y: "pt_y p \<noteq> d_minus_zero" using Cons.prems(1) by simp_all
  note h = array_at [OF d]
  note nx = num_item.step [OF x h(3)]
  note ny = num_item.step [OF y nx [THEN conjunct2]]
  note r = Cons.IH [OF _ ny [THEN conjunct2]]
  show ?case
    using h(2) nx ny r Cons.prems(1) by (simp add: write_point_def [of p])
qed simp

lemma read_points_at:
  assumes n: "length ps < 2 ^ 32" and ok: "\<forall>p\<in>set ps. pt_x p \<noteq> d_minus_zero \<and> pt_y p \<noteq> d_minus_zero"
    and d: "drop pos buf = array_head ps @ concat (map write_point ps) @ rest"
  shows "read_points mem buf pos =
    Parsed (if ps = [] then None else Some ps) (pos + length (array_head ps) + length (concat (map write_point ps)))"
proof -
  note h = array_at [OF d]
  let ?n = "ucast (of_nat (length ps) :: u32) :: u64"
  have c: "unat ?n = length ps" using n by (rule counted)
  have room: "unat (?n * 16) = 16 * length ps"
  proof -
    have "unat ?n * unat (16 :: u64) < 2 ^ 64" using n c by simp
    then show ?thesis using c by (simp add: unat_mult_lem [THEN iffD1])
  qed
  show ?thesis
  proof (cases "ps = []")
    case True
    then show ?thesis using h(1) by (simp add: read_points_def)
  next
    case False
    then have z: "?n \<noteq> 0" using counted_0 [OF n] by simp
    have r: "read_points_loop (unat ?n) (unat (?n * 16)) buf (pos + length (array_head ps)) =
        Parsed ps (pos + length (array_head ps) + length (concat (map write_point ps)))"
      unfolding c room by (rule points_at [OF ok h(3)])
    show ?thesis
      unfolding read_points_def h(1) option.case prod.case if_not_P [OF z] Let_def by (simp only: r parse.case not_True_eq_False if_False False)
  qed
qed

definition utility_def :: "GoapUtility \<Rightarrow> FleeceGoapUtilityDef" where
  "utility_def u = \<lparr>ud_id = Some (ut_id u), ud_name = Some (ut_name u), ud_dim = Some (ut_dim u), ud_x_min = ut_x_min u,
     ud_x_max = ut_x_max u, ud_points = (if ut_points u = [] then None else Some (ut_points u))\<rparr>"

lemma read_utility_at:
  assumes ok: "utility_fits u" and d: "drop pos buf = write_utility u @ rest"
  shows "read_utility mem buf pos = Parsed (utility_def u) (pos + length (write_utility u))"
proof -
  note F = utility_fitsD [OF ok]
  note d0 = d [unfolded write_utility_def append.assoc]
  note h = array_at [OF d0]
  note t1 = dyn_text.step [OF F(1) h(3)]
  note t2 = dyn_text.step [OF F(2) t1 [THEN conjunct2]]
  note t3 = dyn_text.step [OF F(3) t2 [THEN conjunct2]]
  note n1 = num_item.step [OF F(4) t3 [THEN conjunct2]]
  note n2 = num_item.step [OF F(5) n1 [THEN conjunct2]]
  note ps = read_points_at [OF F(6,7) n2 [THEN conjunct2]]
  show ?thesis
    using h(2) by (simp add: read_utility_def utility_def_def write_utility_def t1 t2 t3 n1 n2 ps)
qed

definition rest_utilities :: "FleeceGoap \<Rightarrow> FleeceGoap" where
  "rest_utilities g = g\<lparr>ga_utilities := [], ga_utility_cap := 0\<rparr>"

lemma add_utility_back:
  assumes "utility_fits r"
  shows "\<exists>g'. fleece_goap_add_utility mem g (utility_def r) = (0, g') \<and> ga_utilities g' = ga_utilities g @ [r] \<and> rest_utilities g' = rest_utilities g"
proof -
  have "successively (\<lambda>p q. \<not> x_after p q) (ut_points r)" using assms by (simp add: utility_fits_def utility_ok_def)
  then have "fill_utility mem (utility_def r) = Some r"
    using assms by (simp add: fill_utility_def utility_def_def fill_points_def copy_field_fits insertion_sort_id utility_fits_def utility_ok_def)
  then show ?thesis
    using ensure_cap_all [of "ga_utility_cap g" "length (ga_utilities g) + 1" sizeof_utility]
    by (auto simp: fleece_goap_add_utility_def utility_def_def rest_utilities_def)
qed

interpretation utilities: blob_table write_utility "read_utility mem" "fleece_goap_add_utility mem" ga_utilities rest_utilities utility_fits
proof
  fix r pos buf rest g assume r: "utility_fits r" and d: "drop pos buf = write_utility r @ rest"
  show "\<exists>def g'. read_utility mem buf pos = Parsed def (pos + length (write_utility r)) \<and>
      fleece_goap_add_utility mem g def = (0, g') \<and> ga_utilities g' = ga_utilities g @ [r] \<and> rest_utilities g' = rest_utilities g"
    using add_utility_back [OF r, of g] by (simp add: read_utility_at [OF r d])
qed

end
