(* ===== verification/Goap_Blob_Claims.thy ===== *)
theory Goap_Blob_Claims
  imports Goap_Blob_Proofs
begin

text \<open>
  The round trip of plan blobs: tables written by the serializer are read back unchanged.
\<close>

section \<open>Round trip\<close>

definition goap_fits :: "FleeceGoap \<Rightarrow> bool" where
  "goap_fits g \<longleftrightarrow> 0 \<notin> set (ga_name g) \<and> length (ga_name g) < 64 \<and>
     short (ga_actions g) \<and> short (ga_goals g) \<and> short (ga_utilities g) \<and> short (ga_missions g) \<and>
     (\<forall>r\<in>set (ga_actions g). action_fits r) \<and> (\<forall>r\<in>set (ga_goals g). goal_fits r) \<and>
     (\<forall>r\<in>set (ga_utilities g). utility_fits r) \<and> (\<forall>r\<in>set (ga_missions g). mission_fits r)"

lemma rest_same:
  "rest_actions g' = rest_actions g \<Longrightarrow> ga_name g' = ga_name g \<and> ga_goals g' = ga_goals g \<and> ga_utilities g' = ga_utilities g \<and>
     ga_missions g' = ga_missions g \<and> ga_max_iters g' = ga_max_iters g \<and> ga_max_nodes g' = ga_max_nodes g \<and> ga_max_plan_depth g' = ga_max_plan_depth g"
  "rest_goals g' = rest_goals g \<Longrightarrow> ga_name g' = ga_name g \<and> ga_actions g' = ga_actions g \<and> ga_utilities g' = ga_utilities g \<and>
     ga_missions g' = ga_missions g \<and> ga_max_iters g' = ga_max_iters g \<and> ga_max_nodes g' = ga_max_nodes g \<and> ga_max_plan_depth g' = ga_max_plan_depth g"
  "rest_utilities g' = rest_utilities g \<Longrightarrow> ga_name g' = ga_name g \<and> ga_actions g' = ga_actions g \<and> ga_goals g' = ga_goals g \<and>
     ga_missions g' = ga_missions g \<and> ga_max_iters g' = ga_max_iters g \<and> ga_max_nodes g' = ga_max_nodes g \<and> ga_max_plan_depth g' = ga_max_plan_depth g"
  "rest_missions g' = rest_missions g \<Longrightarrow> ga_name g' = ga_name g \<and> ga_actions g' = ga_actions g \<and> ga_goals g' = ga_goals g \<and>
     ga_utilities g' = ga_utilities g \<and> ga_max_iters g' = ga_max_iters g \<and> ga_max_nodes g' = ga_max_nodes g \<and> ga_max_plan_depth g' = ga_max_plan_depth g"
  by (cases g; cases g'; simp add: rest_actions_def rest_goals_def rest_utilities_def rest_missions_def)+

lemma tables_back:
  assumes fits: "goap_fits g" and empty: "ga_actions g0 = []" "ga_goals g0 = []" "ga_utilities g0 = []" "ga_missions g0 = []"
    and d: "drop pos buf = array_head (ga_actions g) @ concat (map write_action (ga_actions g))
      @ array_head (ga_goals g) @ concat (map write_goal (ga_goals g))
      @ array_head (ga_utilities g) @ concat (map write_utility (ga_utilities g))
      @ array_head (ga_missions g) @ concat (map write_mission (ga_missions g)) @ rest"
  shows "\<exists>g' pos'. load_tables mem buf (Done pos, g0) = (Done pos', g') \<and> ga_name g' = ga_name g0 \<and>
    ga_actions g' = ga_actions g \<and> ga_goals g' = ga_goals g \<and> ga_utilities g' = ga_utilities g \<and> ga_missions g' = ga_missions g \<and>
    ga_max_iters g' = ga_max_iters g0 \<and> ga_max_nodes g' = ga_max_nodes g0 \<and> ga_max_plan_depth g' = ga_max_plan_depth g0"
proof -
  have F: "\<forall>r\<in>set (ga_actions g). action_fits r" "length (ga_actions g) < 2 ^ 32" "\<forall>r\<in>set (ga_goals g). goal_fits r" "length (ga_goals g) < 2 ^ 32"
    "\<forall>r\<in>set (ga_utilities g). utility_fits r" "length (ga_utilities g) < 2 ^ 32" "\<forall>r\<in>set (ga_missions g). mission_fits r" "length (ga_missions g) < 2 ^ 32"
    using fits by (simp_all add: goap_fits_def short_def)
  from actions.table_back [OF F(1,2) d, of g0] obtain g1 p1 where
    1: "load_table (\<lambda>buf pos. parse_of (read_action mem buf pos)) (fleece_goap_add_action mem) buf (Done pos, g0) = (Done p1, g1)"
      "ga_actions g1 = ga_actions g0 @ ga_actions g" and r1: "rest_actions g1 = rest_actions g0"
    and d1: "drop p1 buf = array_head (ga_goals g) @ concat (map write_goal (ga_goals g))
      @ array_head (ga_utilities g) @ concat (map write_utility (ga_utilities g))
      @ array_head (ga_missions g) @ concat (map write_mission (ga_missions g)) @ rest" by auto
  from goals.table_back [OF F(3,4) d1, of g1] obtain g2 p2 where
    2: "load_table (\<lambda>buf pos. parse_of (read_goal mem buf pos)) (fleece_goap_add_goal mem) buf (Done p1, g1) = (Done p2, g2)"
      "ga_goals g2 = ga_goals g1 @ ga_goals g" and r2: "rest_goals g2 = rest_goals g1"
    and d2: "drop p2 buf = array_head (ga_utilities g) @ concat (map write_utility (ga_utilities g))
      @ array_head (ga_missions g) @ concat (map write_mission (ga_missions g)) @ rest" by auto
  from utilities.table_back [OF F(5,6) d2, of g2] obtain g3 p3 where
    3: "load_table (read_utility mem) (fleece_goap_add_utility mem) buf (Done p2, g2) = (Done p3, g3)"
      "ga_utilities g3 = ga_utilities g2 @ ga_utilities g" and r3: "rest_utilities g3 = rest_utilities g2"
    and d3: "drop p3 buf = array_head (ga_missions g) @ concat (map write_mission (ga_missions g)) @ rest" by auto
  from missions.table_back [OF F(7,8) d3, of g3] obtain g4 p4 where
    4: "load_table (\<lambda>buf pos. parse_of (read_mission mem buf pos)) (fleece_goap_add_mission mem) buf (Done p3, g3) = (Done p4, g4)"
      "ga_missions g4 = ga_missions g3 @ ga_missions g" and r4: "rest_missions g4 = rest_missions g3" by auto
  show ?thesis
    using 1 2 3 4 rest_same(1) [OF r1] rest_same(2) [OF r2] rest_same(3) [OF r3] rest_same(4) [OF r4] empty
    by (intro exI [of _ g4] exI [of _ p4]) (simp add: load_tables_def)
qed

text \<open>
  C35. Serializing tables and parsing the blob gives the same tables back.  The tables are those the
  planner can hold (strings that fit their fields, curve points in order), with counts and lengths
  below \<open>2^32\<close> and no number \<open>-0.0\<close>, which the number format of the blob cannot carry.  The bytes
  fill the allocated buffer exactly, the reported size is their number, the parser returns 0
  whatever the planner held before, and the search budgets are not touched.
\<close>

theorem blob_roundtrip:
  assumes fits: "goap_fits g" and A: "\<forall>k. A k" and blob: "fleece_goap_serialize A g = Some (blob, room, sz)" and len: "room < 2 ^ 32"
  shows "length blob = room \<and> unat sz = room \<and>
    (\<exists>g'. fleece_goap_deserialize A g0 blob = (Some 0, g') \<and> ga_name g' = ga_name g \<and> ga_actions g' = ga_actions g \<and>
      ga_goals g' = ga_goals g \<and> ga_utilities g' = ga_utilities g \<and> ga_missions g' = ga_missions g \<and>
      ga_max_iters g' = ga_max_iters g0 \<and> ga_max_nodes g' = ga_max_nodes g0 \<and> ga_max_plan_depth g' = ga_max_plan_depth g0)"
proof -
  have mem: "A = mem" using A by auto
  have b: "blob = [0x46, 0x50, 2] @ serialize_body g" and room: "length blob = room" and "sz = of_nat (length blob)"
    using blob by (auto simp: fleece_goap_serialize_def mem Let_def serialize_body_length)
  then have sz: "unat sz = room" using len by (simp only: unat_of_nat_32)
  have d: "drop 3 blob = fleece_cbor_write_array_header 5 @ (write_text (ga_name g) @ (array_head (ga_actions g) @ concat (map write_action (ga_actions g))
      @ array_head (ga_goals g) @ concat (map write_goal (ga_goals g))
      @ array_head (ga_utilities g) @ concat (map write_utility (ga_utilities g))
      @ array_head (ga_missions g) @ concat (map write_mission (ga_missions g)) @ []))"
    by (simp add: b serialize_body_def)
  note h = array_at [OF d]
  let ?p = "3 + length (fleece_cbor_write_array_header 5)" and ?t = "write_text (ga_name g)"
  note t = h(3) [unfolded write_text_def, folded enc_text_def]
  have name: "read_text blob ?p FLEECE_GOAP_NAME_MAX = Some (ga_name g, ?p + length ?t)"
    using text_item.dec_at [OF _ t] fits by (simp add: read_text_def goap_fits_def write_text_def enc_text_def)
  let ?g = "(fleece_goap_reset g0)\<lparr>ga_name := ga_name g\<rparr>"
  obtain g' pos' where "load_tables mem blob (Done (?p + length ?t), ?g) = (Done pos', g')"
    "ga_name g' = ga_name g \<and> ga_actions g' = ga_actions g \<and> ga_goals g' = ga_goals g \<and> ga_utilities g' = ga_utilities g \<and> ga_missions g' = ga_missions g"
    "ga_max_iters g' = ga_max_iters g0 \<and> ga_max_nodes g' = ga_max_nodes g0 \<and> ga_max_plan_depth g' = ga_max_plan_depth g0"
    using tables_back [OF fits _ _ _ _ drop_step [OF h(3)], of ?g] by (auto simp: fleece_goap_reset_def)
  moreover have "take 3 blob = [0x46, 0x50, 2]" by (simp add: b)
  ultimately have "\<exists>g'. fleece_goap_deserialize A g0 blob = (Some 0, g') \<and> ga_name g' = ga_name g \<and> ga_actions g' = ga_actions g \<and>
      ga_goals g' = ga_goals g \<and> ga_utilities g' = ga_utilities g \<and> ga_missions g' = ga_missions g \<and>
      ga_max_iters g' = ga_max_iters g0 \<and> ga_max_nodes g' = ga_max_nodes g0 \<and> ga_max_plan_depth g' = ga_max_plan_depth g0"
    using h(2) name by (simp add: fleece_goap_deserialize_def mem Let_def)
  then show ?thesis using room sz by simp
qed

definition demo_tables :: FleeceGoap where
  "demo_tables = goap_zero\<lparr>ga_name := [0x6D],
     ga_actions := [\<lparr>ac_id = [0x61], ac_name = [], ac_cost = [0x31], ac_exec = [], ac_dest = [], ac_dur = 0x3FE0000000000000,
       ac_pre = [[0x70], [0x71]], ac_eff = []\<rparr>],
     ga_utilities := [\<lparr>ut_id = [0x75], ut_name = [], ut_dim = [0x78], ut_x_min = 0, ut_x_max = 0x3FF0000000000000,
       ut_points = [\<lparr>pt_x = 0, pt_y = 0x3FF0000000000000\<rparr>, \<lparr>pt_x = 0x3FF0000000000000, pt_y = 0\<rparr>]\<rparr>],
     ga_missions := [\<lparr>mi_id = [0x6D], mi_name = [], mi_goal_ids = [[0x67]], mi_note = [0x21]\<rparr>]\<rparr>"

theorem blob_roundtrip_witness:
  "\<exists>g'. fleece_goap_deserialize (\<lambda>_. True) goap_zero (fst (the (fleece_goap_serialize (\<lambda>_. True) demo_tables))) = (Some 0, g') \<and>
     ga_actions g' = ga_actions demo_tables \<and> ga_utilities g' = ga_utilities demo_tables \<and> ga_missions g' = ga_missions demo_tables"
proof -
  have fits: "goap_fits demo_tables"
    by (simp add: goap_fits_def demo_tables_def goap_zero_def short_def action_fits_def action_ok_def utility_fits_def utility_ok_def
        mission_fits_def mission_ok_def x_after_def d_less_def d_key_def d_neg_def d_mag_def)
  have room: "3 + serialize_body_size demo_tables < 2 ^ 32"
  proof -
    have "3 + serialize_body_size demo_tables < 100" by code_simp
    then show ?thesis by simp
  qed
  have blob: "fleece_goap_serialize (\<lambda>_. True) demo_tables =
      Some ([0x46, 0x50, 2] @ serialize_body demo_tables, 3 + serialize_body_size demo_tables, of_nat (length ([0x46, 0x50, 2] @ serialize_body demo_tables)))"
    by (simp add: fleece_goap_serialize_def Let_def)
  from blob_roundtrip [OF fits _ blob room, of goap_zero] show ?thesis by (auto simp: blob)
qed

end
