(* ===== verification/Goap_Blob_Safety.thy ===== *)
theory Goap_Blob_Safety
  imports Goap_Blob_Proofs
begin

text \<open>
  The parser of plan blobs on arbitrary bytes: the type invariant of the tables, which every
  registration and the parser keep, and the one way in which the parser leaves its buffers.
\<close>

section \<open>Arbitrary bytes\<close>

text \<open>The type invariant of the tables: every row is one the fixed-size fields can hold.\<close>

definition tables_ok :: "FleeceGoap \<Rightarrow> bool" where
  "tables_ok g \<longleftrightarrow> 0 \<notin> set (ga_name g) \<and> length (ga_name g) < 64 \<and>
     (\<forall>r\<in>set (ga_actions g). action_ok r) \<and> (\<forall>r\<in>set (ga_goals g). goal_ok r) \<and>
     (\<forall>r\<in>set (ga_utilities g). utility_ok r) \<and> (\<forall>r\<in>set (ga_missions g). mission_ok r)"

text \<open>The strings of a definition are C strings.\<close>

definition is_cstr :: "bytes option \<Rightarrow> bool" where
  "is_cstr s = (case s of None \<Rightarrow> True | Some s \<Rightarrow> 0 \<notin> set s)"

definition cstr_array :: "bytes option list option \<Rightarrow> bool" where
  "cstr_array a = (case a of None \<Rightarrow> True | Some ss \<Rightarrow> \<forall>s\<in>set ss. is_cstr s)"

definition action_strings :: "FleeceGoapActionDef \<Rightarrow> bool" where
  "action_strings d \<longleftrightarrow> is_cstr (ad_id d) \<and> is_cstr (ad_name d) \<and> is_cstr (ad_cost d) \<and> is_cstr (ad_dest d) \<and> is_cstr (ad_exec d) \<and>
     cstr_array (ad_pre d) \<and> cstr_array (ad_eff d)"

definition goal_strings :: "FleeceGoapGoalDef \<Rightarrow> bool" where
  "goal_strings d \<longleftrightarrow> is_cstr (gd_id d) \<and> is_cstr (gd_name d) \<and> is_cstr (gd_expr d) \<and> is_cstr (gd_curve_id d)"

definition utility_strings :: "FleeceGoapUtilityDef \<Rightarrow> bool" where
  "utility_strings d \<longleftrightarrow> is_cstr (ud_id d) \<and> is_cstr (ud_name d) \<and> is_cstr (ud_dim d)"

definition mission_strings :: "FleeceGoapMissionDef \<Rightarrow> bool" where
  "mission_strings d \<longleftrightarrow> is_cstr (md_id d) \<and> is_cstr (md_name d) \<and> is_cstr (md_note d) \<and> cstr_array (md_goal_ids d)"

lemma copy_field_typed: "copy_field sz s = Some t \<Longrightarrow> 0 < sz \<Longrightarrow> is_cstr s \<Longrightarrow> length t < sz \<and> 0 \<notin> set t"
  by (auto simp: copy_field_def copy_str_def is_cstr_def split: option.splits if_splits)

lemma dup_strings_typed: "dup_strings A ss = Some ts \<Longrightarrow> \<forall>s\<in>set ss. is_cstr s \<Longrightarrow> \<forall>t\<in>set ts. 0 \<notin> set t"
  by (induction ss arbitrary: ts) (auto simp: dup_str_def is_cstr_def Let_def split: option.splits if_splits)

lemma dup_array_typed: "dup_array A a = Some ts \<Longrightarrow> cstr_array a \<Longrightarrow> \<forall>t\<in>set ts. 0 \<notin> set t"
  by (auto simp: dup_array_def cstr_array_def split: option.splits if_splits dest: dup_strings_typed)

lemma fill_action_typed: "fill_action A d = Some r \<Longrightarrow> action_strings d \<Longrightarrow> action_ok r"
  by (auto simp: fill_action_def action_strings_def action_ok_def simp: bind_eq_Some_conv dest!: copy_field_typed dup_array_typed)

lemma fill_goal_typed: "fill_goal d = Some r \<Longrightarrow> goal_strings d \<Longrightarrow> goal_ok r"
  by (auto simp: fill_goal_def goal_strings_def goal_ok_def simp: bind_eq_Some_conv dest!: copy_field_typed)

lemma fill_points_typed: "fill_points A pts = Some ps \<Longrightarrow> successively (\<lambda>p q. \<not> x_after p q) ps"
proof -
  have "x_after p q \<Longrightarrow> \<not> x_after q p" for p q by (simp add: x_after_def d_less_def)
  then show "fill_points A pts = Some ps \<Longrightarrow> successively (\<lambda>p q. \<not> x_after p q) ps"
    using insertion_sort_neighbours [of x_after] by (auto simp: fill_points_def split: option.splits if_splits)
qed

lemma fill_utility_typed: "fill_utility A d = Some r \<Longrightarrow> utility_strings d \<Longrightarrow> utility_ok r"
  by (auto simp: fill_utility_def utility_strings_def utility_ok_def simp: bind_eq_Some_conv dest!: copy_field_typed fill_points_typed)

lemma fill_mission_typed: "fill_mission A d = Some r \<Longrightarrow> mission_strings d \<Longrightarrow> mission_ok r"
  by (auto simp: fill_mission_def mission_strings_def mission_ok_def simp: bind_eq_Some_conv dest!: copy_field_typed dup_array_typed)

text \<open>Registrations keep the invariant, whatever they return.\<close>

lemma add_typed:
  "tables_ok g \<Longrightarrow> action_strings ad \<Longrightarrow> tables_ok (snd (fleece_goap_add_action A g ad))"
  "tables_ok g \<Longrightarrow> goal_strings gd \<Longrightarrow> tables_ok (snd (fleece_goap_add_goal A g gd))"
  "tables_ok g \<Longrightarrow> utility_strings ud \<Longrightarrow> tables_ok (snd (fleece_goap_add_utility A g ud))"
  "tables_ok g \<Longrightarrow> mission_strings md \<Longrightarrow> tables_ok (snd (fleece_goap_add_mission A g md))"
  by (auto simp: tables_ok_def fleece_goap_add_action_def fleece_goap_add_goal_def fleece_goap_add_utility_def fleece_goap_add_mission_def
      split: option.splits intro: fill_action_typed fill_goal_typed fill_utility_typed fill_mission_typed)

text \<open>The parser makes definitions of C strings.\<close>

lemma read_text_dyn_typed: "read_text_dyn A buf pos = Some (s, p) \<Longrightarrow> 0 \<notin> set s"
  by (auto simp: read_text_dyn_def split: option.splits if_splits)

lemma read_n_all: "(\<And>p x p'. dec buf p = Some (x, p') \<Longrightarrow> P x) \<Longrightarrow> read_n dec n buf pos = Some (xs, q) \<Longrightarrow> \<forall>x\<in>set xs. P x"
proof (induction n arbitrary: pos xs)
  case (Suc n)
  from Suc.prems(2) obtain x p ys where "dec buf pos = Some (x, p)" "read_n dec n buf p = Some (ys, q)" "xs = x # ys"
    by (auto split: option.splits)
  with Suc.IH [OF Suc.prems(1)] Suc.prems(1) show ?case by auto
qed simp

lemma read_texts_typed: "read_texts A buf pos = Some (a, p) \<Longrightarrow> cstr_array a"
  using read_n_all [of "read_text_dyn A" buf "\<lambda>s. 0 \<notin> set s", OF read_text_dyn_typed]
  by (fastforce simp: read_texts_def cstr_array_def is_cstr_def split: option.splits if_splits)

lemma parse_of_Parsed: "parse_of r = Parsed x p \<longleftrightarrow> r = Some (x, p)"
  by (auto simp: parse_of_def split: option.splits)

lemma parse_of_Overrun [simp]: "parse_of r \<noteq> Overrun"
  by (simp add: parse_of_def split: option.splits)

lemma read_typed:
  "parse_of (read_action A buf pos) = Parsed ad p \<Longrightarrow> action_strings ad"
  "parse_of (read_goal A buf pos) = Parsed gd p \<Longrightarrow> goal_strings gd"
  "read_utility A buf pos = Parsed ud p \<Longrightarrow> utility_strings ud"
  "parse_of (read_mission A buf pos) = Parsed md p \<Longrightarrow> mission_strings md"
     apply (clarsimp simp: parse_of_Parsed read_action_def action_strings_def is_cstr_def bind_eq_Some_conv read_text_dyn_typed read_texts_typed)
    apply (clarsimp simp: parse_of_Parsed read_goal_def goal_strings_def is_cstr_def bind_eq_Some_conv read_text_dyn_typed)
   apply (clarsimp simp: read_utility_def utility_strings_def is_cstr_def bind_eq_Some_conv read_text_dyn_typed split: option.splits parse.splits)
  apply (clarsimp simp: parse_of_Parsed read_mission_def mission_strings_def is_cstr_def bind_eq_Some_conv read_text_dyn_typed read_texts_typed)
  done

text \<open>The contract of loading a table on arbitrary bytes: an invariant of the planner, kept by each registration.\<close>

locale table_loader =
  fixes read :: "bytes \<Rightarrow> nat \<Rightarrow> 'd parse"
    and add :: "FleeceGoap \<Rightarrow> 'd \<Rightarrow> int \<times> FleeceGoap"
    and good :: "'d \<Rightarrow> bool"
    and inv :: "FleeceGoap \<Rightarrow> bool"
  assumes read_good: "read buf pos = Parsed d p \<Longrightarrow> good d"
    and add_inv: "inv g \<Longrightarrow> good d \<Longrightarrow> inv (snd (add g d))"
begin

lemma load_rows_safe:
  "inv g \<Longrightarrow> inv (snd (load_rows read add n buf pos g)) \<and>
   (fst (load_rows read add n buf pos g) = Wild \<longrightarrow> (\<exists>p. read buf p = Overrun))"
proof (induction n arbitrary: pos g)
  case (Suc n)
  show ?case
  proof (cases "read buf pos")
    case (Parsed d p)
    obtain rc g' where a: "add g d = (rc, g')" by fastforce
    have "inv g'" using add_inv [OF Suc.prems read_good [OF Parsed]] a by simp
    then show ?thesis using Suc.IH [of g' p] Suc.prems Parsed a by simp
  qed (use Suc.prems in \<open>auto\<close>)
qed simp

lemma load_table_safe:
  assumes "inv g"
  shows "inv (snd (load_table read add buf (st, g))) \<and>
    (fst (load_table read add buf (st, g)) = Wild \<longrightarrow> st = Wild \<or> (\<exists>p. read buf p = Overrun))"
  using assms load_rows_safe by (auto simp: load_table_def split: load.splits option.splits)

end

interpretation load_actions: table_loader "\<lambda>buf pos. parse_of (read_action A buf pos)" "fleece_goap_add_action A" action_strings tables_ok for A
  by unfold_locales (auto intro: read_typed add_typed)

interpretation load_goals: table_loader "\<lambda>buf pos. parse_of (read_goal A buf pos)" "fleece_goap_add_goal A" goal_strings tables_ok for A
  by unfold_locales (auto intro: read_typed add_typed)

interpretation load_utilities: table_loader "read_utility A" "fleece_goap_add_utility A" utility_strings tables_ok for A
  by unfold_locales (auto intro: read_typed add_typed)

interpretation load_missions: table_loader "\<lambda>buf pos. parse_of (read_mission A buf pos)" "fleece_goap_add_mission A" mission_strings tables_ok for A
  by unfold_locales (auto intro: read_typed add_typed)

lemma points_room: "read_points_loop n room buf pos = Overrun \<Longrightarrow> room < 16 * n"
  by (induction n arbitrary: room pos) (fastforce split: option.splits if_splits parse.splits)+

lemma utility_overrun:
  assumes "read_utility A buf pos = Overrun"
  shows "\<exists>p n p'. read_major 4 buf p = Some (n, p') \<and> 2 ^ 60 \<le> unat n"
proof -
  obtain q where "read_points A buf q = Overrun"
    using assms by (auto simp: read_utility_def split: option.splits parse.splits)
  then obtain n p' where n: "read_major 4 buf q = Some (n, p')" and o: "read_points_loop (unat n) (unat (n * 16)) buf p' = Overrun"
    by (auto simp: read_points_def Let_def split: option.splits if_splits parse.splits)
  have "2 ^ 60 \<le> unat n"
  proof (rule ccontr)
    assume "\<not> 2 ^ 60 \<le> unat n"
    then have "unat n * unat (16 :: u64) < 2 ^ LENGTH(64)" by simp
    then have "unat (n * 16) = unat n * 16" by (simp add: unat_mult_lem [THEN iffD1])
    then show False using points_room [OF o] by simp
  qed
  then show ?thesis using n by blast
qed

text \<open>One table after the other.\<close>

lemma load_tables_safe:
  assumes "tables_ok g"
  shows "tables_ok (snd (load_tables A blob (Done pos, g))) \<and>
    (fst (load_tables A blob (Done pos, g)) = Wild \<longrightarrow> (\<exists>p. read_utility A blob p = Overrun))"
proof -
  obtain s1 g1 where 1: "load_table (\<lambda>buf pos. parse_of (read_action A buf pos)) (fleece_goap_add_action A) blob (Done pos, g) = (s1, g1)" by fastforce
  obtain s2 g2 where 2: "load_table (\<lambda>buf pos. parse_of (read_goal A buf pos)) (fleece_goap_add_goal A) blob (s1, g1) = (s2, g2)" by fastforce
  obtain s3 g3 where 3: "load_table (read_utility A) (fleece_goap_add_utility A) blob (s2, g2) = (s3, g3)" by fastforce
  have "tables_ok g1 \<and> s1 \<noteq> Wild" using load_actions.load_table_safe [OF assms, of A blob "Done pos"] 1 by auto
  then have "tables_ok g2 \<and> s2 \<noteq> Wild" using load_goals.load_table_safe [of g1 A blob s1] 2 by auto
  then have "tables_ok g3 \<and> (s3 = Wild \<longrightarrow> (\<exists>p. read_utility A blob p = Overrun))"
    using load_utilities.load_table_safe [of g2 A blob s2] 3 by auto
  then show ?thesis using load_missions.load_table_safe [of g3 A blob s3] by (auto simp: load_tables_def 1 2 3)
qed

lemma deserialize_safe:
  assumes "tables_ok g"
  shows "tables_ok (snd (fleece_goap_deserialize A g blob)) \<and>
    (fst (fleece_goap_deserialize A g blob) = None \<longrightarrow> (\<exists>p. read_utility A blob p = Overrun))"
proof -
  have reset: "tables_ok (fleece_goap_reset g)" by (simp add: tables_ok_def fleece_goap_reset_def)
  have named: "tables_ok ((fleece_goap_reset g)\<lparr>ga_name := s\<rparr>)" if r: "read_text blob pos FLEECE_GOAP_NAME_MAX = Some (s, p)" for pos s p
  proof -
    obtain t where "s = cstr (take 63 t)" using r by (auto simp: read_text_def split: option.splits)
    then show ?thesis using length_cstr_le [of "take 63 t"] by (simp add: tables_ok_def fleece_goap_reset_def)
  qed
  show ?thesis
  proof (cases "take 3 blob = [0x46, 0x50, 2] \<and> (\<exists>pos s p. expect_array 5 blob 3 = Some pos \<and> read_text blob pos FLEECE_GOAP_NAME_MAX = Some (s, p))")
    case True
    then obtain pos s p where m: "take 3 blob = [0x46, 0x50, 2]" "expect_array 5 blob 3 = Some pos"
      and t: "read_text blob pos FLEECE_GOAP_NAME_MAX = Some (s, p)" by blast
    obtain st g' where l: "load_tables A blob (Done p, (fleece_goap_reset g)\<lparr>ga_name := s\<rparr>) = (st, g')" by fastforce
    from load_tables_safe [OF named [OF t], of A blob p] show ?thesis
      by (cases st) (simp_all add: fleece_goap_deserialize_def m t l Let_def)
  next
    case False
    then show ?thesis using assms reset by (auto simp: fleece_goap_deserialize_def Let_def split: option.splits)
  qed
qed

text \<open>
  C36. The tables of a planner stay well formed: every stored string is a C string that fits its
  field and the points of every curve are in order of their abscissae (neighbours never inverted).
  This holds of a new planner and is kept by every registration, successful or not, by setting the
  name, and by parsing arbitrary bytes, whichever allocations fail.  The parser stays inside its
  buffers unless the blob announces at least \<open>2^60\<close> elements in some array.
\<close>

theorem planner_tables_typed:
  assumes ok: "tables_ok g"
  shows "(\<forall>g0. fleece_goap_create A = Some g0 \<longrightarrow> tables_ok g0) \<and>
    (is_cstr name \<longrightarrow> tables_ok (snd (fleece_goap_set_name g name))) \<and>
    (action_strings ad \<longrightarrow> tables_ok (snd (fleece_goap_add_action A g ad))) \<and>
    (goal_strings gd \<longrightarrow> tables_ok (snd (fleece_goap_add_goal A g gd))) \<and>
    (utility_strings ud \<longrightarrow> tables_ok (snd (fleece_goap_add_utility A g ud))) \<and>
    (mission_strings md \<longrightarrow> tables_ok (snd (fleece_goap_add_mission A g md))) \<and>
    (fst (fleece_goap_deserialize A g blob) \<noteq> None \<longrightarrow> tables_ok (snd (fleece_goap_deserialize A g blob))) \<and>
    (fst (fleece_goap_deserialize A g blob) = None \<longrightarrow> (\<exists>p n p'. read_major 4 blob p = Some (n, p') \<and> 2 ^ 60 \<le> unat n))"
proof (intro conjI impI)
  show "\<forall>g0. fleece_goap_create A = Some g0 \<longrightarrow> tables_ok g0"
    by (simp add: fleece_goap_create_def goap_zero_def tables_ok_def)
  show "tables_ok (snd (fleece_goap_set_name g name))" if "is_cstr name"
    using ok that by (auto simp: fleece_goap_set_name_def copy_str_def tables_ok_def is_cstr_def split: option.splits)
  show "\<exists>p n p'. read_major 4 blob p = Some (n, p') \<and> 2 ^ 60 \<le> unat n" if "fst (fleece_goap_deserialize A g blob) = None"
    using deserialize_safe [OF ok] that utility_overrun by blast
qed (use ok add_typed deserialize_safe in \<open>simp_all\<close>)

theorem planner_tables_typed_witness:
  "tables_ok (snd (fleece_goap_deserialize (\<lambda>_. True) goap_zero [0x46, 0x50, 2, 0x85, 0x61, 0x61, 0x81, 0]))"
proof -
  have ok: "tables_ok goap_zero" by (simp add: tables_ok_def goap_zero_def)
  have "fst (fleece_goap_deserialize (\<lambda>_. True) goap_zero [0x46, 0x50, 2, 0x85, 0x61, 0x61, 0x81, 0]) = Some (-1)" by code_simp
  then show ?thesis using planner_tables_typed [OF ok, where A = "\<lambda>_. True" and blob = "[0x46, 0x50, 2, 0x85, 0x61, 0x61, 0x81, 0]"] by simp
qed

section \<open>A blob that overruns its buffer\<close>

text \<open>
  An empty name, no actions, no goals, and one curve that announces \<open>2^60\<close> points.
\<close>

definition evil_blob :: bytes where
  "evil_blob = [0x46, 0x50, 2, 0x85, 0x60, 0x80, 0x80, 0x81,
     0x87, 0x60, 0x60, 0x60, 0, 0, 0x9B, 0x10, 0, 0, 0, 0, 0, 0, 0, 0x82, 0, 0]"

lemma evil_points: "A 0 \<Longrightarrow> read_points A evil_blob 14 = Overrun"
proof -
  assume A: "A 0"
  have h: "read_major 4 evil_blob 14 = Some (0x1000000000000000, 23)" by code_simp
  have p: "Option.bind (expect_array 2 evil_blob 23) (fleece_cbor_read_num evil_blob) = Some (d_zero, 25)" by code_simp
  have "unat (0x1000000000000000 :: u64) \<noteq> 0" by simp
  then obtain n where n: "unat (0x1000000000000000 :: u64) = Suc n" using not0_implies_Suc by blast
  have room: "unat (0x1000000000000000 * 16 :: u64) = 0" by simp
  have "read_points_loop (Suc n) 0 evil_blob 23 = Overrun" using p by simp
  then show ?thesis using A unfolding read_points_def h option.case prod.case Let_def n room by simp
qed

text \<open>
  C39. The size of the buffer for the points of a curve is computed in 64 bits and wraps: a blob of
  26 bytes that announces \<open>2^60\<close> points is given a buffer of no bytes, and the parser writes the
  first point past its end.  This needs no more memory than allocations of at most one byte.
\<close>

theorem deserialize_overruns:
  "fst (fleece_goap_deserialize (\<lambda>k. k < 2) goap_zero evil_blob) = None \<and> length evil_blob = 26"
proof -
  let ?A = "\<lambda>k. k < (2 :: nat)"
  have pts: "read_points ?A evil_blob 14 = Overrun" by (rule evil_points) simp
  have hd: "take 3 evil_blob = [0x46, 0x50, 2]" "expect_array 5 evil_blob 3 = Some 4" "read_text evil_blob 4 64 = Some ([], 5)"
    "read_major 4 evil_blob 5 = Some (0, 6)" "read_major 4 evil_blob 6 = Some (0, 7)" "read_major 4 evil_blob 7 = Some (1, 8)" by code_simp+
  have row: "expect_array 7 evil_blob 8 = Some 9" "read_text_dyn ?A evil_blob 9 = Some ([], 10)" "read_text_dyn ?A evil_blob 10 = Some ([], 11)"
    "read_text_dyn ?A evil_blob 11 = Some ([], 12)" "fleece_cbor_read_num evil_blob 12 = Some (d_zero, 13)"
    "fleece_cbor_read_num evil_blob 13 = Some (d_zero, 14)" by code_simp+
  have "read_utility ?A evil_blob 8 = Overrun" by (simp add: read_utility_def row pts)
  then have "load_tables ?A evil_blob (Done 5, g) = (Wild, g)" for g
    by (simp add: load_tables_def load_table_def hd)
  then show ?thesis using hd by (simp add: fleece_goap_deserialize_def Let_def evil_blob_def [THEN arg_cong [of _ _ length]])
qed

end
