(* ===== verification/Script_Engine.thy ===== *)
theory Script_Engine
  imports Runtime_Proofs Store_Claims Platform Double_Proofs
begin

text \<open>
  The native bindings of \<open>src/embedded/fleece_embedded.c\<close>: the functions behind the script globals
  \<open>self\<close>, \<open>swarm\<close>, \<open>world\<close>, \<open>platform\<close> and \<open>worldCompareAndSet\<close>.  The QuickJS engine is a parameter:
  a record of the engine calls the bindings make, over a type \<open>'v\<close> of script values.  What a host
  function registered with the platform computes is a parameter too.
\<close>

section \<open>The engine\<close>

text \<open>
  \<open>None\<close> is a pending exception.  \<open>en_score_goal\<close> is the script's global function \<open>scoreGoal\<close>,
  \<open>None\<close> where the script defines none.
\<close>

record 'v script_engine =
  en_ParseJSON :: "bytes \<Rightarrow> 'v option"
  en_JSONStringify :: "'v \<Rightarrow> 'v option"
  en_IsUndefined :: "'v \<Rightarrow> bool"
  en_ToCString :: "'v \<Rightarrow> bytes option"
  en_ToFloat64 :: "'v \<Rightarrow> double option"
  en_GetPropertyStr :: "'v \<Rightarrow> bytes \<Rightarrow> 'v"
  en_NewString :: "bytes \<Rightarrow> 'v"
  en_score_goal :: "('v \<Rightarrow> 'v \<Rightarrow> 'v option) option"

datatype js_error = Pending | TypeError | OutOfMemory

datatype 'v js_return =
  Undefined
| Throws js_error
| Parsed 'v
| NewString bytes
| NewArray "bytes list"
| NewBool bool

record ('f, 'u) FleeceEmbedded =
  em_manager :: "FleeceStateManager option"
  em_platform :: "('f, 'u) FleecePlatform option"
  em_peer_ttl_ticks :: u64

abbreviation FLEECE_JS_LIST_MAX :: u32 where "FLEECE_JS_LIST_MAX \<equiv> 128"
abbreviation FLEECE_DEFAULT_PEER_TTL_TICKS :: u64 where "FLEECE_DEFAULT_PEER_TTL_TICKS \<equiv> 50"

text \<open>The C string at the start of a text that may hold NUL characters.\<close>

definition c_string :: "bytes \<Rightarrow> bytes" where
  "c_string s = takeWhile (\<lambda>b. b \<noteq> 0) s"

section \<open>Life cycle\<close>

text \<open>\<open>ok\<close>, \<open>rt\<close> and \<open>ctx\<close>: whether the allocation, the engine and its context could be made.\<close>

definition fleece_embedded_create_with_allocator :: "bool \<Rightarrow> bool \<Rightarrow> bool \<Rightarrow> ('f, 'u) FleeceEmbedded option" where
  "fleece_embedded_create_with_allocator ok rt ctx =
     (if \<not> ok then None
      else if \<not> rt then None
      else if \<not> ctx then None
      else Some \<lparr>em_manager = None, em_platform = None, em_peer_ttl_ticks = FLEECE_DEFAULT_PEER_TTL_TICKS\<rparr>)"

definition fleece_embedded_set_state_manager ::
    "('f, 'u) FleeceEmbedded \<Rightarrow> FleeceStateManager option \<Rightarrow> int \<times> ('f, 'u) FleeceEmbedded" where
  "fleece_embedded_set_state_manager emb manager =
     (if manager = None then (-1, emb) else (0, emb\<lparr>em_manager := manager\<rparr>))"

definition fleece_embedded_set_platform ::
    "('f, 'u) FleeceEmbedded \<Rightarrow> ('f, 'u) FleecePlatform option \<Rightarrow> int \<times> ('f, 'u) FleeceEmbedded" where
  "fleece_embedded_set_platform emb platform =
     (case platform of None \<Rightarrow> (-1, emb) | Some _ \<Rightarrow> (0, emb\<lparr>em_platform := platform\<rparr>))"

definition fleece_embedded_set_peer_ttl_ticks :: "('f, 'u) FleeceEmbedded \<Rightarrow> u64 \<Rightarrow> int \<times> ('f, 'u) FleeceEmbedded" where
  "fleece_embedded_set_peer_ttl_ticks emb ttl_ticks = (0, emb\<lparr>em_peer_ttl_ticks := ttl_ticks\<rparr>)"

definition fleece_embedded_get_peer_ttl_ticks :: "('f, 'u) FleeceEmbedded option \<Rightarrow> u64" where
  "fleece_embedded_get_peer_ttl_ticks emb =
     (case emb of None \<Rightarrow> FLEECE_DEFAULT_PEER_TTL_TICKS | Some e \<Rightarrow> em_peer_ttl_ticks e)"

section \<open>Node identifiers as text\<close>

text \<open>
  \<open>strtoull(s, &end, 16)\<close>: blanks, a sign, an optional \<open>0x\<close> before a digit, digits; it saturates.  The
  result is \<open>None\<close> where no digit is found (the value is then 0), else the value and the rest.
\<close>

definition strtoull16 :: "bytes \<Rightarrow> (u64 \<times> bytes) option" where
  "strtoull16 text =
     (let (neg, s) = scan_sign (dropWhile is_space text);
          s = (if starts_ci ''0x'' s \<and> (case drop 2 s of c # _ \<Rightarrow> hex_char c | [] \<Rightarrow> False) then drop 2 s else s);
          ds = takeWhile hex_char s;
          v = digits_val 16 ds;
          w = (if v \<ge> 2 ^ 64 then UINT64_MAX else if neg then - word_of_int v else word_of_int v)
      in if ds = [] then None else Some (w, drop (length ds) s))"

definition format_node_id :: "u64 \<Rightarrow> bytes" where
  "format_node_id node_id = snprintf_s 17 (hex16 node_id)"

definition parse_node_id :: "bytes \<Rightarrow> u64 option" where
  "parse_node_id text =
     (if text = [] then None
      else case strtoull16 text of
        None \<Rightarrow> None
      | Some (v, rest) \<Rightarrow> if rest \<noteq> [] then None else Some v)"

section \<open>Reading fields\<close>

text \<open>A text that is not JSON reads as undefined.\<close>

definition get_named_value ::
    "allocator \<Rightarrow> 'v script_engine \<Rightarrow> FleeceStateManager \<Rightarrow> u64 \<Rightarrow> bytes \<Rightarrow> 'v js_return" where
  "get_named_value A en m owner_node_id name =
     (case fleece_state_manager_get_named A m owner_node_id (Some name) of
        None \<Rightarrow> Undefined
      | Some (data, sz) \<Rightarrow>
          if \<not> A (unat sz + 1) then Throws OutOfMemory
          else (case en_ParseJSON en (take (unat sz) data) of None \<Rightarrow> Undefined | Some v \<Rightarrow> Parsed v))"

definition js_self_get :: "allocator \<Rightarrow> 'v script_engine \<Rightarrow> ('f, 'u) FleeceEmbedded \<Rightarrow> 'v list \<Rightarrow> 'v js_return" where
  "js_self_get A en emb argv =
     (case (em_manager emb, argv) of
        (Some m, a # _) \<Rightarrow>
          (case en_ToCString en a of
             None \<Rightarrow> Throws Pending
           | Some name \<Rightarrow> get_named_value A en m (fleece_state_manager_get_node_id m) (c_string name))
      | _ \<Rightarrow> Undefined)"

definition js_self_keys :: "('f, 'u) FleeceEmbedded \<Rightarrow> 'v js_return" where
  "js_self_keys emb =
     (case em_manager emb of
        None \<Rightarrow> NewArray []
      | Some m \<Rightarrow> NewArray (fleece_state_manager_list_fields m (fleece_state_manager_get_node_id m) FLEECE_JS_LIST_MAX))"

definition js_self_id :: "('f, 'u) FleeceEmbedded \<Rightarrow> 'v js_return" where
  "js_self_id emb =
     (case em_manager emb of
        None \<Rightarrow> Undefined
      | Some m \<Rightarrow> NewString (format_node_id (fleece_state_manager_get_node_id m)))"

definition js_peer_is_live :: "('f, 'u) FleeceEmbedded \<Rightarrow> u64 \<Rightarrow> bool" where
  "js_peer_is_live emb node_id =
     (case em_manager emb of
        None \<Rightarrow> False
      | Some m \<Rightarrow> fleece_state_manager_ticks_since_seen m node_id \<le> em_peer_ttl_ticks emb)"

definition js_swarm_nodes :: "('f, 'u) FleeceEmbedded \<Rightarrow> 'v js_return" where
  "js_swarm_nodes emb =
     (case em_manager emb of
        None \<Rightarrow> NewArray []
      | Some m \<Rightarrow>
          let local_id = fleece_state_manager_get_node_id m in
          NewArray (map format_node_id
            (filter (\<lambda>i. i \<noteq> local_id \<and> js_peer_is_live emb i)
              (fleece_state_manager_list_heard_peers m FLEECE_JS_LIST_MAX))))"

definition js_swarm_get :: "allocator \<Rightarrow> 'v script_engine \<Rightarrow> ('f, 'u) FleeceEmbedded \<Rightarrow> 'v list \<Rightarrow> 'v js_return" where
  "js_swarm_get A en emb argv =
     (case (em_manager emb, argv) of
        (Some m, a # b # _) \<Rightarrow>
          (case en_ToCString en a of
             None \<Rightarrow> Throws Pending
           | Some id_str \<Rightarrow>
               (case parse_node_id (c_string id_str) of
                  None \<Rightarrow> Undefined
                | Some node_id \<Rightarrow>
                    if \<not> js_peer_is_live emb node_id then Undefined
                    else
                      (case en_ToCString en b of
                         None \<Rightarrow> Throws Pending
                       | Some name \<Rightarrow> get_named_value A en m node_id (c_string name))))
      | _ \<Rightarrow> Undefined)"

definition js_swarm_keys :: "'v script_engine \<Rightarrow> ('f, 'u) FleeceEmbedded \<Rightarrow> 'v list \<Rightarrow> 'v js_return" where
  "js_swarm_keys en emb argv =
     (case (em_manager emb, argv) of
        (Some m, a # _) \<Rightarrow>
          (case en_ToCString en a of
             None \<Rightarrow> Throws Pending
           | Some id_str \<Rightarrow>
               (case parse_node_id (c_string id_str) of
                  None \<Rightarrow> NewArray []
                | Some node_id \<Rightarrow>
                    if \<not> js_peer_is_live emb node_id then NewArray []
                    else NewArray (fleece_state_manager_list_fields m node_id FLEECE_JS_LIST_MAX)))
      | _ \<Rightarrow> NewArray [])"

definition js_world_get :: "allocator \<Rightarrow> 'v script_engine \<Rightarrow> ('f, 'u) FleeceEmbedded \<Rightarrow> 'v list \<Rightarrow> 'v js_return" where
  "js_world_get A en emb argv =
     (case (em_manager emb, argv) of
        (Some m, a # _) \<Rightarrow>
          (case en_ToCString en a of
             None \<Rightarrow> Throws Pending
           | Some name \<Rightarrow> get_named_value A en m FLEECE_SHARED_OWNER_ID (c_string name))
      | _ \<Rightarrow> Undefined)"

definition js_world_keys :: "('f, 'u) FleeceEmbedded \<Rightarrow> 'v js_return" where
  "js_world_keys emb =
     (case em_manager emb of
        None \<Rightarrow> NewArray []
      | Some m \<Rightarrow> NewArray (fleece_state_manager_list_fields m FLEECE_SHARED_OWNER_ID FLEECE_JS_LIST_MAX))"

section \<open>Writing fields\<close>

text \<open>The JSON text of a value, or what the binding throws instead.\<close>

definition json_text :: "'v script_engine \<Rightarrow> 'v \<Rightarrow> js_error + bytes" where
  "json_text en v =
     (case en_JSONStringify en v of
        None \<Rightarrow> Inl Pending
      | Some json \<Rightarrow>
          if en_IsUndefined en json then Inl TypeError
          else (case en_ToCString en json of None \<Rightarrow> Inl Pending | Some text \<Rightarrow> Inr text))"

definition js_self_set ::
    "allocator \<Rightarrow> 'v script_engine \<Rightarrow> ('f, 'u) FleeceEmbedded \<Rightarrow> 'v list \<Rightarrow> 'v js_return \<times> ('f, 'u) FleeceEmbedded" where
  "js_self_set A en emb argv =
     (case em_manager emb of
        None \<Rightarrow> (Undefined, emb)
      | Some m \<Rightarrow>
          (case argv of
             a # b # _ \<Rightarrow>
               (case en_ToCString en a of
                  None \<Rightarrow> (Throws Pending, emb)
                | Some name \<Rightarrow>
                    (case json_text en b of
                       Inl e \<Rightarrow> (Throws e, emb)
                     | Inr text \<Rightarrow>
                         let (rc, m') = fleece_state_manager_set_named A m (Some (c_string name)) (Some text) (of_nat (length text))
                         in (if rc \<noteq> 0 then Throws TypeError else Undefined, emb\<lparr>em_manager := Some m'\<rparr>)))
           | _ \<Rightarrow> (Throws TypeError, emb)))"

definition js_self_delete ::
    "'v script_engine \<Rightarrow> ('f, 'u) FleeceEmbedded \<Rightarrow> 'v list \<Rightarrow> 'v js_return \<times> ('f, 'u) FleeceEmbedded" where
  "js_self_delete en emb argv =
     (case (em_manager emb, argv) of
        (Some m, a # _) \<Rightarrow>
          (case en_ToCString en a of
             None \<Rightarrow> (Throws Pending, emb)
           | Some name \<Rightarrow>
               (Undefined, emb\<lparr>em_manager := Some (snd (fleece_state_manager_remove_named m (Some (c_string name))))\<rparr>))
      | _ \<Rightarrow> (Undefined, emb))"

definition js_world_set ::
    "allocator \<Rightarrow> 'v script_engine \<Rightarrow> ('f, 'u) FleeceEmbedded \<Rightarrow> 'v list \<Rightarrow> 'v js_return \<times> ('f, 'u) FleeceEmbedded" where
  "js_world_set A en emb argv =
     (case em_manager emb of
        None \<Rightarrow> (Undefined, emb)
      | Some m \<Rightarrow>
          (case argv of
             a # b # _ \<Rightarrow>
               (case en_ToCString en a of
                  None \<Rightarrow> (Throws Pending, emb)
                | Some name \<Rightarrow>
                    (case json_text en b of
                       Inl e \<Rightarrow> (Throws e, emb)
                     | Inr text \<Rightarrow>
                         let (rc, m') = fleece_state_manager_set_shared A m (Some (c_string name)) (Some text) (of_nat (length text))
                         in (if rc \<noteq> 0 then Throws TypeError else Undefined, emb\<lparr>em_manager := Some m'\<rparr>)))
           | _ \<Rightarrow> (Throws TypeError, emb)))"

definition js_world_delete ::
    "'v script_engine \<Rightarrow> ('f, 'u) FleeceEmbedded \<Rightarrow> 'v list \<Rightarrow> 'v js_return \<times> ('f, 'u) FleeceEmbedded" where
  "js_world_delete en emb argv =
     (case (em_manager emb, argv) of
        (Some m, a # _) \<Rightarrow>
          (case en_ToCString en a of
             None \<Rightarrow> (Throws Pending, emb)
           | Some name \<Rightarrow>
               (Undefined, emb\<lparr>em_manager := Some (snd (fleece_state_manager_remove_shared m (Some (c_string name))))\<rparr>))
      | _ \<Rightarrow> (Undefined, emb))"

definition js_world_compare_and_set ::
    "allocator \<Rightarrow> 'v script_engine \<Rightarrow> ('f, 'u) FleeceEmbedded \<Rightarrow> 'v list \<Rightarrow> 'v js_return \<times> ('f, 'u) FleeceEmbedded" where
  "js_world_compare_and_set A en emb argv =
     (case em_manager emb of
        None \<Rightarrow> (Undefined, emb)
      | Some m \<Rightarrow>
          (case argv of
             a # b # c # _ \<Rightarrow>
               (case en_ToCString en a of
                  None \<Rightarrow> (Throws Pending, emb)
                | Some name \<Rightarrow>
                    (case (if en_IsUndefined en b then Inr None else map_sum id Some (json_text en b)) of
                       Inl e \<Rightarrow> (Throws e, emb)
                     | Inr expected \<Rightarrow>
                         (case json_text en c of
                            Inl e \<Rightarrow> (Throws e, emb)
                          | Inr new_text \<Rightarrow>
                              let (rc, m') = fleece_state_manager_set_shared_cas A m (Some (c_string name)) expected
                                    (of_nat (length (pointee expected))) (Some new_text) (of_nat (length new_text))
                              in (if rc < 0 then Throws TypeError else NewBool (rc = 0), emb\<lparr>em_manager := Some m'\<rparr>))))
           | _ \<Rightarrow> (Throws TypeError, emb)))"

section \<open>Host functions\<close>

definition js_platform_names :: "('f, 'u) FleeceEmbedded \<Rightarrow> 'v js_return" where
  "js_platform_names emb =
     (case em_platform emb of
        None \<Rightarrow> NewArray []
      | Some p \<Rightarrow> NewArray (fleece_platform_list_functions p FLEECE_JS_LIST_MAX))"

text \<open>The text of the arguments is taken even where it is undefined; the prelude passes an array.\<close>

definition js_platform_call ::
    "allocator \<Rightarrow> ('f \<Rightarrow> 'u option \<Rightarrow> bytes option \<Rightarrow> u32 \<Rightarrow> int \<times> bytes option \<times> u32) \<Rightarrow> 'v script_engine \<Rightarrow>
     ('f, 'u) FleeceEmbedded \<Rightarrow> 'v list \<Rightarrow> 'v js_return" where
  "js_platform_call A run en emb argv =
     (case (em_platform emb, argv) of
        (Some p, a # b # _) \<Rightarrow>
          (case en_ToCString en a of
             None \<Rightarrow> Throws Pending
           | Some name \<Rightarrow>
               (case en_JSONStringify en b of
                  None \<Rightarrow> Throws Pending
                | Some json \<Rightarrow>
                    (case en_ToCString en json of
                       None \<Rightarrow> Throws Pending
                     | Some args_text \<Rightarrow>
                         (case fleece_platform_call run p (Some (c_string name)) (Some args_text) (of_nat (length args_text)) of
                            None \<Rightarrow> Throws TypeError
                          | Some (rc, result_json, result_size) \<Rightarrow>
                              if rc \<noteq> 0 then Throws TypeError
                              else if result_json = None \<or> result_size = 0 then Undefined
                              else if \<not> A (unat result_size + 1) then Throws OutOfMemory
                              else
                                (case en_ParseJSON en (take (unat result_size) (pointee result_json)) of
                                   None \<Rightarrow> Undefined
                                 | Some v \<Rightarrow> Parsed v)))))
      | _ \<Rightarrow> Throws TypeError)"

section \<open>A script as a sequence of calls\<close>

text \<open>The functions \<open>fleece_embedded_register_c_functions\<close> gives to the script, with their arguments.\<close>

datatype 'v native_call =
  SelfGet "'v list"
| SelfSet "'v list"
| SelfDelete "'v list"
| SelfKeys
| SelfId
| SwarmNodes
| SwarmGet "'v list"
| SwarmKeys "'v list"
| PlatformNames
| PlatformCall "'v list"
| WorldGet "'v list"
| WorldSet "'v list"
| WorldDelete "'v list"
| WorldKeys
| WorldCompareAndSet "'v list"

fun call_native ::
    "allocator \<Rightarrow> ('f \<Rightarrow> 'u option \<Rightarrow> bytes option \<Rightarrow> u32 \<Rightarrow> int \<times> bytes option \<times> u32) \<Rightarrow> 'v script_engine \<Rightarrow>
     ('f, 'u) FleeceEmbedded \<Rightarrow> 'v native_call \<Rightarrow> 'v js_return \<times> ('f, 'u) FleeceEmbedded" where
  "call_native A run en emb (SelfGet argv) = (js_self_get A en emb argv, emb)"
| "call_native A run en emb (SelfSet argv) = js_self_set A en emb argv"
| "call_native A run en emb (SelfDelete argv) = js_self_delete en emb argv"
| "call_native A run en emb SelfKeys = (js_self_keys emb, emb)"
| "call_native A run en emb SelfId = (js_self_id emb, emb)"
| "call_native A run en emb SwarmNodes = (js_swarm_nodes emb, emb)"
| "call_native A run en emb (SwarmGet argv) = (js_swarm_get A en emb argv, emb)"
| "call_native A run en emb (SwarmKeys argv) = (js_swarm_keys en emb argv, emb)"
| "call_native A run en emb PlatformNames = (js_platform_names emb, emb)"
| "call_native A run en emb (PlatformCall argv) = (js_platform_call A run en emb argv, emb)"
| "call_native A run en emb (WorldGet argv) = (js_world_get A en emb argv, emb)"
| "call_native A run en emb (WorldSet argv) = js_world_set A en emb argv"
| "call_native A run en emb (WorldDelete argv) = js_world_delete en emb argv"
| "call_native A run en emb WorldKeys = (js_world_keys emb, emb)"
| "call_native A run en emb (WorldCompareAndSet argv) = js_world_compare_and_set A en emb argv"

end
