(* ===== verification/Transport.thy ===== *)
theory Transport
  imports Runtime Script_Engine
begin

text \<open>
  The mesh transport \<open>src/reticulum/fleece_reticulum.cpp\<close>: the peer table with its cached links, the
  handlers for what the mesh delivers, the choice between packets and resource transfers, fan-out and unicast,
  identity and start-up.

  The microReticulum library is not part of the repository.  What it answers during one call into the
  module is the record \<open>rns\<close>; what the module asks of it is appended to the log \<open>re_calls\<close>.  An exception
  is the flag \<open>False\<close> beside the state it leaves behind.  The module's globals are one record; \<open>re_host\<close> is the
  runtime whose store \<open>g_state_manager\<close> points to and whose entry points the host's callbacks call.
  Log lines are left out, and node ids are read in little-endian order.
\<close>

abbreviation kMaxPeers :: nat where "kMaxPeers \<equiv> 8"
abbreviation kAnnounceIntervalTicks :: u32 where "kAnnounceIntervalTicks \<equiv> 50"
abbreviation kRadioBufferBytes :: nat where "kRadioBufferBytes \<equiv> 1024"
abbreviation FLEECE_RETICULUM_IDENTITY_KEY_SIZE :: nat where "FLEECE_RETICULUM_IDENTITY_KEY_SIZE \<equiv> 64"

section \<open>The library\<close>

datatype link_status = LINK_PENDING | LINK_HANDSHAKE | LINK_ACTIVE | LINK_STALE | LINK_CLOSED

datatype aspect = FleeceAspect | ControlAspect

record resource =
  rs_complete :: bool
  rs_initiator :: bool
  rs_payload :: bytes

text \<open>
  What a link tells the module: that it has closed, or that a resource has concluded, with the handler the module has
  registered for the link's aspect; and what arrives while the library's loop runs.
\<close>

datatype 'l link_callback = LinkClosed 'l | FleeceResource resource | ControlResource resource

datatype ('i, 'l) mesh_event =
    AnnounceHeard 'i
  | PacketIn bytes
  | ControlPacketIn bytes
  | LinkEvent "'l link_callback"

datatype ('i, 'l) rns_call =
    SendPacket 'i aspect bytes
  | OpenLink 'i aspect
  | StartResource 'l aspect bytes
  | Teardown 'l
  | AnnounceSelf aspect

datatype rng_call = RngBegin bytes | RngStir bytes nat

datatype start_step = PrepareStack | RegisterInterface | StackStart | OpenFleece | OpenControl | RegisterHandlers

record ('i, 'l) rns =
  rn_hash :: "'i \<Rightarrow> bytes"
  rn_link_hash :: "'l \<Rightarrow> bytes"
  rn_link_status :: "'l \<Rightarrow> link_status"
  rn_teardown :: "'l \<Rightarrow> 'l link_callback list"
  rn_copy :: "nat \<Rightarrow> bool"
  rn_packet :: "'i \<Rightarrow> aspect \<Rightarrow> bytes \<Rightarrow> bool"
  rn_link :: "'i \<Rightarrow> aspect \<Rightarrow> 'l option"
  rn_resource :: "'l \<Rightarrow> bytes \<Rightarrow> bool"
  rn_announce :: "aspect \<Rightarrow> bool"
  rn_step :: "start_step \<Rightarrow> bool"
  rn_generate :: "rng_call list \<Rightarrow> 'i option"
  rn_load_key :: "bytes \<Rightarrow> 'i option"
  rn_private_key :: "'i \<Rightarrow> bytes"
  rn_pool_free :: u64
  rn_pool_size :: u64
  rn_MTU :: u64
  rn_HEADER_MAXSIZE :: u64
  rn_IFAC_MIN_SIZE :: u64
  rn_FERNET_OVERHEAD :: u64
  rn_KEYSIZE :: u64
  rn_AES128_BLOCKSIZE :: u64

section \<open>State\<close>

text \<open>The host's functions; \<open>identity_load\<close> gives \<open>None\<close> where it returns false.\<close>

record FleeceReticulumConfig =
  rc_radio_send :: bool
  rc_radio_receive :: bool
  rc_radio_mtu :: u32
  rc_radio_bitrate :: u32
  rc_app_name :: "bytes option"
  rc_identity_load :: "bytes option option"
  rc_identity_save :: "(bytes \<Rightarrow> int) option"
  rc_device_id :: "bytes option"
  rc_entropy :: "(int \<times> bytes) option"

record HostRadioInterface =
  hr_IN :: bool
  hr_OUT :: bool
  hr_HW_MTU :: "16 word"
  hr_bitrate :: u32
  hr_online :: bool

text \<open>A slot of the peer table; \<open>has_link_\<close> and \<open>links_\<close> together are a list of two optional links.\<close>

record ('i, 'l) PeerSlot =
  pt_identity :: 'i
  pt_last_seen_tick :: u32
  pt_links :: "'l option list"

record ('i, 'l) Reticulum =
  re_config :: FleeceReticulumConfig
  re_configured :: bool
  re_peers :: "('i, 'l) PeerSlot list"
  re_radio :: HostRadioInterface
  re_reticulum :: bool
  re_destination :: bool
  re_control_destination :: bool
  re_state_manager :: bool
  re_control_callback :: "(bytes \<Rightarrow> FleeceRuntime \<Rightarrow> FleeceRuntime) option"
  re_gap_callback :: "(bool \<Rightarrow> u64 \<Rightarrow> FleeceRuntime \<Rightarrow> FleeceRuntime) option"
  re_poll_tick_count :: u32
  re_packets_received :: u32
  re_import_failures :: u32
  re_send_attempts :: u32
  re_send_ok :: u32
  re_send_fail :: u32
  re_resource_started :: u32
  re_resource_link_pending :: u32
  re_resource_complete :: u32
  re_resource_failed :: u32
  re_identity_ready :: bool
  re_node_id :: u64
  re_identity :: "'i option"
  re_saved_keys :: "bytes list"
  re_calls :: "('i, 'l) rns_call list"
  re_host :: FleeceRuntime

definition app_name :: "FleeceReticulumConfig \<Rightarrow> bytes" where
  "app_name cfg = (case rc_app_name cfg of Some n \<Rightarrow> n | None \<Rightarrow> lit ''fleece'')"

text \<open>\<open>memcpy\<close> of the first eight bytes of a hash into a 64-bit integer.\<close>

definition hash_node_id :: "bytes \<Rightarrow> u64" where
  "hash_node_id h = be_value (rev (take 8 h))"

section \<open>The peer table\<close>

fun aspect_index :: "aspect \<Rightarrow> nat" where
  "aspect_index ControlAspect = 1"
| "aspect_index FleeceAspect = 0"

definition link_for :: "nat \<Rightarrow> nat \<Rightarrow> ('i, 'l) PeerSlot list \<Rightarrow> 'l option" where
  "link_for peer_index aspect_idx peers = pt_links (peers ! peer_index) ! aspect_idx"

definition put_link :: "nat \<Rightarrow> nat \<Rightarrow> 'l option \<Rightarrow> ('i, 'l) PeerSlot list \<Rightarrow> ('i, 'l) PeerSlot list" where
  "put_link i a link peers = peers[i := (peers ! i)\<lparr>pt_links := (pt_links (peers ! i))[a := link]\<rparr>]"

definition set_link :: "nat \<Rightarrow> nat \<Rightarrow> 'l \<Rightarrow> ('i, 'l) PeerSlot list \<Rightarrow> ('i, 'l) PeerSlot list" where
  "set_link peer_index aspect_idx link = put_link peer_index aspect_idx (Some link)"

text \<open>The first slot, in the order of the two loops, that caches a link with this hash.\<close>

definition note_link_closed :: "('i, 'l) rns \<Rightarrow> bytes \<Rightarrow> ('i, 'l) PeerSlot list \<Rightarrow> ('i, 'l) PeerSlot list" where
  "note_link_closed rn link_hash peers =
     (case index_of (\<lambda>(i, a). case link_for i a peers of None \<Rightarrow> False | Some l \<Rightarrow> rn_link_hash rn l = link_hash)
             (List.product [0..<length peers] [0, 1]) of
        None \<Rightarrow> peers
      | Some k \<Rightarrow> (case List.product [0..<length peers] [0, 1] ! k of (i, a) \<Rightarrow> put_link i a None peers))"

section \<open>What the mesh delivers\<close>

text \<open>The import and the report to the gap callback, which is made whether or not the import succeeded.\<close>

definition import_gossip_frame :: "allocator \<Rightarrow> bytes \<Rightarrow> ('i, 'l) Reticulum \<Rightarrow> ('i, 'l) Reticulum" where
  "import_gossip_frame A data re =
     (if \<not> re_state_manager re then re
      else
        let re = re\<lparr>re_packets_received := re_packets_received re + 1\<rparr>;
            ir = fleece_state_manager_import_from (\<lambda>_. A) (rt_state_manager (re_host re)) data;
            re = re\<lparr>re_host := (re_host re)\<lparr>rt_state_manager := ir_manager ir\<rparr>\<rparr>;
            behind_shared = (case ir_behind_shared ir of None \<Rightarrow> False | Some b \<Rightarrow> b);
            sender = (case ir_sender ir of None \<Rightarrow> 0 | Some s \<Rightarrow> s);
            re = (if ir_rc ir \<noteq> 0 then re\<lparr>re_import_failures := re_import_failures re + 1\<rparr> else re)
        in case re_gap_callback re of
             None \<Rightarrow> re
           | Some gap \<Rightarrow> re\<lparr>re_host := gap behind_shared sender (re_host re)\<rparr>)"

definition is_fx_control_frame :: "bytes \<Rightarrow> bool" where
  "is_fx_control_frame data \<longleftrightarrow> length data \<ge> 3 \<and> data ! 0 = 0x46 \<and> data ! 1 = 0x58"

definition call_control :: "bytes \<Rightarrow> ('i, 'l) Reticulum \<Rightarrow> ('i, 'l) Reticulum" where
  "call_control data re =
     (case re_control_callback re of None \<Rightarrow> re | Some cb \<Rightarrow> re\<lparr>re_host := cb data (re_host re)\<rparr>)"

definition onPacketReceived :: "allocator \<Rightarrow> bytes \<Rightarrow> ('i, 'l) Reticulum \<Rightarrow> ('i, 'l) Reticulum" where
  "onPacketReceived A data re =
     (if is_fx_control_frame data then call_control data re else import_gossip_frame A data re)"

definition onControlPacketReceived :: "bytes \<Rightarrow> ('i, 'l) Reticulum \<Rightarrow> ('i, 'l) Reticulum" where
  "onControlPacketReceived data re = call_control data re"

definition onLinkClosed :: "('i, 'l) rns \<Rightarrow> 'l \<Rightarrow> ('i, 'l) Reticulum \<Rightarrow> ('i, 'l) Reticulum" where
  "onLinkClosed rn link re = re\<lparr>re_peers := note_link_closed rn (rn_link_hash rn link) (re_peers re)\<rparr>"

definition onFleeceResourceConcluded :: "allocator \<Rightarrow> resource \<Rightarrow> ('i, 'l) Reticulum \<Rightarrow> ('i, 'l) Reticulum" where
  "onFleeceResourceConcluded A r re =
     (if \<not> rs_complete r then re\<lparr>re_resource_failed := re_resource_failed re + 1\<rparr>
      else
        let re = re\<lparr>re_resource_complete := re_resource_complete re + 1\<rparr> in
        if rs_initiator r then re
        else if re_state_manager re then
          (if \<not> is_fx_control_frame (rs_payload r) then import_gossip_frame A (rs_payload r) re
           else call_control (rs_payload r) re)
        else re)"

definition onControlResourceConcluded :: "resource \<Rightarrow> ('i, 'l) Reticulum \<Rightarrow> ('i, 'l) Reticulum" where
  "onControlResourceConcluded r re =
     (if \<not> rs_complete r then re\<lparr>re_resource_failed := re_resource_failed re + 1\<rparr>
      else
        let re = re\<lparr>re_resource_complete := re_resource_complete re + 1\<rparr> in
        if rs_initiator r then re else call_control (rs_payload r) re)"

fun on_link :: "allocator \<Rightarrow> ('i, 'l) rns \<Rightarrow> ('i, 'l) Reticulum \<Rightarrow> 'l link_callback \<Rightarrow> ('i, 'l) Reticulum" where
  "on_link A rn re (LinkClosed l) = onLinkClosed rn l re"
| "on_link A rn re (FleeceResource r) = onFleeceResourceConcluded A r re"
| "on_link A rn re (ControlResource r) = onControlResourceConcluded r re"

section \<open>New peers\<close>

definition log_call :: "('i, 'l) rns_call \<Rightarrow> ('i, 'l) Reticulum \<Rightarrow> ('i, 'l) Reticulum" where
  "log_call c re = re\<lparr>re_calls := re_calls re @ [c]\<rparr>"

text \<open>Tearing a link down calls back into the module before it returns.\<close>

definition teardown_link ::
    "allocator \<Rightarrow> ('i, 'l) rns \<Rightarrow> nat \<Rightarrow> ('i, 'l) Reticulum \<Rightarrow> nat \<Rightarrow> ('i, 'l) Reticulum" where
  "teardown_link A rn slot re a =
     (case link_for slot a (re_peers re) of
        None \<Rightarrow> re
      | Some l \<Rightarrow>
          let re = (if rn_link_status rn l = LINK_HANDSHAKE \<or> rn_link_status rn l = LINK_ACTIVE
                    then foldl (on_link A rn) (log_call (Teardown l) re) (rn_teardown rn l) else re)
          in re\<lparr>re_peers := put_link slot a None (re_peers re)\<rparr>)"

definition teardown_links :: "allocator \<Rightarrow> ('i, 'l) rns \<Rightarrow> nat \<Rightarrow> ('i, 'l) Reticulum \<Rightarrow> ('i, 'l) Reticulum" where
  "teardown_links A rn slot re = foldl (teardown_link A rn slot) re [0, 1]"

definition oldest_slot :: "('i, 'l) PeerSlot list \<Rightarrow> nat" where
  "oldest_slot peers =
     foldl (\<lambda>oldest i. if pt_last_seen_tick (peers ! i) < pt_last_seen_tick (peers ! oldest) then i else oldest)
       0 [1..<length peers]"

definition PeerTable_add ::
    "allocator \<Rightarrow> ('i, 'l) rns \<Rightarrow> 'i \<Rightarrow> u32 \<Rightarrow> ('i, 'l) Reticulum \<Rightarrow> ('i, 'l) Reticulum" where
  "PeerTable_add A rn identity now re =
     (let peers = re_peers re in
      case index_of (\<lambda>p. rn_hash rn (pt_identity p) = rn_hash rn identity) peers of
        Some i \<Rightarrow> re\<lparr>re_peers := peers[i := (peers ! i)\<lparr>pt_last_seen_tick := now\<rparr>]\<rparr>
      | None \<Rightarrow>
          if length peers < kMaxPeers
          then re\<lparr>re_peers := peers @ [\<lparr>pt_identity = identity, pt_last_seen_tick = now, pt_links = [None, None]\<rparr>]\<rparr>
          else
            let oldest = oldest_slot peers;
                re = teardown_links A rn oldest re;
                peers = re_peers re
            in re\<lparr>re_peers := peers[oldest := (peers ! oldest)\<lparr>pt_identity := identity, pt_last_seen_tick := now\<rparr>]\<rparr>)"

definition received_announce ::
    "allocator \<Rightarrow> ('i, 'l) rns \<Rightarrow> 'i \<Rightarrow> ('i, 'l) Reticulum \<Rightarrow> ('i, 'l) Reticulum" where
  "received_announce A rn announced_identity re =
     PeerTable_add A rn announced_identity (re_poll_tick_count re) re"

fun on_mesh :: "allocator \<Rightarrow> ('i, 'l) rns \<Rightarrow> ('i, 'l) Reticulum \<Rightarrow> ('i, 'l) mesh_event \<Rightarrow> ('i, 'l) Reticulum" where
  "on_mesh A rn re (AnnounceHeard identity) = received_announce A rn identity re"
| "on_mesh A rn re (PacketIn data) = onPacketReceived A data re"
| "on_mesh A rn re (ControlPacketIn data) = onControlPacketReceived data re"
| "on_mesh A rn re (LinkEvent c) = on_link A rn re c"

section \<open>Sending\<close>

definition single_packet_payload_ceiling :: "('i, 'l) rns \<Rightarrow> FleeceReticulumConfig \<Rightarrow> u64" where
  "single_packet_payload_ceiling rn cfg =
     (let mtu = (if rc_radio_mtu cfg > 0 then ucast (rc_radio_mtu cfg) else rn_MTU rn);
          header = rn_HEADER_MAXSIZE rn + rn_IFAC_MIN_SIZE rn;
          crypto = rn_FERNET_OVERHEAD rn + rn_KEYSIZE rn div 16
      in if mtu \<le> header + crypto then 0
         else
           let mdu = mtu - header in
           ((mdu - crypto) div rn_AES128_BLOCKSIZE rn) * rn_AES128_BLOCKSIZE rn - 1)"

definition link_pending :: "('i, 'l) Reticulum \<Rightarrow> ('i, 'l) Reticulum" where
  "link_pending re = re\<lparr>re_resource_link_pending := re_resource_link_pending re + 1\<rparr>"

definition sendViaResource ::
    "('i, 'l) rns \<Rightarrow> nat \<Rightarrow> aspect \<Rightarrow> bytes \<Rightarrow> ('i, 'l) Reticulum \<Rightarrow> bool \<times> ('i, 'l) Reticulum" where
  "sendViaResource rn peer_index asp data re =
     (let identity = pt_identity (re_peers re ! peer_index);
          link = (case link_for peer_index (aspect_index asp) (re_peers re) of
                    None \<Rightarrow> None
                  | Some l \<Rightarrow> if rn_link_status rn l = LINK_CLOSED \<or> rn_link_status rn l = LINK_STALE then None else Some l)
      in case link of
           None \<Rightarrow>
             (case rn_link rn identity asp of
                None \<Rightarrow> (False, re)
              | Some l \<Rightarrow>
                  (True, link_pending ((log_call (OpenLink identity asp) re)
                     \<lparr>re_peers := set_link peer_index (aspect_index asp) l (re_peers re)\<rparr>)))
         | Some l \<Rightarrow>
             if rn_link_status rn l = LINK_PENDING \<or> rn_link_status rn l = LINK_HANDSHAKE then (True, link_pending re)
             else if \<not> rn_resource rn l data then (False, re)
             else (True, (log_call (StartResource l asp data) re)\<lparr>re_resource_started := re_resource_started re + 1\<rparr>))"

definition send_packet :: "('i, 'l) rns \<Rightarrow> aspect \<Rightarrow> bytes \<Rightarrow> nat \<Rightarrow> ('i, 'l) Reticulum \<Rightarrow> ('i, 'l) Reticulum" where
  "send_packet rn asp data i re =
     (let identity = pt_identity (re_peers re ! i) in
      if rn_packet rn identity asp data
      then (log_call (SendPacket identity asp data) re)\<lparr>re_send_ok := re_send_ok re + 1\<rparr>
      else re\<lparr>re_send_fail := re_send_fail re + 1\<rparr>)"

text \<open>The loop over the peers.  A packet that throws is counted and skipped; a resource that throws ends the loop.\<close>

fun send_loop :: "('i, 'l) rns \<Rightarrow> aspect \<Rightarrow> bytes \<Rightarrow> bool \<Rightarrow> nat list \<Rightarrow> ('i, 'l) Reticulum \<Rightarrow> bool \<times> ('i, 'l) Reticulum" where
  "send_loop rn asp data oversized [] re = (True, re)"
| "send_loop rn asp data oversized (i # is) re =
     (if oversized then
        (case sendViaResource rn i asp data re of
           (False, re) \<Rightarrow> (False, re)
         | (True, re) \<Rightarrow> send_loop rn asp data oversized is re)
      else send_loop rn asp data oversized is (send_packet rn asp data i re))"

definition pool_low :: "('i, 'l) rns \<Rightarrow> bool" where
  "pool_low rn \<longleftrightarrow> rn_pool_size rn > 0 \<and> rn_pool_free rn * 2 < rn_pool_size rn \<and> rn_pool_free rn * 10 < rn_pool_size rn"

definition sendToAllPeers ::
    "('i, 'l) rns \<Rightarrow> aspect \<Rightarrow> bytes \<Rightarrow> ('i, 'l) Reticulum \<Rightarrow> bool \<times> ('i, 'l) Reticulum" where
  "sendToAllPeers rn asp data re =
     (if pool_low rn
      then (True, if asp = FleeceAspect then re\<lparr>re_send_fail := re_send_fail re + 1\<rparr> else re)
      else
        let re = re\<lparr>re_send_attempts := re_send_attempts re + 1\<rparr>;
            oversized = of_nat (length data) > single_packet_payload_ceiling rn (re_config re)
        in send_loop rn asp data oversized [0..<length (re_peers re)] re)"

definition fleece_reticulum_send :: "('i, 'l) rns \<Rightarrow> bytes \<Rightarrow> ('i, 'l) Reticulum \<Rightarrow> ('i, 'l) Reticulum" where
  "fleece_reticulum_send rn data re =
     (if \<not> rn_copy rn (length data) then re else snd (sendToAllPeers rn FleeceAspect data re))"

definition fleece_reticulum_control_send :: "('i, 'l) rns \<Rightarrow> bytes \<Rightarrow> ('i, 'l) Reticulum \<Rightarrow> ('i, 'l) Reticulum" where
  "fleece_reticulum_control_send rn data re =
     (if \<not> rn_copy rn (length data) then re else snd (sendToAllPeers rn ControlAspect data re))"

definition fleece_reticulum_send_to_node ::
    "('i, 'l) rns \<Rightarrow> u64 \<Rightarrow> bytes \<Rightarrow> ('i, 'l) Reticulum \<Rightarrow> bool \<times> ('i, 'l) Reticulum" where
  "fleece_reticulum_send_to_node rn node_id data re =
     (case index_of (\<lambda>p. let h = rn_hash rn (pt_identity p) in length h \<ge> 8 \<and> hash_node_id h = node_id) (re_peers re) of
        None \<Rightarrow> (False, re)
      | Some i \<Rightarrow>
          let identity = pt_identity (re_peers re ! i) in
          if \<not> rn_packet rn identity FleeceAspect data then (False, re)
          else (True, (log_call (SendPacket identity FleeceAspect data) re)\<lparr>re_send_ok := re_send_ok re + 1\<rparr>))"

definition fleece_reticulum_single_packet_payload_ceiling :: "('i, 'l) rns \<Rightarrow> ('i, 'l) Reticulum \<Rightarrow> u64" where
  "fleece_reticulum_single_packet_payload_ceiling rn re =
     (if \<not> re_configured re then 0 else single_packet_payload_ceiling rn (re_config re))"

section \<open>Polling\<close>

definition announce_self :: "('i, 'l) rns \<Rightarrow> aspect \<Rightarrow> ('i, 'l) Reticulum \<Rightarrow> bool \<times> ('i, 'l) Reticulum" where
  "announce_self rn asp re =
     (if rn_announce rn asp then (True, log_call (AnnounceSelf asp) re) else (False, re))"

text \<open>
  The events are those of the library's loop, in order; \<open>done\<close> is false where the loop throws after them.  An
  announcement that throws skips what follows it.
\<close>

definition fleece_reticulum_poll ::
    "allocator \<Rightarrow> ('i, 'l) rns \<Rightarrow> ('i, 'l) mesh_event list \<Rightarrow> bool \<Rightarrow> ('i, 'l) Reticulum \<Rightarrow> ('i, 'l) Reticulum" where
  "fleece_reticulum_poll A rn events done re =
     (if \<not> re_reticulum re then re
      else
        let re = foldl (on_mesh A rn) re events in
        if \<not> done then re
        else
          let re = re\<lparr>re_poll_tick_count := re_poll_tick_count re + 1\<rparr> in
          if re_poll_tick_count re mod kAnnounceIntervalTicks \<noteq> 0 then re
          else
            (case (if re_destination re then announce_self rn FleeceAspect re else (True, re)) of
               (False, re) \<Rightarrow> re
             | (True, re) \<Rightarrow> if re_control_destination re then snd (announce_self rn ControlAspect re) else re))"

text \<open>
  Draining the radio: \<open>receive\<close> is the host's \<open>radio_receive\<close> on its own state and gives an empty packet when
  none is waiting.  The result is the packets handed to the library.  The loop ends only if the host runs dry.
\<close>

partial_function (option) drain_radio :: "('d \<Rightarrow> bytes \<times> 'd) \<Rightarrow> 'd \<Rightarrow> (bytes list \<times> 'd) option" where
  "drain_radio rcv d =
     (case rcv d of (packet, d) \<Rightarrow>
        if packet = [] then Some ([], d)
        else Option.bind (drain_radio rcv d) (\<lambda>(packets, d). Some (packet # packets, d)))"

text \<open>The library's way out: the host's radio, on the host's own state.\<close>

definition send_outgoing :: "(bytes \<Rightarrow> 'd \<Rightarrow> bool \<times> 'd) \<Rightarrow> ('i, 'l) Reticulum \<Rightarrow> bytes \<Rightarrow> 'd \<Rightarrow> bool \<times> 'd" where
  "send_outgoing radio_send re data d =
     (if hr_online (re_radio re) \<and> rc_radio_send (re_config re) then radio_send data d else (True, d))"

definition radio_loop :: "('d \<Rightarrow> bytes \<times> 'd) \<Rightarrow> ('i, 'l) Reticulum \<Rightarrow> 'd \<Rightarrow> (bytes list \<times> 'd) option" where
  "radio_loop rcv re d =
     (if \<not> hr_online (re_radio re) \<or> \<not> rc_radio_receive (re_config re) then Some ([], d) else drain_radio rcv d)"

section \<open>Configuration, identity and start\<close>

definition radio_configure :: "u32 \<Rightarrow> u32 \<Rightarrow> HostRadioInterface \<Rightarrow> HostRadioInterface" where
  "radio_configure mtu bitrate hr =
     (let hr = hr\<lparr>hr_IN := True, hr_OUT := True\<rparr>;
          hr = (if mtu > 0 then hr\<lparr>hr_HW_MTU := ucast mtu\<rparr> else hr)
      in if bitrate > 0 then hr\<lparr>hr_bitrate := bitrate\<rparr> else hr)"

definition radio_start :: "HostRadioInterface \<Rightarrow> HostRadioInterface" where
  "radio_start hr = hr\<lparr>hr_online := True\<rparr>"

definition radio_stop :: "HostRadioInterface \<Rightarrow> HostRadioInterface" where
  "radio_stop hr = hr\<lparr>hr_online := False\<rparr>"

definition fleece_reticulum_configure :: "FleeceReticulumConfig option \<Rightarrow> ('i, 'l) Reticulum \<Rightarrow> ('i, 'l) Reticulum" where
  "fleece_reticulum_configure config re =
     (case config of None \<Rightarrow> re | Some cfg \<Rightarrow> re\<lparr>re_config := cfg, re_configured := True\<rparr>)"

text \<open>The device id is stirred in without entropy credit, the host's entropy with its full number of bits.\<close>

definition seed_rng_for_identity :: "FleeceReticulumConfig \<Rightarrow> rng_call list" where
  "seed_rng_for_identity cfg =
     RngBegin (app_name cfg) #
     (case rc_device_id cfg of None \<Rightarrow> [] | Some d \<Rightarrow> if d = [] then [] else [RngStir d 0]) @
     (case rc_entropy cfg of None \<Rightarrow> [] | Some (rc, e) \<Rightarrow> if rc = 0 then [RngStir e (32 * 8)] else [])"

definition adopt_identity :: "('i, 'l) rns \<Rightarrow> 'i \<Rightarrow> ('i, 'l) Reticulum \<Rightarrow> bool \<times> ('i, 'l) Reticulum" where
  "adopt_identity rn identity re =
     (if length (rn_hash rn identity) < 8 then (False, re)
      else (True, re\<lparr>re_node_id := hash_node_id (rn_hash rn identity), re_identity := Some identity, re_identity_ready := True\<rparr>))"

definition fleece_reticulum_identity_init :: "('i, 'l) rns \<Rightarrow> ('i, 'l) Reticulum \<Rightarrow> bool \<times> ('i, 'l) Reticulum" where
  "fleece_reticulum_identity_init rn re =
     (if re_identity_ready re then (True, re)
      else if \<not> re_configured re then (False, re)
      else case rc_identity_load (re_config re) of
        Some (Some key) \<Rightarrow>
          (case rn_load_key rn key of None \<Rightarrow> (False, re) | Some identity \<Rightarrow> adopt_identity rn identity re)
      | _ \<Rightarrow>
          (case rn_generate rn (seed_rng_for_identity (re_config re)) of
             None \<Rightarrow> (False, re)
           | Some identity \<Rightarrow>
               let prv = rn_private_key rn identity in
               if length prv \<noteq> FLEECE_RETICULUM_IDENTITY_KEY_SIZE then (False, re)
               else
                 let rc = (case rc_identity_save (re_config re) of None \<Rightarrow> -1 | Some save \<Rightarrow> save prv) in
                 adopt_identity rn identity (if rc = 0 then re\<lparr>re_saved_keys := re_saved_keys re @ [prv]\<rparr> else re)))"

definition fleece_reticulum_node_id :: "('i, 'l) Reticulum \<Rightarrow> u64" where
  "fleece_reticulum_node_id re = re_node_id re"

definition fleece_reticulum_start :: "('i, 'l) rns \<Rightarrow> bool \<Rightarrow> ('i, 'l) Reticulum \<Rightarrow> bool \<times> ('i, 'l) Reticulum" where
  "fleece_reticulum_start rn state_manager re =
     (if \<not> re_configured re \<or> \<not> rc_radio_send (re_config re) \<or> \<not> rc_radio_receive (re_config re) then (False, re)
      else
        let re = re\<lparr>re_state_manager := state_manager\<rparr> in
        if \<not> rn_step rn PrepareStack then (False, re)
        else
          let cfg = re_config re;
              re = re\<lparr>re_radio := radio_configure (rc_radio_mtu cfg) (rc_radio_bitrate cfg) (re_radio re)\<rparr> in
          if \<not> rn_step rn RegisterInterface then (False, re)
          else
          let re = re\<lparr>re_radio := radio_start (re_radio re)\<rparr> in
          if \<not> rn_step rn StackStart then (False, re)
          else
          let re = re\<lparr>re_reticulum := True\<rparr>
          in case fleece_reticulum_identity_init rn re of
               (False, re) \<Rightarrow> (False, re)
             | (True, re) \<Rightarrow>
                 if \<not> rn_step rn OpenFleece then (False, re)
                 else
                   let re = re\<lparr>re_destination := True\<rparr> in
                   if \<not> rn_step rn OpenControl then (False, re)
                   else
                     let re = re\<lparr>re_control_destination := True\<rparr> in
                     if \<not> rn_step rn RegisterHandlers then (False, re)
                     else case announce_self rn FleeceAspect re of
                       (False, re) \<Rightarrow> (False, re)
                     | (True, re) \<Rightarrow> announce_self rn ControlAspect re)"

definition fleece_reticulum_control_set_receive_callback ::
    "(bytes \<Rightarrow> FleeceRuntime \<Rightarrow> FleeceRuntime) option \<Rightarrow> ('i, 'l) Reticulum \<Rightarrow> ('i, 'l) Reticulum" where
  "fleece_reticulum_control_set_receive_callback callback re = re\<lparr>re_control_callback := callback\<rparr>"

definition fleece_reticulum_set_gap_callback ::
    "(bool \<Rightarrow> u64 \<Rightarrow> FleeceRuntime \<Rightarrow> FleeceRuntime) option \<Rightarrow> ('i, 'l) Reticulum \<Rightarrow> ('i, 'l) Reticulum" where
  "fleece_reticulum_set_gap_callback callback re = re\<lparr>re_gap_callback := callback\<rparr>"

section \<open>The host's wiring\<close>

text \<open>
  How \<open>benchmarks/bench_mesh.c\<close> connects a runtime to the mesh: the destination \<open>node:...\<close> is unicast, with the
  fan-out as the fallback; control frames and gap reports go to the runtime.
\<close>

definition comms_send_router :: "('i, 'l) rns \<Rightarrow> bytes \<Rightarrow> bytes \<Rightarrow> ('i, 'l) Reticulum \<Rightarrow> ('i, 'l) Reticulum" where
  "comms_send_router rn destination data re =
     (if take 5 destination = lit ''node:'' then
        let node_id = (case strtoull16 (drop 5 destination) of None \<Rightarrow> 0 | Some (v, _) \<Rightarrow> v) in
        case fleece_reticulum_send_to_node rn node_id data re of
          (True, re) \<Rightarrow> re
        | (False, re) \<Rightarrow> fleece_reticulum_send rn data re
      else fleece_reticulum_send rn data re)"

definition on_control_packet :: "allocator \<Rightarrow> bytes \<Rightarrow> FleeceRuntime \<Rightarrow> FleeceRuntime" where
  "on_control_packet A data r = fleece_runtime_on_control_frame A r (Some data)"

definition on_gap :: "bool \<Rightarrow> u64 \<Rightarrow> FleeceRuntime \<Rightarrow> FleeceRuntime" where
  "on_gap behind_shared sender_node_id r = fleece_runtime_note_behind_from r behind_shared sender_node_id"

end
