(* ===== verification/Script_Claims.thy ===== *)
theory Script_Claims
  imports Script_Engine Gossip_Claims
begin

text \<open>
  What scripts can do to the store.  Every native call performs at most one operation of the store,
  so a script is a sequence of steps of the swarm's transition system; arbitrary calls keep the
  invariant and cannot write fields of other nodes; \<open>swarm\<close> shows exactly the live peers; a value
  written to \<open>world\<close> is read back.
\<close>

section \<open>Hexadecimal text\<close>

lemma hex_digit_facts:
  assumes "d \<in> {..<16}"
  shows "hex_char (hex_digit d)" and "digit_val (hex_digit d) = uint d" and "\<not> is_space (hex_digit d)"
    and "hex_digit d \<noteq> 45" and "hex_digit d \<noteq> 43" and "lower (hex_digit d) \<noteq> 0x78" and "hex_digit d \<noteq> 0"
proof -
  have d: "d \<in> set (map of_nat [0..<16])"
  proof -
    have "unat d \<in> set [0..<16]" using assms by (simp add: word_less_nat_alt)
    moreover have "d = of_nat (unat d)" by simp
    ultimately show ?thesis by (metis imageI list.set_map)
  qed
  have "\<forall>d\<in>set (map of_nat [0..<16]). hex_char (hex_digit d) \<and> digit_val (hex_digit d) = uint d \<and>
      \<not> is_space (hex_digit d) \<and> hex_digit d \<noteq> 45 \<and> hex_digit d \<noteq> 43 \<and> lower (hex_digit d) \<noteq> 0x78 \<and> hex_digit d \<noteq> 0"
    by code_simp
  then show "hex_char (hex_digit d)" and "digit_val (hex_digit d) = uint d" and "\<not> is_space (hex_digit d)"
    and "hex_digit d \<noteq> 45" and "hex_digit d \<noteq> 43" and "lower (hex_digit d) \<noteq> 0x78" and "hex_digit d \<noteq> 0"
    using d by blast+
qed

lemma hex16_chars:
  assumes "b \<in> set (hex16 v)"
  shows "hex_char b" and "\<not> is_space b" and "b \<noteq> 45" and "b \<noteq> 43" and "lower b \<noteq> 0x78" and "b \<noteq> 0"
  using assms nibble_below hex_digit_facts unfolding hex16_def by auto

lemma digits_val_Cons: "digits_val base (d # ds) = digit_val d * base ^ length ds + digits_val base ds"
proof -
  have linear: "foldl (\<lambda>a d. a * base + digit_val d) x ds = x * base ^ length ds + foldl (\<lambda>a d. a * base + digit_val d) 0 ds" for x
  proof (induction ds arbitrary: x)
    case (Cons e ds)
    show ?case
      unfolding foldl_Cons Cons.IH [of "x * base + digit_val e"] Cons.IH [of "0 * base + digit_val e"]
      by (simp add: distrib_right)
  qed simp
  show ?thesis using linear [of "digit_val d"] by (simp add: digits_val_def)
qed

lemma digits_hex:
  "digits_val 16 (map (\<lambda>i. hex_digit (drop_bit (4 * i) v AND 0xF)) (rev [0..<n])) = uint v mod 16 ^ n"
proof (induction n)
  case (Suc n)
  have "uint (drop_bit (4 * n) v AND 0xF) = uint v div 16 ^ n mod 16"
  proof -
    have "drop_bit (4 * n) v AND 0xF = take_bit 4 (drop_bit (4 * n) v)"
      by (simp add: take_bit_eq_mask mask_eq_exp_minus_1)
    moreover have "uint (take_bit 4 (drop_bit (4 * n) v)) = take_bit 4 (drop_bit (4 * n) (uint v))"
      by (simp only: unsigned_take_bit_eq unsigned_drop_bit_eq) (simp add: take_bit_int_eq_self uint_lt2p [of v, simplified])
    ultimately show ?thesis by (simp add: take_bit_eq_mod drop_bit_eq_div power_mult)
  qed
  moreover have "uint v mod 16 ^ Suc n = 16 ^ n * (uint v div 16 ^ n mod 16) + uint v mod 16 ^ n"
    using zmod_zmult2_eq [of 16 "uint v" "16 ^ n"] by (simp add: mult.commute)
  ultimately show ?case
    using Suc hex_digit_facts(2) [OF nibble_below] by (simp add: digits_val_Cons)
qed (simp add: digits_val_def)

lemma digits_hex16: "digits_val 16 (hex16 v) = uint v"
proof -
  have "uint v < 16 ^ 16" using uint_lt2p [of v] by simp
  then show ?thesis unfolding hex16_def digits_hex by simp
qed

lemma strtoull_hex16: "strtoull16 (hex16 v) = Some (v, [])"
proof -
  obtain a b t where h: "hex16 v = a # b # t"
    using length_hex16 [of v] by (metis Suc_length_conv numeral_eq_Suc pred_numeral_simps(2) numeral_One)
  have a: "\<not> is_space a" "a \<noteq> 45" "a \<noteq> 43" and b: "lower b \<noteq> 0x78"
    using hex16_chars [of _ v] by (simp_all add: h)
  have sg: "scan_sign (dropWhile is_space (hex16 v)) = (False, hex16 v)"
    using a by (simp add: h scan_sign_def)
  have nx: "\<not> starts_ci ''0x'' (hex16 v)" using b by (simp add: h starts_ci_def lit_def)
  have tw: "takeWhile hex_char (hex16 v) = hex16 v"
    using hex16_chars(1) by (simp add: takeWhile_eq_all_conv)
  have "uint v < 2 ^ 64" using uint_lt2p [of v] by simp
  moreover have "hex16 v \<noteq> []" by (simp add: h)
  ultimately show ?thesis
    by (simp add: strtoull16_def sg nx tw digits_hex16 Let_def)
qed

lemma format_hex16: "format_node_id v = hex16 v"
  by (simp add: format_node_id_def snprintf_s_def)

lemma parse_format: "parse_node_id (format_node_id v) = Some v"
  using length_hex16 [of v] by (auto simp: parse_node_id_def format_hex16 strtoull_hex16 simp del: length_hex16)

lemma c_string_cstring [simp]: "cstring (c_string s)"
  by (auto simp: cstring_def c_string_def dest: set_takeWhileD)

lemma c_string_id: "cstring s \<Longrightarrow> c_string s = s"
  by (auto simp: cstring_def c_string_def takeWhile_eq_all_conv)


section \<open>The store operation behind a call\<close>

definition json_op :: "'v script_engine \<Rightarrow> 'v list \<Rightarrow> (bytes \<Rightarrow> bytes \<Rightarrow> u32 \<Rightarrow> node_op) \<Rightarrow> node_op option" where
  "json_op en argv mk =
     (case argv of
        a # b # _ \<Rightarrow>
          (case (en_ToCString en a, json_text en b) of
             (Some name, Inr text) \<Rightarrow> Some (mk (c_string name) text (of_nat (length text)))
           | _ \<Rightarrow> None)
      | _ \<Rightarrow> None)"

definition name_op :: "'v script_engine \<Rightarrow> 'v list \<Rightarrow> (bytes \<Rightarrow> node_op) \<Rightarrow> node_op option" where
  "name_op en argv mk =
     (case argv of a # _ \<Rightarrow> map_option (\<lambda>name. mk (c_string name)) (en_ToCString en a) | [] \<Rightarrow> None)"

definition cas_op :: "'v script_engine \<Rightarrow> 'v list \<Rightarrow> node_op option" where
  "cas_op en argv =
     (case argv of
        a # b # c # _ \<Rightarrow>
          (case (en_ToCString en a, if en_IsUndefined en b then Inr None else map_sum id Some (json_text en b), json_text en c) of
             (Some name, Inr e, Inr text) \<Rightarrow>
               Some (SetSharedCas (c_string name) e (of_nat (length (pointee e))) text (of_nat (length text)))
           | _ \<Rightarrow> None)
      | _ \<Rightarrow> None)"

fun store_op :: "'v script_engine \<Rightarrow> 'v native_call \<Rightarrow> node_op option" where
  "store_op en (SelfSet argv) = json_op en argv SetNamed"
| "store_op en (SelfDelete argv) = name_op en argv RemoveNamed"
| "store_op en (WorldSet argv) = json_op en argv SetShared"
| "store_op en (WorldDelete argv) = name_op en argv RemoveShared"
| "store_op en (WorldCompareAndSet argv) = cas_op en argv"
| "store_op en _ = None"

definition after_op :: "allocator \<Rightarrow> node_op option \<Rightarrow> FleeceStateManager \<Rightarrow> FleeceStateManager" where
  "after_op A oper m = (case oper of None \<Rightarrow> m | Some oper \<Rightarrow> run_op A oper m)"

lemmas native_defs = js_self_set_def js_self_delete_def js_world_set_def js_world_delete_def
  js_world_compare_and_set_def json_op_def name_op_def cas_op_def after_op_def

lemma call_native_op:
  assumes m: "em_manager emb = Some m"
  shows "snd (call_native A run en emb c) = emb\<lparr>em_manager := Some (after_op A (store_op en c) m)\<rparr>"
proof -
  have same: "emb\<lparr>em_manager := Some m\<rparr> = emb" using m by simp
  show ?thesis
    by (cases c) (auto simp: native_defs m same split: option.splits list.splits sum.splits prod.splits)
qed

lemma unat_text: "unat (of_nat (length text) :: u32) \<le> length text"
  by (rule unat_of_nat_le)

text \<open>The operations a script can reach: C strings as names, as many bytes as announced.\<close>

fun op_cstring :: "node_op \<Rightarrow> bool" where
  "op_cstring (SetShared s d sz) = (cstring s \<and> unat sz \<le> length d)"
| "op_cstring (RemoveShared s) = cstring s"
| "op_cstring (SetSharedCas s e esz d sz) = (cstring s \<and> unat sz \<le> length d)"
| "op_cstring (SetNamed s d sz) = (cstring s \<and> unat sz \<le> length d)"
| "op_cstring (RemoveNamed s) = cstring s"
| "op_cstring Tick = True"

lemma store_op_cstring: "store_op en c = Some oper \<Longrightarrow> op_cstring oper"
  by (cases c) (auto simp: json_op_def name_op_def cas_op_def unat_text
      split: option.splits list.splits sum.splits if_splits)

section \<open>Arbitrary calls\<close>

text \<open>The node's own fields and the shared ones may change, the clock advances by at most one.\<close>

definition script_change :: "FleeceStateManager \<Rightarrow> FleeceStateManager \<Rightarrow> bool" where
  "script_change m m' \<longleftrightarrow>
     sm_inv m' \<and> sm_node_id m' = sm_node_id m \<and> sm_peers_seen m' = sm_peers_seen m \<and>
     sm_current_tick m' = sm_current_tick m \<and>
     sm_local_timestamp m \<le> sm_local_timestamp m' \<and> unat (sm_local_timestamp m') \<le> Suc (unat (sm_local_timestamp m)) \<and>
     (\<forall>ow k. ow \<noteq> FLEECE_SHARED_OWNER_ID \<and> ow \<noteq> sm_node_id m \<longrightarrow> view m' (ow, k) = view m (ow, k))"

lemma script_change_refl: "sm_inv m \<Longrightarrow> script_change m m"
  by (simp add: script_change_def)

lemma script_change_stamp: "script_change m m' \<Longrightarrow> script_change m (m'\<lparr>sm_last_write_tick := t\<rparr>)"
  by (simp add: script_change_def)

lemma unat_Suc_clock: "w \<noteq> UINT64_MAX \<Longrightarrow> unat (w + 1) = Suc (unat w)"
  using u64_less_Suc [of w] by (simp add: unatSuc word_less_nat_alt unat_word_ariths)

lemma write_change:
  assumes inv: "sm_inv m" and clk: "sm_local_timestamp m \<noteq> UINT64_MAX"
    and d: "sz \<noteq> 0" "unat sz \<le> length d" and s: "cstring s" and ow: "ow = 0 \<or> ow = sm_node_id m"
    and up: "upsert_field A (bump_clock m) key ow og (Some s) (Some d) sz (sm_local_timestamp m + 1) False = (rc, m')"
  shows "script_change m m'"
proof -
  have pay: "valid_payload (Some d) sz False" using d by (simp add: valid_payload_def word_neq_0_conv)
  have nm: "\<And>t. Some s = Some t \<Longrightarrow> cstring t" using s by simp
  note W = local_write [OF inv clk pay nm up]
  have "view m' (o', k) = view m (o', k)" if "o' \<noteq> 0 \<and> o' \<noteq> sm_node_id m" for o' k
    using W(2,3) that ow by (cases "rc = 0") auto
  then show ?thesis
    using W(1) upsert_frame [OF up] clock_le_Suc [OF clk] unat_Suc_clock [OF clk] by (simp add: script_change_def)
qed

lemma remove_shared_change:
  assumes inv: "sm_inv m" and clk: "sm_local_timestamp m \<noteq> UINT64_MAX"
  shows "script_change m (run_op A (RemoveShared s) m)"
proof (cases "find_field_owned m (hash_name s) 0")
  case (Some i)
  obtain rc m' where rm: "fleece_state_manager_remove_shared m (Some s) = (rc, m')" by fastforce
  obtain v where v: "view m (0, hash_name s) = Some v"
    using find_field_ownedD [OF Some] by (simp add: view_def)
  have "sm_peers_seen m' = sm_peers_seen m" "sm_current_tick m' = sm_current_tick m"
    using rm Some by (auto simp: fleece_state_manager_remove_shared_def Let_def)
  then show ?thesis
    using remove_shared_view [OF inv clk Some v rm] rm clock_le_Suc [OF clk] unat_Suc_clock [OF clk]
    by (simp add: script_change_def)
qed (use inv in \<open>simp add: fleece_state_manager_remove_shared_def script_change_refl\<close>)

lemma remove_named_change:
  assumes inv: "sm_inv m" and clk: "sm_local_timestamp m \<noteq> UINT64_MAX"
  shows "script_change m (run_op A (RemoveNamed s) m)"
proof (cases "find_field_owned m (hash_name s) (sm_node_id m)")
  case (Some i)
  then have slot: "find_slot_owned m (hash_name s) (sm_node_id m) = Some i" using find_field_ownedD by blast
  show ?thesis
    using Some entomb_view [OF inv slot clk view_slot [OF slot]] clock_le_Suc [OF clk] unat_Suc_clock [OF clk]
    by (simp add: fleece_state_manager_remove_named_def script_change_def)
qed (use inv in \<open>simp add: fleece_state_manager_remove_named_def script_change_refl\<close>)

lemma run_op_change:
  assumes inv: "sm_inv m" and clk: "sm_local_timestamp m \<noteq> UINT64_MAX" and oper: "op_cstring oper" "oper \<noteq> Tick"
  shows "script_change m (run_op A oper m)"
proof (cases oper)
  case (SetShared s d sz)
  let ?m = "m\<lparr>sm_last_write_tick := sm_current_tick m\<rparr>"
  obtain rc m' where up: "upsert_field A (bump_clock ?m) (hash_name s) 0 (sm_node_id ?m) (Some s) (Some d) sz
      (sm_local_timestamp ?m + 1) False = (rc, m')" by fastforce
  have "script_change ?m m'" if "sz \<noteq> 0" by (rule write_change [OF _ _ that _ _ _ up]) (use inv clk oper SetShared in auto)
  then show ?thesis
    using SetShared up inv by (auto simp: fleece_state_manager_set_shared_def Let_def script_change_def)
next
  case (SetNamed s d sz)
  obtain rc m' where up: "upsert_field A (bump_clock m) (hash_name s) (sm_node_id m) (sm_node_id m) (Some s) (Some d) sz
      (sm_local_timestamp m + 1) False = (rc, m')" by fastforce
  have "script_change m m'" if "sz \<noteq> 0" by (rule write_change [OF inv clk that _ _ _ up]) (use oper SetNamed in auto)
  then show ?thesis
    using SetNamed up script_change_refl [OF inv] by (simp add: fleece_state_manager_set_named_def Let_def)
next
  case (SetSharedCas s e esz d sz)
  obtain rc m' where up: "upsert_field A (bump_clock m) (hash_name s) 0 (sm_node_id m) (Some s) (Some d) sz
      (sm_local_timestamp m + 1) False = (rc, m')" by fastforce
  have "script_change m m'" if "sz \<noteq> 0" by (rule write_change [OF inv clk that _ _ _ up]) (use oper SetSharedCas in auto)
  then show ?thesis
    using SetSharedCas up script_change_refl [OF inv] script_change_stamp
    by (auto simp: fleece_state_manager_set_shared_cas_def Let_def split: option.splits)
qed (use oper inv clk in \<open>simp_all only: remove_shared_change remove_named_change simp_thms\<close>)

text \<open>A script as the sequence of the native calls it makes.\<close>

definition run_script ::
    "allocator \<Rightarrow> ('f \<Rightarrow> 'u option \<Rightarrow> bytes option \<Rightarrow> u32 \<Rightarrow> int \<times> bytes option \<times> u32) \<Rightarrow> 'v script_engine \<Rightarrow>
     ('f, 'u) FleeceEmbedded \<Rightarrow> 'v native_call list \<Rightarrow> ('f, 'u) FleeceEmbedded" where
  "run_script A run en emb calls = foldl (\<lambda>e c. snd (call_native A run en e c)) emb calls"

abbreviation run_ops :: "allocator \<Rightarrow> node_op option list \<Rightarrow> FleeceStateManager \<Rightarrow> FleeceStateManager" where
  "run_ops A ops m \<equiv> foldl (\<lambda>m oper. after_op A oper m) m ops"

lemma run_script_ops:
  "em_manager emb = Some m \<Longrightarrow>
   run_script A run en emb calls = emb\<lparr>em_manager := Some (run_ops A (map (store_op en) calls) m)\<rparr>"
proof (induction calls arbitrary: emb m)
  case (Cons c calls)
  show ?case
    using Cons.IH [of "snd (call_native A run en emb c)" "after_op A (store_op en c) m"] Cons.prems
    by (simp add: run_script_def call_native_op [OF Cons.prems])
qed (simp add: run_script_def)

lemma store_op_no_tick: "store_op en c \<noteq> Some Tick"
  by (cases c) (auto simp: json_op_def name_op_def cas_op_def split: option.splits list.splits sum.splits)

lemma after_op_change:
  assumes "sm_inv m" and "sm_local_timestamp m \<noteq> UINT64_MAX"
  shows "script_change m (after_op A (store_op en c) m)"
proof (cases "store_op en c")
  case (Some oper)
  moreover have "oper \<noteq> Tick" using Some store_op_no_tick by blast
  ultimately show ?thesis
    using run_op_change [OF assms] store_op_cstring [OF Some] by (simp add: after_op_def)
qed (simp add: after_op_def script_change_refl assms)

lemma clock_room: "unat (w :: u64) + Suc n \<le> unat UINT64_MAX \<Longrightarrow> w \<noteq> UINT64_MAX"
  by auto

lemma run_ops_change:
  "sm_inv m \<Longrightarrow> unat (sm_local_timestamp m) + length calls \<le> unat UINT64_MAX \<Longrightarrow>
   sm_inv (run_ops A (map (store_op en) calls) m) \<and>
   sm_node_id (run_ops A (map (store_op en) calls) m) = sm_node_id m \<and>
   sm_peers_seen (run_ops A (map (store_op en) calls) m) = sm_peers_seen m \<and>
   (\<forall>ow k. ow \<noteq> FLEECE_SHARED_OWNER_ID \<and> ow \<noteq> sm_node_id m \<longrightarrow>
      view (run_ops A (map (store_op en) calls) m) (ow, k) = view m (ow, k))"
proof (induction calls arbitrary: m)
  case (Cons c calls)
  let ?m = "after_op A (store_op en c) m"
  have clk: "sm_local_timestamp m \<noteq> UINT64_MAX" using Cons.prems(2) clock_room by simp
  have ch: "script_change m ?m" using Cons.prems(1) clk by (rule after_op_change)
  then have "unat (sm_local_timestamp ?m) + length calls \<le> unat UINT64_MAX"
    using Cons.prems(2) by (simp add: script_change_def)
  from Cons.IH [OF _ this] ch show ?case by (simp add: script_change_def)
qed simp

text \<open>
  C21. Whatever native calls a script makes, with whatever arguments, in whatever order: the store
  keeps its invariant, its node id and its table of peers, the fields of every other node stay as
  they are, and the bindings themselves (registry, liveness limit) are not changed.  Only the
  number of calls is limited, by the range of the 64-bit clock.
\<close>

theorem script_calls_safe:
  assumes "em_manager emb = Some m" and "sm_inv m"
    and "unat (sm_local_timestamp m) + length calls \<le> unat UINT64_MAX"
  shows "\<exists>m'. run_script A run en emb calls = emb\<lparr>em_manager := Some m'\<rparr> \<and> sm_inv m' \<and>
    sm_node_id m' = sm_node_id m \<and> sm_peers_seen m' = sm_peers_seen m \<and>
    (\<forall>ow k. ow \<noteq> FLEECE_SHARED_OWNER_ID \<and> ow \<noteq> sm_node_id m \<longrightarrow> view m' (ow, k) = view m (ow, k))"
  using run_script_ops [OF assms(1)] run_ops_change [OF assms(2,3)] by blast

section \<open>Scripts as steps of the swarm\<close>

definition call_fits :: "'v script_engine \<Rightarrow> 'v native_call \<Rightarrow> bool" where
  "call_fits en c = (case store_op en c of None \<Rightarrow> True | Some oper \<Rightarrow> op_ok oper)"

lemma run_ops_reachable:
  "swarm_reachable ids s \<Longrightarrow> sw_nodes s n = Some m \<Longrightarrow> \<forall>c\<in>set calls. call_fits en c \<Longrightarrow>
   unat (sm_local_timestamp m) + length calls \<le> unat UINT64_MAX \<Longrightarrow>
   \<exists>t. swarm_reachable ids t \<and> sw_nodes t = (sw_nodes s)(n \<mapsto> run_ops A (map (store_op en) calls) m) \<and> sw_hist s \<subseteq> sw_hist t"
proof (induction calls arbitrary: s m)
  case Nil
  then show ?case by (auto simp: fun_upd_idem)
next
  case (Cons c calls)
  let ?m = "after_op A (store_op en c) m" and ?s = "publish s n (after_op A (store_op en c) m)"
  have clk: "sm_local_timestamp m \<noteq> UINT64_MAX" using Cons.prems(4) clock_room by simp
  have inv: "node_inv (sw_hist s) n m" using swarm_invD(1) [OF swarm_reachable_inv] Cons.prems(1,2) by blast
  have reach: "swarm_reachable ids ?s"
  proof (cases "store_op en c")
    case None
    then have "?s = s"
      using inv Cons.prems(2) by (simp add: after_op_def publish_def fun_upd_idem node_inv_def sup.absorb1)
    then show ?thesis using Cons.prems(1) by simp
  next
    case (Some oper)
    then have "op_ok oper" using Cons.prems(3) by (simp add: call_fits_def)
    then show ?thesis
      using Some Cons.prems(1,2) clk by (auto simp: after_op_def intro: swarm_reachable.step swarm_step.local_op)
  qed
  have "script_change m ?m" using inv clk by (simp add: after_op_change node_inv_def)
  then have room: "unat (sm_local_timestamp ?m) + length calls \<le> unat UINT64_MAX"
    using Cons.prems(4) by (simp add: script_change_def)
  have "sw_nodes ?s n = Some ?m" by (simp add: publish_def)
  then obtain t where t: "swarm_reachable ids t"
    "sw_nodes t = (sw_nodes ?s)(n \<mapsto> run_ops A (map (store_op en) calls) ?m)" "sw_hist ?s \<subseteq> sw_hist t"
    using Cons.IH [OF reach _ _ room] Cons.prems(3) by fastforce
  then have "sw_nodes t = (sw_nodes s)(n \<mapsto> run_ops A (map (store_op en) (c # calls)) m)" "sw_hist s \<subseteq> sw_hist t"
    by (simp_all add: publish_def)
  then show ?case using t(1) by blast
qed

text \<open>
  C22. Scripts live inside the swarm's protocol.  If the store of an engine is node \<open>n\<close> of a reachable
  swarm, then after any native calls whose field names are shorter than 64 characters, and with room on the clock for them, the swarm with the
  engine's store in place of \<open>n\<close> is reachable by steps of the protocol, and no other node has moved.
  So convergence, uniqueness of stamps and freedom from resurrection hold for scripted nodes.
\<close>

theorem script_refines_swarm:
  assumes "swarm_reachable ids s" and "sw_nodes s n = em_manager emb" and "em_manager emb = Some m"
    and "\<forall>c\<in>set calls. call_fits en c" and "unat (sm_local_timestamp m) + length calls \<le> unat UINT64_MAX"
  shows "\<exists>t. swarm_reachable ids t \<and> sw_nodes t n = em_manager (run_script A run en emb calls) \<and>
    (\<forall>k. k \<noteq> n \<longrightarrow> sw_nodes t k = sw_nodes s k) \<and> sw_hist s \<subseteq> sw_hist t"
proof -
  obtain t where "swarm_reachable ids t" "sw_nodes t = (sw_nodes s)(n \<mapsto> run_ops A (map (store_op en) calls) m)"
    "sw_hist s \<subseteq> sw_hist t"
    using run_ops_reachable [OF assms(1) _ assms(4,5)] assms(2,3) by metis
  then show ?thesis by (intro exI [of _ t]) (simp add: run_script_ops [OF assms(3)])
qed

section \<open>What scripts see of the swarm\<close>

lemma heard_peers_all:
  assumes "sm_inv m"
  shows "set (fleece_state_manager_list_heard_peers m FLEECE_JS_LIST_MAX) =
    {p. p \<noteq> sm_node_id m \<and> p \<noteq> FLEECE_SHARED_OWNER_ID \<and> knows_peer m p}"
proof -
  have "length (filter P (sm_peers_seen m)) \<le> unat FLEECE_JS_LIST_MAX" for P
    using assms length_filter_le [of P "sm_peers_seen m"] by (simp add: sm_inv_def)
  then show ?thesis
    by (auto simp: fleece_state_manager_list_heard_peers_def knows_peer_def)
qed

lemma peer_live: "em_manager emb = Some m \<Longrightarrow>
    js_peer_is_live emb p \<longleftrightarrow> fleece_state_manager_ticks_since_seen m p \<le> em_peer_ttl_ticks emb"
  by (simp add: js_peer_is_live_def)

text \<open>
  The \<open>swarm\<close> object shows exactly the live peers.  It lists the identifiers, as text, of the
  other nodes that were heard of and not silent for more than the limit, and no others; a listed
  text leads back to the fields of that node; a node silent for longer reads as undefined and
  without fields, even through a text kept from an earlier tick.
\<close>

theorem swarm_view_live:
  assumes m: "em_manager emb = Some m" and inv: "sm_inv m"
  shows "\<exists>ids. js_swarm_nodes emb = NewArray ids \<and>
    (\<forall>text. text \<in> set ids \<longleftrightarrow> (\<exists>p. text = format_node_id p \<and> p \<noteq> sm_node_id m \<and> p \<noteq> FLEECE_SHARED_OWNER_ID \<and>
       knows_peer m p \<and> fleece_state_manager_ticks_since_seen m p \<le> em_peer_ttl_ticks emb)) \<and>
    (\<forall>p a b. en_ToCString en a = Some (format_node_id p) \<longrightarrow>
       (if fleece_state_manager_ticks_since_seen m p \<le> em_peer_ttl_ticks emb
        then js_swarm_keys en emb [a] = NewArray (fleece_state_manager_list_fields m p FLEECE_JS_LIST_MAX) \<and>
          (\<forall>name. en_ToCString en b = Some name \<longrightarrow> js_swarm_get A en emb [a, b] = get_named_value A en m p (c_string name))
        else js_swarm_keys en emb [a] = NewArray [] \<and> js_swarm_get A en emb [a, b] = Undefined))"
proof -
  have cs: "c_string (format_node_id p) = format_node_id p" for p
    using hex16_chars(6) by (intro c_string_id) (auto simp: cstring_def format_hex16)
  show ?thesis
    using heard_peers_all [OF inv]
    by (auto simp: js_swarm_nodes_def js_swarm_keys_def js_swarm_get_def m peer_live [OF m] cs parse_format
        fleece_state_manager_get_node_id_def Let_def)
qed

section \<open>Values written to the world\<close>

text \<open>
  A value written to \<open>world\<close> is read back.  With a name and a JSON text the store can hold, the
  write returns undefined or throws a type error, the latter exactly when the allocator refuses or
  the field is new and the array full; after a write that returned, reading the name gives what
  the engine parses from the text written, while a read of \<open>self\<close>, of a peer or of a name with another key is unchanged.
\<close>

theorem world_set_get:
  assumes m: "em_manager emb = Some m" "sm_inv m" "sm_local_timestamp m \<noteq> UINT64_MAX"
    and name: "en_ToCString en a = Some s" "c_string s \<noteq> []"
    and js: "json_text en v = Inr text" "text \<noteq> []" "length text < 2 ^ 32" "en_ParseJSON en text = Some w"
    and call: "js_world_set A en emb [a, v] = (r, emb')"
  shows "(r = Undefined \<or> r = Throws TypeError) \<and>
    (r = Undefined \<longleftrightarrow> A (length text) \<and>
      (view m (FLEECE_SHARED_OWNER_ID, hash_name (c_string s)) \<noteq> None \<or> sm_field_count m < FIELD_CAPACITY)) \<and>
    (r = Undefined \<longrightarrow> js_world_get (\<lambda>_. True) en emb' [a] = Parsed w) \<and>
    (\<exists>m'. em_manager emb' = Some m' \<and> (\<forall>ow t. ow \<noteq> FLEECE_SHARED_OWNER_ID \<or> hash_name t \<noteq> hash_name (c_string s) \<or> r \<noteq> Undefined \<longrightarrow>
      get_named_value A' en m' ow t = get_named_value A' en m ow t))"
proof -
  let ?s = "c_string s" and ?sz = "of_nat (length text) :: u32"
  have sz: "unat ?sz = length text" using js(3) by (simp add: unat_of_nat_32)
  then have sz0: "?sz \<noteq> 0" using js(2) by auto
  obtain rc m' where up: "fleece_state_manager_set_shared A m (Some ?s) (Some text) ?sz = (rc, m')" by fastforce
  have r: "r = (if rc \<noteq> 0 then Throws TypeError else Undefined)" "em_manager emb' = Some m'"
    using call by (auto simp: js_world_set_def m name js(1) up)
  note S = shared_write [OF m(2,3) name(2) c_string_cstring sz0 _ up, unfolded sz]
  have live: "live_value m' ow (hash_name t) = live_value m ow (hash_name t)"
    if "ow \<noteq> 0 \<or> hash_name t \<noteq> hash_name ?s \<or> rc \<noteq> 0" for ow t
    using S(3,4) that by (cases "rc = 0") (auto simp: live_value_def)
  have "get_named_value A' en m' ow t = get_named_value A' en m ow t"
    if "ow \<noteq> 0 \<or> hash_name t \<noteq> hash_name ?s \<or> rc \<noteq> 0" for ow t
    using live [OF that] by (simp add: get_named_value_def get_named_live [OF S(2)] get_named_live [OF m(2)])
  moreover have "js_world_get (\<lambda>_. True) en emb' [a] = Parsed w" if "rc = 0"
    using S(2) S(3) [OF _ that] js by (simp add: js_world_get_def r name get_named_value_def get_named_live [OF S(2)] live_value_def sz)
  ultimately show ?thesis using r S(1) by auto
qed

section \<open>Witnesses\<close>

text \<open>An engine whose values are JSON texts, the empty text standing for undefined.\<close>

definition demo_engine :: "bytes script_engine" where
  "demo_engine =
     \<lparr>en_ParseJSON = (\<lambda>t. if t = [] then None else Some t), en_JSONStringify = Some, en_IsUndefined = (\<lambda>v. v = []),
      en_ToCString = Some, en_ToFloat64 = (\<lambda>v. Some d_one), en_GetPropertyStr = (\<lambda>v p. if p = lit ''o'' then take 16 (drop 6 v) else v),
      en_NewString = (\<lambda>s. s), en_score_goal = Some (\<lambda>k v. Some v)\<rparr>"

definition demo_emb :: "FleeceStateManager \<Rightarrow> (unit, unit) FleeceEmbedded" where
  "demo_emb m = \<lparr>em_manager = Some m, em_platform = None, em_peer_ttl_ticks = FLEECE_DEFAULT_PEER_TTL_TICKS\<rparr>"

abbreviation no_host :: "unit \<Rightarrow> unit option \<Rightarrow> bytes option \<Rightarrow> u32 \<Rightarrow> int \<times> bytes option \<times> u32" where
  "no_host \<equiv> \<lambda>_ _ _ _. (0, None, 0)"

lemma demo_emb_manager [simp]: "em_manager (demo_emb m) = Some m" "em_peer_ttl_ticks (demo_emb m) = 50"
  by (simp_all add: demo_emb_def)

lemma unat_clock_max: "unat UINT64_MAX = 2 ^ 64 - 1"
  by (simp add: unsigned_minus_1_eq_mask mask_eq_exp_minus_1)

definition demo_calls :: "bytes native_call list" where
  "demo_calls = [WorldSet [[98], [5, 6]], SelfSet [[99], [7]], WorldDelete [demo_name], SwarmNodes]"

theorem script_calls_safe_witness:
  "\<exists>m'. em_manager (run_script yes no_host demo_engine (demo_emb demo_a) demo_calls) = Some m' \<and> sm_inv m' \<and> sm_node_id m' = 1"
proof -
  have n: "sm_node_id demo_a = 1" "unat (sm_local_timestamp demo_a) + length demo_calls \<le> 100" by code_simp+
  then have "unat (sm_local_timestamp demo_a) + length demo_calls \<le> unat UINT64_MAX" by (simp add: unat_clock_max)
  then show ?thesis
    using script_calls_safe [OF demo_emb_manager(1) demo_inv(1), of demo_calls yes no_host demo_engine] n by fastforce
qed

theorem script_refines_swarm_witness:
  "\<exists>t. swarm_reachable {1, 2} t \<and>
     sw_nodes t 1 = em_manager (run_script yes no_host demo_engine (demo_emb demo_a) demo_calls) \<and> sw_nodes t 2 = Some demo_b"
proof -
  have n: "unat (sm_local_timestamp demo_a) + length demo_calls \<le> 100" by code_simp
  have room: "unat (sm_local_timestamp demo_a) + length demo_calls \<le> unat UINT64_MAX" using n by (simp add: unat_clock_max)
  have fits: "\<forall>c\<in>set demo_calls. call_fits demo_engine c" by code_simp
  show ?thesis
    using script_refines_swarm [OF demo_reachable _ demo_emb_manager(1) fits room, of 1 yes no_host] demo_nodes
    by fastforce
qed

theorem swarm_view_live_witness:
  "js_swarm_nodes (demo_emb (touch_peer demo_a 2)) = (NewArray [format_node_id 2] :: bytes js_return) \<and>
   js_swarm_get yes demo_engine (demo_emb (touch_peer demo_a 2)) [format_node_id 3, [98]] = Undefined"
proof -
  have "js_swarm_nodes (demo_emb (touch_peer demo_a 2)) = (NewArray [format_node_id 2] :: bytes js_return)"
    "fleece_state_manager_ticks_since_seen (touch_peer demo_a 2) 3 > 50" "en_ToCString demo_engine (format_node_id 3) = Some (format_node_id 3)"
    by code_simp+
  then show ?thesis
    using swarm_view_live [OF demo_emb_manager(1) touch_peer_inv [OF demo_inv(1)], of 2 demo_engine yes] by force
qed

theorem world_set_get_witness:
  "\<exists>r emb'. js_world_set yes demo_engine (demo_emb demo_a) [[98], [5, 6]] = (r, emb') \<and>
     r = Undefined \<and> js_world_get yes demo_engine emb' [[98]] = Parsed [5, 6]"
proof -
  obtain r emb' where call: "js_world_set yes demo_engine (demo_emb demo_a) [[98], [5, 6]] = (r, emb')" by fastforce
  have "sm_field_count demo_a < FIELD_CAPACITY" by code_simp
  moreover have "en_ToCString demo_engine [98] = Some [98]" "c_string [98] \<noteq> []" "json_text demo_engine [5, 6] = Inr [5, 6]"
    "en_ParseJSON demo_engine [5, 6] = Some [5, 6]" by code_simp+
  ultimately show ?thesis
    using world_set_get [OF demo_emb_manager(1) demo_inv(1) demo_clock(1) _ _ _ _ _ _ call, of "[98]" "[5, 6]" "[5, 6]"] call
    by auto
qed

end
