(* ===== verification/Script_Host.thy ===== *)
theory Script_Host
  imports Script_Claims
begin

text \<open>
  How the host drives the script: loading and executing sources, the life-cycle functions the script
  may define, and the exchange of global values, in \<open>src/embedded/fleece_embedded.c\<close>.  The engine is a
  parameter; its global object is a state \<open>'g\<close>.
\<close>

section \<open>The engine\<close>

text \<open>
  \<open>sh_Eval\<close> and \<open>sh_Call\<close> give the result (\<open>None\<close> for an exception), the native calls made on the
  way, and the global object afterwards.  \<open>sh_GetGlobal\<close> is \<open>None\<close> where reading throws, \<open>sh_SetGlobal\<close> where
  writing fails.
\<close>

record ('v, 'g, 'f, 'u) script_host =
  sh_engine :: "'v script_engine"
  sh_IsFunction :: "'v \<Rightarrow> bool"
  sh_GetGlobal :: "'g \<Rightarrow> bytes \<Rightarrow> 'v option"
  sh_SetGlobal :: "'g \<Rightarrow> bytes \<Rightarrow> 'v \<Rightarrow> 'g option"
  sh_Eval :: "('f, 'u) FleeceEmbedded \<Rightarrow> 'g \<Rightarrow> bytes \<Rightarrow> 'v option \<times> 'v native_call list \<times> 'g"
  sh_Call :: "('f, 'u) FleeceEmbedded \<Rightarrow> 'g \<Rightarrow> 'v \<Rightarrow> 'v option \<times> 'v native_call list \<times> 'g"
  sh_run :: "'f \<Rightarrow> 'u option \<Rightarrow> bytes option \<Rightarrow> u32 \<Rightarrow> int \<times> bytes option \<times> u32"

section \<open>Sources and life-cycle functions\<close>

text \<open>A source is evaluated in the global scope; an exception is the result -1.\<close>

definition fleece_embedded_load_script ::
    "allocator \<Rightarrow> ('v, 'g, 'f, 'u) script_host \<Rightarrow> ('f, 'u) FleeceEmbedded \<Rightarrow> 'g \<Rightarrow> bytes option \<Rightarrow>
     int \<times> ('f, 'u) FleeceEmbedded \<times> 'g" where
  "fleece_embedded_load_script A sh emb g source =
     (case source of
        None \<Rightarrow> (-1, emb, g)
      | Some src \<Rightarrow>
          (case sh_Eval sh emb g src of
             (result, calls, g) \<Rightarrow>
               let emb = run_script A (sh_run sh) (sh_engine sh) emb calls in
               case result of None \<Rightarrow> (-1, emb, g) | Some _ \<Rightarrow> (0, emb, g)))"

definition fleece_embedded_execute ::
    "allocator \<Rightarrow> ('v, 'g, 'f, 'u) script_host \<Rightarrow> ('f, 'u) FleeceEmbedded \<Rightarrow> 'g \<Rightarrow> bytes option \<Rightarrow>
     int \<times> ('f, 'u) FleeceEmbedded \<times> 'g" where
  "fleece_embedded_execute A sh emb g script =
     (case script of
        None \<Rightarrow> (-1, emb, g)
      | Some src \<Rightarrow>
          (case sh_Eval sh emb g src of
             (result, calls, g) \<Rightarrow>
               let emb = run_script A (sh_run sh) (sh_engine sh) emb calls in
               case result of None \<Rightarrow> (-1, emb, g) | Some _ \<Rightarrow> (0, emb, g)))"

text \<open>A function the script does not define is not called, which is no error.\<close>

definition call_lifecycle_fn ::
    "allocator \<Rightarrow> ('v, 'g, 'f, 'u) script_host \<Rightarrow> ('f, 'u) FleeceEmbedded \<Rightarrow> 'g \<Rightarrow> bytes \<Rightarrow>
     int \<times> ('f, 'u) FleeceEmbedded \<times> 'g" where
  "call_lifecycle_fn A sh emb g fn_name =
     (case sh_GetGlobal sh g fn_name of
        None \<Rightarrow> (-1, emb, g)
      | Some fn \<Rightarrow>
          if \<not> sh_IsFunction sh fn then (0, emb, g)
          else
            (case sh_Call sh emb g fn of
               (result, calls, g) \<Rightarrow>
                 let emb = run_script A (sh_run sh) (sh_engine sh) emb calls in
                 case result of None \<Rightarrow> (-1, emb, g) | Some _ \<Rightarrow> (0, emb, g)))"

definition fleece_embedded_call_init ::
    "allocator \<Rightarrow> ('v, 'g, 'f, 'u) script_host \<Rightarrow> ('f, 'u) FleeceEmbedded \<Rightarrow> 'g \<Rightarrow> int \<times> ('f, 'u) FleeceEmbedded \<times> 'g" where
  "fleece_embedded_call_init A sh emb g = call_lifecycle_fn A sh emb g (lit ''init'')"

definition fleece_embedded_call_step ::
    "allocator \<Rightarrow> ('v, 'g, 'f, 'u) script_host \<Rightarrow> ('f, 'u) FleeceEmbedded \<Rightarrow> 'g \<Rightarrow> int \<times> ('f, 'u) FleeceEmbedded \<times> 'g" where
  "fleece_embedded_call_step A sh emb g = call_lifecycle_fn A sh emb g (lit ''step'')"

definition fleece_embedded_call_reset ::
    "allocator \<Rightarrow> ('v, 'g, 'f, 'u) script_host \<Rightarrow> ('f, 'u) FleeceEmbedded \<Rightarrow> 'g \<Rightarrow> int \<times> ('f, 'u) FleeceEmbedded \<times> 'g" where
  "fleece_embedded_call_reset A sh emb g = call_lifecycle_fn A sh emb g (lit ''reset'')"

definition fleece_embedded_call_destroy ::
    "allocator \<Rightarrow> ('v, 'g, 'f, 'u) script_host \<Rightarrow> ('f, 'u) FleeceEmbedded \<Rightarrow> 'g \<Rightarrow> int \<times> ('f, 'u) FleeceEmbedded \<times> 'g" where
  "fleece_embedded_call_destroy A sh emb g = call_lifecycle_fn A sh emb g (lit ''destroy'')"

section \<open>Global values\<close>

definition fleece_embedded_set_value ::
    "allocator \<Rightarrow> ('v, 'g, 'f, 'u) script_host \<Rightarrow> 'g \<Rightarrow> bytes option \<Rightarrow> bytes option \<Rightarrow> u32 \<Rightarrow> int \<times> 'g" where
  "fleece_embedded_set_value A sh g name data sz =
     (case (name, data) of
        (Some nm, Some bs) \<Rightarrow>
          if \<not> A (unat sz + 1) then (-1, g)
          else
            (case en_ParseJSON (sh_engine sh) (take (unat sz) bs) of
               None \<Rightarrow> (-1, g)
             | Some val \<Rightarrow> (case sh_SetGlobal sh g nm val of None \<Rightarrow> (-1, g) | Some g \<Rightarrow> (0, g)))
      | _ \<Rightarrow> (-1, g))"

text \<open>The bytes and their number, \<open>None\<close> for the result -1.\<close>

definition fleece_embedded_get_value ::
    "allocator \<Rightarrow> ('v, 'g, 'f, 'u) script_host \<Rightarrow> 'g \<Rightarrow> bytes option \<Rightarrow> (bytes \<times> u32) option" where
  "fleece_embedded_get_value A sh g name =
     (case name of
        None \<Rightarrow> None
      | Some nm \<Rightarrow>
          (case sh_GetGlobal sh g nm of
             None \<Rightarrow> None
           | Some val \<Rightarrow>
               if en_IsUndefined (sh_engine sh) val then None
               else
                 (case en_JSONStringify (sh_engine sh) val of
                    None \<Rightarrow> None
                  | Some json \<Rightarrow>
                      if en_IsUndefined (sh_engine sh) json then None
                      else
                        (case en_ToCString (sh_engine sh) json of
                           None \<Rightarrow> None
                         | Some text \<Rightarrow>
                             if \<not> A (length text) \<and> length text > 0 then None
                             else Some (text, of_nat (length text))))))"

end
