(* ===== verification/Goal_Auction.thy ===== *)
theory Goal_Auction
  imports Script_Engine
begin

text \<open>
  The goal auction of \<open>src/embedded/fleece_embedded.c\<close>: \<open>fleece_embedded_claim_best_goal\<close> claims
  the best record of a shared pool by a compare-and-set of a claim field, takes over the claims of
  silent peers, and lets a live holder keep its claim unless it is outbid by a margin.  The scorer
  is the script's function \<open>scoreGoal\<close>; during one auction it is a function of its two arguments
  that writes nothing to the store.
\<close>

section \<open>Numbers as text\<close>

text \<open>The decimal digits of a non-negative number.\<close>

function dec_digits :: "int \<Rightarrow> bytes" where
  "dec_digits n = (if n < 10 then [word_of_int n + 0x30] else dec_digits (n div 10) @ [word_of_int (n mod 10) + 0x30])"
  by pat_completeness auto

termination by (relation "measure nat") auto

declare dec_digits.simps [simp del]

definition round_even :: "int \<Rightarrow> int \<Rightarrow> int" where
  "round_even n d = (let q = n div d; r = n mod d in if 2 * r > d \<or> (2 * r = d \<and> odd q) then q + 1 else q)"

text \<open>The decimal exponent of a positive fraction: how often ten divides it, or must multiply it.\<close>

function pow10_up :: "int \<Rightarrow> int \<Rightarrow> int" where
  "pow10_up n d = (if 0 < d \<and> n \<ge> 10 * d then 1 + pow10_up n (10 * d) else 0)"
  by pat_completeness auto

termination by (relation "measure (\<lambda>(n, d). nat (n - d))") auto

function pow10_down :: "int \<Rightarrow> int \<Rightarrow> int" where
  "pow10_down n d = (if 0 < n \<and> n < d then 1 + pow10_down (10 * n) d else 0)"
  by pat_completeness auto

termination by (relation "measure (\<lambda>(n, d). nat (d - n))") auto

declare pow10_up.simps [simp del] pow10_down.simps [simp del]

definition strip_zeros :: "bytes \<Rightarrow> bytes" where
  "strip_zeros ds = rev (dropWhile (\<lambda>c. c = 0x30) (rev ds))"

definition g17_point :: "bytes \<Rightarrow> bytes \<Rightarrow> bytes" where
  "g17_point whole frac = whole @ (if strip_zeros frac = [] then [] else 0x2E # strip_zeros frac)"

text \<open>The digits and exponent of a number, in the exponential or the plain style.\<close>

definition g17_body :: "bytes \<Rightarrow> int \<Rightarrow> bytes" where
  "g17_body ds e =
     (if e < -4 \<or> e \<ge> 17 then
        g17_point (take 1 ds) (drop 1 ds) @ [0x65, if e < 0 then 0x2D else 0x2B] @
          (if \<bar>e\<bar> < 10 then [0x30] else []) @ dec_digits \<bar>e\<bar>
      else if e < 0 then g17_point [0x30] (replicate (nat (- e) - 1) 0x30 @ ds)
      else g17_point (take (nat e + 1) ds) (drop (nat e + 1) ds))"

text \<open>Seventeen significant digits and the decimal exponent of the fraction \<open>n / d\<close>.\<close>

definition g17_digits :: "int \<Rightarrow> int \<Rightarrow> int \<times> int" where
  "g17_digits n d =
     (let e = (if n \<ge> d then pow10_up n d else - pow10_down n d);
          m = (if e \<le> 16 then round_even (n * 10 ^ nat (16 - e)) d else round_even n (d * 10 ^ nat (e - 16)))
      in if m = 10 ^ 17 then (10 ^ 16, e + 1) else (m, e))"

text \<open>\<open>%.17g\<close> of a finite number.\<close>

definition fmt_g17 :: "double \<Rightarrow> bytes" where
  "fmt_g17 v =
     (let sign = (if d_neg v then [0x2D] else []) in
      if is_zero v then sign @ [0x30]
      else let (m, e) = g17_digits \<bar>d_num v\<bar> (d_den v) in sign @ g17_body (dec_digits m) e)"

section \<open>Claims\<close>

abbreviation d_1e300 :: double where "d_1e300 \<equiv> 0x7E37E43C8800759C"

text \<open>A score beyond \<open>1e300\<close> in magnitude is cut to it; NaN makes the candidate ineligible.\<close>

definition js_score_goal ::
    "allocator \<Rightarrow> 'v script_engine \<Rightarrow> ('v \<Rightarrow> 'v \<Rightarrow> 'v option) \<Rightarrow> bytes \<Rightarrow> bytes \<Rightarrow> u32 \<Rightarrow> double option" where
  "js_score_goal A en score_fn key data sz =
     (if \<not> A (unat sz + 1) then None
      else
        case en_ParseJSON en (take (unat sz) data) of
          None \<Rightarrow> None
        | Some parsed \<Rightarrow>
            (case score_fn (en_NewString en key) parsed of
               None \<Rightarrow> None
             | Some result \<Rightarrow>
                 (case en_ToFloat64 en result of
                    None \<Rightarrow> None
                  | Some score \<Rightarrow>
                      if is_nan score then None
                      else if d_less d_1e300 score \<or> d_less score (d_minus d_1e300)
                        then Some (if d_less d_zero score then d_1e300 else d_minus d_1e300)
                      else Some score)))"

definition claim_key :: "bytes \<Rightarrow> bytes" where
  "claim_key key = snprintf_s (FLEECE_FIELD_NAME_MAX + 8) (lit ''claim_'' @ key)"

text \<open>The owner and the score in the bytes of a claim.\<close>

definition parse_claim :: "'v script_engine \<Rightarrow> bytes \<Rightarrow> (u64 \<times> double) option" where
  "parse_claim en data =
     (case en_ParseJSON en data of
        None \<Rightarrow> None
      | Some parsed \<Rightarrow>
          (case en_ToCString en (en_GetPropertyStr en parsed (lit ''o'')) of
             None \<Rightarrow> None
           | Some owner_hex \<Rightarrow>
               (case en_ToFloat64 en (en_GetPropertyStr en parsed (lit ''b'')) of
                  None \<Rightarrow> None
                | Some score \<Rightarrow>
                    Some (case strtoull16 (c_string owner_hex) of None \<Rightarrow> 0 | Some (owner, _) \<Rightarrow> owner, score))))"

text \<open>The owner and score, if the claim can be read, with \<open>*out_raw\<close> and \<open>*out_raw_size\<close>.\<close>

definition read_claim ::
    "allocator \<Rightarrow> 'v script_engine \<Rightarrow> FleeceStateManager \<Rightarrow> bytes \<Rightarrow> (u64 \<times> double) option \<times> bytes option \<times> u32" where
  "read_claim A en m key =
     (case fleece_state_manager_get_named A m FLEECE_SHARED_OWNER_ID (Some (claim_key key)) of
        None \<Rightarrow> (None, None, 0)
      | Some (data, sz) \<Rightarrow>
          (if \<not> A (unat sz + 1) then None else parse_claim en (take (unat sz) data), Some data, sz))"

text \<open>The text \<open>{"o":"<id>","b":<score>}\<close>, with 34 the quotation mark.\<close>

definition claim_value :: "u64 \<Rightarrow> double \<Rightarrow> bytes" where
  "claim_value self_id score =
     lit ''{'' @ [34] @ lit ''o'' @ [34] @ lit '':'' @ [34] @ hex16 self_id @ [34] @ lit '','' @ [34] @ lit ''b'' @ [34] @
     lit '':'' @ fmt_g17 score @ lit ''}''"

definition cas_claim ::
    "allocator \<Rightarrow> FleeceStateManager \<Rightarrow> bytes \<Rightarrow> u64 \<Rightarrow> double \<Rightarrow> bytes option \<Rightarrow> u32 \<Rightarrow> int \<times> FleeceStateManager" where
  "cas_claim A m key self_id score expected_raw expected_raw_size =
     (let new_value = claim_value self_id score in
      if length new_value \<ge> 96 then (-1, m)
      else fleece_state_manager_set_shared_cas A m (Some (claim_key key))
             (if expected_raw_size > 0 then expected_raw else None) expected_raw_size
             (Some new_value) (of_nat (length new_value)))"

section \<open>The auction\<close>

text \<open>The score of the key held so far, if its claim is still ours and its record can be scored.\<close>

definition held_score ::
    "allocator \<Rightarrow> 'v script_engine \<Rightarrow> ('v \<Rightarrow> 'v \<Rightarrow> 'v option) \<Rightarrow> FleeceStateManager \<Rightarrow> bytes option \<Rightarrow> double option" where
  "held_score A en score_fn m current_key =
     (case current_key of
        None \<Rightarrow> None
      | Some key \<Rightarrow>
          (case read_claim A en m key of
             (Some (owner, _), _) \<Rightarrow>
               if owner \<noteq> fleece_state_manager_get_node_id m then None
               else
                 (case fleece_state_manager_get_named A m FLEECE_SHARED_OWNER_ID (Some key) of
                    None \<Rightarrow> None
                  | Some (data, sz) \<Rightarrow> js_score_goal A en score_fn key data sz)
           | (None, _) \<Rightarrow> None))"

text \<open>The best candidate so far: key, score and the raw claim it would replace.\<close>

type_synonym candidate = "bytes \<times> double \<times> bytes option \<times> u32"

definition may_bid :: "FleeceStateManager \<Rightarrow> u64 \<Rightarrow> double \<Rightarrow> double \<Rightarrow> (u64 \<times> double) option \<Rightarrow> bool" where
  "may_bid m peer_ttl_ticks contest_margin score claim =
     (case claim of
        None \<Rightarrow> True
      | Some (holder, holder_score) \<Rightarrow>
          if holder = fleece_state_manager_get_node_id m then True
          else if fleece_state_manager_ticks_since_seen m holder > peer_ttl_ticks then True
          else d_less (d_add holder_score contest_margin) score)"

definition scan_key ::
    "allocator \<Rightarrow> 'v script_engine \<Rightarrow> ('v \<Rightarrow> 'v \<Rightarrow> 'v option) \<Rightarrow> FleeceStateManager \<Rightarrow> u64 \<Rightarrow> bytes \<Rightarrow> bytes option \<Rightarrow>
     double \<Rightarrow> candidate option \<Rightarrow> bytes \<Rightarrow> candidate option" where
  "scan_key A en score_fn m ttl prefix current_key contest_margin best key =
     (if take (length prefix) key \<noteq> prefix then best
      else if take 6 key = lit ''claim_'' then best
      else if current_key = Some key then best
      else
        case fleece_state_manager_get_named A m FLEECE_SHARED_OWNER_ID (Some key) of
          None \<Rightarrow> best
        | Some (data, sz) \<Rightarrow>
            (case js_score_goal A en score_fn key data sz of
               None \<Rightarrow> best
             | Some score \<Rightarrow>
                 (case read_claim A en m key of
                    (claim, claim_raw, claim_raw_size) \<Rightarrow>
                      if may_bid m ttl contest_margin score claim \<and>
                         (case best of None \<Rightarrow> True | Some (_, best_score, _) \<Rightarrow> d_less best_score score)
                      then Some (take (FLEECE_FIELD_NAME_MAX - 1) key, score, claim_raw, claim_raw_size)
                      else best)))"

definition scan_pool ::
    "allocator \<Rightarrow> 'v script_engine \<Rightarrow> ('v \<Rightarrow> 'v \<Rightarrow> 'v option) \<Rightarrow> FleeceStateManager \<Rightarrow> u64 \<Rightarrow> bytes \<Rightarrow> bytes option \<Rightarrow>
     double \<Rightarrow> candidate option" where
  "scan_pool A en score_fn m ttl prefix current_key contest_margin =
     foldl (scan_key A en score_fn m ttl prefix current_key contest_margin) None
       (fleece_state_manager_list_fields m FLEECE_SHARED_OWNER_ID FLEECE_JS_LIST_MAX)"

text \<open>
  Writing the claim of the best candidate and dropping the one held; a lost race keeps the held
  key.  \<open>held\<close> is the held key, where there is one.
\<close>

definition switch_claim ::
    "allocator \<Rightarrow> FleeceStateManager \<Rightarrow> bytes option \<Rightarrow> candidate \<Rightarrow> bytes option \<times> FleeceStateManager" where
  "switch_claim A m held best =
     (case best of
        (best_key, best_score, raw, raw_size) \<Rightarrow>
          (case cas_claim A m best_key (fleece_state_manager_get_node_id m) best_score raw raw_size of
             (rc, m') \<Rightarrow>
               if rc = 0 then
                 (Some best_key,
                  case held of
                    None \<Rightarrow> m'
                  | Some key \<Rightarrow> snd (fleece_state_manager_remove_shared m' (Some (claim_key key))))
               else (held, m')))"

definition reassert_claim :: "allocator \<Rightarrow> FleeceStateManager \<Rightarrow> bytes \<Rightarrow> double \<Rightarrow> FleeceStateManager" where
  "reassert_claim A m key score =
     (case fleece_state_manager_get_named A m FLEECE_SHARED_OWNER_ID (Some (claim_key key)) of
        None \<Rightarrow> m
      | Some (raw, raw_size) \<Rightarrow> snd (cas_claim A m key (fleece_state_manager_get_node_id m) score (Some raw) raw_size))"

text \<open>Deciding between the held key with its score and the best candidate.\<close>

definition should_switch :: "(bytes \<times> double) option \<Rightarrow> candidate option \<Rightarrow> double \<Rightarrow> bool" where
  "should_switch held best contest_margin =
     (case best of
        None \<Rightarrow> False
      | Some (best_key, best_score, _) \<Rightarrow>
          best_key \<noteq> [] \<and>
          (case held of None \<Rightarrow> True | Some (_, current_score) \<Rightarrow> d_less (d_add current_score contest_margin) best_score))"

definition settle_claim ::
    "allocator \<Rightarrow> FleeceStateManager \<Rightarrow> (bytes \<times> double) option \<Rightarrow> candidate option \<Rightarrow> double \<Rightarrow> bool \<Rightarrow>
     bytes option \<times> FleeceStateManager" where
  "settle_claim A m held best contest_margin allow_reassert =
     (if should_switch held best contest_margin then switch_claim A m (map_option fst held) (the best)
      else
        case held of
          None \<Rightarrow> (None, m)
        | Some (key, current_score) \<Rightarrow> (Some key, if allow_reassert then reassert_claim A m key current_score else m))"

text \<open>The return code, \<open>out_key\<close> and the engine afterwards; an empty current key counts as none.\<close>

definition fleece_embedded_claim_best_goal ::
    "allocator \<Rightarrow> 'v script_engine \<Rightarrow> ('f, 'u) FleeceEmbedded \<Rightarrow> bytes option \<Rightarrow> bytes option \<Rightarrow> double \<Rightarrow> bool \<Rightarrow> nat \<Rightarrow>
     int \<times> bytes \<times> ('f, 'u) FleeceEmbedded" where
  "fleece_embedded_claim_best_goal A en emb prefix current_key contest_margin allow_reassert out_key_cap =
     (case (em_manager emb, prefix) of
        (Some m, Some pre) \<Rightarrow>
          if out_key_cap = 0 then (-1, [], emb)
          else
            let current_key = (if current_key = Some [] then None else current_key) in
            (case en_score_goal en of
               None \<Rightarrow> (-1, [], emb)
             | Some score_fn \<Rightarrow>
                 let held = map_option (\<lambda>s. (the current_key, s)) (held_score A en score_fn m current_key);
                     best = scan_pool A en score_fn m (em_peer_ttl_ticks emb) pre current_key contest_margin;
                     (result_key, m') = settle_claim A m held best contest_margin allow_reassert
                 in (0, (case result_key of None \<Rightarrow> [] | Some key \<Rightarrow> take (out_key_cap - 1) key), emb\<lparr>em_manager := Some m'\<rparr>))
      | _ \<Rightarrow> (-1, [], emb))"

end
