(* ===== verification/Goap_Js.thy ===== *)
theory Goap_Js
  imports Goal_Auction Script_Claims Goap_Plan
begin

text \<open>
  The evaluation bridge of \<open>src/embedded/fleece_goap_js.c\<close>: the sources in the planner's tables are
  compiled by the script engine and kept in a cache, a blackboard is handed to them as an object
  and read back from it, the store is copied into a blackboard and a blackboard is committed to the
  store.  The engine is a parameter, as for the native bindings; objects have value semantics, since
  the object built for a call is a copy that only this call sees.
\<close>

section \<open>The engine\<close>

text \<open>
  \<open>ge_Call\<close> is the outcome of calling a function with the store as it is: the result (\<open>None\<close> for an
  exception) and the first argument afterwards.  The bodies of actions may also use the native
  functions: \<open>ge_natives\<close> are the calls such a body makes.  Conditions, effects, costs and
  \<open>goalSatisfied\<close> only read the store.
\<close>

record ('v, 'f, 'u) goap_engine =
  ge_script :: "'v script_engine"
  ge_Eval :: "bytes \<Rightarrow> 'v option"
  ge_IsFunction :: "'v \<Rightarrow> bool"
  ge_IsObject :: "'v \<Rightarrow> bool"
  ge_ToBool :: "'v \<Rightarrow> bool"
  ge_NewObject :: 'v
  ge_NewInt32 :: "int \<Rightarrow> 'v"
  ge_SetPropertyStr :: "'v \<Rightarrow> bytes \<Rightarrow> 'v \<Rightarrow> 'v"
  ge_OwnPropertyNames :: "'v \<Rightarrow> bytes option list option"
  ge_global :: "bytes \<Rightarrow> 'v"
  ge_Call :: "('f, 'u) FleeceEmbedded \<Rightarrow> 'v \<Rightarrow> 'v list \<Rightarrow> 'v option \<times> 'v"
  ge_natives :: "('f, 'u) FleeceEmbedded \<Rightarrow> 'v \<Rightarrow> 'v list \<Rightarrow> 'v native_call list"
  ge_host :: "'f \<Rightarrow> 'u option \<Rightarrow> bytes option \<Rightarrow> u32 \<Rightarrow> int \<times> bytes option \<times> u32"

section \<open>Compiled functions and their cache\<close>

datatype goap_fn_kind = GOAP_FN_PRE | GOAP_FN_EFF | GOAP_FN_GOAL | GOAP_FN_COST | GOAP_FN_EXEC

text \<open>In \<open>ce_fn\<close>, \<open>None\<close> is \<open>JS_UNDEFINED\<close>, which is also kept for a source that does not compile.\<close>

record 'v GoapFnEntry =
  ce_used :: bool
  ce_kind :: goap_fn_kind
  ce_idx :: nat
  ce_sub :: nat
  ce_src :: bytes
  ce_fn :: "'v option"

record 'v FleeceGoapJsEval =
  je_entries :: "'v GoapFnEntry list"
  je_entry_next :: nat

definition compile_goap_fn :: "allocator \<Rightarrow> ('v, 'f, 'u) goap_engine \<Rightarrow> bytes \<Rightarrow> 'v option" where
  "compile_goap_fn A en src =
     (if \<not> A (length src + 2 + 1) then None else ge_Eval en (lit ''('' @ src @ lit '')''))"

definition compile_source :: "allocator \<Rightarrow> ('v, 'f, 'u) goap_engine \<Rightarrow> bytes option \<Rightarrow> 'v option" where
  "compile_source A en src =
     (case src of None \<Rightarrow> None | Some s \<Rightarrow> if s = [] then None else compile_goap_fn A en s)"

definition goap_fn_entry_match :: "'v GoapFnEntry \<Rightarrow> goap_fn_kind \<Rightarrow> nat \<Rightarrow> nat \<Rightarrow> bytes \<Rightarrow> bool" where
  "goap_fn_entry_match e kind idx sub src =
     (ce_used e \<and> ce_kind e = kind \<and> ce_idx e = idx \<and> ce_sub e = sub \<and> ce_src e = src)"

definition fresh_entry :: "allocator \<Rightarrow> ('v, 'f, 'u) goap_engine \<Rightarrow> goap_fn_kind \<Rightarrow> nat \<Rightarrow> nat \<Rightarrow> bytes \<Rightarrow> 'v GoapFnEntry" where
  "fresh_entry A en kind idx sub src =
     \<lparr>ce_used = True, ce_kind = kind, ce_idx = idx, ce_sub = sub, ce_src = src, ce_fn = compile_goap_fn A en src\<rparr>"

text \<open>
  The loop over the entries: the first used entry for this position is taken, or replaced when its
  source is another one.  The result is the function and the entries, \<open>None\<close> where the loop ends.
\<close>

fun find_entry ::
    "allocator \<Rightarrow> ('v, 'f, 'u) goap_engine \<Rightarrow> goap_fn_kind \<Rightarrow> nat \<Rightarrow> nat \<Rightarrow> bytes \<Rightarrow> 'v GoapFnEntry list \<Rightarrow>
     ('v option \<times> 'v GoapFnEntry list) option" where
  "find_entry A en kind idx sub src [] = None"
| "find_entry A en kind idx sub src (e # es) =
     (if goap_fn_entry_match e kind idx sub src then Some (ce_fn e, e # es)
      else if ce_used e \<and> ce_kind e = kind \<and> ce_idx e = idx \<and> ce_sub e = sub then
        let e' = fresh_entry A en kind idx sub src in Some (ce_fn e', e' # es)
      else map_option (\<lambda>(fn, es'). (fn, e # es')) (find_entry A en kind idx sub src es))"

definition goap_get_js_fn ::
    "allocator \<Rightarrow> ('v, 'f, 'u) goap_engine \<Rightarrow> 'v FleeceGoapJsEval \<Rightarrow> goap_fn_kind \<Rightarrow> nat \<Rightarrow> nat \<Rightarrow> bytes option \<Rightarrow>
     'v option \<times> 'v FleeceGoapJsEval" where
  "goap_get_js_fn A en je kind idx sub src =
     (case src of
        None \<Rightarrow> (None, je)
      | Some s \<Rightarrow>
          if s = [] then (None, je)
          else
            (case find_entry A en kind idx sub s (je_entries je) of
               Some (fn, es) \<Rightarrow> (fn, je\<lparr>je_entries := es\<rparr>)
             | None \<Rightarrow>
                 let e = fresh_entry A en kind idx sub s; cap = length (je_entries je) in
                 (ce_fn e, je\<lparr>je_entries := (je_entries je)[je_entry_next je := e],
                              je_entry_next := (je_entry_next je + 1) mod (if cap \<noteq> 0 then cap else 1)\<rparr>)))"

definition fn_undefined :: "('v, 'f, 'u) goap_engine \<Rightarrow> 'v option \<Rightarrow> bool" where
  "fn_undefined en fn = (case fn of None \<Rightarrow> True | Some v \<Rightarrow> en_IsUndefined (ge_script en) v)"

definition fn_callable :: "('v, 'f, 'u) goap_engine \<Rightarrow> 'v option \<Rightarrow> bool" where
  "fn_callable en fn = (case fn of None \<Rightarrow> False | Some v \<Rightarrow> ge_IsFunction en v)"

section \<open>Blackboards as objects\<close>

definition bb_field_to_js ::
    "allocator \<Rightarrow> ('v, 'f, 'u) goap_engine \<Rightarrow> 'v \<times> 'v \<Rightarrow> FleeceGoapField \<Rightarrow> 'v \<times> 'v" where
  "bb_field_to_js A en objs f =
     (case objs of
        (self, world) \<Rightarrow>
          if \<not> A (unat (gf_size f) + 1) then (self, world)
          else
            (case en_ParseJSON (ge_script en) (gf_bytes f) of
               None \<Rightarrow> (self, world)
             | Some v \<Rightarrow>
                 if en_IsUndefined (ge_script en) v then (self, world)
                 else if gf_is_shared f then (self, ge_SetPropertyStr en world (gf_name f) v)
                 else (ge_SetPropertyStr en self (gf_name f) v, world)))"

definition global_or_new :: "('v, 'f, 'u) goap_engine \<Rightarrow> bytes \<Rightarrow> 'v" where
  "global_or_new en name =
     (if en_IsUndefined (ge_script en) (ge_global en name) then ge_NewObject en else ge_global en name)"

definition goap_bb_to_js :: "allocator \<Rightarrow> ('v, 'f, 'u) goap_engine \<Rightarrow> FleeceGoapBlackboard \<Rightarrow> 'v" where
  "goap_bb_to_js A en bb =
     (let (self, world) = foldl (bb_field_to_js A en) (ge_NewObject en, ge_NewObject en) (bb_fields bb);
          obj = ge_SetPropertyStr en (ge_NewObject en) (lit ''self'') self;
          obj = ge_SetPropertyStr en obj (lit ''world'') world;
          obj = ge_SetPropertyStr en obj (lit ''platform'') (global_or_new en (lit ''platform''))
      in ge_SetPropertyStr en obj (lit ''swarm'') (global_or_new en (lit ''swarm'')))"

text \<open>One property of an object into the blackboard; a value without JSON text is left out.\<close>

definition property_to_bb ::
    "allocator \<Rightarrow> ('v, 'f, 'u) goap_engine \<Rightarrow> 'v \<Rightarrow> bool \<Rightarrow> FleeceGoapBlackboard \<Rightarrow> bytes option \<Rightarrow> FleeceGoapBlackboard" where
  "property_to_bb A en obj is_shared dst name =
     (case name of
        None \<Rightarrow> dst
      | Some nm \<Rightarrow>
          (case en_JSONStringify (ge_script en) (en_GetPropertyStr (ge_script en) obj nm) of
             None \<Rightarrow> dst
           | Some json \<Rightarrow>
               if en_IsUndefined (ge_script en) json then dst
               else
                 (case en_ToCString (ge_script en) json of
                    None \<Rightarrow> dst
                  | Some text \<Rightarrow>
                      snd (fleece_goap_bb_set A dst (Some (c_string nm)) (Some text) (of_nat (length text)) is_shared))))"

definition goap_js_object_to_bb ::
    "allocator \<Rightarrow> ('v, 'f, 'u) goap_engine \<Rightarrow> 'v \<Rightarrow> bool \<Rightarrow> FleeceGoapBlackboard \<Rightarrow> int \<times> FleeceGoapBlackboard" where
  "goap_js_object_to_bb A en obj is_shared dst =
     (if \<not> ge_IsObject en obj then (0, dst)
      else
        case ge_OwnPropertyNames en obj of
          None \<Rightarrow> (-1, dst)
        | Some names \<Rightarrow> (0, foldl (property_to_bb A en obj is_shared) dst names))"

definition goap_js_to_bb ::
    "allocator \<Rightarrow> ('v, 'f, 'u) goap_engine \<Rightarrow> 'v \<Rightarrow> FleeceGoapBlackboard \<Rightarrow> int \<times> FleeceGoapBlackboard" where
  "goap_js_to_bb A en bbjs dst =
     (if \<not> ge_IsObject en bbjs then (-1, dst)
      else
        let (r1, dst) = goap_js_object_to_bb A en (en_GetPropertyStr (ge_script en) bbjs (lit ''self'')) False dst;
            (r2, dst) = goap_js_object_to_bb A en (en_GetPropertyStr (ge_script en) bbjs (lit ''world'')) True dst
        in (if r1 \<noteq> 0 \<or> r2 \<noteq> 0 then -1 else 0, dst))"

section \<open>Evaluation callbacks\<close>

text \<open>The loop over the preconditions of an action: \<open>*out\<close> and the cache.\<close>

fun pre_loop ::
    "allocator \<Rightarrow> ('v, 'f, 'u) goap_engine \<Rightarrow> ('f, 'u) FleeceEmbedded \<Rightarrow> FleeceGoap \<Rightarrow> nat \<Rightarrow> nat list \<Rightarrow>
     'v FleeceGoapJsEval \<Rightarrow> 'v \<Rightarrow> bool \<times> 'v FleeceGoapJsEval" where
  "pre_loop A en emb goap a [] je bbjs = (True, je)"
| "pre_loop A en emb goap a (i # is) je bbjs =
     (let (fn, je) = goap_get_js_fn A en je GOAP_FN_PRE a i (fleece_goap_action_pre goap a i) in
      if fn_undefined en fn then pre_loop A en emb goap a is je bbjs
      else if \<not> fn_callable en fn then (False, je)
      else
        case ge_Call en emb (the fn) [bbjs] of
          (None, _) \<Rightarrow> (False, je)
        | (Some result, bbjs) \<Rightarrow>
            if ge_ToBool en result then pre_loop A en emb goap a is je bbjs else (False, je))"

definition js_action_pre ::
    "allocator \<Rightarrow> ('v, 'f, 'u) goap_engine \<Rightarrow> ('f, 'u) FleeceEmbedded \<Rightarrow> FleeceGoap \<Rightarrow> 'v FleeceGoapJsEval \<Rightarrow> nat \<Rightarrow>
     FleeceGoapBlackboard \<Rightarrow> int \<times> bool \<times> 'v FleeceGoapJsEval" where
  "js_action_pre A en emb goap je a bb =
     (0, pre_loop A en emb goap a [0..<fleece_goap_action_pre_count goap a] je (goap_bb_to_js A en bb))"

definition js_goal_satisfied ::
    "allocator \<Rightarrow> ('v, 'f, 'u) goap_engine \<Rightarrow> ('f, 'u) FleeceEmbedded \<Rightarrow> FleeceGoap \<Rightarrow> 'v FleeceGoapJsEval \<Rightarrow> nat \<Rightarrow>
     FleeceGoapBlackboard \<Rightarrow> int \<times> bool \<times> 'v FleeceGoapJsEval" where
  "js_goal_satisfied A en emb goap je g bb =
     (let (fn, je) = goap_get_js_fn A en je GOAP_FN_GOAL g 0 (fleece_goap_goal_expr goap g) in
      if fn_undefined en fn then (0, False, je)
      else if \<not> fn_callable en fn then (0, False, je)
      else
        case ge_Call en emb (the fn) [goap_bb_to_js A en bb] of
          (None, _) \<Rightarrow> (0, False, je)
        | (Some result, _) \<Rightarrow> (0, ge_ToBool en result, je))"

text \<open>A negative cost, or one that is not a number for the engine, counts as 1.\<close>

definition cost_value :: "('v, 'f, 'u) goap_engine \<Rightarrow> 'v \<Rightarrow> double" where
  "cost_value en v =
     (case en_ToFloat64 (ge_script en) v of None \<Rightarrow> d_one | Some c \<Rightarrow> if d_less c d_zero then d_one else c)"

definition js_action_cost ::
    "allocator \<Rightarrow> ('v, 'f, 'u) goap_engine \<Rightarrow> ('f, 'u) FleeceEmbedded \<Rightarrow> FleeceGoap \<Rightarrow> 'v FleeceGoapJsEval \<Rightarrow> nat \<Rightarrow>
     FleeceGoapBlackboard \<Rightarrow> int \<times> double \<times> 'v FleeceGoapJsEval" where
  "js_action_cost A en emb goap je a bb =
     (let (v, je) = goap_get_js_fn A en je GOAP_FN_COST a 0 (fleece_goap_action_cost_source goap a) in
      if fn_undefined en v then (0, d_one, je)
      else if fn_callable en v then
        (case ge_Call en emb (the v) [goap_bb_to_js A en bb] of
           (None, _) \<Rightarrow> (0, d_one, je)
         | (Some result, _) \<Rightarrow> (0, cost_value en result, je))
      else (0, cost_value en (the v), je))"

text \<open>The loop over the effects of an action: the object they end with, \<open>None\<close> for the result -1.\<close>

fun eff_loop ::
    "allocator \<Rightarrow> ('v, 'f, 'u) goap_engine \<Rightarrow> ('f, 'u) FleeceEmbedded \<Rightarrow> FleeceGoap \<Rightarrow> nat \<Rightarrow> nat list \<Rightarrow>
     'v FleeceGoapJsEval \<Rightarrow> 'v \<Rightarrow> 'v option \<times> 'v FleeceGoapJsEval" where
  "eff_loop A en emb goap a [] je bbjs = (Some bbjs, je)"
| "eff_loop A en emb goap a (i # is) je bbjs =
     (let (fn, je) = goap_get_js_fn A en je GOAP_FN_EFF a i (fleece_goap_action_eff goap a i) in
      if \<not> fn_callable en fn then (None, je)
      else
        case ge_Call en emb (the fn) [bbjs] of
          (None, _) \<Rightarrow> (None, je)
        | (Some result, _) \<Rightarrow>
            if \<not> ge_IsObject en result then (None, je) else eff_loop A en emb goap a is je result)"

definition js_action_apply ::
    "allocator \<Rightarrow> ('v, 'f, 'u) goap_engine \<Rightarrow> ('f, 'u) FleeceEmbedded \<Rightarrow> FleeceGoap \<Rightarrow> 'v FleeceGoapJsEval \<Rightarrow> nat \<Rightarrow>
     FleeceGoapBlackboard \<Rightarrow> FleeceGoapBlackboard \<Rightarrow> int \<times> FleeceGoapBlackboard \<times> 'v FleeceGoapJsEval" where
  "js_action_apply A en emb goap je a src dst =
     (let n = fleece_goap_action_eff_count goap a in
      if n = 0 then (0, dst, je)
      else
        case eff_loop A en emb goap a [0..<n] je (goap_bb_to_js A en src) of
          (None, je) \<Rightarrow> (-1, dst, je)
        | (Some bbjs, je) \<Rightarrow> let (rc, dst) = goap_js_to_bb A en bbjs dst in (rc, dst, je))"

text \<open>The return code, \<open>*done\<close>, \<open>*dst\<close>, the engine's store after the native calls of the body, and the cache.\<close>

definition js_action_exec ::
    "allocator \<Rightarrow> ('v, 'f, 'u) goap_engine \<Rightarrow> ('f, 'u) FleeceEmbedded \<Rightarrow> FleeceGoap \<Rightarrow> 'v FleeceGoapJsEval \<Rightarrow> nat \<Rightarrow>
     FleeceGoapBlackboard \<Rightarrow> u32 \<Rightarrow> FleeceGoapBlackboard \<Rightarrow>
     int \<times> bool \<times> FleeceGoapBlackboard \<times> ('f, 'u) FleeceEmbedded \<times> 'v FleeceGoapJsEval" where
  "js_action_exec A en emb goap je a bb tick dst =
     (let (fn, je) = goap_get_js_fn A en je GOAP_FN_EXEC a 0 (fleece_goap_action_exec goap a) in
      if fn_undefined en fn then (0, False, dst, emb, je)
      else if \<not> fn_callable en fn then (0, False, dst, emb, je)
      else
        let argv = [goap_bb_to_js A en bb, ge_NewInt32 en (sint tick)];
            emb' = run_script A (ge_host en) (ge_script en) emb (ge_natives en emb (the fn) argv)
        in case ge_Call en emb (the fn) argv of
             (None, _) \<Rightarrow> (-1, False, dst, emb', je)
           | (Some result, bbjs) \<Rightarrow>
               let (rc, dst) = goap_js_to_bb A en (if ge_IsObject en result then result else bbjs) dst
               in (rc, ge_ToBool en result, dst, emb', je))"

section \<open>Life cycle\<close>

abbreviation sizeof_js_eval :: nat where "sizeof_js_eval \<equiv> 72"
abbreviation sizeof_fn_entry :: nat where "sizeof_fn_entry \<equiv> 40"

definition eval_entry_cap :: "FleeceGoap \<Rightarrow> nat" where
  "eval_entry_cap goap =
     (let n = fleece_goap_action_count goap;
          cap = n + sum_list (map (\<lambda>a. fleece_goap_action_pre_count goap a + fleece_goap_action_eff_count goap a) [0..<n])
                + n + fleece_goap_goal_count goap
      in if cap = 0 then 1 else cap)"

definition zero_entry :: "'v GoapFnEntry" where
  "zero_entry = \<lparr>ce_used = False, ce_kind = GOAP_FN_PRE, ce_idx = 0, ce_sub = 0, ce_src = [], ce_fn = None\<rparr>"

definition fleece_goap_js_eval_create :: "allocator \<Rightarrow> FleeceGoap \<Rightarrow> 'v FleeceGoapJsEval option" where
  "fleece_goap_js_eval_create A goap =
     (if \<not> A sizeof_js_eval then None
      else if \<not> A (eval_entry_cap goap * sizeof_fn_entry) then None
      else Some \<lparr>je_entries = replicate (eval_entry_cap goap) zero_entry, je_entry_next = 0\<rparr>)"

text \<open>
  The callbacks as the planner sees them, with the cache as it is when the planner is called.  What
  they return does not depend on the cache, so the entries added during a search are not threaded
  through it.
\<close>

definition fleece_goap_js_eval_get ::
    "allocator \<Rightarrow> ('v, 'f, 'u) goap_engine \<Rightarrow> ('f, 'u) FleeceEmbedded \<Rightarrow> FleeceGoap \<Rightarrow> 'v FleeceGoapJsEval \<Rightarrow> FleeceGoapEval" where
  "fleece_goap_js_eval_get A en emb goap je =
     \<lparr>ev_action_pre = Some (\<lambda>a bb out. case js_action_pre A en emb goap je a bb of (rc, out, _) \<Rightarrow> (rc, out)),
      ev_action_apply = Some (\<lambda>a src dst. case js_action_apply A en emb goap je a src dst of (rc, dst, _) \<Rightarrow> (rc, dst)),
      ev_goal_satisfied = Some (\<lambda>g bb out. case js_goal_satisfied A en emb goap je g bb of (rc, out, _) \<Rightarrow> (rc, out)),
      ev_action_cost = Some (\<lambda>a bb out. case js_action_cost A en emb goap je a bb of (rc, out, _) \<Rightarrow> (rc, out))\<rparr>"

section \<open>The store as a blackboard\<close>

text \<open>
  The calls may meet different allocators: \<open>As\<close> lists them in the order of the calls, first the one of the read of a field, then the
  one of the write.  At most 64 names are listed, so the calls of the second loop start at 128.
\<close>

fun load_fields ::
    "(nat \<Rightarrow> allocator) \<Rightarrow> FleeceStateManager \<Rightarrow> u64 \<Rightarrow> bool \<Rightarrow> bytes list \<Rightarrow> FleeceGoapBlackboard \<Rightarrow> int \<times> FleeceGoapBlackboard" where
  "load_fields As m owner is_shared [] bb = (0, bb)"
| "load_fields As m owner is_shared (name # names) bb =
     (case fleece_state_manager_get_named (As 0) m owner (Some name) of
        None \<Rightarrow> load_fields (\<lambda>k. As (k + 2)) m owner is_shared names bb
      | Some (data, sz) \<Rightarrow>
          let (rc, bb) = fleece_goap_bb_set (As 1) bb (Some name) (Some data) sz is_shared in
          if rc \<noteq> 0 then (-1, bb) else load_fields (\<lambda>k. As (k + 2)) m owner is_shared names bb)"

definition fleece_goap_js_bb_from_state ::
    "(nat \<Rightarrow> allocator) \<Rightarrow> ('f, 'u) FleeceEmbedded \<Rightarrow> FleeceGoapBlackboard \<Rightarrow> int \<times> FleeceGoapBlackboard" where
  "fleece_goap_js_bb_from_state As emb bb =
     (case em_manager emb of
        None \<Rightarrow> (-1, bb)
      | Some m \<Rightarrow>
          let self_id = fleece_state_manager_get_node_id m;
              (rc, bb) = load_fields As m self_id False (fleece_state_manager_list_fields m self_id 64) bb
          in if rc \<noteq> 0 then (-1, bb)
             else load_fields (\<lambda>k. As (k + 128)) m FLEECE_SHARED_OWNER_ID True
                    (fleece_state_manager_list_fields m FLEECE_SHARED_OWNER_ID 64) bb)"

definition field_owner :: "FleeceStateManager \<Rightarrow> FleeceGoapField \<Rightarrow> u64" where
  "field_owner m f = (if gf_is_shared f then FLEECE_SHARED_OWNER_ID else fleece_state_manager_get_node_id m)"

text \<open>Whether the store already holds the very bytes of a field.\<close>

definition field_unchanged :: "allocator \<Rightarrow> FleeceStateManager \<Rightarrow> FleeceGoapField \<Rightarrow> bool" where
  "field_unchanged A m f =
     (case fleece_state_manager_get_named A m (field_owner m f) (Some (gf_name f)) of
        None \<Rightarrow> False
      | Some (existing, existing_size) \<Rightarrow>
          existing_size = gf_size f \<and> (gf_size f = 0 \<or> take (unat (gf_size f)) existing = gf_bytes f))"

text \<open>Here \<open>As\<close> lists the allocator of the read of each field and that of its write.\<close>

fun commit_fields :: "(nat \<Rightarrow> allocator) \<Rightarrow> FleeceGoapField list \<Rightarrow> FleeceStateManager \<Rightarrow> int \<times> FleeceStateManager" where
  "commit_fields As [] m = (0, m)"
| "commit_fields As (f # fs) m =
     (if field_unchanged (As 0) m f then commit_fields (\<lambda>k. As (k + 2)) fs m
      else
        let (rc, m) = (if gf_is_shared f then fleece_state_manager_set_shared (As 1) m (Some (gf_name f)) (gf_data f) (gf_size f)
                       else fleece_state_manager_set_named (As 1) m (Some (gf_name f)) (gf_data f) (gf_size f))
        in if rc \<noteq> 0 then (-1, m) else commit_fields (\<lambda>k. As (k + 2)) fs m)"

definition fleece_goap_js_bb_commit ::
    "(nat \<Rightarrow> allocator) \<Rightarrow> ('f, 'u) FleeceEmbedded \<Rightarrow> FleeceGoapBlackboard \<Rightarrow> int \<times> ('f, 'u) FleeceEmbedded" where
  "fleece_goap_js_bb_commit As emb bb =
     (case em_manager emb of
        None \<Rightarrow> (-1, emb)
      | Some m \<Rightarrow> let (rc, m) = commit_fields As (bb_fields bb) m in (rc, emb\<lparr>em_manager := Some m\<rparr>))"

section \<open>Planning with scripts\<close>

text \<open>As for the planner itself, the outer option is \<open>None\<close> for a call that does not return.\<close>

definition fleece_goap_js_plan ::
    "allocator \<Rightarrow> ('v, 'f, 'u) goap_engine \<Rightarrow> ('f, 'u) FleeceEmbedded \<Rightarrow> FleeceGoap \<Rightarrow> FleeceGoapBlackboard \<Rightarrow>
     bytes option list option \<Rightarrow> FleeceGoapPlan option option" where
  "fleece_goap_js_plan A en emb goap start goal_ids =
     (case fleece_goap_js_eval_create A goap of
        None \<Rightarrow> Some None
      | Some je \<Rightarrow> fleece_goap_plan A goap start goal_ids (fleece_goap_js_eval_get A en emb goap je))"

definition fleece_goap_js_select_goal ::
    "allocator \<Rightarrow> ('v, 'f, 'u) goap_engine \<Rightarrow> ('f, 'u) FleeceEmbedded \<Rightarrow> FleeceGoap \<Rightarrow> FleeceGoapBlackboard \<Rightarrow>
     double \<Rightarrow> nat option" where
  "fleece_goap_js_select_goal A en emb goap bb threshold =
     (case fleece_goap_js_eval_create A goap of
        None \<Rightarrow> None
      | Some je \<Rightarrow> fleece_goap_select_goal goap bb (fleece_goap_js_eval_get A en emb goap je) threshold)"

definition fleece_goap_js_apply_action ::
    "allocator \<Rightarrow> ('v, 'f, 'u) goap_engine \<Rightarrow> ('f, 'u) FleeceEmbedded \<Rightarrow> FleeceGoap \<Rightarrow> nat \<Rightarrow>
     FleeceGoapBlackboard \<Rightarrow> FleeceGoapBlackboard \<Rightarrow> int \<times> FleeceGoapBlackboard" where
  "fleece_goap_js_apply_action A en emb goap action_idx src dst =
     (case fleece_goap_js_eval_create A goap of
        None \<Rightarrow> (-1, dst)
      | Some je \<Rightarrow> (case js_action_apply A en emb goap je action_idx src dst of (rc, dst, _) \<Rightarrow> (rc, dst)))"

end
