(* ===== verification/Goap_Brain.thy ===== *)
theory Goap_Brain
  imports Goap_Js
begin

text \<open>
  The behaviour loop of \<open>src/embedded/fleece_goap_js.c\<close>: \<open>fleece_goap_brain_tick\<close> runs the body of
  the action in flight, commits what it produced, and plans anew when it is over; before that, the
  goal pool claims a shared goal and the action library works on it.  The tables of the planner are
  an argument, as the host may change them between ticks.  A call returns \<open>None\<close> where the C
  function would access an array out of bounds or free a block twice.
\<close>

section \<open>The brain\<close>

datatype FleeceGoapBrainEvent = EVENT_REPLAN | EVENT_ACTION_DONE | EVENT_ABORTED | EVENT_IDLE | EVENT_GOAL_POOL

datatype FleeceGoalPoolTransitionKind = GOAL_POOL_CLAIM | GOAL_POOL_LOST | GOAL_POOL_BLOCKED | GOAL_POOL_DONE

record FleeceGoapDivergence =
  dv_name :: bytes
  dv_in_eff :: bool
  dv_in_actual :: bool
  dv_eff_value :: "bytes option"
  dv_eff_size :: u32
  dv_actual_value :: "bytes option"
  dv_actual_size :: u32

text \<open>What the callbacks of the host are told: an event, with the transition getters' values, or divergences.\<close>

datatype brain_report =
  Event FleeceGoapBrainEvent FleeceGoalPoolTransitionKind bytes
| Diverged nat "FleeceGoapDivergence list"

record 'v FleeceGoapBrain =
  br_eval :: "'v FleeceGoapJsEval"
  br_plan :: "FleeceGoapPlan option"
  br_goal_idx :: "nat option"
  br_action_idx :: "nat option"
  br_exec_progress :: u32
  br_max_action_ticks :: u32
  br_goal_cooldown_until :: "u32 list"
  br_goal_cooldown_ticks :: u32
  br_tick_count :: u32
  br_event_cb :: bool
  br_world_model_cb :: "(FleeceGoapBlackboard \<Rightarrow> u32 \<Rightarrow> FleeceGoapBlackboard) option"
  br_divergence_cb :: bool
  br_goal_pool_prefix :: bytes
  br_goal_pool_key_field :: bytes
  br_goal_pool_contest_margin :: double
  br_goal_pool_last_logged :: bytes
  br_action_pre_fns :: "'v option list"
  br_action_eff_fns :: "'v option list"
  br_action_exec_fns :: "'v option list"
  br_goal_pool_transition_kind :: FleeceGoalPoolTransitionKind
  br_goal_pool_transition_key :: bytes
  br_reports :: "brain_report list"

abbreviation sizeof_brain :: nat where "sizeof_brain \<equiv> 408"
abbreviation sizeof_jsvalue :: nat where "sizeof_jsvalue \<equiv> 16"
abbreviation FLEECE_GOAL_POOL_REASSERT_EVERY_TICKS :: u32 where "FLEECE_GOAL_POOL_REASSERT_EVERY_TICKS \<equiv> 30"

definition fleece_goap_brain_create :: "allocator \<Rightarrow> FleeceGoap \<Rightarrow> 'v FleeceGoapBrain option" where
  "fleece_goap_brain_create A goap =
     (if \<not> A sizeof_brain then None
      else
        case fleece_goap_js_eval_create A goap of
          None \<Rightarrow> None
        | Some je \<Rightarrow>
            let goal_count = fleece_goap_goal_count goap in
            if goal_count > 0 \<and> \<not> A (goal_count * 4) then None
            else Some \<lparr>br_eval = je, br_plan = None, br_goal_idx = None, br_action_idx = None, br_exec_progress = 0,
              br_max_action_ticks = 0, br_goal_cooldown_until = replicate goal_count 0, br_goal_cooldown_ticks = 0,
              br_tick_count = 0, br_event_cb = False, br_world_model_cb = None, br_divergence_cb = False,
              br_goal_pool_prefix = [], br_goal_pool_key_field = [], br_goal_pool_contest_margin = d_zero,
              br_goal_pool_last_logged = [], br_action_pre_fns = [], br_action_eff_fns = [], br_action_exec_fns = [],
              br_goal_pool_transition_kind = GOAL_POOL_CLAIM, br_goal_pool_transition_key = [], br_reports = []\<rparr>)"

definition action_library_free :: "'v FleeceGoapBrain \<Rightarrow> 'v FleeceGoapBrain" where
  "action_library_free b = b\<lparr>br_action_pre_fns := [], br_action_eff_fns := [], br_action_exec_fns := []\<rparr>"

definition fleece_goap_brain_destroy :: "'v FleeceGoapBrain \<Rightarrow> unit option" where
  "fleece_goap_brain_destroy b = fleece_goap_plan_destroy (br_plan b)"

definition brain_event :: "FleeceGoapBrainEvent \<Rightarrow> 'v FleeceGoapBrain \<Rightarrow> 'v FleeceGoapBrain" where
  "brain_event e b =
     (if br_event_cb b
      then b\<lparr>br_reports := br_reports b @ [Event e (br_goal_pool_transition_kind b) (br_goal_pool_transition_key b)]\<rparr>
      else b)"

section \<open>Planning\<close>

text \<open>Whether a goal is still cooling down; \<open>None\<close> is an access past the end of the array.\<close>

definition goal_cooling :: "'v FleeceGoapBrain \<Rightarrow> nat \<Rightarrow> bool option" where
  "goal_cooling b goal =
     (if br_goal_cooldown_ticks b = 0 then Some False
      else if goal < length (br_goal_cooldown_until b) then Some (br_goal_cooldown_until b ! goal > br_tick_count b)
      else None)"

definition cool_goal :: "'v FleeceGoapBrain \<Rightarrow> nat \<Rightarrow> 'v FleeceGoapBrain" where
  "cool_goal b goal =
     (if br_goal_cooldown_ticks b = 0 then b
      else b\<lparr>br_goal_cooldown_until := (br_goal_cooldown_until b)[goal := br_tick_count b + br_goal_cooldown_ticks b]\<rparr>)"

fun replan_loop ::
    "allocator \<Rightarrow> FleeceGoap \<Rightarrow> FleeceGoapEval \<Rightarrow> FleeceGoapBlackboard \<Rightarrow> nat list \<Rightarrow> 'v FleeceGoapBrain \<Rightarrow>
     'v FleeceGoapBrain option" where
  "replan_loop A goap eval bb [] b = Some (brain_event EVENT_IDLE b)"
| "replan_loop A goap eval bb (goal # ranked) b =
     (case goal_cooling b goal of
        None \<Rightarrow> None
      | Some True \<Rightarrow> replan_loop A goap eval bb ranked b
      | Some False \<Rightarrow>
          (case fleece_goap_plan A goap bb (Some [fleece_goap_goal_id goap goal]) eval of
             None \<Rightarrow> None
           | Some plan \<Rightarrow>
               if fleece_goap_plan_length plan = 0 then
                 (case fleece_goap_plan_destroy plan of
                    None \<Rightarrow> None
                  | Some _ \<Rightarrow> replan_loop A goap eval bb ranked (cool_goal b goal))
               else Some (brain_event EVENT_REPLAN
                 (b\<lparr>br_goal_idx := Some goal,
                    br_action_idx := fleece_goap_find_action goap (fleece_goap_plan_action_id plan 0),
                    br_exec_progress := 0, br_plan := plan\<rparr>))))"

definition brain_replan ::
    "allocator \<Rightarrow> FleeceGoap \<Rightarrow> FleeceGoapEval \<Rightarrow> 'v FleeceGoapBrain \<Rightarrow> FleeceGoapBlackboard \<Rightarrow> 'v FleeceGoapBrain option" where
  "brain_replan A goap eval b bb =
     (case fleece_goap_plan_destroy (br_plan b) of
        None \<Rightarrow> None
      | Some _ \<Rightarrow>
          let b = b\<lparr>br_plan := None, br_goal_idx := None, br_action_idx := None\<rparr>;
              cap = fleece_goap_goal_count goap
          in if cap = 0 then Some (brain_event EVENT_IDLE b)
             else if \<not> A (cap * 4) then Some (brain_event EVENT_IDLE b)
             else replan_loop A goap eval bb (fleece_goap_rank_goals goap bb eval d_zero cap) b)"

definition brain_fresh_bb ::
    "allocator \<Rightarrow> ('f, 'u) FleeceEmbedded \<Rightarrow> 'v FleeceGoapBrain \<Rightarrow> FleeceGoapBlackboard \<Rightarrow> int \<times> FleeceGoapBlackboard" where
  "brain_fresh_bb A emb b bb =
     (let (rc, bb) = fleece_goap_js_bb_from_state (\<lambda>_. A) emb bb in
      if rc \<noteq> 0 then (-1, bb)
      else (0, case br_world_model_cb b of None \<Rightarrow> bb | Some cb \<Rightarrow> cb bb (br_tick_count b)))"

section \<open>Divergences\<close>

definition predicted_diff :: "FleeceGoapBlackboard \<Rightarrow> FleeceGoapField \<Rightarrow> FleeceGoapDivergence list" where
  "predicted_diff actual pf =
     (case fleece_goap_bb_get actual (gf_name pf) of
        (av, asz) \<Rightarrow>
          if av \<noteq> None \<and> asz = gf_size pf \<and> take (unat asz) (the av) = gf_bytes pf then []
          else [\<lparr>dv_name = gf_name pf, dv_in_eff = True, dv_in_actual = (av \<noteq> None), dv_eff_value = gf_data pf,
                 dv_eff_size = gf_size pf, dv_actual_value = av, dv_actual_size = asz\<rparr>])"

definition produced_diff :: "FleeceGoapBlackboard \<Rightarrow> FleeceGoapField \<Rightarrow> FleeceGoapDivergence list" where
  "produced_diff pred af =
     (if fleece_goap_bb_index pred (gf_name af) \<noteq> None then []
      else [\<lparr>dv_name = gf_name af, dv_in_eff = False, dv_in_actual = True, dv_eff_value = None,
             dv_eff_size = 0, dv_actual_value = gf_data af, dv_actual_size = gf_size af\<rparr>])"

text \<open>Both loops stop at sixteen divergences.\<close>

definition report_divergences ::
    "'v FleeceGoapBrain \<Rightarrow> nat \<Rightarrow> FleeceGoapBlackboard \<Rightarrow> FleeceGoapBlackboard \<Rightarrow> 'v FleeceGoapBrain" where
  "report_divergences b action_idx pred actual =
     (let diffs = take 16 (concat (map (predicted_diff actual) (bb_fields pred)) @
                           concat (map (produced_diff pred) (bb_fields actual)))
      in if diffs \<noteq> [] then b\<lparr>br_reports := br_reports b @ [Diverged action_idx diffs]\<rparr> else b)"

section \<open>The action library\<close>

text \<open>Sources of a library action; \<open>None\<close> is NULL.\<close>

record FleeceActionDef =
  fd_pre :: "bytes option"
  fd_eff :: "bytes option"
  fd_exec :: "bytes option"

definition fleece_goap_brain_set_action_library ::
    "allocator \<Rightarrow> ('v, 'f, 'u) goap_engine \<Rightarrow> 'v FleeceGoapBrain \<Rightarrow> FleeceActionDef list option \<Rightarrow> int \<times> 'v FleeceGoapBrain" where
  "fleece_goap_brain_set_action_library A en b defs =
     (let b = action_library_free b in
      case defs of
        None \<Rightarrow> (0, b)
      | Some ds \<Rightarrow>
          if ds = [] then (0, b)
          else if \<not> A (length ds * sizeof_jsvalue) then (-1, b)
          else (0, b\<lparr>br_action_pre_fns := map (compile_source A en \<circ> fd_pre) ds,
                     br_action_eff_fns := map (compile_source A en \<circ> fd_eff) ds,
                     br_action_exec_fns := map (compile_source A en \<circ> fd_exec) ds\<rparr>))"

definition goal_pool_fire_event :: "FleeceGoalPoolTransitionKind \<Rightarrow> bytes \<Rightarrow> 'v FleeceGoapBrain \<Rightarrow> 'v FleeceGoapBrain" where
  "goal_pool_fire_event kind key b =
     brain_event EVENT_GOAL_POOL
       (b\<lparr>br_goal_pool_transition_kind := kind, br_goal_pool_transition_key := take (FLEECE_FIELD_NAME_MAX - 1) key\<rparr>)"

definition action_call_bool ::
    "allocator \<Rightarrow> ('v, 'f, 'u) goap_engine \<Rightarrow> ('f, 'u) FleeceEmbedded \<Rightarrow> FleeceGoapBlackboard \<Rightarrow> 'v option \<Rightarrow> bool" where
  "action_call_bool A en emb bb fn =
     (if fn_undefined en fn then True
      else (case ge_Call en emb (the fn) [goap_bb_to_js A en bb] of (None, _) \<Rightarrow> False | (Some result, _) \<Rightarrow> ge_ToBool en result))"

text \<open>\<open>None\<close> is the result false.\<close>

definition action_call_eff ::
    "allocator \<Rightarrow> ('v, 'f, 'u) goap_engine \<Rightarrow> ('f, 'u) FleeceEmbedded \<Rightarrow> FleeceGoapBlackboard \<Rightarrow> 'v option \<Rightarrow>
     FleeceGoapBlackboard option" where
  "action_call_eff A en emb bb fn =
     (if fn_undefined en fn then None
      else
        case ge_Call en emb (the fn) [goap_bb_to_js A en bb] of
          (None, _) \<Rightarrow> None
        | (Some result, _) \<Rightarrow>
            if \<not> ge_IsObject en result then None
            else (case goap_js_to_bb A en result bb_empty of (rc, dst) \<Rightarrow> if rc = 0 then Some dst else None))"

definition action_call_identity ::
    "allocator \<Rightarrow> ('v, 'f, 'u) goap_engine \<Rightarrow> FleeceGoapBlackboard \<Rightarrow> FleeceGoapBlackboard option" where
  "action_call_identity A en bb =
     (case goap_js_to_bb A en (goap_bb_to_js A en bb) bb_empty of (rc, dst) \<Rightarrow> if rc = 0 then Some dst else None)"

definition js_call_goal_satisfied ::
    "allocator \<Rightarrow> ('v, 'f, 'u) goap_engine \<Rightarrow> ('f, 'u) FleeceEmbedded \<Rightarrow> FleeceGoapBlackboard \<Rightarrow> bool" where
  "js_call_goal_satisfied A en emb bb =
     (let fn = ge_global en (lit ''goalSatisfied'') in
      if \<not> ge_IsFunction en fn then False
      else (case ge_Call en emb fn [goap_bb_to_js A en bb] of (None, _) \<Rightarrow> False | (Some result, _) \<Rightarrow> ge_ToBool en result))"

definition action_library_find_applicable ::
    "allocator \<Rightarrow> ('v, 'f, 'u) goap_engine \<Rightarrow> ('f, 'u) FleeceEmbedded \<Rightarrow> 'v FleeceGoapBrain \<Rightarrow> FleeceGoapBlackboard \<Rightarrow> nat option" where
  "action_library_find_applicable A en emb b bb = index_of (action_call_bool A en emb bb) (br_action_pre_fns b)"

section \<open>Prerequisites\<close>

definition quoted :: "bytes \<Rightarrow> bytes" where
  "quoted s = [34] @ s @ [34]"

text \<open>One field of the simulated state: what has been written so far, and whether nothing has.\<close>

definition diff_step :: "FleeceGoapBlackboard \<Rightarrow> nat \<Rightarrow> bytes \<times> bool \<Rightarrow> FleeceGoapField \<Rightarrow> bytes \<times> bool" where
  "diff_step orig out_cap st f =
     (case st of
        (out, first) \<Rightarrow>
          if gf_is_shared f then (out, first)
          else
            (case fleece_goap_bb_get orig (gf_name f) of
               (ov, osz) \<Rightarrow>
                 if ov \<noteq> None \<and> osz = gf_size f \<and> (gf_size f = 0 \<or> take (unat osz) (the ov) = gf_bytes f) then (out, first)
                 else if length out + (length (gf_name f) + unat (gf_size f) + 6) \<ge> out_cap then (out, first)
                 else (out @ (if first then [] else lit '','') @ quoted (gf_name f) @ lit '':'' @ gf_bytes f, False)))"

definition build_self_diff_json :: "FleeceGoapBlackboard \<Rightarrow> FleeceGoapBlackboard \<Rightarrow> nat \<Rightarrow> bytes option" where
  "build_self_diff_json orig sim out_cap =
     (if out_cap < 3 then None
      else
        let (out, _) = foldl (diff_step orig out_cap) (lit ''{'', True) (bb_fields sim) in
        if length out + 1 \<ge> out_cap then None else Some (out @ lit ''}''))"

definition prerequisite_key :: "u64 \<Rightarrow> bytes" where
  "prerequisite_key self_id = lit ''goal_pre_'' @ drop 8 (hex16 (self_id AND 0xFFFFFFFF))"

definition prerequisite_value :: "u64 \<Rightarrow> bytes \<Rightarrow> bytes" where
  "prerequisite_value self_id diff =
     lit ''{'' @ quoted (lit ''params'') @ lit '':'' @ c_string diff @ lit '','' @ quoted (lit ''kind'') @ lit '':'' @
     quoted (lit ''prereq'') @ lit '','' @ quoted (lit ''priority'') @ lit '':100,'' @ quoted (lit ''required_agents'') @
     lit '':['' @ quoted (hex16 self_id) @ lit ''],'' @ quoted (lit ''interrupt'') @ lit '':true}''"

definition goal_pool_spawn_prerequisite ::
    "allocator \<Rightarrow> FleeceStateManager \<Rightarrow> u64 \<Rightarrow> FleeceGoapBlackboard \<Rightarrow> FleeceGoapBlackboard \<Rightarrow> FleeceStateManager" where
  "goal_pool_spawn_prerequisite A m self_id orig sim =
     (let key = prerequisite_key self_id in
      if length key \<ge> FLEECE_FIELD_NAME_MAX then m
      else if fleece_state_manager_exists_named m FLEECE_SHARED_OWNER_ID (Some key) then m
      else
        case build_self_diff_json orig sim 256 of
          None \<Rightarrow> m
        | Some diff \<Rightarrow>
            let value = prerequisite_value self_id diff in
            if length value \<ge> 384 then m
            else snd (fleece_state_manager_set_shared A m (Some key) (Some value) (of_nat (length value))))"

section \<open>The goal pool\<close>

definition fleece_goap_brain_set_goal_pool ::
    "'v FleeceGoapBrain \<Rightarrow> bytes option \<Rightarrow> bytes option \<Rightarrow> double \<Rightarrow> 'v FleeceGoapBrain" where
  "fleece_goap_brain_set_goal_pool b goal_prefix current_key_field contest_margin =
     (case (goal_prefix, current_key_field) of
        (Some (p # ps), Some (k # ks)) \<Rightarrow>
          b\<lparr>br_goal_pool_prefix := take (FLEECE_FIELD_NAME_MAX - 1) (p # ps),
             br_goal_pool_key_field := take (FLEECE_FIELD_NAME_MAX - 1) (k # ks),
             br_goal_pool_contest_margin := contest_margin\<rparr>
      | _ \<Rightarrow> b\<lparr>br_goal_pool_prefix := []\<rparr>)"

definition strip_quotes :: "bytes \<Rightarrow> bytes" where
  "strip_quotes data =
     (if length data \<ge> 2 \<and> hd data = 34 \<and> last data = 34 then butlast (tl data) else data)"

definition goal_pool_read_current :: "allocator \<Rightarrow> FleeceStateManager \<Rightarrow> u64 \<Rightarrow> bytes \<Rightarrow> nat \<Rightarrow> bytes" where
  "goal_pool_read_current A m self_id field out_cap =
     (case fleece_state_manager_get_named A m self_id (Some field) of
        None \<Rightarrow> []
      | Some (data, sz) \<Rightarrow> c_string (take (out_cap - 1) (strip_quotes (take (unat sz) data))))"

definition log_transition :: "bytes \<Rightarrow> 'v FleeceGoapBrain \<Rightarrow> 'v FleeceGoapBrain" where
  "log_transition current b =
     (if current = br_goal_pool_last_logged b then b
      else
        let b = (if br_goal_pool_last_logged b \<noteq> [] then goal_pool_fire_event GOAL_POOL_LOST (br_goal_pool_last_logged b) b else b);
            b = (if current \<noteq> [] then goal_pool_fire_event GOAL_POOL_CLAIM current b else b)
        in b\<lparr>br_goal_pool_last_logged := take (FLEECE_FIELD_NAME_MAX - 1) current\<rparr>)"

text \<open>The empty key in the node's own field.\<close>

definition clear_key :: "allocator \<Rightarrow> 'v FleeceGoapBrain \<Rightarrow> FleeceStateManager \<Rightarrow> FleeceStateManager" where
  "clear_key A b m = snd (fleece_state_manager_set_named A m (Some (br_goal_pool_key_field b)) (Some (quoted [])) 2)"

definition library_done ::
    "allocator \<Rightarrow> ('f, 'u) FleeceEmbedded \<Rightarrow> FleeceStateManager \<Rightarrow> 'v FleeceGoapBrain \<Rightarrow> bytes \<Rightarrow>
     'v FleeceGoapBrain \<times> ('f, 'u) FleeceEmbedded" where
  "library_done A emb m b current =
     (let m = snd (fleece_state_manager_remove_shared m (Some current));
          m = snd (fleece_state_manager_remove_shared m (Some (claim_key current)));
          m = clear_key A b m
      in (goal_pool_fire_event GOAL_POOL_DONE current (b\<lparr>br_goal_pool_last_logged := []\<rparr>), emb\<lparr>em_manager := Some m\<rparr>))"

definition library_exec ::
    "allocator \<Rightarrow> ('v, 'f, 'u) goap_engine \<Rightarrow> ('f, 'u) FleeceEmbedded \<Rightarrow> 'v FleeceGoapBrain \<Rightarrow> FleeceGoapBlackboard \<Rightarrow> nat \<Rightarrow>
     ('f, 'u) FleeceEmbedded" where
  "library_exec A en emb b bb idx =
     (let fn = br_action_exec_fns b ! idx in
      if fn_undefined en fn then emb
      else
        let argv = [goap_bb_to_js A en bb, ge_NewInt32 en (sint (br_tick_count b))];
            emb' = run_script A (ge_host en) (ge_script en) emb (ge_natives en emb (the fn) argv)
        in case ge_Call en emb (the fn) argv of
             (None, _) \<Rightarrow> emb'
           | (Some result, bbjs) \<Rightarrow>
               (case goap_js_to_bb A en (if ge_IsObject en result then result else bbjs) bb_empty of
                  (rc, committed) \<Rightarrow> if rc = 0 then snd (fleece_goap_js_bb_commit (\<lambda>_. A) emb' committed) else emb'))"

text \<open>The state the first provider predicts: after it the goal holds or some action applies.\<close>

fun find_provider ::
    "allocator \<Rightarrow> ('v, 'f, 'u) goap_engine \<Rightarrow> ('f, 'u) FleeceEmbedded \<Rightarrow> 'v FleeceGoapBrain \<Rightarrow> FleeceGoapBlackboard \<Rightarrow>
     'v option list \<Rightarrow> FleeceGoapBlackboard option" where
  "find_provider A en emb b bb [] = None"
| "find_provider A en emb b bb (fn # fns) =
     (case action_call_eff A en emb bb fn of
        None \<Rightarrow> find_provider A en emb b bb fns
      | Some sim \<Rightarrow>
          if js_call_goal_satisfied A en emb sim \<or> action_library_find_applicable A en emb b sim \<noteq> None
          then Some sim else find_provider A en emb b bb fns)"

definition library_blocked ::
    "allocator \<Rightarrow> ('v, 'f, 'u) goap_engine \<Rightarrow> ('f, 'u) FleeceEmbedded \<Rightarrow> FleeceStateManager \<Rightarrow> 'v FleeceGoapBrain \<Rightarrow>
     FleeceGoapBlackboard \<Rightarrow> bytes \<Rightarrow> 'v FleeceGoapBrain \<times> ('f, 'u) FleeceEmbedded" where
  "library_blocked A en emb m b bb current =
     (case (action_call_identity A en bb, find_provider A en emb b bb (br_action_eff_fns b)) of
        (Some rt_orig, Some sim) \<Rightarrow>
          let m = goal_pool_spawn_prerequisite A m (fleece_state_manager_get_node_id m) rt_orig sim;
              m = snd (fleece_state_manager_remove_shared m (Some (claim_key current)));
              m = clear_key A b m
          in (goal_pool_fire_event GOAL_POOL_BLOCKED current (b\<lparr>br_goal_pool_last_logged := []\<rparr>), emb\<lparr>em_manager := Some m\<rparr>)
      | _ \<Rightarrow> (b, emb))"

definition action_library_tick ::
    "allocator \<Rightarrow> ('v, 'f, 'u) goap_engine \<Rightarrow> ('f, 'u) FleeceEmbedded \<Rightarrow> 'v FleeceGoapBrain \<Rightarrow> bytes \<Rightarrow>
     'v FleeceGoapBrain \<times> ('f, 'u) FleeceEmbedded" where
  "action_library_tick A en emb b current =
     (let b = log_transition current b in
      case em_manager emb of
        None \<Rightarrow> (b, emb)
      | Some m \<Rightarrow>
          if current = [] \<or> br_action_pre_fns b = [] then (b, emb)
          else
            let (rc, bb) = fleece_goap_js_bb_from_state (\<lambda>_. A) emb bb_empty in
            if rc \<noteq> 0 then (b, emb)
            else if js_call_goal_satisfied A en emb bb then library_done A emb m b current
            else
              case action_library_find_applicable A en emb b bb of
                Some idx \<Rightarrow> (b, library_exec A en emb b bb idx)
              | None \<Rightarrow> library_blocked A en emb m b bb current)"

text \<open>The key claimed is written as a JSON text of at most 65 characters.\<close>

definition publish_key :: "allocator \<Rightarrow> 'v FleeceGoapBrain \<Rightarrow> bytes \<Rightarrow> FleeceStateManager \<Rightarrow> FleeceStateManager" where
  "publish_key A b claimed m =
     (let json_val = quoted claimed in
      if length json_val < FLEECE_FIELD_NAME_MAX + 4
      then snd (fleece_state_manager_set_named A m (Some (br_goal_pool_key_field b)) (Some json_val) (of_nat (length json_val)))
      else m)"

definition goal_pool_tick ::
    "allocator \<Rightarrow> ('v, 'f, 'u) goap_engine \<Rightarrow> ('f, 'u) FleeceEmbedded \<Rightarrow> 'v FleeceGoapBrain \<Rightarrow>
     'v FleeceGoapBrain \<times> ('f, 'u) FleeceEmbedded" where
  "goal_pool_tick A en emb b =
     (if br_goal_pool_prefix b = [] then (b, emb)
      else
        case em_manager emb of
          None \<Rightarrow> (b, emb)
        | Some m \<Rightarrow>
            let current = goal_pool_read_current A m (fleece_state_manager_get_node_id m) (br_goal_pool_key_field b) FLEECE_FIELD_NAME_MAX;
                allow_reassert = (br_tick_count b mod FLEECE_GOAL_POOL_REASSERT_EVERY_TICKS = 0);
                (rc, claimed, emb) = fleece_embedded_claim_best_goal A (ge_script en) emb (Some (br_goal_pool_prefix b))
                   (if current \<noteq> [] then Some current else None) (br_goal_pool_contest_margin b) allow_reassert FLEECE_FIELD_NAME_MAX;
                emb = emb\<lparr>em_manager := map_option (publish_key A b claimed) (em_manager emb)\<rparr>
            in action_library_tick A en emb b claimed)"

section \<open>One tick\<close>

text \<open>
  The body of the action in flight: on the left what the tick returns at once, on the right an action
  that is over, with whether the watchdog ended it.
\<close>

definition run_action ::
    "allocator \<Rightarrow> ('v, 'f, 'u) goap_engine \<Rightarrow> FleeceGoap \<Rightarrow> nat \<Rightarrow> 'v FleeceGoapBrain \<Rightarrow> ('f, 'u) FleeceEmbedded \<Rightarrow>
     (int \<times> 'v FleeceGoapBrain \<times> ('f, 'u) FleeceEmbedded) + (bool \<times> 'v FleeceGoapBrain \<times> ('f, 'u) FleeceEmbedded)" where
  "run_action A en goap a b emb =
     (if fleece_goap_action_exec goap a \<in> {None, Some []} then Inr (False, b, emb)
      else
        let b = b\<lparr>br_exec_progress := br_exec_progress b + 1\<rparr> in
        if br_max_action_ticks b > 0 \<and> br_exec_progress b \<ge> br_max_action_ticks b then Inr (True, b, emb)
        else
          let (rc, bb) = brain_fresh_bb A emb b bb_empty in
          if rc \<noteq> 0 then Inl (-1, b, emb)
          else
            let (rc, finished, dst, emb, je) = js_action_exec A en emb goap (br_eval b) a bb (br_exec_progress b) bb_empty;
                b = b\<lparr>br_eval := je\<rparr>
            in if rc \<noteq> 0 then Inl (0, b\<lparr>br_action_idx := None\<rparr>, emb)
               else
                 let b = (if br_divergence_cb b then
                            (case js_action_apply A en emb goap (br_eval b) a bb bb_empty of
                               (rc, pred, je) \<Rightarrow>
                                 if rc = 0 then report_divergences (b\<lparr>br_eval := je\<rparr>) a pred dst else b\<lparr>br_eval := je\<rparr>)
                          else b);
                     (rc, emb) = fleece_goap_js_bb_commit (\<lambda>_. A) emb dst
                 in if rc \<noteq> 0 then Inl (-1, b, emb)
                    else if \<not> finished then Inl (0, b, emb)
                    else Inr (False, b, emb))"

definition end_action :: "bool \<Rightarrow> 'v FleeceGoapBrain \<Rightarrow> 'v FleeceGoapBrain option" where
  "end_action aborted b =
     (case fleece_goap_plan_destroy (br_plan b) of
        None \<Rightarrow> None
      | Some _ \<Rightarrow> Some (brain_event (if aborted then EVENT_ABORTED else EVENT_ACTION_DONE)
          (b\<lparr>br_action_idx := None, br_exec_progress := 0, br_plan := None\<rparr>)))"

definition replan_phase ::
    "allocator \<Rightarrow> ('v, 'f, 'u) goap_engine \<Rightarrow> FleeceGoap \<Rightarrow> 'v FleeceGoapBrain \<Rightarrow> ('f, 'u) FleeceEmbedded \<Rightarrow>
     (int \<times> 'v FleeceGoapBrain \<times> ('f, 'u) FleeceEmbedded) option" where
  "replan_phase A en goap b emb =
     (let (rc, bb) = brain_fresh_bb A emb b bb_empty in
      if rc \<noteq> 0 then Some (-1, b, emb)
      else map_option (\<lambda>b. (0, b, emb)) (brain_replan A goap (fleece_goap_js_eval_get A en emb goap (br_eval b)) b bb))"

definition fleece_goap_brain_tick ::
    "allocator \<Rightarrow> ('v, 'f, 'u) goap_engine \<Rightarrow> FleeceGoap \<Rightarrow> 'v FleeceGoapBrain \<Rightarrow> ('f, 'u) FleeceEmbedded \<Rightarrow>
     (int \<times> 'v FleeceGoapBrain \<times> ('f, 'u) FleeceEmbedded) option" where
  "fleece_goap_brain_tick A en goap b emb =
     (let b = b\<lparr>br_tick_count := br_tick_count b + 1\<rparr>;
          (b, emb) = goal_pool_tick A en emb b
      in case br_action_idx b of
           None \<Rightarrow> replan_phase A en goap b emb
         | Some a \<Rightarrow>
             (case run_action A en goap a b emb of
                Inl r \<Rightarrow> Some r
              | Inr (aborted, b, emb) \<Rightarrow>
                  (case end_action aborted b of None \<Rightarrow> None | Some b \<Rightarrow> replan_phase A en goap b emb)))"

section \<open>Configuration and getters\<close>

definition fleece_goap_brain_set_event_callback :: "'v FleeceGoapBrain \<Rightarrow> bool \<Rightarrow> 'v FleeceGoapBrain" where
  "fleece_goap_brain_set_event_callback b cb = b\<lparr>br_event_cb := cb\<rparr>"

definition fleece_goap_brain_set_world_model ::
    "'v FleeceGoapBrain \<Rightarrow> (FleeceGoapBlackboard \<Rightarrow> u32 \<Rightarrow> FleeceGoapBlackboard) option \<Rightarrow> 'v FleeceGoapBrain" where
  "fleece_goap_brain_set_world_model b cb = b\<lparr>br_world_model_cb := cb\<rparr>"

definition fleece_goap_brain_set_divergence_cb :: "'v FleeceGoapBrain \<Rightarrow> bool \<Rightarrow> 'v FleeceGoapBrain" where
  "fleece_goap_brain_set_divergence_cb b cb = b\<lparr>br_divergence_cb := cb\<rparr>"

definition fleece_goap_brain_set_max_action_ticks :: "'v FleeceGoapBrain \<Rightarrow> u32 \<Rightarrow> 'v FleeceGoapBrain" where
  "fleece_goap_brain_set_max_action_ticks b max_ticks = b\<lparr>br_max_action_ticks := max_ticks\<rparr>"

definition fleece_goap_brain_set_goal_cooldown_ticks :: "'v FleeceGoapBrain \<Rightarrow> u32 \<Rightarrow> 'v FleeceGoapBrain" where
  "fleece_goap_brain_set_goal_cooldown_ticks b ticks = b\<lparr>br_goal_cooldown_ticks := ticks\<rparr>"

definition fleece_goap_brain_goal_pool_transition_kind :: "'v FleeceGoapBrain \<Rightarrow> FleeceGoalPoolTransitionKind" where
  "fleece_goap_brain_goal_pool_transition_kind b = br_goal_pool_transition_kind b"

definition fleece_goap_brain_goal_pool_transition_key :: "'v FleeceGoapBrain \<Rightarrow> bytes option" where
  "fleece_goap_brain_goal_pool_transition_key b =
     (if br_goal_pool_transition_key b \<noteq> [] then Some (br_goal_pool_transition_key b) else None)"

definition fleece_goap_brain_goal_id :: "FleeceGoap \<Rightarrow> 'v FleeceGoapBrain \<Rightarrow> bytes option" where
  "fleece_goap_brain_goal_id goap b =
     (case br_goal_idx b of None \<Rightarrow> None | Some g \<Rightarrow> fleece_goap_goal_id goap g)"

definition fleece_goap_brain_action_id :: "FleeceGoap \<Rightarrow> 'v FleeceGoapBrain \<Rightarrow> bytes option" where
  "fleece_goap_brain_action_id goap b =
     (case br_action_idx b of None \<Rightarrow> None | Some a \<Rightarrow> fleece_goap_action_id goap a)"

definition fleece_goap_brain_action_progress :: "'v FleeceGoapBrain \<Rightarrow> u32" where
  "fleece_goap_brain_action_progress b = br_exec_progress b"

definition fleece_goap_brain_plan_length :: "'v FleeceGoapBrain \<Rightarrow> nat" where
  "fleece_goap_brain_plan_length b = fleece_goap_plan_length (br_plan b)"

definition fleece_goap_brain_tick_count :: "'v FleeceGoapBrain \<Rightarrow> u32" where
  "fleece_goap_brain_tick_count b = br_tick_count b"

end
