(* ===== verification/Auction_Proofs.thy ===== *)
theory Auction_Proofs
  imports Goal_Auction Script_Claims
begin

text \<open>
  The length of a claim's text, what the scan of the pool returns (locale \<open>best_so_far\<close>), and the
  effect of writing and dropping claims.
\<close>

section \<open>The text of a claim fits its buffer\<close>

lemma dec_digits_length: "n < 10 ^ k \<Longrightarrow> 0 < k \<Longrightarrow> length (dec_digits n) \<le> k"
proof (induction n arbitrary: k rule: dec_digits.induct)
  case (1 n)
  show ?case
  proof (cases "n < 10")
    case True
    then show ?thesis using 1 by (simp add: dec_digits.simps [of n])
  next
    case False
    obtain j where k: "k = Suc j" using 1(3) by (cases k) auto
    have j: "0 < j" using 1(2) False k by (cases j) auto
    have "n div 10 < 10 ^ j" using 1(2) by (simp add: k)
    then have "length (dec_digits (n div 10)) \<le> j" using 1(1) [OF False] j by blast
    then show ?thesis using False k by (simp add: dec_digits.simps [of n])
  qed
qed

lemma round_even_le: "0 < d \<Longrightarrow> n < b * d \<Longrightarrow> round_even n d \<le> b"
proof -
  assume d: "0 < d" "n < b * d"
  have "n div d * d \<le> n" using d(1) pos_mod_sign [of d n] div_mult_mod_eq [of n d] by linarith
  then have "n div d * d < b * d" using d(2) by (rule le_less_trans)
  then have "n div d < b" using d(1) by simp
  then show ?thesis by (simp add: round_even_def Let_def)
qed

lemma pow10_up_bounds: "0 < d \<Longrightarrow> d \<le> n \<Longrightarrow> 0 \<le> pow10_up n d \<and>
    10 ^ nat (pow10_up n d) * d \<le> n \<and> n < 10 ^ nat (pow10_up n d + 1) * d"
proof (induction n d rule: pow10_up.induct)
  case (1 n d)
  show ?case
  proof (cases "10 * d \<le> n")
    case True
    then have IH: "0 \<le> pow10_up n (10 * d) \<and> 10 ^ nat (pow10_up n (10 * d)) * (10 * d) \<le> n \<and>
        n < 10 ^ nat (pow10_up n (10 * d) + 1) * (10 * d)"
      using 1 by simp
    have e: "pow10_up n d = 1 + pow10_up n (10 * d)" using True 1(2) by (simp add: pow10_up.simps [of n d])
    moreover obtain k where k: "pow10_up n (10 * d) = int k" using IH zero_le_imp_eq_int by blast
    ultimately show ?thesis using IH by (simp add: k nat_add_distrib algebra_simps)
  next
    case False
    then have e: "pow10_up n d = 0" by (simp add: pow10_up.simps [of n d])
    then show ?thesis using False 1 by simp
  qed
qed

lemma pow10_down_bounds: "0 < n \<Longrightarrow> n < d \<Longrightarrow> 1 \<le> pow10_down n d \<and>
    10 ^ nat (pow10_down n d - 1) * n < d \<and> 10 ^ nat (pow10_down n d) * n < 10 * d"
proof (induction n d rule: pow10_down.induct)
  case (1 n d)
  have e: "pow10_down n d = 1 + pow10_down (10 * n) d" using 1(2,3) by (simp add: pow10_down.simps [of n d])
  show ?case
  proof (cases "10 * n < d")
    case True
    then have IH: "1 \<le> pow10_down (10 * n) d \<and> 10 ^ nat (pow10_down (10 * n) d - 1) * (10 * n) < d \<and>
        10 ^ nat (pow10_down (10 * n) d) * (10 * n) < 10 * d"
      using 1 by simp
    then obtain k where k: "pow10_down (10 * n) d = 1 + int k" by (metis zero_le_imp_eq_int diff_add_cancel add.commute diff_ge_0_iff_ge)
    show ?thesis using IH by (simp add: e k nat_add_distrib algebra_simps)
  next
    case False
    then have "pow10_down (10 * n) d = 0" by (simp add: pow10_down.simps [of "10 * n" d])
    then show ?thesis using 1(2,3) by (simp add: e)
  qed
qed

text \<open>The decimal exponent and the 17 digits, for numbers from one upwards and for those below one.\<close>

lemma g17_up:
  assumes d: "0 < d" and n: "d \<le> n" "n < 2 ^ 1024 * d" and e: "e = pow10_up n d"
    and m: "m = (if e \<le> 16 then round_even (n * 10 ^ nat (16 - e)) d else round_even n (d * 10 ^ nat (e - 16)))"
  shows "0 \<le> e" and "e < 309" and "m \<le> 10 ^ 17"
proof -
  show e0: "0 \<le> e" using pow10_up_bounds [OF d n(1)] by (simp add: e)
  have E: "10 ^ nat e * d \<le> n" "n < 10 ^ nat (e + 1) * d" using pow10_up_bounds [OF d n(1)] by (simp_all add: e)
  have "10 ^ nat e * d < 2 ^ 1024 * d" using E(1) n(2) by (rule le_less_trans)
  then have "10 ^ nat e < (2 :: int) ^ 1024" using d by (simp only: mult_less_cancel_right_pos)
  also have "(2 :: int) ^ 1024 < 10 ^ 309" by simp
  finally have "nat e < 309" by (rule power_less_imp_less_exp [rotated]) simp
  then show "e < 309" using e0 by simp
  show "m \<le> 10 ^ 17"
  proof (cases "e \<le> 16")
    case True
    then have "n * 10 ^ nat (16 - e) < 10 ^ nat (e + 1) * d * 10 ^ nat (16 - e)" using E(2) by simp
    also have "\<dots> = 10 ^ (nat (e + 1) + nat (16 - e)) * d" by (simp only: power_add mult_ac)
    also have "nat (e + 1) + nat (16 - e) = 17" using e0 True by simp
    finally show ?thesis using True d by (simp add: m round_even_le)
  next
    case False
    then have "nat (e + 1) = 17 + nat (e - 16)" by simp
    then have "n < 10 ^ 17 * (d * 10 ^ nat (e - 16))" using E(2) by (simp only: power_add mult_ac)
    then show ?thesis using False d by (simp add: m round_even_le)
  qed
qed

lemma g17_down:
  assumes n: "0 < n" "n < d" and d: "d \<le> 2 ^ 1074" and e: "e = - pow10_down n d"
  shows "e < 0" and "- 325 \<le> e" and "round_even (n * 10 ^ nat (16 - e)) d \<le> 10 ^ 17"
proof -
  have k: "1 \<le> - e" "10 ^ nat (- e - 1) * n < d" "10 ^ nat (- e) * n < 10 * d"
    using pow10_down_bounds [OF n(1), of d] n(2) by (simp_all add: e)
  then show "e < 0" by simp
  have "(10 :: int) ^ nat (- e - 1) * 1 \<le> 10 ^ nat (- e - 1) * n" using n(1) by (intro mult_left_mono) auto
  then have "(10 :: int) ^ nat (- e - 1) < 2 ^ 1074" using k(2) d by linarith
  also have "(2 :: int) ^ 1074 < 10 ^ 324" by simp
  finally have "nat (- e - 1) < 324" by (rule power_less_imp_less_exp [rotated]) simp
  then show "- 325 \<le> e" by simp
  have "nat (16 - e) = 16 + nat (- e)" using k(1) by simp
  then have "n * 10 ^ nat (16 - e) = 10 ^ 16 * (10 ^ nat (- e) * n)" by (simp only: power_add mult_ac)
  also have "\<dots> < 10 ^ 16 * (10 * d)" using k(3) by (simp add: mult.commute)
  finally have "n * 10 ^ nat (16 - e) < 10 ^ 17 * d" by simp
  then show "round_even (n * 10 ^ nat (16 - e)) d \<le> 10 ^ 17" using n by (simp add: round_even_le)
qed

lemma g17_digits_bounds:
  assumes n: "0 < n" "n < 2 ^ 1024 * d" and d: "0 < d" "d \<le> 2 ^ 1074"
  shows "fst (g17_digits n d) < 10 ^ 17" and "\<bar>snd (g17_digits n d)\<bar> < 1000"
proof -
  define e where "e = (if n \<ge> d then pow10_up n d else - pow10_down n d)"
  define m where "m = (if e \<le> 16 then round_even (n * 10 ^ nat (16 - e)) d else round_even n (d * 10 ^ nat (e - 16)))"
  have "\<bar>e\<bar> < 900 \<and> m \<le> 10 ^ 17"
  proof (cases "d \<le> n")
    case True
    then have "e = pow10_up n d" by (simp add: e_def)
    from g17_up [OF d(1) True n(2) this m_def] show ?thesis by simp
  next
    case False
    then have "e = - pow10_down n d" "n < d" by (simp_all add: e_def)
    from g17_down [OF n(1) this(2) d(2) this(1)] show ?thesis by (simp add: m_def)
  qed
  moreover have "g17_digits n d = (if m = 10 ^ 17 then (10 ^ 16, e + 1) else (m, e))"
    by (simp only: g17_digits_def Let_def m_def e_def)
  ultimately show "fst (g17_digits n d) < 10 ^ 17" and "\<bar>snd (g17_digits n d)\<bar> < 1000"
    by (auto split: if_splits)
qed

lemma strip_zeros_length: "length (strip_zeros ds) \<le> length ds"
  using length_dropWhile_le [of _ "rev ds"] by (simp add: strip_zeros_def)

lemma g17_point_length: "length (g17_point whole frac) \<le> length whole + 1 + length frac"
  using strip_zeros_length [of frac] by (simp add: g17_point_def)

lemma g17_body_length:
  assumes ds: "length ds \<le> 17" and e: "\<bar>e\<bar> < 1000"
  shows "length (g17_body ds e) \<le> 24"
proof -
  have dig: "length (dec_digits \<bar>e\<bar>) \<le> 3" and short: "\<bar>e\<bar> < 10 \<Longrightarrow> length (dec_digits \<bar>e\<bar>) \<le> 1"
    using dec_digits_length [of "\<bar>e\<bar>" 3] dec_digits_length [of "\<bar>e\<bar>" 1] e by simp_all
  have p: "length (g17_point whole frac) \<le> length whole + 1 + length frac" for whole frac by (rule g17_point_length)
  consider (expo) "e < -4 \<or> e \<ge> 17" | (small) "-4 \<le> e" "e < 0" | (plain) "0 \<le> e" "e < 17" by linarith
  then show ?thesis
  proof cases
    case expo
    have "length (g17_point (take 1 ds) (drop 1 ds)) \<le> 18" using p [of "take 1 ds" "drop 1 ds"] ds by (cases ds) auto
    then show ?thesis using expo dig short by (auto simp: g17_body_def)
  next
    case small
    then have "nat (- e) - 1 \<le> 3" by simp
    then show ?thesis using small p [of "[0x30]" "replicate (nat (- e) - 1) 0x30 @ ds"] ds by (simp add: g17_body_def)
  next
    case plain
    then show ?thesis using p [of "take (nat e + 1) ds" "drop (nat e + 1) ds"] ds by (simp add: g17_body_def)
  qed
qed

text \<open>The value of a finite double as a fraction, from its exponent \<open>x\<close> and its fraction bits \<open>f\<close>.\<close>

lemma d_value_shape:
  assumes "\<not> is_nan v" and "\<not> is_inf v" and x: "x = d_expo v" and f: "f = d_mag v mod 0x10000000000000"
  shows "0 \<le> x" and "x \<le> 2046" and "0 \<le> f" and "f < 0x10000000000000"
    and "\<bar>d_num v\<bar> = (if x = 0 then f else if x \<le> 1075 then f + 0x10000000000000 else (f + 0x10000000000000) * 2 ^ nat (x - 1075))"
    and "d_den v = (if x = 0 then 2 ^ 1074 else if x \<le> 1075 then 2 ^ nat (1075 - x) else 1)"
proof -
  have "d_mag v < d_inf_mag" using assms by (simp add: is_nan_def is_inf_def)
  then show "0 \<le> x" "x \<le> 2046" "0 \<le> f" "f < 0x10000000000000"
    using d_mag_bounds(1) [of v] by (auto simp: x f d_expo_def)
  then show "\<bar>d_num v\<bar> = (if x = 0 then f else if x \<le> 1075 then f + 0x10000000000000 else (f + 0x10000000000000) * 2 ^ nat (x - 1075))"
    by (simp add: d_num_def x f Let_def abs_mult)
  show "d_den v = (if x = 0 then 2 ^ 1074 else if x \<le> 1075 then 2 ^ nat (1075 - x) else 1)"
    by (simp add: d_den_def x Let_def)
qed

lemma d_value_bounds:
  assumes "\<not> is_nan v" and "\<not> is_inf v"
  shows "\<bar>d_num v\<bar> < 2 ^ 1024 * d_den v" and "d_den v \<le> 2 ^ 1074" and "\<not> is_zero v \<Longrightarrow> 0 < \<bar>d_num v\<bar>"
proof -
  define x f where "x = d_expo v" and "f = d_mag v mod 0x10000000000000"
  note S = d_value_shape [OF assms x_def f_def]
  consider "x = 0" | "x \<noteq> 0" "x \<le> 1075" | "1075 < x" by linarith
  then show "d_den v \<le> 2 ^ 1074"
  proof cases
    case 2
    then have "d_den v = 2 ^ nat (1075 - x)" by (simp add: S(6))
    moreover have "(2 :: int) ^ nat (1075 - x) \<le> 2 ^ 1074" using S(1) 2 by (intro power_increasing) auto
    ultimately show ?thesis by (simp only:)
  qed (use S(1) in \<open>simp_all add: S(6)\<close>)
  show "\<bar>d_num v\<bar> < 2 ^ 1024 * d_den v"
  proof (cases "x \<le> 1075")
    case True
    have "(1 :: int) \<le> d_den v" using d_den_pos [of v] by simp
    then have "(2 :: int) ^ 1024 * 1 \<le> 2 ^ 1024 * d_den v" by (intro mult_left_mono) auto
    moreover have "\<bar>d_num v\<bar> < 2 ^ 53" using S(3,4) True by (simp add: S(5))
    ultimately show ?thesis by (simp add: order_less_le_trans)
  next
    case False
    then have "\<bar>d_num v\<bar> = (f + 0x10000000000000) * 2 ^ nat (x - 1075)" "d_den v = 1" using S(1) by (simp_all add: S(5,6))
    moreover have "(f + 0x10000000000000) * 2 ^ nat (x - 1075) < 2 ^ 53 * 2 ^ nat (x - 1075)"
      using S(4) by (intro mult_strict_right_mono) auto
    moreover have "(2 :: int) ^ 53 * 2 ^ nat (x - 1075) \<le> 2 ^ 1024"
      unfolding power_add [symmetric] using S(2) False by (intro power_increasing) auto
    ultimately show ?thesis by (simp only: mult_1_right)
  qed
  show "0 < \<bar>d_num v\<bar>" if "\<not> is_zero v"
  proof (cases "x = 0")
    case True
    then have "f \<noteq> 0" using that d_mag_bounds(1) [of v] by (auto simp: is_zero_def x_def f_def d_expo_def)
    then show ?thesis using S(3) True by (simp add: S(5))
  next
    case False
    have "0 < (f + 0x10000000000000) * 2 ^ nat (x - 1075)" using S(3) by simp
    then show ?thesis using False S(3) by (simp add: S(5))
  qed
qed

lemma fmt_g17_length: "\<not> is_nan v \<Longrightarrow> \<not> is_inf v \<Longrightarrow> length (fmt_g17 v) \<le> 25"
proof (cases "is_zero v")
  case False
  assume v: "\<not> is_nan v" "\<not> is_inf v"
  note B = d_value_bounds [OF v]
  obtain m e where me: "g17_digits \<bar>d_num v\<bar> (d_den v) = (m, e)" by fastforce
  have "m < 10 ^ 17" "\<bar>e\<bar> < 1000"
    using g17_digits_bounds [OF B(3) [OF False] B(1) d_den_pos B(2)] me by simp_all
  then have "length (g17_body (dec_digits m) e) \<le> 24" by (intro g17_body_length dec_digits_length) auto
  then show ?thesis using False me by (simp add: fmt_g17_def)
qed (simp add: fmt_g17_def)

lemma claim_value_length:
  assumes "\<not> is_nan s" and "\<not> is_inf s"
  shows "length (claim_value self s) < 96" and "claim_value self s \<noteq> []"
  using fmt_g17_length [OF assms] by (simp_all add: claim_value_def lit_def)

section \<open>Keeping the best offer\<close>

text \<open>
  A loop that looks at items one by one, where an item makes an offer or none, and replaces the
  offer it holds by one that beats it.
\<close>

locale best_so_far =
  fixes offer :: "'x \<Rightarrow> 'c option" and beats :: "'c \<Rightarrow> 'c \<Rightarrow> bool" and valid :: "'c \<Rightarrow> bool"
    and step :: "'c option \<Rightarrow> 'x \<Rightarrow> 'c option"
  assumes step: "step best x =
      (case offer x of None \<Rightarrow> best
       | Some c \<Rightarrow> if (case best of None \<Rightarrow> True | Some b \<Rightarrow> beats c b) then Some c else best)"
    and offer_valid: "offer x = Some c \<Longrightarrow> valid c"
    and beats_irrefl: "valid c \<Longrightarrow> \<not> beats c c"
    and not_beats_trans: "valid a \<Longrightarrow> valid b \<Longrightarrow> valid c \<Longrightarrow> \<not> beats b a \<Longrightarrow> \<not> beats c b \<Longrightarrow> \<not> beats c a"
    and beats_asym: "valid a \<Longrightarrow> valid b \<Longrightarrow> beats a b \<Longrightarrow> \<not> beats b a"
begin

lemma fold_best:
  "(foldl step None xs = None \<longleftrightarrow> (\<forall>x\<in>set xs. offer x = None)) \<and>
   (\<forall>c. foldl step None xs = Some c \<longrightarrow>
      (\<exists>x\<in>set xs. offer x = Some c) \<and> (\<forall>x\<in>set xs. \<forall>d. offer x = Some d \<longrightarrow> \<not> beats d c))"
proof (induction xs rule: rev_induct)
  case (snoc x xs)
  show ?case
  proof (cases "offer x")
    case None
    then show ?thesis using snoc by (simp add: step [of _ x])
  next
    case (Some c)
    show ?thesis
    proof (cases "foldl step None xs")
      case None
      then show ?thesis using snoc Some beats_irrefl offer_valid by (auto simp: step [of None x])
    next
      case best: (Some b)
      have b: "valid b" and top: "\<forall>y\<in>set xs. \<forall>d. offer y = Some d \<longrightarrow> \<not> beats d b"
        using snoc best offer_valid by auto
      have c: "valid c" using Some by (rule offer_valid)
      have "\<not> beats d c" if "beats c b" "y \<in> set xs" "offer y = Some d" for y d
        using not_beats_trans [OF c b, of d] beats_asym [OF c b that(1)] top that offer_valid by blast
      then show ?thesis
        using snoc best Some b c beats_irrefl by (auto simp: step [of "Some b" x])
    qed
  qed
qed simp

end

section \<open>Candidates\<close>

text \<open>What a name of the pool offers, whatever the best candidate so far.\<close>

definition bid ::
    "allocator \<Rightarrow> 'v script_engine \<Rightarrow> ('v \<Rightarrow> 'v \<Rightarrow> 'v option) \<Rightarrow> FleeceStateManager \<Rightarrow> u64 \<Rightarrow> bytes \<Rightarrow> bytes option \<Rightarrow>
     double \<Rightarrow> bytes \<Rightarrow> candidate option" where
  "bid A en score_fn m ttl prefix current_key margin key =
     (if take (length prefix) key \<noteq> prefix \<or> take 6 key = lit ''claim_'' \<or> current_key = Some key then None
      else
        case fleece_state_manager_get_named A m FLEECE_SHARED_OWNER_ID (Some key) of
          None \<Rightarrow> None
        | Some (data, sz) \<Rightarrow>
            (case js_score_goal A en score_fn key data sz of
               None \<Rightarrow> None
             | Some score \<Rightarrow>
                 (case read_claim A en m key of
                    (claim, raw, raw_size) \<Rightarrow>
                      if may_bid m ttl margin score claim
                      then Some (take (FLEECE_FIELD_NAME_MAX - 1) key, score, raw, raw_size) else None)))"

abbreviation candidate_score :: "candidate \<Rightarrow> double" where
  "candidate_score c \<equiv> fst (snd c)"

lemma d_1e300_mag: "d_mag d_1e300 = 0x7E37E43C8800759C" "\<not> d_neg d_1e300" "d_mag (d_minus d_1e300) = 0x7E37E43C8800759C"
    "d_neg (d_minus d_1e300)"
  by code_simp+

lemma score_finite:
  assumes "js_score_goal A en score_fn key data sz = Some s"
  shows "\<not> is_nan s" and "\<not> is_inf s"
proof -
  have keys: "d_key d_1e300 = 0x7E37E43C8800759C" "d_key (d_minus d_1e300) = - 0x7E37E43C8800759C"
    by (simp_all add: d_key_def d_1e300_mag)
  have fin: "\<not> is_nan d_1e300" "\<not> is_inf d_1e300" "\<not> is_nan (d_minus d_1e300)" "\<not> is_inf (d_minus d_1e300)"
    by (simp_all add: is_nan_def is_inf_def d_1e300_mag)
  have "\<not> is_inf t" if "\<not> is_nan t" "\<not> d_less d_1e300 t" "\<not> d_less t (d_minus d_1e300)" for t
    using that fin keys by (auto simp: d_less_def d_key_def is_inf_def split: if_splits)
  then show "\<not> is_nan s" and "\<not> is_inf s"
    using assms fin by (auto simp: js_score_goal_def split: if_splits option.splits)
qed

lemma bid_score: "bid A en score_fn m ttl prefix current_key margin key = Some c \<Longrightarrow>
    \<not> is_nan (candidate_score c) \<and> \<not> is_inf (candidate_score c)"
  using score_finite by (fastforce simp: bid_def split: if_splits option.splits prod.splits)

interpretation pool: best_so_far "bid A en score_fn m ttl prefix current_key margin"
    "\<lambda>c b. d_less (candidate_score b) (candidate_score c)" "\<lambda>c. \<not> is_nan (candidate_score c)"
    "scan_key A en score_fn m ttl prefix current_key margin"
  for A en score_fn m ttl prefix current_key margin
proof unfold_locales
  fix best x
  show "scan_key A en score_fn m ttl prefix current_key margin best x =
      (case bid A en score_fn m ttl prefix current_key margin x of None \<Rightarrow> best
       | Some c \<Rightarrow> if (case best of None \<Rightarrow> True | Some b \<Rightarrow> d_less (candidate_score b) (candidate_score c)) then Some c else best)"
    by (auto simp: scan_key_def bid_def split: option.splits prod.splits)
qed (auto simp: d_less_def dest: bid_score)

lemma listed_name:
  assumes inv: "sm_inv m" and k: "k \<in> set (fleece_state_manager_list_fields m ow n)"
  shows "cstring k" and "k \<noteq> []" and "length k < FLEECE_FIELD_NAME_MAX"
proof -
  obtain f where f: "f \<in> set (sm_fields m)" "live_named ow f" "k = take (FLEECE_FIELD_NAME_MAX - 1) (fe_name f)"
    using k by (auto simp: fleece_state_manager_list_fields_def dest!: in_set_takeD)
  have "field_ok f" using fields_ok [OF inv f(1)] f(2) by (simp add: live_named_def)
  then show "cstring k" and "k \<noteq> []" and "length k < FLEECE_FIELD_NAME_MAX"
    using f by (auto simp: field_ok_def live_named_def cstring_take)
qed

text \<open>The candidate the scan returns.\<close>

lemma scan_pool_best:
  assumes inv: "sm_inv m"
    and scan: "scan_pool A en score_fn m ttl prefix current_key margin = Some c"
  shows "\<exists>k s raw n data. c = (k, s, raw, n) \<and> k \<in> set (fleece_state_manager_list_fields m FLEECE_SHARED_OWNER_ID FLEECE_JS_LIST_MAX) \<and>
      bid A en score_fn m ttl prefix current_key margin k = Some c \<and> current_key \<noteq> Some k \<and>
      live_value m FLEECE_SHARED_OWNER_ID (hash_name k) = Some data \<and>
      js_score_goal A en score_fn k data (of_nat (length data)) = Some s \<and>
      (\<exists>claim. read_claim A en m k = (claim, raw, n) \<and> may_bid m ttl margin s claim)"
    and "\<And>x d. x \<in> set (fleece_state_manager_list_fields m FLEECE_SHARED_OWNER_ID FLEECE_JS_LIST_MAX) \<Longrightarrow>
      bid A en score_fn m ttl prefix current_key margin x = Some d \<Longrightarrow> \<not> d_less (candidate_score c) (candidate_score d)"
proof -
  let ?names = "fleece_state_manager_list_fields m FLEECE_SHARED_OWNER_ID FLEECE_JS_LIST_MAX"
    and ?bid = "bid A en score_fn m ttl prefix current_key margin"
  note best = pool.fold_best [THEN conjunct2, THEN spec, THEN mp, OF scan [unfolded scan_pool_def]]
  then show "\<And>x d. x \<in> set ?names \<Longrightarrow> ?bid x = Some d \<Longrightarrow> \<not> d_less (candidate_score c) (candidate_score d)"
    by blast
  obtain k where k: "k \<in> set ?names" "?bid k = Some c" using best by blast
  obtain data sz s claim raw n where c: "fleece_state_manager_get_named A m 0 (Some k) = Some (data, sz)"
    "js_score_goal A en score_fn k data sz = Some s" "read_claim A en m k = (claim, raw, n)" "may_bid m ttl margin s claim"
    "c = (take (FLEECE_FIELD_NAME_MAX - 1) k, s, raw, n)" "current_key \<noteq> Some k"
    using k(2) by (auto simp: bid_def split: if_split_asm option.split_asm prod.split_asm)
  have "take (FLEECE_FIELD_NAME_MAX - 1) k = k" using listed_name(3) [OF inv k(1)] by simp
  moreover have "live_value m 0 (hash_name k) = Some data" "sz = of_nat (length data)"
    using c(1) by (simp_all add: get_named_live [OF inv] split: option.splits if_splits)
  ultimately show "\<exists>k s raw n data. c = (k, s, raw, n) \<and> k \<in> set ?names \<and> ?bid k = Some c \<and> current_key \<noteq> Some k \<and>
      live_value m FLEECE_SHARED_OWNER_ID (hash_name k) = Some data \<and>
      js_score_goal A en score_fn k data (of_nat (length data)) = Some s \<and>
      (\<exists>claim. read_claim A en m k = (claim, raw, n) \<and> may_bid m ttl margin s claim)"
    using k c by metis
qed

lemma scan_pool_None: "scan_pool A en score_fn m ttl prefix current_key margin = None \<longleftrightarrow>
    (\<forall>k\<in>set (fleece_state_manager_list_fields m FLEECE_SHARED_OWNER_ID FLEECE_JS_LIST_MAX).
       bid A en score_fn m ttl prefix current_key margin k = None)"
  unfolding scan_pool_def using pool.fold_best [THEN conjunct1] .

section \<open>Reading and writing claims\<close>

abbreviation claim_hash :: "bytes \<Rightarrow> u32" where
  "claim_hash key \<equiv> hash_name (claim_key key)"

lemma claim_key_name: "cstring key \<Longrightarrow> cstring (claim_key key)" "claim_key key \<noteq> []"
  by (auto simp: claim_key_def snprintf_s_def lit_def cstring_def dest: in_set_takeD)

lemma live_value_size:
  assumes "sm_inv m" and "live_value m ow k = Some d"
  shows "d \<noteq> []" and "length d < 2 ^ 32"
proof -
  obtain i where "length d = unat (fe_size (sm_fields m ! i))" "fe_size (sm_fields m ! i) \<noteq> 0"
    using find_field_owned_view [OF assms(1), of ow k] assms(2) by (auto split: option.splits)
  then show "d \<noteq> []" and "length d < 2 ^ 32"
    using unsigned_less [of "fe_size (sm_fields m ! i)"] by (auto simp: unat_eq_0)
qed

lemma read_claim_live:
  assumes inv: "sm_inv m" and rd: "read_claim A en m key = (claim, raw, n)"
  shows "raw = None \<and> n = 0 \<and> claim = None \<and> (live_value m 0 (claim_hash key) = None \<or> (\<exists>k. \<not> A k)) \<or>
    (\<exists>d. raw = Some d \<and> n = of_nat (length d) \<and> n \<noteq> 0 \<and> unat n = length d \<and> live_value m 0 (claim_hash key) = Some d \<and>
      claim = (if A (length d + 1) then parse_claim en d else None))"
proof (cases "live_value m 0 (claim_hash key)")
  case (Some d)
  have "unat (of_nat (length d) :: u32) = length d" "(of_nat (length d) :: u32) \<noteq> 0"
    using live_value_size [OF inv Some] by (auto simp: unat_of_nat_32 dest: arg_cong [where f = unat])
  moreover have "A (length d) \<Longrightarrow> raw = Some d \<and> n = of_nat (length d) \<and> claim = (if A (length d + 1) then parse_claim en d else None)"
    "\<not> A (length d) \<Longrightarrow> raw = None \<and> n = 0 \<and> claim = None"
    using rd Some calculation by (auto simp: read_claim_def get_named_live [OF inv])
  ultimately show ?thesis using Some by blast
qed (use rd in \<open>simp add: read_claim_def get_named_live [OF inv]\<close>)

lemma cas_claim_effect:
  assumes inv: "sm_inv m" and clk: "sm_local_timestamp m \<noteq> UINT64_MAX" and key: "cstring key"
    and s: "\<not> is_nan s" "\<not> is_inf s"
    and raw: "raw = None \<and> n = 0 \<or> (\<exists>d. raw = Some d \<and> n \<noteq> 0 \<and> unat n = length d \<and> live_value m 0 (claim_hash key) = Some d)"
    and op: "cas_claim A m key self s raw n = (rc, m')"
  shows "sm_inv m'" and "sm_node_id m' = sm_node_id m" and "sm_peers_seen m' = sm_peers_seen m"
    and "unat (sm_local_timestamp m') \<le> Suc (unat (sm_local_timestamp m))"
    and "rc = 0 \<Longrightarrow> view m' = (view m)((FLEECE_SHARED_OWNER_ID, claim_hash key) \<mapsto>
        Version (sm_local_timestamp m + 1) (sm_node_id m) False (take (FLEECE_FIELD_NAME_MAX - 1) (claim_key key)) (claim_value self s))"
    and "rc \<noteq> 0 \<Longrightarrow> view m' = view m"
    and "rc = 0 \<longleftrightarrow> (raw \<noteq> None \<or> live_value m 0 (claim_hash key) = None) \<and> A (length (claim_value self s)) \<and>
      (view m (FLEECE_SHARED_OWNER_ID, claim_hash key) \<noteq> None \<or> sm_field_count m < FIELD_CAPACITY)"
proof -
  let ?v = "claim_value self s" and ?e = "if n > 0 then raw else None"
  have len: "length ?v < 96" "?v \<noteq> []" using claim_value_length [OF s] by simp_all
  then have sz: "unat (of_nat (length ?v) :: u32) = length ?v" "(of_nat (length ?v) :: u32) \<noteq> 0"
    by (auto simp: unat_of_nat_32 dest: arg_cong [where f = unat])
  have op': "fleece_state_manager_set_shared_cas A m (Some (claim_key key)) ?e n (Some ?v) (of_nat (length ?v)) = (rc, m')"
    using op len(1) by (simp add: cas_claim_def Let_def)
  have e: "unat n \<le> length x" if "?e = Some x" for x using raw that by (auto split: if_splits)
  have le: "unat (of_nat (length ?v) :: u32) \<le> length ?v" by (simp add: sz)
  note C = shared_cas [OF inv clk claim_key_name(2) claim_key_name(1) [OF key] sz(2) le e op']
  have mis: "live_value m 0 (claim_hash key) \<noteq> map_option (take (unat n)) ?e \<longleftrightarrow> raw = None \<and> live_value m 0 (claim_hash key) \<noteq> None"
    using raw by (auto simp: word_neq_0_conv)
  show "sm_inv m'" by (rule C(1))
  show "sm_node_id m' = sm_node_id m" and "sm_peers_seen m' = sm_peers_seen m" using C(2,3) by simp_all
  show "unat (sm_local_timestamp m') \<le> Suc (unat (sm_local_timestamp m))"
    using C(5) unat_Suc_clock [OF clk] by (simp split: if_splits)
  show "rc = 0 \<Longrightarrow> view m' = (view m)((0, claim_hash key) \<mapsto>
        Version (sm_local_timestamp m + 1) (sm_node_id m) False (take (FLEECE_FIELD_NAME_MAX - 1) (claim_key key)) ?v)"
    using C(9) sz(1) by simp
  show "rc \<noteq> 0 \<Longrightarrow> view m' = view m" by (rule C(10))
  show "rc = 0 \<longleftrightarrow> (raw \<noteq> None \<or> live_value m 0 (claim_hash key) = None) \<and> A (length ?v) \<and>
      (view m (0, claim_hash key) \<noteq> None \<or> sm_field_count m < FIELD_CAPACITY)"
    using C(6,8) sz(1) mis by auto
qed

lemma remove_claim_effect:
  assumes inv: "sm_inv m" and clk: "sm_local_timestamp m \<noteq> UINT64_MAX"
    and live: "live_value m FLEECE_SHARED_OWNER_ID (hash_name s) \<noteq> None"
    and op: "m' = snd (fleece_state_manager_remove_shared m (Some s))"
  shows "sm_inv m'" and "sm_node_id m' = sm_node_id m"
    and "\<exists>v. v_tomb v \<and> view m' = (view m)((FLEECE_SHARED_OWNER_ID, hash_name s) \<mapsto> v)"
proof -
  obtain i where i: "find_field_owned m (hash_name s) 0 = Some i"
    using find_field_owned_view [OF inv, of 0 "hash_name s"] live by (cases "find_field_owned m (hash_name s) 0") auto
  obtain v where v: "view m (0, hash_name s) = Some v" using find_field_ownedD [OF i] by (simp add: view_def)
  obtain rc where rm: "fleece_state_manager_remove_shared m (Some s) = (rc, m')" using op by (metis prod.collapse)
  note R = remove_shared_view [OF inv clk i v rm]
  show "sm_inv m'" by (rule R(2))
  show "sm_node_id m' = sm_node_id m" by (rule R(3))
  show "\<exists>v. v_tomb v \<and> view m' = (view m)((0, hash_name s) \<mapsto> v)"
    by (intro exI [of _ "Version (sm_local_timestamp m + 1) (sm_node_id m) True (v_name v) []"]) (simp add: R(5))
qed

end
