(* ===== verification/Auction_Claims.thy ===== *)
theory Auction_Claims
  imports Auction_Proofs
begin

text \<open>
  What an auction does: who owns which claim afterwards, when the claim of another node may be
  replaced, and which goal is chosen.
\<close>

section \<open>Owners of claims\<close>

definition claim_owner :: "'v script_engine \<Rightarrow> FleeceStateManager \<Rightarrow> bytes \<Rightarrow> u64 option" where
  "claim_owner en m key =
     (case live_value m FLEECE_SHARED_OWNER_ID (claim_hash key) of None \<Rightarrow> None | Some d \<Rightarrow> map_option fst (parse_claim en d))"

text \<open>The engine reads the JSON text of a claim: the string under \<open>o\<close> and a number under \<open>b\<close>.\<close>

definition reads_claims :: "'v script_engine \<Rightarrow> u64 \<Rightarrow> bool" where
  "reads_claims en self \<longleftrightarrow>
     (\<forall>s. \<not> is_nan s \<and> \<not> is_inf s \<longrightarrow>
       (\<exists>v. en_ParseJSON en (claim_value self s) = Some v \<and>
         en_ToCString en (en_GetPropertyStr en v (lit ''o'')) = Some (hex16 self) \<and>
         en_ToFloat64 en (en_GetPropertyStr en v (lit ''b'')) \<noteq> None))"

lemma parse_own_claim:
  assumes "reads_claims en self" and "\<not> is_nan s" and "\<not> is_inf s"
  shows "map_option fst (parse_claim en (claim_value self s)) = Some self"
proof -
  have "c_string (hex16 self) = hex16 self" using hex16_chars(6) by (intro c_string_id) (auto simp: cstring_def)
  then show ?thesis using assms unfolding reads_claims_def by (force simp: parse_claim_def strtoull_hex16)
qed

lemma held_facts:
  assumes inv: "sm_inv m" and h: "held_score A en score_fn m cur = Some s"
  shows "\<exists>k. cur = Some k \<and> claim_owner en m k = Some (sm_node_id m)" and "\<not> is_nan s" and "\<not> is_inf s"
proof -
  obtain k sc raw n data sz where k: "cur = Some k" "read_claim A en m k = (Some (sm_node_id m, sc), raw, n)"
    "js_score_goal A en score_fn k data sz = Some s"
    using h by (auto simp: held_score_def fleece_state_manager_get_node_id_def split: option.splits prod.splits if_splits)
  have "claim_owner en m k = Some (sm_node_id m)"
    using read_claim_live [OF inv k(2)] by (auto simp: claim_owner_def split: if_splits dest: sym)
  then show "\<exists>k. cur = Some k \<and> claim_owner en m k = Some (sm_node_id m)" using k(1) by blast
  show "\<not> is_nan s" and "\<not> is_inf s" using score_finite [OF k(3)] by blast+
qed

lemma claim_owner_live: "claim_owner en m k = Some p \<Longrightarrow> live_value m FLEECE_SHARED_OWNER_ID (claim_hash k) \<noteq> None"
  by (auto simp: claim_owner_def split: option.splits)

section \<open>The four outcomes\<close>

text \<open>The view after the claim of the key held so far, if there was one, has been deleted.\<close>

definition claim_dropped :: "(bytes \<times> double) option \<Rightarrow> (u64 \<times> u32 \<Rightarrow> version option) \<Rightarrow> (u64 \<times> u32 \<Rightarrow> version option) \<Rightarrow> bool" where
  "claim_dropped held old new =
     (case held of
        None \<Rightarrow> new = old
      | Some (k, _) \<Rightarrow> \<exists>t. v_tomb t \<and> new = old((FLEECE_SHARED_OWNER_ID, claim_hash k) \<mapsto> t))"

definition claim_written :: "FleeceStateManager \<Rightarrow> bytes \<Rightarrow> double \<Rightarrow> (u64 \<times> u32 \<Rightarrow> version option) \<Rightarrow> bool" where
  "claim_written m k s new =
     (\<exists>v. \<not> v_tomb v \<and> v_data v = claim_value (sm_node_id m) s \<and> new = (view m)((FLEECE_SHARED_OWNER_ID, claim_hash k) \<mapsto> v))"

definition held_ok :: "'v script_engine \<Rightarrow> FleeceStateManager \<Rightarrow> bytes option \<Rightarrow> (bytes \<times> double) option \<Rightarrow> bool" where
  "held_ok en m cur held \<longleftrightarrow>
     (\<forall>k s. held = Some (k, s) \<longrightarrow> cstring k \<and> \<not> is_nan s \<and> \<not> is_inf s \<and> claim_owner en m k = Some (sm_node_id m) \<and> cur = Some k \<and> k \<noteq> [])"

definition best_ok :: "FleeceStateManager \<Rightarrow> candidate option \<Rightarrow> bool" where
  "best_ok m best \<longleftrightarrow>
     (\<forall>k s raw n. best = Some (k, s, raw, n) \<longrightarrow> cstring k \<and> \<not> is_nan s \<and> \<not> is_inf s \<and>
       (raw = None \<and> n = 0 \<or> (\<exists>d. raw = Some d \<and> n \<noteq> 0 \<and> unat n = length d \<and> live_value m 0 (claim_hash k) = Some d)))"

text \<open>The claim a compare-and-set expects: none, or the live one.\<close>

abbreviation expected_claim :: "FleeceStateManager \<Rightarrow> bytes \<Rightarrow> bytes option \<Rightarrow> u32 \<Rightarrow> bool" where
  "expected_claim m k raw n \<equiv>
     raw = None \<and> n = 0 \<or> (\<exists>d. raw = Some d \<and> n \<noteq> 0 \<and> unat n = length d \<and> live_value m FLEECE_SHARED_OWNER_ID (claim_hash k) = Some d)"

lemma cas_claim_written:
  assumes inv: "sm_inv m" and clk: "sm_local_timestamp m \<noteq> UINT64_MAX" and k: "cstring k" "\<not> is_nan s" "\<not> is_inf s"
    and raw: "expected_claim m k raw n" and cas: "cas_claim A m k (sm_node_id m) s raw n = (rc, m')"
  shows "sm_inv m' \<and> sm_node_id m' = sm_node_id m \<and> (if rc = 0 then claim_written m k s (view m') else view m' = view m)"
proof -
  note C = cas_claim_effect [OF inv clk k raw cas]
  let ?v = "Version (sm_local_timestamp m + 1) (sm_node_id m) False (take (FLEECE_FIELD_NAME_MAX - 1) (claim_key k)) (claim_value (sm_node_id m) s)"
  have "claim_written m k s (view m')" if "rc = 0"
    unfolding claim_written_def using C(5) [OF that] by (intro exI [of _ ?v]) simp
  then show ?thesis using C(1,2,6) by auto
qed

lemma reassert_outcome:
  assumes inv: "sm_inv m" and clk: "sm_local_timestamp m \<noteq> UINT64_MAX" and k: "cstring k" "\<not> is_nan s" "\<not> is_inf s"
    and live: "live_value m FLEECE_SHARED_OWNER_ID (claim_hash k) = Some d" and m': "m' = reassert_claim A m k s"
  shows "sm_inv m' \<and> sm_node_id m' = sm_node_id m \<and> (view m' = view m \<or> claim_written m k s (view m'))"
proof -
  let ?n = "of_nat (length d) :: u32"
  have n: "?n \<noteq> 0 \<and> unat ?n = length d"
    using live_value_size [OF inv live] by (auto simp: unat_of_nat_32 dest: arg_cong [where f = unat])
  obtain rc m1 where cas: "cas_claim A m k (sm_node_id m) s (Some d) ?n = (rc, m1)" by fastforce
  have raw: "expected_claim m k (Some d) ?n" using n live by simp
  have "m' = m \<or> m' = m1" using cas live
    by (auto simp: m' reassert_claim_def get_named_live [OF inv] fleece_state_manager_get_node_id_def split: if_splits)
  then show ?thesis using cas_claim_written [OF inv clk k raw cas] inv by (auto split: if_splits)
qed

lemma switch_outcome:
  assumes inv: "sm_inv m" and clk: "unat (sm_local_timestamp m) + 2 \<le> unat UINT64_MAX" and k: "cstring k" "\<not> is_nan s" "\<not> is_inf s"
    and raw: "expected_claim m k raw n" and held: "\<And>c hs. held = Some (c, hs) \<Longrightarrow> live_value m FLEECE_SHARED_OWNER_ID (claim_hash c) \<noteq> None"
    and op: "switch_claim A m (map_option fst held) (k, s, raw, n) = (res, m')"
  shows "sm_inv m' \<and> sm_node_id m' = sm_node_id m \<and>
    ((\<exists>w. res = Some k \<and> claim_written m k s w \<and> claim_dropped held w (view m')) \<or>
     res = map_option fst held \<and> view m' = view m \<and>
       \<not> ((raw \<noteq> None \<or> live_value m FLEECE_SHARED_OWNER_ID (claim_hash k) = None) \<and> A (length (claim_value (sm_node_id m) s)) \<and>
         (view m (FLEECE_SHARED_OWNER_ID, claim_hash k) \<noteq> None \<or> sm_field_count m < FIELD_CAPACITY)))"
proof -
  have clk1: "sm_local_timestamp m \<noteq> UINT64_MAX" using clk clock_room [of "sm_local_timestamp m" 1] by simp
  obtain rc m1 where cas: "cas_claim A m k (sm_node_id m) s raw n = (rc, m1)" by fastforce
  note C = cas_claim_effect [OF inv clk1 k raw cas] and W = cas_claim_written [OF inv clk1 k raw cas]
  show ?thesis
  proof (cases "rc = 0 \<and> held \<noteq> None")
    case True
    then obtain c hs where h: "held = Some (c, hs)" by auto
    have m': "res = Some k" "m' = snd (fleece_state_manager_remove_shared m1 (Some (claim_key c)))"
      using op cas True h by (simp_all add: switch_claim_def fleece_state_manager_get_node_id_def)
    have clk2: "sm_local_timestamp m1 \<noteq> UINT64_MAX" using clk C(4) by auto
    have "live_value m1 0 (claim_hash c) \<noteq> None" using held [OF h] C(5) True by (auto simp: live_value_def)
    note R = remove_claim_effect [OF C(1) clk2 this m'(2)]
    have "claim_written m k s (view m1)" "claim_dropped held (view m1) (view m')" using W True R(3) h by (simp_all add: claim_dropped_def)
    then show ?thesis using R(1,2) C(2) m'(1) by (intro conjI disjI1 exI [of _ "view m1"]) simp_all
  next
    case False
    then have "res = (if rc = 0 then Some k else map_option fst held) \<and> m' = m1"
      using op cas by (cases "rc = 0"; cases held) (simp_all add: switch_claim_def fleece_state_manager_get_node_id_def)
    then have m': "res = (if rc = 0 then Some k else map_option fst held)" "m' = m1" by simp_all
    show ?thesis
    proof (cases "rc = 0")
      case True
      then have "claim_written m k s (view m1)" "claim_dropped held (view m1) (view m1)" using W False by (cases held; simp add: claim_dropped_def)+
      then show ?thesis using W m' True by (intro conjI disjI1 exI [of _ "view m1"]) simp_all
    next
      case False
      then have "\<not> ((raw \<noteq> None \<or> live_value m 0 (claim_hash k) = None) \<and> A (length (claim_value (sm_node_id m) s)) \<and>
          (view m (0, claim_hash k) \<noteq> None \<or> sm_field_count m < FIELD_CAPACITY))" using C(7) by (simp only:) simp
      then show ?thesis using W m' False by (intro conjI disjI2) simp_all
    qed
  qed
qed

lemma settle_outcome:
  assumes inv: "sm_inv m" and clk: "unat (sm_local_timestamp m) + 2 \<le> unat UINT64_MAX"
    and held_ok: "held_ok en m cur held" and best_ok: "best_ok m best"
    and op: "settle_claim A m held best margin re = (res, m')"
  shows "sm_inv m' \<and> sm_node_id m' = sm_node_id m \<and>
   ((\<exists>k s raw n w. best = Some (k, s, raw, n) \<and> should_switch held best margin \<and> res = Some k \<and>
        claim_written m k s w \<and> claim_dropped held w (view m')) \<or>
    (\<exists>k s raw n. best = Some (k, s, raw, n) \<and> should_switch held best margin \<and> res = map_option fst held \<and> view m' = view m \<and>
        \<not> ((raw \<noteq> None \<or> live_value m 0 (claim_hash k) = None) \<and> A (length (claim_value (sm_node_id m) s)) \<and>
          (view m (0, claim_hash k) \<noteq> None \<or> sm_field_count m < FIELD_CAPACITY))) \<or>
    (\<exists>k s. held = Some (k, s) \<and> \<not> should_switch held best margin \<and> res = Some k \<and> (view m' = view m \<or> claim_written m k s (view m'))) \<or>
    held = None \<and> \<not> should_switch held best margin \<and> res = None \<and> m' = m)"
proof (cases "should_switch held best margin")
  case True
  obtain k s raw n where b: "best = Some (k, s, raw, n)" using True by (auto simp: should_switch_def split: option.splits)
  have k: "cstring k" "\<not> is_nan s" "\<not> is_inf s" "expected_claim m k raw n" using best_ok b unfolding best_ok_def by blast+
  have live: "live_value m 0 (claim_hash c) \<noteq> None" if "held = Some (c, hs)" for c hs
    using held_ok that claim_owner_live [of en m c] by (simp add: held_ok_def)
  have "switch_claim A m (map_option fst held) (k, s, raw, n) = (res, m')" using op True b by (simp add: settle_claim_def)
  from switch_outcome [OF inv clk k live this] show ?thesis using True b by auto
next
  case False
  have clk1: "sm_local_timestamp m \<noteq> UINT64_MAX" using clk clock_room [of "sm_local_timestamp m" 1] by simp
  show ?thesis
  proof (cases held)
    case None
    then show ?thesis using op False inv by (simp add: settle_claim_def)
  next
    case (Some h)
    obtain k s where h: "h = (k, s)" by (cases h)
    obtain d where k: "cstring k" "\<not> is_nan s" "\<not> is_inf s" "live_value m 0 (claim_hash k) = Some d"
      using held_ok Some h claim_owner_live [of en m k] by (auto simp: held_ok_def)
    have "res = Some k" "m' = (if re then reassert_claim A m k s else m)" using op False Some h by (simp_all add: settle_claim_def)
    then show ?thesis using reassert_outcome [OF inv clk1 k refl, of A] False Some h inv by auto
  qed
qed

text \<open>The pieces of a call that got as far as the auction.\<close>

abbreviation effective_key :: "bytes option \<Rightarrow> bytes option" where
  "effective_key current_key \<equiv> if current_key = Some [] then None else current_key"

definition held_goal ::
    "allocator \<Rightarrow> 'v script_engine \<Rightarrow> ('v \<Rightarrow> 'v \<Rightarrow> 'v option) \<Rightarrow> FleeceStateManager \<Rightarrow> bytes option \<Rightarrow> (bytes \<times> double) option" where
  "held_goal A en score_fn m cur =
     map_option (\<lambda>s. (the (effective_key cur), s)) (held_score A en score_fn m (effective_key cur))"

lemma held_goal_ok:
  assumes "sm_inv m" and "\<And>k. cur = Some k \<Longrightarrow> cstring k"
  shows "held_ok en m cur (held_goal A en score_fn m cur)"
  unfolding held_ok_def
proof (intro allI impI)
  fix k s
  assume "held_goal A en score_fn m cur = Some (k, s)"
  then have hs: "held_score A en score_fn m (effective_key cur) = Some s" and k: "k = the (effective_key cur)"
    by (auto simp: held_goal_def)
  from held_facts [OF assms(1) hs] k assms(2)
  show "cstring k \<and> \<not> is_nan s \<and> \<not> is_inf s \<and> claim_owner en m k = Some (sm_node_id m) \<and> cur = Some k \<and> k \<noteq> []"
    by (auto split: if_splits)
qed

lemma scan_pool_ok:
  assumes inv: "sm_inv m"
  shows "best_ok m (scan_pool A en score_fn m ttl prefix cur margin)"
  unfolding best_ok_def
proof (intro allI impI)
  fix k s raw n
  assume "scan_pool A en score_fn m ttl prefix cur margin = Some (k, s, raw, n)"
  from scan_pool_best(1) [OF inv this] obtain data claim
    where k: "k \<in> set (fleece_state_manager_list_fields m 0 FLEECE_JS_LIST_MAX)"
      "js_score_goal A en score_fn k data (of_nat (length data)) = Some s" "read_claim A en m k = (claim, raw, n)"
    by auto
  show "cstring k \<and> \<not> is_nan s \<and> \<not> is_inf s \<and>
      (raw = None \<and> n = 0 \<or> (\<exists>d. raw = Some d \<and> n \<noteq> 0 \<and> unat n = length d \<and> live_value m 0 (claim_hash k) = Some d))"
    using listed_name(1) [OF inv k(1)] score_finite [OF k(2)] read_claim_live [OF inv k(3)] by blast
qed

lemma auction_call:
  assumes "em_manager emb = Some m" and "en_score_goal en = Some score_fn" and "cap \<noteq> 0"
    and "fleece_embedded_claim_best_goal A en emb (Some prefix) cur margin re cap = (rc, out, emb')"
    and "settle_claim A m (held_goal A en score_fn m cur)
      (scan_pool A en score_fn m (em_peer_ttl_ticks emb) prefix (effective_key cur) margin) margin re = (res, m')"
  shows "rc = 0" and "emb' = emb\<lparr>em_manager := Some m'\<rparr>" and "out = (case res of None \<Rightarrow> [] | Some k \<Rightarrow> take (cap - 1) k)"
  using assms by (simp_all add: fleece_embedded_claim_best_goal_def held_goal_def Let_def)

lemma owner_cong: "view m' (FLEECE_SHARED_OWNER_ID, claim_hash k) = view m (FLEECE_SHARED_OWNER_ID, claim_hash k) \<Longrightarrow>
    claim_owner en m' k = claim_owner en m k"
  by (simp add: claim_owner_def live_value_def)

lemma owner_written:
  assumes "reads_claims en self" and "\<not> is_nan s" "\<not> is_inf s"
    and "view m' (FLEECE_SHARED_OWNER_ID, claim_hash k) = Some v" "\<not> v_tomb v" "v_data v = claim_value self s"
  shows "claim_owner en m' k = Some self"
  using assms parse_own_claim [OF assms(1-3)] by (simp add: claim_owner_def live_value_def)

text \<open>A call that gets as far as the auction settles it between the held goal and the best bid.\<close>

lemma auction_settles:
  assumes m: "em_manager emb = Some m" and inv: "sm_inv m" and clk: "unat (sm_local_timestamp m) + 2 \<le> unat UINT64_MAX"
    and cstr: "\<And>k. cur = Some k \<Longrightarrow> cstring k" and fn: "en_score_goal en = Some score_fn" and cap: "cap \<noteq> 0"
    and call: "fleece_embedded_claim_best_goal A en emb (Some prefix) cur margin re cap = (rc, out, emb')"
    and held: "held = held_goal A en score_fn m cur"
    and best: "best = scan_pool A en score_fn m (em_peer_ttl_ticks emb) prefix (effective_key cur) margin"
  obtains res m' where "settle_claim A m held best margin re = (res, m')" and "rc = 0" and "emb' = emb\<lparr>em_manager := Some m'\<rparr>"
    and "out = (case res of None \<Rightarrow> [] | Some k \<Rightarrow> take (cap - 1) k)" and "held_ok en m cur held" and "best_ok m best"
proof -
  obtain res m' where op: "settle_claim A m held best margin re = (res, m')" by fastforce
  note r = auction_call [OF m fn cap call op [unfolded held best]]
  have "held_ok en m cur held" "best_ok m best"
    unfolding held best using held_goal_ok [OF inv cstr] scan_pool_ok [OF inv] by blast+
  then show ?thesis using that [OF op r] by blast
qed

text \<open>A claim that has been written survives the deletion of another one.\<close>

lemma written_survives:
  assumes "claim_written m k s w" and "claim_dropped held w (view m')" and "\<And>c hs. held = Some (c, hs) \<Longrightarrow> claim_hash c \<noteq> claim_hash k"
  obtains v where "\<not> v_tomb v" and "v_data v = claim_value (sm_node_id m) s" and "view m' (FLEECE_SHARED_OWNER_ID, claim_hash k) = Some v"
  using assms by (cases held) (auto simp: claim_written_def claim_dropped_def)

lemma held_differs:
  assumes hok: "held_ok en m cur held" and listed: "k \<in> set (fleece_state_manager_list_fields m FLEECE_SHARED_OWNER_ID FLEECE_JS_LIST_MAX)"
    and hash: "\<And>k c. k \<in> set (fleece_state_manager_list_fields m FLEECE_SHARED_OWNER_ID FLEECE_JS_LIST_MAX) \<Longrightarrow> cur = Some c \<Longrightarrow>
      k \<noteq> c \<Longrightarrow> claim_hash k \<noteq> claim_hash c"
    and ne: "effective_key cur \<noteq> Some k" and held: "held = Some (c, hs)"
  shows "claim_hash c \<noteq> claim_hash k"
proof -
  have "cur = Some c" "c \<noteq> []" using hok held by (simp_all add: held_ok_def)
  then show ?thesis using ne hash [OF listed, of c] by auto
qed

lemma settled_owner:
  assumes inv: "sm_inv m" and clk: "unat (sm_local_timestamp m) + 2 \<le> unat UINT64_MAX" and reads: "reads_claims en (sm_node_id m)"
    and hash: "\<And>k c. k \<in> set (fleece_state_manager_list_fields m FLEECE_SHARED_OWNER_ID FLEECE_JS_LIST_MAX) \<Longrightarrow> cur = Some c \<Longrightarrow>
      k \<noteq> c \<Longrightarrow> claim_hash k \<noteq> claim_hash c"
    and hok: "held_ok en m cur held" and bok: "best_ok m best"
    and best: "best = scan_pool A en score_fn m ttl prefix (effective_key cur) margin"
    and op: "settle_claim A m held best margin re = (Some k, m')"
  shows "claim_owner en m' k = Some (sm_node_id m)"
proof -
  note out = settle_outcome [OF inv clk hok bok op] and h = hok [unfolded held_ok_def, rule_format] and b = bok [unfolded best_ok_def, rule_format]
  have rewritten: "claim_owner en m' k = Some (sm_node_id m)" if "claim_written m k s (view m')" "\<not> is_nan s" "\<not> is_inf s" for s
    using that owner_written [OF reads that(2,3)] by (auto simp: claim_written_def)
  from out consider s raw n w where "best = Some (k, s, raw, n)" "claim_written m k s w" "claim_dropped held w (view m')"
    | s where "held = Some (k, s)" "view m' = view m \<or> claim_written m k s (view m')"
    by (cases held) auto
  then show ?thesis
  proof cases
    case 1
    have listed: "k \<in> set (fleece_state_manager_list_fields m 0 FLEECE_JS_LIST_MAX)" and ne: "effective_key cur \<noteq> Some k"
      using scan_pool_best(1) [OF inv best [symmetric, unfolded 1(1)]] by auto
    obtain v where "\<not> v_tomb v" "v_data v = claim_value (sm_node_id m) s" "view m' (0, claim_hash k) = Some v"
      by (rule written_survives [OF 1(2,3) held_differs [OF hok listed hash ne]])
    then show ?thesis using owner_written [OF reads] b [OF 1(1)] by blast
  next
    case 2
    then show ?thesis using h [OF 2(1)] rewritten [of s] owner_cong [of m' k m en] by auto
  qed
qed

text \<open>
  C23. The auction hands out a goal only with its claim.  If \<open>fleece_embedded_claim_best_goal\<close> returns a
  key, the claim field of that key is live afterwards and names this node as its owner; the
  store's invariant is kept.  This holds whether the claim was new, taken over, kept, re-asserted or
  the switch to another goal failed.  The engine has to read the JSON text of a claim, and the
  claim of the key held so far must not have the same hash as the claim of a listed key.
\<close>

theorem claim_best_goal_owned:
  assumes m: "em_manager emb = Some m" and inv: "sm_inv m" and clk: "unat (sm_local_timestamp m) + 2 \<le> unat UINT64_MAX"
    and cstr: "\<And>k. cur = Some k \<Longrightarrow> cstring k" and reads: "reads_claims en (sm_node_id m)"
    and hash: "\<And>k c. k \<in> set (fleece_state_manager_list_fields m FLEECE_SHARED_OWNER_ID FLEECE_JS_LIST_MAX) \<Longrightarrow> cur = Some c \<Longrightarrow>
      k \<noteq> c \<Longrightarrow> hash_name (claim_key k) \<noteq> hash_name (claim_key c)"
    and call: "fleece_embedded_claim_best_goal A en emb prefix cur margin re cap = (rc, out, emb')"
  shows "\<exists>m'. em_manager emb' = Some m' \<and> sm_inv m' \<and> sm_node_id m' = sm_node_id m \<and>
    (out \<noteq> [] \<longrightarrow> (\<exists>key. out = take (cap - 1) key \<and> claim_owner en m' key = Some (sm_node_id m)))"
proof (cases "prefix = None \<or> en_score_goal en = None \<or> cap = 0")
  case True
  then have "out = []" "emb' = emb"
    using call m by (auto simp: fleece_embedded_claim_best_goal_def split: option.splits if_splits)
  then show ?thesis using m inv by simp
next
  case False
  then obtain pre score_fn where pre: "prefix = Some pre" and fn: "en_score_goal en = Some score_fn" and cap: "cap \<noteq> 0" by auto
  define held best where "held = held_goal A en score_fn m cur"
    and "best = scan_pool A en score_fn m (em_peer_ttl_ticks emb) pre (effective_key cur) margin"
  obtain res m' where op: "settle_claim A m held best margin re = (res, m')" and r: "emb' = emb\<lparr>em_manager := Some m'\<rparr>"
    "out = (case res of None \<Rightarrow> [] | Some k \<Rightarrow> take (cap - 1) k)" and ok: "held_ok en m cur held" "best_ok m best"
    by (rule auction_settles [OF m inv clk cstr fn cap call [unfolded pre] held_def best_def])
  have "sm_inv m' \<and> sm_node_id m' = sm_node_id m" using settle_outcome [OF inv clk ok op] by blast
  moreover have "claim_owner en m' k = Some (sm_node_id m)" if "res = Some k" for k
    using settled_owner [OF inv clk reads hash ok best_def] op that by blast
  ultimately show ?thesis using r by (auto split: option.splits)
qed

lemma written_elsewhere: "claim_written m k s w \<Longrightarrow> p \<noteq> (FLEECE_SHARED_OWNER_ID, claim_hash k) \<Longrightarrow> w p = view m p"
  by (auto simp: claim_written_def)

text \<open>
  C24. A claim of another node is respected while there is memory.  Let every allocation succeed and the clock have room for two
  writes.  If an auction changes a claim field that was readable
  and named another node as its owner, then that node has been silent for longer than the
  limit, or this node scored the goal higher than the holder did by more than the margin.
\<close>

theorem claim_best_goal_respects:
  assumes m: "em_manager emb = Some m" and inv: "sm_inv m" and clk: "unat (sm_local_timestamp m) + 2 \<le> unat UINT64_MAX"
    and cstr: "\<And>k. cur = Some k \<Longrightarrow> cstring k" and fn: "en_score_goal en = Some score_fn" and alloc: "\<And>n. A n"
    and claim: "live_value m FLEECE_SHARED_OWNER_ID (hash_name (claim_key key)) = Some d" "parse_claim en d = Some (holder, holder_score)"
      "holder \<noteq> sm_node_id m"
    and call: "fleece_embedded_claim_best_goal A en emb prefix cur margin re cap = (rc, out, emb')" "em_manager emb' = Some m'"
    and changed: "view m' (FLEECE_SHARED_OWNER_ID, hash_name (claim_key key)) \<noteq> view m (FLEECE_SHARED_OWNER_ID, hash_name (claim_key key))"
  shows "fleece_state_manager_ticks_since_seen m holder > em_peer_ttl_ticks emb \<or>
    (\<exists>k data score. hash_name (claim_key k) = hash_name (claim_key key) \<and> live_value m FLEECE_SHARED_OWNER_ID (hash_name k) = Some data \<and>
      js_score_goal A en score_fn k data (of_nat (length data)) = Some score \<and> d_less (d_add holder_score margin) score)"
proof -
  obtain pre where pre: "prefix = Some pre" and cap: "cap \<noteq> 0"
    using call m changed by (auto simp: fleece_embedded_claim_best_goal_def split: option.splits if_splits)
  define held best where "held = held_goal A en score_fn m cur"
    and "best = scan_pool A en score_fn m (em_peer_ttl_ticks emb) pre (effective_key cur) margin"
  obtain res m1 where op: "settle_claim A m held best margin re = (res, m1)" and r: "emb' = emb\<lparr>em_manager := Some m1\<rparr>"
    and hok: "held_ok en m cur held" and bok: "best_ok m best"
    by (rule auction_settles [OF m inv clk cstr fn cap call(1) [unfolded pre] held_def best_def])
  have m1: "m' = m1" using r call(2) by simp
  have own: "claim_owner en m key = Some holder" using claim by (simp add: claim_owner_def)
  have not_held: "claim_hash k \<noteq> claim_hash key" if "held = Some (k, s)" for k s
  proof
    assume "claim_hash k = claim_hash key"
    then have "claim_owner en m k = Some holder" using own by (simp add: claim_owner_def)
    then show False using hok that claim(3) by (simp add: held_ok_def)
  qed
  have "\<exists>k s raw n. best = Some (k, s, raw, n) \<and> claim_hash k = claim_hash key"
  proof (rule ccontr)
    assume none: "\<not> ?thesis"
    have "view m1 (0, claim_hash key) = view m (0, claim_hash key)"
    proof -
      have w: "w (0, claim_hash key) = view m (0, claim_hash key)" if "claim_written m k s w" "claim_hash k \<noteq> claim_hash key" for k s w
        using written_elsewhere that by fastforce
      have dr: "new (0, claim_hash key) = old (0, claim_hash key)" if "claim_dropped held old new" for old new
        using that not_held by (auto simp: claim_dropped_def split: option.splits)
      show ?thesis
        using settle_outcome [OF inv clk hok bok op] none not_held w dr by (elim conjE disjE exE) metis+
    qed
    then show False using changed m1 by simp
  qed
  then obtain k s raw n where b: "best = Some (k, s, raw, n)" "claim_hash k = claim_hash key" by blast
  obtain data c where k: "live_value m 0 (hash_name k) = Some data"
    "js_score_goal A en score_fn k data (of_nat (length data)) = Some s"
    "read_claim A en m k = (c, raw, n)" "may_bid m (em_peer_ttl_ticks emb) margin s c"
    using scan_pool_best(1) [OF inv best_def [symmetric, unfolded b(1)]] by auto
  have "c = Some (holder, holder_score)" using read_claim_live [OF inv k(3)] b(2) claim alloc by auto
  then show ?thesis using k b(2) claim(3) by (auto simp: may_bid_def fleece_state_manager_get_node_id_def split: if_splits)
qed

section \<open>The choice\<close>

definition best_bid ::
    "allocator \<Rightarrow> 'v script_engine \<Rightarrow> ('v \<Rightarrow> 'v \<Rightarrow> 'v option) \<Rightarrow> FleeceStateManager \<Rightarrow> u64 \<Rightarrow> bytes \<Rightarrow> bytes option \<Rightarrow>
     double \<Rightarrow> bytes \<Rightarrow> double \<Rightarrow> bool" where
  "best_bid A en score_fn m ttl prefix cur margin k s \<longleftrightarrow>
     k \<in> set (fleece_state_manager_list_fields m FLEECE_SHARED_OWNER_ID FLEECE_JS_LIST_MAX) \<and>
     (\<exists>raw n. bid A en score_fn m ttl prefix cur margin k = Some (k, s, raw, n)) \<and>
     (\<forall>x\<in>set (fleece_state_manager_list_fields m FLEECE_SHARED_OWNER_ID FLEECE_JS_LIST_MAX). \<forall>c.
        bid A en score_fn m ttl prefix cur margin x = Some c \<longrightarrow> \<not> d_less s (candidate_score c))"

lemma scan_best_bid:
  assumes "sm_inv m" and "scan_pool A en score_fn m ttl prefix cur margin = Some (k, s, raw, n)"
  shows "best_bid A en score_fn m ttl prefix cur margin k s" and "k \<noteq> []"
proof -
  show "best_bid A en score_fn m ttl prefix cur margin k s"
    using scan_pool_best [OF assms] by (auto simp: best_bid_def)
  then show "k \<noteq> []" using listed_name(2) [OF assms(1)] unfolding best_bid_def by blast
qed

lemma settled_switch:
  assumes inv: "sm_inv m" and clk: "unat (sm_local_timestamp m) + 2 \<le> unat UINT64_MAX" and alloc: "\<And>n. A n"
    and room: "sm_field_count m < FIELD_CAPACITY"
    and hash: "\<And>k c. k \<in> set (fleece_state_manager_list_fields m FLEECE_SHARED_OWNER_ID FLEECE_JS_LIST_MAX) \<Longrightarrow> cur = Some c \<Longrightarrow>
      k \<noteq> c \<Longrightarrow> claim_hash k \<noteq> claim_hash c"
    and hok: "held_ok en m cur held" and bok: "best_ok m best"
    and best: "best = scan_pool A en score_fn m ttl prefix (effective_key cur) margin"
    and op: "settle_claim A m held best margin re = (res, m')" and switch: "should_switch held best margin"
  obtains k s where "res = Some k" and "best_bid A en score_fn m ttl prefix (effective_key cur) margin k s"
    and "live_value m' FLEECE_SHARED_OWNER_ID (claim_hash k) = Some (claim_value (sm_node_id m) s)"
    and "\<And>c hs. held = Some (c, hs) \<Longrightarrow> live_value m' FLEECE_SHARED_OWNER_ID (claim_hash c) = None"
proof -
  obtain k s raw n where b: "best = Some (k, s, raw, n)" using switch by (auto simp: should_switch_def split: option.splits)
  note B = scan_pool_best(1) [OF inv best [symmetric, unfolded b]]
  obtain claim where rd: "read_claim A en m k = (claim, raw, n)"
    and listed: "k \<in> set (fleece_state_manager_list_fields m FLEECE_SHARED_OWNER_ID FLEECE_JS_LIST_MAX)" and ne: "effective_key cur \<noteq> Some k"
    using B by auto
  have "raw \<noteq> None \<or> live_value m 0 (claim_hash k) = None" using read_claim_live [OF inv rd] alloc by auto
  then obtain w where w: "res = Some k" "claim_written m k s w" "claim_dropped held w (view m')"
    using settle_outcome [OF inv clk hok bok op] switch b alloc room by auto
  obtain v where "\<not> v_tomb v" "v_data v = claim_value (sm_node_id m) s" "view m' (0, claim_hash k) = Some v"
    by (rule written_survives [OF w(2,3) held_differs [OF hok listed hash ne]])
  then have "live_value m' 0 (claim_hash k) = Some (claim_value (sm_node_id m) s)" by (simp add: live_value_def)
  moreover have "live_value m' 0 (claim_hash c) = None" if "held = Some (c, hs)" for c hs
    using w(3) that by (auto simp: claim_dropped_def live_value_def)
  ultimately show ?thesis using that [OF w(1) scan_best_bid(1) [OF inv best [symmetric, unfolded b]]] by blast
qed

lemma settled_keep:
  assumes "sm_inv m" and "unat (sm_local_timestamp m) + 2 \<le> unat UINT64_MAX" and hok: "held_ok en m cur held" and "best_ok m best"
    and "settle_claim A m held best margin re = (res, m')" and keep: "\<not> should_switch held best margin"
  shows "held = None \<Longrightarrow> res = None \<and> m' = m"
    and "held = Some (c, hs) \<Longrightarrow> res = Some c \<and> cur = Some c \<and> live_value m' FLEECE_SHARED_OWNER_ID (claim_hash c) \<noteq> None"
proof -
  note out = settle_outcome [OF assms(1-5)]
  show "held = None \<Longrightarrow> res = None \<and> m' = m" using out keep by auto
  assume h: "held = Some (c, hs)"
  have c: "cur = Some c" "live_value m 0 (claim_hash c) \<noteq> None" using hok h claim_owner_live by (auto simp: held_ok_def)
  have "res = Some c" "view m' = view m \<or> claim_written m c hs (view m')" using out h keep by auto
  then show "res = Some c \<and> cur = Some c \<and> live_value m' FLEECE_SHARED_OWNER_ID (claim_hash c) \<noteq> None"
    using c by (auto simp: claim_written_def live_value_def)
qed

text \<open>The candidate that decides about a switch is the best one.\<close>

lemma should_switch_iff:
  assumes inv: "sm_inv m" and best: "best = scan_pool A en score_fn m ttl prefix cur margin"
  shows "should_switch held best margin \<longleftrightarrow>
    (\<exists>x\<in>set (fleece_state_manager_list_fields m FLEECE_SHARED_OWNER_ID FLEECE_JS_LIST_MAX). \<exists>c.
       bid A en score_fn m ttl prefix cur margin x = Some c \<and>
       (case held of None \<Rightarrow> True | Some (_, hs) \<Rightarrow> d_less (d_add hs margin) (candidate_score c)))"
proof (cases best)
  case None
  then show ?thesis using scan_pool_None [of A en score_fn m ttl prefix cur margin] best by (auto simp: should_switch_def)
next
  case (Some b)
  obtain k s raw n where b: "b = (k, s, raw, n)" by (cases b)
  note B = scan_best_bid [OF inv best [symmetric, unfolded Some b]]
  have nan: "\<not> is_nan s" using B(1) bid_score by (fastforce simp: best_bid_def)
  have up: "d_less y s" if "d_less y (candidate_score c)" "\<not> d_less s (candidate_score c)" for y c
    using that nan by (auto simp: d_less_def)
  let ?names = "set (fleece_state_manager_list_fields m FLEECE_SHARED_OWNER_ID FLEECE_JS_LIST_MAX)"
    and ?bid = "bid A en score_fn m ttl prefix cur margin"
  obtain raw' n' where k: "k \<in> ?names" "?bid k = Some (k, s, raw', n')" using B(1) by (auto simp: best_bid_def)
  have sw: "should_switch held best margin \<longleftrightarrow> (case held of None \<Rightarrow> True | Some (_, hs) \<Rightarrow> d_less (d_add hs margin) s)"
    using B(2) by (simp add: should_switch_def Some b)
  show ?thesis
  proof (cases held)
    case None
    then show ?thesis using k unfolding sw by (simp only: option.case) blast
  next
    case held: (Some h)
    obtain c hs where h: "h = (c, hs)" by (cases h)
    have "d_less (d_add hs margin) s" if "x \<in> ?names" "?bid x = Some c" "d_less (d_add hs margin) (candidate_score c)" for x c
      using up [OF that(3)] B(1) that(1,2) unfolding best_bid_def by blast
    moreover have "candidate_score (k, s, raw', n') = s" by simp
    ultimately have "d_less (d_add hs margin) s \<longleftrightarrow>
        (\<exists>x\<in>?names. \<exists>c. ?bid x = Some c \<and> d_less (d_add hs margin) (candidate_score c))"
      using k by metis
    then show ?thesis unfolding sw by (simp add: held h)
  qed
qed

text \<open>
  C25. The auction chooses the best goal it may have.  With memory and a free slot: a node that holds
  no goal gets one as soon as some goal of the pool is open to it, and the one it gets has no
  better-scoring rival among the goals open to it; a node that holds a goal keeps it unless an open
  goal scores more than the margin above it, and then gets the best one and gives up its old claim.
  The claim of the goal it switches to is live with its identifier and score.
\<close>

theorem claim_best_goal_choice:
  fixes emb :: "('f, 'u) FleeceEmbedded" and en :: "'v script_engine"
  assumes m: "em_manager emb = Some m" and inv: "sm_inv m" and clk: "unat (sm_local_timestamp m) + 2 \<le> unat UINT64_MAX"
    and cstr: "\<And>k. cur = Some k \<Longrightarrow> cstring k \<and> k \<noteq> []" and fn: "en_score_goal en = Some score_fn"
    and alloc: "\<And>n. A n" and room: "sm_field_count m < FIELD_CAPACITY" and cap: "cap \<noteq> 0"
    and hash: "\<And>k c. k \<in> set (fleece_state_manager_list_fields m FLEECE_SHARED_OWNER_ID FLEECE_JS_LIST_MAX) \<Longrightarrow> cur = Some c \<Longrightarrow>
      k \<noteq> c \<Longrightarrow> hash_name (claim_key k) \<noteq> hash_name (claim_key c)"
    and call: "fleece_embedded_claim_best_goal A en emb (Some prefix) cur margin re cap = (rc, out, emb')"
  defines "names \<equiv> set (fleece_state_manager_list_fields m FLEECE_SHARED_OWNER_ID FLEECE_JS_LIST_MAX)"
    and "open_bid \<equiv> bid A en score_fn m (em_peer_ttl_ticks emb) prefix cur margin"
    and "chosen \<equiv> best_bid A en score_fn m (em_peer_ttl_ticks emb) prefix cur margin"
  shows "\<exists>m'. emb' = emb\<lparr>em_manager := Some m'\<rparr> \<and> rc = 0 \<and>
    (case held_score A en score_fn m cur of
       None \<Rightarrow>
         if \<exists>x\<in>names. open_bid x \<noteq> None
         then \<exists>k s. chosen k s \<and> out = take (cap - 1) k \<and>
           live_value m' FLEECE_SHARED_OWNER_ID (hash_name (claim_key k)) = Some (claim_value (sm_node_id m) s)
         else out = [] \<and> m' = m
     | Some hs \<Rightarrow>
         if \<exists>x\<in>names. \<exists>c. open_bid x = Some c \<and> d_less (d_add hs margin) (candidate_score c)
         then \<exists>k s. chosen k s \<and> out = take (cap - 1) k \<and>
           live_value m' FLEECE_SHARED_OWNER_ID (hash_name (claim_key k)) = Some (claim_value (sm_node_id m) s) \<and>
           live_value m' FLEECE_SHARED_OWNER_ID (hash_name (claim_key (the cur))) = None
         else out = take (cap - 1) (the cur) \<and> live_value m' FLEECE_SHARED_OWNER_ID (hash_name (claim_key (the cur))) \<noteq> None)"
proof -
  have eff: "effective_key cur = cur" using cstr by auto
  define held best where "held = held_goal A en score_fn m cur"
    and "best = scan_pool A en score_fn m (em_peer_ttl_ticks emb) prefix (effective_key cur) margin"
  obtain res m' where op: "settle_claim A m held best margin re = (res, m')" and r: "rc = 0" "emb' = emb\<lparr>em_manager := Some m'\<rparr>"
    "out = (case res of None \<Rightarrow> [] | Some k \<Rightarrow> take (cap - 1) k)" and ok: "held_ok en m cur held" "best_ok m best"
    by (rule auction_settles [OF m inv clk _ fn cap call held_def best_def]) (use cstr in blast)+
  have sw: "should_switch held best margin \<longleftrightarrow> (\<exists>x\<in>names. \<exists>c. open_bid x = Some c \<and>
      (case held of None \<Rightarrow> True | Some (_, hs) \<Rightarrow> d_less (d_add hs margin) (candidate_score c)))"
    unfolding names_def open_bid_def by (rule should_switch_iff [OF inv best_def [unfolded eff]])
  have win: "\<exists>k s. chosen k s \<and> out = take (cap - 1) k \<and> live_value m' 0 (claim_hash k) = Some (claim_value (sm_node_id m) s) \<and>
      (\<forall>c hs. held = Some (c, hs) \<longrightarrow> live_value m' 0 (claim_hash c) = None)" if switch: "should_switch held best margin"
    by (rule settled_switch [OF inv clk alloc room hash ok best_def op switch]) (auto simp: chosen_def eff r(3))
  note keep = settled_keep [OF inv clk ok op]
  have held: "held = map_option (\<lambda>s. (the cur, s)) (held_score A en score_fn m cur)" by (simp only: held_def held_goal_def eff)
  show ?thesis
  proof (cases "held_score A en score_fn m cur")
    case None
    then have h: "held = None" by (simp add: held)
    show ?thesis using win keep(1) [OF _ h] sw r None h by (intro exI [of _ m']) auto
  next
    case (Some hs)
    then obtain c where c: "cur = Some c" using held_facts(1) [OF inv] by blast
    then have h: "held = Some (c, hs)" using Some by (simp add: held)
    show ?thesis using win keep(2) [OF _ h] sw r Some h c by (intro exI [of _ m']) auto
  qed
qed

section \<open>Witnesses\<close>

lemma demo_reads: "reads_claims demo_engine self"
proof -
  have "take 16 (drop 6 (claim_value self s)) = hex16 self" for s
    by (simp add: claim_value_def lit_def)
  moreover have "claim_value self s \<noteq> []" for s by (simp add: claim_value_def lit_def)
  moreover have "lit ''b'' \<noteq> lit ''o''" by code_simp
  ultimately show ?thesis by (simp add: reads_claims_def demo_engine_def)
qed

text \<open>A pool with one goal, and the same pool with a claim of node 2.\<close>

definition demo_pool :: FleeceStateManager where
  "demo_pool = run_op yes (SetShared [103, 49] [49] 1) (demo_node 1)"

definition demo_claimed :: FleeceStateManager where
  "demo_claimed = run_op yes (SetShared (claim_key [103, 49]) (claim_value 2 d_one) 30) demo_pool"

lemma demo_pool_inv: "sm_inv demo_pool" and demo_claimed_inv: "sm_inv demo_claimed"
proof -
  have "op_cstring (SetShared [103, 49] [49] 1)" "op_cstring (SetShared (claim_key [103, 49]) (claim_value 2 d_one) 30)"
    "sm_local_timestamp (demo_node 1) \<noteq> UINT64_MAX" "sm_local_timestamp demo_pool \<noteq> UINT64_MAX" by code_simp+
  then show "sm_inv demo_pool" "sm_inv demo_claimed"
    using run_op_change [OF demo_node_inv, of 1 "SetShared [103, 49] [49] 1" yes]
      run_op_change [of demo_pool "SetShared (claim_key [103, 49]) (claim_value 2 d_one) 30" yes]
    by (auto simp: script_change_def demo_pool_def demo_claimed_def)
qed

abbreviation demo_auction :: "FleeceStateManager \<Rightarrow> int \<times> bytes \<times> (unit, unit) FleeceEmbedded" where
  "demo_auction m \<equiv> fleece_embedded_claim_best_goal yes demo_engine (demo_emb m) (Some [103]) None d_zero False 64"

lemma demo_auction_room: "unat (sm_local_timestamp m) \<le> 100 \<Longrightarrow> unat (sm_local_timestamp m) + 2 \<le> unat UINT64_MAX"
  by (simp add: unat_clock_max)

lemma demo_clocks: "unat (sm_local_timestamp demo_pool) \<le> 100" "unat (sm_local_timestamp demo_claimed) \<le> 100"
  by code_simp+

theorem claim_best_goal_owned_witness:
  "\<exists>m' key. em_manager (snd (snd (demo_auction demo_pool))) = Some m' \<and> claim_owner demo_engine m' key = Some 1"
proof -
  obtain rc out emb' where call: "demo_auction demo_pool = (rc, out, emb')" by (metis prod_cases3)
  have "fst (snd (demo_auction demo_pool)) \<noteq> []" "sm_node_id demo_pool = 1" by code_simp+
  then show ?thesis
    using claim_best_goal_owned [OF demo_emb_manager(1) demo_pool_inv demo_auction_room [OF demo_clocks(1)] _ demo_reads _ call] call
    by force
qed

theorem claim_best_goal_respects_witness:
  "fleece_state_manager_ticks_since_seen demo_claimed 2 > 50 \<or>
    (\<exists>k data score. hash_name (claim_key k) = hash_name (claim_key [103, 49]) \<and>
      live_value demo_claimed FLEECE_SHARED_OWNER_ID (hash_name k) = Some data \<and>
      js_score_goal yes demo_engine (\<lambda>k v. Some v) k data (of_nat (length data)) = Some score \<and> d_less (d_add d_one d_zero) score)"
proof -
  obtain rc out emb' where call: "demo_auction demo_claimed = (rc, out, emb')" by (metis prod_cases3)
  define m' where "m' = the (em_manager (snd (snd (demo_auction demo_claimed))))"
  have "em_manager (snd (snd (demo_auction demo_claimed))) \<noteq> None" by code_simp
  then have m': "em_manager emb' = Some m'" by (auto simp: m'_def call)
  have fn: "en_score_goal demo_engine = Some (\<lambda>k v. Some v)" by (simp add: demo_engine_def)
  have claim: "live_value demo_claimed 0 (claim_hash [103, 49]) = Some (claim_value 2 d_one)"
    "parse_claim demo_engine (claim_value 2 d_one) = Some (2, d_one)" "2 \<noteq> sm_node_id demo_claimed" by code_simp+
  have "view (the (em_manager (snd (snd (demo_auction demo_claimed))))) (0, claim_hash [103, 49]) \<noteq> view demo_claimed (0, claim_hash [103, 49])"
    by code_simp
  then have changed: "view m' (0, claim_hash [103, 49]) \<noteq> view demo_claimed (0, claim_hash [103, 49])" by (simp add: m'_def)
  show ?thesis
    using claim_best_goal_respects [OF demo_emb_manager(1) demo_claimed_inv demo_auction_room [OF demo_clocks(2)] _ fn TrueI claim call m' changed]
    by simp
qed

theorem claim_best_goal_choice_witness:
  "\<exists>m' k s. em_manager (snd (snd (demo_auction demo_pool))) = Some m' \<and>
     live_value m' FLEECE_SHARED_OWNER_ID (hash_name (claim_key k)) = Some (claim_value 1 s)"
proof -
  obtain rc out emb' where call: "demo_auction demo_pool = (rc, out, emb')" by (metis prod_cases3)
  have fn: "en_score_goal demo_engine = Some (\<lambda>k v. Some v)" by (simp add: demo_engine_def)
  have c: "sm_field_count demo_pool < FIELD_CAPACITY" "sm_node_id demo_pool = 1" by code_simp+
  have bids: "\<exists>x\<in>set (fleece_state_manager_list_fields demo_pool 0 128). bid yes demo_engine (\<lambda>k v. Some v) demo_pool 50 [103] None d_zero x \<noteq> None"
    by code_simp
  have held: "held_score yes demo_engine (\<lambda>k v. Some v) demo_pool None = None" by (simp add: held_score_def)
  have "\<exists>m'. emb' = (demo_emb demo_pool)\<lparr>em_manager := Some m'\<rparr> \<and>
      (\<exists>k s. live_value m' 0 (claim_hash k) = Some (claim_value (sm_node_id demo_pool) s))"
    using claim_best_goal_choice [OF demo_emb_manager(1) demo_pool_inv demo_auction_room [OF demo_clocks(1)] _ fn TrueI c(1) _ _ call,
        unfolded held option.case demo_emb_manager(2) if_P [OF bids]] by fastforce
  then obtain m' k s where "emb' = (demo_emb demo_pool)\<lparr>em_manager := Some m'\<rparr>"
    "live_value m' 0 (claim_hash k) = Some (claim_value 1 s)" using c(2) by auto
  then show ?thesis using call by (intro exI [of _ m'] exI [of _ k] exI [of _ s]) simp
qed

section \<open>Two ways to lose a claim\<close>

text \<open>A key of 60 characters: its claim is stored and sent under a name cut to 63 characters.\<close>

definition long_key :: bytes where
  "long_key = replicate 60 103"

definition demo_long :: FleeceStateManager where
  "demo_long = snd (cas_claim yes (demo_node 1) long_key 1 d_one None 0)"

definition demo_long_peer :: FleeceStateManager where
  "demo_long_peer = ir_manager (import_impl (\<lambda>_. yes) (demo_node 2) (fst (the (fleece_state_manager_export_shared yes demo_long))))"

text \<open>
  Claims of long keys do not reach other nodes.  Node 1 claims a goal with a key of 60 characters
  and reads its own claim back; node 2 imports the full shared stream of node 1 and stores one field
  from it, but finds no claim on that goal, so both may work on it.
\<close>

theorem claim_long_key_lost:
  "fst (read_claim yes demo_engine demo_long long_key) = Some (1, d_one) \<and>
   sm_field_count demo_long_peer = 1 \<and>
   read_claim yes demo_engine demo_long_peer long_key = (None, None, 0)"
proof -
  have "fst (read_claim yes demo_engine demo_long long_key) = Some (1, d_one)" by code_simp
  moreover have "sm_field_count demo_long_peer = 1" by code_simp
  moreover have "read_claim yes demo_engine demo_long_peer long_key = (None, None, 0)" by code_simp
  ultimately show ?thesis by blast
qed

text \<open>
  When the scratch buffer for parsing the claim of a live peer cannot be allocated, the goal
  counts as unclaimed, although the bytes of the claim are at hand for the comparison: the claim is
  replaced, whatever the scores.
\<close>

theorem claim_oom_takeover:
  "let A = (\<lambda>n. n \<noteq> 31); m = touch_peer demo_claimed 2;
       (rc, out, emb') = fleece_embedded_claim_best_goal A demo_engine (demo_emb m) (Some [103]) None d_1e300 False 64
   in fleece_state_manager_ticks_since_seen m 2 = 0 \<and> claim_owner demo_engine m [103, 49] = Some 2 \<and>
      out = [103, 49] \<and> claim_owner demo_engine (the (em_manager emb')) [103, 49] = Some 1"
  by code_simp

end
