(* ===== verification/Goap_Js_Claims.thy ===== *)
theory Goap_Js_Claims
  imports Goap_Js Auction_Claims Goap_Plan_Claims
begin

text \<open>
  The evaluation bridge: the cache of compiled functions is invisible (locale \<open>memo\<close>), committing a
  snapshot changes nothing, and a commit writes exactly the fields that differ from the store.
\<close>

section \<open>The cache\<close>











section \<open>Evaluation without a cache\<close>



definition direct_goal ::
    "allocator \<Rightarrow> ('v, 'f, 'u) goap_engine \<Rightarrow> ('f, 'u) FleeceEmbedded \<Rightarrow> bytes option \<Rightarrow> FleeceGoapBlackboard \<Rightarrow> bool" where
  "direct_goal A en emb src bb =
     (let fn = compile_source A en src in
      \<not> fn_undefined en fn \<and> fn_callable en fn \<and>
      (case ge_Call en emb (the fn) [goap_bb_to_js A en bb] of (None, _) \<Rightarrow> False | (Some result, _) \<Rightarrow> ge_ToBool en result))"













section \<open>Snapshots and commits\<close>

lemma bb_store_fields:
  assumes "i < length (bb_fields bb)" and "bb_store A bb i data sz sh = (0, bb')"
  shows "bb_fields bb' = (bb_fields bb)[i := (bb_fields bb ! i)\<lparr>gf_data := Some (take (unat sz) data), gf_size := sz, gf_is_shared := sh\<rparr>]"
  using assms by (auto simp: bb_store_def split: if_splits)

text \<open>After a successful write, every field is the one written or was there before.\<close>

lemma bb_set_fields:
  assumes set: "fleece_goap_bb_set A bb (Some n) (Some d) sz sh = (0, bb')" and f: "f \<in> set (bb_fields bb')"
  shows "f \<in> set (bb_fields bb) \<or> f = \<lparr>gf_name = n, gf_data = Some (take (unat sz) d), gf_size = sz, gf_is_shared = sh\<rparr>"
proof (cases "fleece_goap_bb_index bb n")
  case (Some i)
  then have i: "i < length (bb_fields bb)" "gf_name (bb_fields bb ! i) = n"
    by (auto simp: fleece_goap_bb_index_def dest: index_of_SomeD)
  have "bb_fields bb' = (bb_fields bb)[i := (bb_fields bb ! i)\<lparr>gf_data := Some (take (unat sz) d), gf_size := sz, gf_is_shared := sh\<rparr>]"
    using set Some by (intro bb_store_fields [OF i(1), of A]) (auto simp: fleece_goap_bb_set_def split: if_splits)
  then have "f \<in> set (bb_fields bb) \<or>
      f = (bb_fields bb ! i)\<lparr>gf_data := Some (take (unat sz) d), gf_size := sz, gf_is_shared := sh\<rparr>"
    using f set_update_subset_insert [of "bb_fields bb" i] by auto
  then show ?thesis using i(2) by (cases "bb_fields bb ! i") auto
next
  case None
  then show ?thesis
    using set f by (auto simp: fleece_goap_bb_set_def bb_store_def copy_str_def Let_def split: if_splits option.splits)
qed

text \<open>A field as the store has it: a read of it that gets its memory returns the bytes of the field.\<close>

definition field_stored :: "FleeceStateManager \<Rightarrow> FleeceGoapField \<Rightarrow> bool" where
  "field_stored m f \<longleftrightarrow> (\<forall>A. A (unat (gf_size f)) \<longrightarrow> field_unchanged A m f)"

lemma read_again:
  assumes "fleece_state_manager_get_named A m ow (Some n) = Some (data, sz)"
  shows "B (unat sz) \<Longrightarrow> fleece_state_manager_get_named B m ow (Some n) = Some (data, sz)"
  using assms by (auto simp: fleece_state_manager_get_named_def copy_out_def Let_def split: option.splits if_splits)

lemma load_fields_stored:
  "load_fields As m ow sh names bb = (0, bb') \<Longrightarrow> ow = (if sh then FLEECE_SHARED_OWNER_ID else fleece_state_manager_get_node_id m) \<Longrightarrow>
   \<forall>f\<in>set (bb_fields bb). field_stored m f \<Longrightarrow> \<forall>f\<in>set (bb_fields bb'). field_stored m f"
proof (induction names arbitrary: bb As)
  case (Cons n names)
  show ?case
  proof (cases "fleece_state_manager_get_named (As 0) m ow (Some n)")
    case (Some r)
    obtain data sz where r: "r = (data, sz)" by fastforce
    obtain bb1 where set: "fleece_goap_bb_set (As 1) bb (Some n) (Some data) sz sh = (0, bb1)"
      and load: "load_fields (\<lambda>k. As (k + 2)) m ow sh names bb1 = (0, bb')"
      using Cons.prems(1) Some r by (auto split: prod.splits if_splits)
    have "field_stored m \<lparr>gf_name = n, gf_data = Some (take (unat sz) data), gf_size = sz, gf_is_shared = sh\<rparr>"
      using read_again [OF Some [unfolded r]] Cons.prems(2) by (simp add: field_stored_def field_unchanged_def field_owner_def gf_bytes_def)
    then show ?thesis using Cons.IH [OF load Cons.prems(2)] bb_set_fields [OF set] Cons.prems(3) by metis
  next
    case None
    then show ?thesis using Cons.IH [OF _ Cons.prems(2,3)] Cons.prems(1) by simp
  qed
qed simp

lemma commit_stored:
  "\<forall>f\<in>set fs. field_stored m f \<Longrightarrow> \<forall>i<length fs. As (2 * i) (unat (gf_size (fs ! i))) \<Longrightarrow> commit_fields As fs m = (0, m)"
proof (induction fs arbitrary: As)
  case (Cons f fs)
  have "field_unchanged (As 0) m f" using Cons.prems(1) Cons.prems(2) [rule_format, of 0] by (simp add: field_stored_def)
  moreover have "\<forall>i<length fs. As (2 * i + 2) (unat (gf_size (fs ! i)))"
  proof (intro allI impI)
    fix i assume "i < length fs"
    then show "As (2 * i + 2) (unat (gf_size (fs ! i)))" using Cons.prems(2) [rule_format, of "Suc i"] by simp
  qed
  ultimately show ?case using Cons.IH [of "\<lambda>k. As (k + 2)"] Cons.prems(1) by simp
qed simp

text \<open>
  C33. Committing a snapshot changes nothing.  A blackboard loaded from the store and handed back
  unmodified leaves the store exactly as it is: no field is written, no time stamp is renewed and the
  clock does not advance.  It does not matter which names the two namespaces share, nor which reads failed while the snapshot was
  taken, as long as it was; the commit must get the memory for the copies it compares with.
\<close>

theorem snapshot_commit_identity:
  assumes snapshot: "fleece_goap_js_bb_from_state As emb bb_empty = (0, bb)"
    and reads: "\<forall>i<length (bb_fields bb). Bs (2 * i) (unat (gf_size (bb_fields bb ! i)))"
  shows "fleece_goap_js_bb_commit Bs emb bb = (0, emb)"
proof -
  obtain m where m: "em_manager emb = Some m"
    using snapshot by (cases "em_manager emb") (auto simp: fleece_goap_js_bb_from_state_def)
  obtain bb1 where own: "load_fields As m (fleece_state_manager_get_node_id m) False
        (fleece_state_manager_list_fields m (fleece_state_manager_get_node_id m) 64) bb_empty = (0, bb1)"
    and shared: "load_fields (\<lambda>k. As (k + 128)) m FLEECE_SHARED_OWNER_ID True
        (fleece_state_manager_list_fields m FLEECE_SHARED_OWNER_ID 64) bb1 = (0, bb)"
    using snapshot by (auto simp: fleece_goap_js_bb_from_state_def m Let_def split: prod.splits if_splits)
  have "\<forall>f\<in>set (bb_fields bb1). field_stored m f"
    by (rule load_fields_stored [OF own]) (simp_all add: bb_empty_def)
  then have "\<forall>f\<in>set (bb_fields bb). field_stored m f"
    by (intro load_fields_stored [OF shared]) simp_all
  then show ?thesis using m reads by (simp add: fleece_goap_js_bb_commit_def commit_stored)
qed

text \<open>The write of one field, to either namespace.\<close>

definition write_field :: "allocator \<Rightarrow> FleeceGoapField \<Rightarrow> FleeceStateManager \<Rightarrow> int \<times> FleeceStateManager" where
  "write_field A f m =
     (if gf_is_shared f then fleece_state_manager_set_shared A m (Some (gf_name f)) (gf_data f) (gf_size f)
      else fleece_state_manager_set_named A m (Some (gf_name f)) (gf_data f) (gf_size f))"

definition field_key :: "FleeceStateManager \<Rightarrow> FleeceGoapField \<Rightarrow> u64 \<times> u32" where
  "field_key m f = (field_owner m f, hash_name (gf_name f))"

definition field_writable :: "FleeceGoapField \<Rightarrow> bool" where
  "field_writable f \<longleftrightarrow> gf_name f \<noteq> [] \<and> cstring (gf_name f) \<and>
     (\<exists>d. gf_data f = Some d \<and> d \<noteq> [] \<and> length d = unat (gf_size f))"

lemma field_writableD:
  assumes "field_writable f"
  shows "gf_data f = Some (gf_bytes f)" and "unat (gf_size f) = length (gf_bytes f)" and "gf_size f \<noteq> 0"
    and "gf_name f \<noteq> []" and "cstring (gf_name f)" and "gf_bytes f \<noteq> []"
  using assms by (auto simp: field_writable_def gf_bytes_def)

lemma upsert_count: "upsert_field A m key ow og name data sz ts tomb = (rc, m') \<Longrightarrow> sm_field_count m' \<le> sm_field_count m + 1"
  by (auto simp: upsert_field_def Let_def write_slot_def split: if_splits option.splits)

lemma write_field_effect:
  assumes inv: "sm_inv m" and clk: "sm_local_timestamp m \<noteq> UINT64_MAX" and f: "field_writable f"
    and up: "write_field A f m = (rc, m')"
  shows "sm_inv m'" and "sm_node_id m' = sm_node_id m" and "sm_local_timestamp m' = sm_local_timestamp m + 1"
    and "sm_field_count m' \<le> sm_field_count m + 1" and "rc = 0 \<or> rc = -1"
    and "p \<noteq> field_key m f \<or> rc \<noteq> 0 \<Longrightarrow> view m' p = view m p"
    and "rc = 0 \<Longrightarrow> live_value m' (field_owner m f) (hash_name (gf_name f)) = Some (gf_bytes f)"
    and "\<forall>k. A k \<Longrightarrow> sm_field_count m < FIELD_CAPACITY \<Longrightarrow> rc = 0"
proof -
  define m0 where "m0 = (if gf_is_shared f then m\<lparr>sm_last_write_tick := sm_current_tick m\<rparr> else m)"
  have m0: "sm_inv m0" "sm_local_timestamp m0 \<noteq> UINT64_MAX" "view m0 = view m" "sm_node_id m0 = sm_node_id m"
    "sm_field_count m0 = sm_field_count m" "sm_local_timestamp m0 = sm_local_timestamp m"
    using inv clk by (auto simp: m0_def)
  note D = field_writableD [OF f]
  have w: "upsert_field A (bump_clock m0) (hash_name (gf_name f)) (field_owner m f) (sm_node_id m0) (Some (gf_name f))
      (Some (gf_bytes f)) (gf_size f) (sm_local_timestamp m0 + 1) False = (rc, m')"
    using up D by (auto simp: write_field_def m0_def field_owner_def fleece_state_manager_set_shared_def
        fleece_state_manager_set_named_def fleece_state_manager_get_node_id_def Let_def split: if_splits)
  have pay: "valid_payload (Some (gf_bytes f)) (gf_size f) False" using D by (simp add: valid_payload_def word_neq_0_conv)
  note W = local_write [OF m0(1,2) pay _ w]
  have nm: "\<And>t. Some (gf_name f) = Some t \<Longrightarrow> cstring t" using D by simp
  show "sm_inv m'" using W(1) nm by blast
  show "sm_node_id m' = sm_node_id m" "sm_local_timestamp m' = sm_local_timestamp m + 1"
    using upsert_frame [OF w] m0 by simp_all
  show "sm_field_count m' \<le> sm_field_count m + 1" using upsert_count [OF w] m0 by simp
  show rc: "rc = 0 \<or> rc = -1" using W(3) nm by blast
  show "view m' p = view m p" if "p \<noteq> field_key m f \<or> rc \<noteq> 0"
    using W(2,3) nm that m0(3) by (cases "rc = 0") (auto simp: field_key_def)
  show "live_value m' (field_owner m f) (hash_name (gf_name f)) = Some (gf_bytes f)" if "rc = 0"
    using W(2) nm that D by (simp add: live_value_def)
  show "rc = 0" if "\<forall>k. A k" "sm_field_count m < FIELD_CAPACITY"
    using upsert_ok_iff [OF bump_clock_inv [OF m0(1,2)], of A "hash_name (gf_name f)" "field_owner m f" "sm_node_id m0" "Some (gf_name f)"
        "Some (gf_bytes f)" "gf_size f" "sm_local_timestamp m0 + 1" False] that m0 w by simp
qed

lemma field_owner_cong: "sm_node_id m' = sm_node_id m \<Longrightarrow> field_owner m' f = field_owner m f"
  by (simp add: field_owner_def fleece_state_manager_get_node_id_def)

lemma field_key_cong: "sm_node_id m' = sm_node_id m \<Longrightarrow> field_key m' f = field_key m f"
  by (simp add: field_key_def field_owner_cong [of m' m])

text \<open>A field whose bytes the store does not hold, or cannot be compared with for want of memory, is written.\<close>

lemma field_unchanged_live:
  assumes inv: "sm_inv m" and f: "field_writable f"
  shows "field_unchanged A m f \<longleftrightarrow>
    live_value m (field_owner m f) (hash_name (gf_name f)) = Some (gf_bytes f) \<and> A (length (gf_bytes f))"
proof (cases "live_value m (field_owner m f) (hash_name (gf_name f))")
  case (Some d)
  note D = field_writableD [OF f] and L = live_value_size(2) [OF inv Some]
  have sz: "(of_nat (length d) = gf_size f) = (length d = length (gf_bytes f))"
    unfolding word_unat_eq_iff [of _ "gf_size f"] D(2) unat_of_nat_32 [OF L] by (rule refl)
  have "field_unchanged A m f \<longleftrightarrow> A (length d) \<and> of_nat (length d) = gf_size f \<and> (gf_size f = 0 \<or> take (unat (gf_size f)) d = gf_bytes f)"
    unfolding field_unchanged_def get_named_live [OF inv] Some by simp
  also have "\<dots> \<longleftrightarrow> A (length d) \<and> length d = length (gf_bytes f) \<and> take (length (gf_bytes f)) d = gf_bytes f"
    unfolding sz D(2) using D(3) by (intro conj_cong refl) blast
  also have "\<dots> \<longleftrightarrow> d = gf_bytes f \<and> A (length (gf_bytes f))" by (auto simp only: take_all)
  finally show ?thesis unfolding Some by simp
qed (simp add: field_unchanged_def get_named_live [OF inv])

text \<open>The fields a commit writes, given the allocators of its reads.\<close>

primrec rewritten :: "(nat \<Rightarrow> allocator) \<Rightarrow> FleeceStateManager \<Rightarrow> FleeceGoapField list \<Rightarrow> FleeceGoapField list" where
  "rewritten As m [] = []"
| "rewritten As m (f # fs) =
     (if live_value m (field_owner m f) (hash_name (gf_name f)) = Some (gf_bytes f) \<and> As 0 (length (gf_bytes f))
      then [] else [f]) @ rewritten (\<lambda>k. As (k + 2)) m fs"

lemma rewritten_subset: "set (rewritten As m fs) \<subseteq> set fs"
  by (induction fs arbitrary: As) auto

lemma rewritten_cong:
  assumes "sm_node_id m' = sm_node_id m" and "\<forall>f\<in>set fs. view m' (field_key m f) = view m (field_key m f)"
  shows "rewritten As m' fs = rewritten As m fs"
  using assms(2)
proof (induction fs arbitrary: As)
  case (Cons f fs)
  have "live_value m' (field_owner m' f) (hash_name (gf_name f)) = live_value m (field_owner m f) (hash_name (gf_name f))"
    using Cons.prems by (simp add: live_value_def field_key_def field_owner_cong [OF assms(1)])
  then show ?case using Cons by simp
qed simp

lemma rewritten_indices:
  "rewritten As m fs = map (\<lambda>i. fs ! i) (filter (\<lambda>i.
     \<not> (live_value m (field_owner m (fs ! i)) (hash_name (gf_name (fs ! i))) = Some (gf_bytes (fs ! i)) \<and>
        As (2 * i) (length (gf_bytes (fs ! i))))) [0..<length fs])"
proof (induction fs arbitrary: As)
  case (Cons f fs)
  have "[0..<length (f # fs)] = 0 # map Suc [0..<length fs]" by (simp add: upt_conv_Cons map_Suc_upt del: upt_Suc)
  then show ?case using Cons.IH [of "\<lambda>k. As (k + 2)"] by (simp add: filter_map comp_def)
qed simp

text \<open>What a commit of writable fields with different keys does.\<close>

definition commit_outcome :: "(nat \<Rightarrow> allocator) \<Rightarrow> FleeceGoapField list \<Rightarrow> FleeceStateManager \<Rightarrow> int \<Rightarrow> FleeceStateManager \<Rightarrow> bool" where
  "commit_outcome As fs m rc m' \<longleftrightarrow>
     sm_inv m' \<and> sm_node_id m' = sm_node_id m \<and> (rc = 0 \<or> rc = -1) \<and>
     (\<forall>p. p \<notin> field_key m ` set (rewritten As m fs) \<longrightarrow> view m' p = view m p) \<and>
     (rc = 0 \<longrightarrow> (\<forall>f\<in>set fs. live_value m' (field_owner m f) (hash_name (gf_name f)) = Some (gf_bytes f)) \<and>
        unat (sm_local_timestamp m') = unat (sm_local_timestamp m) + length (rewritten As m fs)) \<and>
     ((\<forall>i k. As i k) \<and> sm_field_count m + length fs \<le> FIELD_CAPACITY \<longrightarrow> rc = 0)"

lemma commit_outcome_view:
  "commit_outcome As fs m rc m' \<Longrightarrow> p \<notin> field_key m ` set (rewritten As m fs) \<Longrightarrow> view m' p = view m p"
  unfolding commit_outcome_def by blast

lemma commit_outcome_skip:
  assumes inv: "sm_inv m" and f: "field_writable f" and u: "field_unchanged (As 0) m f"
    and new: "field_key m f \<notin> field_key m ` set fs" and out: "commit_outcome (\<lambda>k. As (k + 2)) fs m rc m'"
  shows "commit_outcome As (f # fs) m rc m'"
proof -
  have "field_key m f \<notin> field_key m ` set (rewritten (\<lambda>k. As (k + 2)) m fs)" using new rewritten_subset [of _ m fs] by blast
  from commit_outcome_view [OF out this] have "live_value m' (field_owner m f) (hash_name (gf_name f)) = Some (gf_bytes f)"
    using u field_unchanged_live [OF inv f] by (simp add: live_value_def field_key_def)
  moreover have "rewritten As m (f # fs) = rewritten (\<lambda>k. As (k + 2)) m fs" using u field_unchanged_live [OF inv f] by simp
  ultimately show ?thesis using out by (simp add: commit_outcome_def)
qed

lemma commit_outcome_write:
  assumes inv: "sm_inv m" and clk: "sm_local_timestamp m \<noteq> UINT64_MAX" and f: "field_writable f" and u: "\<not> field_unchanged (As 0) m f"
    and w: "write_field (As 1) f m = (0, m1)"
    and new: "field_key m f \<notin> field_key m ` set fs" and out: "commit_outcome (\<lambda>k. As (k + 2)) fs m1 rc m'"
  shows "commit_outcome As (f # fs) m rc m'"
proof -
  let ?Bs = "\<lambda>k. As (k + 2)"
  note W = write_field_effect [OF inv clk f w]
  have key: "field_key m1 = field_key m" and ow: "field_owner m1 = field_owner m"
    by (simp_all add: fun_eq_iff field_key_cong [OF W(2)] field_owner_cong [OF W(2)])
  have re: "rewritten ?Bs m1 fs = rewritten ?Bs m fs"
  proof (rule rewritten_cong [OF W(2)], intro ballI)
    fix g assume "g \<in> set fs"
    then have "field_key m g \<noteq> field_key m f" using new by (metis imageI)
    then show "view m1 (field_key m g) = view m (field_key m g)" by (intro W(6)) simp
  qed
  have re': "rewritten As m (f # fs) = f # rewritten ?Bs m fs" using u field_unchanged_live [OF inv f] by auto
  note vw = commit_outcome_view [OF out, unfolded key re]
  have "field_key m f \<notin> field_key m ` set (rewritten ?Bs m fs)" using new rewritten_subset [of _ m fs] by blast
  from vw [OF this] have "live_value m' (field_owner m f) (hash_name (gf_name f)) = Some (gf_bytes f)"
    using W(7) by (simp add: live_value_def field_key_def)
  moreover have "view m' p = view m p" if "p \<notin> field_key m ` set (rewritten As m (f # fs))" for p
    using that vw [of p] W(6) [of p] unfolding re' by simp
  moreover have "(\<forall>i k. As i k) \<longrightarrow> (\<forall>i k. As (i + 2) k)" by blast
  ultimately show ?thesis
    using out W(2,3,4) unat_Suc_clock [OF clk] unfolding commit_outcome_def ow re re' by auto
qed

lemma commit_fields_outcome:
  "sm_inv m \<Longrightarrow> unat (sm_local_timestamp m) + length fs \<le> unat UINT64_MAX \<Longrightarrow> \<forall>f\<in>set fs. field_writable f \<Longrightarrow>
   distinct (map (field_key m) fs) \<Longrightarrow> commit_fields As fs m = (rc, m') \<Longrightarrow> commit_outcome As fs m rc m'"
proof (induction fs arbitrary: m As)
  case (Cons f fs)
  have clk: "sm_local_timestamp m \<noteq> UINT64_MAX" using Cons.prems(2) clock_room by simp
  have f: "field_writable f" and new: "field_key m f \<notin> field_key m ` set fs" using Cons.prems(3,4) by auto
  obtain rc1 m1 where w: "write_field (As 1) f m = (rc1, m1)" by fastforce
  note W = write_field_effect [OF Cons.prems(1) clk f w]
  consider (skip) "field_unchanged (As 0) m f" | (fails) "\<not> field_unchanged (As 0) m f" "rc1 \<noteq> 0" | (writes) "\<not> field_unchanged (As 0) m f" "rc1 = 0"
    by blast
  then show ?case
  proof cases
    case skip
    then have "commit_outcome (\<lambda>k. As (k + 2)) fs m rc m'" by (intro Cons.IH) (use Cons.prems in simp_all)
    then show ?thesis by (rule commit_outcome_skip [where As = As, OF Cons.prems(1) f skip new])
  next
    case fails
    have "rc1 = 0" if "\<forall>i k. As i k" "sm_field_count m + length (f # fs) \<le> FIELD_CAPACITY" using W(8) that by simp
    then show ?thesis
      using fails Cons.prems(5) w W(1,2,5,6) by (auto simp: commit_outcome_def write_field_def split: if_splits)
  next
    case writes
    have key: "field_key m1 = field_key m" by (simp add: fun_eq_iff field_key_cong [OF W(2)])
    have "commit_fields (\<lambda>k. As (k + 2)) fs m1 = (rc, m')" using Cons.prems(5) w writes by (simp add: write_field_def split: if_splits)
    then have "commit_outcome (\<lambda>k. As (k + 2)) fs m1 rc m'"
      by (intro Cons.IH) (use Cons.prems W(1,3) unat_Suc_clock [OF clk] key in simp_all)
    then show ?thesis using commit_outcome_write [where As = As, OF Cons.prems(1) clk f writes(1) w [unfolded writes(2)] new] by blast
  qed
qed (simp add: commit_outcome_def)

text \<open>
  C32. A commit writes exactly what changed.  Take a blackboard whose fields have a name, a value and different keys, and any allocators for
  the reads and writes of the commit.  A field is written if the store holds no live value or other bytes under its key, or
  if the commit gets no memory for the copy it compares with.  Every other field keeps its version, time stamp
  included, and keys outside the blackboard are not touched.  After a commit that succeeds the clock has advanced by one for each field
  written and every field of the blackboard is in the store; with memory and room it succeeds.
\<close>

theorem commit_writes_changes:
  assumes m: "em_manager emb = Some m" "sm_inv m" "unat (sm_local_timestamp m) + length (bb_fields bb) \<le> unat UINT64_MAX"
    and bb: "\<forall>f\<in>set (bb_fields bb). field_writable f" "distinct (map (field_key m) (bb_fields bb))"
    and commit: "fleece_goap_js_bb_commit As emb bb = (rc, emb')"
    and written: "written = map (\<lambda>i. bb_fields bb ! i) (filter (\<lambda>i. let f = bb_fields bb ! i in
      live_value m (field_owner m f) (hash_name (gf_name f)) \<noteq> Some (gf_bytes f) \<or> \<not> As (2 * i) (length (gf_bytes f)))
      [0..<length (bb_fields bb)])"
  shows "\<exists>m'. emb' = emb\<lparr>em_manager := Some m'\<rparr> \<and> sm_inv m' \<and>
    (\<forall>p. p \<notin> field_key m ` set written \<longrightarrow> view m' p = view m p) \<and>
    (rc = 0 \<longrightarrow>
      (\<forall>f\<in>set (bb_fields bb). live_value m' (field_owner m f) (hash_name (gf_name f)) = Some (gf_bytes f)) \<and>
      unat (sm_local_timestamp m') = unat (sm_local_timestamp m) + length written) \<and>
    ((\<forall>i k. As i k) \<and> sm_field_count m + length (bb_fields bb) \<le> FIELD_CAPACITY \<longrightarrow> rc = 0)"
proof -
  obtain m' where c: "commit_fields As (bb_fields bb) m = (rc, m')" "emb' = emb\<lparr>em_manager := Some m'\<rparr>"
    using commit by (auto simp: fleece_goap_js_bb_commit_def m split: prod.splits)
  have "written = rewritten As m (bb_fields bb)" by (simp add: written rewritten_indices Let_def)
  then show ?thesis using commit_fields_outcome [OF m(2,3) bb c(1)] c(2) by (auto simp: commit_outcome_def)
qed

section \<open>Actions without effects\<close>

text \<open>A small script engine: values are texts, objects and functions named by their source.\<close>

datatype demo_js = DUndef | DText bytes | DObj "(bytes \<times> demo_js) list" | DFun bytes

fun demo_get :: "demo_js \<Rightarrow> bytes \<Rightarrow> demo_js" where
  "demo_get (DObj kvs) p = (case map_of kvs p of None \<Rightarrow> DUndef | Some v \<Rightarrow> v)"
| "demo_get _ p = DUndef"

fun demo_set :: "demo_js \<Rightarrow> bytes \<Rightarrow> demo_js \<Rightarrow> demo_js" where
  "demo_set (DObj kvs) p v = DObj (filter (\<lambda>(k, _). k \<noteq> p) kvs @ [(p, v)])"
| "demo_set w p v = w"

fun demo_text :: "demo_js \<Rightarrow> bytes option" where
  "demo_text (DText t) = Some t"
| "demo_text _ = None"

fun demo_names :: "demo_js \<Rightarrow> bytes option list option" where
  "demo_names (DObj kvs) = Some (map (Some \<circ> fst) (take 8 kvs))"
| "demo_names _ = None"

text \<open>
  The source \<open>y\<close> is true, \<open>n\<close> says that \<open>self\<close> has no field \<open>x\<close>, \<open>s\<close> sets this field and returns its
  argument, \<open>d\<close> clears \<open>self\<close>, \<open>w\<close> returns nothing.  Objects show at most eight properties.
\<close>

definition demo_call :: "demo_js \<Rightarrow> demo_js list \<Rightarrow> demo_js option \<times> demo_js" where
  "demo_call fn args =
     (let bb = hd args in
      if fn = DFun (lit ''y'') then (Some (DText [49]), bb)
      else if fn = DFun (lit ''n'') then
        (Some (if demo_get (demo_get bb (lit ''self'')) (lit ''x'') = DUndef then DText [49] else DUndef), bb)
      else if fn = DFun (lit ''s'') then
        let bb = demo_set bb (lit ''self'') (demo_set (demo_get bb (lit ''self'')) (lit ''x'') (DText [49])) in (Some bb, bb)
      else if fn = DFun (lit ''d'') then (Some (demo_set bb (lit ''self'') (DObj [])), bb)
      else if fn = DFun (lit ''w'') then (Some DUndef, bb)
      else (None, bb))"

definition demo_js_script :: "demo_js script_engine" where
  "demo_js_script =
     \<lparr>en_ParseJSON = (\<lambda>t. if t = [] then None else Some (DText t)),
      en_JSONStringify = (\<lambda>v. case v of DText t \<Rightarrow> Some (DText t) | _ \<Rightarrow> Some DUndef),
      en_IsUndefined = (\<lambda>v. v = DUndef), en_ToCString = demo_text, en_ToFloat64 = (\<lambda>v. Some d_one),
      en_GetPropertyStr = demo_get, en_NewString = DText, en_score_goal = Some (\<lambda>k v. Some v)\<rparr>"

definition demo_goap_engine :: "(demo_js, unit, unit) goap_engine" where
  "demo_goap_engine =
     \<lparr>ge_script = demo_js_script, ge_Eval = (\<lambda>s. Some (DFun (butlast (tl s)))),
      ge_IsFunction = (\<lambda>v. case v of DFun _ \<Rightarrow> True | _ \<Rightarrow> False), ge_IsObject = (\<lambda>v. case v of DObj _ \<Rightarrow> True | _ \<Rightarrow> False),
      ge_ToBool = (\<lambda>v. v \<noteq> DUndef), ge_NewObject = DObj [], ge_NewInt32 = (\<lambda>n. DText []), ge_SetPropertyStr = demo_set,
      ge_OwnPropertyNames = demo_names, ge_global = (\<lambda>name. if name = lit ''goalSatisfied'' then DFun (lit ''n'') else DUndef),
      ge_Call = (\<lambda>emb. demo_call), ge_natives = (\<lambda>emb fn args. []), ge_host = no_host\<rparr>"

text \<open>A table with one goal, that \<open>self\<close> has no field \<open>x\<close>, and one action without effects.\<close>

definition demo_wait :: "bytes \<Rightarrow> FleeceGoap" where
  "demo_wait exec = goap_zero\<lparr>ga_actions := [\<lparr>ac_id = lit ''wait'', ac_name = [], ac_cost = [], ac_exec = exec, ac_dest = [], ac_dur = d_zero,
       ac_pre = [lit ''y''], ac_eff = []\<rparr>],
     ga_goals := [\<lparr>go_id = lit ''clear'', go_name = [], go_expr = lit ''n'', go_priority = d_one, go_curve_id = []\<rparr>],
     ga_max_iters := 16, ga_max_nodes := 16, ga_max_plan_depth := 4\<rparr>"

definition demo_x :: FleeceGoapBlackboard where
  "demo_x = \<lparr>bb_fields = [\<lparr>gf_name = lit ''x'', gf_data = Some [49], gf_size = 1, gf_is_shared = False\<rparr>], bb_cap = 4\<rparr>"

text \<open>
  In a plan, an action without effects erases the blackboard.  \<open>js_action_apply\<close> returns success for it
  without filling the destination, which the planner hands over empty.  So for the goal that a
  field be absent, which does not hold, the planner returns the plan to wait, although waiting
  changes nothing.
\<close>

theorem no_effect_erases_state:
  "fleece_goap_js_plan yes demo_goap_engine (demo_emb demo_a) (demo_wait []) demo_x None =
     Some (Some \<lparr>pl_action_ids = Ids [lit ''wait''], pl_length = 1, pl_total_cost = d_one, pl_iters = 2\<rparr>) \<and>
   fleece_goap_js_apply_action yes demo_goap_engine (demo_emb demo_a) (demo_wait []) 0 demo_x bb_empty = (0, bb_empty) \<and>
   \<not> direct_goal yes demo_goap_engine (demo_emb demo_a) (Some (lit ''n'')) demo_x"
proof (intro conjI)
  show "fleece_goap_js_plan yes demo_goap_engine (demo_emb demo_a) (demo_wait []) demo_x None =
     Some (Some \<lparr>pl_action_ids = Ids [lit ''wait''], pl_length = 1, pl_total_cost = d_one, pl_iters = 2\<rparr>)" by code_simp
  show "fleece_goap_js_apply_action yes demo_goap_engine (demo_emb demo_a) (demo_wait []) 0 demo_x bb_empty = (0, bb_empty)" by code_simp
  show "\<not> direct_goal yes demo_goap_engine (demo_emb demo_a) (Some (lit ''n'')) demo_x" by code_simp
qed

section \<open>Witnesses\<close>



text \<open>A store with a field of its own and a shared one, and its snapshot.\<close>

definition demo_own :: FleeceStateManager where
  "demo_own = snd (fleece_state_manager_set_named yes demo_a (Some [120]) (Some [49]) 1)"

definition demo_snapshot :: FleeceGoapBlackboard where
  "demo_snapshot = snd (fleece_goap_js_bb_from_state (\<lambda>_. yes) (demo_emb demo_own) bb_empty)"

theorem snapshot_commit_identity_witness:
  "length (bb_fields demo_snapshot) = 2 \<and> fleece_goap_js_bb_commit (\<lambda>_. yes) (demo_emb demo_own) demo_snapshot = (0, demo_emb demo_own)"
proof
  show "length (bb_fields demo_snapshot) = 2" by code_simp
  have "fst (fleece_goap_js_bb_from_state (\<lambda>_. yes) (demo_emb demo_own) bb_empty) = 0" by code_simp
  then have "fleece_goap_js_bb_from_state (\<lambda>_. yes) (demo_emb demo_own) bb_empty = (0, demo_snapshot)"
    by (simp add: demo_snapshot_def prod_eq_iff)
  then show "fleece_goap_js_bb_commit (\<lambda>_. yes) (demo_emb demo_own) demo_snapshot = (0, demo_emb demo_own)"
    by (rule snapshot_commit_identity) simp
qed

lemma demo_own_inv: "sm_inv demo_own"
proof -
  have "script_change demo_a (run_op yes (SetNamed [120] [49] 1) demo_a)"
    by (rule run_op_change [OF demo_inv(1) demo_clock(1)]) (simp_all add: cstring_def)
  then show ?thesis by (simp add: script_change_def demo_own_def)
qed

text \<open>The field \<open>x\<close> as the store has it, and a new field \<open>y\<close>.\<close>

definition demo_xy :: FleeceGoapBlackboard where
  "demo_xy = snd (fleece_goap_bb_set yes demo_x (Some [121]) (Some [50]) 1 False)"

theorem commit_writes_changes_witness:
  "\<exists>m'. fleece_goap_js_bb_commit (\<lambda>_. yes) (demo_emb demo_own) demo_xy = (0, demo_emb m') \<and> live_value m' 1 (hash_name [121]) = Some [50] \<and>
     view m' (1, hash_name [120]) = view demo_own (1, hash_name [120])"
proof -
  obtain rc emb' where c: "fleece_goap_js_bb_commit (\<lambda>_. yes) (demo_emb demo_own) demo_xy = (rc, emb')" by fastforce
  have n: "unat (sm_local_timestamp demo_own) + length (bb_fields demo_xy) \<le> 100" by code_simp
  have room: "unat (sm_local_timestamp demo_own) + length (bb_fields demo_xy) \<le> unat UINT64_MAX" using n by (simp add: unat_clock_max)
  define f g where "f = bb_fields demo_xy ! 0" and "g = bb_fields demo_xy ! 1"
  have fg: "bb_fields demo_xy = [f, g]" unfolding f_def g_def by code_simp
  have "gf_name f = [120]" "gf_data f = Some [49]" "gf_size f = 1" unfolding f_def by code_simp+
  moreover have g: "gf_name g = [121]" "gf_data g = Some [50]" "gf_size g = 1" "field_owner demo_own g = 1" "gf_bytes g = [50]"
    unfolding g_def by code_simp+
  ultimately have w: "\<forall>f\<in>set (bb_fields demo_xy). field_writable f" by (simp add: fg field_writable_def cstring_def)
  have k: "distinct (map (field_key demo_own) (bb_fields demo_xy))"
    and same: "live_value demo_own (field_owner demo_own (bb_fields demo_xy ! 0)) (hash_name (gf_name (bb_fields demo_xy ! 0))) =
      Some (gf_bytes (bb_fields demo_xy ! 0))" and fk: "field_key demo_own (bb_fields demo_xy ! 1) \<noteq> (1, hash_name [120])"
    and cap: "sm_field_count demo_own + length (bb_fields demo_xy) \<le> FIELD_CAPACITY" by code_simp+
  note C = commit_writes_changes [OF demo_emb_manager(1) demo_own_inv room w k c refl]
  have keep: "(1, hash_name [120]) \<notin> field_key demo_own ` set (map (\<lambda>i. bb_fields demo_xy ! i) (filter (\<lambda>i. let f = bb_fields demo_xy ! i in
      live_value demo_own (field_owner demo_own f) (hash_name (gf_name f)) \<noteq> Some (gf_bytes f) \<or> \<not> yes (length (gf_bytes f)))
      [0..<length (bb_fields demo_xy)]))"
    using same fk by (auto simp: fg less_Suc_eq)
  obtain m' where "emb' = (demo_emb demo_own)\<lparr>em_manager := Some m'\<rparr>" "rc = 0" "live_value m' 1 (hash_name [121]) = Some [50]"
    "view m' (1, hash_name [120]) = view demo_own (1, hash_name [120])"
    using C cap keep g fg by fastforce
  then show ?thesis using c by (intro exI [of _ m']) (simp add: demo_emb_def)
qed

end
