(* ===== verification/Brain_Proofs.thy ===== *)
theory Brain_Proofs
  imports Goap_Brain Goap_Js_Claims
begin

text \<open>
  Parts of the brain: the text of a prerequisite goal, and the bound on what one
  tick does to the store.
\<close>

section \<open>The text of a prerequisite\<close>

fun commas :: "bytes list \<Rightarrow> bytes" where
  "commas [] = []"
| "commas [x] = x"
| "commas (x # y # xs) = x @ lit '','' @ commas (y # xs)"

lemma commas_snoc: "commas (xs @ [y]) = commas xs @ (if xs = [] then [] else lit '','') @ y"
proof (induction xs rule: commas.induct)
  case (3 x z xs)
  then show ?case by simp
qed simp_all

definition diff_member :: "FleeceGoapField \<Rightarrow> bytes" where
  "diff_member f = quoted (gf_name f) @ lit '':'' @ gf_bytes f"

text \<open>The fields of the acting node that the simulated state changes.\<close>

definition self_changed :: "FleeceGoapBlackboard \<Rightarrow> FleeceGoapField \<Rightarrow> bool" where
  "self_changed orig f \<longleftrightarrow> \<not> gf_is_shared f \<and>
     \<not> (case fleece_goap_bb_get orig (gf_name f) of
          (ov, osz) \<Rightarrow> ov \<noteq> None \<and> osz = gf_size f \<and> (gf_size f = 0 \<or> take (unat osz) (the ov) = gf_bytes f))"

abbreviation member_room :: "FleeceGoapField \<Rightarrow> nat" where
  "member_room f \<equiv> length (gf_name f) + unat (gf_size f) + 4"

lemma member_length: "length (diff_member f) + 1 \<le> member_room f"
  by (cases "gf_data f") (auto simp: diff_member_def quoted_def lit_def gf_bytes_def)

text \<open>
  The fields that are kept, one by one: a field is kept when the object written so far leaves room for its name, its value and six
  more bytes, below the capacity.  A field that does not fit is passed over, and the ones after it still get their turn.
\<close>

definition keep_fitting :: "nat \<Rightarrow> FleeceGoapField list \<Rightarrow> FleeceGoapField \<Rightarrow> FleeceGoapField list" where
  "keep_fitting cap ms f =
     (if length (lit ''{'' @ commas (map diff_member ms)) + length (gf_name f) + unat (gf_size f) + 6 < cap then ms @ [f] else ms)"

lemma diff_step_unfold:
  "diff_step orig cap (out, first) f =
     (if self_changed orig f \<and> length out + member_room f + 2 < cap
      then (out @ (if first then [] else lit '','') @ diff_member f, False) else (out, first))"
  by (auto simp: diff_step_def self_changed_def diff_member_def split: prod.splits)

lemma diff_fold:
  assumes cap: "3 \<le> cap"
  shows "\<exists>ms. foldl (diff_step orig cap) (lit ''{'', True) fs = (lit ''{'' @ commas (map diff_member ms), ms = []) \<and>
    ms = foldl (keep_fitting cap) [] (filter (self_changed orig) fs) \<and> length (commas (map diff_member ms)) + 3 \<le> cap \<and>
    length (commas (map diff_member ms)) \<le> sum_list (map member_room ms) \<and>
    (sum_list (map member_room (filter (self_changed orig) fs)) + 3 < cap \<longrightarrow> ms = filter (self_changed orig) fs)"
proof (induction fs rule: rev_induct)
  case Nil
  then show ?case using cap by (intro exI [of _ "[]"]) (simp add: lit_def)
next
  case (snoc f fs)
  then obtain ms where ms: "foldl (diff_step orig cap) (lit ''{'', True) fs = (lit ''{'' @ commas (map diff_member ms), ms = [])"
    "ms = foldl (keep_fitting cap) [] (filter (self_changed orig) fs)" "length (commas (map diff_member ms)) + 3 \<le> cap"
    "length (commas (map diff_member ms)) \<le> sum_list (map member_room ms)"
    "sum_list (map member_room (filter (self_changed orig) fs)) + 3 < cap \<longrightarrow> ms = filter (self_changed orig) fs" by blast
  let ?take = "self_changed orig f \<and> 1 + length (commas (map diff_member ms)) + member_room f + 2 < cap"
  have step: "foldl (diff_step orig cap) (lit ''{'', True) (fs @ [f]) =
      (if ?take then (lit ''{'' @ commas (map diff_member (ms @ [f])), False) else (lit ''{'' @ commas (map diff_member ms), ms = []))"
    using ms(1) by (simp add: diff_step_unfold commas_snoc lit_def)
  show ?case
  proof (cases ?take)
    case True
    have len: "length (commas (map diff_member (ms @ [f]))) \<le> length (commas (map diff_member ms)) + member_room f"
      using member_length [of f] by (simp add: commas_snoc lit_def)
    moreover have "keep_fitting cap ms f = ms @ [f]" using True by (simp add: keep_fitting_def lit_def)
    ultimately show ?thesis
      using True ms(2,4,5) by (intro exI [of _ "ms @ [f]"]) (auto simp: step foldl_append [of "keep_fitting cap"] simp del: foldl_append)
  next
    case False
    have "ms = foldl (keep_fitting cap) [] (filter (self_changed orig) (fs @ [f]))" using False ms(2) by (auto simp: keep_fitting_def lit_def)
    moreover have "self_changed orig f \<Longrightarrow> cap \<le> sum_list (map member_room (filter (self_changed orig) (fs @ [f]))) + 3"
      using False ms(4,5) by (cases "sum_list (map member_room (filter (self_changed orig) fs)) + 3 < cap") auto
    ultimately show ?thesis
      using False ms(3,4,5) by (intro exI [of _ ms]) (auto simp: step simp del: foldl_append)
  qed
qed

lemma self_diff_built:
  "\<exists>ms. build_self_diff_json orig sim 256 = Some (lit ''{'' @ commas (map diff_member ms) @ lit ''}'') \<and>
     ms = foldl (keep_fitting 256) [] (filter (self_changed orig) (bb_fields sim)) \<and>
     length (lit ''{'' @ commas (map diff_member ms) @ lit ''}'') < 256 \<and>
     (sum_list (map member_room (filter (self_changed orig) (bb_fields sim))) < 253 \<longrightarrow> ms = filter (self_changed orig) (bb_fields sim))"
proof -
  obtain ms where ms: "foldl (diff_step orig 256) (lit ''{'', True) (bb_fields sim) = (lit ''{'' @ commas (map diff_member ms), ms = [])"
    "ms = foldl (keep_fitting 256) [] (filter (self_changed orig) (bb_fields sim))" "length (commas (map diff_member ms)) + 3 \<le> 256"
    "sum_list (map member_room (filter (self_changed orig) (bb_fields sim))) + 3 < 256 \<longrightarrow> ms = filter (self_changed orig) (bb_fields sim)"
    using diff_fold [of 256 orig "bb_fields sim"] by auto
  then show ?thesis
    by (intro exI [of _ ms]) (simp add: build_self_diff_json_def lit_def)
qed

lemma prerequisite_value_length: "length (prerequisite_value self_id diff) \<le> length diff + 98"
proof -
  have "length (c_string diff) \<le> length diff" by (simp add: c_string_def length_takeWhile_le)
  then show ?thesis by (simp add: prerequisite_value_def quoted_def lit_def)
qed

lemma prerequisite_key_name: "length (prerequisite_key self_id) = 17" "cstring (prerequisite_key self_id)" "prerequisite_key self_id \<noteq> []"
proof -
  show l: "length (prerequisite_key self_id) = 17" by (simp add: prerequisite_key_def lit_def)
  then show "prerequisite_key self_id \<noteq> []" by auto
  show "cstring (prerequisite_key self_id)"
    using hex16_chars(6) by (auto simp: prerequisite_key_def cstring_def lit_def dest: in_set_dropD)
qed

section \<open>Bounded changes of the store\<close>

text \<open>Operations of the swarm's protocol on names of a set \<open>S\<close>, and runs of at most \<open>n\<close> of them.\<close>

fun op_within :: "bytes set \<Rightarrow> node_op \<Rightarrow> bool" where
  "op_within S (SetShared s d sz) = (s \<in> S \<and> unat sz \<le> length d)"
| "op_within S (RemoveShared s) = (s \<in> S)"
| "op_within S (SetSharedCas s e esz d sz) = (s \<in> S \<and> unat sz \<le> length d)"
| "op_within S (SetNamed s d sz) = (s \<in> S \<and> unat sz \<le> length d)"
| "op_within S (RemoveNamed s) = (s \<in> S)"
| "op_within S Tick = False"

definition ops_run :: "bytes set \<Rightarrow> nat \<Rightarrow> FleeceStateManager \<Rightarrow> FleeceStateManager \<Rightarrow> bool" where
  "ops_run S n m m' \<longleftrightarrow>
     (\<exists>ops. length ops \<le> n \<and> (\<forall>(A, oper)\<in>set ops. op_within S oper) \<and> m' = foldl (\<lambda>m (A, oper). run_op A oper m) m ops)"

text \<open>
  What a part of the brain does to the store: at most \<open>n\<close> operations of the protocol and as many steps
  of the clock; the node's own fields and the shared ones may change, nothing else.
\<close>

definition store_change :: "bytes set \<Rightarrow> nat \<Rightarrow> FleeceStateManager \<Rightarrow> FleeceStateManager \<Rightarrow> bool" where
  "store_change S n m m' \<longleftrightarrow>
     sm_inv m' \<and> sm_node_id m' = sm_node_id m \<and> sm_peers_seen m' = sm_peers_seen m \<and>
     sm_current_tick m' = sm_current_tick m \<and>
     unat (sm_local_timestamp m) \<le> unat (sm_local_timestamp m') \<and> unat (sm_local_timestamp m') \<le> unat (sm_local_timestamp m) + n \<and>
     (\<forall>ow k. ow \<noteq> FLEECE_SHARED_OWNER_ID \<and> ow \<noteq> sm_node_id m \<longrightarrow> view m' (ow, k) = view m (ow, k)) \<and> ops_run S n m m'"

text \<open>A store that can take \<open>n\<close> more steps of the clock.\<close>

definition store_ready :: "nat \<Rightarrow> FleeceStateManager \<Rightarrow> bool" where
  "store_ready n m \<longleftrightarrow> sm_inv m \<and> unat (sm_local_timestamp m) + n \<le> unat UINT64_MAX"

lemma ops_run_refl: "ops_run S n m m"
  unfolding ops_run_def by (rule exI [of _ "[]"]) simp

lemma ops_run_mono: "ops_run S k m m' \<Longrightarrow> k \<le> n \<Longrightarrow> ops_run S n m m'"
  unfolding ops_run_def by (elim exE, rule exI) auto

lemma ops_run_trans: "ops_run S i m m1 \<Longrightarrow> ops_run S j m1 m2 \<Longrightarrow> ops_run S (i + j) m m2"
proof -
  assume "ops_run S i m m1" and "ops_run S j m1 m2"
  then obtain xs ys where "length xs \<le> i" "\<forall>(A, oper)\<in>set xs. op_within S oper" "m1 = foldl (\<lambda>m (A, oper). run_op A oper m) m xs"
    and "length ys \<le> j" "\<forall>(A, oper)\<in>set ys. op_within S oper" "m2 = foldl (\<lambda>m (A, oper). run_op A oper m) m1 ys"
    unfolding ops_run_def by blast
  then show ?thesis unfolding ops_run_def by (intro exI [of _ "xs @ ys"]) auto
qed

lemma store_change_refl: "store_ready n m \<Longrightarrow> store_change S k m m"
  by (simp add: store_change_def store_ready_def ops_run_refl)

lemma store_change_mono: "store_change S k m m' \<Longrightarrow> k \<le> n \<Longrightarrow> store_change S n m m'"
  using ops_run_mono [of S k m m' n] by (simp add: store_change_def)

lemma store_change_trans: "store_change S i m m1 \<Longrightarrow> store_change S j m1 m2 \<Longrightarrow> store_change S (i + j) m m2"
  using ops_run_trans [of S i m m1 j m2] by (simp add: store_change_def)

lemma store_ready_mono: "store_ready n m \<Longrightarrow> k \<le> n \<Longrightarrow> store_ready k m"
  by (simp add: store_ready_def)

lemma store_ready_step: "store_ready (i + j) m \<Longrightarrow> store_change S i m m' \<Longrightarrow> store_ready j m'"
  by (simp add: store_ready_def store_change_def)

lemma store_readyD: "store_ready (Suc n) m \<Longrightarrow> sm_inv m \<and> sm_local_timestamp m \<noteq> UINT64_MAX"
  using clock_room [of "sm_local_timestamp m" n] by (auto simp: store_ready_def)

section \<open>Blackboards read from objects\<close>

text \<open>Fields as the store can take them: a name that fits, at least as many bytes as announced.\<close>

definition field_shaped :: "FleeceGoapField \<Rightarrow> bool" where
  "field_shaped f \<longleftrightarrow> name_ok (gf_name f) \<and> (\<forall>d. gf_data f = Some d \<longrightarrow> unat (gf_size f) \<le> length d)"

definition bb_shaped :: "nat \<Rightarrow> FleeceGoapBlackboard \<Rightarrow> bool" where
  "bb_shaped n bb \<longleftrightarrow> length (bb_fields bb) \<le> n \<and> (\<forall>f\<in>set (bb_fields bb). field_shaped f)"

lemma bb_store_shaped:
  assumes "i < length (bb_fields bb)" and "bb_shaped n bb" and "unat sz \<le> length d"
  shows "bb_shaped n (snd (bb_store A bb i d sz sh))"
  using assms set_update_subset_insert [of "bb_fields bb" i]
  by (fastforce simp: bb_store_def bb_shaped_def field_shaped_def)

lemma bb_set_shaped:
  assumes bb: "bb_shaped n bb" and name: "cstring nm" and d: "unat sz \<le> length d"
  shows "bb_shaped (Suc n) (snd (fleece_goap_bb_set A bb (Some nm) (Some d) sz sh))"
proof -
  have up: "bb_shaped (Suc n) bb" using bb by (simp add: bb_shaped_def)
  show ?thesis
  proof (cases "fleece_goap_bb_index bb nm")
    case (Some i)
    then have "i < length (bb_fields bb)" by (auto simp: fleece_goap_bb_index_def dest: index_of_SomeD)
    then show ?thesis using Some up bb_store_shaped [OF _ up d] by (simp add: fleece_goap_bb_set_def)
  next
    case None
    have "bb_shaped (Suc n) (snd (bb_store A (bb\<lparr>bb_cap := c, bb_fields := bb_fields bb @ [\<lparr>gf_name = nm, gf_data = None, gf_size = 0, gf_is_shared = sh\<rparr>]\<rparr>)
        (length (bb_fields bb)) d sz sh))"
      if "length nm < FLEECE_FIELD_NAME_MAX" for c
      by (rule bb_store_shaped) (use bb name d that in \<open>auto simp: bb_shaped_def field_shaped_def name_ok_def\<close>)
    then show ?thesis
      using None up by (auto simp: fleece_goap_bb_set_def copy_str_def Let_def bb_shaped_def split: option.splits if_splits)
  qed
qed

lemma properties_shaped:
  "bb_shaped n bb \<Longrightarrow> bb_shaped (n + length names) (foldl (property_to_bb A en obj sh) bb names)"
proof (induction names arbitrary: n bb)
  case (Cons name names)
  have "bb_shaped (Suc n) (property_to_bb A en obj sh bb name)"
    using bb_set_shaped [OF Cons.prems c_string_cstring unat_text] Cons.prems
    by (auto simp: property_to_bb_def bb_shaped_def split: option.splits)
  from Cons.IH [OF this] show ?case by simp
qed simp

text \<open>
  The work of one call is bounded: at most \<open>N\<close> native calls in a body, at most \<open>K\<close> properties in an object.
\<close>

definition engine_bounded :: "nat \<Rightarrow> nat \<Rightarrow> ('v, 'f, 'u) goap_engine \<Rightarrow> bool" where
  "engine_bounded N K en \<longleftrightarrow>
     (\<forall>emb fn args. length (ge_natives en emb fn args) \<le> N) \<and> (\<forall>v names. ge_OwnPropertyNames en v = Some names \<longrightarrow> length names \<le> K)"

lemma bb_shaped_mono: "bb_shaped n bb \<Longrightarrow> n \<le> k \<Longrightarrow> bb_shaped k bb"
  by (simp add: bb_shaped_def)

lemma object_shaped:
  assumes en: "engine_bounded N K en" and dst: "bb_shaped n dst" and obj: "goap_js_object_to_bb A en obj sh dst = (rc, dst')"
  shows "bb_shaped (n + K) dst'"
proof (cases "ge_IsObject en obj \<and> ge_OwnPropertyNames en obj \<noteq> None")
  case True
  then obtain names where names: "ge_OwnPropertyNames en obj = Some names" by auto
  have "length names \<le> K" using en names unfolding engine_bounded_def by blast
  then have "bb_shaped (n + K) (foldl (property_to_bb A en obj sh) dst names)"
    by (intro bb_shaped_mono [OF properties_shaped [OF dst]]) simp
  then show ?thesis using obj names True by (simp add: goap_js_object_to_bb_def)
next
  case False
  then have "dst' = dst" using obj by (auto simp: goap_js_object_to_bb_def split: if_splits)
  then show ?thesis using bb_shaped_mono [OF dst] by simp
qed

lemma js_to_bb_shaped:
  assumes en: "engine_bounded N K en" and "goap_js_to_bb A en v bb_empty = (rc, dst)"
  shows "bb_shaped (2 * K) dst"
proof -
  have nil: "bb_shaped n bb_empty" for n by (simp add: bb_shaped_def bb_empty_def)
  obtain r1 dst1 r2 dst2 where o1: "goap_js_object_to_bb A en (en_GetPropertyStr (ge_script en) v (lit ''self'')) False bb_empty = (r1, dst1)"
    and o2: "goap_js_object_to_bb A en (en_GetPropertyStr (ge_script en) v (lit ''world'')) True dst1 = (r2, dst2)" by fastforce
  have "bb_shaped (0 + K + K) dst2" by (rule object_shaped [OF en object_shaped [OF en nil o1] o2])
  then show ?thesis using assms(2) nil by (auto simp: goap_js_to_bb_def o1 o2 mult_2 split: if_splits)
qed

section \<open>What the parts of a tick do to the store\<close>

text \<open>
  The names a node writes: at least those that fit a slot, at most C strings.  The lemmas hold for both
  extremes: any C string, where the names are not known, and names that fit, where they must travel.
\<close>

locale writable_names =
  fixes S :: "bytes set"
  assumes fitting: "name_ok s \<Longrightarrow> s \<in> S" and strings: "s \<in> S \<Longrightarrow> cstring s"

text \<open>The native calls of the bodies write such names.\<close>

definition natives_within :: "bytes set \<Rightarrow> ('v, 'f, 'u) goap_engine \<Rightarrow> bool" where
  "natives_within S en \<longleftrightarrow>
     (\<forall>emb fn args. \<forall>c\<in>set (ge_natives en emb fn args). \<forall>oper. store_op (ge_script en) c = Some oper \<longrightarrow> op_within S oper)"

text \<open>A goal's key, and its claim, can be written.\<close>

definition goal_name :: "bytes set \<Rightarrow> bytes \<Rightarrow> bool" where
  "goal_name S k \<longleftrightarrow> name_ok k \<and> claim_key k \<in> S"

definition pool_names :: "bytes set \<Rightarrow> allocator \<Rightarrow> 'v FleeceGoapBrain \<Rightarrow> FleeceStateManager \<Rightarrow> bool" where
  "pool_names S A b m \<longleftrightarrow>
     claim_key (goal_pool_read_current A m (sm_node_id m) (br_goal_pool_key_field b) FLEECE_FIELD_NAME_MAX) \<in> S \<and>
     (\<forall>k\<in>set (fleece_state_manager_list_fields m FLEECE_SHARED_OWNER_ID FLEECE_JS_LIST_MAX).
        take (length (br_goal_pool_prefix b)) k = br_goal_pool_prefix b \<longrightarrow> claim_key k \<in> S)"

lemma read_current_name: "name_ok (goal_pool_read_current A m self field FLEECE_FIELD_NAME_MAX)"
proof -
  have "length (c_string (take 63 xs)) < 64" for xs :: bytes
    using length_takeWhile_le [of "\<lambda>b. b \<noteq> 0" "take 63 xs"] by (simp add: c_string_def)
  then show ?thesis by (simp add: goal_pool_read_current_def name_ok_def cstring_def [of "[]"] split: option.splits)
qed

context writable_names
begin

lemma op_within_cstring: "op_within S oper \<Longrightarrow> op_cstring oper \<and> oper \<noteq> Tick"
  by (cases oper) (auto dest: strings)

lemma op_change: "store_ready (Suc n) m \<Longrightarrow> op_within S oper \<Longrightarrow> store_change S 1 m (run_op A oper m)"
proof -
  assume ready: "store_ready (Suc n) m" and oper: "op_within S oper"
  have "script_change m (run_op A oper m)"
    using run_op_change [of m oper A] store_readyD [OF ready] op_within_cstring [OF oper] by blast
  moreover have "ops_run S 1 m (run_op A oper m)"
    unfolding ops_run_def by (rule exI [of _ "[(A, oper)]"]) (simp add: oper)
  ultimately show ?thesis by (auto simp: script_change_def store_change_def word_le_nat_alt)
qed

lemma run_script_change:
  assumes emb: "em_manager emb = Some m" and ready: "store_ready (length calls) m"
    and names: "\<forall>c\<in>set calls. \<forall>oper. store_op en c = Some oper \<longrightarrow> op_within S oper"
  shows "\<exists>m'. run_script A run en emb calls = emb\<lparr>em_manager := Some m'\<rparr> \<and> store_change S (length calls) m m'"
proof -
  have "store_change S (length calls) m (run_ops A (map (store_op en) calls) m)" using ready names
  proof (induction calls arbitrary: m)
    case (Cons c calls)
    have one: "store_change S 1 m (after_op A (store_op en c) m)"
    proof (cases "store_op en c")
      case None
      then show ?thesis using Cons.prems by (simp add: after_op_def store_change_refl)
    next
      case (Some oper)
      then show ?thesis using op_change [of "length calls" m oper A] Cons.prems by (simp add: after_op_def)
    qed
    moreover have "store_ready (length calls) (after_op A (store_op en c) m)"
      by (rule store_ready_step [OF _ one]) (use Cons.prems in simp)
    ultimately show ?case using Cons.IH Cons.prems store_change_trans by fastforce
  qed (simp add: store_change_refl)
  then show ?thesis using run_script_ops [OF emb] by blast
qed

lemma commit_fields_change:
  "store_ready (length fs) m \<Longrightarrow> \<forall>f\<in>set fs. field_shaped f \<Longrightarrow> commit_fields As fs m = (rc, m') \<Longrightarrow> store_change S (length fs) m m'"
proof (induction fs arbitrary: m As)
  case Nil
  then show ?case by (simp add: store_change_refl)
next
  case (Cons f fs)
  obtain rc1 m1 where w: "write_field (As 1) f m = (rc1, m1)" by fastforce
  have one: "store_change S 1 m m1"
  proof (cases "gf_data f")
    case None
    then have "m1 = m" using w by (auto simp: write_field_def fleece_state_manager_set_shared_def fleece_state_manager_set_named_def split: if_splits)
    then show ?thesis using Cons.prems(1) by (simp add: store_change_refl)
  next
    case (Some d)
    let ?op = "(if gf_is_shared f then SetShared else SetNamed) (gf_name f) d (gf_size f)"
    have "m1 = run_op (As 1) ?op m" using w Some by (auto simp: write_field_def split: if_splits)
    then show ?thesis
      using op_change [of "length fs" m ?op "As 1"] Cons.prems(1,2) Some by (simp add: field_shaped_def fitting)
  qed
  then have ready: "store_ready (length fs) m1" by (rule store_ready_step [rotated]) (use Cons.prems(1) in simp)
  have "store_change S (length fs) m m'" if "field_unchanged (As 0) m f"
    by (rule Cons.IH [OF store_ready_mono [OF Cons.prems(1)]]) (use Cons.prems that in simp_all)
  moreover have "store_change S (1 + length fs) m m'" if "\<not> field_unchanged (As 0) m f" "rc1 = 0"
    by (rule store_change_trans [OF one], rule Cons.IH [OF ready]) (use Cons.prems that w in \<open>simp_all add: write_field_def split: if_splits\<close>)
  moreover have "m' = m1" if "\<not> field_unchanged (As 0) m f" "rc1 \<noteq> 0"
    using Cons.prems(3) that w by (simp add: write_field_def split: if_splits)
  ultimately show ?case using one store_change_mono by (metis One_nat_def Suc_le_mono le_SucI le_refl length_Cons plus_1_eq_Suc zero_le)
qed

lemma commit_change:
  assumes emb: "em_manager emb = Some m" and ready: "store_ready n m" and bb: "bb_shaped n bb"
    and commit: "fleece_goap_js_bb_commit As emb bb = (rc, emb')"
  shows "\<exists>m'. emb' = emb\<lparr>em_manager := Some m'\<rparr> \<and> store_change S n m m'"
proof -
  obtain m' where c: "commit_fields As (bb_fields bb) m = (rc, m')" "emb' = emb\<lparr>em_manager := Some m'\<rparr>"
    using commit by (auto simp: fleece_goap_js_bb_commit_def emb split: prod.splits)
  have n: "length (bb_fields bb) \<le> n" "\<forall>f\<in>set (bb_fields bb). field_shaped f" using bb by (simp_all add: bb_shaped_def)
  then have "store_change S (length (bb_fields bb)) m m'" using commit_fields_change store_ready_mono [OF ready] c(1) by blast
  then show ?thesis using c(2) store_change_mono n(1) by blast
qed

text \<open>The auction: one claim written, one dropped.\<close>

lemma cas_change: "store_ready (Suc n) m \<Longrightarrow> claim_key key \<in> S \<Longrightarrow> cas_claim A m key self s raw sz = (rc, m') \<Longrightarrow> store_change S 1 m m'"
  using op_change [of n m "SetSharedCas (claim_key key) (if sz > 0 then raw else None) sz (claim_value self s) (of_nat (length (claim_value self s)))" A]
    unat_text [of "claim_value self s"]
  by (auto simp: cas_claim_def Let_def store_change_refl split: if_splits)

lemma remove_change: "store_ready (Suc n) m \<Longrightarrow> name \<in> S \<Longrightarrow> store_change S 1 m (snd (fleece_state_manager_remove_shared m (Some name)))"
  using op_change [of n m "RemoveShared name"] by simp

lemma set_named_change: "store_ready (Suc n) m \<Longrightarrow> name \<in> S \<Longrightarrow> unat sz \<le> length d \<Longrightarrow>
    store_change S 1 m (snd (fleece_state_manager_set_named A m (Some name) (Some d) sz))"
  using op_change [of n m "SetNamed name d sz" A] by simp

lemma settle_change:
  assumes ready: "store_ready 2 m" and held: "\<And>k s. held = Some (k, s) \<Longrightarrow> goal_name S k"
    and best: "\<And>k c. best = Some (k, c) \<Longrightarrow> goal_name S k"
    and settle: "settle_claim A m held best margin re = (res, m')"
  shows "store_change S 2 m m'" and "\<And>k. res = Some k \<Longrightarrow> goal_name S k"
proof -
  have one: "store_ready (Suc 1) m" using ready by (simp add: numeral_2_eq_2)
  have "store_change S 2 m m' \<and> (\<forall>k. res = Some k \<longrightarrow> goal_name S k)"
  proof (cases "should_switch held best margin")
    case True
    then obtain bk bs raw n where b: "best = Some (bk, bs, raw, n)" by (cases best) (auto simp: should_switch_def)
    obtain rc m1 where c: "cas_claim A m bk (fleece_state_manager_get_node_id m) bs raw n = (rc, m1)" by fastforce
    have ch: "store_change S 1 m m1" using cas_change [OF one _ c] best [OF b] by (simp add: goal_name_def)
    have r1: "store_ready (Suc 0) m1" by (rule store_ready_step [OF _ ch]) (use one in simp)
    have rm: "store_change S 1 m1 (snd (fleece_state_manager_remove_shared m1 (Some (claim_key k))))" if "held = Some (k, s)" for k s
      using remove_change [OF r1] held [OF that] by (simp add: goal_name_def)
    have "store_change S 2 m m1" using store_change_mono [OF ch] by simp
    moreover have "store_change S 2 m (snd (fleece_state_manager_remove_shared m1 (Some (claim_key k))))" if "held = Some (k, s)" for k s
      using store_change_trans [OF ch rm [OF that]] by (simp add: numeral_2_eq_2)
    ultimately show ?thesis
      using settle True b c best [OF b] held by (auto simp: settle_claim_def switch_claim_def split: if_splits option.splits)
  next
    case False
    have "store_change S 2 m (reassert_claim A m k s)" if "held = Some (k, s)" for k s
    proof (cases "fleece_state_manager_get_named A m FLEECE_SHARED_OWNER_ID (Some (claim_key k))")
      case (Some r)
      obtain rc m1 where c: "cas_claim A m k (fleece_state_manager_get_node_id m) s (Some (fst r)) (snd r) = (rc, m1)" by fastforce
      have "store_change S 2 m m1" using store_change_mono [OF cas_change [OF one _ c]] held [OF that] by (simp add: goal_name_def)
      then show ?thesis using Some c by (cases r) (simp add: reassert_claim_def)
    qed (use ready in \<open>simp add: reassert_claim_def store_change_refl\<close>)
    then show ?thesis
      using settle False held ready by (auto simp: settle_claim_def store_change_refl split: option.splits if_splits)
  qed
  then show "store_change S 2 m m'" and "\<And>k. res = Some k \<Longrightarrow> goal_name S k" by auto
qed

lemma auction_change:
  assumes emb: "em_manager emb = Some m" and ready: "store_ready 2 m" and cur: "\<And>k. cur = Some k \<Longrightarrow> goal_name S k"
    and pool: "\<And>k. k \<in> set (fleece_state_manager_list_fields m FLEECE_SHARED_OWNER_ID FLEECE_JS_LIST_MAX) \<Longrightarrow>
      take (length pfx) k = pfx \<Longrightarrow> claim_key k \<in> S"
    and call: "fleece_embedded_claim_best_goal A en emb (Some pfx) cur margin re FLEECE_FIELD_NAME_MAX = (rc, out, emb')"
  shows "\<exists>m'. emb' = emb\<lparr>em_manager := Some m'\<rparr> \<and> store_change S 2 m m'" and "out = [] \<or> goal_name S out"
proof -
  have inv: "sm_inv m" using ready by (simp add: store_ready_def)
  have "(\<exists>m'. emb' = emb\<lparr>em_manager := Some m'\<rparr> \<and> store_change S 2 m m') \<and> (out = [] \<or> goal_name S out)"
  proof (cases "en_score_goal en")
    case None
    then show ?thesis
      using call ready emb by (intro conjI exI [of _ m]) (auto simp: fleece_embedded_claim_best_goal_def store_change_refl Let_def)
  next
    case (Some score_fn)
    let ?held = "held_goal A en score_fn m cur"
      and ?best = "scan_pool A en score_fn m (em_peer_ttl_ticks emb) pfx (effective_key cur) margin"
    obtain res m' where settle: "settle_claim A m ?held ?best margin re = (res, m')" by fastforce
    have "held_ok en m cur ?held" using inv by (rule held_goal_ok) (use cur in \<open>simp add: goal_name_def name_ok_def\<close>)
    then have held: "goal_name S k" if "?held = Some (k, s)" for k s using that cur by (simp add: held_ok_def)
    have best: "goal_name S k" if found: "?best = Some (k, c)" for k c
    proof -
      obtain s raw n where c: "(k, c) = (k, s, raw, n)" by (metis prod.exhaust)
      from scan_pool_best(1) [OF inv found] have k: "k \<in> set (fleece_state_manager_list_fields m 0 FLEECE_JS_LIST_MAX)"
        "bid A en score_fn m (em_peer_ttl_ticks emb) pfx (effective_key cur) margin k = Some (k, c)" by auto
      from k(2) have "take (length pfx) k = pfx" by (auto simp: bid_def split: if_splits)
      then show ?thesis using pool k(1) listed_name(1,3) [OF inv k(1)] by (simp add: goal_name_def name_ok_def)
    qed
    note C = auction_call [OF emb Some _ call settle]
    have change: "store_change S 2 m m'" by (rule settle_change(1) [OF ready _ _ settle]) (fact held, fact best)
    have res: "goal_name S k" if "res = Some k" for k by (rule settle_change(2) [OF ready _ _ settle that]) (fact held, fact best)
    have "out = [] \<or> goal_name S out" using res C(3) by (auto simp: goal_name_def name_ok_def split: option.splits)
    then show ?thesis using change C(2) by auto
  qed
  then show "\<exists>m'. emb' = emb\<lparr>em_manager := Some m'\<rparr> \<and> store_change S 2 m m'" and "out = [] \<or> goal_name S out" by auto
qed

text \<open>The action library.\<close>

lemma body_change:
  assumes en: "engine_bounded N K en" "natives_within S en" and emb: "em_manager emb = Some m" and ready: "store_ready N m"
  shows "\<exists>m'. run_script A (ge_host en) (ge_script en) emb (ge_natives en emb fn argv) = emb\<lparr>em_manager := Some m'\<rparr> \<and> store_change S N m m'"
proof -
  have n: "length (ge_natives en emb fn argv) \<le> N" using en(1) by (simp add: engine_bounded_def)
  have "\<forall>c\<in>set (ge_natives en emb fn argv). \<forall>oper. store_op (ge_script en) c = Some oper \<longrightarrow> op_within S oper"
    using en(2) by (simp add: natives_within_def)
  then show ?thesis using run_script_change [OF emb store_ready_mono [OF ready n]] store_change_mono [OF _ n] by blast
qed

lemma library_exec_change:
  assumes en: "engine_bounded N K en" "natives_within S en" and emb: "em_manager emb = Some m" and ready: "store_ready (N + 2 * K) m"
  shows "\<exists>m'. library_exec A en emb b bb idx = emb\<lparr>em_manager := Some m'\<rparr> \<and> store_change S (N + 2 * K) m m'"
proof -
  let ?fn = "the (br_action_exec_fns b ! idx)" and ?argv = "[goap_bb_to_js A en bb, ge_NewInt32 en (sint (br_tick_count b))]"
  have same: "emb\<lparr>em_manager := Some m\<rparr> = emb" using emb by simp
  have N: "store_ready N m" by (rule store_ready_mono [OF ready]) simp
  obtain m1 where m1: "run_script A (ge_host en) (ge_script en) emb (ge_natives en emb ?fn ?argv) = emb\<lparr>em_manager := Some m1\<rparr>"
    "store_change S N m m1" using body_change [OF en emb N] by blast
  have ready1: "store_ready (2 * K) m1" by (rule store_ready_step [OF ready m1(2)])
  let ?ok = "\<lambda>emb'. \<exists>m'. emb' = emb\<lparr>em_manager := Some m'\<rparr> \<and> store_change S (N + 2 * K) m m'"
  have keep: "?ok (emb\<lparr>em_manager := Some m1\<rparr>)" using store_change_mono [OF m1(2)] by (intro exI [of _ m1]) simp
  show ?thesis
  proof (cases "fn_undefined en (br_action_exec_fns b ! idx)")
    case True
    then have "library_exec A en emb b bb idx = emb" by (simp add: library_exec_def Let_def)
    then show ?thesis using same store_change_refl [OF ready] by metis
  next
    case False
    obtain res bbjs where call: "ge_Call en emb ?fn ?argv = (res, bbjs)" by fastforce
    show ?thesis
    proof (cases res)
      case None
      then have "library_exec A en emb b bb idx = emb\<lparr>em_manager := Some m1\<rparr>"
        using False call by (simp add: library_exec_def Let_def m1(1))
      then show ?thesis using keep by simp
    next
      case (Some v)
      obtain rc dst where t: "goap_js_to_bb A en (if ge_IsObject en v then v else bbjs) bb_empty = (rc, dst)" by fastforce
      obtain rc' emb' where c: "fleece_goap_js_bb_commit (\<lambda>_. A) (emb\<lparr>em_manager := Some m1\<rparr>) dst = (rc', emb')" by fastforce
      have "library_exec A en emb b bb idx = (if rc = 0 then emb' else emb\<lparr>em_manager := Some m1\<rparr>)"
        using False call Some t c by (simp add: library_exec_def Let_def m1(1))
      moreover have "?ok emb'"
        using commit_change [OF _ ready1 js_to_bb_shaped [OF en(1) t] c] store_change_trans [OF m1(2)] by fastforce
      ultimately show ?thesis using keep by simp
    qed
  qed
qed

lemma spawn_change:
  assumes ready: "store_ready (Suc n) m"
  shows "store_change S 1 m (goal_pool_spawn_prerequisite A m self orig sim)"
proof -
  have "store_change S 1 m (snd (fleece_state_manager_set_shared A m (Some (prerequisite_key self)) (Some v) (of_nat (length v))))" for v
    using op_change [of n m "SetShared (prerequisite_key self) v (of_nat (length v))" A] ready prerequisite_key_name(1,2) [of self] unat_text [of v] by (simp add: fitting name_ok_def)
  then show ?thesis using ready by (simp add: goal_pool_spawn_prerequisite_def Let_def store_change_refl split: option.splits)
qed

lemma clear_key_change: "store_ready (Suc n) m \<Longrightarrow> br_goal_pool_key_field b \<in> S \<Longrightarrow> store_change S 1 m (clear_key A b m)"
  unfolding clear_key_def by (rule set_named_change) (simp_all add: quoted_def)

lemma three_changes:
  assumes ready: "store_ready 3 m"
    and "\<And>n. store_ready (Suc n) m \<Longrightarrow> store_change S 1 m (f m)"
    and "\<And>n m. store_ready (Suc n) m \<Longrightarrow> store_change S 1 m (g m)"
    and "\<And>n m. store_ready (Suc n) m \<Longrightarrow> store_change S 1 m (h m)"
  shows "store_change S 3 m (h (g (f m)))"
proof -
  have r3: "store_ready (1 + Suc (Suc 0)) m" using ready by (simp add: numeral_3_eq_3)
  then have f: "store_change S 1 m (f m)" using assms(2) [of "Suc (Suc 0)"] by simp
  have r2: "store_ready (1 + Suc 0) (f m)" using store_ready_step [OF r3 f] by simp
  then have g: "store_change S 1 (f m) (g (f m))" using assms(3) [of "Suc 0"] by simp
  have "store_change S 1 (g (f m)) (h (g (f m)))" using assms(4) [OF store_ready_step [OF r2 g]] .
  from store_change_trans [OF store_change_trans [OF f g] this] show ?thesis by (simp add: numeral_3_eq_3)
qed

lemma library_change:
  assumes en: "engine_bounded N K en" "natives_within S en" and emb: "em_manager emb = Some m" and ready: "store_ready (3 + N + 2 * K) m"
    and names: "current = [] \<or> goal_name S current" "br_goal_pool_key_field b \<in> S"
    and tick: "action_library_tick A en emb b current = (b', emb')"
  shows "\<exists>m'. emb' = emb\<lparr>em_manager := Some m'\<rparr> \<and> store_change S (3 + N + 2 * K) m m'"
proof -
  let ?ok = "\<lambda>emb'. \<exists>m'. emb' = emb\<lparr>em_manager := Some m'\<rparr> \<and> store_change S (3 + N + 2 * K) m m'"
  define b1 where "b1 = log_transition current b"
  have key: "br_goal_pool_key_field b1 \<in> S"
    using names(2) by (simp add: b1_def log_transition_def goal_pool_fire_event_def brain_event_def Let_def)
  have r3: "store_ready 3 m" and rx: "store_ready (N + 2 * K) m" using store_ready_mono [OF ready] by simp_all
  have same: "?ok emb" using emb store_change_refl [OF ready] by (intro exI [of _ m]) simp
  have exec: "?ok (library_exec A en emb b1 bb idx)" for bb idx
    using library_exec_change [OF en emb rx] store_change_mono [of S "N + 2 * K" m _ "3 + N + 2 * K"] by fastforce
  have finish: "?ok (snd (library_done A emb m b1 current))" if "current \<noteq> []"
  proof -
    have cur: "current \<in> S" "claim_key current \<in> S" using names(1) that fitting by (auto simp: goal_name_def)
    have "store_change S 3 m (clear_key A b1 (snd (fleece_state_manager_remove_shared (snd (fleece_state_manager_remove_shared m (Some current))) (Some (claim_key current)))))"
      by (rule three_changes [OF r3, where f = "\<lambda>m. snd (fleece_state_manager_remove_shared m (Some current))"
            and g = "\<lambda>m. snd (fleece_state_manager_remove_shared m (Some (claim_key current)))" and h = "clear_key A b1"])
        (intro remove_change clear_key_change cur key; assumption)+
    from store_change_mono [OF this, of "3 + N + 2 * K"] show ?thesis unfolding library_done_def Let_def snd_conv by auto
  qed
  have blocked: "?ok (snd (library_blocked A en emb m b1 bb current))" if "current \<noteq> []" for bb
  proof -
    have cur: "claim_key current \<in> S" using names(1) that by (auto simp: goal_name_def)
    have "store_change S 3 m (clear_key A b1 (snd (fleece_state_manager_remove_shared
        (goal_pool_spawn_prerequisite A m (fleece_state_manager_get_node_id m) orig sim) (Some (claim_key current)))))" for orig sim
      by (rule three_changes [OF r3, where f = "\<lambda>m. goal_pool_spawn_prerequisite A m (fleece_state_manager_get_node_id m) orig sim"
            and g = "\<lambda>m. snd (fleece_state_manager_remove_shared m (Some (claim_key current)))" and h = "clear_key A b1"])
        (intro spawn_change remove_change clear_key_change cur key; assumption)+
    then have "store_change S (3 + N + 2 * K) m (clear_key A b1 (snd (fleece_state_manager_remove_shared
        (goal_pool_spawn_prerequisite A m (fleece_state_manager_get_node_id m) orig sim) (Some (claim_key current)))))" for orig sim
      using store_change_mono [of S 3 m _ "3 + N + 2 * K"] by simp
    then have "?ok (emb\<lparr>em_manager := Some (clear_key A b1 (snd (fleece_state_manager_remove_shared
        (goal_pool_spawn_prerequisite A m (fleece_state_manager_get_node_id m) orig sim) (Some (claim_key current)))))\<rparr>)" for orig sim by blast
    then show ?thesis using same by (simp add: library_blocked_def Let_def split: option.splits)
  qed
  show ?thesis
    using tick same exec finish blocked
    by (simp add: action_library_tick_def emb b1_def [symmetric] Let_def split: if_splits prod.splits option.splits)
      (metis snd_conv)+
qed

lemma publish_change:
  assumes "store_ready (Suc n) m" and "br_goal_pool_key_field b \<in> S"
  shows "store_change S 1 m (publish_key A b claimed m)"
  using set_named_change [OF assms(1,2) unat_text, of A "quoted claimed"] store_change_refl [OF assms(1)]
  by (simp add: publish_key_def Let_def)

lemma pool_tick_change:
  assumes en: "engine_bounded N K en" "natives_within S en" and emb: "em_manager emb = Some m" and ready: "store_ready (6 + N + 2 * K) m"
    and key: "br_goal_pool_key_field b \<in> S" and pool: "pool_names S A b m" and tick: "goal_pool_tick A en emb b = (b', emb')"
  shows "\<exists>m'. emb' = emb\<lparr>em_manager := Some m'\<rparr> \<and> store_change S (6 + N + 2 * K) m m'"
proof (cases "br_goal_pool_prefix b = []")
  case True
  then show ?thesis using tick emb store_change_refl [OF ready] by (intro exI [of _ m]) (simp add: goal_pool_tick_def)
next
  case False
  let ?cur = "goal_pool_read_current A m (fleece_state_manager_get_node_id m) (br_goal_pool_key_field b) FLEECE_FIELD_NAME_MAX"
  obtain rc claimed emb1 where call: "fleece_embedded_claim_best_goal A (ge_script en) emb (Some (br_goal_pool_prefix b))
      (if ?cur \<noteq> [] then Some ?cur else None) (br_goal_pool_contest_margin b)
      (br_tick_count b mod FLEECE_GOAL_POOL_REASSERT_EVERY_TICKS = 0) FLEECE_FIELD_NAME_MAX = (rc, claimed, emb1)" by (metis prod_cases3)
  have r: "store_ready (2 + (1 + (3 + N + 2 * K))) m" using ready by (simp add: add.commute add.left_commute)
  have c: "goal_name S k" if "(if ?cur \<noteq> [] then Some ?cur else None) = Some k" for k
    using that read_current_name pool by (auto simp: goal_name_def pool_names_def fleece_state_manager_get_node_id_def split: if_splits)
  note A = auction_change [OF emb store_ready_mono [OF ready] c _ call]
  obtain m1 where m1: "emb1 = emb\<lparr>em_manager := Some m1\<rparr>" "store_change S 2 m m1" using A(1) pool by (auto simp: pool_names_def)
  have claimed: "claimed = [] \<or> goal_name S claimed" using A(2) pool by (simp add: pool_names_def)
  have r1: "store_ready (1 + (3 + N + 2 * K)) m1" using store_ready_step [OF r m1(2)] .
  have p: "store_change S 1 m1 (publish_key A b claimed m1)" using publish_change [of "3 + N + 2 * K" m1 b A claimed] r1 key by simp
  have t: "action_library_tick A en (emb\<lparr>em_manager := Some (publish_key A b claimed m1)\<rparr>) b claimed = (b', emb')"
    using tick False emb call m1(1) by (simp add: goal_pool_tick_def Let_def)
  obtain m' where "emb' = emb\<lparr>em_manager := Some m'\<rparr>" "store_change S (3 + N + 2 * K) (publish_key A b claimed m1) m'"
    using library_change [OF en _ store_ready_step [OF r1 p] claimed key t] by auto
  moreover have "store_change S (2 + (1 + (3 + N + 2 * K))) m m'"
    using store_change_trans [OF m1(2) store_change_trans [OF p calculation(2)]] .
  ultimately show ?thesis by (auto simp: add.commute add.left_commute)
qed

lemma exec_change:
  assumes en: "engine_bounded N K en" "natives_within S en" and emb: "em_manager emb = Some m" and ready: "store_ready N m"
    and exec: "js_action_exec A en emb goap je a bb tick bb_empty = (rc, finished, dst, emb', je')"
  shows "\<exists>m'. emb' = emb\<lparr>em_manager := Some m'\<rparr> \<and> store_change S N m m'" and "bb_shaped (2 * K) dst"
proof -
  obtain fn je1 where g: "goap_get_js_fn A en je GOAP_FN_EXEC a 0 (fleece_goap_action_exec goap a) = (fn, je1)" by fastforce
  have same: "\<exists>m'. emb = emb\<lparr>em_manager := Some m'\<rparr> \<and> store_change S N m m'"
    using emb store_change_refl [OF ready] by (intro exI [of _ m]) simp
  have nil: "bb_shaped (2 * K) bb_empty" by (simp add: bb_shaped_def bb_empty_def)
  show "\<exists>m'. emb' = emb\<lparr>em_manager := Some m'\<rparr> \<and> store_change S N m m'"
    using exec same body_change [OF en emb ready]
    by (auto simp: js_action_exec_def g Let_def split: if_splits prod.splits option.splits)
  show "bb_shaped (2 * K) dst"
    using exec nil js_to_bb_shaped [OF en(1)]
    by (auto simp: js_action_exec_def g Let_def split: if_splits prod.splits option.splits)
qed

end

interpretation any_name: writable_names "Collect cstring"
  by unfold_locales (simp_all add: name_ok_def)

interpretation short_name: writable_names "Collect name_ok"
  by unfold_locales (simp_all add: name_ok_def)

text \<open>Of C strings in general nothing has to be assumed.\<close>

lemma any_call: "store_op en c = Some oper \<Longrightarrow> op_within (Collect cstring) oper"
  using store_op_cstring [of en c oper] store_op_no_tick [of en c] by (cases oper) auto

lemma any_natives: "natives_within (Collect cstring) en"
  by (simp add: natives_within_def any_call)

lemma any_pool: "sm_inv m \<Longrightarrow> pool_names (Collect cstring) A b m"
  using listed_name(1) read_current_name [of A m "sm_node_id m" "br_goal_pool_key_field b"]
  by (auto simp: pool_names_def name_ok_def intro!: claim_key_name(1))

end
