(* ===== verification/Brain_Claims.thy ===== *)
theory Brain_Claims
  imports Brain_Proofs Goap_Selection
begin

text \<open>
  The brain: a tick touches only the node's own and the shared fields and a bounded number of them; with
  memory it always returns, the watchdog ends every action in time, and the action chosen starts a
  plan that is sound in the current state for the best goal that can be planned.
\<close>

section \<open>One tick and the store\<close>

text \<open>What the goal pool leaves alone.\<close>

definition brain_core_same :: "'v FleeceGoapBrain \<Rightarrow> 'v FleeceGoapBrain \<Rightarrow> bool" where
  "brain_core_same b b' \<longleftrightarrow>
     br_eval b' = br_eval b \<and> br_plan b' = br_plan b \<and> br_goal_idx b' = br_goal_idx b \<and> br_action_idx b' = br_action_idx b \<and>
     br_exec_progress b' = br_exec_progress b \<and> br_max_action_ticks b' = br_max_action_ticks b \<and>
     br_goal_cooldown_until b' = br_goal_cooldown_until b \<and> br_goal_cooldown_ticks b' = br_goal_cooldown_ticks b \<and>
     br_tick_count b' = br_tick_count b \<and> br_goal_pool_key_field b' = br_goal_pool_key_field b \<and>
     br_world_model_cb b' = br_world_model_cb b"

lemma event_core [simp]: "brain_core_same b (brain_event e b)"
  by (simp add: brain_core_same_def brain_event_def)

lemma core_trans: "brain_core_same b b1 \<Longrightarrow> brain_core_same b1 b2 \<Longrightarrow> brain_core_same b b2"
  by (simp add: brain_core_same_def)

lemma fire_core [simp]: "brain_core_same b (goal_pool_fire_event kind key b)"
  by (simp add: brain_core_same_def brain_event_def goal_pool_fire_event_def)

lemma log_core [simp]: "brain_core_same b (log_transition current b)"
  by (simp add: brain_core_same_def brain_event_def goal_pool_fire_event_def log_transition_def Let_def)

lemma library_core: "brain_core_same b (fst (action_library_tick A en emb b current))"
proof -
  have "brain_core_same b (goal_pool_fire_event kind key (log_transition current b\<lparr>br_goal_pool_last_logged := x\<rparr>))" for kind key x
    by (simp add: brain_core_same_def brain_event_def goal_pool_fire_event_def log_transition_def Let_def)
  then show ?thesis
    by (simp add: action_library_tick_def library_done_def library_blocked_def Let_def split: option.splits prod.splits)
qed

lemma core_refl [simp]: "brain_core_same b b"
  by (simp add: brain_core_same_def)

lemma library_coreD: "action_library_tick A en emb b current = (b', emb') \<Longrightarrow> brain_core_same b b'"
  using library_core [of b A en emb current] by simp

lemma pool_core: "goal_pool_tick A en emb b = (b', emb') \<Longrightarrow> brain_core_same b b'"
  by (auto simp: goal_pool_tick_def Let_def dest: library_coreD split: if_splits option.splits prod.splits)

context writable_names
begin

lemma run_action_change:
  assumes en: "engine_bounded N K en" "natives_within S en" and emb: "em_manager emb = Some m" and ready: "store_ready (N + 2 * K) m"
    and run: "run_action A en goap a b emb = r" and emb': "emb' = (case r of Inl (_, _, e) \<Rightarrow> e | Inr (_, _, e) \<Rightarrow> e)"
  shows "\<exists>m'. emb' = emb\<lparr>em_manager := Some m'\<rparr> \<and> store_change S (N + 2 * K) m m'"
proof -
  let ?ok = "\<lambda>emb'. \<exists>m'. emb' = emb\<lparr>em_manager := Some m'\<rparr> \<and> store_change S (N + 2 * K) m m'"
  define b1 where "b1 = b\<lparr>br_exec_progress := br_exec_progress b + 1\<rparr>"
  obtain rc bb where fresh: "brain_fresh_bb A emb b1 bb_empty = (rc, bb)" by fastforce
  obtain rc1 fin dst emb1 je where exec: "js_action_exec A en emb goap (br_eval b1) a bb (br_exec_progress b1) bb_empty = (rc1, fin, dst, emb1, je)"
    by (metis prod_cases5)
  obtain rc2 emb2 where commit: "fleece_goap_js_bb_commit (\<lambda>_. A) emb1 dst = (rc2, emb2)" by fastforce
  have N: "store_ready N m" by (rule store_ready_mono [OF ready]) simp
  obtain m1 where m1: "emb1 = emb\<lparr>em_manager := Some m1\<rparr>" "store_change S N m m1" using exec_change(1) [OF en emb N exec] by blast
  have same: "?ok emb" using emb store_change_refl [OF ready] by (intro exI [of _ m]) simp
  have one: "?ok emb1" using m1 store_change_mono [of S N m m1 "N + 2 * K"] by auto
  have two: "?ok emb2"
    using commit_change [OF _ store_ready_step [OF ready m1(2)] exec_change(2) [OF en emb N exec] commit] m1 store_change_trans [OF m1(2)]
    by fastforce
  show ?thesis
    unfolding emb' run [symmetric] using same one two
    by (simp add: run_action_def b1_def [symmetric] fresh exec commit Let_def split: if_splits prod.splits)
qed

lemma tick_change:
  assumes en: "engine_bounded N K en" "natives_within S en" and emb: "em_manager emb = Some m" and ready: "store_ready (6 + 2 * N + 4 * K) m"
    and key: "br_goal_pool_key_field b \<in> S" and pool: "pool_names S A b m"
    and tick: "fleece_goap_brain_tick A en goap b emb = Some (rc, b', emb')"
  shows "\<exists>m'. emb' = emb\<lparr>em_manager := Some m'\<rparr> \<and> store_change S (6 + 2 * N + 4 * K) m m'"
proof -
  define b0 where "b0 = b\<lparr>br_tick_count := br_tick_count b + 1\<rparr>"
  obtain b1 emb1 where pt: "goal_pool_tick A en emb b0 = (b1, emb1)" by fastforce
  have r: "store_ready (6 + N + 2 * K + (N + 2 * K)) m" by (rule store_ready_mono [OF ready]) simp
  obtain m1 where m1: "emb1 = emb\<lparr>em_manager := Some m1\<rparr>" "store_change S (6 + N + 2 * K) m m1"
    using pool_tick_change [OF en emb store_ready_mono [OF ready] _ _ pt] key pool by (auto simp: b0_def pool_names_def)
  have r1: "store_ready (N + 2 * K) m1" using store_ready_step [OF r m1(2)] .
  have e1: "em_manager emb1 = Some m1" by (simp add: m1(1))
  have keep: "store_change S (6 + 2 * N + 4 * K) m m1" by (rule store_change_mono [OF m1(2)]) simp
  have same: "emb' = e" if "replan_phase A en goap b2 e = Some (rc, b', emb')" for b2 e
    using that by (auto simp: replan_phase_def split: prod.splits if_splits)
  show ?thesis
  proof (cases "br_action_idx b1")
    case None
    then have "emb' = emb1" using tick pt same by (simp add: fleece_goap_brain_tick_def b0_def [symmetric])
    then show ?thesis using m1(1) keep by blast
  next
    case (Some a)
    obtain m2 where m2: "(case run_action A en goap a b1 emb1 of Inl (_, _, e) \<Rightarrow> e | Inr (_, _, e) \<Rightarrow> e) = emb1\<lparr>em_manager := Some m2\<rparr>"
      "store_change S (N + 2 * K) m1 m2" using run_action_change [OF en e1 r1 refl refl] by blast
    have "emb' = (case run_action A en goap a b1 emb1 of Inl (_, _, e) \<Rightarrow> e | Inr (_, _, e) \<Rightarrow> e)"
      using tick pt Some same by (auto simp: fleece_goap_brain_tick_def b0_def [symmetric] split: sum.splits prod.splits option.splits)
    moreover have "store_change S (6 + 2 * N + 4 * K) m m2"
      by (rule store_change_mono [OF store_change_trans [OF m1(2) m2(2)]]) simp
    ultimately show ?thesis using m1(1) m2(1) by auto
  qed
qed

end

text \<open>
  A tick of the brain is safe for the store, whatever the scripts compute.  Of scripts that
  make at most \<open>N\<close> native calls in a body and return objects of at most \<open>K\<close> properties, a tick, with its
  auction, its action library and its planning, keeps the store's invariant, the node id and the
  table of peers; it changes no field of another node, and makes at most 6 + 2N + 4K writes.
\<close>

theorem brain_tick_safe:
  assumes "engine_bounded N K en" and "em_manager emb = Some m" and "sm_inv m"
    and "unat (sm_local_timestamp m) + (6 + 2 * N + 4 * K) \<le> unat UINT64_MAX" and "cstring (br_goal_pool_key_field b)"
    and "fleece_goap_brain_tick A en goap b emb = Some (rc, b', emb')"
  shows "\<exists>m'. emb' = emb\<lparr>em_manager := Some m'\<rparr> \<and> sm_inv m' \<and> sm_node_id m' = sm_node_id m \<and>
    sm_peers_seen m' = sm_peers_seen m \<and> sm_current_tick m' = sm_current_tick m \<and>
    unat (sm_local_timestamp m') \<le> unat (sm_local_timestamp m) + (6 + 2 * N + 4 * K) \<and>
    (\<forall>ow k. ow \<noteq> FLEECE_SHARED_OWNER_ID \<and> ow \<noteq> sm_node_id m \<longrightarrow> view m' (ow, k) = view m (ow, k))"
  using any_name.tick_change [OF assms(1) any_natives assms(2) _ _ any_pool [OF assms(3)] assms(6)] assms(3-5)
  by (auto simp: store_ready_def store_change_def)

text \<open>A tick as steps of the swarm's protocol.\<close>

lemma ops_reachable:
  "swarm_reachable ids s \<Longrightarrow> sw_nodes s n = Some m \<Longrightarrow> \<forall>(A, oper)\<in>set ops. op_within (Collect name_ok) oper \<Longrightarrow>
   unat (sm_local_timestamp m) + length ops \<le> unat UINT64_MAX \<Longrightarrow>
   \<exists>t. swarm_reachable ids t \<and> sw_nodes t = (sw_nodes s)(n \<mapsto> foldl (\<lambda>m (A, oper). run_op A oper m) m ops) \<and> sw_hist s \<subseteq> sw_hist t"
proof (induction ops arbitrary: s m)
  case Nil
  then show ?case by (auto simp: fun_upd_idem)
next
  case (Cons p ops)
  obtain A oper where p: "p = (A, oper)" by fastforce
  let ?m = "run_op A oper m" and ?s = "publish s n (run_op A oper m)"
  have within: "op_within (Collect name_ok) oper" using Cons.prems(3) p by simp
  then have ok: "op_ok oper" by (cases oper) simp_all
  have clk: "sm_local_timestamp m \<noteq> UINT64_MAX" using Cons.prems(4) clock_room by simp
  have "node_inv (sw_hist s) n m" using swarm_invD(1) [OF swarm_reachable_inv] Cons.prems(1,2) by blast
  then have "script_change m ?m"
    using run_op_change [of m oper A] clk short_name.op_within_cstring [OF within] by (simp add: node_inv_def)
  then have room: "unat (sm_local_timestamp ?m) + length ops \<le> unat UINT64_MAX" using Cons.prems(4) by (simp add: script_change_def)
  have reach: "swarm_reachable ids ?s" using Cons.prems(1,2) clk ok by (auto intro: swarm_reachable.step swarm_step.local_op)
  have "sw_nodes ?s n = Some ?m" by (simp add: publish_def)
  then obtain t where t: "swarm_reachable ids t" "sw_nodes t = (sw_nodes ?s)(n \<mapsto> foldl (\<lambda>m (A, oper). run_op A oper m) ?m ops)"
    "sw_hist ?s \<subseteq> sw_hist t"
    using Cons.IH [OF reach _ _ room] Cons.prems(3) by fastforce
  then have "sw_nodes t = (sw_nodes s)(n \<mapsto> foldl (\<lambda>m (A, oper). run_op A oper m) m (p # ops))" "sw_hist s \<subseteq> sw_hist t"
    by (simp_all add: publish_def p)
  then show ?case using t(1) by blast
qed

text \<open>The keys of the pool leave room for the prefix of their claims.\<close>

definition short_goals :: "allocator \<Rightarrow> 'v FleeceGoapBrain \<Rightarrow> FleeceStateManager \<Rightarrow> bool" where
  "short_goals A b m \<longleftrightarrow>
     length (goal_pool_read_current A m (sm_node_id m) (br_goal_pool_key_field b) FLEECE_FIELD_NAME_MAX) + 6 < FLEECE_FIELD_NAME_MAX \<and>
     (\<forall>k\<in>set (fleece_state_manager_list_fields m FLEECE_SHARED_OWNER_ID FLEECE_JS_LIST_MAX).
        take (length (br_goal_pool_prefix b)) k = br_goal_pool_prefix b \<longrightarrow> length k + 6 < FLEECE_FIELD_NAME_MAX)"

lemma short_pool:
  assumes inv: "sm_inv m" and short: "short_goals A b m"
  shows "pool_names (Collect name_ok) A b m"
proof -
  have "name_ok (claim_key k)" if "cstring k" "length k + 6 < FLEECE_FIELD_NAME_MAX" for k
    using claim_key_name(1) [OF that(1)] that(2) by (simp add: name_ok_def claim_key_def snprintf_s_def lit_def)
  then show ?thesis
    using short listed_name(1) [OF inv] read_current_name [of A m "sm_node_id m" "br_goal_pool_key_field b"]
    by (auto simp: pool_names_def short_goals_def name_ok_def)
qed

text \<open>
  C29. The brain lives inside the swarm's protocol.  If the store of the engine is node \<open>n\<close> of a reachable swarm, then
  after a tick of the brain, with its auction, its action library, the body it runs and what it commits, the
  swarm with the engine's store in place of \<open>n\<close> is reachable by steps of the protocol, and no other
  node has moved.  Names must be shorter than 64 characters: those of the fields the bodies write through native calls, that of
  the key field, and the keys of
  the pool together with the prefix of a claim; the engine's calls and results are bounded, and the clock has room for that many writes.  So convergence, uniqueness of stamps and freedom from resurrection
  hold for nodes driven by brains.
\<close>

theorem brain_refines_swarm:
  assumes reach: "swarm_reachable ids s" and node: "sw_nodes s n = em_manager emb" "em_manager emb = Some m"
    and en: "engine_bounded N K en" "\<forall>emb fn args. \<forall>c\<in>set (ge_natives en emb fn args). call_fits (ge_script en) c"
    and room: "unat (sm_local_timestamp m) + (6 + 2 * N + 4 * K) \<le> unat UINT64_MAX"
    and key: "name_ok (br_goal_pool_key_field b)" and short: "short_goals A b m"
    and tick: "fleece_goap_brain_tick A en goap b emb = Some (rc, b', emb')"
  shows "\<exists>t. swarm_reachable ids t \<and> sw_nodes t n = em_manager emb' \<and>
    (\<forall>k. k \<noteq> n \<longrightarrow> sw_nodes t k = sw_nodes s k) \<and> sw_hist s \<subseteq> sw_hist t"
proof -
  have m: "sw_nodes s n = Some m" using node by simp
  have inv: "sm_inv m" using swarm_invD(1) [OF swarm_reachable_inv [OF reach] m] by (simp add: node_inv_def)
  have "op_within (Collect name_ok) oper" if "op_ok oper" "oper \<noteq> Tick" for oper using that by (cases oper) simp_all
  then have natives: "natives_within (Collect name_ok) en"
    using en(2) store_op_no_tick by (fastforce simp: natives_within_def call_fits_def)
  have ready: "store_ready (6 + 2 * N + 4 * K) m" using inv room by (simp add: store_ready_def)
  obtain m' where m': "emb' = emb\<lparr>em_manager := Some m'\<rparr>" "store_change (Collect name_ok) (6 + 2 * N + 4 * K) m m'"
    using short_name.tick_change [OF en(1) natives node(2) ready _ short_pool [OF inv short] tick] key by auto
  then obtain ops where ops: "length ops \<le> 6 + 2 * N + 4 * K" "\<forall>(A, oper)\<in>set ops. op_within (Collect name_ok) oper"
    "m' = foldl (\<lambda>m (A, oper). run_op A oper m) m ops" by (auto simp: store_change_def ops_run_def)
  then obtain t where "swarm_reachable ids t" "sw_nodes t = (sw_nodes s)(n \<mapsto> m')" "sw_hist s \<subseteq> sw_hist t"
    using ops_reachable [OF reach m ops(2)] room by auto
  then show ?thesis using m'(1) by (intro exI [of _ t]) simp
qed

section \<open>Choosing goal and action\<close>

definition plan_for :: "allocator \<Rightarrow> FleeceGoap \<Rightarrow> FleeceGoapEval \<Rightarrow> FleeceGoapBlackboard \<Rightarrow> nat \<Rightarrow> FleeceGoapPlan option" where
  "plan_for A goap eval bb goal = the (fleece_goap_plan A goap bb (Some [fleece_goap_goal_id goap goal]) eval)"

lemma plan_for_returns: "fleece_goap_plan A goap bb (Some [fleece_goap_goal_id goap goal]) eval = Some (plan_for A goap eval bb goal)"
  using plan_returns [of A goap bb "Some [fleece_goap_goal_id goap goal]" eval] by (auto simp: plan_for_def)

text \<open>A goal that a tick passes over: it cools down, or has no plan, or only the empty one.\<close>

definition passed_over :: "allocator \<Rightarrow> FleeceGoap \<Rightarrow> FleeceGoapEval \<Rightarrow> FleeceGoapBlackboard \<Rightarrow> 'v FleeceGoapBrain \<Rightarrow> nat \<Rightarrow> bool" where
  "passed_over A goap eval bb b goal \<longleftrightarrow>
     goal_cooling b goal = Some True \<or> goal_cooling b goal = Some False \<and> fleece_goap_plan_length (plan_for A goap eval bb goal) = 0"

text \<open>The cooldowns after passing over goals.\<close>

definition cooled :: "'v FleeceGoapBrain \<Rightarrow> nat set \<Rightarrow> u32 list \<Rightarrow> bool" where
  "cooled b passed until' \<longleftrightarrow> length until' = length (br_goal_cooldown_until b) \<and>
     (\<forall>h<length until'. until' ! h =
        (if h \<in> passed \<and> br_goal_cooldown_ticks b \<noteq> 0 \<and> goal_cooling b h = Some False
         then br_tick_count b + br_goal_cooldown_ticks b else br_goal_cooldown_until b ! h))"

text \<open>The outcome of a search through the ranked goals: those passed over, and what is chosen, if anything.\<close>

definition replan_outcome ::
    "allocator \<Rightarrow> FleeceGoap \<Rightarrow> FleeceGoapEval \<Rightarrow> FleeceGoapBlackboard \<Rightarrow> nat list \<Rightarrow> nat list \<Rightarrow> 'v FleeceGoapBrain \<Rightarrow> 'v FleeceGoapBrain \<Rightarrow> bool" where
  "replan_outcome A goap eval bb passed rest b b' \<longleftrightarrow>
     (\<forall>h\<in>set passed. passed_over A goap eval bb b h) \<and>
     cooled b (set passed) (br_goal_cooldown_until b') \<and> br_goal_cooldown_ticks b' = br_goal_cooldown_ticks b \<and>
     br_max_action_ticks b' = br_max_action_ticks b \<and> br_tick_count b' = br_tick_count b \<and>
     br_goal_pool_key_field b' = br_goal_pool_key_field b \<and>
     (case rest of
        [] \<Rightarrow> br_goal_idx b' = br_goal_idx b \<and> br_action_idx b' = br_action_idx b \<and> br_plan b' = br_plan b \<and>
              br_exec_progress b' = br_exec_progress b
      | g # _ \<Rightarrow> goal_cooling b g = Some False \<and> br_goal_idx b' = Some g \<and> br_plan b' = plan_for A goap eval bb g \<and>
                 fleece_goap_plan_length (br_plan b') \<noteq> 0 \<and> br_exec_progress b' = 0 \<and>
                 br_action_idx b' = fleece_goap_find_action goap (fleece_goap_plan_action_id (br_plan b') 0))"

lemma cooling_cool_goal: "h \<noteq> g \<Longrightarrow> goal_cooling (cool_goal b g) h = goal_cooling b h"
  by (simp add: goal_cooling_def cool_goal_def)

lemma cool_goal_fields:
  "br_goal_cooldown_ticks (cool_goal b g) = br_goal_cooldown_ticks b" "br_tick_count (cool_goal b g) = br_tick_count b"
  "br_goal_cooldown_until (cool_goal b g) =
     (if br_goal_cooldown_ticks b = 0 then br_goal_cooldown_until b
      else (br_goal_cooldown_until b)[g := br_tick_count b + br_goal_cooldown_ticks b])"
  "br_goal_pool_key_field (cool_goal b g) = br_goal_pool_key_field b"
  by (simp_all add: cool_goal_def)

lemma cooled_cool_goal:
  assumes c: "cooled (cool_goal b g) P u" and g: "g \<notin> P" "goal_cooling b g = Some False"
  shows "cooled b (insert g P) u"
  unfolding cooled_def
proof (intro conjI allI impI)
  have len: "length (br_goal_cooldown_until (cool_goal b g)) = length (br_goal_cooldown_until b)" by (simp add: cool_goal_fields)
  then show l: "length u = length (br_goal_cooldown_until b)" using c by (simp add: cooled_def)
  fix h assume h: "h < length u"
  then have u: "u ! h = (if h \<in> P \<and> br_goal_cooldown_ticks b \<noteq> 0 \<and> goal_cooling (cool_goal b g) h = Some False
      then br_tick_count b + br_goal_cooldown_ticks b else br_goal_cooldown_until (cool_goal b g) ! h)"
    using c by (simp add: cooled_def cool_goal_fields(1,2))
  show "u ! h = (if h \<in> insert g P \<and> br_goal_cooldown_ticks b \<noteq> 0 \<and> goal_cooling b h = Some False
      then br_tick_count b + br_goal_cooldown_ticks b else br_goal_cooldown_until b ! h)"
  proof (cases "h = g")
    case True
    then show ?thesis using u g h l by (simp add: cool_goal_fields(3))
  next
    case False
    then have "goal_cooling (cool_goal b g) h = goal_cooling b h" by (rule cooling_cool_goal)
    then show ?thesis using u False by (simp add: cool_goal_fields(3))
  qed
qed

lemma outcome_cooling:
  assumes "goal_cooling b g = Some True" and "replan_outcome A goap eval bb passed rest b b'"
  shows "replan_outcome A goap eval bb (g # passed) rest b b'"
  using assms by (auto simp: replan_outcome_def passed_over_def cooled_def)

lemma outcome_empty:
  assumes g: "goal_cooling b g = Some False" "fleece_goap_plan_length (plan_for A goap eval bb g) = 0" "g \<notin> set (passed @ rest)"
    and out: "replan_outcome A goap eval bb passed rest (cool_goal b g) b'"
  shows "replan_outcome A goap eval bb (g # passed) rest b b'"
proof -
  have h: "goal_cooling (cool_goal b g) h = goal_cooling b h" if "h \<in> set (passed @ rest)" for h
    using that g(3) by (intro cooling_cool_goal) auto
  then have "passed_over A goap eval bb b h" if "h \<in> set passed" for h
    using out that by (auto simp: replan_outcome_def passed_over_def)
  moreover have "cooled b (insert g (set passed)) (br_goal_cooldown_until b')"
    by (rule cooled_cool_goal) (use out g in \<open>simp_all add: replan_outcome_def\<close>)
  moreover have "goal_cooling b (hd rest) = Some False" if "rest \<noteq> []"
    using out h [of "hd rest"] that by (cases rest) (auto simp: replan_outcome_def)
  ultimately show ?thesis
    using out g by (auto simp: replan_outcome_def passed_over_def cool_goal_def split: list.splits)
qed

lemma replan_loop_outcome:
  "replan_loop A goap eval bb ranked b = Some b' \<Longrightarrow> distinct ranked \<Longrightarrow>
   \<exists>passed rest. ranked = passed @ rest \<and> replan_outcome A goap eval bb passed rest b b'"
proof (induction ranked arbitrary: b)
  case Nil
  then show ?case by (auto simp: replan_outcome_def cooled_def brain_event_def)
next
  case (Cons g ranked)
  consider (cooling) "goal_cooling b g = Some True" | (empty) "goal_cooling b g = Some False" "fleece_goap_plan_length (plan_for A goap eval bb g) = 0"
    | (taken) "goal_cooling b g = Some False" "fleece_goap_plan_length (plan_for A goap eval bb g) \<noteq> 0"
    using Cons.prems(1) by (cases "goal_cooling b g") auto
  then show ?case
  proof cases
    case cooling
    then have this_loop: "replan_loop A goap eval bb ranked b = Some b'" using Cons.prems(1) by simp
    obtain passed rest where "ranked = passed @ rest" "replan_outcome A goap eval bb passed rest b b'"
      using Cons.IH [OF this_loop] Cons.prems(2) by auto
    then show ?thesis using outcome_cooling [OF cooling] by (intro exI [of _ "g # passed"] exI [of _ rest]) simp
  next
    case empty
    then have this_loop: "replan_loop A goap eval bb ranked (cool_goal b g) = Some b'"
      using Cons.prems(1) by (simp add: plan_for_returns split: option.splits)
    obtain passed rest where pr: "ranked = passed @ rest" "replan_outcome A goap eval bb passed rest (cool_goal b g) b'"
      using Cons.IH [OF this_loop] Cons.prems(2) by auto
    then have "g \<notin> set (passed @ rest)" using Cons.prems(2) by simp
    from outcome_empty [OF empty this pr(2)] show ?thesis using pr(1) by (intro exI [of _ "g # passed"] exI [of _ rest]) simp
  next
    case taken
    then have "b' = brain_event EVENT_REPLAN (b\<lparr>br_goal_idx := Some g,
        br_action_idx := fleece_goap_find_action goap (fleece_goap_plan_action_id (plan_for A goap eval bb g) 0),
        br_exec_progress := 0, br_plan := plan_for A goap eval bb g\<rparr>)"
      using Cons.prems(1) by (simp add: plan_for_returns)
    then have "replan_outcome A goap eval bb [] (g # ranked) b b'"
      using taken by (simp add: replan_outcome_def cooled_def brain_event_def)
    then show ?thesis by (intro exI [of _ "[]"] exI [of _ "g # ranked"]) simp
  qed
qed

lemma index_of_distinct:
  assumes "distinct (map f xs)" and "i < length xs"
  shows "index_of (\<lambda>r. f r = f (xs ! i)) xs = Some i"
  by (rule index_of_unique) (use assms in \<open>auto simp: distinct_conv_nth\<close>)

lemma plan_targets_goal:
  assumes "distinct (map go_id (ga_goals goap))" and "g < length (ga_goals goap)"
    and "plan_targets A goap (Some [fleece_goap_goal_id goap g]) = Some targets"
  shows "targets = [g]"
  using assms index_of_distinct [OF assms(1,2)]
  by (simp add: plan_targets_def fleece_goap_goal_id_def row_at_def fleece_goap_find_goal_def Let_def split: if_splits)

text \<open>The action a plan starts with, executable in the current state, and the rest of the way to the goal.\<close>

definition starts_plan :: "allocator \<Rightarrow> FleeceGoap \<Rightarrow> FleeceGoapEval \<Rightarrow> FleeceGoapBlackboard \<Rightarrow> nat \<Rightarrow> nat \<Rightarrow> nat \<Rightarrow> bool" where
  "starts_plan A goap eval bb g a n \<longleftrightarrow>
     (\<exists>acts bb0 bb1 cost. fleece_goap_bb_clone A bb = (0, bb0) \<and> action_pre_ok eval a bb0 \<and>
        run_actions goap eval (bb0, d_zero) (a # acts) = Some (bb1, cost) \<and> goals_met [g] bb1 eval \<and>
        n = Suc (length acts) \<and> n \<le> unat (ga_max_plan_depth goap))"

lemma first_action:
  assumes ids: "distinct (map ac_id (ga_actions goap))" "distinct (map go_id (ga_goals goap))" and g: "g < length (ga_goals goap)"
    and n: "fleece_goap_plan_length (plan_for A goap eval bb g) \<noteq> 0"
  shows "\<exists>a. fleece_goap_find_action goap (fleece_goap_plan_action_id (plan_for A goap eval bb g) 0) = Some a \<and>
    starts_plan A goap eval bb g a (fleece_goap_plan_length (plan_for A goap eval bb g))"
proof -
  obtain plan where p: "plan_for A goap eval bb g = Some plan" "pl_length plan \<noteq> 0"
    using n by (auto simp: fleece_goap_plan_length_def split: option.splits)
  from plan_found [OF plan_for_returns [of A goap bb g eval, unfolded p(1)]] obtain targets bb0 where
    t: "plan_targets A goap (Some [fleece_goap_goal_id goap g]) = Some targets" and c: "fleece_goap_bb_clone A bb = (0, bb0)"
    and e: "plan_explained A goap eval bb0 targets plan" by blast
  from e p(2) obtain acts bb1 where acts: "run_actions goap eval (bb0, d_zero) acts = Some (bb1, pl_total_cost plan)" "goals_met targets bb1 eval"
    "length acts \<le> unat (ga_max_plan_depth goap)" "pl_action_ids plan = Ids (map (\<lambda>a. ac_id (ga_actions goap ! a)) acts)" "pl_length plan = length acts"
    by (auto simp: plan_explained_def)
  then obtain a as where a: "acts = a # as" using p(2) by (cases acts) auto
  then have lt: "a < length (ga_actions goap)" and pre: "action_pre_ok eval a bb0" using acts(1) by (auto split: if_splits)
  have "fleece_goap_plan_action_id (Some plan) 0 = Some (ac_id (ga_actions goap ! a))"
    using acts(4,5) a by (simp add: fleece_goap_plan_action_id_def row_at_def)
  then have "fleece_goap_find_action goap (fleece_goap_plan_action_id (Some plan) 0) = Some a"
    using index_of_distinct [OF ids(1) lt] by (simp add: fleece_goap_find_action_def)
  moreover have "starts_plan A goap eval bb g a (length acts)"
    unfolding starts_plan_def using c pre acts(1-3) a plan_targets_goal [OF ids(2) g t]
    by (intro exI [of _ as] exI [of _ bb0] exI [of _ bb1] exI [of _ "pl_total_cost plan"]) (simp del: run_actions.simps)
  ultimately show ?thesis using p(1) acts(5) by (simp add: fleece_goap_plan_length_def)
qed

lemma ranked_goals: "set (fleece_goap_rank_goals goap bb eval thr cap) \<subseteq> {..<length (ga_goals goap)}"
    and ranked_distinct: "distinct (fleece_goap_rank_goals goap bb eval thr cap)"
  by (auto simp: fleece_goap_rank_goals_def Let_def split: option.splits dest: in_set_takeD)

lemma rank_goals_order:
  assumes "\<forall>g<length (ga_goals goap). \<not> is_nan (fleece_goap_goal_utility goap g bb)"
  shows "sorted_wrt (\<lambda>a b. d_le (fleece_goap_goal_utility goap b bb) (fleece_goap_goal_utility goap a bb)) (fleece_goap_rank_goals goap bb eval d_zero cap)"
proof (cases "ev_goal_satisfied eval")
  case (Some sat)
  have "\<not> is_nan d_zero" by code_simp
  from rank_goals_spec [OF assms this Some refl refl] show ?thesis by blast
qed (simp add: fleece_goap_rank_goals_def)

lemma rank_goals_set:
  "set (fleece_goap_rank_goals goap bb eval thr (fleece_goap_goal_count goap)) =
    {g. g < length (ga_goals goap) \<and> (\<exists>sat. ev_goal_satisfied eval = Some sat \<and> sat g bb False = (0, False)) \<and>
      \<not> d_le (fleece_goap_goal_utility goap g bb) thr}"
proof -
  have "take (fleece_goap_goal_count goap) (filter P [0..<length (ga_goals goap)]) = filter P [0..<length (ga_goals goap)]" for P
    using length_filter_le [of P "[0..<length (ga_goals goap)]"] by (simp add: fleece_goap_goal_count_def)
  moreover have "goal_open sat bb g \<longleftrightarrow> sat g bb False = (0, False)" for sat g
    by (cases "sat g bb False") (simp add: goal_open_def)
  ultimately show ?thesis
    by (cases "ev_goal_satisfied eval") (auto simp: fleece_goap_rank_goals_def)
qed

text \<open>What planning chooses, along the ranking of the goals.\<close>

lemma replan_choice:
  assumes ids: "distinct (map ac_id (ga_actions goap))" "distinct (map go_id (ga_goals goap))"
    and replan: "brain_replan A goap eval b bb = Some b'"
  shows "\<exists>passed rest.
    (if A (4 * fleece_goap_goal_count goap) then fleece_goap_rank_goals goap bb eval d_zero (fleece_goap_goal_count goap) else []) = passed @ rest \<and>
    (\<forall>h\<in>set passed. passed_over A goap eval bb b h) \<and> cooled b (set passed) (br_goal_cooldown_until b') \<and>
    (case rest of
       [] \<Rightarrow> br_goal_idx b' = None \<and> br_action_idx b' = None \<and> br_plan b' = None
     | g # _ \<Rightarrow> goal_cooling b g = Some False \<and> br_goal_idx b' = Some g \<and> br_exec_progress b' = 0 \<and>
         (\<exists>a. br_action_idx b' = Some a \<and> starts_plan A goap eval bb g a (fleece_goap_brain_plan_length b')))"
proof -
  let ?n = "fleece_goap_goal_count goap"
  define b0 where "b0 = b\<lparr>br_plan := None, br_goal_idx := None, br_action_idx := None\<rparr>"
  have same: "goal_cooling b0 = goal_cooling b" "passed_over A goap eval bb b0 = passed_over A goap eval bb b" "cooled b0 = cooled b"
    by (simp_all add: b0_def fun_eq_iff goal_cooling_def passed_over_def cooled_def)
  have none: "fleece_goap_rank_goals goap bb eval d_zero ?n = []" if "?n = 0"
    using that by (simp add: fleece_goap_rank_goals_def insertion_sort_def split: option.splits)
  show ?thesis
  proof (cases "A (4 * ?n) \<and> ?n \<noteq> 0")
    case False
    then have "b' = brain_event EVENT_IDLE b0"
      using replan by (auto simp: brain_replan_def b0_def Let_def mult.commute split: option.splits if_splits)
    then show ?thesis
      using False none by (intro exI [of _ "[]"]) (auto simp: b0_def brain_event_def cooled_def)
  next
    case True
    then have loop: "replan_loop A goap eval bb (fleece_goap_rank_goals goap bb eval d_zero ?n) b0 = Some b'"
      using replan by (simp add: brain_replan_def b0_def Let_def mult.commute split: option.splits)
    from replan_loop_outcome [OF loop ranked_distinct] obtain passed rest where
      pr: "fleece_goap_rank_goals goap bb eval d_zero ?n = passed @ rest" and out: "replan_outcome A goap eval bb passed rest b0 b'" by blast
    have "\<exists>a. br_action_idx b' = Some a \<and> starts_plan A goap eval bb g a (fleece_goap_brain_plan_length b')" if "rest = g # gs" for g gs
    proof -
      have g: "g < length (ga_goals goap)" using ranked_goals [of goap bb eval d_zero ?n] pr that by auto
      then show ?thesis
        using first_action [OF ids g, of A eval bb] out that by (auto simp: replan_outcome_def fleece_goap_brain_plan_length_def)
    qed
    then show ?thesis
      using out pr True same by (intro exI [of _ passed] exI [of _ rest]) (auto simp: replan_outcome_def b0_def split: list.splits)
  qed
qed

text \<open>
  C27. The brain works on the best goal that can be planned.  Let the identifiers of actions and of
  goals be distinct.  Planning goes through the goals that are open (their condition was evaluated and does not hold) and have a utility above zero,
  each of them once and, where no utility is NaN, in the order of descending utility; without memory for the list it goes through none.  Every goal before
  the chosen one is cooling down or has no plan (or an empty one), and those that
  were searched in vain begin to cool down, no others.  The chosen action is the first of a plan for the
  chosen goal: its precondition holds in the snapshot, and the actions of the plan lead from there to a state where the
  goal holds.  If no goal can be planned, the brain has neither goal nor action.
\<close>

theorem brain_replan_choice:
  assumes ids: "distinct (map ac_id (ga_actions goap))" "distinct (map go_id (ga_goals goap))"
    and replan: "brain_replan A goap eval b bb = Some b'"
  shows "\<exists>passed rest.
    set (passed @ rest) = {g. A (4 * length (ga_goals goap)) \<and> g < length (ga_goals goap) \<and>
      (\<exists>sat. ev_goal_satisfied eval = Some sat \<and> sat g bb False = (0, False)) \<and> \<not> d_le (fleece_goap_goal_utility goap g bb) d_zero} \<and>
    distinct (passed @ rest) \<and>
    ((\<forall>g<length (ga_goals goap). \<not> is_nan (fleece_goap_goal_utility goap g bb)) \<longrightarrow>
      sorted_wrt (\<lambda>g h. d_le (fleece_goap_goal_utility goap h bb) (fleece_goap_goal_utility goap g bb)) (passed @ rest)) \<and>
    (\<forall>h\<in>set passed. passed_over A goap eval bb b h) \<and> cooled b (set passed) (br_goal_cooldown_until b') \<and>
    (case rest of
       [] \<Rightarrow> br_goal_idx b' = None \<and> br_action_idx b' = None \<and> br_plan b' = None
     | g # _ \<Rightarrow> goal_cooling b g = Some False \<and> br_goal_idx b' = Some g \<and> br_exec_progress b' = 0 \<and>
         (\<exists>a. br_action_idx b' = Some a \<and> starts_plan A goap eval bb g a (fleece_goap_brain_plan_length b')))"
proof -
  let ?r = "if A (4 * fleece_goap_goal_count goap) then fleece_goap_rank_goals goap bb eval d_zero (fleece_goap_goal_count goap) else []"
  have "set ?r = {g. A (4 * length (ga_goals goap)) \<and> g < length (ga_goals goap) \<and>
      (\<exists>sat. ev_goal_satisfied eval = Some sat \<and> sat g bb False = (0, False)) \<and> \<not> d_le (fleece_goap_goal_utility goap g bb) d_zero}"
    using rank_goals_set [of goap bb eval d_zero] by (auto simp: fleece_goap_goal_count_def)
  moreover have "distinct ?r" by (simp add: ranked_distinct)
  moreover have "(\<forall>g<length (ga_goals goap). \<not> is_nan (fleece_goap_goal_utility goap g bb)) \<longrightarrow>
      sorted_wrt (\<lambda>g h. d_le (fleece_goap_goal_utility goap h bb) (fleece_goap_goal_utility goap g bb)) ?r"
    using rank_goals_order [of goap bb] by simp
  moreover obtain passed rest where "?r = passed @ rest" "\<forall>h\<in>set passed. passed_over A goap eval bb b h"
    "cooled b (set passed) (br_goal_cooldown_until b')"
    "case rest of
       [] \<Rightarrow> br_goal_idx b' = None \<and> br_action_idx b' = None \<and> br_plan b' = None
     | g # _ \<Rightarrow> goal_cooling b g = Some False \<and> br_goal_idx b' = Some g \<and> br_exec_progress b' = 0 \<and>
         (\<exists>a. br_action_idx b' = Some a \<and> starts_plan A goap eval bb g a (fleece_goap_brain_plan_length b'))"
    using replan_choice [OF assms] by blast
  ultimately show ?thesis by (intro exI [of _ passed] exI [of _ rest]) (simp only:)
qed

section \<open>Runs of ticks and the watchdog\<close>

text \<open>The plan can be released, and the action in flight has run for less than its limit.\<close>

definition brain_inv :: "'v FleeceGoapBrain \<Rightarrow> bool" where
  "brain_inv b \<longleftrightarrow> fleece_goap_plan_destroy (br_plan b) \<noteq> None \<and>
     (br_max_action_ticks b > 0 \<longrightarrow> br_exec_progress b < br_max_action_ticks b)"

text \<open>The array of cooldowns, made when the brain was created, has room for the goals of the tables.\<close>

definition tables_fit :: "FleeceGoap \<Rightarrow> 'v FleeceGoapBrain \<Rightarrow> bool" where
  "tables_fit goap b \<longleftrightarrow> br_goal_cooldown_ticks b = 0 \<or> fleece_goap_goal_count goap \<le> length (br_goal_cooldown_until b)"

definition brain_config_same :: "'v FleeceGoapBrain \<Rightarrow> 'v FleeceGoapBrain \<Rightarrow> bool" where
  "brain_config_same b b' \<longleftrightarrow> br_max_action_ticks b' = br_max_action_ticks b \<and>
     br_goal_cooldown_ticks b' = br_goal_cooldown_ticks b \<and> length (br_goal_cooldown_until b') = length (br_goal_cooldown_until b) \<and>
     br_goal_pool_key_field b' = br_goal_pool_key_field b"

lemma config_trans: "brain_config_same b b1 \<Longrightarrow> brain_config_same b1 b2 \<Longrightarrow> brain_config_same b b2"
  by (simp add: brain_config_same_def)

lemma fit_config: "tables_fit goap b \<Longrightarrow> brain_config_same b b' \<Longrightarrow> tables_fit goap b'"
  by (simp add: tables_fit_def brain_config_same_def)

lemma plan_intact:
  assumes "\<forall>k. A k"
  shows "fleece_goap_plan_destroy (plan_for A goap eval bb g) \<noteq> None"
proof (cases "plan_for A goap eval bb g")
  case (Some plan)
  from plan_found [OF plan_for_returns [of A goap bb g eval, unfolded Some]] assms show ?thesis
    by (auto simp: Some plan_explained_def fleece_goap_plan_destroy_def)
qed (simp add: fleece_goap_plan_destroy_def)

lemma replan_loop_total:
  assumes A: "\<forall>k. A k"
  shows "tables_fit goap b \<Longrightarrow> set ranked \<subseteq> {..<fleece_goap_goal_count goap} \<Longrightarrow> \<exists>b'. replan_loop A goap eval bb ranked b = Some b'"
proof (induction ranked arbitrary: b)
  case (Cons g ranked)
  have "goal_cooling b g \<noteq> None" using Cons.prems by (auto simp: goal_cooling_def tables_fit_def)
  then obtain c where c: "goal_cooling b g = Some c" by blast
  have "tables_fit goap (cool_goal b g)" using Cons.prems(1) by (auto simp: tables_fit_def cool_goal_def)
  then have "\<exists>b'. replan_loop A goap eval bb ranked (cool_goal b g) = Some b'" "\<exists>b'. replan_loop A goap eval bb ranked b = Some b'"
    using Cons by simp_all
  then show ?case using c plan_intact [OF A, of goap eval bb g] by (cases c) (auto simp: plan_for_returns)
qed simp

lemma replan_inv:
  assumes A: "\<forall>k. A k" and fit: "tables_fit goap b" and inv: "brain_inv b"
  shows "\<exists>b'. brain_replan A goap eval b bb = Some b' \<and> brain_inv b' \<and> brain_config_same b b' \<and> br_tick_count b' = br_tick_count b \<and>
    (br_action_idx b' = None \<or> br_exec_progress b' = 0)"
proof -
  let ?n = "fleece_goap_goal_count goap"
  define b0 where "b0 = b\<lparr>br_plan := None, br_goal_idx := None, br_action_idx := None\<rparr>"
  obtain u where u: "fleece_goap_plan_destroy (br_plan b) = Some u" using inv by (auto simp: brain_inv_def)
  show ?thesis
  proof (cases "?n = 0")
    case True
    then show ?thesis
      using inv u by (auto simp: brain_replan_def Let_def brain_event_def brain_inv_def brain_config_same_def fleece_goap_plan_destroy_def)
  next
    case False
    have sub: "set (fleece_goap_rank_goals goap bb eval d_zero ?n) \<subseteq> {..<?n}" using ranked_goals by (simp add: fleece_goap_goal_count_def)
    have fit0: "tables_fit goap b0" using fit by (simp add: tables_fit_def b0_def)
    obtain b' where loop: "replan_loop A goap eval bb (fleece_goap_rank_goals goap bb eval d_zero ?n) b0 = Some b'"
      using replan_loop_total [OF A fit0 sub, of eval bb] by blast
    from replan_loop_outcome [OF loop ranked_distinct] obtain passed rest where out: "replan_outcome A goap eval bb passed rest b0 b'" by blast
    have "brain_replan A goap eval b bb = Some b'" using loop u False A by (simp add: brain_replan_def b0_def Let_def)
    moreover have "brain_inv b' \<and> brain_config_same b b' \<and> br_tick_count b' = br_tick_count b \<and> (br_action_idx b' = None \<or> br_exec_progress b' = 0)"
      using out inv plan_intact [OF A, of goap eval bb]
      by (auto simp: replan_outcome_def cooled_def brain_inv_def brain_config_same_def b0_def fleece_goap_plan_destroy_def split: list.splits)
    ultimately show ?thesis by blast
  qed
qed

lemma replan_phase_inv:
  assumes A: "\<forall>k. A k" and fit: "tables_fit goap b" and inv: "brain_inv b" and idle: "br_action_idx b = None"
  shows "\<exists>rc b'. replan_phase A en goap b emb = Some (rc, b', emb) \<and> brain_inv b' \<and> brain_config_same b b' \<and> br_tick_count b' = br_tick_count b \<and>
    (br_action_idx b' = None \<or> br_exec_progress b' = 0)"
proof -
  obtain rc bb where f: "brain_fresh_bb A emb b bb_empty = (rc, bb)" by fastforce
  obtain b' where "brain_replan A goap (fleece_goap_js_eval_get A en emb goap (br_eval b)) b bb = Some b'" "brain_inv b'" "brain_config_same b b'"
    "br_tick_count b' = br_tick_count b" "br_action_idx b' = None \<or> br_exec_progress b' = 0" using replan_inv [OF A fit inv] by blast
  then show ?thesis using f inv idle by (cases "rc = 0") (auto simp: replan_phase_def brain_config_same_def)
qed

text \<open>The action goes on for another tick, within its limit.\<close>

definition goes_on :: "'v FleeceGoapBrain \<Rightarrow> 'v FleeceGoapBrain \<Rightarrow> bool" where
  "goes_on b b' \<longleftrightarrow> br_action_idx b' = br_action_idx b \<and> br_exec_progress b' = br_exec_progress b + 1 \<and>
     (br_max_action_ticks b > 0 \<longrightarrow> br_exec_progress b' < br_max_action_ticks b)"

lemma run_action_brain:
  assumes "run_action A en goap a b emb = r"
  shows "case r of
      Inl (_, b', _) \<Rightarrow> brain_config_same b b' \<and> br_tick_count b' = br_tick_count b \<and> br_plan b' = br_plan b \<and>
        (goes_on b b' \<or> br_action_idx b' = None \<and> (br_max_action_ticks b > 0 \<longrightarrow> br_exec_progress b' < br_max_action_ticks b))
    | Inr (_, b', _) \<Rightarrow> brain_config_same b b' \<and> br_tick_count b' = br_tick_count b \<and> br_plan b' = br_plan b"
proof -
  define b1 where "b1 = b\<lparr>br_exec_progress := br_exec_progress b + 1\<rparr>"
  have div: "brain_config_same c (report_divergences c i p q)" "br_plan (report_divergences c i p q) = br_plan c"
    "br_action_idx (report_divergences c i p q) = br_action_idx c" "br_exec_progress (report_divergences c i p q) = br_exec_progress c"
    "br_tick_count (report_divergences c i p q) = br_tick_count c"
    for c :: "'a FleeceGoapBrain" and i p q by (simp_all add: report_divergences_def brain_config_same_def Let_def)
  show ?thesis
    unfolding assms [symmetric]
    using div [unfolded brain_config_same_def]
    by (simp add: run_action_def b1_def [symmetric] Let_def not_le brain_config_same_def split: prod.splits)
      (simp add: b1_def goes_on_def)
qed

lemma tick_step:
  assumes A: "\<forall>k. A k" and fit: "tables_fit goap b" and inv: "brain_inv b"
  shows "\<exists>rc b' emb'. fleece_goap_brain_tick A en goap b emb = Some (rc, b', emb') \<and> brain_inv b' \<and> brain_config_same b b' \<and>
    br_tick_count b' = br_tick_count b + 1 \<and> (br_action_idx b' = None \<or> br_exec_progress b' = 0 \<or> goes_on b b')"
proof -
  define b0 where "b0 = b\<lparr>br_tick_count := br_tick_count b + 1\<rparr>"
  obtain b1 emb1 where pool: "goal_pool_tick A en emb b0 = (b1, emb1)" by fastforce
  note core = pool_core [OF pool]
  have b1: "brain_config_same b b1" "brain_inv b1" "br_tick_count b1 = br_tick_count b + 1" "br_action_idx b1 = br_action_idx b"
    "br_exec_progress b1 = br_exec_progress b" "br_max_action_ticks b1 = br_max_action_ticks b"
    using core inv by (simp_all add: brain_core_same_def brain_config_same_def brain_inv_def b0_def)
  note replan = replan_phase_inv [OF A]
  show ?thesis
  proof (cases "br_action_idx b1")
    case None
    from replan [OF fit_config [OF fit b1(1)] b1(2) None, of en emb1] pool None b1 config_trans [OF b1(1)] show ?thesis
      by (fastforce simp: fleece_goap_brain_tick_def b0_def [symmetric])
  next
    case (Some a)
    note R = run_action_brain [of A en goap a b1 emb1, OF refl]
    show ?thesis
    proof (cases "run_action A en goap a b1 emb1")
      case (Inl r)
      obtain rc b2 emb2 where r: "r = (rc, b2, emb2)" by (metis prod_cases3)
      have b2: "brain_config_same b1 b2" "br_tick_count b2 = br_tick_count b1" "br_plan b2 = br_plan b1"
        "goes_on b1 b2 \<or> br_action_idx b2 = None \<and> (br_max_action_ticks b1 > 0 \<longrightarrow> br_exec_progress b2 < br_max_action_ticks b1)"
        using R Inl r by simp_all
      then have "brain_inv b2" using b1(2) by (auto simp: brain_inv_def brain_config_same_def goes_on_def)
      moreover have "goes_on b1 b2 \<Longrightarrow> goes_on b b2" using b1 by (auto simp: goes_on_def)
      ultimately show ?thesis
        using Inl r pool Some b1(1,3) b2 config_trans [OF b1(1) b2(1)] by (auto simp: fleece_goap_brain_tick_def b0_def [symmetric])
    next
      case (Inr r)
      obtain ab b2 emb2 where r: "r = (ab, b2, emb2)" by (metis prod_cases3)
      have b2: "brain_config_same b1 b2" "br_tick_count b2 = br_tick_count b1" "br_plan b2 = br_plan b1" using R Inr r by simp_all
      obtain b3 where b3: "end_action ab b2 = Some b3" "br_action_idx b3 = None" "brain_config_same b2 b3" "brain_inv b3" "br_tick_count b3 = br_tick_count b2"
        using b1(2) b2(3) by (auto simp: end_action_def brain_inv_def brain_config_same_def brain_event_def fleece_goap_plan_destroy_def)
      have c: "brain_config_same b b3" using config_trans [OF config_trans [OF b1(1) b2(1)] b3(3)] .
      from replan [OF fit_config [OF fit c] b3(4,2), of en emb2] Inr r pool Some b1(3) b2(2) b3(1,5) config_trans [OF c] show ?thesis
        by (fastforce simp: fleece_goap_brain_tick_def b0_def [symmetric])
    qed
  qed
qed

text \<open>
  A run: at each tick the host may have changed the tables, other components the store, and the
  scripts their behaviour.  The result are the brains after the ticks, \<open>None\<close> if a tick fails to return.
\<close>

fun brain_ticks ::
    "allocator \<Rightarrow> (('v, 'f, 'u) goap_engine \<times> FleeceGoap \<times> ('f, 'u) FleeceEmbedded) list \<Rightarrow> 'v FleeceGoapBrain \<Rightarrow> 'v FleeceGoapBrain list option" where
  "brain_ticks A [] b = Some []"
| "brain_ticks A ((en, goap, emb) # ins) b =
     (case fleece_goap_brain_tick A en goap b emb of
        None \<Rightarrow> None
      | Some (rc, b', emb') \<Rightarrow> map_option (\<lambda>bs. b' # bs) (brain_ticks A ins b'))"

lemma run_steps:
  assumes A: "\<forall>k. A k"
  shows "brain_inv b \<Longrightarrow> \<forall>(en, goap, emb)\<in>set ins. tables_fit goap b \<Longrightarrow>
    \<exists>bs. brain_ticks A ins b = Some bs \<and> length bs = length ins \<and>
      (\<forall>b'\<in>set bs. brain_inv b' \<and> brain_config_same b b') \<and>
      (br_max_action_ticks b > 0 \<and> unat (br_exec_progress b) + length ins \<ge> unat (br_max_action_ticks b) \<longrightarrow>
        (\<exists>b'\<in>set bs. br_action_idx b' = None \<or> br_exec_progress b' = 0))"
proof (induction ins arbitrary: b)
  case Nil
  then show ?case by (auto simp: brain_inv_def word_less_nat_alt)
next
  case (Cons i ins)
  obtain en goap emb where i: "i = (en, goap, emb)" by (metis prod_cases3)
  have fit: "tables_fit goap b" using Cons.prems(2) i by simp
  obtain rc b1 emb1 where t: "fleece_goap_brain_tick A en goap b emb = Some (rc, b1, emb1)" and b1: "brain_inv b1" "brain_config_same b b1"
    and on: "br_action_idx b1 = None \<or> br_exec_progress b1 = 0 \<or> goes_on b b1"
    using tick_step [OF A fit Cons.prems(1), of en emb] by blast
  have "\<forall>(en, goap, emb)\<in>set ins. tables_fit goap b1" using Cons.prems(2) fit_config [OF _ b1(2)] by fastforce
  from Cons.IH [OF b1(1) this] obtain bs where bs: "brain_ticks A ins b1 = Some bs" "length bs = length ins"
    "\<forall>b'\<in>set bs. brain_inv b' \<and> brain_config_same b1 b'"
    "br_max_action_ticks b1 > 0 \<and> unat (br_exec_progress b1) + length ins \<ge> unat (br_max_action_ticks b1) \<longrightarrow>
        (\<exists>b'\<in>set bs. br_action_idx b' = None \<or> br_exec_progress b' = 0)" by blast
  have "unat (br_exec_progress b1) = Suc (unat (br_exec_progress b))" if "br_max_action_ticks b > 0" "goes_on b b1"
  proof -
    have "br_exec_progress b \<noteq> -1" using that Cons.prems(1) by (auto simp: brain_inv_def not_less [symmetric])
    then have "1 + br_exec_progress b \<noteq> 0" by (metis add.commute eq_neg_iff_add_eq_0)
    then show ?thesis using that(2) unatSuc [of "br_exec_progress b"] by (simp add: goes_on_def add.commute)
  qed
  then show ?case
    using bs b1 on config_trans [OF b1(2)] i t by (auto simp: brain_config_same_def [of b b1])
qed

lemma brain_ticks_drop:
  "brain_ticks A ins b = Some bs \<Longrightarrow> i < length ins \<Longrightarrow> brain_ticks A (drop (Suc i) ins) (bs ! i) = Some (drop (Suc i) bs)"
proof (induction ins arbitrary: b bs i)
  case (Cons x ins)
  obtain en goap emb where x: "x = (en, goap, emb)" by (metis prod_cases3)
  obtain rc b1 emb1 bs1 where t: "fleece_goap_brain_tick A en goap b emb = Some (rc, b1, emb1)" "brain_ticks A ins b1 = Some bs1" "bs = b1 # bs1"
    using Cons.prems(1) x by (auto split: option.splits prod.splits)
  then show ?case using Cons.IH [OF t(2)] Cons.prems(2) by (cases i) auto
qed simp

lemma brain_ticks_take: "brain_ticks A ins b = Some bs \<Longrightarrow> brain_ticks A (take n ins) b = Some (take n bs)"
proof (induction ins arbitrary: b bs n)
  case (Cons x ins)
  obtain en goap emb where x: "x = (en, goap, emb)" by (metis prod_cases3)
  obtain rc b1 emb1 bs1 where t: "fleece_goap_brain_tick A en goap b emb = Some (rc, b1, emb1)" "brain_ticks A ins b1 = Some bs1" "bs = b1 # bs1"
    using Cons.prems x by (auto split: option.splits prod.splits)
  then show ?case using Cons.IH [OF t(2)] x by (cases n) auto
qed simp

text \<open>
  C28. The brain never gets stuck, and the watchdog bounds every action.  A brain created for
  some tables, with a limit of \<open>N\<close> ticks for an action and a cooldown, returns from every tick of
  every run in which memory is available and the tables have at most as many goals as at creation,
  whatever the scripts, the store and the tables are at each tick.  No action is in flight for \<open>N\<close>
  ticks: of any \<open>N\<close> successive ticks, one ends without an action or with one that has not run yet.
\<close>

theorem brain_watchdog:
  assumes A: "\<forall>k. A k" and create: "fleece_goap_brain_create A goap0 = Some b0"
    and b: "b = fleece_goap_brain_set_goal_cooldown_ticks (fleece_goap_brain_set_max_action_ticks b0 N) C"
    and tables: "\<forall>(en, goap, emb)\<in>set ins. fleece_goap_goal_count goap \<le> fleece_goap_goal_count goap0"
  shows "\<exists>bs. brain_ticks A ins b = Some bs \<and> length bs = length ins \<and>
    (\<forall>b'\<in>set bs. N > 0 \<longrightarrow> br_exec_progress b' < N) \<and>
    (\<forall>i. N > 0 \<and> i + unat N < length bs \<longrightarrow> (\<exists>j\<in>{i<..i + unat N}. br_action_idx (bs ! j) = None \<or> br_exec_progress (bs ! j) = 0))"
proof -
  have inv: "brain_inv b" and N: "br_max_action_ticks b = N" and len: "length (br_goal_cooldown_until b) = fleece_goap_goal_count goap0"
    using create by (auto simp: b fleece_goap_brain_create_def fleece_goap_brain_set_goal_cooldown_ticks_def
        fleece_goap_brain_set_max_action_ticks_def brain_inv_def fleece_goap_plan_destroy_def Let_def split: if_splits option.splits)
  have fit: "\<forall>(en, goap, emb)\<in>set ins. tables_fit goap b" using tables by (auto simp: tables_fit_def len)
  obtain bs where bs: "brain_ticks A ins b = Some bs" "length bs = length ins" "\<forall>b'\<in>set bs. brain_inv b' \<and> brain_config_same b b'"
    using run_steps [OF A inv fit] by blast
  have "\<exists>j\<in>{i<..i + unat N}. br_action_idx (bs ! j) = None \<or> br_exec_progress (bs ! j) = 0"
    if pos: "N > 0" and win: "i + unat N < length bs" for i
  proof -
    have i: "i < length bs" "i < length ins" using win bs(2) by simp_all
    have bi: "brain_inv (bs ! i)" "brain_config_same b (bs ! i)" using bs(3) i by simp_all
    let ?window = "take (unat N) (drop (Suc i) ins)"
    have fit': "\<forall>(en, goap, emb)\<in>set ?window. tables_fit goap (bs ! i)"
      using fit fit_config [OF _ bi(2)] by (fastforce dest: in_set_takeD in_set_dropD)
    have "brain_ticks A ?window (bs ! i) = Some (take (unat N) (drop (Suc i) bs))"
      by (rule brain_ticks_take [OF brain_ticks_drop [OF bs(1) i(2)]])
    moreover have "br_max_action_ticks (bs ! i) = N" using bi(2) N by (simp add: brain_config_same_def)
    moreover have "length ?window = unat N" using win bs(2) by simp
    ultimately obtain b' where b': "b' \<in> set (take (unat N) (drop (Suc i) bs))" "br_action_idx b' = None \<or> br_exec_progress b' = 0"
      using run_steps [OF A bi(1) fit'] pos by auto
    then obtain k where "k < unat N" "Suc i + k < length bs" "b' = bs ! (Suc i + k)"
      by (auto simp: in_set_conv_nth)
    then show ?thesis using b'(2) by (intro bexI [of _ "Suc i + k"]) auto
  qed
  then show ?thesis using bs N by (auto simp: brain_inv_def brain_config_same_def)
qed

section \<open>Goals registered after the brain\<close>

definition demo_late :: "demo_js FleeceGoapBrain" where
  "demo_late = fleece_goap_brain_set_goal_cooldown_ticks (the (fleece_goap_brain_create yes goap_zero)) 5"

text \<open>
  The array of cooldowns has the size the table of goals had when the brain was created.  A goal
  registered later is looked up beyond its end: with a cooldown set, the next tick reads past the array.
  Without a cooldown the same tick selects the goal.
\<close>

theorem late_goal_out_of_bounds:
  "fleece_goap_brain_tick yes demo_goap_engine (demo_wait []) demo_late (demo_emb demo_own) = None \<and>
   map_option (\<lambda>(rc, b, _). (rc, br_goal_idx b))
     (fleece_goap_brain_tick yes demo_goap_engine (demo_wait []) (fleece_goap_brain_set_goal_cooldown_ticks demo_late 0) (demo_emb demo_own)) =
     Some (0, Some 0)"
proof
  have "Option.is_none (fleece_goap_brain_tick yes demo_goap_engine (demo_wait []) demo_late (demo_emb demo_own))" by code_simp
  then show "fleece_goap_brain_tick yes demo_goap_engine (demo_wait []) demo_late (demo_emb demo_own) = None" by (simp add: Option.is_none_def)
  show "map_option (\<lambda>(rc, b, _). (rc, br_goal_idx b))
     (fleece_goap_brain_tick yes demo_goap_engine (demo_wait []) (fleece_goap_brain_set_goal_cooldown_ticks demo_late 0) (demo_emb demo_own)) =
     Some (0, Some 0)" by code_simp
qed

section \<open>Witnesses\<close>

lemma demo_engine_bounded: "engine_bounded 0 8 demo_goap_engine"
proof -
  have "length names \<le> 8" if "demo_names v = Some names" for v names using that by (cases v) auto
  then show ?thesis by (auto simp: engine_bounded_def demo_goap_engine_def)
qed

text \<open>A brain that runs the action \<open>wait\<close>, whose body never finishes, for at most three ticks.\<close>

definition demo_brain :: "demo_js FleeceGoapBrain" where
  "demo_brain = fleece_goap_brain_set_goal_cooldown_ticks (fleece_goap_brain_set_max_action_ticks (the (fleece_goap_brain_create yes (demo_wait (lit ''w'')))) 3) 2"

lemma demo_brain_create: "fleece_goap_brain_create yes (demo_wait (lit ''w'')) = Some (the (fleece_goap_brain_create yes (demo_wait (lit ''w''))))"
  by (simp add: fleece_goap_brain_create_def fleece_goap_js_eval_create_def Let_def)

theorem brain_tick_safe_witness:
  "\<exists>m'. map_option (\<lambda>(rc, b, emb). em_manager emb) (fleece_goap_brain_tick yes demo_goap_engine (demo_wait (lit ''w'')) demo_brain (demo_emb demo_own)) =
     Some (Some m') \<and> sm_inv m' \<and> sm_node_id m' = 1"
proof -
  let ?t = "fleece_goap_brain_tick yes demo_goap_engine (demo_wait (lit ''w'')) demo_brain (demo_emb demo_own)"
  have "\<not> Option.is_none ?t" by code_simp
  then obtain rc b' emb' where t: "?t = Some (rc, b', emb')" by (auto simp: Option.is_none_def)
  have n: "unat (sm_local_timestamp demo_own) \<le> 100" "sm_node_id demo_own = 1" by code_simp+
  then have room: "unat (sm_local_timestamp demo_own) + (6 + 2 * 0 + 4 * 8) \<le> unat UINT64_MAX" by (simp add: unat_clock_max)
  have key: "cstring (br_goal_pool_key_field demo_brain)" by code_simp
  show ?thesis using brain_tick_safe [OF demo_engine_bounded demo_emb_manager(1) demo_own_inv room key t] t n by auto
qed

theorem brain_refines_swarm_witness:
  "\<exists>t rc b' emb'. fleece_goap_brain_tick yes demo_goap_engine (demo_wait (lit ''w'')) demo_brain (demo_emb demo_a) = Some (rc, b', emb') \<and>
     swarm_reachable {1, 2} t \<and> sw_nodes t 1 = em_manager emb' \<and> sw_nodes t 2 = Some demo_b"
proof -
  let ?t = "fleece_goap_brain_tick yes demo_goap_engine (demo_wait (lit ''w'')) demo_brain (demo_emb demo_a)"
  have "\<not> Option.is_none ?t" by code_simp
  then obtain rc b' emb' where t: "?t = Some (rc, b', emb')" by (auto simp: Option.is_none_def)
  have "unat (sm_local_timestamp demo_a) \<le> 100" by code_simp
  then have room: "unat (sm_local_timestamp demo_a) + (6 + 2 * 0 + 4 * 8) \<le> unat UINT64_MAX" by (simp add: unat_clock_max)
  have names: "name_ok (br_goal_pool_key_field demo_brain)" "short_goals yes demo_brain demo_a" by code_simp+
  have calls: "\<forall>emb fn args. \<forall>c\<in>set (ge_natives demo_goap_engine emb fn args). call_fits (ge_script demo_goap_engine) c"
    by (simp add: demo_goap_engine_def)
  show ?thesis
    using brain_refines_swarm [OF demo_reachable _ demo_emb_manager(1) demo_engine_bounded calls room names t, of 1] demo_nodes t
    by fastforce
qed

abbreviation demo_eval_js :: FleeceGoapEval where
  "demo_eval_js \<equiv> fleece_goap_js_eval_get yes demo_goap_engine (demo_emb demo_own) (demo_wait []) (br_eval demo_brain)"

theorem brain_replan_choice_witness:
  "\<exists>bb0. fleece_goap_bb_clone yes demo_x = (0, bb0) \<and> action_pre_ok demo_eval_js 0 bb0"
proof -
  let ?r = "brain_replan yes (demo_wait []) demo_eval_js demo_brain demo_x"
  have r: "map_option (\<lambda>b. (br_goal_idx b, br_action_idx b)) ?r = Some (Some 0, Some 0)" by code_simp
  then obtain b' where b': "?r = Some b'" "br_goal_idx b' = Some 0" "br_action_idx b' = Some 0" by auto
  have ids: "distinct (map ac_id (ga_actions (demo_wait [])))" "distinct (map go_id (ga_goals (demo_wait [])))" by code_simp+
  show ?thesis
    using brain_replan_choice [OF ids b'(1)] b'(2,3) by (fastforce simp: starts_plan_def neq_Nil_conv split: list.splits)
qed

abbreviation demo_ins :: "((demo_js, unit, unit) goap_engine \<times> FleeceGoap \<times> (unit, unit) FleeceEmbedded) list" where
  "demo_ins \<equiv> replicate 6 (demo_goap_engine, demo_wait (lit ''w''), demo_emb demo_own)"

theorem brain_watchdog_witness:
  "\<exists>bs. brain_ticks yes demo_ins demo_brain = Some bs \<and> (\<exists>j\<in>{0<..3}. br_action_idx (bs ! j) = None \<or> br_exec_progress (bs ! j) = 0)"
proof -
  have "\<forall>(en, goap, emb)\<in>set demo_ins. fleece_goap_goal_count goap \<le> fleece_goap_goal_count (demo_wait (lit ''w''))" by simp
  from brain_watchdog [OF _ demo_brain_create demo_brain_def this] obtain bs where bs: "brain_ticks yes demo_ins demo_brain = Some bs" "length bs = 6"
    "\<forall>i. (3 :: u32) > 0 \<and> i + unat (3 :: u32) < length bs \<longrightarrow> (\<exists>j\<in>{i<..i + unat (3 :: u32)}. br_action_idx (bs ! j) = None \<or> br_exec_progress (bs ! j) = 0)"
    by auto
  from bs(3) [THEN spec, of 0] bs(1,2) show ?thesis by simp
qed

end
