(* ===== verification/Goal_Pool.thy ===== *)
theory Goal_Pool
  imports Brain_Claims
begin

text \<open>
  The goal pool and the action library: the prerequisite goals a blocked node authors, and what a tick
  of the library does to the record and the claim of the held goal.
\<close>

section \<open>The goal pool\<close>



lemma spawn_effect:
  assumes inv: "sm_inv m" and clk: "sm_local_timestamp m \<noteq> UINT64_MAX"
    and diff: "build_self_diff_json orig sim 256 = Some diff" "length diff < 256"
    and m': "m' = goal_pool_spawn_prerequisite A m self orig sim"
  shows "length (prerequisite_value self diff) < 384"
    and "live_value m FLEECE_SHARED_OWNER_ID (hash_name (prerequisite_key self)) \<noteq> None \<Longrightarrow> m' = m"
    and "live_value m FLEECE_SHARED_OWNER_ID (hash_name (prerequisite_key self)) = None \<Longrightarrow> \<forall>k. A k \<Longrightarrow> sm_field_count m < FIELD_CAPACITY \<Longrightarrow>
      live_value m' FLEECE_SHARED_OWNER_ID (hash_name (prerequisite_key self)) = Some (prerequisite_value self diff)"
    and "p \<noteq> (FLEECE_SHARED_OWNER_ID, hash_name (prerequisite_key self)) \<Longrightarrow> view m' p = view m p"
proof -
  let ?v = "prerequisite_value self diff" and ?k = "prerequisite_key self"
  show len: "length ?v < 384" using prerequisite_value_length [of self diff] diff(2) by simp
  have v: "?v \<noteq> []" by (simp add: prerequisite_value_def lit_def)
  have sz: "unat (of_nat (length ?v) :: u32) = length ?v" using len by (simp add: unat_of_nat_32)
  then have sz0: "(of_nat (length ?v) :: u32) \<noteq> 0" using v by auto
  obtain rc m1 where w: "fleece_state_manager_set_shared A m (Some ?k) (Some ?v) (of_nat (length ?v)) = (rc, m1)" by fastforce
  note S = shared_write [OF inv clk prerequisite_key_name(3,2) sz0 _ w, unfolded sz]
  have m1: "m' = (if live_value m 0 (hash_name ?k) \<noteq> None then m else m1)"
    using diff len w prerequisite_key_name(1) [of self]
    by (simp add: m' goal_pool_spawn_prerequisite_def exists_named_live [OF inv] Let_def)
  then show "live_value m 0 (hash_name ?k) \<noteq> None \<Longrightarrow> m' = m" by simp
  show "live_value m' 0 (hash_name ?k) = Some ?v" if "live_value m 0 (hash_name ?k) = None" "\<forall>k. A k" "sm_field_count m < FIELD_CAPACITY"
    using S(1,3) that sz m1 by (simp add: live_value_def)
  show "view m' p = view m p" if "p \<noteq> (0, hash_name ?k)"
    using S(3,4) that m1 by (cases "rc = 0") auto
qed

text \<open>
  C31. The prerequisite goal a blocked node authors fits its buffers and says what is to change.  Its parameters
  are a JSON object of the fields the provider changes in the node's own state, taken in order, each when the object so far leaves room for it
  (its name, its value and six bytes) below 256 bytes: a field that does not fit is passed over and later ones are still taken, and
  all are there when together they fit.  The object with its terminator never overflows the buffer of 256 bytes,
  and neither does the record around it, of 384 bytes.  A prerequisite that is already there is not
  written again; else, when there are memory and a free slot, the record is in the store; no other field changes.
\<close>

theorem spawn_prerequisite_spec:
  assumes inv: "sm_inv m" and clk: "sm_local_timestamp m \<noteq> UINT64_MAX"
    and m': "m' = goal_pool_spawn_prerequisite A m self orig sim"
    and fs: "fs = foldl (keep_fitting 256) [] (filter (self_changed orig) (bb_fields sim))"
    and diff: "diff = lit ''{'' @ commas (map diff_member fs) @ lit ''}''"
  shows "build_self_diff_json orig sim 256 = Some diff \<and>
    (sum_list (map (\<lambda>f. length (gf_name f) + unat (gf_size f) + 4) (filter (self_changed orig) (bb_fields sim))) < 253 \<longrightarrow>
      fs = filter (self_changed orig) (bb_fields sim)) \<and>
    length diff + 1 \<le> 256 \<and> length (prerequisite_value self diff) + 1 \<le> 384 \<and>
    (live_value m FLEECE_SHARED_OWNER_ID (hash_name (prerequisite_key self)) \<noteq> None \<longrightarrow> m' = m) \<and>
    (live_value m FLEECE_SHARED_OWNER_ID (hash_name (prerequisite_key self)) = None \<and> (\<forall>k. A k) \<and> sm_field_count m < FIELD_CAPACITY \<longrightarrow>
      live_value m' FLEECE_SHARED_OWNER_ID (hash_name (prerequisite_key self)) = Some (prerequisite_value self diff)) \<and>
    (\<forall>p. p \<noteq> (FLEECE_SHARED_OWNER_ID, hash_name (prerequisite_key self)) \<longrightarrow> view m' p = view m p)"
proof -
  have d: "build_self_diff_json orig sim 256 = Some diff" "length diff < 256"
    "sum_list (map member_room (filter (self_changed orig) (bb_fields sim))) < 253 \<longrightarrow> fs = filter (self_changed orig) (bb_fields sim)"
    using self_diff_built [of orig sim] unfolding diff fs by blast+
  note E = spawn_effect [OF inv clk d(1,2) m']
  show ?thesis using d E by auto
qed

section \<open>A tick of the action library\<close>









section \<open>Witnesses\<close>

theorem spawn_prerequisite_spec_witness:
  "live_value (goal_pool_spawn_prerequisite yes demo_own 1 bb_empty demo_x) FLEECE_SHARED_OWNER_ID (hash_name (prerequisite_key 1)) =
     Some (prerequisite_value 1 (lit ''{'' @ quoted (lit ''x'') @ lit '':1}''))"
proof -
  have c: "sm_local_timestamp demo_own \<noteq> UINT64_MAX" "sm_field_count demo_own < FIELD_CAPACITY"
    "live_value demo_own FLEECE_SHARED_OWNER_ID (hash_name (prerequisite_key 1)) = None"
    "sum_list (map (\<lambda>f. length (gf_name f) + unat (gf_size f) + 4) (filter (self_changed bb_empty) (bb_fields demo_x))) < 253" by code_simp+
  have d: "lit ''{'' @ commas (map diff_member (filter (self_changed bb_empty) (bb_fields demo_x))) @ lit ''}'' = lit ''{'' @ quoted (lit ''x'') @ lit '':1}''"
    by code_simp
  show ?thesis
    using spawn_prerequisite_spec [where A = yes and self = 1 and orig = bb_empty and sim = demo_x, OF demo_own_inv c(1) refl refl refl] c(2-4) d by simp
qed



end
