(* ===== verification/Node.thy ===== *)
theory Node
  imports Script_Host Runtime_Loop Goal_Pool
begin

text \<open>
  A whole node: the runtime of \<open>src/runtime/fleece_runtime.c\<close> with the script engine and the brain it owns,
  all over one store.  In \<open>Runtime\<close> the script and the brain are hooks of the host; here the hooks are the
  models of \<open>Script_Host\<close> and \<open>Goap_Brain\<close>.
\<close>

section \<open>The node\<close>

text \<open>The store is the runtime's; the embedded engine has a pointer to it.\<close>

record ('v, 'g, 'f, 'u) FleeceNode =
  nd_runtime :: FleeceRuntime
  nd_platform :: "('f, 'u) FleecePlatform option"
  nd_peer_ttl_ticks :: u64
  nd_globals :: 'g
  nd_brain :: "'v FleeceGoapBrain option"

abbreviation nd_store :: "('v, 'g, 'f, 'u) FleeceNode \<Rightarrow> FleeceStateManager" where
  "nd_store nd \<equiv> rt_state_manager (nd_runtime nd)"

definition node_embedded :: "('v, 'g, 'f, 'u) FleeceNode \<Rightarrow> ('f, 'u) FleeceEmbedded" where
  "node_embedded nd =
     \<lparr>em_manager = Some (nd_store nd), em_platform = nd_platform nd, em_peer_ttl_ticks = nd_peer_ttl_ticks nd\<rparr>"

definition with_embedded :: "('f, 'u) FleeceEmbedded \<Rightarrow> ('v, 'g, 'f, 'u) FleeceNode \<Rightarrow> ('v, 'g, 'f, 'u) FleeceNode" where
  "with_embedded emb nd =
     (case em_manager emb of
        None \<Rightarrow> nd
      | Some m \<Rightarrow> nd\<lparr>nd_runtime := (nd_runtime nd)\<lparr>rt_state_manager := m\<rparr>\<rparr>)"

section \<open>Scripts and brains of a runtime\<close>

definition fleece_runtime_load_script ::
    "allocator \<Rightarrow> ('v, 'g, 'f, 'u) script_host \<Rightarrow> ('v, 'g, 'f, 'u) FleeceNode \<Rightarrow> bytes option \<Rightarrow> int \<times> ('v, 'g, 'f, 'u) FleeceNode" where
  "fleece_runtime_load_script A sh nd source =
     (case fleece_embedded_load_script A sh (node_embedded nd) (nd_globals nd) source of
        (rc, emb, g) \<Rightarrow> (rc, with_embedded emb (nd\<lparr>nd_globals := g\<rparr>)))"

definition fleece_runtime_execute_script ::
    "allocator \<Rightarrow> ('v, 'g, 'f, 'u) script_host \<Rightarrow> ('v, 'g, 'f, 'u) FleeceNode \<Rightarrow> bytes option \<Rightarrow> int \<times> ('v, 'g, 'f, 'u) FleeceNode" where
  "fleece_runtime_execute_script A sh nd script =
     (case fleece_embedded_execute A sh (node_embedded nd) (nd_globals nd) script of
        (rc, emb, g) \<Rightarrow> (rc, with_embedded emb (nd\<lparr>nd_globals := g\<rparr>)))"

definition fleece_runtime_set_peer_ttl_ticks :: "('v, 'g, 'f, 'u) FleeceNode \<Rightarrow> u64 \<Rightarrow> int \<times> ('v, 'g, 'f, 'u) FleeceNode" where
  "fleece_runtime_set_peer_ttl_ticks nd ttl_ticks = (0, nd\<lparr>nd_peer_ttl_ticks := ttl_ticks\<rparr>)"

definition node_set_goap :: "allocator \<Rightarrow> FleeceGoap \<Rightarrow> ('v, 'g, 'f, 'u) FleeceNode \<Rightarrow> int \<times> ('v, 'g, 'f, 'u) FleeceNode" where
  "node_set_goap A goap nd =
     (case nd_brain nd of
        Some _ \<Rightarrow> (-1, nd)
      | None \<Rightarrow>
          let nd = nd\<lparr>nd_brain := fleece_goap_brain_create A goap\<rparr> in
          (case nd_brain nd of None \<Rightarrow> (-1, nd) | Some _ \<Rightarrow> (0, nd)))"

text \<open>\<open>None\<close>: the plan of the old brain is released twice.\<close>

definition node_replace_goap ::
    "allocator \<Rightarrow> FleeceGoap \<Rightarrow> ('v, 'g, 'f, 'u) FleeceNode \<Rightarrow> (int \<times> ('v, 'g, 'f, 'u) FleeceNode) option" where
  "node_replace_goap A goap nd =
     (case (case nd_brain nd of None \<Rightarrow> Some () | Some b \<Rightarrow> fleece_goap_brain_destroy b) of
        None \<Rightarrow> None
      | Some _ \<Rightarrow>
          let nd = nd\<lparr>nd_brain := fleece_goap_brain_create A goap\<rparr> in
          Some (case nd_brain nd of None \<Rightarrow> (-1, nd) | Some _ \<Rightarrow> (0, nd)))"

section \<open>One tick\<close>

text \<open>
  What reaches the runtime while the host polls its transport: frames through the communication module, control and
  gossip frames through the runtime's own entry points, and, from a transport that merges frames itself, the merge and
  its report.
\<close>

datatype inbound = Received bytes bytes | ControlFrame bytes | GossipFrame bytes | Imported bytes | Behind bool u64

fun receive :: "allocator \<Rightarrow> FleeceRuntime \<Rightarrow> inbound \<Rightarrow> FleeceRuntime" where
  "receive A r (Received source bs) = runtime_gossip_receive A (\<lambda>_. A) r source (Some bs)"
| "receive A r (ControlFrame bs) = fleece_runtime_on_control_frame A r (Some bs)"
| "receive A r (GossipFrame bs) = fleece_runtime_on_gossip_frame (\<lambda>_. A) r (Some bs)"
| "receive A r (Imported bs) =
     r\<lparr>rt_state_manager := ir_manager (fleece_state_manager_import_from (\<lambda>_. A) (rt_state_manager r) bs)\<rparr>"
| "receive A r (Behind behind_shared sender) = fleece_runtime_note_behind_from r behind_shared sender"

definition node_input ::
    "allocator \<Rightarrow> inbound list \<Rightarrow> (FleeceRuntime \<Rightarrow> FleeceRuntime) \<Rightarrow> FleeceRuntime \<Rightarrow> FleeceRuntime" where
  "node_input A frames tick_cb r =
     (let r = r\<lparr>rt_state_manager := fleece_state_manager_tick (rt_state_manager r)\<rparr>;
          r = fleece_comms_process_input (\<lambda>r. foldl (receive A) r frames) (rt_comms r) r
      in if rt_tick_cb r then tick_cb r else r)"

definition node_script :: "allocator \<Rightarrow> ('v, 'g, 'f, 'u) script_host \<Rightarrow> ('v, 'g, 'f, 'u) FleeceNode \<Rightarrow> ('v, 'g, 'f, 'u) FleeceNode" where
  "node_script A sh nd =
     (case fleece_embedded_call_step A sh (node_embedded nd) (nd_globals nd) of
        (_, emb, g) \<Rightarrow> with_embedded emb (nd\<lparr>nd_globals := g\<rparr>))"

definition node_brain ::
    "allocator \<Rightarrow> ('v, 'f, 'u) goap_engine \<Rightarrow> FleeceGoap \<Rightarrow> ('v, 'g, 'f, 'u) FleeceNode \<Rightarrow> ('v, 'g, 'f, 'u) FleeceNode option" where
  "node_brain A en goap nd =
     (case nd_brain nd of
        None \<Rightarrow> Some nd
      | Some b \<Rightarrow>
          map_option (\<lambda>(_, b, emb). with_embedded emb (nd\<lparr>nd_brain := Some b\<rparr>))
            (fleece_goap_brain_tick A en goap b (node_embedded nd)))"

definition node_output :: "runtime_statics \<Rightarrow> allocator \<Rightarrow> FleeceRuntime \<Rightarrow> FleeceRuntime" where
  "node_output st A r =
     (let r = gossip_phase st A r;
          r = runtime_send_resync_requests A r;
          r = r\<lparr>rt_gossip_tick_count := rt_gossip_tick_count r + 1\<rparr>
      in r\<lparr>rt_comms := fleece_comms_process_output (rt_comms r)\<rparr>)"

text \<open>
  What follows the input: script, brain, gossip and output.  \<open>en\<close> is the engine as the brain sees it, with the global object as
  the script has left it.
\<close>

definition node_work ::
    "runtime_statics \<Rightarrow> allocator \<Rightarrow> ('v, 'g, 'f, 'u) script_host \<Rightarrow> ('g \<Rightarrow> ('v, 'f, 'u) goap_engine) \<Rightarrow> FleeceGoap \<Rightarrow>
     ('v, 'g, 'f, 'u) FleeceNode \<Rightarrow> ('v, 'g, 'f, 'u) FleeceNode option" where
  "node_work st A sh en goap nd =
     (let nd = node_script A sh nd in
      map_option (\<lambda>nd. nd\<lparr>nd_runtime := node_output st A (nd_runtime nd)\<rparr>) (node_brain A (en (nd_globals nd)) goap nd))"

definition node_tick ::
    "runtime_statics \<Rightarrow> allocator \<Rightarrow> ('v, 'g, 'f, 'u) script_host \<Rightarrow> ('g \<Rightarrow> ('v, 'f, 'u) goap_engine) \<Rightarrow> FleeceGoap \<Rightarrow>
     inbound list \<Rightarrow> (FleeceRuntime \<Rightarrow> FleeceRuntime) \<Rightarrow> ('v, 'g, 'f, 'u) FleeceNode \<Rightarrow> ('v, 'g, 'f, 'u) FleeceNode option" where
  "node_tick st A sh en goap frames tick_cb nd =
     node_work st A sh en goap (nd\<lparr>nd_runtime := node_input A frames tick_cb (nd_runtime nd)\<rparr>)"

end
