(* ===== verification/Node_Claims.thy ===== *)
theory Node_Claims
  imports Node
begin

text \<open>
  The whole node: whatever the host does through its interface, whatever the scripts compute and whatever bytes arrive,
  a node keeps its invariants and its next tick returns.
\<close>

section \<open>The phases of a tick\<close>

text \<open>The work of one call of a script is bounded by \<open>M\<close> native calls.\<close>

definition script_bounded :: "nat \<Rightarrow> ('v, 'g, 'f, 'u) script_host \<Rightarrow> bool" where
  "script_bounded M sh \<longleftrightarrow>
     (\<forall>emb g fn. length (fst (snd (sh_Call sh emb g fn))) \<le> M) \<and> (\<forall>emb g src. length (fst (snd (sh_Eval sh emb g src))) \<le> M)"

lemma calls_change:
  assumes emb: "em_manager emb = Some m" and ready: "store_ready M m" and len: "length calls \<le> M"
  shows "\<exists>m'. run_script A run en emb calls = emb\<lparr>em_manager := Some m'\<rparr> \<and> store_change (Collect cstring) M m m'"
  using any_name.run_script_change [OF emb store_ready_mono [OF ready len]] store_change_mono [OF _ len] any_call by blast

lemma lifecycle_change:
  assumes sh: "script_bounded M sh" and emb: "em_manager emb = Some m" and ready: "store_ready M m"
    and call: "call_lifecycle_fn A sh emb g name = (rc, emb', g')"
  shows "\<exists>m'. emb' = emb\<lparr>em_manager := Some m'\<rparr> \<and> store_change (Collect cstring) M m m'"
proof -
  have same: "\<exists>m'. emb = emb\<lparr>em_manager := Some m'\<rparr> \<and> store_change (Collect cstring) M m m'"
    using emb store_change_refl [OF ready] by (intro exI [of _ m]) simp
  have len: "length calls \<le> M" if "sh_Call sh emb g fn = (res, calls, g1)" for fn res calls g1
    using sh that unfolding script_bounded_def by (metis fst_conv snd_conv)
  show ?thesis
    using call same calls_change [OF emb ready len]
    by (auto simp: call_lifecycle_fn_def Let_def split: option.splits if_splits prod.splits)
qed

lemma source_change:
  assumes sh: "script_bounded M sh" and emb: "em_manager emb = Some m" and ready: "store_ready M m"
    and eval: "fleece_embedded_load_script A sh emb g src = (rc, emb', g') \<or> fleece_embedded_execute A sh emb g src = (rc, emb', g')"
  shows "\<exists>m'. emb' = emb\<lparr>em_manager := Some m'\<rparr> \<and> store_change (Collect cstring) M m m'"
proof -
  have same: "\<exists>m'. emb = emb\<lparr>em_manager := Some m'\<rparr> \<and> store_change (Collect cstring) M m m'"
    using emb store_change_refl [OF ready] by (intro exI [of _ m]) simp
  have len: "length calls \<le> M" if "sh_Eval sh emb g s = (res, calls, g1)" for s res calls g1
    using sh that unfolding script_bounded_def by (metis fst_conv snd_conv)
  show ?thesis
    using eval same calls_change [OF emb ready len]
    by (auto simp: fleece_embedded_load_script_def fleece_embedded_execute_def Let_def split: option.splits prod.splits)
qed

lemma receive_inv: "rt_inv r \<Longrightarrow> rt_inv (receive A r f)"
proof -
  assume inv: "rt_inv r"
  have "rt_inv (handle_fx_frame A r bs src)" for bs src using handle_fx_effect [OF inv] by (simp add: control_effect_def)
  then show ?thesis
    using inv import_and_track_effect(1) [OF inv] import_rt_effect(2) [OF inv] note_behind_effect(1) [OF inv]
    by (cases f) (simp_all add: runtime_gossip_receive_def fleece_runtime_on_control_frame_def fleece_runtime_on_gossip_frame_def
        fleece_state_manager_import_from_def)
qed

lemma receive_all_inv: "rt_inv r \<Longrightarrow> rt_inv (foldl (receive A) r frames)"
  by (induction frames arbitrary: r) (simp_all add: receive_inv)

lemma input_inv:
  assumes inv: "rt_inv r" and cb: "\<forall>r. rt_inv r \<longrightarrow> rt_inv (tick_cb r)"
  shows "rt_inv (node_input A frames tick_cb r)"
proof -
  have "sm_inv (fleece_state_manager_tick m)" if "sm_inv m" for m
    using tick_effect [OF that] that by (simp add: fleece_state_manager_tick_def sm_inv_def store_inv_def clock_inv_def)
  then have "rt_inv (r\<lparr>rt_state_manager := fleece_state_manager_tick (rt_state_manager r)\<rparr>)" using inv by (simp add: rt_inv_def)
  then show ?thesis using cb receive_all_inv by (simp add: node_input_def fleece_comms_process_input_def Let_def)
qed

lemma output_inv:
  assumes inv: "rt_inv r"
  shows "rt_inv (node_output st A r)" and "view (rt_state_manager (node_output st A r)) = view (rt_state_manager r)"
    and "sm_node_id (rt_state_manager (node_output st A r)) = sm_node_id (rt_state_manager r)"
proof -
  have "rt_inv (runtime_send_resync_requests A (gossip_phase st A r))" by (intro resync_requests_inv gossip_phase_inv inv)
  then show "rt_inv (node_output st A r)" by (simp add: node_output_def Let_def rt_inv_def)
  have "rt_state_manager (fst (resync_target_step A s i)) = rt_state_manager (fst s)" for s i
    by (cases s) (simp add: resync_target_step_def update_target_def send_control_def send_control_ex_def Let_def split: prod.splits)
  then have "rt_state_manager (fst (foldl (resync_target_step A) s is)) = rt_state_manager (fst s)" for s "is"
    by (induction "is" arbitrary: s) simp_all
  then have resync: "rt_state_manager (runtime_send_resync_requests A r) = rt_state_manager r" for r
    using flush_frame [of r] by (simp add: runtime_send_resync_requests_def)
  have "view (rt_state_manager (gossip_phase st A r)) = view (rt_state_manager r) \<and>
      sm_node_id (rt_state_manager (gossip_phase st A r)) = sm_node_id (rt_state_manager r)"
    using bounded_same(2,3) by (auto simp: gossip_phase_def Let_def split: prod.splits option.splits)
  then show "view (rt_state_manager (node_output st A r)) = view (rt_state_manager r)"
    and "sm_node_id (rt_state_manager (node_output st A r)) = sm_node_id (rt_state_manager r)"
    by (simp_all add: node_output_def Let_def resync)
qed

text \<open>A consistent node: its runtime, and the brain where there is one.\<close>

definition node_ok :: "('v, 'g, 'f, 'u) FleeceNode \<Rightarrow> bool" where
  "node_ok nd \<longleftrightarrow> rt_inv (nd_runtime nd) \<and> (\<forall>b. nd_brain nd = Some b \<longrightarrow> brain_inv b \<and> cstring (br_goal_pool_key_field b))"

text \<open>How scripts and brain leave a node: only the store of the runtime differs, by at most \<open>n\<close> operations.\<close>

definition node_change :: "nat \<Rightarrow> ('v, 'g, 'f, 'u) FleeceNode \<Rightarrow> ('v, 'g, 'f, 'u) FleeceNode \<Rightarrow> bool" where
  "node_change n nd nd' \<longleftrightarrow>
     (\<exists>m'. store_change (Collect cstring) n (nd_store nd) m' \<and> nd_runtime nd' = (nd_runtime nd)\<lparr>rt_state_manager := m'\<rparr>)"

lemma node_change_inv: "rt_inv (nd_runtime nd) \<Longrightarrow> node_change n nd nd' \<Longrightarrow> rt_inv (nd_runtime nd')"
  by (auto simp: node_change_def store_change_def rt_inv_def)

lemma node_change_ready: "store_ready (i + j) (nd_store nd) \<Longrightarrow> node_change i nd nd' \<Longrightarrow> store_ready j (nd_store nd')"
  using store_ready_step by (auto simp: node_change_def)

lemma node_change_trans: "node_change i nd nd1 \<Longrightarrow> node_change j nd1 nd2 \<Longrightarrow> node_change (i + j) nd nd2"
  using store_change_trans by (fastforce simp: node_change_def)

lemma with_embedded_change:
  assumes "emb' = (node_embedded nd)\<lparr>em_manager := Some m'\<rparr>" and "store_change (Collect cstring) n (nd_store nd) m'"
    and "nd_runtime nd1 = nd_runtime nd"
  shows "node_change n nd (with_embedded emb' nd1)" and "nd_brain (with_embedded emb' nd1) = nd_brain nd1"
  using assms by (auto simp: node_change_def with_embedded_def)

lemma script_node_change:
  assumes sh: "script_bounded M sh" and ready: "store_ready M (nd_store nd)"
  shows "node_change M nd (node_script A sh nd)" and "nd_brain (node_script A sh nd) = nd_brain nd"
proof -
  obtain rc emb g where call: "fleece_embedded_call_step A sh (node_embedded nd) (nd_globals nd) = (rc, emb, g)" by (metis prod_cases3)
  obtain m' where m': "emb = (node_embedded nd)\<lparr>em_manager := Some m'\<rparr>" "store_change (Collect cstring) M (nd_store nd) m'"
    using lifecycle_change [OF sh _ ready call [unfolded fleece_embedded_call_step_def]] by (auto simp: node_embedded_def)
  then show "node_change M nd (node_script A sh nd)" and "nd_brain (node_script A sh nd) = nd_brain nd"
    using with_embedded_change [OF m', of "nd\<lparr>nd_globals := g\<rparr>"] by (simp_all add: node_script_def call)
qed

lemma source_node_change:
  assumes sh: "script_bounded M sh" and ready: "store_ready M (nd_store nd)"
    and eval: "fleece_runtime_load_script A sh nd src = (rc, nd') \<or> fleece_runtime_execute_script A sh nd src = (rc, nd')"
  shows "node_change M nd nd'" and "nd_brain nd' = nd_brain nd"
proof -
  obtain emb g where e: "fleece_embedded_load_script A sh (node_embedded nd) (nd_globals nd) src = (rc, emb, g) \<or>
      fleece_embedded_execute A sh (node_embedded nd) (nd_globals nd) src = (rc, emb, g)" and nd': "nd' = with_embedded emb (nd\<lparr>nd_globals := g\<rparr>)"
    using eval by (auto simp: fleece_runtime_load_script_def fleece_runtime_execute_script_def split: prod.splits)
  obtain m' where m': "emb = (node_embedded nd)\<lparr>em_manager := Some m'\<rparr>" "store_change (Collect cstring) M (nd_store nd) m'"
    using source_change [OF sh _ ready e] by (auto simp: node_embedded_def)
  then show "node_change M nd nd'" and "nd_brain nd' = nd_brain nd"
    using with_embedded_change [OF m', of "nd\<lparr>nd_globals := g\<rparr>"] by (simp_all add: nd')
qed

lemma brain_node_change:
  assumes en: "engine_bounded N K en" and A: "\<forall>k. A k" and ok: "node_ok nd" and ready: "store_ready (6 + 2 * N + 4 * K) (nd_store nd)"
    and fit: "\<forall>b. nd_brain nd = Some b \<longrightarrow> tables_fit goap b"
  shows "\<exists>nd'. node_brain A en goap nd = Some nd' \<and> node_change (6 + 2 * N + 4 * K) nd nd' \<and> node_ok nd'"
proof (cases "nd_brain nd")
  case None
  have "node_change (6 + 2 * N + 4 * K) nd nd"
    unfolding node_change_def using store_change_refl [OF ready] by (intro exI [of _ "nd_store nd"]) simp
  then show ?thesis using None ok by (simp add: node_brain_def)
next
  case (Some b)
  have b: "tables_fit goap b" "brain_inv b" "cstring (br_goal_pool_key_field b)" using Some ok fit by (simp_all add: node_ok_def)
  obtain rc b' emb' where t: "fleece_goap_brain_tick A en goap b (node_embedded nd) = Some (rc, b', emb')" "brain_inv b'" "brain_config_same b b'"
    using tick_step [OF A b(1,2)] by blast
  have inv: "sm_inv (nd_store nd)" using ready by (simp add: store_ready_def)
  obtain m' where m': "emb' = (node_embedded nd)\<lparr>em_manager := Some m'\<rparr>" "store_change (Collect cstring) (6 + 2 * N + 4 * K) (nd_store nd) m'"
    using any_name.tick_change [OF en any_natives _ ready _ any_pool [OF inv] t(1)] b(3) by (auto simp: node_embedded_def)
  note W = with_embedded_change [OF m', of "nd\<lparr>nd_brain := Some b'\<rparr>"]
  then have "node_ok (with_embedded emb' (nd\<lparr>nd_brain := Some b'\<rparr>))"
    using node_change_inv [OF _ W(1)] ok t(2,3) b(3) by (simp add: node_ok_def brain_config_same_def)
  then show ?thesis using W(1) Some t(1) by (simp add: node_brain_def)
qed

lemma node_tick_ok:
  assumes sh: "script_bounded M sh" and en: "\<forall>x. engine_bounded N K (en x)" and cb: "\<forall>r. rt_inv r \<longrightarrow> rt_inv (tick_cb r)"
    and A: "\<forall>k. A k" and ok: "node_ok nd" and fit: "\<forall>b. nd_brain nd = Some b \<longrightarrow> tables_fit goap b"
    and r: "r = node_input A frames tick_cb (nd_runtime nd)"
    and room: "unat (sm_local_timestamp (rt_state_manager r)) + (M + (6 + 2 * N + 4 * K)) \<le> unat UINT64_MAX"
  shows "\<exists>nd'. node_tick st A sh en goap frames tick_cb nd = Some nd' \<and> node_ok nd' \<and>
    sm_node_id (nd_store nd') = sm_node_id (rt_state_manager r) \<and>
    (\<forall>ow k. ow \<noteq> FLEECE_SHARED_OWNER_ID \<and> ow \<noteq> sm_node_id (rt_state_manager r) \<longrightarrow>
       view (nd_store nd') (ow, k) = view (rt_state_manager r) (ow, k))"
proof -
  let ?B = "6 + 2 * N + 4 * K"
  define nd0 where "nd0 = nd\<lparr>nd_runtime := r\<rparr>"
  define nd1 where "nd1 = node_script A sh nd0"
  have r0: "rt_inv (nd_runtime nd0)" using ok input_inv [OF _ cb] by (simp add: nd0_def r node_ok_def)
  then have ready: "store_ready (M + ?B) (nd_store nd0)" using room by (simp add: store_ready_def nd0_def rt_inv_def)
  have sc: "node_change M nd0 nd1" "nd_brain nd1 = nd_brain nd"
    using script_node_change [OF sh store_ready_mono [OF ready], of A] by (simp_all add: nd1_def nd0_def)
  have ok1: "node_ok nd1" using node_change_inv [OF r0 sc(1)] sc(2) ok by (simp add: node_ok_def)
  obtain nd2 where nd2: "node_brain A (en (nd_globals nd1)) goap nd1 = Some nd2" "node_change ?B nd1 nd2" "node_ok nd2"
    using brain_node_change [where en = "en (nd_globals nd1)" and goap = goap, OF en [THEN spec] A ok1 node_change_ready [OF ready sc(1)]] fit sc(2) by auto
  have "node_change (M + ?B) nd0 nd2" by (rule node_change_trans [OF sc(1) nd2(2)])
  then obtain m' where m': "store_change (Collect cstring) (M + ?B) (rt_state_manager r) m'" "nd_store nd2 = m'"
    by (auto simp: node_change_def nd0_def)
  have inv2: "rt_inv (nd_runtime nd2)" using nd2(3) by (simp add: node_ok_def)
  have "node_tick st A sh en goap frames tick_cb nd = Some (nd2\<lparr>nd_runtime := node_output st A (nd_runtime nd2)\<rparr>)"
    using nd2(1) by (simp add: node_tick_def node_work_def Let_def r [symmetric] nd0_def [symmetric] nd1_def [symmetric])
  moreover have "node_ok (nd2\<lparr>nd_runtime := node_output st A (nd_runtime nd2)\<rparr>)"
    using nd2(3) output_inv(1) [OF inv2] by (simp add: node_ok_def)
  ultimately show ?thesis using output_inv(2,3) [OF inv2, of st A] m' by (auto simp: store_change_def)
qed

section \<open>Whatever the host does\<close>

text \<open>
  What the host may set on a brain between two ticks.  Names are C strings; a limit for actions
  is not set below the number of ticks the current action has used.
\<close>

inductive brain_setting :: "('v, 'f, 'u) goap_engine \<Rightarrow> 'v FleeceGoapBrain \<Rightarrow> 'v FleeceGoapBrain \<Rightarrow> bool" for en where
  limit: "n = 0 \<or> br_exec_progress b < n \<Longrightarrow> brain_setting en b (fleece_goap_brain_set_max_action_ticks b n)"
| cooldown: "brain_setting en b (fleece_goap_brain_set_goal_cooldown_ticks b n)"
| pool: "\<forall>k. key = Some k \<longrightarrow> cstring k \<Longrightarrow> brain_setting en b (fleece_goap_brain_set_goal_pool b prefix' key margin)"
| library: "brain_setting en b (snd (fleece_goap_brain_set_action_library A en b defs))"
| events: "brain_setting en b (fleece_goap_brain_set_event_callback b cb)"
| world: "brain_setting en b (fleece_goap_brain_set_world_model b wm)"
| divergences: "brain_setting en b (fleece_goap_brain_set_divergence_cb b cb)"

text \<open>
  The states of a node: after creation, the host may load and execute sources, call the script's functions,
  attach or replace a brain and configure it, and run ticks with any frames, in any order.  Memory is available, the clock
  has room for the operations of one call, and the tables of a tick have no more goals than the brain's cooldowns.
\<close>

abbreviation clock_left :: "nat \<Rightarrow> FleeceStateManager \<Rightarrow> bool" where
  "clock_left n m \<equiv> unat (sm_local_timestamp m) + n \<le> unat UINT64_MAX"

inductive node_reachable ::
    "('v, 'g, 'f, 'u) script_host \<Rightarrow> ('g \<Rightarrow> ('v, 'f, 'u) goap_engine) \<Rightarrow> (FleeceRuntime \<Rightarrow> FleeceRuntime) \<Rightarrow> nat \<Rightarrow> nat \<Rightarrow>
     ('v, 'g, 'f, 'u) FleeceNode \<Rightarrow> bool" for sh en tick_cb M B where
  created: "fleece_runtime_create_with_node_id True True True True True True node_id = Some r \<Longrightarrow>
     node_reachable sh en tick_cb M B \<lparr>nd_runtime = r, nd_platform = p, nd_peer_ttl_ticks = ttl, nd_globals = x, nd_brain = None\<rparr>"
| transport: "node_reachable sh en tick_cb M B nd \<Longrightarrow> node_reachable sh en tick_cb M B (nd\<lparr>nd_runtime := (nd_runtime nd)\<lparr>rt_comms := c\<rparr>\<rparr>)"
| hook: "node_reachable sh en tick_cb M B nd \<Longrightarrow>
     node_reachable sh en tick_cb M B (nd\<lparr>nd_runtime := fleece_runtime_set_tick_callback (nd_runtime nd) cb\<rparr>)"
| loads: "node_reachable sh en tick_cb M B nd \<Longrightarrow> clock_left M (nd_store nd) \<Longrightarrow> fleece_runtime_load_script A sh nd src = (rc, nd') \<Longrightarrow>
     node_reachable sh en tick_cb M B nd'"
| executes: "node_reachable sh en tick_cb M B nd \<Longrightarrow> clock_left M (nd_store nd) \<Longrightarrow> fleece_runtime_execute_script A sh nd src = (rc, nd') \<Longrightarrow>
     node_reachable sh en tick_cb M B nd'"
| patience: "node_reachable sh en tick_cb M B nd \<Longrightarrow> node_reachable sh en tick_cb M B (snd (fleece_runtime_set_peer_ttl_ticks nd ttl))"
| attaches: "node_reachable sh en tick_cb M B nd \<Longrightarrow> node_reachable sh en tick_cb M B (snd (node_set_goap A goap nd))"
| replaces: "node_reachable sh en tick_cb M B nd \<Longrightarrow> node_replace_goap A goap nd = Some (rc, nd') \<Longrightarrow> node_reachable sh en tick_cb M B nd'"
| configures: "node_reachable sh en tick_cb M B nd \<Longrightarrow> nd_brain nd = Some b \<Longrightarrow> brain_setting (en (nd_globals nd)) b b' \<Longrightarrow>
     node_reachable sh en tick_cb M B (nd\<lparr>nd_brain := Some b'\<rparr>)"
| ticks: "node_reachable sh en tick_cb M B nd \<Longrightarrow> \<forall>k. A k \<Longrightarrow> \<forall>b. nd_brain nd = Some b \<longrightarrow> tables_fit goap b \<Longrightarrow>
     clock_left (M + B) (rt_state_manager (node_input A frames tick_cb (nd_runtime nd))) \<Longrightarrow>
     node_tick st A sh en goap frames tick_cb nd = Some nd' \<Longrightarrow> node_reachable sh en tick_cb M B nd'"

lemma brain_create_inv: "fleece_goap_brain_create A goap = Some b \<Longrightarrow> brain_inv b \<and> cstring (br_goal_pool_key_field b)"
  by (auto simp: fleece_goap_brain_create_def brain_inv_def fleece_goap_plan_destroy_def cstring_def Let_def split: if_splits option.splits)

lemma setting_inv: "brain_setting en b b' \<Longrightarrow> brain_inv b \<and> cstring (br_goal_pool_key_field b) \<Longrightarrow> brain_inv b' \<and> cstring (br_goal_pool_key_field b')"
proof (induction rule: brain_setting.induct)
  case (pool key b prefix' margin)
  then show ?case
    by (auto simp: fleece_goap_brain_set_goal_pool_def brain_inv_def cstring_def dest: in_set_takeD split: option.splits list.splits)
qed (auto simp: brain_inv_def fleece_goap_brain_set_max_action_ticks_def fleece_goap_brain_set_goal_cooldown_ticks_def
      fleece_goap_brain_set_action_library_def action_library_free_def fleece_goap_brain_set_event_callback_def
      fleece_goap_brain_set_world_model_def fleece_goap_brain_set_divergence_cb_def Let_def word_neq_0_conv split: option.splits)

lemma sourced_ok:
  assumes "script_bounded M sh" and "clock_left M (nd_store nd)" and "node_ok nd"
    and "fleece_runtime_load_script A sh nd src = (rc, nd') \<or> fleece_runtime_execute_script A sh nd src = (rc, nd')"
  shows "node_ok nd'"
  using source_node_change [OF assms(1) _ assms(4)] node_change_inv [of nd M nd'] assms(2,3)
  by (simp add: node_ok_def store_ready_def rt_inv_def)

lemma created_inv:
  assumes "fleece_runtime_create_with_node_id True True True True True True node_id = Some r"
  shows "rt_inv r"
proof -
  have none: "runtime_create_internal True True True True None = None" by (simp add: runtime_create_internal_def)
  then obtain m where "fleece_state_manager_create_with_node_id True True node_id = Some m" "runtime_create_internal True True True True (Some m) = Some r"
    using assms by (cases "fleece_state_manager_create_with_node_id True True node_id") (auto simp: fleece_runtime_create_with_node_id_def)
  then show ?thesis using create_rt_inv create_inv by blast
qed

lemma node_reachable_ok:
  assumes "node_reachable sh en tick_cb M B nd" and sh: "script_bounded M sh" and en: "\<forall>x. engine_bounded N K (en x)"
    and cb: "\<forall>r. rt_inv r \<longrightarrow> rt_inv (tick_cb r)" and B: "B = 6 + 2 * N + 4 * K"
  shows "node_ok nd"
  using assms(1)
proof induction
  case (created node_id r p ttl x)
  then show ?case using created_inv by (simp add: node_ok_def)
next
  case (loads nd A src rc nd')
  then show ?case using sourced_ok [OF sh] by blast
next
  case (executes nd A src rc nd')
  then show ?case using sourced_ok [OF sh] by blast
next
  case (attaches nd A goap)
  then show ?case by (auto simp: node_set_goap_def node_ok_def Let_def dest!: brain_create_inv split: option.splits)
next
  case (replaces nd A goap rc nd')
  then show ?case by (auto simp: node_replace_goap_def node_ok_def Let_def dest!: brain_create_inv split: option.splits)
next
  case (configures nd b b')
  then show ?case using setting_inv by (auto simp: node_ok_def)
next
  case (ticks nd A goap frames st nd')
  then show ?case using node_tick_ok [OF sh en cb ticks.hyps(2) ticks.IH ticks.hyps(3) refl, where st = st and frames = frames] ticks.hyps(4,5) B by fastforce
qed (simp_all add: node_ok_def rt_inv_def fleece_runtime_set_tick_callback_def fleece_runtime_set_peer_ttl_ticks_def)

text \<open>
  A node keeps going.  In every state a node can reach through its interface, with any scripts that make
  at most \<open>M\<close> native calls at a time, any brain and any inbound bytes, the runtime's invariant holds,
  and the next tick, with whatever frames arrive in it, returns: frames, script, brain, gossip and repair requests
  included.  Of the fields of other nodes the tick changes none after the frames have been taken in.
  Memory must be available, the clock must not be at its end, and the brain's tables must not have grown.
\<close>

theorem node_never_stuck:
  assumes "node_reachable sh en tick_cb M (6 + 2 * N + 4 * K) nd" and "script_bounded M sh" and "\<forall>x. engine_bounded N K (en x)"
    and "\<forall>r. rt_inv r \<longrightarrow> rt_inv (tick_cb r)" and "\<forall>k. A k" and "\<forall>b. nd_brain nd = Some b \<longrightarrow> tables_fit goap b"
    and r: "r = node_input A frames tick_cb (nd_runtime nd)" and "clock_left (M + (6 + 2 * N + 4 * K)) (rt_state_manager r)"
  shows "rt_inv (nd_runtime nd) \<and> (\<exists>nd'. node_tick st A sh en goap frames tick_cb nd = Some nd' \<and> rt_inv (nd_runtime nd') \<and>
    sm_node_id (nd_store nd') = sm_node_id (rt_state_manager r) \<and>
    (\<forall>ow k. ow \<noteq> FLEECE_SHARED_OWNER_ID \<and> ow \<noteq> sm_node_id (rt_state_manager r) \<longrightarrow>
       view (nd_store nd') (ow, k) = view (rt_state_manager r) (ow, k)))"
proof -
  have ok: "node_ok nd" by (rule node_reachable_ok [OF assms(1-4) refl])
  then show ?thesis
    using node_tick_ok [OF assms(2-5) ok assms(6) r assms(8), where st = st] by (auto simp: node_ok_def)
qed

text \<open>Seen from the runtime, script and brain together are the step of the host, in a tick no signal arrives in.\<close>

lemma node_tick_runtime:
  assumes "node_tick st A sh en goap frames tick_cb nd = Some nd'"
  shows "\<exists>step. nd_runtime nd' = runtime_tick st A (\<lambda>_. None)
    \<lparr>h_poll = \<lambda>r. foldl (receive A) r frames, h_tick_cb = tick_cb, h_step = step, h_brain = \<lambda>r. r\<rparr> (nd_runtime nd)"
proof -
  obtain r where "nd_runtime nd' = node_output st A r" using assms by (auto simp: node_tick_def node_work_def Let_def)
  then show ?thesis by (intro exI [of _ "\<lambda>_. r"]) (simp add: runtime_tick_def host_phase_def interrupt_def node_output_def Let_def)
qed

section \<open>Witnesses\<close>

text \<open>A script whose \<open>step\<close> writes a shared field at every tick.\<close>

definition demo_script :: "(demo_js, unit, unit, unit) script_host" where
  "demo_script =
     \<lparr>sh_engine = demo_js_script, sh_IsFunction = (\<lambda>v. case v of DFun _ \<Rightarrow> True | _ \<Rightarrow> False),
      sh_GetGlobal = (\<lambda>g name. Some (if name = lit ''step'' then DFun (lit ''t'') else DUndef)), sh_SetGlobal = (\<lambda>g name v. Some g),
      sh_Eval = (\<lambda>emb g src. (Some DUndef, [], g)), sh_Call = (\<lambda>emb g fn. (Some DUndef, [WorldSet [DText [98], DText [53]]], g)),
      sh_run = no_host\<rparr>"

text \<open>A node with this script, a brain and an open transport.\<close>

definition demo_runtime :: FleeceRuntime where
  "demo_runtime = the (fleece_runtime_create_with_node_id True True True True True True 1)"

definition demo_open :: "FleeceComms" where
  "demo_open = fleece_comms_set_poll_callback (snd (fleece_comms_initialize (rt_comms demo_runtime))) True"

definition demo_full :: "(demo_js, unit, unit, unit) FleeceNode" where
  "demo_full = snd (node_set_goap yes (demo_wait (lit ''w''))
     \<lparr>nd_runtime = demo_runtime\<lparr>rt_comms := demo_open\<rparr>, nd_platform = None, nd_peer_ttl_ticks = 50, nd_globals = (), nd_brain = None\<rparr>)"

lemma demo_created: "fleece_runtime_create_with_node_id True True True True True True 1 = Some demo_runtime"
proof -
  have "\<not> Option.is_none (fleece_runtime_create_with_node_id True True True True True True 1)" by code_simp
  then show ?thesis by (auto simp: demo_runtime_def Option.is_none_def)
qed

lemma demo_full_reachable: "node_reachable demo_script (\<lambda>_. demo_goap_engine) (\<lambda>r. r) 1 (6 + 2 * 0 + 4 * 8) demo_full"
  using node_reachable.attaches [OF node_reachable.transport [OF node_reachable.created [OF demo_created]]]
  unfolding demo_full_def by fastforce

theorem node_never_stuck_witness:
  "\<exists>nd'. node_tick demo_statics yes demo_script (\<lambda>_. demo_goap_engine) (demo_wait (lit ''w''))
     [GossipFrame [1, 2, 3], ControlFrame [70, 88, 1]] (\<lambda>r. r) demo_full = Some nd' \<and> rt_inv (nd_runtime nd')"
proof -
  let ?frames = "[GossipFrame [1, 2, 3], ControlFrame [70, 88, 1]]"
  have sh: "script_bounded 1 demo_script" by (simp add: script_bounded_def demo_script_def)
  have "fleece_goap_goal_count (demo_wait (lit ''w'')) = length (br_goal_cooldown_until (the (nd_brain demo_full)))" by code_simp
  then have fit: "\<forall>b. nd_brain demo_full = Some b \<longrightarrow> tables_fit (demo_wait (lit ''w'')) b" by (auto simp: tables_fit_def)
  have "unat (sm_local_timestamp (rt_state_manager (node_input yes ?frames (\<lambda>r. r) (nd_runtime demo_full)))) \<le> 100" by code_simp
  then have room: "clock_left (1 + (6 + 2 * 0 + 4 * 8)) (rt_state_manager (node_input yes ?frames (\<lambda>r. r) (nd_runtime demo_full)))"
    by (simp add: unat_clock_max)
  show ?thesis
    using node_never_stuck [OF demo_full_reachable sh _ _ _ fit refl room, of demo_statics] demo_engine_bounded by auto
qed

end
