(* ===== verification/Transport_Proofs.thy ===== *)
theory Transport_Proofs
  imports Transport Node_Claims
begin

text \<open>
  The mesh transport: its peer table under announcements and link callbacks, what it delivers to the runtime,
  and whom a send reaches.
\<close>

section \<open>The peer table\<close>

definition peer_entry :: "('i, 'l) PeerSlot \<Rightarrow> 'i \<times> u32" where
  "peer_entry p = (pt_identity p, pt_last_seen_tick p)"

abbreviation peer_entries :: "('i, 'l) Reticulum \<Rightarrow> ('i \<times> u32) list" where
  "peer_entries re \<equiv> map peer_entry (re_peers re)"

definition table_ok :: "('i, 'l) rns \<Rightarrow> ('i, 'l) PeerSlot list \<Rightarrow> bool" where
  "table_ok rn peers \<longleftrightarrow> length peers \<le> kMaxPeers \<and> distinct (map (\<lambda>p. rn_hash rn (pt_identity p)) peers) \<and>
     (\<forall>p\<in>set peers. length (pt_links p) = 2)"

text \<open>The same peers with the same ticks; the links may differ.\<close>

definition same_peers :: "('i, 'l) PeerSlot list \<Rightarrow> ('i, 'l) PeerSlot list \<Rightarrow> bool" where
  "same_peers ps qs \<longleftrightarrow> map peer_entry qs = map peer_entry ps \<and> map (length \<circ> pt_links) qs = map (length \<circ> pt_links) ps"

lemma same_peers_refl [simp, intro]: "same_peers ps ps"
  by (simp add: same_peers_def)

lemma same_peers_trans [trans]: "same_peers ps qs \<Longrightarrow> same_peers qs rs \<Longrightarrow> same_peers ps rs"
  by (simp add: same_peers_def)

lemma same_peers_length: "same_peers ps qs \<Longrightarrow> length qs = length ps"
  by (auto simp: same_peers_def dest: map_eq_imp_length_eq)

lemma same_peers_nth:
  assumes "same_peers ps qs" and "i < length ps"
  shows "pt_identity (qs ! i) = pt_identity (ps ! i)" and "pt_last_seen_tick (qs ! i) = pt_last_seen_tick (ps ! i)"
    and "length (pt_links (qs ! i)) = length (pt_links (ps ! i))"
proof -
  have "map peer_entry qs ! i = map peer_entry ps ! i" "map (length \<circ> pt_links) qs ! i = map (length \<circ> pt_links) ps ! i"
    using assms(1) by (simp_all add: same_peers_def)
  then show "pt_identity (qs ! i) = pt_identity (ps ! i)" "pt_last_seen_tick (qs ! i) = pt_last_seen_tick (ps ! i)"
    "length (pt_links (qs ! i)) = length (pt_links (ps ! i))"
    using assms same_peers_length [OF assms(1)] by (simp_all add: peer_entry_def)
qed

lemma same_put_link [simp]: "same_peers ps (put_link i a l ps)"
proof (cases "i < length ps")
  case True
  have "(map peer_entry ps)[i := peer_entry (ps ! i)] = map peer_entry ps"
    "(map (length \<circ> pt_links) ps)[i := length (pt_links (ps ! i))] = map (length \<circ> pt_links) ps"
    using True by (simp_all add: list_update_same_conv)
  then show ?thesis by (simp add: same_peers_def put_link_def map_update peer_entry_def)
qed (simp add: put_link_def list_update_beyond)

lemma same_note_link_closed [simp]: "same_peers ps (note_link_closed rn h ps)"
  by (simp add: note_link_closed_def split: option.split prod.split)

lemma table_ok_same:
  assumes "same_peers ps qs" and "table_ok rn ps"
  shows "table_ok rn qs"
proof -
  have eq: "map (f \<circ> fst) (map peer_entry qs) = map (f \<circ> fst) (map peer_entry ps)" for f :: "_ \<Rightarrow> bytes"
    using assms(1) by (simp add: same_peers_def)
  have "\<forall>p\<in>set qs. length (pt_links p) = 2"
    using assms same_peers_nth(3) [OF assms(1)] same_peers_length [OF assms(1)] by (metis in_set_conv_nth table_ok_def)
  then show ?thesis
    using assms eq [of "rn_hash rn"] same_peers_length [OF assms(1)] by (simp add: table_ok_def comp_def peer_entry_def)
qed

section \<open>What reaches the runtime\<close>

text \<open>The host has connected the module to its runtime, or has left a callback out.\<close>

definition wired :: "allocator \<Rightarrow> ('i, 'l) Reticulum \<Rightarrow> bool" where
  "wired A re \<longleftrightarrow> (re_control_callback re = None \<or> re_control_callback re = Some (on_control_packet A)) \<and>
     (re_gap_callback re = None \<or> re_gap_callback re = Some on_gap)"

text \<open>
  What a handler may do: steps \<open>R\<close> of the runtime, changes of the counters and of cached links, calls into the library.
\<close>

definition delivers :: "allocator \<Rightarrow> (FleeceRuntime \<Rightarrow> FleeceRuntime \<Rightarrow> bool) \<Rightarrow> ('i, 'l) Reticulum \<Rightarrow> ('i, 'l) Reticulum \<Rightarrow> bool" where
  "delivers A R re re' \<longleftrightarrow> R (re_host re) (re_host re') \<and> same_peers (re_peers re) (re_peers re') \<and>
     wired A re' \<and> re_config re' = re_config re \<and> re_state_manager re' = re_state_manager re \<and>
     re_reticulum re' = re_reticulum re \<and> re_poll_tick_count re' = re_poll_tick_count re"

lemma deliversD: "delivers A R re re' \<Longrightarrow> wired A re'"
  by (simp add: delivers_def)

text \<open>
  The runtime as the module sees it: a relation between states of the runtime that contains what the three ways
  into it do.  Whatever the mesh delivers is then within the relation.
\<close>

locale mesh_host =
  fixes A :: allocator and R :: "FleeceRuntime \<Rightarrow> FleeceRuntime \<Rightarrow> bool"
  assumes refl: "R r r"
    and trans: "R r r' \<Longrightarrow> R r' r'' \<Longrightarrow> R r r''"
    and control: "R r (on_control_packet A data r)"
    and merge: "R r (r\<lparr>rt_state_manager := ir_manager (import_impl (\<lambda>_. A) (rt_state_manager r) data)\<rparr>)"
    and gap: "R r (on_gap behind sender r)"
begin

lemma delivers_refl: "wired A re \<Longrightarrow> delivers A R re re"
  by (simp add: delivers_def refl)

lemma delivers_trans: "delivers A R re re' \<Longrightarrow> delivers A R re' re'' \<Longrightarrow> delivers A R re re''"
  unfolding delivers_def using trans same_peers_trans by metis

lemma delivers_fold:
  assumes f: "\<And>re x. wired A re \<Longrightarrow> delivers A R re (f re x)" and "wired A re"
  shows "delivers A R re (foldl f re xs)"
  using assms(2)
proof (induction xs arbitrary: re)
  case (Cons x xs)
  show ?case using delivers_trans [OF f [OF Cons.prems] Cons.IH [OF deliversD [OF f [OF Cons.prems]]]] by simp
qed (simp add: delivers_refl)

lemma bookkeeping:
  assumes "wired A re"
  shows "delivers A R re (re\<lparr>re_resource_failed := n\<rparr>)" and "delivers A R re (re\<lparr>re_resource_complete := n\<rparr>)"
    and "delivers A R re (log_call c re)" and "delivers A R re (re\<lparr>re_peers := put_link i a l (re_peers re)\<rparr>)"
    and "delivers A R re (onLinkClosed rn link re)"
  using assms refl by (simp_all add: delivers_def wired_def log_call_def onLinkClosed_def)

lemma control_delivers: "wired A re \<Longrightarrow> delivers A R re (call_control data re)"
  using refl control by (auto simp: wired_def delivers_def call_control_def split: option.split)

lemma import_delivers: "wired A re \<Longrightarrow> delivers A R re (import_gossip_frame A data re)"
  using refl merge trans [OF merge gap]
  by (auto simp: wired_def delivers_def import_gossip_frame_def Let_def fleece_state_manager_import_from_def split: option.split)

lemma packet_delivers: "wired A re \<Longrightarrow> delivers A R re (onPacketReceived A data re)"
  by (simp add: onPacketReceived_def control_delivers import_delivers)

lemma resource_delivers:
  assumes "wired A re"
  shows "delivers A R re (onFleeceResourceConcluded A r re)" and "delivers A R re (onControlResourceConcluded r re)"
proof -
  let ?re = "re\<lparr>re_resource_complete := re_resource_complete re + 1\<rparr>"
  have re: "delivers A R re ?re" by (rule bookkeeping(2) [OF assms])
  note import = delivers_trans [OF re import_delivers [OF deliversD [OF re]]]
    and control = delivers_trans [OF re control_delivers [OF deliversD [OF re]]]
  show "delivers A R re (onFleeceResourceConcluded A r re)" "delivers A R re (onControlResourceConcluded r re)"
    using re import control bookkeeping(1) [OF assms]
    by (simp_all add: onFleeceResourceConcluded_def onControlResourceConcluded_def Let_def)
qed

lemma link_delivers: "wired A re \<Longrightarrow> delivers A R re (on_link A rn re c)"
  by (cases c) (simp_all add: resource_delivers bookkeeping)

lemma teardown_delivers:
  assumes "wired A re"
  shows "delivers A R re (teardown_links A rn slot re)"
proof -
  have calls: "delivers A R re (foldl (on_link A rn) (log_call c re) cs)" if "wired A re" for re c cs
    by (rule delivers_trans [OF bookkeeping(3) [OF that] delivers_fold [OF link_delivers deliversD [OF bookkeeping(3) [OF that]]]])
  have clear: "delivers A R re (re'\<lparr>re_peers := put_link slot a None (re_peers re')\<rparr>)" if "delivers A R re re'" for re re' :: "('i, 'l) Reticulum" and a
    by (rule delivers_trans [OF that bookkeeping(4) [OF deliversD [OF that]]])
  have "delivers A R re (teardown_link A rn slot re a)" if w: "wired A re" for re a
    using delivers_refl [OF w] clear [OF delivers_refl [OF w]] clear [OF calls [OF w]]
    by (auto simp: teardown_link_def Let_def split: option.split)
  then show ?thesis unfolding teardown_links_def by (rule delivers_fold [OF _ assms])
qed

end

text \<open>A link, once out of the cache, does not come back through callbacks.\<close>

definition no_new_links :: "('i, 'l) PeerSlot list \<Rightarrow> ('i, 'l) PeerSlot list \<Rightarrow> bool" where
  "no_new_links ps qs \<longleftrightarrow> (\<forall>i a. link_for i a ps = None \<longrightarrow> link_for i a qs = None)"

lemma no_new_links_refl [simp]: "no_new_links ps ps"
  by (simp add: no_new_links_def)

lemma nth_update_None: "xs ! a = None \<Longrightarrow> xs[b := None] ! a = None"
  by (cases "a = b"; cases "b < length xs") (simp_all add: list_update_beyond)

lemma no_new_links_put [simp]: "no_new_links ps (put_link j b None ps)"
proof -
  have "link_for i a (put_link j b None ps) = None" if "link_for i a ps = None" for i a
    using that nth_update_None [of "pt_links (ps ! i)" a b] unfolding link_for_def put_link_def
    by (cases "i = j"; cases "j < length ps") (simp_all add: list_update_beyond)
  then show ?thesis by (simp add: no_new_links_def)
qed

lemma peers_untouched [simp]:
  "re_peers (call_control data re) = re_peers re" "re_peers (import_gossip_frame A data re) = re_peers re"
  "re_peers (onFleeceResourceConcluded A r re) = re_peers re" "re_peers (onControlResourceConcluded r re) = re_peers re"
proof -
  show c: "re_peers (call_control data re) = re_peers re" for data and re :: "('i, 'l) Reticulum"
    by (simp add: call_control_def split: option.split)
  show i: "re_peers (import_gossip_frame A data re) = re_peers re" for data and re :: "('i, 'l) Reticulum"
    by (simp add: import_gossip_frame_def Let_def split: option.split)
  show "re_peers (onFleeceResourceConcluded A r re) = re_peers re" "re_peers (onControlResourceConcluded r re) = re_peers re"
    by (simp_all add: onFleeceResourceConcluded_def onControlResourceConcluded_def Let_def c i)
qed

lemma no_new_links_on_link: "no_new_links (re_peers re) (re_peers (on_link A rn re c))"
  by (cases c) (simp_all add: onLinkClosed_def note_link_closed_def split: option.split prod.split)

lemma no_new_links_fold: "no_new_links (re_peers re) (re_peers (foldl (on_link A rn) re cs))"
proof (induction cs arbitrary: re)
  case (Cons c cs)
  show ?case using no_new_links_on_link [of re A rn c] Cons.IH [of "on_link A rn re c"] by (simp add: no_new_links_def)
qed simp

lemma same_callbacks: "same_peers (re_peers re) (re_peers (foldl (on_link A rn) re cs))"
proof (induction cs arbitrary: re)
  case (Cons c cs)
  have "same_peers (re_peers re) (re_peers (on_link A rn re c))" by (cases c) (simp_all add: onLinkClosed_def)
  then show ?case using Cons.IH same_peers_trans by simp blast
qed simp

text \<open>Tearing a link down ends with clearing its place in the cache.\<close>

lemma teardown_link_last:
  "link_for slot a (re_peers re) = None \<and> teardown_link A rn slot re a = re \<or>
   (\<exists>qs. same_peers (re_peers re) qs \<and> no_new_links (re_peers re) qs \<and>
      re_peers (teardown_link A rn slot re a) = put_link slot a None qs)"
proof (cases "link_for slot a (re_peers re)")
  case (Some l)
  let ?re = "foldl (on_link A rn) (log_call (Teardown l) re) (rn_teardown rn l)"
  have "same_peers (re_peers re) (re_peers ?re)" "no_new_links (re_peers re) (re_peers ?re)"
    using same_callbacks [of "log_call (Teardown l) re"] no_new_links_fold [of "log_call (Teardown l) re"] by (simp_all add: log_call_def)
  then show ?thesis
    using Some same_peers_refl no_new_links_refl unfolding teardown_link_def Let_def by (auto simp del: same_peers_refl no_new_links_refl)
qed (simp add: teardown_link_def)

lemma same_teardown_link: "same_peers (re_peers re) (re_peers (teardown_link A rn slot re a))"
  using teardown_link_last [of slot a re A rn] same_peers_trans [OF _ same_put_link] by auto

lemma teardown_link_clears:
  assumes "slot < length (re_peers re)" and "a < length (pt_links (re_peers re ! slot))"
  shows "link_for slot a (re_peers (teardown_link A rn slot re a)) = None"
    and "no_new_links (re_peers re) (re_peers (teardown_link A rn slot re a))"
proof -
  have "link_for slot a (put_link slot a None qs) = None" "no_new_links (re_peers re) (put_link slot a None qs)"
    if "same_peers (re_peers re) qs" "no_new_links (re_peers re) qs" for qs
    using that(2) no_new_links_put [of qs slot a] assms same_peers_length [OF that(1)] same_peers_nth(3) [OF that(1) assms(1)]
    by (simp_all add: link_for_def put_link_def no_new_links_def)
  then show "link_for slot a (re_peers (teardown_link A rn slot re a)) = None"
    "no_new_links (re_peers re) (re_peers (teardown_link A rn slot re a))"
    using teardown_link_last [of slot a re A rn] by auto
qed

lemma teardown_links_clears:
  assumes "slot < length (re_peers re)" and "length (pt_links (re_peers re ! slot)) = 2"
  shows "same_peers (re_peers re) (re_peers (teardown_links A rn slot re))"
    and "pt_links (re_peers (teardown_links A rn slot re) ! slot) = [None, None]"
proof -
  let ?re1 = "teardown_link A rn slot re 0"
  let ?re2 = "teardown_link A rn slot ?re1 1"
  have same: "same_peers (re_peers re) (re_peers ?re1)" "same_peers (re_peers re) (re_peers ?re2)"
    using same_teardown_link same_peers_trans by blast+
  then show "same_peers (re_peers re) (re_peers (teardown_links A rn slot re))" by (simp add: teardown_links_def)
  have slot: "slot < length (re_peers ?re1)" "length (pt_links (re_peers ?re1 ! slot)) = 2" "length (pt_links (re_peers ?re2 ! slot)) = 2"
    using assms same_peers_length [OF same(1)] same_peers_nth(3) [OF same(1)] same_peers_nth(3) [OF same(2)] by simp_all
  have "link_for slot 0 (re_peers ?re1) = None" using teardown_link_clears(1) [OF assms(1), of 0 A rn] assms(2) by simp
  then have "link_for slot 0 (re_peers ?re2) = None" "link_for slot 1 (re_peers ?re2) = None"
    using teardown_link_clears [OF slot(1), of 1 A rn] slot(2) by (simp_all add: no_new_links_def)
  then show "pt_links (re_peers (teardown_links A rn slot re) ! slot) = [None, None]"
    using slot(3) by (auto simp: teardown_links_def link_for_def length_Suc_conv numeral_2_eq_2)
qed

lemma oldest_slot_least:
  assumes "peers \<noteq> []"
  shows "oldest_slot peers < length peers" and "\<forall>p\<in>set peers. pt_last_seen_tick (peers ! oldest_slot peers) \<le> pt_last_seen_tick p"
proof -
  define pick where "pick = (\<lambda>oldest i. if pt_last_seen_tick (peers ! i) < pt_last_seen_tick (peers ! oldest) then i else oldest)"
  have "foldl pick 0 [1..<Suc n] < Suc n \<and>
      (\<forall>k\<le>n. pt_last_seen_tick (peers ! foldl pick 0 [1..<Suc n]) \<le> pt_last_seen_tick (peers ! k))" for n
  proof (induction n)
    case (Suc n)
    have "[1..<Suc (Suc n)] = [1..<Suc n] @ [Suc n]" by simp
    then show ?case using Suc by (auto simp: pick_def le_Suc_eq simp del: upt_Suc)
  qed simp
  from this [of "length peers - 1"]
  show "oldest_slot peers < length peers" "\<forall>p\<in>set peers. pt_last_seen_tick (peers ! oldest_slot peers) \<le> pt_last_seen_tick p"
    using assms by (auto simp: oldest_slot_def pick_def in_set_conv_nth)
qed

section \<open>Announcements\<close>

abbreviation peer_known :: "('i, 'l) rns \<Rightarrow> 'i \<Rightarrow> ('i, 'l) Reticulum \<Rightarrow> bool" where
  "peer_known rn identity re \<equiv> \<exists>p\<in>set (re_peers re). rn_hash rn (pt_identity p) = rn_hash rn identity"

lemma table_ok_insert:
  assumes ok: "table_ok rn peers" and new: "\<forall>p\<in>set peers. rn_hash rn (pt_identity p) \<noteq> rn_hash rn (pt_identity q)"
    and links: "length (pt_links q) = 2"
  shows "table_ok rn (peers[i := q])" and "length peers < kMaxPeers \<Longrightarrow> table_ok rn (peers @ [q])"
proof -
  have "distinct (map (\<lambda>p. rn_hash rn (pt_identity p)) (peers[i := q]))"
    using ok new unfolding map_update by (intro distinct_list_update) (auto simp: table_ok_def dest: in_set_takeD in_set_dropD)
  then show "table_ok rn (peers[i := q])"
    using ok links set_update_subset_insert [of peers i q] by (auto simp: table_ok_def)
  show "table_ok rn (peers @ [q])" if "length peers < kMaxPeers" using that ok new links by (auto simp: table_ok_def)
qed

lemma add_known:
  assumes ok: "table_ok rn (re_peers re)" and known: "peer_known rn identity re" and re': "re' = PeerTable_add A rn identity now re"
  shows "table_ok rn (re_peers re')"
    and "peer_entries re' = map (\<lambda>(d, t). (d, if rn_hash rn d = rn_hash rn identity then now else t)) (peer_entries re)"
    and "re_host re' = re_host re"
proof -
  let ?peers = "re_peers re"
  let ?P = "\<lambda>p. rn_hash rn (pt_identity p) = rn_hash rn identity"
  have "index_of ?P ?peers \<noteq> None" using known by (simp add: index_of_None_iff)
  then obtain i where i: "index_of ?P ?peers = Some i" "i < length ?peers" "?P (?peers ! i)" using index_of_SomeD [of ?P ?peers] by auto
  have res: "re' = re\<lparr>re_peers := ?peers[i := (?peers ! i)\<lparr>pt_last_seen_tick := now\<rparr>]\<rparr>"
    by (simp add: re' PeerTable_add_def i(1) Let_def)
  then show "re_host re' = re_host re" by simp
  have "map (\<lambda>p. rn_hash rn (pt_identity p)) (re_peers re') = map (\<lambda>p. rn_hash rn (pt_identity p)) ?peers"
    using i(2) by (simp add: res map_update list_update_same_conv)
  moreover have "length (pt_links p) = 2" if "p \<in> set (re_peers re')" for p
    using that ok i(2) set_update_subset_insert [of ?peers i] by (fastforce simp: res table_ok_def)
  ultimately show "table_ok rn (re_peers re')" using ok by (simp add: res table_ok_def)
  have others: "rn_hash rn (pt_identity (?peers ! k)) = rn_hash rn identity \<longleftrightarrow> k = i" if "k < length ?peers" for k
    using ok i that nth_eq_iff_index_eq [of "map (\<lambda>p. rn_hash rn (pt_identity p)) ?peers" k i] by (auto simp: table_ok_def)
  show "peer_entries re' = map (\<lambda>(d, t). (d, if rn_hash rn d = rn_hash rn identity then now else t)) (peer_entries re)"
    using others by (intro nth_equalityI) (auto simp: res peer_entry_def nth_list_update)
qed

lemma add_room:
  assumes ok: "table_ok rn (re_peers re)" and new: "\<not> peer_known rn identity re" and room: "length (re_peers re) < kMaxPeers"
    and re': "re' = PeerTable_add A rn identity now re"
  shows "table_ok rn (re_peers re')" and "peer_entries re' = peer_entries re @ [(identity, now)]" and "re_host re' = re_host re"
proof -
  let ?q = "\<lparr>pt_identity = identity, pt_last_seen_tick = now, pt_links = [None, None]\<rparr>"
  have "index_of (\<lambda>p. rn_hash rn (pt_identity p) = rn_hash rn identity) (re_peers re) = None"
    using new by (simp add: index_of_None_iff)
  then have res: "re' = re\<lparr>re_peers := re_peers re @ [?q]\<rparr>" using room by (simp add: re' PeerTable_add_def)
  then show "table_ok rn (re_peers re')" using table_ok_insert(2) [OF ok, of ?q] new room by simp
  show "peer_entries re' = peer_entries re @ [(identity, now)]" "re_host re' = re_host re" by (simp_all add: res peer_entry_def)
qed

lemma add_full:
  assumes ok: "table_ok rn (re_peers re)" and new: "\<not> peer_known rn identity re" and full: "\<not> length (re_peers re) < kMaxPeers"
    and re': "re' = PeerTable_add A rn identity now re" and j: "j = oldest_slot (re_peers re)"
  shows "table_ok rn (re_peers re')" and "j < kMaxPeers" and "\<forall>e\<in>set (peer_entries re). snd (peer_entries re ! j) \<le> snd e"
    and "peer_entries re' = (peer_entries re)[j := (identity, now)]" and "pt_links (re_peers re' ! j) = [None, None]"
    and "re_host re' = re_host (teardown_links A rn j re)"
proof -
  let ?q = "\<lparr>pt_identity = identity, pt_last_seen_tick = now, pt_links = [None, None]\<rparr>"
  let ?re = "teardown_links A rn j re"
  have "index_of (\<lambda>p. rn_hash rn (pt_identity p) = rn_hash rn identity) (re_peers re) = None"
    using new by (simp add: index_of_None_iff)
  then have res: "re' = ?re\<lparr>re_peers := (re_peers ?re)[j := (re_peers ?re ! j)\<lparr>pt_identity := identity, pt_last_seen_tick := now\<rparr>]\<rparr>"
    using full by (simp add: re' j PeerTable_add_def Let_def)
  then show "re_host re' = re_host ?re" by simp
  have len: "length (re_peers re) = kMaxPeers" using full ok by (simp add: table_ok_def)
  then have ne: "re_peers re \<noteq> []" by auto
  show jl: "j < kMaxPeers" using oldest_slot_least(1) [OF ne] len by (simp add: j)
  then show "\<forall>e\<in>set (peer_entries re). snd (peer_entries re ! j) \<le> snd e"
    using oldest_slot_least(2) [OF ne] len by (simp add: j peer_entry_def)
  have "j < length (re_peers re)" "length (pt_links (re_peers re ! j)) = 2" using ok jl len by (simp_all add: table_ok_def)
  note same = teardown_links_clears(1) [OF this, of A rn] and links = teardown_links_clears(2) [OF this, of A rn]
  have peers: "re_peers re' = (re_peers ?re)[j := ?q]" using links by (cases "re_peers ?re ! j") (simp add: res)
  then show "pt_links (re_peers re' ! j) = [None, None]" using same_peers_length [OF same] len jl by simp
  show "peer_entries re' = (peer_entries re)[j := (identity, now)]"
    using same by (simp add: peers map_update same_peers_def peer_entry_def)
  have "\<forall>p\<in>set (re_peers ?re). rn_hash rn (pt_identity p) \<noteq> rn_hash rn (pt_identity ?q)"
    using new same_peers_nth(1) [OF same] same_peers_length [OF same] nth_mem by (fastforce simp: in_set_conv_nth)
  then show "table_ok rn (re_peers re')" using table_ok_insert(1) [OF table_ok_same [OF same ok]] by (simp add: peers)
qed

lemma add_table_ok: "table_ok rn (re_peers re) \<Longrightarrow> table_ok rn (re_peers (PeerTable_add A rn identity now re))"
  by (cases "peer_known rn identity re"; cases "length (re_peers re) < kMaxPeers")
    (rule add_known(1) add_room(1) add_full(1); (assumption | rule refl))+

section \<open>Polling\<close>

text \<open>One poll as the host sees it: its runtime moves by \<open>R\<close>, and the table stays well formed.\<close>

definition polls :: "allocator \<Rightarrow> (FleeceRuntime \<Rightarrow> FleeceRuntime \<Rightarrow> bool) \<Rightarrow> ('i, 'l) rns \<Rightarrow> ('i, 'l) Reticulum \<Rightarrow> ('i, 'l) Reticulum \<Rightarrow> bool" where
  "polls A R rn re re' \<longleftrightarrow> R (re_host re) (re_host re') \<and> wired A re' \<and> re_config re' = re_config re \<and>
     (table_ok rn (re_peers re) \<longrightarrow> table_ok rn (re_peers re'))"

context mesh_host
begin

lemma polls_trans: "polls A R rn re re' \<Longrightarrow> polls A R rn re' re'' \<Longrightarrow> polls A R rn re re''"
  unfolding polls_def using trans by metis

lemma delivers_polls: "delivers A R re re' \<Longrightarrow> polls A R rn re re'"
  using table_ok_same by (auto simp: polls_def delivers_def)

lemma add_polls:
  assumes "wired A re"
  shows "polls A R rn re (PeerTable_add A rn identity now re)"
proof -
  let ?re = "teardown_links A rn (oldest_slot (re_peers re)) re"
  have D: "delivers A R re ?re" "delivers A R re re" by (rule teardown_delivers [OF assms], rule delivers_refl [OF assms])
  have "\<exists>re0\<in>{re, ?re}. \<exists>ps. PeerTable_add A rn identity now re = re0\<lparr>re_peers := ps\<rparr>"
    by (auto simp: PeerTable_add_def Let_def split: option.split)
  then obtain re0 ps where re0: "PeerTable_add A rn identity now re = re0\<lparr>re_peers := ps\<rparr>" "delivers A R re re0" using D by blast
  then show ?thesis using add_table_ok [of rn re A identity now] by (auto simp: polls_def delivers_def wired_def)
qed

lemma event_polls: "wired A re \<Longrightarrow> polls A R rn re (on_mesh A rn re e)"
  by (cases e) (simp_all add: received_announce_def onControlPacketReceived_def add_polls packet_delivers control_delivers link_delivers delivers_polls)

lemma poll_polls:
  assumes "wired A re"
  shows "polls A R rn re (fleece_reticulum_poll A rn events done re)"
proof -
  have self: "polls A R rn re re" if "wired A re" for re using delivers_polls [OF delivers_refl [OF that]] .
  have loop: "polls A R rn re (foldl (on_mesh A rn) re events)"
    using assms
  proof (induction events arbitrary: re)
    case (Cons e events)
    have "wired A (on_mesh A rn re e)" using event_polls [OF Cons.prems] by (simp add: polls_def)
    then show ?case using polls_trans [OF event_polls [OF Cons.prems] Cons.IH] by simp
  qed (simp add: self)
  have "polls A R rn re (foldl (on_mesh A rn) re events\<lparr>re_poll_tick_count := n\<rparr>)"
    "polls A R rn re (foldl (on_mesh A rn) re events\<lparr>re_poll_tick_count := n, re_calls := c\<rparr>)" for n c
    using loop by (simp_all add: polls_def wired_def)
  then show ?thesis using self [OF assms] loop
    by (simp add: fleece_reticulum_poll_def Let_def announce_self_def log_call_def)
qed

end

text \<open>The runtime moves by what it receives.\<close>

definition host_steps :: "allocator \<Rightarrow> FleeceRuntime \<Rightarrow> FleeceRuntime \<Rightarrow> bool" where
  "host_steps A r r' \<longleftrightarrow> (\<exists>frames. r' = foldl (receive A) r frames)"

lemma host_steps_one: "host_steps A r (receive A r f)"
  unfolding host_steps_def by (intro exI [of _ "[f]"]) simp

interpretation mesh_steps: mesh_host A "host_steps A" for A
proof
  show "host_steps A r r" for r unfolding host_steps_def by (intro exI [of _ "[]"]) simp
  show "host_steps A r r' \<Longrightarrow> host_steps A r' r'' \<Longrightarrow> host_steps A r r''" for r r' r''
    unfolding host_steps_def by (metis foldl_append)
  show "host_steps A r (on_control_packet A data r)" for r data
    using host_steps_one [of A r "ControlFrame data"] by (simp add: on_control_packet_def)
  show "host_steps A r (r\<lparr>rt_state_manager := ir_manager (import_impl (\<lambda>_. A) (rt_state_manager r) data)\<rparr>)" for r data
    using host_steps_one [of A r "Imported data"] by (simp add: fleece_state_manager_import_from_def)
  show "host_steps A r (on_gap behind sender r)" for r behind sender
    using host_steps_one [of A r "Behind behind sender"] by (simp add: on_gap_def)
qed

text \<open>Nothing is sent and no other node's fields are touched out of order while the mesh is polled.\<close>

definition quiet_steps :: "FleeceRuntime \<Rightarrow> FleeceRuntime \<Rightarrow> bool" where
  "quiet_steps r r' \<longleftrightarrow> (rt_inv r \<longrightarrow> rt_inv r' \<and> rt_comms r' = rt_comms r \<and>
     rt_shared_gossip_watermark r' = rt_shared_gossip_watermark r \<and> safe_change (rt_state_manager r) (rt_state_manager r'))"

lemma quiet_steps_refl: "quiet_steps r r"
  by (simp add: quiet_steps_def safe_change_refl rt_inv_def)

lemma quiet_steps_trans: "quiet_steps r r' \<Longrightarrow> quiet_steps r' r'' \<Longrightarrow> quiet_steps r r''"
  unfolding quiet_steps_def using safe_change_trans by metis

lemma quiet_control: "quiet_steps r (on_control_packet A data r)"
proof (cases "rt_inv r")
  case True
  have "control_effect r r" using True only_targets_refl [of r] by (auto simp: control_effect_def)
  then have eff: "control_effect r (on_control_packet A data r)"
    using handle_fx_effect [OF True] by (simp add: on_control_packet_def fleece_runtime_on_control_frame_def)
  moreover have "safe_change (rt_state_manager r) (rt_state_manager r)" using True by (simp add: safe_change_refl rt_inv_def)
  ultimately show ?thesis using control_effect_simps [OF eff] by (simp add: quiet_steps_def control_effect_def)
qed (simp add: quiet_steps_def)

lemma quiet_gap: "quiet_steps r (on_gap behind sender r)"
proof (cases "rt_inv r")
  case True
  have "safe_change (rt_state_manager r) (rt_state_manager r)" using True by (simp add: safe_change_refl rt_inv_def)
  then show ?thesis
    using note_behind_effect [OF True, of behind sender] only_targets_simps [OF note_behind_effect(2) [OF True, of behind sender]]
    by (simp add: quiet_steps_def on_gap_def)
qed (simp add: quiet_steps_def)

lemma quiet_merge: "quiet_steps r (r\<lparr>rt_state_manager := ir_manager (import_impl As (rt_state_manager r) data)\<rparr>)"
  using import_rt_effect [of r As data] by (simp add: quiet_steps_def)

interpretation mesh_quiet: mesh_host A quiet_steps for A
proof (rule mesh_host.intro)
  show "quiet_steps r r" for r by (rule quiet_steps_refl)
  show "quiet_steps r r' \<Longrightarrow> quiet_steps r' r'' \<Longrightarrow> quiet_steps r r''" for r r' r'' by (rule quiet_steps_trans)
  show "quiet_steps r (on_control_packet A data r)" for r data by (rule quiet_control)
  show "quiet_steps r (r\<lparr>rt_state_manager := ir_manager (import_impl (\<lambda>_. A) (rt_state_manager r) data)\<rparr>)" for r data by (rule quiet_merge)
  show "quiet_steps r (on_gap behind sender r)" for r behind sender by (rule quiet_gap)
qed

text \<open>The radio is drained in one call: all packets that wait are handed over in order.\<close>

lemma drain_radio_all:
  assumes "\<forall>k<length packets. \<exists>d'. rcv ((d # ds) ! k) = (packets ! k, d') \<and> packets ! k \<noteq> [] \<and> d' = ds ! k"
    and "length ds = length packets" and "rcv (last (d # ds)) = ([], d')"
  shows "drain_radio rcv d = Some (packets, d')"
  using assms
proof (induction packets arbitrary: d ds)
  case (Cons p packets)
  obtain e es where ds: "ds = e # es" using Cons.prems(2) by (cases ds) simp_all
  have "rcv d = (p, e)" "p \<noteq> []" using Cons.prems(1) [rule_format, of 0] by (simp_all add: ds)
  moreover have "drain_radio rcv e = Some (packets, d')"
  proof (rule Cons.IH)
    show "\<forall>k<length packets. \<exists>d'. rcv ((e # es) ! k) = (packets ! k, d') \<and> packets ! k \<noteq> [] \<and> d' = es ! k"
      using Cons.prems(1) [rule_format, of "Suc k" for k] by (simp add: ds)
  qed (use Cons.prems(2,3) in \<open>simp_all add: ds\<close>)
  ultimately show ?case by (subst drain_radio.simps) simp
qed (subst drain_radio.simps, simp)

section \<open>Fan-out\<close>

text \<open>What one peer is sent, when nothing throws: a packet, a resource over a working link, or the opening of a link.\<close>

definition usable_link :: "('i, 'l) rns \<Rightarrow> aspect \<Rightarrow> ('i, 'l) PeerSlot \<Rightarrow> 'l option" where
  "usable_link rn asp p =
     (case pt_links p ! aspect_index asp of
        None \<Rightarrow> None
      | Some l \<Rightarrow> if rn_link_status rn l \<in> {LINK_CLOSED, LINK_STALE} then None else Some l)"

definition peer_throws :: "('i, 'l) rns \<Rightarrow> aspect \<Rightarrow> bytes \<Rightarrow> ('i, 'l) PeerSlot \<Rightarrow> bool" where
  "peer_throws rn asp data p =
     (case usable_link rn asp p of
        None \<Rightarrow> rn_link rn (pt_identity p) asp = None
      | Some l \<Rightarrow> rn_link_status rn l = LINK_ACTIVE \<and> \<not> rn_resource rn l data)"

definition resource_calls :: "('i, 'l) rns \<Rightarrow> aspect \<Rightarrow> bytes \<Rightarrow> ('i, 'l) PeerSlot \<Rightarrow> ('i, 'l) rns_call list" where
  "resource_calls rn asp data p =
     (case usable_link rn asp p of
        None \<Rightarrow> [OpenLink (pt_identity p) asp]
      | Some l \<Rightarrow> if rn_link_status rn l = LINK_ACTIVE then [StartResource l asp data] else [])"

abbreviation packet_calls :: "('i, 'l) rns \<Rightarrow> aspect \<Rightarrow> bytes \<Rightarrow> 'i list \<Rightarrow> ('i, 'l) rns_call list" where
  "packet_calls rn asp data ids \<equiv> map (\<lambda>d. SendPacket d asp data) (filter (\<lambda>d. rn_packet rn d asp data) ids)"

lemma packet_loop:
  "send_loop rn asp data False is re = (True, re\<lparr>
     re_calls := re_calls re @ packet_calls rn asp data (map (\<lambda>i. pt_identity (re_peers re ! i)) is),
     re_send_ok := re_send_ok re + of_nat (length (filter (\<lambda>i. rn_packet rn (pt_identity (re_peers re ! i)) asp data) is)),
     re_send_fail := re_send_fail re + of_nat (length (filter (\<lambda>i. \<not> rn_packet rn (pt_identity (re_peers re ! i)) asp data) is))\<rparr>)"
  by (induction "is" arbitrary: re) (simp_all add: send_packet_def log_call_def Let_def algebra_simps)

lemma resource_step:
  "sendViaResource rn i asp data re =
     (if peer_throws rn asp data (re_peers re ! i) then (False, re)
      else (True, re\<lparr>
        re_peers := (case usable_link rn asp (re_peers re ! i) of
            None \<Rightarrow> set_link i (aspect_index asp) (the (rn_link rn (pt_identity (re_peers re ! i)) asp)) (re_peers re)
          | Some _ \<Rightarrow> re_peers re),
        re_calls := re_calls re @ resource_calls rn asp data (re_peers re ! i),
        re_resource_started := re_resource_started re + of_bool (\<exists>l. usable_link rn asp (re_peers re ! i) = Some l \<and> rn_link_status rn l = LINK_ACTIVE),
        re_resource_link_pending := re_resource_link_pending re +
          of_bool (\<not> (\<exists>l. usable_link rn asp (re_peers re ! i) = Some l \<and> rn_link_status rn l = LINK_ACTIVE))\<rparr>))"
proof (cases "usable_link rn asp (re_peers re ! i)")
  case None
  then show ?thesis
    by (auto simp: sendViaResource_def peer_throws_def resource_calls_def usable_link_def link_for_def link_pending_def log_call_def Let_def
        split: option.splits if_splits)
next
  case (Some l)
  then have "pt_links (re_peers re ! i) ! aspect_index asp = Some l" "rn_link_status rn l \<notin> {LINK_CLOSED, LINK_STALE}"
    by (simp_all add: usable_link_def split: option.splits if_splits)
  then show ?thesis using Some
    by (cases "rn_link_status rn l")
      (simp_all add: sendViaResource_def peer_throws_def resource_calls_def link_for_def link_pending_def log_call_def Let_def)
qed

lemma set_link_other [simp]: "j \<noteq> i \<Longrightarrow> set_link i a l ps ! j = ps ! j"
  by (simp add: set_link_def put_link_def)

text \<open>The loop over the peers for a payload too long for a packet: it serves peers up to the first one that throws.\<close>

definition served_by :: "('i, 'l) rns \<Rightarrow> aspect \<Rightarrow> bytes \<Rightarrow> ('i, 'l) PeerSlot list \<Rightarrow> ('i, 'l) Reticulum \<Rightarrow> ('i, 'l) Reticulum \<Rightarrow> bool" where
  "served_by rn asp data ps re re' \<longleftrightarrow>
     re_calls re' = re_calls re @ concat (map (resource_calls rn asp data) ps) \<and>
     re_resource_started re' + re_resource_link_pending re' = re_resource_started re + re_resource_link_pending re + of_nat (length ps) \<and>
     same_peers (re_peers re) (re_peers re') \<and> re_host re' = re_host re \<and> re_send_ok re' = re_send_ok re \<and> re_send_fail re' = re_send_fail re"

lemma resource_loop:
  assumes "send_loop rn asp data True is re = (ok, re')" and "distinct is"
  shows "(ok \<longleftrightarrow> (\<forall>i\<in>set is. \<not> peer_throws rn asp data (re_peers re ! i))) \<and>
    served_by rn asp data (takeWhile (\<lambda>p. \<not> peer_throws rn asp data p) (map ((!) (re_peers re)) is)) re re'"
  using assms
proof (induction "is" arbitrary: re)
  case (Cons i "is")
  show ?case
  proof (cases "peer_throws rn asp data (re_peers re ! i)")
    case False
    define re1 where "re1 = snd (sendViaResource rn i asp data re)"
    have step: "sendViaResource rn i asp data re = (True, re1)" using False by (simp add: re1_def resource_step)
    have others: "re_peers re1 ! j = re_peers re ! j" if "j \<in> set is" for j
    proof -
      have "j \<noteq> i" using that Cons.prems(2) by auto
      then show ?thesis using False by (simp add: re1_def resource_step split: option.split)
    qed
    have first: "served_by rn asp data [re_peers re ! i] re re1"
      using False by (auto simp: re1_def resource_step served_by_def set_link_def split: option.split)
    have "(ok \<longleftrightarrow> (\<forall>j\<in>set is. \<not> peer_throws rn asp data (re_peers re1 ! j))) \<and>
        served_by rn asp data (takeWhile (\<lambda>p. \<not> peer_throws rn asp data p) (map ((!) (re_peers re1)) is)) re1 re'"
      using Cons.prems step by (intro Cons.IH) simp_all
    then show ?thesis
      using False first others same_peers_trans [of "re_peers re" "re_peers re1" "re_peers re'"]
      by (simp add: served_by_def cong: map_cong)
  qed (use Cons.prems in \<open>simp add: resource_step served_by_def\<close>)
qed (simp add: served_by_def)

section \<open>Sending changes the transport only\<close>

definition sends_only :: "('i, 'l) Reticulum \<Rightarrow> ('i, 'l) Reticulum \<Rightarrow> bool" where
  "sends_only re re' \<longleftrightarrow> same_peers (re_peers re) (re_peers re') \<and> re_host re' = re_host re \<and>
     re_control_callback re' = re_control_callback re \<and> re_gap_callback re' = re_gap_callback re"

lemma sends_only_refl [simp, intro]: "sends_only re re"
  by (simp add: sends_only_def)

lemma sends_only_trans: "sends_only re re' \<Longrightarrow> sends_only re' re'' \<Longrightarrow> sends_only re re''"
  using same_peers_trans by (auto simp: sends_only_def)

lemma send_loop_only: "sends_only re (snd (send_loop rn asp data oversized is re))"
proof (induction "is" arbitrary: re)
  case (Cons i "is")
  obtain ok re1 where via: "sendViaResource rn i asp data re = (ok, re1)" by fastforce
  have "sends_only re (snd (sendViaResource rn i asp data re))" "sends_only re (send_packet rn asp data i re)"
    by (simp_all add: resource_step sends_only_def set_link_def send_packet_def log_call_def Let_def split: option.split)
  then have "sends_only re re1" "sends_only re (send_packet rn asp data i re)" by (simp_all add: via)
  then show ?case
    using sends_only_trans [OF \<open>sends_only re re1\<close> Cons.IH] sends_only_trans [OF \<open>sends_only re (send_packet rn asp data i re)\<close> Cons.IH]
    by (cases oversized) (simp_all add: via split: bool.split)
qed simp

lemma send_all_only: "sends_only re (snd (sendToAllPeers rn asp data re))"
proof -
  have "sends_only re (re\<lparr>re_send_attempts := re_send_attempts re + 1\<rparr>)" "sends_only re (re\<lparr>re_send_fail := re_send_fail re + 1\<rparr>)"
    by (simp_all add: sends_only_def)
  then show ?thesis by (auto simp: sendToAllPeers_def Let_def intro: sends_only_trans [OF _ send_loop_only])
qed

lemma router_sends_only: "sends_only re (comms_send_router rn dest data re)"
proof -
  have all: "sends_only re1 (fleece_reticulum_send rn data re1)" for re1
    by (simp add: fleece_reticulum_send_def send_all_only)
  have node: "sends_only re (snd (fleece_reticulum_send_to_node rn v data re))" for v
    by (simp add: fleece_reticulum_send_to_node_def Let_def log_call_def sends_only_def split: option.split)
  have "sends_only re (case fleece_reticulum_send_to_node rn v data re of (True, re) \<Rightarrow> re | (False, re) \<Rightarrow> fleece_reticulum_send rn data re)" for v
  proof -
    obtain ok re1 where v: "fleece_reticulum_send_to_node rn v data re = (ok, re1)" by fastforce
    then have "sends_only re re1" using node [of v] by simp
    then show ?thesis using sends_only_trans [OF _ all] by (simp add: v split: bool.split)
  qed
  then show ?thesis using all by (simp add: comms_send_router_def Let_def)
qed

end
