(* ===== verification/Mesh_Node.thy ===== *)
theory Mesh_Node
  imports Transport Node
begin

text \<open>
  A whole node on the mesh, wired as in \<open>benchmarks/bench_mesh.c\<close>: the runtime's communication module polls the
  Reticulum transport and hands it what the runtime sends.
\<close>

text \<open>The input phase of a tick: the liveness clock, the poll of the mesh, the host's hook.\<close>

definition mesh_input ::
    "allocator \<Rightarrow> ('i, 'l) rns \<Rightarrow> ('i, 'l) mesh_event list \<Rightarrow> bool \<Rightarrow> (FleeceRuntime \<Rightarrow> FleeceRuntime) \<Rightarrow> FleeceRuntime \<Rightarrow>
     ('i, 'l) Reticulum \<Rightarrow> ('i, 'l) Reticulum" where
  "mesh_input A rn events done tick_cb r re =
     (let r = r\<lparr>rt_state_manager := fleece_state_manager_tick (rt_state_manager r)\<rparr>;
          re = fleece_comms_process_input (fleece_reticulum_poll A rn events done) (rt_comms r) (re\<lparr>re_host := r\<rparr>)
      in if rt_tick_cb (re_host re) then re\<lparr>re_host := tick_cb (re_host re)\<rparr> else re)"

text \<open>
  What the runtime has sent, in order.  The send callback runs at each send; it changes the transport only, so running it
  after the tick gives the same result.
\<close>

definition route_sends :: "('i, 'l) rns \<Rightarrow> message list \<Rightarrow> ('i, 'l) Reticulum \<Rightarrow> ('i, 'l) Reticulum" where
  "route_sends rn msgs re = foldl (\<lambda>re (dest, data, _). comms_send_router rn dest data re) re msgs"

definition new_sends :: "FleeceRuntime \<Rightarrow> FleeceRuntime \<Rightarrow> message list" where
  "new_sends r r' = drop (length (cm_sends (rt_comms r))) (cm_sends (rt_comms r'))"

definition mesh_tick ::
    "runtime_statics \<Rightarrow> allocator \<Rightarrow> ('i, 'l) rns \<Rightarrow> ('v, 'g, 'f, 'u) script_host \<Rightarrow> ('g \<Rightarrow> ('v, 'f, 'u) goap_engine) \<Rightarrow> FleeceGoap \<Rightarrow>
     ('i, 'l) mesh_event list \<Rightarrow> bool \<Rightarrow> (FleeceRuntime \<Rightarrow> FleeceRuntime) \<Rightarrow> ('i, 'l) Reticulum \<Rightarrow> ('v, 'g, 'f, 'u) FleeceNode \<Rightarrow>
     (('i, 'l) Reticulum \<times> ('v, 'g, 'f, 'u) FleeceNode) option" where
  "mesh_tick st A rn sh en goap events done tick_cb re nd =
     (let re = mesh_input A rn events done tick_cb (nd_runtime nd) re in
      map_option (\<lambda>nd'. (route_sends rn (new_sends (nd_runtime nd) (nd_runtime nd')) (re\<lparr>re_host := nd_runtime nd'\<rparr>), nd'))
        (node_work st A sh en goap (nd\<lparr>nd_runtime := re_host re\<rparr>)))"

end
