(* ===== verification/Transport_Claims.thy ===== *)
theory Transport_Claims
  imports Transport_Proofs Mesh_Node
begin

text \<open>Properties of the mesh transport and of a whole node on the mesh.\<close>

section \<open>Peers\<close>

text \<open>
  C16. The table of peers.  An announcement keeps the table well formed: at most eight peers, no two of the same
  identity, two places for links each.  A known peer gets the current tick and nothing else changes; an unknown one is appended
  while there is room; in a full table it takes the place of one that has not been heard of for longest, without
  inheriting its links.
\<close>

theorem peer_table_spec:
  assumes ok: "table_ok rn (re_peers re)" and re': "re' = received_announce A rn identity re"
  shows "table_ok rn (re_peers re') \<and>
    (if peer_known rn identity re
     then peer_entries re' = map (\<lambda>(d, t). (d, if rn_hash rn d = rn_hash rn identity then re_poll_tick_count re else t)) (peer_entries re)
     else if length (re_peers re) < kMaxPeers then peer_entries re' = peer_entries re @ [(identity, re_poll_tick_count re)]
     else \<exists>j<kMaxPeers. (\<forall>e\<in>set (peer_entries re). snd (peer_entries re ! j) \<le> snd e) \<and>
       peer_entries re' = (peer_entries re)[j := (identity, re_poll_tick_count re)] \<and> pt_links (re_peers re' ! j) = [None, None])"
proof (cases "peer_known rn identity re")
  case True
  then show ?thesis using add_known [OF ok True re' [unfolded received_announce_def]] by simp
next
  case new: False
  show ?thesis
  proof (cases "length (re_peers re) < kMaxPeers")
    case True
    then show ?thesis using new add_room [OF ok new True re' [unfolded received_announce_def]] by simp
  next
    case False
    note F = add_full [OF ok new False re' [unfolded received_announce_def] refl]
    then have "\<exists>j<kMaxPeers. (\<forall>e\<in>set (peer_entries re). snd (peer_entries re ! j) \<le> snd e) \<and>
       peer_entries re' = (peer_entries re)[j := (identity, re_poll_tick_count re)] \<and> pt_links (re_peers re' ! j) = [None, None]" by blast
    then show ?thesis using new False F(1) by simp
  qed
qed

section \<open>Sending\<close>

text \<open>
  C17. Fan-out.  With memory in the pool, a payload that fits a packet is handed to the library once for every known peer, in
  the order of the table; a peer whose send throws is counted as a failure and does not keep the others from being
  served.  A longer payload goes over links: each peer with an active link gets the resource, one without a usable link gets
  a new link, one with a link being set up gets nothing this time, and each of them is counted.  Here the first peer
  whose call throws ends the loop, and the peers after it get nothing.
\<close>

theorem fan_out_spec:
  assumes pool: "\<not> pool_low rn" and send: "sendToAllPeers rn asp data re = (ok, re')"
    and fits: "fits \<longleftrightarrow> of_nat (length data) \<le> single_packet_payload_ceiling rn (re_config re)"
    and served: "served = takeWhile (\<lambda>p. \<not> peer_throws rn asp data p) (re_peers re)"
  shows "if fits
    then ok \<and> re_calls re' = re_calls re @ packet_calls rn asp data (map pt_identity (re_peers re)) \<and>
      re_send_ok re' = re_send_ok re + of_nat (length (filter (\<lambda>p. rn_packet rn (pt_identity p) asp data) (re_peers re))) \<and>
      re_send_fail re' = re_send_fail re + of_nat (length (filter (\<lambda>p. \<not> rn_packet rn (pt_identity p) asp data) (re_peers re)))
    else (ok \<longleftrightarrow> served = re_peers re) \<and> re_calls re' = re_calls re @ concat (map (resource_calls rn asp data) served) \<and>
      re_resource_started re' + re_resource_link_pending re' = re_resource_started re + re_resource_link_pending re + of_nat (length served)"
proof -
  let ?re = "re\<lparr>re_send_attempts := re_send_attempts re + 1\<rparr>" and ?is = "[0..<length (re_peers re)]"
  have loop: "send_loop rn asp data (\<not> fits) ?is ?re = (ok, re')"
    using pool send fits by (simp add: sendToAllPeers_def Let_def not_le)
  have all: "map ((!) (re_peers re)) ?is = re_peers re" by (rule map_nth)
  have count: "length (filter (\<lambda>i. P (re_peers re ! i)) ?is) = length (filter P (re_peers re))" for P
    using arg_cong [where f = "\<lambda>ps. length (filter P ps)", OF all] by (simp add: filter_map comp_def)
  have ids: "map (\<lambda>i. pt_identity (re_peers re ! i)) ?is = map pt_identity (re_peers re)"
    using arg_cong [where f = "map pt_identity", OF all] by (simp add: comp_def)
  show ?thesis
  proof (cases fits)
    case True
    then have "send_loop rn asp data False ?is ?re = (ok, re')" using loop by simp
    from this [symmetric] show ?thesis
      using True unfolding packet_loop by (simp add: ids count [of "\<lambda>p. rn_packet rn (pt_identity p) asp data"] count [of "\<lambda>p. \<not> rn_packet rn (pt_identity p) asp data"])
  next
    case False
    then have long: "send_loop rn asp data True ?is ?re = (ok, re')" using loop by simp
    have "served = re_peers re \<longleftrightarrow> (\<forall>i\<in>set ?is. \<not> peer_throws rn asp data (re_peers re ! i))"
      unfolding served takeWhile_eq_all_conv by (metis atLeastLessThan_iff in_set_conv_nth le0 nth_mem set_upt)
    then show ?thesis using False resource_loop [OF long] by (simp add: served_by_def all served [symmetric])
  qed
qed

lemma unat_div_mult: "unat (x div b * b) = unat x div unat b * unat (b :: u64)"
proof -
  have "unat x < 2 ^ LENGTH(64)" using unsigned_less [of x, where 'a = nat] by simp
  then have "unat x div unat b * unat b < 2 ^ LENGTH(64)" by (rule le_less_trans [OF div_times_less_eq_dividend])
  then show ?thesis using unat_mult_lem [THEN iffD1, of "x div b" b] by (simp add: unat_div)
qed

text \<open>
  C19. The size limit of a packet.  With an MTU that leaves room for at least one cipher block after header and cryptographic
  overhead, the limit is positive and a payload within it fits the MTU with that overhead; with no room at all it is
  zero.  In between, where the room is smaller than a block, the subtraction wraps around: the limit is the largest 64-bit number, and
  every payload is sent as a packet however long it is.
\<close>

theorem ceiling_spec:
  assumes small: "unat (rn_HEADER_MAXSIZE rn) + unat (rn_IFAC_MIN_SIZE rn) + unat (rn_FERNET_OVERHEAD rn) + unat (rn_KEYSIZE rn) < 2 ^ 32"
    and block: "0 < rn_AES128_BLOCKSIZE rn" and mtu: "0 < rc_radio_mtu cfg"
    and overhead: "overhead = unat (rn_HEADER_MAXSIZE rn) + unat (rn_IFAC_MIN_SIZE rn) + unat (rn_FERNET_OVERHEAD rn) + unat (rn_KEYSIZE rn) div 16"
    and room: "room = unat (rc_radio_mtu cfg) - overhead" and c: "ceiling = single_packet_payload_ceiling rn cfg"
  shows "if room = 0 then ceiling = 0
    else if room < unat (rn_AES128_BLOCKSIZE rn) then ceiling = UINT64_MAX
    else unat ceiling + 1 + overhead \<le> unat (rc_radio_mtu cfg) \<and>
      unat (rc_radio_mtu cfg) < unat ceiling + 1 + overhead + unat (rn_AES128_BLOCKSIZE rn)"
proof -
  let ?H = "rn_HEADER_MAXSIZE rn + rn_IFAC_MIN_SIZE rn" and ?C = "rn_FERNET_OVERHEAD rn + rn_KEYSIZE rn div 16"
  let ?m = "ucast (rc_radio_mtu cfg) :: u64" and ?b = "rn_AES128_BLOCKSIZE rn"
  have m: "unat ?m = unat (rc_radio_mtu cfg)" by simp
  have H: "unat ?H = unat (rn_HEADER_MAXSIZE rn) + unat (rn_IFAC_MIN_SIZE rn)" using small by (intro unat_add_lem [THEN iffD1]) simp
  have C: "unat ?C = unat (rn_FERNET_OVERHEAD rn) + unat (rn_KEYSIZE rn) div 16"
    using small unat_div [of "rn_KEYSIZE rn" 16] by (subst unat_add_lem [THEN iffD1]) simp_all
  have HC: "unat (?H + ?C) = overhead" using small H C by (subst unat_add_lem [THEN iffD1]) (simp_all add: overhead)
  have none: "?m \<le> ?H + ?C \<longleftrightarrow> room = 0" using HC m by (simp add: word_le_nat_alt room)
  define x where "x = ?m - ?H - ?C"
  have ceil: "ceiling = (if room = 0 then 0 else x div ?b * ?b - 1)"
    using mtu none by (simp add: c single_packet_payload_ceiling_def Let_def x_def)
  have x: "unat x = room" if "room \<noteq> 0"
  proof -
    have "x = ?m - (?H + ?C)" by (simp add: x_def)
    then show ?thesis using that none m HC by (simp add: unat_sub room)
  qed
  have B: "0 < unat ?b" using block by (simp add: word_less_nat_alt)
  have prod: "unat (x div ?b * ?b) = room div unat ?b * unat ?b" if "room \<noteq> 0" using x [OF that] by (simp add: unat_div_mult)
  show ?thesis
  proof (cases "room = 0 \<or> room < unat ?b")
    case True
    then have "x div ?b = 0" if "room \<noteq> 0" using that x unat_div [of x ?b] by (simp add: word_unat_eq_iff)
    then show ?thesis using True ceil by auto
  next
    case False
    then have "0 < room div unat ?b * unat ?b" using B by (simp add: div_greater_zero_iff)
    then have "unat ceiling + 1 = room div unat ?b * unat ?b" using False ceil prod by (simp add: unat_minus_one word_neq_0_conv word_less_nat_alt)
    moreover have "room div unat ?b * unat ?b \<le> room" "room < room div unat ?b * unat ?b + unat ?b"
      using B div_mult_mod_eq [of room "unat ?b"] mod_less_divisor [OF B, of room] by linarith+
    moreover have "unat (rc_radio_mtu cfg) = room + overhead" using False room by linarith
    ultimately have "unat ceiling + 1 + overhead \<le> unat (rc_radio_mtu cfg)"
      "unat (rc_radio_mtu cfg) < unat ceiling + 1 + overhead + unat ?b" by linarith+
    then show ?thesis using False by simp
  qed
qed

lemma find_index_of: "find P xs = map_option ((!) xs) (index_of P xs)"
  by (induction xs) (simp_all add: option.map_comp comp_def)

text \<open>
  C18. Unicast.  A message for \<open>node:...\<close>, as the runtime addresses its repair frames, is handed to the library exactly once, for
  the first peer in the table whose identity hash begins with that node id; if there is none, or its send throws,
  the message is fanned out instead.  The printed id is read back exactly, also through the runtime's buffer for destinations.
\<close>

theorem unicast_reaches_sender:
  assumes dest: "unicast_dest_for origin = Some d" and dest': "dest = snprintf_s DEST_MAX d"
    and peer: "peer = find (\<lambda>p. length (rn_hash rn (pt_identity p)) \<ge> 8 \<and> hash_node_id (rn_hash rn (pt_identity p)) = origin) (re_peers re)"
  shows "comms_send_router rn dest data re =
    (case peer of
       Some p \<Rightarrow> if rn_packet rn (pt_identity p) FleeceAspect data
                 then re\<lparr>re_calls := re_calls re @ [SendPacket (pt_identity p) FleeceAspect data], re_send_ok := re_send_ok re + 1\<rparr>
                 else fleece_reticulum_send rn data re
     | None \<Rightarrow> fleece_reticulum_send rn data re)"
proof -
  let ?P = "\<lambda>p. length (rn_hash rn (pt_identity p)) \<ge> 8 \<and> hash_node_id (rn_hash rn (pt_identity p)) = origin"
  have "dest = lit ''node:'' @ hex16 origin"
    using dest by (auto simp: dest' unicast_dest_for_def node_dest_def snprintf_s_def lit_def split: if_splits)
  then have router: "comms_send_router rn dest data re =
      (case fleece_reticulum_send_to_node rn origin data re of (True, re) \<Rightarrow> re | (False, re) \<Rightarrow> fleece_reticulum_send rn data re)"
    by (simp add: comms_send_router_def lit_def strtoull_hex16)
  show ?thesis
    unfolding router fleece_reticulum_send_to_node_def peer find_index_of
    by (cases "index_of ?P (re_peers re)") (simp_all add: Let_def log_call_def)
qed

section \<open>Receiving\<close>

text \<open>
  C15. The mesh path and the communication module's path agree.  On a transport wired to a runtime, a frame arriving as a packet, or as
  a completed resource of another node, does to the runtime exactly what the runtime's own receive callback does for a frame
  from the source \<open>mesh\<close>, unless it is a gossip frame whose import fails.
\<close>

theorem mesh_path_equivalent:
  assumes wire: "re_control_callback re = Some (on_control_packet A)" "re_gap_callback re = Some on_gap" "re_state_manager re"
    and data: "data \<noteq> []"
    and import: "is_fx_control_frame data \<or> ir_rc (fleece_state_manager_import_from (\<lambda>_. A) (rt_state_manager (re_host re)) data) = 0"
    and res: "rs_complete res" "\<not> rs_initiator res" "rs_payload res = data"
  shows "re_host (onPacketReceived A data re) = runtime_gossip_receive A (\<lambda>_. A) (re_host re) (lit ''mesh'') (Some data) \<and>
    re_host (onFleeceResourceConcluded A res re) = runtime_gossip_receive A (\<lambda>_. A) (re_host re) (lit ''mesh'') (Some data)"
proof -
  have recv: "runtime_gossip_receive A (\<lambda>_. A) r (lit ''mesh'') (Some data) =
      (if is_fx_control_frame data then on_control_packet A data r else import_and_track (\<lambda>_. A) r data)" for r
    using data by (simp add: runtime_gossip_receive_def is_fx_control_frame_def on_control_packet_def fleece_runtime_on_control_frame_def)
  have gossip: "re_host (import_gossip_frame A data re) = import_and_track (\<lambda>_. A) (re_host re) data"
    if "re_gap_callback re = Some on_gap" "re_state_manager re"
      "ir_rc (fleece_state_manager_import_from (\<lambda>_. A) (rt_state_manager (re_host re)) data) = 0" for re :: "('i, 'l) Reticulum"
    using that by (simp add: import_gossip_frame_def import_and_track_def on_gap_def fleece_runtime_note_behind_from_def Let_def)
  show ?thesis
    using wire import res gossip [of re] gossip [of "re\<lparr>re_resource_complete := re_resource_complete re + 1\<rparr>"]
    by (auto simp: recv onPacketReceived_def onFleeceResourceConcluded_def call_control_def Let_def)
qed

section \<open>Identity\<close>

text \<open>
  C20. The address survives a reboot.  If the identity was generated and saved, then a later boot whose storage gives the
  saved key back, whatever the random number generator does in it, comes up with the same node id, generates nothing and saves nothing; initialising
  again changes nothing.  The node id is read from the first eight bytes of the identity's hash.  That loading a private key gives an
  identity with the same hash is what the library promises.
\<close>

theorem identity_survives_reboot:
  assumes first: "fleece_reticulum_identity_init rn re = (True, re1)" "\<not> re_identity_ready re" "rc_identity_load (re_config re) = Some None"
    and saved: "re_saved_keys re1 \<noteq> re_saved_keys re"
    and library: "\<forall>d. \<exists>d'. rn_load_key rn (rn_private_key rn d) = Some d' \<and> rn_hash rn d' = rn_hash rn d"
    and boot: "re_configured re2" "\<not> re_identity_ready re2" "rc_identity_load (re_config re2) = Some (Some (last (re_saved_keys re1)))"
  shows "\<exists>d re3. re_identity re1 = Some d \<and> fleece_reticulum_node_id re1 = hash_node_id (rn_hash rn d) \<and>
    fleece_reticulum_identity_init (rn\<lparr>rn_generate := generate\<rparr>) re2 = (True, re3) \<and>
    fleece_reticulum_node_id re3 = fleece_reticulum_node_id re1 \<and> re_saved_keys re3 = re_saved_keys re2 \<and>
    fleece_reticulum_identity_init rn re1 = (True, re1)"
proof -
  obtain d where d: "re_identity re1 = Some d" "re_node_id re1 = hash_node_id (rn_hash rn d)" "length (rn_hash rn d) \<ge> 8" "re_identity_ready re1"
    "re_saved_keys re1 = re_saved_keys re @ [rn_private_key rn d]"
    using first saved
    by (auto simp: fleece_reticulum_identity_init_def adopt_identity_def Let_def split: option.splits if_splits)
  obtain d' where "rn_load_key rn (rn_private_key rn d) = Some d'" "rn_hash rn d' = rn_hash rn d" using library by blast
  then show ?thesis
    using d boot by (intro exI [of _ d]) (simp add: fleece_reticulum_identity_init_def adopt_identity_def fleece_reticulum_node_id_def)
qed

section \<open>A node on the mesh\<close>

definition demo_rns :: "(bytes, nat) rns" where
  "demo_rns = \<lparr>rn_hash = \<lambda>d. d, rn_link_hash = \<lambda>l. [of_nat l], rn_link_status = \<lambda>_. LINK_ACTIVE, rn_teardown = \<lambda>l. [LinkClosed l],
     rn_copy = \<lambda>_. True, rn_packet = \<lambda>d _ _. d \<noteq> [], rn_link = \<lambda>_ _. Some 0, rn_resource = \<lambda>_ _. True, rn_announce = \<lambda>_. True,
     rn_step = \<lambda>_. True, rn_generate = \<lambda>_. Some (replicate 64 7), rn_load_key = Some, rn_private_key = \<lambda>d. d,
     rn_pool_free = 100, rn_pool_size = 100, rn_MTU = 500, rn_HEADER_MAXSIZE = 35, rn_IFAC_MIN_SIZE = 1, rn_FERNET_OVERHEAD = 48,
     rn_KEYSIZE = 512, rn_AES128_BLOCKSIZE = 16\<rparr>"

definition demo_config :: FleeceReticulumConfig where
  "demo_config = \<lparr>rc_radio_send = True, rc_radio_receive = True, rc_radio_mtu = 460, rc_radio_bitrate = 0, rc_app_name = None,
     rc_identity_load = Some None, rc_identity_save = Some (\<lambda>_. 0), rc_device_id = None, rc_entropy = None\<rparr>"

definition demo_mesh :: "FleeceRuntime \<Rightarrow> (bytes, nat) Reticulum" where
  "demo_mesh r = \<lparr>re_config = demo_config, re_configured = True,
     re_peers = [\<lparr>pt_identity = [2, 0, 0, 0, 0, 0, 0, 0], pt_last_seen_tick = 0, pt_links = [None, None]\<rparr>],
     re_radio = \<lparr>hr_IN = False, hr_OUT = False, hr_HW_MTU = 500, hr_bitrate = 0, hr_online = False\<rparr>, re_reticulum = True,
     re_destination = True, re_control_destination = True, re_state_manager = True,
     re_control_callback = Some (on_control_packet yes), re_gap_callback = Some on_gap, re_poll_tick_count = 0, re_packets_received = 0,
     re_import_failures = 0, re_send_attempts = 0, re_send_ok = 0, re_send_fail = 0, re_resource_started = 0, re_resource_link_pending = 0,
     re_resource_complete = 0, re_resource_failed = 0, re_identity_ready = False, re_node_id = 0, re_identity = None,
     re_saved_keys = [], re_calls = [], re_host = r\<rparr>"

definition demo_armed :: FleeceRuntime where
  "demo_armed = fleece_runtime_note_behind_from demo_runtime True 2"

abbreviation armed_targets :: "FleeceRuntime \<Rightarrow> (u64 \<times> bool) list" where
  "armed_targets r \<equiv> map (\<lambda>t. (rs_node_id t, rs_need_shared t)) (filter rs_exists (rt_resync_targets r))"

definition demo_torn :: bytes where
  "demo_torn = butlast (fst (the (fleece_state_manager_export_shared yes demo_b)))"

lemma resync_target_found:
  assumes "rt_inv r" and "i < FLEECE_MAX_RESYNC_TARGETS" and "rs_exists (rt_resync_targets r ! i)"
  shows "resync_target_for_id r (rs_node_id (rt_resync_targets r ! i)) = (Some i, r)"
proof -
  let ?ts = "rt_resync_targets r"
  have "index_of (\<lambda>t. rs_exists t \<and> rs_node_id t = rs_node_id (?ts ! i) \<and> rs_source t = target_source (rs_node_id (?ts ! i))) ?ts = Some i"
    using assms by (intro index_of_unique) (auto simp: rt_inv_def targets_inv_def)
  then show ?thesis by (simp add: resync_target_for_id_def Let_def)
qed

lemma rejected_behind: "ir_rc (import_impl As m buf) \<noteq> 0 \<Longrightarrow> ir_behind_shared (import_impl As m buf) = None"
  by (auto simp: import_impl_def Let_def split: prod.splits option.splits bool.splits)

text \<open>
  C40. A rejected frame cancels a repair.  Let a node have a repair from node \<open>p\<close> pending for which no index is awaited yet, and let a gossip frame
  arrive over the mesh that the import rejects after it has read \<open>p\<close> as its sender, as it does when the last byte is missing.  The
  transport reports the frame all the same, as one that shows no difference, and the runtime takes back
  its request for repair; nothing else in the table of targets changes but the tick at which \<open>p\<close> was heard.  The runtime's own receive callback
  leaves the table as it is.
\<close>

theorem rejected_frame_cancels_repair:
  assumes wire: "re_gap_callback re = Some on_gap" "re_state_manager re" and inv: "rt_inv (re_host re)"
    and data: "data \<noteq> []" "\<not> is_fx_control_frame data"
    and import: "ir_rc (fleece_state_manager_import_from (\<lambda>_. A) (rt_state_manager (re_host re)) data) \<noteq> 0"
      "ir_sender (fleece_state_manager_import_from (\<lambda>_. A) (rt_state_manager (re_host re)) data) = Some p"
    and ts: "ts = rt_resync_targets (re_host re)" "i < length ts" "rs_exists (ts ! i)" "rs_node_id (ts ! i) = p"
    and pending: "rs_need_shared (ts ! i)" "\<not> rs_awaiting_index (ts ! i)"
  shows "rt_resync_targets (re_host (onPacketReceived A data re)) =
      ts[i := (ts ! i)\<lparr>rs_last_heard_tick := now_tick (re_host re), rs_need_shared := False\<rparr>] \<and>
    rt_resync_targets (runtime_gossip_receive A (\<lambda>_. A) (re_host re) source (Some data)) = ts"
proof -
  define ir where "ir = fleece_state_manager_import_from (\<lambda>_. A) (rt_state_manager (re_host re)) data"
  have ir: "ir_rc ir \<noteq> 0" "ir_sender ir = Some p" using import by (simp_all add: ir_def)
  then have behind: "ir_behind_shared ir = None" using rejected_behind by (simp add: ir_def fleece_state_manager_import_from_def)
  let ?r = "(re_host re)\<lparr>rt_state_manager := ir_manager ir\<rparr>"
  have "sm_inv (ir_manager ir)"
    using import_safe [of "rt_state_manager (re_host re)" "\<lambda>_. A" data] inv
    by (simp add: ir_def fleece_state_manager_import_from_def rt_inv_def safe_change_def)
  then have "rt_inv ?r" using inv by (simp add: rt_inv_def)
  from resync_target_found [OF this, of i] have found: "resync_target_for_id ?r p = (Some i, ?r)"
    using ts inv by (simp add: rt_inv_def targets_inv_def)
  have "re_host (onPacketReceived A data re) = fleece_runtime_note_behind_from ?r False p"
    using wire data(2) ir behind by (simp add: onPacketReceived_def import_gossip_frame_def on_gap_def ir_def [symmetric] Let_def)
  also have "\<dots> = update_target i (note_report (now_tick ?r) False) ?r" by (simp add: fleece_runtime_note_behind_from_def found)
  finally have "rt_resync_targets (re_host (onPacketReceived A data re)) =
      ts[i := (ts ! i)\<lparr>rs_last_heard_tick := now_tick (re_host re), rs_need_shared := False\<rparr>]"
    using ts pending by (simp add: update_target_def note_report_def now_tick_def Let_def)
  moreover have "runtime_gossip_receive A (\<lambda>_. A) (re_host re) source (Some data) = ?r"
    using data ir by (auto simp: runtime_gossip_receive_def is_fx_control_frame_def import_and_track_def ir_def [symmetric] Let_def)
  ultimately show ?thesis using ts by simp
qed

lemma route_sends_only: "sends_only re (route_sends rn msgs re)"
proof (induction msgs arbitrary: re)
  case (Cons m msgs)
  obtain dest data sz where "m = (dest, data, sz)" by (metis prod_cases3)
  then show ?case using sends_only_trans [OF router_sends_only [of re rn dest data] Cons.IH] by (simp add: route_sends_def)
qed (simp add: route_sends_def)

lemma mesh_input_frames:
  assumes "wired A re"
  shows "\<exists>frames. re_host (mesh_input A rn events done tick_cb r re) = node_input A frames tick_cb r"
    and "wired A (mesh_input A rn events done tick_cb r re)"
    and "table_ok rn (re_peers re) \<Longrightarrow> table_ok rn (re_peers (mesh_input A rn events done tick_cb r re))"
proof -
  define r0 where "r0 = r\<lparr>rt_state_manager := fleece_state_manager_tick (rt_state_manager r)\<rparr>"
  define re1 where "re1 = fleece_comms_process_input (fleece_reticulum_poll A rn events done) (rt_comms r0) (re\<lparr>re_host := r0\<rparr>)"
  have w: "wired A (re\<lparr>re_host := r0\<rparr>)" using assms by (simp add: wired_def)
  have "polls A (host_steps A) rn (re\<lparr>re_host := r0\<rparr>) (fleece_reticulum_poll A rn events done (re\<lparr>re_host := r0\<rparr>))"
    by (rule mesh_steps.poll_polls [OF w])
  moreover have "host_steps A r0 r0" by (rule mesh_steps.refl)
  ultimately have re1: "wired A re1" "table_ok rn (re_peers re) \<longrightarrow> table_ok rn (re_peers re1)"
    "\<exists>frames. re_host re1 = fleece_comms_process_input (\<lambda>r. foldl (receive A) r frames) (rt_comms r0) r0"
    using w by (auto simp: re1_def fleece_comms_process_input_def polls_def host_steps_def)
  have mesh: "mesh_input A rn events done tick_cb r re = (if rt_tick_cb (re_host re1) then re1\<lparr>re_host := tick_cb (re_host re1)\<rparr> else re1)"
    by (simp add: mesh_input_def re1_def r0_def Let_def)
  show "\<exists>frames. re_host (mesh_input A rn events done tick_cb r re) = node_input A frames tick_cb r"
    using re1(3) by (auto simp: mesh node_input_def r0_def Let_def)
  show "wired A (mesh_input A rn events done tick_cb r re)"
    "table_ok rn (re_peers re) \<Longrightarrow> table_ok rn (re_peers (mesh_input A rn events done tick_cb r re))"
    using re1(1,2) by (simp_all add: mesh wired_def)
qed

text \<open>
  C14. A node on the mesh keeps going.  Let a node be in a state it can reach, connected to the transport.  Whatever the mesh
  delivers in a poll, announcements, packets and resources of any content, closing links, and whatever the library does with the
  sends, by throwing or not, the tick returns, and it is the tick of the node with some list of frames: the poll and the host's hook do to the runtime what these frames
  and the hook do.  So the node is again in a state it can
  reach and its invariants hold, and the transport is connected as before, with its table of peers well formed.  After the poll and the hook, none
  of the fields of other nodes changes.  Assumed are memory, room on the clock, tables of the brain that have not grown, a hook that keeps the runtime's
  invariant, and bounds on the native calls and on the fields of a script's run.
\<close>

theorem mesh_node_never_stuck:
  assumes reach: "node_reachable sh en tick_cb M (6 + 2 * N + 4 * K) nd" and sh: "script_bounded M sh"
    and en: "\<forall>x. engine_bounded N K (en x)" and cb: "\<forall>r. rt_inv r \<longrightarrow> rt_inv (tick_cb r)" and A: "\<forall>k. A k"
    and fit: "\<forall>b. nd_brain nd = Some b \<longrightarrow> tables_fit goap b" and wire: "wired A re" and table: "table_ok rn (re_peers re)"
    and r: "r = re_host (mesh_input A rn events done tick_cb (nd_runtime nd) re)"
    and room: "clock_left (M + (6 + 2 * N + 4 * K)) (rt_state_manager r)"
  shows "\<exists>re' nd'. mesh_tick st A rn sh en goap events done tick_cb re nd = Some (re', nd') \<and>
    (\<exists>frames. r = node_input A frames tick_cb (nd_runtime nd) \<and> node_tick st A sh en goap frames tick_cb nd = Some nd') \<and>
    node_reachable sh en tick_cb M (6 + 2 * N + 4 * K) nd' \<and> rt_inv (nd_runtime nd') \<and>
    (\<forall>ow k. ow \<noteq> FLEECE_SHARED_OWNER_ID \<and> ow \<noteq> sm_node_id (rt_state_manager r) \<longrightarrow>
       view (nd_store nd') (ow, k) = view (rt_state_manager r) (ow, k)) \<and>
    re_host re' = nd_runtime nd' \<and> wired A re' \<and> table_ok rn (re_peers re')"
proof -
  let ?re = "mesh_input A rn events done tick_cb (nd_runtime nd) re"
  obtain frames where frames: "r = node_input A frames tick_cb (nd_runtime nd)" using mesh_input_frames(1) [OF wire] r by blast
  have ok: "node_ok nd" by (rule node_reachable_ok [OF reach sh en cb refl])
  obtain nd' where nd': "node_tick st A sh en goap frames tick_cb nd = Some nd'" "node_ok nd'"
    "\<forall>ow k. ow \<noteq> FLEECE_SHARED_OWNER_ID \<and> ow \<noteq> sm_node_id (rt_state_manager r) \<longrightarrow>
       view (nd_store nd') (ow, k) = view (rt_state_manager r) (ow, k)"
    using node_tick_ok [OF sh en cb A ok fit frames room, where st = st] by blast
  have "node_work st A sh en goap (nd\<lparr>nd_runtime := re_host ?re\<rparr>) = Some nd'" using nd'(1) frames by (simp add: node_tick_def r)
  then obtain re' where re': "mesh_tick st A rn sh en goap events done tick_cb re nd = Some (re', nd')"
    "sends_only (?re\<lparr>re_host := nd_runtime nd'\<rparr>) re'"
    using route_sends_only [of "?re\<lparr>re_host := nd_runtime nd'\<rparr>"] by (auto simp: mesh_tick_def Let_def)
  have "table_ok rn (re_peers ?re)" "wired A ?re" using mesh_input_frames(2,3) [OF wire] table by simp_all
  then have "wired A re'" "table_ok rn (re_peers re')" "re_host re' = nd_runtime nd'"
    using re'(2) table_ok_same by (auto simp: sends_only_def wired_def)
  then show ?thesis using re'(1) nd' frames node_reachable.ticks [OF reach A fit room [unfolded frames] nd'(1)] by (auto simp: node_ok_def)
qed

section \<open>Witnesses\<close>

abbreviation demo_nine :: "(bytes, nat) Reticulum" where
  "demo_nine \<equiv> (demo_mesh demo_runtime)\<lparr>re_peers :=
     map (\<lambda>n. \<lparr>pt_identity = [n], pt_last_seen_tick = ucast n, pt_links = [Some 0, None]\<rparr>) [9, 3, 5, 4, 6, 7, 8, 10]\<rparr>"

theorem peer_table_spec_witness:
  "table_ok demo_rns (re_peers (received_announce yes demo_rns [1] demo_nine)) \<and>
   map fst (peer_entries (received_announce yes demo_rns [1] demo_nine)) = [[9], [1], [5], [4], [6], [7], [8], [10]]"
proof -
  have ok: "table_ok demo_rns (re_peers demo_nine)" by (simp add: table_ok_def demo_rns_def)
  have "map fst (peer_entries (received_announce yes demo_rns [1] demo_nine)) = [[9], [1], [5], [4], [6], [7], [8], [10]]" by code_simp
  then show ?thesis using peer_table_spec [OF ok refl, of yes "[1]"] by blast
qed

theorem fan_out_spec_witness:
  "re_calls (snd (sendToAllPeers demo_rns FleeceAspect [1, 2] (demo_mesh demo_runtime))) = [SendPacket [2, 0, 0, 0, 0, 0, 0, 0] FleeceAspect [1, 2]]"
proof -
  have pool: "\<not> pool_low demo_rns" by code_simp
  have fits: "of_nat (length [1, 2 :: u8]) \<le> single_packet_payload_ceiling demo_rns (re_config (demo_mesh demo_runtime))" by code_simp
  show ?thesis
    using fan_out_spec [where asp = FleeceAspect and data = "[1, 2]" and re = "demo_mesh demo_runtime" and fits = True, OF pool prod.collapse [symmetric] _ refl] fits
    by (simp add: demo_mesh_def demo_rns_def)
qed

theorem ceiling_spec_witness:
  "single_packet_payload_ceiling demo_rns (demo_config\<lparr>rc_radio_mtu := 120\<rparr>) = UINT64_MAX \<and>
   unat (single_packet_payload_ceiling demo_rns demo_config) + 1 + 116 \<le> 460"
proof -
  have small: "unat (rn_HEADER_MAXSIZE demo_rns) + unat (rn_IFAC_MIN_SIZE demo_rns) + unat (rn_FERNET_OVERHEAD demo_rns) + unat (rn_KEYSIZE demo_rns) < 2 ^ 32"
    and block: "0 < rn_AES128_BLOCKSIZE demo_rns" by (simp_all add: demo_rns_def)
  show ?thesis
    using ceiling_spec [OF small block _ refl refl refl, of "demo_config\<lparr>rc_radio_mtu := 120\<rparr>"]
      ceiling_spec [OF small block _ refl refl refl, of demo_config]
    by (simp add: demo_rns_def demo_config_def)
qed

theorem unicast_reaches_sender_witness:
  "re_calls (comms_send_router demo_rns (snprintf_s DEST_MAX (node_dest 2)) [70, 88, 1] (demo_mesh demo_runtime)) =
     [SendPacket [2, 0, 0, 0, 0, 0, 0, 0] FleeceAspect [70, 88, 1]]"
proof -
  have dest: "unicast_dest_for 2 = Some (node_dest 2)" by (simp add: unicast_dest_for_def)
  have "hash_node_id [2, 0, 0, 0, 0, 0, 0, 0] = 2" by code_simp
  then show ?thesis
    using unicast_reaches_sender [OF dest refl refl, of demo_rns "[70, 88, 1]" "demo_mesh demo_runtime"]
    by (simp add: demo_mesh_def demo_rns_def)
qed

theorem mesh_path_equivalent_witness:
  "armed_targets (re_host (onPacketReceived yes (fst (the (fleece_state_manager_export_shared yes demo_b))) (demo_mesh demo_armed))) =
   armed_targets (runtime_gossip_receive yes (\<lambda>_. yes) demo_armed (lit ''mesh'') (Some (fst (the (fleece_state_manager_export_shared yes demo_b)))))"
proof -
  let ?data = "fst (the (fleece_state_manager_export_shared yes demo_b))"
  have data: "?data \<noteq> []" by code_simp
  have import: "ir_rc (fleece_state_manager_import_from (\<lambda>_. yes) (rt_state_manager (re_host (demo_mesh demo_armed))) ?data) = 0" by code_simp
  have wire: "re_control_callback (demo_mesh demo_armed) = Some (on_control_packet yes)" "re_gap_callback (demo_mesh demo_armed) = Some on_gap"
    "re_state_manager (demo_mesh demo_armed)" "re_host (demo_mesh demo_armed) = demo_armed" by (simp_all add: demo_mesh_def)
  show ?thesis
    using mesh_path_equivalent [OF wire(1-3) data disjI2 [OF import], of "\<lparr>rs_complete = True, rs_initiator = False, rs_payload = ?data\<rparr>"] wire(4)
    by simp
qed

theorem rejected_frame_cancels_repair_witness:
  "armed_targets demo_armed = [(2, True)] \<and>
   armed_targets (re_host (onPacketReceived yes demo_torn (demo_mesh demo_armed))) = [(2, False)] \<and>
   armed_targets (runtime_gossip_receive yes (\<lambda>_. yes) demo_armed (lit ''mesh'') (Some demo_torn)) = [(2, True)]"
proof -
  have armed: "armed_targets demo_armed = [(2, True)]" by code_simp
  let ?ts = "rt_resync_targets demo_armed"
  have data: "demo_torn \<noteq> []" "\<not> is_fx_control_frame demo_torn"
    "ir_rc (fleece_state_manager_import_from (\<lambda>_. yes) (rt_state_manager demo_armed) demo_torn) \<noteq> 0"
    "ir_sender (fleece_state_manager_import_from (\<lambda>_. yes) (rt_state_manager demo_armed) demo_torn) = Some 2"
    "0 < length ?ts" "rs_exists (?ts ! 0)" "rs_node_id (?ts ! 0) = 2" "rs_need_shared (?ts ! 0)" "\<not> rs_awaiting_index (?ts ! 0)"
    "\<forall>t\<in>set (tl ?ts). \<not> rs_exists t" by code_simp+
  have wire: "re_gap_callback (demo_mesh demo_armed) = Some on_gap" "re_state_manager (demo_mesh demo_armed)"
    and host: "re_host (demo_mesh demo_armed) = demo_armed" by (simp_all add: demo_mesh_def)
  have inv: "rt_inv demo_armed" unfolding demo_armed_def by (rule note_behind_effect(1) [OF created_inv [OF demo_created]])
  obtain t ts where ts: "?ts = t # ts" using data(5) by (cases ?ts) auto
  have none: "filter rs_exists ts = []" using data(10) ts by (simp add: filter_empty_conv)
  from rejected_frame_cancels_repair [OF wire, unfolded host, OF inv data(1-4) refl data(5-9), of "lit ''mesh''"]
  show ?thesis using armed none data(6,7) ts by simp
qed

theorem identity_survives_reboot_witness:
  "\<exists>re3. fleece_reticulum_identity_init (demo_rns\<lparr>rn_generate := \<lambda>_. None\<rparr>)
       ((demo_mesh demo_runtime)\<lparr>re_config := demo_config\<lparr>rc_identity_load := Some (Some (replicate 64 7))\<rparr>\<rparr>) = (True, re3) \<and>
     fleece_reticulum_node_id re3 = 0x0707070707070707"
proof -
  let ?re1 = "snd (fleece_reticulum_identity_init demo_rns (demo_mesh demo_runtime))"
  let ?re2 = "(demo_mesh demo_runtime)\<lparr>re_config := demo_config\<lparr>rc_identity_load := Some (Some (replicate 64 7))\<rparr>\<rparr>"
  have "fst (fleece_reticulum_identity_init demo_rns (demo_mesh demo_runtime))" by code_simp
  then have first: "fleece_reticulum_identity_init demo_rns (demo_mesh demo_runtime) = (True, ?re1)" by (simp add: prod_eq_iff)
  have id: "re_node_id ?re1 = 0x0707070707070707" "re_saved_keys ?re1 = [replicate 64 7]" by code_simp+
  have start: "\<not> re_identity_ready (demo_mesh demo_runtime)" "rc_identity_load (re_config (demo_mesh demo_runtime)) = Some None"
    "re_saved_keys ?re1 \<noteq> re_saved_keys (demo_mesh demo_runtime)" "re_configured ?re2" "\<not> re_identity_ready ?re2"
    "rc_identity_load (re_config ?re2) = Some (Some (last (re_saved_keys ?re1)))"
    using id(2) by (simp_all add: demo_mesh_def demo_config_def)
  have library: "\<forall>d. \<exists>d'. rn_load_key demo_rns (rn_private_key demo_rns d) = Some d' \<and> rn_hash demo_rns d' = rn_hash demo_rns d"
    by (simp add: demo_rns_def)
  show ?thesis
    using identity_survives_reboot [OF first start(1-3) library start(4-6), of "\<lambda>_. None"] id(1)
    by (auto simp: fleece_reticulum_node_id_def)
qed

theorem mesh_node_never_stuck_witness:
  "\<exists>re' nd'. mesh_tick demo_statics yes demo_rns demo_script (\<lambda>_. demo_goap_engine) (demo_wait (lit ''w''))
     [AnnounceHeard [3], PacketIn demo_torn, ControlPacketIn [70, 88, 1]] True (\<lambda>r. r) (demo_mesh demo_runtime) demo_full = Some (re', nd') \<and>
     rt_inv (nd_runtime nd') \<and> table_ok demo_rns (re_peers re')"
proof -
  let ?events = "[AnnounceHeard [3], PacketIn demo_torn, ControlPacketIn [70, 88, 1]]" and ?re = "demo_mesh demo_runtime"
  have sh: "script_bounded 1 demo_script" by (simp add: script_bounded_def demo_script_def)
  have "fleece_goap_goal_count (demo_wait (lit ''w'')) = length (br_goal_cooldown_until (the (nd_brain demo_full)))" by code_simp
  then have fit: "\<forall>b. nd_brain demo_full = Some b \<longrightarrow> tables_fit (demo_wait (lit ''w'')) b" by (auto simp: tables_fit_def)
  have wire: "wired yes ?re" and table: "table_ok demo_rns (re_peers ?re)" by (simp_all add: wired_def table_ok_def demo_mesh_def)
  have "unat (sm_local_timestamp (rt_state_manager (re_host (mesh_input yes demo_rns ?events True (\<lambda>r. r) (nd_runtime demo_full) ?re)))) \<le> 100"
    by code_simp
  then have room: "clock_left (1 + (6 + 2 * 0 + 4 * 8)) (rt_state_manager (re_host (mesh_input yes demo_rns ?events True (\<lambda>r. r) (nd_runtime demo_full) ?re)))"
    by (simp add: unat_clock_max)
  show ?thesis
    using mesh_node_never_stuck [OF demo_full_reachable sh _ _ _ fit wire table refl room, of demo_statics] demo_engine_bounded by auto
qed

end
