(* ===== verification/Spec2Isabelle.thy ===== *)
theory Spec2Isabelle
  imports Store_Claims Gossip_Claims Platform Runtime_Loop Goap_Plan_Claims Goap_Selection Goap_Blob_Claims Goap_Blob_Safety Transport_Claims
begin

text \<open>
  \<^bold>\<open>Fleece, a swarm coordination runtime in C.\<close>

  Every node of a swarm keeps a store of named fields, some its own and some shared; it gossips the
  shared fields to its peers as CBOR frames, resolves concurrent writes by last-writer-wins, and
  repairs divergence by an exchange of control frames.  A runtime loop drives this once per tick,
  together with the host's hooks, a script engine and a goal-oriented action planner.

  \<^bold>\<open>Parts and theories.\<close>

  \<^item> \<open>Fleece_Prelude\<close>: machine types, C strings, first-match search, the insertion sort the sources
    write out by hand (locale \<open>shift_order\<close>), collections of simplification rules.
  \<^item> \<open>Cbor\<close>, \<open>Double\<close>, \<open>Double_Proofs\<close>: \<open>src/state/fleece_cbor.c\<close>.  Writers return the bytes they
    append; readers take the whole buffer and a position.  Doubles are IEEE binary64 bit patterns
    with executable comparison, rounding, arithmetic and \<open>strtod\<close>.  Locale \<open>item_codec\<close> is the
    contract between an encoder and its decoder.
  \<^item> \<open>State_Manager\<close>, \<open>Store_Invariant\<close>, \<open>Store_Ops\<close>, \<open>Store_Claims\<close>: the store of
    \<open>src/state/fleece_state_manager.c\<close>; its array of slots is a list of records, every entry point
    a function from the manager to the manager.
  \<^item> \<open>World_Merge\<close>, \<open>Swarm\<close>: the store seen as a map from keys to versions; a step relation for a
    swarm of nodes that write locally and deliver any version ever published, in any order and any
    number of times.
  \<^item> \<open>Gossip\<close>, \<open>Gossip_Proofs\<close>, \<open>Bounded_Export\<close>, \<open>Anti_Entropy\<close>, \<open>Gossip_Claims\<close>: the exporters
    and the importer of the same file, byte for byte.
  \<^item> \<open>Comms\<close>, \<open>Platform\<close>: \<open>src/comms/fleece_comms.c\<close> and \<open>src/platform/fleece_platform.c\<close>; the
    host's transport and functions are parameters.
  \<^item> \<open>Runtime\<close>, \<open>Runtime_Proofs\<close>, \<open>Runtime_Claims\<close>, \<open>Runtime_Loop\<close>: \<open>src/runtime/fleece_runtime.c\<close>:
    deferred transmissions, control frames, repair state per peer, the gossip phase, the tick and
    the main loop with the signals that may interrupt it.
  \<^item> \<open>Goap_Blackboard\<close>, \<open>Goap_State\<close>, \<open>Goap_Search\<close>, \<open>Goap_Containers\<close>, \<open>Goap_Tables\<close>,
    \<open>Goap_Selection\<close>, \<open>Goap_Plan\<close>, \<open>Goap_Plan_Claims\<close>, \<open>Goap_Blob\<close>, \<open>Goap_Blob_Proofs\<close>,
    \<open>Goap_Blob_Claims\<close>, \<open>Goap_Blob_Safety\<close>: the planner \<open>src/planner/fleece_planner.c\<close>:
    blackboard and state keys, visited set and heap, tables with their getters and goal selection,
    the A* search, and the plan blob.
  \<^item> \<open>Script_Engine\<close>, \<open>Script_Claims\<close>: the native functions of \<open>src/embedded/fleece_embedded.c\<close> behind
    the script globals; the QuickJS engine is a record of the calls made into it.
  \<^item> \<open>Script_Host\<close>: loading and running scripts, the life-cycle calls (\<open>init\<close>, \<open>step\<close>, \<open>reset\<close>, \<open>destroy\<close>) and
    the typed accessors of the same file.
  \<^item> \<open>Goal_Auction\<close>, \<open>Auction_Proofs\<close>, \<open>Auction_Claims\<close>: \<open>fleece_embedded_claim_best_goal\<close> and its
    helpers in the same file.
  \<^item> \<open>Goap_Js\<close>, \<open>Goap_Js_Claims\<close>: the evaluation bridge of \<open>src/embedded/fleece_goap_js.c\<close>: the cache
    of compiled functions, blackboards as objects and back, the planner's callbacks, the store as a
    blackboard and its commit.
  \<^item> \<open>Goap_Brain\<close>, \<open>Brain_Proofs\<close>, \<open>Brain_Claims\<close>, \<open>Goal_Pool\<close>: the behaviour loop of the same file:
    \<open>fleece_goap_brain_tick\<close> with its goal pool, action library, execution of the action in flight and
    planning.  A tick takes the brain, the embedded engine with its store, and the planner's tables, and
    returns them with the return code; what the host's event and divergence callbacks are told is
    appended to the log \<open>br_reports\<close>.
  \<^item> \<open>Node\<close>, \<open>Node_Claims\<close>: a whole node as \<open>src/runtime/fleece_runtime.c\<close> assembles it: runtime, script engine
    and brain over one store, and one tick of all of them; the states a node can reach through its interface.
  \<^item> \<open>Transport\<close>, \<open>Mesh_Node\<close>, \<open>Transport_Proofs\<close>, \<open>Transport_Claims\<close>: the mesh transport
    \<open>src/reticulum/fleece_reticulum.cpp\<close>, wired to a node as in \<open>benchmarks/bench_mesh.c\<close>.  The module's globals are one
    record; what the microReticulum library answers during a call is a record of functions, what the module asks of it a log, and
    an exception a flag beside the state it leaves.

  \<^bold>\<open>Conventions.\<close>  A C array with its count is a list; a struct is a record; machine integers are
  words of their width wherever wrap-around can be observed, and counts of elements held in memory
  are natural numbers.  Object pointers are non-NULL; a string or data pointer whose being NULL the
  code tests is an option.  Whether an allocation of a number of bytes succeeds is a parameter
  \<open>A\<close>, in the exporters' rounds, the importer, the snapshot and the commit one for each call, since the same size may succeed at one call and fail at the next; a
  failed allocation takes the branch the code takes.  A signal that arrives in a section of the loop (\<open>interrupt\<close>) clears the running
  flag at the section's end, which the loop reads only at its head.  Host code (transport, hooks, clock,
  evaluation callbacks of the planner, script engine) is a parameter.  Debug output is omitted.

  \<^bold>\<open>What is shown.\<close>

  \<^item> Store: what each write, delete, compare-and-set and listing does on every branch; the invariant
    of the slots; that compaction of a store whose only unnamed marker is in its last slot can lose a later value.
  \<^item> Swarm: stamps of shared versions are unique, versions are only replaced by larger ones, and
    nodes that know the same versions hold equal shared streams with equal digests.
  \<^item> Frames: exporters fill or stay within their buffers, an import of an export performs exactly
    the merges of its records, arbitrary bytes are harmless; the bytes of a capped frame and the watermark reported with it
    pass no record, and of 128 capped frames one carries any record that stays eligible.
  \<^item> Runtime: inbound frames of any content keep the invariant and only queue replies; queued
    frames are sent once, when due; repair rounds ask for what is missing and are answered (given memory and free slots in the queues);
    requests per tick are bounded; the gossip phase loses no record; the loop ends exactly when
    host code or a signal stops the runtime.
  \<^item> Planner: the blackboard is a finite map, equal states have equal keys, the heap is a priority
    queue under any sequence of operations without NaN and the visited set a bounded set; a search always returns and its plans can be executed
    to a state that meets the goals, within the budgets; ranking and selection agree; tables
    survive serialization, and stay well formed whatever bytes are parsed.  Three defects are
    proved on concrete inputs: a blob that makes the parser write past a buffer, a plan within the
    depth limit that the search misses, and a double release after a failed allocation.
  \<^item> Scripts: the native calls of a script are steps of the swarm's protocol, arbitrary calls keep
    the store's invariant and the fields of other nodes; the swarm object shows exactly the live
    peers; what is written to the world is read back.
  \<^item> Auction: a goal is handed out only with its claim, claims of live peers are replaced only by
    higher bids as long as there is memory, and the goal chosen is the best one open to the node.  Claims on goals with long
    keys are lost on the way to other nodes.
  \<^item> Evaluation bridge: the cache of compiled functions cannot be observed; committing an unmodified
    snapshot changes nothing if the commit's reads get their memory, and a commit writes exactly the fields that differ and those it could not compare.  An action without
    effects erases the planner's state.
  \<^item> Brain: a tick keeps the store's invariant and the fields of other nodes and makes a bounded number of
    writes; the action chosen starts a sound plan for the open goal of highest utility that can be planned; with
    memory every tick returns and the watchdog ends every action in time; a tick of the action library
    finishes, works on, or unblocks the goal held; a prerequisite goal fits its buffers.  A goal
    registered after the brain was created is looked up past the end of an array.  The ticks of a brain are
    steps of the swarm's protocol, so what is shown of swarms holds for nodes driven by brains.
  \<^item> Node: in every state a node can reach, its invariants hold and its next tick returns, whatever frames
    arrive.
  \<^item> Transport: the table of peers is bounded and replaces the peer silent for longest; a fan-out serves every peer that does
    not throw; unicast finds the peer by its node id; a frame has the same effect over the mesh as over the communication
    module if it is accepted; a node's id survives a reboot; a node on the mesh keeps going whatever the mesh delivers.
    Any frame that is rejected after its sender was read cancels a pending repair, and the packet limit can wrap around.

  \<^bold>\<open>Locales\<close> state the interfaces: \<open>shift_order\<close> (hand-written sorts), \<open>item_codec\<close> (wire items),
  \<open>field_map\<close> (blackboard), \<open>min_queue\<close> (open list), \<open>bounded_set\<close> (visited states),
  \<open>blob_table\<close> and \<open>table_loader\<close> (tables of a plan blob), \<open>lww_replica\<close> (a replica that merges
  versions by their stamps), \<open>name_registry\<close> (host functions by name), \<open>best_so_far\<close> (a scan
  for the best offer), \<open>mesh_host\<close> (the runtime as the transport sees it), \<open>writable_names\<close> (a set of names the parts of a brain may write, closed under what they
  build from them) and \<open>memo\<close> (a cache that answers as the function it caches); each is interpreted on
  the model's definitions.

  \<^bold>\<open>Fuel.\<close>  The walk from a node of the search to its root takes the number of nodes as fuel, which
  suffices because parents precede their children.  The search loop recurses on the iterations
  left.  The runtime loop has no fuel: it is a partial function, and its theorem says when it returns.
  The parser loops recurse on announced counts.

  \<^bold>\<open>Not modelled.\<close>  The QuickJS engine is not part of the repository: what a script computes is a parameter, and the proxy
  objects written in JavaScript, the printing functions and releasing the engine are left out; a script is
  the sequence of native calls it makes.  In the brain, objects have value semantics (an object built for a call is seen by
  that call only), and preconditions, effects, costs, goals and \<open>goalSatisfied\<close> read the store without
  writing it; only the bodies of actions make native calls.  The host's event callbacks are a log: they do
  not call back into the brain.  \<open>strdup\<close> succeeds, and the entries a search adds to the cache are not
  threaded through it, which the transparency of the cache justifies.  The microReticulum library
  is not part of the repository; it calls back only from its loop and from tearing a link down, and its answers do not change during one call
  into the transport.  Bindings, examples,
  benchmarks, the editor and the tests are outside the library.  Releasing memory is modelled only
  where it can go wrong.  The evaluation callbacks of the planner are functions of the blackboard:
  callbacks with a changing state of their own are not covered.
\<close>

end
